(* ===== verification/Compat_Prelude.thy ===== *)
theory Compat_Prelude
  imports "HOL-Library.Word"
begin

unbundle bit_operations_syntax

text \<open>
  Shared vocabulary of the development: the outcome of a C++ operation (a value, a thrown
  exception or undefined behaviour), C pointers to arrays, machine integers at their width, the
  allocator as a parameter, number printing, and the lemma collections the component proofs use.
\<close>

named_theorems ops \<open>unfolding equations of the modelled operations\<close>
named_theorems wf_intros \<open>preservation of the well-formedness invariants\<close>

subsection \<open>Outcomes\<close>

text \<open>
  The exception classes the library throws (the leading literal of the message is kept, the
  interpolated tail is not), the undefined behaviour its pointer code can reach, and \<open>std::terminate\<close>.
\<close>

datatype exn =
    RuntimeError string
  | LogicError string
  | OutOfRange string
  | AllocError
  | BadCast

datatype ub = NullDeref | SentinelDeref | OutOfBounds | SignedOverflow | UseAfterFree | TypeConfusion

datatype fault = Throw exn | UB ub | Terminate

type_synonym 'a res = "fault + 'a"

definition bind_res :: "'a res \<Rightarrow> ('a \<Rightarrow> 'b res) \<Rightarrow> 'b res" where
  "bind_res r f = (case r of Inl e \<Rightarrow> Inl e | Inr x \<Rightarrow> f x)"

lemma bind_res_simps [simp]:
  "bind_res (Inl e) f = Inl e"
  "bind_res (Inr x) f = f x"
  by (simp_all add: bind_res_def)

lemma bind_res_Inr_iff: "bind_res r f = Inr y \<longleftrightarrow> (\<exists>x. r = Inr x \<and> f x = Inr y)"
  by (cases r) auto

text \<open>An operation on an object returns an outcome and leaves the object in a state.\<close>

type_synonym ('s, 'a) op = "'s \<Rightarrow> 'a res \<times> 's"

subsection \<open>Pointers to C arrays\<close>

text \<open>
  A pointer to the first element of an array: \<open>NULL\<close>, the stack's \<open>UA_EMPTY_ARRAY_SENTINEL\<close>
  (the address 1, used for arrays of length zero) or allocated memory with its elements.
\<close>

datatype 'a ptr = Null | Sentinel | Heap "'a list"

definition ptr_elems :: "'a ptr \<Rightarrow> 'a list" where
  "ptr_elems p = (case p of Heap xs \<Rightarrow> xs | _ \<Rightarrow> [])"

lemma ptr_elems_simps [simp]:
  "ptr_elems Null = []" "ptr_elems Sentinel = []" "ptr_elems (Heap xs) = xs"
  by (simp_all add: ptr_elems_def)

text \<open>Reading through a pointer: the undefined cases are explicit.\<close>

definition deref :: "'a ptr \<Rightarrow> nat \<Rightarrow> 'a res" where
  "deref p i = (case p of Null \<Rightarrow> Inl (UB NullDeref) | Sentinel \<Rightarrow> Inl (UB SentinelDeref)
     | Heap xs \<Rightarrow> if i < length xs then Inr (xs ! i) else Inl (UB OutOfBounds))"

lemma deref_Heap0 [simp]: "deref (Heap (x # xs)) 0 = Inr x"
  by (simp add: deref_def)

text \<open>Reading the first \<open>n\<close> elements; an empty range reads nothing.\<close>

definition read_range :: "'a ptr \<Rightarrow> nat \<Rightarrow> 'a list res" where
  "read_range p n = (if n = 0 then Inr [] else
     (case p of Null \<Rightarrow> Inl (UB NullDeref) | Sentinel \<Rightarrow> Inl (UB SentinelDeref)
      | Heap xs \<Rightarrow> if n \<le> length xs then Inr (take n xs) else Inl (UB OutOfBounds)))"

lemma read_range_0 [simp]: "read_range p 0 = Inr []"
  by (simp add: read_range_def)

lemma read_range_Heap [simp]: "read_range (Heap xs) (length xs) = Inr xs"
  by (simp add: read_range_def)

subsection \<open>Memory\<close>

text \<open>
  The allocator is a parameter: \<open>can_alloc al n\<close> says whether an allocation of \<open>n\<close> bytes succeeds.
  Theorems about the error paths choose it; theorems about success assume \<open>mem_ok\<close>.
\<close>

datatype allocator = Allocator (can_alloc: "nat \<Rightarrow> bool")

definition mem_ok :: "allocator \<Rightarrow> bool" where
  "mem_ok al \<longleftrightarrow> (\<forall>n. can_alloc al n)"

lemma mem_okD [simp]: "mem_ok al \<Longrightarrow> can_alloc al n"
  by (simp add: mem_ok_def)

text \<open>The allocator that never fails, and one with a limit on the size of a block.\<close>

definition enough_memory :: allocator where
  "enough_memory = Allocator (\<lambda>_. True)"

definition memory_limit :: "nat \<Rightarrow> allocator" where
  "memory_limit m = Allocator (\<lambda>n. n \<le> m)"

lemma mem_ok_enough [simp]: "mem_ok enough_memory"
  by (simp add: mem_ok_def enough_memory_def)

subsection \<open>Integers\<close>

definition INT32_MAX :: int where "INT32_MAX = 2147483647"
definition SIZE_MAX :: nat where "SIZE_MAX = 18446744073709551615"

text \<open>\<open>int\<close> to \<open>size_t\<close>: two's complement on 64 bits.\<close>

definition size_of_int :: "int \<Rightarrow> nat" where
  "size_of_int i = nat (i mod 18446744073709551616)"

lemma size_of_int_nonneg: "0 \<le> i \<Longrightarrow> i < 18446744073709551616 \<Longrightarrow> size_of_int i = nat i"
  by (simp add: size_of_int_def)

lemma size_of_int_neg:
  assumes "i < 0" "- 9223372036854775808 \<le> i"
  shows "size_of_int i = nat (i + 18446744073709551616)"
proof -
  have "i mod 18446744073709551616 = (i + 18446744073709551616) mod 18446744073709551616" by simp
  also have "\<dots> = i + 18446744073709551616" using assms by (intro mod_pos_pos_trivial) auto
  finally show ?thesis by (simp add: size_of_int_def)
qed

text \<open>\<open>size_t\<close> to a signed 32-bit integer, as the implicit conversion does it.\<close>

definition int32_of_size :: "nat \<Rightarrow> int" where
  "int32_of_size n = sint (word_of_nat n :: 32 word)"

lemma int32_of_size_small: "n < 2147483648 \<Longrightarrow> int32_of_size n = int n"
proof -
  assume n: "n < 2147483648"
  have "uint (word_of_nat n :: 32 word) = int n"
    using n by (simp add: uint_word_of_int_eq take_bit_int_eq_self_iff unsigned_of_nat take_bit_nat_eq_self_iff)
  then show ?thesis
    using n by (simp add: int32_of_size_def sint_uint signed_take_bit_int_eq_self_iff)
qed

text \<open>A product of two \<open>int64_t\<close>: signed overflow is undefined.\<close>

definition in_int64 :: "int \<Rightarrow> bool" where
  "in_int64 i \<longleftrightarrow> - 9223372036854775808 \<le> i \<and> i \<le> 9223372036854775807"

definition mul_int64 :: "int \<Rightarrow> int \<Rightarrow> int res" where
  "mul_int64 a b = (if in_int64 (a * b) then Inr (a * b) else Inl (UB SignedOverflow))"

definition add_int64 :: "int \<Rightarrow> int \<Rightarrow> int res" where
  "add_int64 a b = (if in_int64 (a + b) then Inr (a + b) else Inl (UB SignedOverflow))"

text \<open>C division truncates towards zero.\<close>

definition trunc_div :: "int \<Rightarrow> int \<Rightarrow> int" where
  "trunc_div a b = sgn a * sgn b * (\<bar>a\<bar> div \<bar>b\<bar>)"

definition trunc_mod :: "int \<Rightarrow> int \<Rightarrow> int" where
  "trunc_mod a b = a - b * trunc_div a b"

subsection \<open>Printing numbers\<close>

definition hex_digit :: "nat \<Rightarrow> char" where
  "hex_digit d = ''0123456789abcdef'' ! (d mod 16)"

text \<open>Digits in base \<open>b\<close>, most significant first, as an output stream prints an unsigned number.\<close>

fun show_base :: "nat \<Rightarrow> nat \<Rightarrow> string" where
  "show_base b n = (if n < b \<or> b < 2 then [hex_digit n] else show_base b (n div b) @ [hex_digit (n mod b)])"

declare show_base.simps [simp del]

definition hex_chars :: "char set" where
  "hex_chars = set ''0123456789abcdef''"

lemma hex_digit_in: "hex_digit d \<in> hex_chars"
proof -
  have "d mod 16 < length ''0123456789abcdef''" by simp
  then show ?thesis unfolding hex_digit_def hex_chars_def by (rule nth_mem)
qed

lemma show_base_chars: "set (show_base b n) \<subseteq> hex_chars"
proof (induction b n rule: show_base.induct)
  case (1 b n)
  then show ?case
    by (subst show_base.simps) (auto simp: hex_digit_in)
qed

lemma hex_digit_inj: "hex_digit a = hex_digit b \<Longrightarrow> a < 16 \<Longrightarrow> b < 16 \<Longrightarrow> a = b"
proof -
  assume eq: "hex_digit a = hex_digit b" and lt: "a < 16" "b < 16"
  have "distinct ''0123456789abcdef''" by simp
  then have "''0123456789abcdef'' ! a = ''0123456789abcdef'' ! b \<longleftrightarrow> a = b"
    using lt by (intro nth_eq_iff_index_eq) simp_all
  then show "a = b" using eq lt by (simp add: hex_digit_def)
qed

lemma show_base_nonempty [simp]: "show_base b n \<noteq> []"
  by (subst show_base.simps) simp

lemma show_base_inj:
  assumes "2 \<le> b" "b \<le> 16"
  shows "show_base b m = show_base b n \<Longrightarrow> m = n"
proof (induction m arbitrary: n rule: less_induct)
  case (less m)
  note eqs = show_base.simps [of b m] show_base.simps [of b n]
  have single: "show_base b k @ [c] \<noteq> [d]" for k c d by simp
  consider "m < b" "n < b" | "m < b" "b \<le> n" | "b \<le> m" "n < b" | "b \<le> m" "b \<le> n" by linarith
  then show ?case
  proof cases
    case 1
    with less.prems eqs assms show ?thesis by (simp add: hex_digit_inj)
  next
    case 2
    with less.prems eqs assms single show ?thesis by (metis not_less)
  next
    case 3
    with less.prems eqs assms single show ?thesis by (metis not_less)
  next
    case 4
    with less.prems eqs assms have div: "show_base b (m div b) = show_base b (n div b)"
      and md: "hex_digit (m mod b) = hex_digit (n mod b)" by auto
    have "m div b < m" using 4 assms by (intro div_less_dividend) auto
    then have "m div b = n div b" using div by (rule less.IH)
    moreover have "m mod b < 16" "n mod b < 16"
      using assms by (auto intro: less_le_trans [OF mod_less_divisor])
    then have "m mod b = n mod b" using md by (rule hex_digit_inj [rotated 1])
    ultimately show ?thesis by (metis div_mult_mod_eq)
  qed
qed

subsection \<open>Separators in strings\<close>

lemma split_at_sep:
  assumes "xs @ c # ys = xs' @ c # ys'" "c \<notin> set xs" "c \<notin> set xs'"
  shows "xs = xs' \<and> ys = ys'"
  using assms
proof (induction xs arbitrary: xs')
  case Nil
  then show ?case by (cases xs') auto
next
  case (Cons x xs)
  then show ?case by (cases xs') auto
qed

subsection \<open>C strings\<close>

text \<open>The bytes of a C string end before the first NUL.\<close>

definition c_str :: "string \<Rightarrow> string" where
  "c_str s = takeWhile (\<lambda>c. c \<noteq> CHR 0x00) s"

definition nul_free :: "string \<Rightarrow> bool" where
  "nul_free s \<longleftrightarrow> CHR 0x00 \<notin> set s"

lemma c_str_nul_free [simp]: "nul_free s \<Longrightarrow> c_str s = s"
  by (auto simp: c_str_def nul_free_def takeWhile_eq_all_conv)

lemma nul_free_c_str [simp]: "nul_free (c_str s)"
  by (auto simp: c_str_def nul_free_def dest: set_takeWhileD)

lemma nul_free_Nil [simp]: "nul_free []"
  by (simp add: nul_free_def)

lemma nul_free_Cons [simp]: "nul_free (c # s) \<longleftrightarrow> c \<noteq> CHR 0x00 \<and> nul_free s"
  by (auto simp: nul_free_def)

lemma nul_free_append [simp]: "nul_free (s @ t) \<longleftrightarrow> nul_free s \<and> nul_free t"
  by (auto simp: nul_free_def)

end
