(* ===== verification/StatusCode.thy ===== *)
theory StatusCode
  imports Compat_Prelude
begin

text \<open>
  Status codes: \<open>include/statuscode.h\<close> and \<open>src/statuscode.cpp\<close>. A status code is a 32-bit word whose two
  top bits are the severity. \<open>UaStatus\<close> wraps one; the alias table gives every \<open>OpcUa_*\<close> name of
  the header its value, resolved through the stack's \<open>UA_STATUSCODE_*\<close> macros.
\<close>

type_synonym UA_StatusCode = "32 word"

subsection \<open>The alias set\<close>

text \<open>The names the code of the library itself uses.\<close>

abbreviation OpcUa_Good :: UA_StatusCode where "OpcUa_Good \<equiv> 0x00000000"
abbreviation OpcUa_Bad :: UA_StatusCode where "OpcUa_Bad \<equiv> 0x80000000"
abbreviation OpcUa_Uncertain :: UA_StatusCode where "OpcUa_Uncertain \<equiv> 0x40000000"
abbreviation OpcUa_BadNotImplemented :: UA_StatusCode where "OpcUa_BadNotImplemented \<equiv> 0x80400000"
abbreviation OpcUa_BadDataEncodingInvalid :: UA_StatusCode where "OpcUa_BadDataEncodingInvalid \<equiv> 0x80380000"
abbreviation OpcUa_BadInvalidArgument :: UA_StatusCode where "OpcUa_BadInvalidArgument \<equiv> 0x80AB0000"
abbreviation OpcUa_BadOutOfRange :: UA_StatusCode where "OpcUa_BadOutOfRange \<equiv> 0x803C0000"
abbreviation OpcUa_BadUserAccessDenied :: UA_StatusCode where "OpcUa_BadUserAccessDenied \<equiv> 0x801F0000"
abbreviation OpcUa_BadNotSupported :: UA_StatusCode where "OpcUa_BadNotSupported \<equiv> 0x803D0000"
abbreviation OpcUa_BadOutOfService :: UA_StatusCode where "OpcUa_BadOutOfService \<equiv> 0x808D0000"
abbreviation OpcUa_BadInternalError :: UA_StatusCode where "OpcUa_BadInternalError \<equiv> 0x80020000"
abbreviation OpcUa_BadInvalidState :: UA_StatusCode where "OpcUa_BadInvalidState \<equiv> 0x80AF0000"
abbreviation OpcUa_BadTypeMismatch :: UA_StatusCode where "OpcUa_BadTypeMismatch \<equiv> 0x80740000"
abbreviation OpcUa_BadTimeout :: UA_StatusCode where "OpcUa_BadTimeout \<equiv> 0x800A0000"
abbreviation OpcUa_BadOutOfMemory :: UA_StatusCode where "OpcUa_BadOutOfMemory \<equiv> 0x80030000"
abbreviation OpcUa_BadNotFound :: UA_StatusCode where "OpcUa_BadNotFound \<equiv> 0x803E0000"
abbreviation OpcUa_BadNodeIdUnknown :: UA_StatusCode where "OpcUa_BadNodeIdUnknown \<equiv> 0x80340000"
abbreviation OpcUa_BadUnknownResponse :: UA_StatusCode where "OpcUa_BadUnknownResponse \<equiv> 0x80090000"
abbreviation OpcUa_BadNodeIdExists :: UA_StatusCode where "OpcUa_BadNodeIdExists \<equiv> 0x805E0000"
abbreviation OpcUa_BadShutdown :: UA_StatusCode where "OpcUa_BadShutdown \<equiv> 0x800C0000"
abbreviation UA_STATUSCODE_GOODCOMPLETESASYNCHRONOUSLY :: UA_StatusCode where
  "UA_STATUSCODE_GOODCOMPLETESASYNCHRONOUSLY \<equiv> 0x002E0000"
abbreviation UA_STATUSCODE_BADTOOMANYOPERATIONS :: UA_StatusCode where
  "UA_STATUSCODE_BADTOOMANYOPERATIONS \<equiv> 0x80100000"

text \<open>The whole table, in the order of the header, in two halves.\<close>

definition status_aliases_1 :: "(string \<times> UA_StatusCode) list" where
  "status_aliases_1 = [
     (''OpcUa_Good'', 0x00000000),
     (''OpcUa_Bad'', 0x80000000),
     (''OpcUa_Uncertain'', 0x40000000),
     (''OpcUa_BadNotImplemented'', 0x80400000),
     (''OpcUa_BadNoData'', 0x809B0000),
     (''OpcUa_BadDataEncodingInvalid'', 0x80380000),
     (''OpcUa_BadDataUnavailable'', 0x809E0000),
     (''OpcUa_BadInvalidArgument'', 0x80AB0000),
     (''OpcUa_BadWaitingForInitialData'', 0x80320000),
     (''OpcUa_BadOutOfRange'', 0x803C0000),
     (''OpcUa_BadUserAccessDenied'', 0x801F0000),
     (''OpcUa_BadNoCommunication'', 0x80310000),
     (''OpcUa_BadCommunicationError'', 0x80050000),
     (''OpcUa_BadNotSupported'', 0x803D0000),
     (''OpcUa_BadResourceUnavailable'', 0x80040000),
     (''OpcUa_BadOutOfService'', 0x808D0000),
     (''OpcUa_BadNotReadable'', 0x803A0000),
     (''OpcUa_BadNotWritable'', 0x803B0000),
     (''OpcUa_BadInternalError'', 0x80020000),
     (''OpcUa_BadInvalidState'', 0x80AF0000),
     (''OpcUa_UncertainInitialValue'', 0x40920000),
     (''OpcUa_BadUnexpectedError'', 0x80010000),
     (''OpcUa_BadParentNodeIdInvalid'', 0x805B0000),
     (''OpcUa_BadServerNotConnected'', 0x800D0000),
     (''OpcUa_BadIndexRangeInvalid'', 0x80360000),
     (''OpcUa_BadIndexRangeNoData'', 0x80370000),
     (''OpcUa_BadArgumentsMissing'', 0x80760000),
     (''OpcUa_BadConnectionClosed'', 0x80AE0000),
     (''OpcUa_BadAggregateConfigurationRejected'', 0x80DA0000),
     (''OpcUa_BadAggregateInvalidInputs'', 0x80D60000),
     (''OpcUa_BadAggregateListMismatch'', 0x80D40000),
     (''OpcUa_BadAggregateNotSupported'', 0x80D50000),
     (''OpcUa_BadAlreadyExists'', 0x81150000),
     (''OpcUa_BadApplicationSignatureInvalid'', 0x80580000),
     (''OpcUa_BadAttributeIdInvalid'', 0x80350000),
     (''OpcUa_BadBoundNotFound'', 0x80D70000),
     (''OpcUa_BadBoundNotSupported'', 0x80D80000),
     (''OpcUa_BadBrowseDirectionInvalid'', 0x804D0000),
     (''OpcUa_BadBrowseNameDuplicated'', 0x80610000),
     (''OpcUa_BadBrowseNameInvalid'', 0x80600000),
     (''OpcUa_BadCertificateChainIncomplete'', 0x810D0000),
     (''OpcUa_BadCertificateHostNameInvalid'', 0x80160000),
     (''OpcUa_BadCertificateInvalid'', 0x80120000),
     (''OpcUa_BadCertificateIssuerRevocationUnknown'', 0x801C0000),
     (''OpcUa_BadCertificateIssuerRevoked'', 0x801E0000),
     (''OpcUa_BadCertificateIssuerTimeInvalid'', 0x80150000),
     (''OpcUa_BadCertificateIssuerUseNotAllowed'', 0x80190000),
     (''OpcUa_BadCertificatePolicyCheckFailed'', 0x81140000),
     (''OpcUa_BadCertificateRevocationUnknown'', 0x801B0000),
     (''OpcUa_BadCertificateRevoked'', 0x801D0000),
     (''OpcUa_BadCertificateTimeInvalid'', 0x80140000),
     (''OpcUa_BadCertificateUntrusted'', 0x801A0000),
     (''OpcUa_BadCertificateUriInvalid'', 0x80170000),
     (''OpcUa_BadCertificateUseNotAllowed'', 0x80180000),
     (''OpcUa_BadConditionAlreadyDisabled'', 0x80980000),
     (''OpcUa_BadConditionAlreadyEnabled'', 0x80CC0000),
     (''OpcUa_BadConditionAlreadyShelved'', 0x80D10000),
     (''OpcUa_BadConditionBranchAlreadyAcked'', 0x80CF0000),
     (''OpcUa_BadConditionBranchAlreadyConfirmed'', 0x80D00000),
     (''OpcUa_BadConditionDisabled'', 0x80990000),
     (''OpcUa_BadConditionNotShelved'', 0x80D20000),
     (''OpcUa_BadConfigurationError'', 0x80890000),
     (''OpcUa_BadConnectionRejected'', 0x80AC0000),
     (''OpcUa_BadContentFilterInvalid'', 0x80480000),
     (''OpcUa_BadContinuationPointInvalid'', 0x804A0000),
     (''OpcUa_BadDataEncodingUnsupported'', 0x80390000),
     (''OpcUa_BadDataLost'', 0x809D0000),
     (''OpcUa_BadDataTypeIdUnknown'', 0x80110000),
     (''OpcUa_BadDeadbandFilterInvalid'', 0x808E0000),
     (''OpcUa_BadDecodingError'', 0x80070000),
     (''OpcUa_BadDependentValueChanged'', 0x80E30000),
     (''OpcUa_BadDeviceFailure'', 0x808B0000),
     (''OpcUa_BadDialogNotActive'', 0x80CD0000),
     (''OpcUa_BadDialogResponseInvalid'', 0x80CE0000),
     (''OpcUa_BadDisconnect'', 0x80AD0000),
     (''OpcUa_BadDiscoveryUrlMissing'', 0x80510000),
     (''OpcUa_BadDominantValueChanged'', 0x80E10000),
     (''OpcUa_BadDuplicateReferenceNotAllowed'', 0x80660000),
     (''OpcUa_BadEncodingError'', 0x80060000),
     (''OpcUa_BadEncodingLimitsExceeded'', 0x80080000),
     (''OpcUa_BadEndOfStream'', 0x80B00000),
     (''OpcUa_BadEntryExists'', 0x809F0000),
     (''OpcUa_BadEventFilterInvalid'', 0x80470000),
     (''OpcUa_BadEventIdUnknown'', 0x809A0000),
     (''OpcUa_BadEventNotAcknowledgeable'', 0x80BB0000),
     (''OpcUa_BadExpectedStreamToBlock'', 0x80B40000),
     (''OpcUa_BadFilterElementInvalid'', 0x80C40000),
     (''OpcUa_BadFilterLiteralInvalid'', 0x80C50000),
     (''OpcUa_BadFilterNotAllowed'', 0x80450000),
     (''OpcUa_BadFilterOperandCountMismatch'', 0x80C30000),
     (''OpcUa_BadFilterOperandInvalid'', 0x80490000),
     (''OpcUa_BadFilterOperatorInvalid'', 0x80C10000),
     (''OpcUa_BadFilterOperatorUnsupported'', 0x80C20000),
     (''OpcUa_BadHistoryOperationInvalid'', 0x80710000),
     (''OpcUa_BadHistoryOperationUnsupported'', 0x80720000),
     (''OpcUa_BadIdentityChangeNotSupported'', 0x80C60000),
     (''OpcUa_BadIdentityTokenInvalid'', 0x80200000),
     (''OpcUa_BadIdentityTokenRejected'', 0x80210000),
     (''OpcUa_BadInsufficientClientProfile'', 0x807C0000),
     (''OpcUa_BadInvalidSelfReference'', 0x80670000),
     (''OpcUa_BadInvalidTimestamp'', 0x80230000),
     (''OpcUa_BadInvalidTimestampArgument'', 0x80BD0000),
     (''OpcUa_BadLicenseExpired'', 0x810E0000),
     (''OpcUa_BadLicenseLimitsExceeded'', 0x810F0000),
     (''OpcUa_BadLicenseNotAvailable'', 0x81100000),
     (''OpcUa_BadMaxAgeInvalid'', 0x80700000),
     (''OpcUa_BadMaxConnectionsReached'', 0x80B70000),
     (''OpcUa_BadMessageNotAvailable'', 0x807B0000),
     (''OpcUa_BadMethodInvalid'', 0x80750000),
     (''OpcUa_BadMonitoredItemFilterInvalid'', 0x80430000),
     (''OpcUa_BadMonitoredItemFilterUnsupported'', 0x80440000),
     (''OpcUa_BadMonitoredItemIdInvalid'', 0x80420000),
     (''OpcUa_BadMonitoringModeInvalid'', 0x80410000),
     (''OpcUa_BadNoContinuationPoints'', 0x804B0000),
     (''OpcUa_BadNoDataAvailable'', 0x80B10000),
     (''OpcUa_BadNoDeleteRights'', 0x80690000),
     (''OpcUa_BadNoEntryExists'', 0x80A00000),
     (''OpcUa_BadNoMatch'', 0x806F0000),
     (''OpcUa_BadNoSubscription'', 0x80790000),
     (''OpcUa_BadNoValidCertificates'', 0x80590000),
     (''OpcUa_BadNodeAttributesInvalid'', 0x80620000),
     (''OpcUa_BadNodeClassInvalid'', 0x805F0000)]"

definition status_aliases_2 :: "(string \<times> UA_StatusCode) list" where
  "status_aliases_2 = [
     (''OpcUa_BadNodeIdExists'', 0x805E0000),
     (''OpcUa_BadNodeIdInvalid'', 0x80330000),
     (''OpcUa_BadNodeIdRejected'', 0x805D0000),
     (''OpcUa_BadNodeIdUnknown'', 0x80340000),
     (''OpcUa_BadNodeNotInView'', 0x804E0000),
     (''OpcUa_BadNonceInvalid'', 0x80240000),
     (''OpcUa_BadNotConnected'', 0x808A0000),
     (''OpcUa_BadNotExecutable'', 0x81110000),
     (''OpcUa_BadNotFound'', 0x803E0000),
     (''OpcUa_BadNotTypeDefinition'', 0x80C80000),
     (''OpcUa_BadNothingToDo'', 0x800F0000),
     (''OpcUa_BadNumericOverflow'', 0x81120000),
     (''OpcUa_BadObjectDeleted'', 0x803F0000),
     (''OpcUa_BadOperationAbandoned'', 0x80B30000),
     (''OpcUa_BadOutOfMemory'', 0x80030000),
     (''OpcUa_BadProtocolVersionUnsupported'', 0x80BE0000),
     (''OpcUa_BadQueryTooComplex'', 0x806E0000),
     (''OpcUa_BadReferenceLocalOnly'', 0x80680000),
     (''OpcUa_BadReferenceNotAllowed'', 0x805C0000),
     (''OpcUa_BadReferenceTypeIdInvalid'', 0x804C0000),
     (''OpcUa_BadRefreshInProgress'', 0x80970000),
     (''OpcUa_BadRequestCancelledByClient'', 0x802C0000),
     (''OpcUa_BadRequestCancelledByRequest'', 0x805A0000),
     (''OpcUa_BadRequestHeaderInvalid'', 0x802A0000),
     (''OpcUa_BadRequestInterrupted'', 0x80840000),
     (''OpcUa_BadRequestNotAllowed'', 0x80E40000),
     (''OpcUa_BadRequestNotComplete'', 0x81130000),
     (''OpcUa_BadRequestTimeout'', 0x80850000),
     (''OpcUa_BadRequestTooLarge'', 0x80B80000),
     (''OpcUa_BadRequestTypeInvalid'', 0x80530000),
     (''OpcUa_BadResponseTooLarge'', 0x80B90000),
     (''OpcUa_BadSecureChannelClosed'', 0x80860000),
     (''OpcUa_BadSecureChannelIdInvalid'', 0x80220000),
     (''OpcUa_BadSecureChannelTokenUnknown'', 0x80870000),
     (''OpcUa_BadSecurityChecksFailed'', 0x80130000),
     (''OpcUa_BadSecurityModeInsufficient'', 0x80E60000),
     (''OpcUa_BadSecurityModeRejected'', 0x80540000),
     (''OpcUa_BadSecurityPolicyRejected'', 0x80550000),
     (''OpcUa_BadSemaphoreFileMissing'', 0x80520000),
     (''OpcUa_BadSensorFailure'', 0x808C0000),
     (''OpcUa_BadSequenceNumberInvalid'', 0x80880000),
     (''OpcUa_BadSequenceNumberUnknown'', 0x807A0000),
     (''OpcUa_BadServerHalted'', 0x800E0000),
     (''OpcUa_BadServerIndexInvalid'', 0x806A0000),
     (''OpcUa_BadServerNameMissing'', 0x80500000),
     (''OpcUa_BadServerUriInvalid'', 0x804F0000),
     (''OpcUa_BadServiceUnsupported'', 0x800B0000),
     (''OpcUa_BadSessionClosed'', 0x80260000),
     (''OpcUa_BadSessionIdInvalid'', 0x80250000),
     (''OpcUa_BadSessionNotActivated'', 0x80270000),
     (''OpcUa_BadShelvingTimeOutOfRange'', 0x80D30000),
     (''OpcUa_BadShutdown'', 0x800C0000),
     (''OpcUa_BadSourceNodeIdInvalid'', 0x80640000),
     (''OpcUa_BadStateNotActive'', 0x80BF0000),
     (''OpcUa_BadStructureMissing'', 0x80460000),
     (''OpcUa_BadSubscriptionIdInvalid'', 0x80280000),
     (''OpcUa_BadSyntaxError'', 0x80B60000),
     (''OpcUa_BadTargetNodeIdInvalid'', 0x80650000),
     (''OpcUa_BadTcpEndpointUrlInvalid'', 0x80830000),
     (''OpcUa_BadTcpInternalError'', 0x80820000),
     (''OpcUa_BadTcpMessageTooLarge'', 0x80800000),
     (''OpcUa_BadTcpMessageTypeInvalid'', 0x807E0000),
     (''OpcUa_BadTcpNotEnoughResources'', 0x80810000),
     (''OpcUa_BadTcpSecureChannelUnknown'', 0x807F0000),
     (''OpcUa_BadTcpServerTooBusy'', 0x807D0000),
     (''OpcUa_BadTicketInvalid'', 0x81200000),
     (''OpcUa_BadTicketRequired'', 0x811F0000),
     (''OpcUa_BadTimeout'', 0x800A0000),
     (''OpcUa_BadTimestampNotSupported'', 0x80A10000),
     (''OpcUa_BadTimestampsToReturnInvalid'', 0x802B0000),
     (''OpcUa_BadTooManyArguments'', 0x80E50000),
     (''OpcUa_BadTooManyMatches'', 0x806D0000),
     (''OpcUa_BadTooManyMonitoredItems'', 0x80DB0000),
     (''OpcUa_BadTooManyOperations'', 0x80100000),
     (''OpcUa_BadTooManyPublishRequests'', 0x80780000),
     (''OpcUa_BadTooManySessions'', 0x80560000),
     (''OpcUa_BadTooManySubscriptions'', 0x80770000),
     (''OpcUa_BadTransactionPending'', 0x80E80000),
     (''OpcUa_BadTypeDefinitionInvalid'', 0x80630000),
     (''OpcUa_BadTypeMismatch'', 0x80740000),
     (''OpcUa_BadUnknownResponse'', 0x80090000),
     (''OpcUa_BadUserSignatureInvalid'', 0x80570000),
     (''OpcUa_BadViewIdUnknown'', 0x806B0000),
     (''OpcUa_BadViewParameterMismatch'', 0x80CA0000),
     (''OpcUa_BadViewTimestampInvalid'', 0x80C90000),
     (''OpcUa_BadViewVersionInvalid'', 0x80CB0000),
     (''OpcUa_BadWaitingForResponse'', 0x80B20000),
     (''OpcUa_BadWouldBlock'', 0x80B50000),
     (''OpcUa_BadWriteNotSupported'', 0x80730000),
     (''OpcUa_GoodCallAgain'', 0x00A90000),
     (''OpcUa_GoodClamped'', 0x00300000),
     (''OpcUa_GoodCommunicationEvent'', 0x00A70000),
     (''OpcUa_GoodCompletesAsynchronously'', 0x002E0000),
     (''OpcUa_GoodDataIgnored'', 0x00D90000),
     (''OpcUa_GoodDependentValueChanged'', 0x00E00000),
     (''OpcUa_GoodEdited'', 0x00DC0000),
     (''OpcUa_GoodEntryInserted'', 0x00A20000),
     (''OpcUa_GoodEntryReplaced'', 0x00A30000),
     (''OpcUa_GoodLocalOverride'', 0x00960000),
     (''OpcUa_GoodMoreData'', 0x00A60000),
     (''OpcUa_GoodNoData'', 0x00A50000),
     (''OpcUa_GoodNonCriticalTimeout'', 0x00AA0000),
     (''OpcUa_GoodOverload'', 0x002F0000),
     (''OpcUa_GoodPostActionFailed'', 0x00DD0000),
     (''OpcUa_GoodResultsMayBeIncomplete'', 0x00BA0000),
     (''OpcUa_GoodRetransmissionQueueNotSupported'', 0x00DF0000),
     (''OpcUa_GoodShutdownEvent'', 0x00A80000),
     (''OpcUa_GoodSubscriptionTransferred'', 0x002D0000),
     (''OpcUa_UncertainDataSubNormal'', 0x40A40000),
     (''OpcUa_UncertainDependentValueChanged'', 0x40E20000),
     (''OpcUa_UncertainDominantValueChanged'', 0x40DE0000),
     (''OpcUa_UncertainEngineeringUnitsExceeded'', 0x40940000),
     (''OpcUa_UncertainLastUsableValue'', 0x40900000),
     (''OpcUa_UncertainNoCommunicationLastUsableValue'', 0x408F0000),
     (''OpcUa_UncertainNotAllNodesAvailable'', 0x40C00000),
     (''OpcUa_UncertainReferenceNotDeleted'', 0x40BC0000),
     (''OpcUa_UncertainReferenceOutOfServer'', 0x406C0000),
     (''OpcUa_UncertainSensorNotAccurate'', 0x40930000),
     (''OpcUa_UncertainSubNormal'', 0x40950000),
     (''OpcUa_UncertainSubstituteValue'', 0x40910000)]"

definition status_aliases :: "(string \<times> UA_StatusCode) list" where
  "status_aliases = status_aliases_1 @ status_aliases_2"

subsection \<open>UaStatus\<close>

record UaStatus =
  m_status :: UA_StatusCode

definition UaStatus_of :: "UA_StatusCode \<Rightarrow> UaStatus" where
  "UaStatus_of s = \<lparr>m_status = s\<rparr>"

text \<open>The default constructor initializes to \<open>OpcUa_Bad\<close>.\<close>

definition UaStatus_default :: UaStatus where
  "UaStatus_default = \<lparr>m_status = OpcUa_Bad\<rparr>"

definition isGood :: "UaStatus \<Rightarrow> bool" where
  "isGood s \<longleftrightarrow> m_status s = OpcUa_Good"

definition isNotGood :: "UaStatus \<Rightarrow> bool" where
  "isNotGood s \<longleftrightarrow> \<not> isGood s"

definition isBad :: "UaStatus \<Rightarrow> bool" where
  "isBad s \<longleftrightarrow> bit (m_status s) 31"

definition isUncertain :: "UaStatus \<Rightarrow> bool" where
  "isUncertain s \<longleftrightarrow> bit (m_status s) 30"

definition statusCode :: "UaStatus \<Rightarrow> UA_StatusCode" where
  "statusCode s = m_status s"

lemma UaStatus_simps [simp]:
  "m_status (UaStatus_of c) = c"
  "isGood (UaStatus_of c) \<longleftrightarrow> c = OpcUa_Good"
  "isNotGood (UaStatus_of c) \<longleftrightarrow> c \<noteq> OpcUa_Good"
  "statusCode (UaStatus_of c) = c"
  by (simp_all add: UaStatus_of_def isGood_def isNotGood_def statusCode_def)

subsection \<open>Printing\<close>

text \<open>
  \<open>UA_StatusCode_name\<close> (a generated table of the stack, whose last entry is the name
  \<open>Unknown StatusCode\<close>) is the parameter \<open>nm\<close>.
\<close>

definition toHexString :: "UA_StatusCode \<Rightarrow> string" where
  "toHexString t = show_base 16 (unat t)"

definition s_statusCodeDescriptions :: "(UA_StatusCode \<times> string) list" where
  "s_statusCodeDescriptions = [(OpcUa_Bad, ''GenericBad''), (OpcUa_Uncertain, ''GenericUncertain'')]"

definition statusDescription :: "(UA_StatusCode \<Rightarrow> string) \<Rightarrow> UaStatus \<Rightarrow> string" where
  "statusDescription nm s =
     (if c_str (nm (m_status s)) = ''Unknown StatusCode''
      then (case find (\<lambda>d. fst d = m_status s) s_statusCodeDescriptions of
              Some d \<Rightarrow> snd d
            | None \<Rightarrow>
                if isBad s then ''GenericBad StatusCode family''
                else if isUncertain s then ''GenericUncertain StatusCode family''
                else ''StatusCode was impossible to parse'')
      else c_str (nm (m_status s)))"

definition UaStatus_toString :: "(UA_StatusCode \<Rightarrow> string) \<Rightarrow> UaStatus \<Rightarrow> string" where
  "UaStatus_toString nm s = c_str (statusDescription nm s @ '' (0x'' @ toHexString (m_status s) @ '')'')"

subsection \<open>Severity\<close>

text \<open>The name of an alias tells its severity.\<close>

definition name_severity :: "string \<Rightarrow> nat" where
  "name_severity n = (if take 9 n = ''OpcUa_Bad'' then 2
     else if take 15 n = ''OpcUa_Uncertain'' then 1 else 0)"

definition severity :: "UaStatus \<Rightarrow> nat" where
  "severity s = (if isBad s then 2 else if isUncertain s then 1 else 0)"

definition alias_ok :: "string \<times> UA_StatusCode \<Rightarrow> bool" where
  "alias_ok e \<longleftrightarrow> severity (UaStatus_of (snd e)) = name_severity (fst e)
     \<and> \<not> (isBad (UaStatus_of (snd e)) \<and> isUncertain (UaStatus_of (snd e)))
     \<and> (isGood (UaStatus_of (snd e)) \<longleftrightarrow> fst e = ''OpcUa_Good'')"

lemma status_aliases_1_ok: "list_all alias_ok status_aliases_1"
  unfolding status_aliases_1_def
  by (simp add: alias_ok_def severity_def name_severity_def isBad_def isUncertain_def)

lemma status_aliases_2_ok: "list_all alias_ok status_aliases_2"
  unfolding status_aliases_2_def
  by (simp add: alias_ok_def severity_def name_severity_def isBad_def isUncertain_def)

text \<open>Every status-code alias of the header has the severity its name announces
  (\<open>OpcUa_Bad...\<close> is bad, \<open>OpcUa_Uncertain...\<close> is uncertain, the rest good), is never bad and
  uncertain at once, and \<open>OpcUa_Good\<close> is the only one \<open>isGood\<close> accepts.\<close>

theorem status_aliases_severity: "list_all alias_ok status_aliases"
  by (simp add: status_aliases_def status_aliases_1_ok status_aliases_2_ok)

lemma nul_free_hex: "nul_free (toHexString c)"
  using show_base_chars [of 16 "unat c"] by (auto simp: nul_free_def toHexString_def hex_chars_def)

lemma nul_free_description: "nul_free (statusDescription nm s)"
proof -
  have "nul_free d" if "d \<in> {''GenericBad'', ''GenericUncertain'', ''GenericBad StatusCode family'',
      ''GenericUncertain StatusCode family'', ''StatusCode was impossible to parse''}" for d
    using that by (auto simp: nul_free_def)
  then show ?thesis
    by (auto simp: statusDescription_def s_statusCodeDescriptions_def)
qed

lemma UaStatus_toString_eq:
  "UaStatus_toString nm s = statusDescription nm s @ '' (0x'' @ toHexString (m_status s) @ '')''"
proof -
  have "nul_free ('' (0x'')" "nul_free '')''" by (simp_all add: nul_free_def)
  then show ?thesis
    unfolding UaStatus_toString_def
    by (intro c_str_nul_free) (simp add: nul_free_hex nul_free_description del: append_Cons)
qed

text \<open>The text of a status code identifies the code: whatever names the stack's
  table gives, two statuses print the same only when they hold the same 32-bit code.\<close>

theorem UaStatus_toString_injective:
  "UaStatus_toString nm s = UaStatus_toString nm t \<longleftrightarrow> m_status s = m_status t"
proof
  assume eq: "UaStatus_toString nm s = UaStatus_toString nm t"
  have split: "rev (UaStatus_toString nm u) = CHR '')'' # rev (toHexString (m_status u)) @
      CHR ''x'' # rev (statusDescription nm u @ '' (0'')" for u
    by (simp add: UaStatus_toString_eq)
  have "CHR ''x'' \<notin> set (rev (toHexString c))" for c
    using show_base_chars [of 16 "unat c"] by (auto simp: toHexString_def hex_chars_def)
  moreover have "rev (toHexString (m_status s)) @ CHR ''x'' # rev (statusDescription nm s @ '' (0'')
      = rev (toHexString (m_status t)) @ CHR ''x'' # rev (statusDescription nm t @ '' (0'')"
    using arg_cong [OF eq, of rev] unfolding split by (rule list.inject [THEN iffD1, THEN conjunct2])
  ultimately have "rev (toHexString (m_status s)) = rev (toHexString (m_status t))"
    using split_at_sep [of "rev (toHexString (m_status s))" "CHR ''x''" _ "rev (toHexString (m_status t))"]
    by metis
  then have "show_base 16 (unat (m_status s)) = show_base 16 (unat (m_status t))"
    by (simp add: toHexString_def)
  then have "unat (m_status s) = unat (m_status t)"
    by (rule show_base_inj [rotated 2]) simp_all
  then show "m_status s = m_status t" by (rule unsigned_word_eqI)
next
  assume "m_status s = m_status t"
  then have "s = t" by simp
  then show "UaStatus_toString nm s = UaStatus_toString nm t" by simp
qed

end
