(* ===== verification/UaSync.thy ===== *)
theory UaSync
  imports StatusCode
begin

text \<open>
  \<open>UaSemaphore\<close> (\<open>include/uasemaphore.h\<close>) and \<open>UaThread\<close> (\<open>include/uathread.h\<close>). Every operation of the
  semaphore runs under its mutex, so an operation is one step on the state \<open>(m_count, m_maxRange)\<close>; a
  blocked \<open>wait\<close> is a step that is not enabled.
\<close>

subsection \<open>UaSemaphore\<close>

record UaSemaphore =
  m_count :: "32 word"
  m_maxRange :: "32 word"

definition UaSemaphore_new :: "32 word \<Rightarrow> 32 word \<Rightarrow> UaSemaphore" where
  "UaSemaphore_new initialValue maxRange = \<lparr>m_count = initialValue, m_maxRange = maxRange\<rparr>"

text \<open>\<open>None\<close>: the caller stays blocked on the condition variable.\<close>

definition UaSemaphore_wait :: "UaSemaphore \<Rightarrow> (UA_StatusCode \<times> UaSemaphore) option" where
  "UaSemaphore_wait s = (if m_count s > 0 then Some (OpcUa_Good, s\<lparr>m_count := m_count s - 1\<rparr>) else None)"

text \<open>The step in which \<open>wait_for\<close> returns: with the predicate true, or at the deadline with it false.\<close>

definition UaSemaphore_timedWait :: "UaSemaphore \<Rightarrow> UA_StatusCode \<times> UaSemaphore" where
  "UaSemaphore_timedWait s =
     (if \<not> (m_count s > 0) then (OpcUa_BadTimeout, s)
      else (OpcUa_Good, s\<lparr>m_count := m_count s - 1\<rparr>))"

definition UaSemaphore_post :: "32 word \<Rightarrow> UaSemaphore \<Rightarrow> UA_StatusCode \<times> UaSemaphore" where
  "UaSemaphore_post releaseCount s =
     (if m_count s + releaseCount > m_maxRange s then (OpcUa_BadInvalidArgument, s)
      else (OpcUa_Good, s\<lparr>m_count := m_count s + releaseCount\<rparr>))"

text \<open>Interleavings of the operations of any number of threads: one event per completed operation.\<close>

datatype sem_event = Wait | TimedWait | Post "32 word"

definition sem_step :: "UaSemaphore \<Rightarrow> sem_event \<Rightarrow> (UA_StatusCode \<times> UaSemaphore) option" where
  "sem_step s e = (case e of Wait \<Rightarrow> UaSemaphore_wait s | TimedWait \<Rightarrow> Some (UaSemaphore_timedWait s)
     | Post n \<Rightarrow> Some (UaSemaphore_post n s))"

text \<open>The permits taken and given by the successful operations of a run.\<close>

definition taken :: "sem_event \<Rightarrow> UA_StatusCode \<Rightarrow> nat" where
  "taken e r = (case e of Post _ \<Rightarrow> 0 | _ \<Rightarrow> if r = OpcUa_Good then 1 else 0)"

definition given :: "sem_event \<Rightarrow> UA_StatusCode \<Rightarrow> nat" where
  "given e r = (case e of Post n \<Rightarrow> if r = OpcUa_Good then unat n else 0 | _ \<Rightarrow> 0)"

text \<open>A run: the final state with the totals, \<open>None\<close> when some \<open>wait\<close> in it was not enabled.\<close>

fun sem_run :: "UaSemaphore \<Rightarrow> sem_event list \<Rightarrow> (UaSemaphore \<times> nat \<times> nat) option" where
  "sem_run s [] = Some (s, 0, 0)"
| "sem_run s (e # es) = (case sem_step s e of None \<Rightarrow> None
     | Some (r, s') \<Rightarrow> (case sem_run s' es of None \<Rightarrow> None
         | Some (s'', t, g) \<Rightarrow> Some (s'', taken e r + t, given e r + g)))"

text \<open>Posts within the range, as a caller that respects \<open>maxRange\<close> makes them.\<close>

definition posts_within :: "32 word \<Rightarrow> sem_event list \<Rightarrow> bool" where
  "posts_within m es = list_all (\<lambda>e. case e of Post n \<Rightarrow> n \<le> m | _ \<Rightarrow> True) es"

lemma unat_dec:
  assumes "(w :: 32 word) > 0"
  shows "unat w = Suc (unat (w - 1))"
proof -
  have "w \<noteq> 0" using assms by auto
  then have "unat w \<noteq> 0" by (simp add: unat_eq_zero)
  moreover have "unat (w - 1) = unat w - 1" using \<open>w \<noteq> 0\<close> by (rule unat_minus_one)
  ultimately show ?thesis by simp
qed

lemma unat_plus_within:
  fixes a b m :: "32 word"
  assumes "a \<le> m" "b \<le> m" "unat m < 2 ^ 31"
  shows "unat (a + b) = unat a + unat b"
  using assms by (simp add: unat_plus_if' word_le_nat_alt)

lemma sem_step_spec:
  assumes "sem_step s e = Some (r, s')" "case e of Post n \<Rightarrow> n \<le> m_maxRange s | _ \<Rightarrow> True"
    and "unat (m_maxRange s) < 2 ^ 31" "m_count s \<le> m_maxRange s"
  shows "m_count s' \<le> m_maxRange s' \<and> m_maxRange s' = m_maxRange s
     \<and> unat (m_count s') + taken e r = unat (m_count s) + given e r"
proof (cases e)
  case Wait
  with assms(1) have "m_count s > 0" "r = OpcUa_Good" "s' = s\<lparr>m_count := m_count s - 1\<rparr>"
    by (auto simp: sem_step_def UaSemaphore_wait_def split: if_splits)
  with Wait assms(4) unat_dec [of "m_count s"] show ?thesis
    by (auto simp: taken_def given_def word_le_nat_alt)
next
  case TimedWait
  with assms(1) have "(r, s') = UaSemaphore_timedWait s" by (simp add: sem_step_def)
  with TimedWait assms(4) unat_dec [of "m_count s"] show ?thesis
    by (auto simp: UaSemaphore_timedWait_def taken_def given_def word_le_nat_alt split: if_splits)
next
  case (Post n)
  with assms(1) have "(r, s') = UaSemaphore_post n s" by (simp add: sem_step_def)
  with Post assms(2-4) unat_plus_within [of "m_count s" "m_maxRange s" n] show ?thesis
    by (auto simp: UaSemaphore_post_def taken_def given_def not_less split: if_splits)
qed

text \<open>Under any interleaving of waits, timed waits and posts of at most \<open>maxRange\<close> permits the
  count stays within the range and permits are conserved: those taken plus those left are those given plus
  the initial ones. No wait ever succeeds without a permit.\<close>

theorem UaSemaphore_conserves_permits:
  assumes "sem_run s es = Some (s', t, g)" "posts_within (m_maxRange s) es"
    and "unat (m_maxRange s) < 2 ^ 31" "m_count s \<le> m_maxRange s"
  shows "m_count s' \<le> m_maxRange s \<and> unat (m_count s') + t = unat (m_count s) + g"
  using assms
proof (induction es arbitrary: s s' t g)
  case (Cons e es)
  from Cons.prems(1) obtain r s1 t1 g1 where step: "sem_step s e = Some (r, s1)"
    and run: "sem_run s1 es = Some (s', t1, g1)" and tg: "t = taken e r + t1" "g = given e r + g1"
    by (auto split: option.splits prod.splits)
  have within: "case e of Post n \<Rightarrow> n \<le> m_maxRange s | _ \<Rightarrow> True" "posts_within (m_maxRange s) es"
    using Cons.prems(2) by (auto simp: posts_within_def)
  note s1 = sem_step_spec [OF step within(1) Cons.prems(3,4)]
  with Cons.IH [OF run] within(2) Cons.prems(3) tg show ?case by auto
qed auto

theorem UaSemaphore_conserves_permits_witness:
  "sem_run (UaSemaphore_new 1 3) [Post 2, Post 1, Wait, TimedWait, Post 3] = Some (\<lparr>m_count = 1, m_maxRange = 3\<rparr>, 2, 2)
   \<and> unat (1 :: 32 word) + 2 = unat (1 :: 32 word) + 2"
  using UaSemaphore_conserves_permits [of "UaSemaphore_new 1 3" "[Post 2, Post 1, Wait, TimedWait, Post 3]"
      "\<lparr>m_count = 1, m_maxRange = 3\<rparr>" 2 2]
  by (simp add: UaSemaphore_new_def sem_step_def UaSemaphore_post_def UaSemaphore_wait_def
      UaSemaphore_timedWait_def taken_def given_def posts_within_def)

text \<open>The range check adds in 32 bits: a huge release wraps past it, returns good and removes
  permits instead of being refused.\<close>

theorem UaSemaphore_post_wraps:
  assumes "m_count s > 0"
  shows "UaSemaphore_post (- m_count s) s = (OpcUa_Good, s\<lparr>m_count := 0\<rparr>)
    \<and> UaSemaphore_wait (snd (UaSemaphore_post (- m_count s) s)) = None"
  by (simp add: UaSemaphore_post_def UaSemaphore_wait_def)

theorem UaSemaphore_post_wraps_witness:
  "UaSemaphore_post 0xFFFFFFFE (UaSemaphore_new 2 5) = (OpcUa_Good, UaSemaphore_new 0 5)"
proof -
  have "(0xFFFFFFFE :: 32 word) = - m_count (UaSemaphore_new 2 5)" by (simp add: UaSemaphore_new_def)
  then show ?thesis
    using UaSemaphore_post_wraps [of "UaSemaphore_new 2 5"] by (simp only:) (simp add: UaSemaphore_new_def)
qed

subsection \<open>UaThread\<close>

text \<open>
  The flags of a thread object and whether its \<open>std::thread\<close> is joinable. \<open>run\<close> happens between
  \<open>start\<close> and \<open>run_returns\<close>, which clears one flag and then sets the other; \<open>wait\<close> blocks until then.
\<close>

datatype run_pc = NotStarted | InRun | ClearedRunning | Returned

record UaThread =
  m_running :: bool
  m_finished :: bool
  joinable :: bool
  run_pc :: run_pc

definition UaThread_new :: UaThread where
  "UaThread_new = \<lparr>m_running = False, m_finished = False, joinable = False, run_pc = NotStarted\<rparr>"

text \<open>Assigning to a joinable \<open>std::thread\<close> terminates the program: \<open>None\<close>.\<close>

definition UaThread_start :: "UaThread \<Rightarrow> UaThread option" where
  "UaThread_start t = (let t1 = t\<lparr>m_running := True\<rparr>
     in if joinable t1 then None else Some (t1\<lparr>joinable := True, run_pc := InRun\<rparr>))"

definition UaThread_body_step :: "UaThread \<Rightarrow> UaThread" where
  "UaThread_body_step t = (case run_pc t of
      InRun \<Rightarrow> t\<lparr>m_running := False, run_pc := ClearedRunning\<rparr>
    | ClearedRunning \<Rightarrow> t\<lparr>m_finished := True, run_pc := Returned\<rparr>
    | _ \<Rightarrow> t)"

definition UaThread_wait :: "UaThread \<Rightarrow> (bool \<times> UaThread) option" where
  "UaThread_wait t = (if joinable t then (if run_pc t = Returned then Some (True, t\<lparr>joinable := False\<rparr>) else None)
     else Some (True, t))"

inductive thread_reach :: "UaThread \<Rightarrow> bool" where
  thread_init: "thread_reach UaThread_new"
| thread_start: "thread_reach t \<Longrightarrow> UaThread_start t = Some t' \<Longrightarrow> thread_reach t'"
| thread_body: "thread_reach t \<Longrightarrow> thread_reach (UaThread_body_step t)"
| thread_wait: "thread_reach t \<Longrightarrow> UaThread_wait t = Some (r, t') \<Longrightarrow> thread_reach t'"

lemma thread_flags:
  "thread_reach t \<Longrightarrow> (m_running t \<longleftrightarrow> run_pc t = InRun) \<and> (run_pc t = Returned \<longrightarrow> m_finished t)
     \<and> (\<not> joinable t \<longrightarrow> run_pc t \<in> {NotStarted, Returned})"
  by (induction rule: thread_reach.induct)
     (auto simp: UaThread_new_def UaThread_start_def UaThread_body_step_def UaThread_wait_def Let_def
       split: if_splits run_pc.splits)

text \<open>After a successful \<open>wait\<close> the thread is not running, and finished if it was ever started.\<close>

lemma UaThread_wait_joins:
  assumes "thread_reach t" "UaThread_wait t = Some (r, t')"
  shows "\<not> m_running t' \<and> (run_pc t' = NotStarted \<or> m_finished t')"
  using assms thread_flags [OF assms(1)] by (auto simp: UaThread_wait_def split: if_splits)

end
