(* ===== verification/UA_Stack.thy ===== *)
theory UA_Stack
  imports StatusCode "HOL-Library.Char_ord"
begin

text \<open>
  The part of the bundled open62541 stack (\<open>extern/open62541\<close>) whose memory behaviour the library
  builds on: strings and byte strings, node identifiers, the type table, arrays, values and variants,
  with the copy functions. A value keeps the shape of its C memory: length and pointer are separate
  fields, so a state the C code can reach but should not is a value of the model too.
\<close>

type_synonym byte = "8 word"

subsection \<open>Arrays\<close>

text \<open>\<open>UA_Array_new\<close>: too long is NULL, empty is the sentinel, otherwise zeroed memory.\<close>

definition UA_Array_new :: "allocator \<Rightarrow> nat \<Rightarrow> nat \<Rightarrow> 'a \<Rightarrow> 'a ptr" where
  "UA_Array_new al memSize n zero =
     (if INT32_MAX < int n then Null
      else if n = 0 then Sentinel
      else if can_alloc al (n * memSize) then Heap (replicate n zero) else Null)"

text \<open>\<open>UA_Array_copy\<close> for a type whose elements are copied byte by byte (\<open>pointerFree\<close>).\<close>

definition UA_Array_copy :: "allocator \<Rightarrow> nat \<Rightarrow> 'a ptr \<Rightarrow> nat \<Rightarrow> (UA_StatusCode \<times> 'a ptr) res" where
  "UA_Array_copy al memSize src n =
     (if n = 0 then Inr (OpcUa_Good, if src = Null then Null else Sentinel)
      else if src = Null then Inr (OpcUa_BadInternalError, Null)
      else if \<not> can_alloc al (n * memSize) then Inr (OpcUa_BadOutOfMemory, Null)
      else bind_res (read_range src n) (\<lambda>xs. Inr (OpcUa_Good, Heap xs)))"

lemma UA_Array_new_empty [simp]: "UA_Array_new al m 0 z = Sentinel"
  by (simp add: UA_Array_new_def INT32_MAX_def)

lemma UA_Array_new_ok:
  "mem_ok al \<Longrightarrow> 0 < n \<Longrightarrow> int n \<le> INT32_MAX \<Longrightarrow> UA_Array_new al m n z = Heap (replicate n z)"
  by (simp add: UA_Array_new_def)

text \<open>An array whose length field agrees with its memory; length zero never owns memory.\<close>

definition wf_array :: "'a ptr \<Rightarrow> nat \<Rightarrow> bool" where
  "wf_array p n = (case p of Heap xs \<Rightarrow> length xs = n \<and> xs \<noteq> [] | _ \<Rightarrow> n = 0)"

lemma wf_array_simps [simp]:
  "wf_array Null n \<longleftrightarrow> n = 0" "wf_array Sentinel n \<longleftrightarrow> n = 0"
  "wf_array (Heap xs) n \<longleftrightarrow> length xs = n \<and> xs \<noteq> []"
  by (auto simp: wf_array_def)

lemma UA_Array_copy_ok:
  "mem_ok al \<Longrightarrow> wf_array p n \<Longrightarrow> UA_Array_copy al m p n = Inr (OpcUa_Good, p)"
  by (cases p) (auto simp: UA_Array_copy_def)

lemma UA_Array_copy_Good_wf:
  "UA_Array_copy al m p n = Inr (OpcUa_Good, q) \<Longrightarrow> wf_array q n"
  by (auto simp: UA_Array_copy_def bind_res_Inr_iff read_range_def split: if_splits ptr.splits)

subsection \<open>Strings and byte strings\<close>

text \<open>\<open>UA_String\<close> and \<open>UA_ByteString\<close> are one C structure; the element type tells them apart.\<close>

record 'a bstr =
  bs_length :: nat
  bs_data :: "'a ptr"

type_synonym UA_String = "char bstr"
type_synonym UA_ByteString = "byte bstr"

definition UA_STRING_NULL :: "'a bstr" where
  "UA_STRING_NULL = \<lparr>bs_length = 0, bs_data = Null\<rparr>"

definition wf_bstr :: "'a bstr \<Rightarrow> bool" where
  "wf_bstr s \<longleftrightarrow> wf_array (bs_data s) (bs_length s)"

text \<open>The bytes of a string.\<close>

definition bstr_bytes :: "'a bstr \<Rightarrow> 'a list" where
  "bstr_bytes s = take (bs_length s) (ptr_elems (bs_data s))"

definition String_copy :: "allocator \<Rightarrow> 'a bstr \<Rightarrow> (UA_StatusCode \<times> 'a bstr) res" where
  "String_copy al src = bind_res (UA_Array_copy al 1 (bs_data src) (bs_length src))
     (\<lambda>(c, d). Inr (c, if c = OpcUa_Good then \<lparr>bs_length = bs_length src, bs_data = d\<rparr> else UA_STRING_NULL))"

text \<open>\<open>UA_String_fromChars\<close>: \<open>None\<close> is a NULL argument; a failed allocation yields the null string.\<close>

definition UA_String_fromChars :: "allocator \<Rightarrow> string option \<Rightarrow> UA_String" where
  "UA_String_fromChars al src = (case src of None \<Rightarrow> UA_STRING_NULL
     | Some s \<Rightarrow>
         if 0 < length (c_str s)
         then (if can_alloc al (length (c_str s)) then \<lparr>bs_length = length (c_str s), bs_data = Heap (c_str s)\<rparr>
               else UA_STRING_NULL)
         else \<lparr>bs_length = 0, bs_data = Sentinel\<rparr>)"

text \<open>
  The stack compares with three-way orders. \<open>memcmp\<close> compares bytes as unsigned numbers; the two arrays have one
  length where it is called.
\<close>

datatype UA_Order = UA_ORDER_LESS | UA_ORDER_EQ | UA_ORDER_MORE

definition numericOrder :: "'a::linorder \<Rightarrow> 'a \<Rightarrow> UA_Order" where
  "numericOrder p1 p2 = (if p1 \<noteq> p2 then (if p1 < p2 then UA_ORDER_LESS else UA_ORDER_MORE) else UA_ORDER_EQ)"

fun memcmp :: "'a::linorder list \<Rightarrow> 'a list \<Rightarrow> int" where
  "memcmp [] [] = 0"
| "memcmp [] (y # ys) = - 1"
| "memcmp (x # xs) [] = 1"
| "memcmp (x # xs) (y # ys) = (if x < y then - 1 else if y < x then 1 else memcmp xs ys)"

lemma memcmp_eq_0 [simp]: "memcmp xs ys = 0 \<longleftrightarrow> xs = ys"
  by (induction xs ys rule: memcmp.induct) auto

text \<open>Null and the sentinel are different pointers; two blocks with equal content compare as one block does with itself.\<close>

definition stringOrder :: "'a::linorder bstr \<Rightarrow> 'a bstr \<Rightarrow> UA_Order" where
  "stringOrder p1 p2 =
     (if bs_length p1 \<noteq> bs_length p2 then (if bs_length p1 < bs_length p2 then UA_ORDER_LESS else UA_ORDER_MORE)
      else if bs_data p1 = bs_data p2 then UA_ORDER_EQ
      else if bs_data p1 = Null then UA_ORDER_LESS
      else if bs_data p2 = Null then UA_ORDER_MORE
      else (let c = memcmp (bstr_bytes p1) (bstr_bytes p2)
            in if c \<noteq> 0 then (if c < 0 then UA_ORDER_LESS else UA_ORDER_MORE) else UA_ORDER_EQ))"

definition UA_String_equal :: "'a::linorder bstr \<Rightarrow> 'a bstr \<Rightarrow> bool" where
  "UA_String_equal p1 p2 \<longleftrightarrow> stringOrder p1 p2 = UA_ORDER_EQ"

lemma UA_String_equal_cases:
  "UA_String_equal p1 p2 \<longleftrightarrow>
     (if bs_length p1 \<noteq> bs_length p2 then False
      else if bs_data p1 = Null \<or> bs_data p2 = Null then bs_data p1 = bs_data p2
      else bstr_bytes p1 = bstr_bytes p2)"
  by (auto simp: UA_String_equal_def stringOrder_def Let_def bstr_bytes_def)

lemma wf_bstr_null [simp]: "wf_bstr UA_STRING_NULL"
  by (simp add: wf_bstr_def UA_STRING_NULL_def)

lemma bstr_bytes_null [simp]: "bstr_bytes UA_STRING_NULL = []"
  by (simp add: bstr_bytes_def UA_STRING_NULL_def)

lemma UA_STRING_NULL_sel [simp]: "bs_length UA_STRING_NULL = 0" "bs_data UA_STRING_NULL = Null"
  by (simp_all add: UA_STRING_NULL_def)

lemma wf_bstr_length: "wf_bstr s \<Longrightarrow> length (bstr_bytes s) = bs_length s"
  by (cases "bs_data s") (auto simp: wf_bstr_def bstr_bytes_def)

lemma wf_bstr_Heap:
  "wf_bstr s \<Longrightarrow> bs_data s = Heap xs \<Longrightarrow> bs_length s = length xs \<and> 0 < length xs"
  by (cases xs) (auto simp: wf_bstr_def)

lemma read_range_bstr: "wf_bstr s \<Longrightarrow> read_range (bs_data s) (bs_length s) = Inr (bstr_bytes s)"
  by (cases "bs_data s") (auto simp: wf_bstr_def bstr_bytes_def read_range_def)

lemma String_copy_ok: "mem_ok al \<Longrightarrow> wf_bstr s \<Longrightarrow> String_copy al s = Inr (OpcUa_Good, s)"
  by (simp add: String_copy_def wf_bstr_def UA_Array_copy_ok)

lemma String_copy_wf: "String_copy al s = Inr (c, t) \<Longrightarrow> wf_bstr t"
  by (auto simp: String_copy_def bind_res_Inr_iff dest: UA_Array_copy_Good_wf split: if_splits)
     (auto simp: wf_bstr_def dest: UA_Array_copy_Good_wf)

lemma fromChars_wf [simp]: "wf_bstr (UA_String_fromChars al s)"
  by (auto simp: UA_String_fromChars_def wf_bstr_def UA_STRING_NULL_def split: option.split)

lemma fromChars_bytes: "mem_ok al \<Longrightarrow> bstr_bytes (UA_String_fromChars al (Some s)) = c_str s"
  by (auto simp: UA_String_fromChars_def bstr_bytes_def)

lemma UA_String_equal_iff:
  "wf_bstr s \<Longrightarrow> wf_bstr t \<Longrightarrow>
     UA_String_equal s t \<longleftrightarrow> bstr_bytes s = bstr_bytes t \<and> (bs_data s = Null \<longleftrightarrow> bs_data t = Null)"
  by (cases "bs_data s"; cases "bs_data t")
     (auto simp: UA_String_equal_cases wf_bstr_def bstr_bytes_def simp flip: length_greater_0_conv)

subsection \<open>Node identifiers\<close>

record UA_Guid =
  data1 :: "32 word"
  data2 :: "16 word"
  data3 :: "16 word"
  data4 :: "byte list"

text \<open>\<open>identifierType\<close> and the union \<open>identifier\<close> as one tagged value.\<close>

datatype UA_Identifier =
    IdNumeric "32 word"
  | IdString UA_String
  | IdGuid UA_Guid
  | IdByteString UA_ByteString

record UA_NodeId =
  nid_namespaceIndex :: "16 word"
  nid_identifier :: UA_Identifier

definition UA_NODEID_NUMERIC :: "16 word \<Rightarrow> 32 word \<Rightarrow> UA_NodeId" where
  "UA_NODEID_NUMERIC ns i = \<lparr>nid_namespaceIndex = ns, nid_identifier = IdNumeric i\<rparr>"

text \<open>\<open>UA_NodeId_init\<close> zeroes the structure.\<close>

definition UA_NodeId_null :: UA_NodeId where
  "UA_NodeId_null = UA_NODEID_NUMERIC 0 0"

definition NodeId_copy :: "allocator \<Rightarrow> UA_NodeId \<Rightarrow> (UA_StatusCode \<times> UA_NodeId) res" where
  "NodeId_copy al src = (case nid_identifier src of
      IdNumeric i \<Rightarrow> Inr (OpcUa_Good, src)
    | IdString s \<Rightarrow> bind_res (String_copy al s) (\<lambda>(c, t).
        Inr (c, if c = OpcUa_Good then src\<lparr>nid_identifier := IdString t\<rparr> else UA_NodeId_null))
    | IdByteString s \<Rightarrow> bind_res (String_copy al s) (\<lambda>(c, t).
        Inr (c, if c = OpcUa_Good then src\<lparr>nid_identifier := IdByteString t\<rparr> else UA_NodeId_null))
    | IdGuid g \<Rightarrow> Inr (OpcUa_Good, src))"

definition guidOrder :: "UA_Guid \<Rightarrow> UA_Guid \<Rightarrow> UA_Order" where
  "guidOrder p1 p2 =
     (if data1 p1 \<noteq> data1 p2 then (if data1 p1 < data1 p2 then UA_ORDER_LESS else UA_ORDER_MORE)
      else if data2 p1 \<noteq> data2 p2 then (if data2 p1 < data2 p2 then UA_ORDER_LESS else UA_ORDER_MORE)
      else if data3 p1 \<noteq> data3 p2 then (if data3 p1 < data3 p2 then UA_ORDER_LESS else UA_ORDER_MORE)
      else (let c = memcmp (data4 p1) (data4 p2)
            in if c \<noteq> 0 then (if c < 0 then UA_ORDER_LESS else UA_ORDER_MORE) else UA_ORDER_EQ))"

text \<open>\<open>UA_NodeIdType\<close> by value; the identifiers compared have one type.\<close>

definition identifierType :: "UA_Identifier \<Rightarrow> nat" where
  "identifierType i = (case i of IdNumeric _ \<Rightarrow> 0 | IdString _ \<Rightarrow> 3 | IdGuid _ \<Rightarrow> 4 | IdByteString _ \<Rightarrow> 5)"

definition identifierOrder :: "UA_Identifier \<Rightarrow> UA_Identifier \<Rightarrow> UA_Order" where
  "identifierOrder i j = (case (i, j) of
      (IdNumeric m, IdNumeric n) \<Rightarrow> numericOrder m n
    | (IdGuid g, IdGuid h) \<Rightarrow> guidOrder g h
    | (IdString s, IdString t) \<Rightarrow> stringOrder s t
    | (IdByteString s, IdByteString t) \<Rightarrow> stringOrder s t
    | _ \<Rightarrow> numericOrder (identifierType i) (identifierType j))"

definition nodeIdOrder :: "UA_NodeId \<Rightarrow> UA_NodeId \<Rightarrow> UA_Order" where
  "nodeIdOrder p1 p2 =
     (if nid_namespaceIndex p1 \<noteq> nid_namespaceIndex p2
      then (if nid_namespaceIndex p1 < nid_namespaceIndex p2 then UA_ORDER_LESS else UA_ORDER_MORE)
      else identifierOrder (nid_identifier p1) (nid_identifier p2))"

definition UA_NodeId_equal :: "UA_NodeId \<Rightarrow> UA_NodeId \<Rightarrow> bool" where
  "UA_NodeId_equal p1 p2 \<longleftrightarrow> nodeIdOrder p1 p2 = UA_ORDER_EQ"

lemma numericOrder_eq [simp]: "numericOrder x y = UA_ORDER_EQ \<longleftrightarrow> x = y"
  by (simp add: numericOrder_def)

lemma guidOrder_eq [simp]: "guidOrder g h = UA_ORDER_EQ \<longleftrightarrow> g = h"
  by (cases g; cases h) (simp add: guidOrder_def Let_def)

lemma UA_NodeId_equal_cases:
  "UA_NodeId_equal p1 p2 \<longleftrightarrow> nid_namespaceIndex p1 = nid_namespaceIndex p2 \<and>
     (case (nid_identifier p1, nid_identifier p2) of
        (IdNumeric i, IdNumeric j) \<Rightarrow> i = j
      | (IdGuid g, IdGuid h) \<Rightarrow> g = h
      | (IdString s, IdString t) \<Rightarrow> UA_String_equal s t
      | (IdByteString s, IdByteString t) \<Rightarrow> UA_String_equal s t
      | _ \<Rightarrow> False)"
  by (auto simp: UA_NodeId_equal_def nodeIdOrder_def identifierOrder_def identifierType_def UA_String_equal_def
      split: UA_Identifier.split)

definition wf_nodeid :: "UA_NodeId \<Rightarrow> bool" where
  "wf_nodeid n = (case nid_identifier n of IdString s \<Rightarrow> wf_bstr s | IdByteString s \<Rightarrow> wf_bstr s | _ \<Rightarrow> True)"

lemma NodeId_copy_ok: "mem_ok al \<Longrightarrow> wf_nodeid n \<Longrightarrow> NodeId_copy al n = Inr (OpcUa_Good, n)"
  by (cases "nid_identifier n") (simp_all add: NodeId_copy_def wf_nodeid_def String_copy_ok)

lemma NodeId_copy_wf: "NodeId_copy al n = Inr (c, m) \<Longrightarrow> wf_nodeid m"
  by (cases "nid_identifier n")
     (auto simp: NodeId_copy_def wf_nodeid_def bind_res_Inr_iff UA_NodeId_null_def UA_NODEID_NUMERIC_def
       dest: String_copy_wf split: if_splits)

lemma UA_String_equal_refl [simp]: "UA_String_equal s s"
  by (simp add: UA_String_equal_cases)

lemma UA_NodeId_equal_refl [simp]: "UA_NodeId_equal n n"
  by (cases "nid_identifier n") (simp_all add: UA_NodeId_equal_cases)

end
