(* ===== verification/UA_Values.thy ===== *)
theory UA_Values
  imports UA_Stack
begin

text \<open>
  Values and variants of the bundled stack: the type table \<open>UA_TYPES\<close>, \<open>UA_Variant\<close> with its
  separate type, data, length and dimension fields, and the \<open>UA_Variant_*\<close> functions the library
  calls. A scalar is one element in memory with \<open>arrayLength = 0\<close>; an empty array is the sentinel.
\<close>

subsection \<open>Types\<close>

datatype UA_DataTypeKind =
    BOOLEAN | SBYTE | BYTE | INT16 | UINT16 | INT32 | UINT32 | INT64 | UINT64 | FLOAT | DOUBLE
  | STRING | DATETIME | GUID | BYTESTRING | XMLELEMENT | NODEID | EXPANDEDNODEID | STATUSCODE
  | QUALIFIEDNAME | LOCALIZEDTEXT | EXTENSIONOBJECT | DATAVALUE | VARIANT | DIAGNOSTICINFO
  | DECIMAL | ENUM | STRUCTURE | OPTSTRUCT | UNION | BITFIELDCLUSTER

text \<open>The enumerators' values.\<close>

primrec kind_index :: "UA_DataTypeKind \<Rightarrow> nat" where
  "kind_index BOOLEAN = 0" | "kind_index SBYTE = 1" | "kind_index BYTE = 2"
| "kind_index INT16 = 3" | "kind_index UINT16 = 4" | "kind_index INT32 = 5"
| "kind_index UINT32 = 6" | "kind_index INT64 = 7" | "kind_index UINT64 = 8"
| "kind_index FLOAT = 9" | "kind_index DOUBLE = 10" | "kind_index STRING = 11"
| "kind_index DATETIME = 12" | "kind_index GUID = 13" | "kind_index BYTESTRING = 14"
| "kind_index XMLELEMENT = 15" | "kind_index NODEID = 16" | "kind_index EXPANDEDNODEID = 17"
| "kind_index STATUSCODE = 18" | "kind_index QUALIFIEDNAME = 19" | "kind_index LOCALIZEDTEXT = 20"
| "kind_index EXTENSIONOBJECT = 21" | "kind_index DATAVALUE = 22" | "kind_index VARIANT = 23"
| "kind_index DIAGNOSTICINFO = 24" | "kind_index DECIMAL = 25" | "kind_index ENUM = 26"
| "kind_index STRUCTURE = 27" | "kind_index OPTSTRUCT = 28" | "kind_index UNION = 29"
| "kind_index BITFIELDCLUSTER = 30"

text \<open>\<open>sizeof\<close> of the built-in types on a 64-bit target.\<close>

definition kind_memSize :: "UA_DataTypeKind \<Rightarrow> nat" where
  "kind_memSize k = (case k of BOOLEAN \<Rightarrow> 1 | SBYTE \<Rightarrow> 1 | BYTE \<Rightarrow> 1 | INT16 \<Rightarrow> 2 | UINT16 \<Rightarrow> 2
     | INT32 \<Rightarrow> 4 | UINT32 \<Rightarrow> 4 | FLOAT \<Rightarrow> 4 | STATUSCODE \<Rightarrow> 4 | INT64 \<Rightarrow> 8 | UINT64 \<Rightarrow> 8
     | DOUBLE \<Rightarrow> 8 | DATETIME \<Rightarrow> 8 | STRING \<Rightarrow> 16 | GUID \<Rightarrow> 16 | BYTESTRING \<Rightarrow> 16 | XMLELEMENT \<Rightarrow> 16
     | NODEID \<Rightarrow> 24 | QUALIFIEDNAME \<Rightarrow> 24 | LOCALIZEDTEXT \<Rightarrow> 32 | DATAVALUE \<Rightarrow> 80 | _ \<Rightarrow> 48)"

text \<open>A type descriptor; two descriptors at one address are one record here.\<close>

record UA_DataType =
  dt_typeId :: UA_NodeId
  dt_memSize :: nat
  dt_typeKind :: UA_DataTypeKind

text \<open>The built-in entries of the table: entry \<open>i\<close> has the numeric type id \<open>i + 1\<close> of namespace 0.\<close>

definition UA_TYPES :: "UA_DataTypeKind \<Rightarrow> UA_DataType" where
  "UA_TYPES k = \<lparr>dt_typeId = UA_NODEID_NUMERIC 0 (word_of_nat (kind_index k + 1)),
                 dt_memSize = kind_memSize k, dt_typeKind = k\<rparr>"

lemma dt_typeKind_UA_TYPES [simp]: "dt_typeKind (UA_TYPES k) = k"
  by (simp add: UA_TYPES_def)

lemma UA_TYPES_eq_iff [simp]: "UA_TYPES k = UA_TYPES l \<longleftrightarrow> k = l"
  by (metis dt_typeKind_UA_TYPES)

subsection \<open>Values\<close>

text \<open>
  One element of an array. Integers are their bit patterns, floating-point numbers their IEEE bit
  patterns. \<open>VOther\<close> is an element of a type the library never looks into.
\<close>

datatype UA_value =
    VBool bool
  | VSByte byte
  | VByte byte
  | VInt16 "16 word"
  | VUInt16 "16 word"
  | VInt32 "32 word"
  | VUInt32 "32 word"
  | VInt64 "64 word"
  | VUInt64 "64 word"
  | VFloat "32 word"
  | VDouble "64 word"
  | VString UA_String
  | VByteString UA_ByteString
  | VVariant UA_Variant
  | VOther UA_DataTypeKind "byte list"
and UA_Variant = UA_Variant
    (v_type: "UA_DataType option")
    (v_data: "UA_value ptr")
    (v_arrayLength: nat)
    (v_arrayDimensions: "32 word ptr")
    (v_arrayDimensionsSize: nat)

primrec value_kind :: "UA_value \<Rightarrow> UA_DataTypeKind" where
  "value_kind (VBool _) = BOOLEAN" | "value_kind (VSByte _) = SBYTE" | "value_kind (VByte _) = BYTE"
| "value_kind (VInt16 _) = INT16" | "value_kind (VUInt16 _) = UINT16"
| "value_kind (VInt32 _) = INT32" | "value_kind (VUInt32 _) = UINT32"
| "value_kind (VInt64 _) = INT64" | "value_kind (VUInt64 _) = UINT64"
| "value_kind (VFloat _) = FLOAT" | "value_kind (VDouble _) = DOUBLE"
| "value_kind (VString _) = STRING" | "value_kind (VByteString _) = BYTESTRING"
| "value_kind (VVariant _) = VARIANT" | "value_kind (VOther k _) = k"

text \<open>\<open>UA_Variant_init\<close>: all fields zero.\<close>

definition UA_Variant_init :: UA_Variant where
  "UA_Variant_init = UA_Variant None Null 0 Null 0"

text \<open>A zeroed element.\<close>

definition zero_value :: "UA_DataTypeKind \<Rightarrow> UA_value" where
  "zero_value k = (case k of BOOLEAN \<Rightarrow> VBool False | SBYTE \<Rightarrow> VSByte 0 | BYTE \<Rightarrow> VByte 0
     | INT16 \<Rightarrow> VInt16 0 | UINT16 \<Rightarrow> VUInt16 0 | INT32 \<Rightarrow> VInt32 0 | UINT32 \<Rightarrow> VUInt32 0
     | INT64 \<Rightarrow> VInt64 0 | UINT64 \<Rightarrow> VUInt64 0 | FLOAT \<Rightarrow> VFloat 0 | DOUBLE \<Rightarrow> VDouble 0
     | STRING \<Rightarrow> VString UA_STRING_NULL | BYTESTRING \<Rightarrow> VByteString UA_STRING_NULL
     | VARIANT \<Rightarrow> VVariant UA_Variant_init
     | _ \<Rightarrow> VOther k (replicate (kind_memSize k) 0))"

subsection \<open>Queries on variants\<close>

definition UA_Variant_isEmpty :: "UA_Variant \<Rightarrow> bool" where
  "UA_Variant_isEmpty v \<longleftrightarrow> v_type v = None"

text \<open>\<open>data > UA_EMPTY_ARRAY_SENTINEL\<close>: neither NULL nor the sentinel.\<close>

definition is_heap :: "'a ptr \<Rightarrow> bool" where
  "is_heap p = (case p of Heap _ \<Rightarrow> True | _ \<Rightarrow> False)"

lemma is_heap_simps [simp]: "\<not> is_heap Null" "\<not> is_heap Sentinel" "is_heap (Heap xs)"
  by (simp_all add: is_heap_def)

definition UA_Variant_isScalar :: "UA_Variant \<Rightarrow> bool" where
  "UA_Variant_isScalar v \<longleftrightarrow> v_type v \<noteq> None \<and> v_arrayLength v = 0 \<and> is_heap (v_data v)"

definition UA_Variant_hasArrayType :: "UA_Variant \<Rightarrow> UA_DataType \<Rightarrow> bool" where
  "UA_Variant_hasArrayType v t \<longleftrightarrow> \<not> UA_Variant_isScalar v \<and> v_type v = Some t"

subsection \<open>Copying\<close>

lemma size_list_take: "size_list f (take n xs) \<le> size_list f xs"
  by (induction xs arbitrary: n) (auto simp: take_Cons' intro: le_SucI)

text \<open>
  \<open>UA_copy\<close> on one element, the element loop of \<open>UA_Array_copy\<close> (which combines the status codes by
  bitwise or) and \<open>Variant_copy\<close>. A failed copy leaves the destination zeroed, as \<open>UA_copy\<close> does.
\<close>

function (sequential)
  UA_copy :: "allocator \<Rightarrow> UA_value \<Rightarrow> (UA_StatusCode \<times> UA_value) res"
and copy_elems :: "allocator \<Rightarrow> UA_value list \<Rightarrow> (UA_StatusCode \<times> UA_value list) res"
and Variant_copy :: "allocator \<Rightarrow> UA_Variant \<Rightarrow> (UA_StatusCode \<times> UA_Variant) res"
where
  "UA_copy al (VString s) = bind_res (String_copy al s) (\<lambda>(c, t). Inr (c, VString t))"
| "UA_copy al (VByteString s) = bind_res (String_copy al s) (\<lambda>(c, t). Inr (c, VByteString t))"
| "UA_copy al (VVariant w) = bind_res (Variant_copy al w) (\<lambda>(c, w'). Inr (c, VVariant w'))"
| "UA_copy al x = Inr (OpcUa_Good, x)"
| "copy_elems al [] = Inr (OpcUa_Good, [])"
| "copy_elems al (x # xs) = bind_res (UA_copy al x) (\<lambda>(c1, y).
     bind_res (copy_elems al xs) (\<lambda>(c2, ys). Inr (c1 OR c2, y # ys)))"
| "Variant_copy al (UA_Variant t d n dims k) =
     (let len = (if UA_Variant_isScalar (UA_Variant t d n dims k) then 1 else n);
          elems = (if len = 0 then Inr (OpcUa_Good, if d = Null then Null else Sentinel)
                   else (case t of None \<Rightarrow> Inr (OpcUa_BadInternalError, Null)
                   | Some ty \<Rightarrow>
                     (case d of Null \<Rightarrow> Inr (OpcUa_BadInternalError, Null)
                     | Sentinel \<Rightarrow> Inl (UB SentinelDeref)
                     | Heap xs \<Rightarrow>
                         if \<not> can_alloc al (len * dt_memSize ty) then Inr (OpcUa_BadOutOfMemory, Null)
                         else if length xs < len then Inl (UB OutOfBounds)
                         else bind_res (copy_elems al (take len xs))
                                (\<lambda>(c, ys). Inr (c, Heap ys)))))
      in bind_res elems (\<lambda>(c, d').
           if c \<noteq> OpcUa_Good then Inr (c, UA_Variant_init)
           else if dims = Null then Inr (OpcUa_Good, UA_Variant t d' n Null 0)
           else bind_res (UA_Array_copy al 4 dims k) (\<lambda>(c2, dims').
             if c2 \<noteq> OpcUa_Good then Inr (c2, UA_Variant_init)
             else Inr (OpcUa_Good, UA_Variant t d' n dims' k))))"
  by pat_completeness auto

termination
  by (relation "measure (\<lambda>a. case a of Inl (al, x) \<Rightarrow> size x
        | Inr (Inl (al, xs)) \<Rightarrow> size_list size xs | Inr (Inr (al, v)) \<Rightarrow> size v)")
     (auto intro: le_SucI [OF size_list_take] simp: less_Suc_eq_le)

definition UA_Variant_copy :: "allocator \<Rightarrow> UA_Variant \<Rightarrow> (UA_StatusCode \<times> UA_Variant) res" where
  "UA_Variant_copy al src = Variant_copy al src"

subsection \<open>Well-formed values\<close>

text \<open>
  The invariant of every variant the stack and the library build: memory and length agree, the
  elements have the variant's type, memory is only held with a type.
\<close>

definition modelled_kind :: "UA_DataTypeKind \<Rightarrow> bool" where
  "modelled_kind k \<longleftrightarrow> kind_index k \<le> 11 \<or> k = BYTESTRING \<or> k = VARIANT"

fun wf_value :: "UA_value \<Rightarrow> bool"
and wf_variant :: "UA_Variant \<Rightarrow> bool"
where
  "wf_value (VString s) \<longleftrightarrow> wf_bstr s"
| "wf_value (VByteString s) \<longleftrightarrow> wf_bstr s"
| "wf_value (VVariant v) \<longleftrightarrow> wf_variant v"
| "wf_value (VOther k bs) \<longleftrightarrow> \<not> modelled_kind k"
| "wf_value _ \<longleftrightarrow> True"
| "wf_variant (UA_Variant t Null n dims k) \<longleftrightarrow> n = 0 \<and> wf_array dims k"
| "wf_variant (UA_Variant t Sentinel n dims k) \<longleftrightarrow> t \<noteq> None \<and> n = 0 \<and> wf_array dims k"
| "wf_variant (UA_Variant t (Heap xs) n dims k) \<longleftrightarrow>
     length xs = (if n = 0 then 1 else n) \<and> wf_array dims k
     \<and> (\<forall>x\<in>set xs. wf_value x \<and> map_option dt_typeKind t = Some (value_kind x))"

lemma wf_variant_init [simp]: "wf_variant UA_Variant_init"
  by (simp add: UA_Variant_init_def)

lemma wf_variant_scalar: "wf_variant (UA_Variant t (Heap [x]) 0 Null 0) \<longleftrightarrow>
    wf_value x \<and> map_option dt_typeKind t = Some (value_kind x)"
  by simp

text \<open>The deep copy of a well-formed value is the value itself, when memory suffices.\<close>

lemma copy_ok:
  "mem_ok al \<Longrightarrow> wf_value x \<Longrightarrow> UA_copy al x = Inr (OpcUa_Good, x)"
  "mem_ok al \<Longrightarrow> list_all wf_value xs \<Longrightarrow> copy_elems al xs = Inr (OpcUa_Good, xs)"
  "mem_ok al \<Longrightarrow> wf_variant v \<Longrightarrow> Variant_copy al v = Inr (OpcUa_Good, v)"
proof (induction al x and al xs and al v rule: UA_copy_copy_elems_Variant_copy.induct)
  case (7 al t d n dims k)
  show ?case
  proof (cases d)
    case Null
    with "7.prems" show ?thesis by (auto simp: Let_def UA_Variant_isScalar_def UA_Array_copy_ok)
  next
    case Sentinel
    with "7.prems" show ?thesis by (auto simp: Let_def UA_Variant_isScalar_def UA_Array_copy_ok)
  next
    case (Heap xs)
    from Heap "7.prems" obtain ty where t: "t = Some ty" by (cases t; cases xs) (auto split: if_splits)
    let ?v = "UA_Variant (Some ty) (Heap xs) n dims k"
    let ?len = "if UA_Variant_isScalar ?v then 1 else n"
    have len: "?len = length xs" "?len \<noteq> 0"
      using Heap t "7.prems" by (auto simp: UA_Variant_isScalar_def)
    have wf: "list_all wf_value xs" and dims: "wf_array dims k"
      using Heap "7.prems" by (auto simp: list_all_iff)
    have "copy_elems al xs = Inr (OpcUa_Good, xs)"
      using "7.IH" [of ?len ty xs] t Heap "7.prems"(1) len wf by simp
    then show ?thesis
      unfolding Heap t Variant_copy.simps Let_def len(1)
      using len dims "7.prems"(1) by (auto simp: UA_Array_copy_ok)
  qed
qed (auto simp: String_copy_ok)

lemma UA_Variant_copy_ok: "mem_ok al \<Longrightarrow> wf_variant v \<Longrightarrow> UA_Variant_copy al v = Inr (OpcUa_Good, v)"
  by (simp add: UA_Variant_copy_def copy_ok)

subsection \<open>Setting a variant\<close>

text \<open>\<open>UA_Variant_clear\<close> frees the content and zeroes the structure.\<close>

definition UA_Variant_clear :: "UA_Variant \<Rightarrow> UA_Variant" where
  "UA_Variant_clear v = UA_Variant_init"

definition UA_Variant_setScalar :: "UA_value \<Rightarrow> UA_DataType \<Rightarrow> UA_Variant" where
  "UA_Variant_setScalar x ty = UA_Variant (Some ty) (Heap [x]) 0 Null 0"

definition UA_Variant_setScalarCopy ::
  "allocator \<Rightarrow> UA_Variant \<Rightarrow> UA_value \<Rightarrow> UA_DataType \<Rightarrow> (UA_StatusCode \<times> UA_Variant) res" where
  "UA_Variant_setScalarCopy al v p ty =
     (if \<not> can_alloc al (dt_memSize ty) then Inr (OpcUa_BadOutOfMemory, v)
      else bind_res (UA_copy al p) (\<lambda>(c, x).
        if c \<noteq> OpcUa_Good then Inr (c, v) else Inr (OpcUa_Good, UA_Variant_setScalar x ty)))"

definition UA_Variant_setArray :: "UA_value ptr \<Rightarrow> nat \<Rightarrow> UA_DataType \<Rightarrow> UA_Variant" where
  "UA_Variant_setArray arr n ty = UA_Variant (Some ty) arr n Null 0"

text \<open>The array argument points to the elements \<open>xs\<close> of a non-empty C++ vector.\<close>

definition UA_Variant_setArrayCopy ::
  "allocator \<Rightarrow> UA_value list \<Rightarrow> UA_DataType \<Rightarrow> (UA_StatusCode \<times> UA_Variant) res" where
  "UA_Variant_setArrayCopy al xs ty =
     (if xs = [] then Inr (OpcUa_Good, UA_Variant (Some ty) Sentinel 0 Null 0)
      else if \<not> can_alloc al (length xs * dt_memSize ty) then Inr (OpcUa_BadOutOfMemory, UA_Variant_init)
      else bind_res (copy_elems al xs) (\<lambda>(c, ys).
        if c \<noteq> OpcUa_Good then Inr (c, UA_Variant_init)
        else Inr (OpcUa_Good, UA_Variant (Some ty) (Heap ys) (length xs) Null 0)))"

lemma setScalarCopy_ok:
  "mem_ok al \<Longrightarrow> wf_value x \<Longrightarrow>
     UA_Variant_setScalarCopy al v x ty = Inr (OpcUa_Good, UA_Variant_setScalar x ty)"
  by (simp add: UA_Variant_setScalarCopy_def copy_ok)

lemma setArrayCopy_ok:
  "mem_ok al \<Longrightarrow> list_all wf_value xs \<Longrightarrow> xs \<noteq> [] \<Longrightarrow>
     UA_Variant_setArrayCopy al xs ty = Inr (OpcUa_Good, UA_Variant (Some ty) (Heap xs) (length xs) Null 0)"
  by (simp add: UA_Variant_setArrayCopy_def copy_ok)

end
