(* ===== verification/Assignable.thy ===== *)
theory Assignable
  imports Compat_Prelude
begin

text \<open>
  The contract shared by the library's value classes whose \<open>operator=\<close> first releases the
  object's own content and then copies the argument: \<open>UaString\<close>, \<open>UaByteString\<close>, \<open>UaNodeId\<close> and
  \<open>UaDataValue\<close>. The argument is \<open>Some x\<close> for another object with content \<open>x\<close> and \<open>None\<close> for the
  object itself (\<open>this == &other\<close>), where the code reads the content it has just released.
\<close>

datatype 'a obj = Live 'a | Freed

text \<open>\<open>Freed\<close>: the member pointer still holds the address of memory that was given back.\<close>

locale assignable =
  fixes assign :: "allocator \<Rightarrow> 'o option \<Rightarrow> ('o, unit) op"
    and wf :: "'o \<Rightarrow> bool"
    and cleared :: "'o"
  assumes assign_other: "mem_ok al \<Longrightarrow> wf x \<Longrightarrow> wf s \<Longrightarrow> assign al (Some x) s = (Inr (), x)"
    and assign_self: "mem_ok al \<Longrightarrow> wf s \<Longrightarrow> assign al None s = (Inr (), cleared)"
    and wf_cleared: "wf cleared"
begin

lemma assign_wf: "mem_ok al \<Longrightarrow> wf s \<Longrightarrow> (\<And>x. src = Some x \<Longrightarrow> wf x) \<Longrightarrow> wf (snd (assign al src s))"
  by (cases src) (simp_all add: assign_other assign_self wf_cleared)

lemma assign_overwrites:
  "mem_ok al \<Longrightarrow> wf x \<Longrightarrow> wf y \<Longrightarrow> wf s \<Longrightarrow>
     snd (assign al (Some y) (snd (assign al (Some x) s))) = y"
  by (simp add: assign_other)

lemma self_assignment_clears:
  "mem_ok al \<Longrightarrow> wf s \<Longrightarrow> assign al None s = (Inr (), s) \<longleftrightarrow> s = cleared"
  by (auto simp: assign_self)

text \<open>A swap through a temporary, as client code writes it.\<close>

lemma swap:
  assumes "mem_ok al" "wf a" "wf b" "wf t"
    and "t' = snd (assign al (Some a) t)"
    and "a' = snd (assign al (Some b) a)"
    and "b' = snd (assign al (Some t') b)"
  shows "a' = b" "b' = a"
  using assms by (simp_all add: assign_other)

end

end
