(* ===== verification/UaStrings.thy ===== *)
theory UaStrings
  imports UA_Stack Assignable
begin

text \<open>
  \<open>UaString\<close> (\<open>src/uastring.cpp\<close>) and \<open>UaByteString\<close> (\<open>src/uabytestring.cpp\<close>). Each object owns one
  heap-allocated stack structure through \<open>m_impl\<close>. The cache \<open>m_utf8\<close> only backs the pointer
  \<open>toUtf8\<close> returns and is not state of the model.
\<close>

subsection \<open>UaString\<close>

type_synonym UaString = "UA_String obj"

text \<open>\<open>UA_String_new\<close>: 16 bytes.\<close>

definition UaString_new :: "allocator \<Rightarrow> UaString res" where
  "UaString_new al = (if can_alloc al 16 then Inr (Live UA_STRING_NULL) else Inl (Throw AllocError))"

definition UaString_fromChars :: "allocator \<Rightarrow> string \<Rightarrow> UaString res" where
  "UaString_fromChars al s =
     (if \<not> can_alloc al 16 then Inl (Throw AllocError) else Inr (Live (UA_String_fromChars al (Some s))))"

text \<open>Construction from a stack string; the copy constructor passes \<open>other.m_impl\<close>.\<close>

definition UaString_fromStack :: "allocator \<Rightarrow> UA_String \<Rightarrow> UaString res" where
  "UaString_fromStack al other =
     (if \<not> can_alloc al 16 then Inl (Throw AllocError)
      else bind_res (String_copy al other) (\<lambda>(c, s).
        if c \<noteq> OpcUa_Good then Inl (Throw AllocError) else Inr (Live s)))"

definition UaString_copy :: "allocator \<Rightarrow> UaString \<Rightarrow> UaString res" where
  "UaString_copy al other = (case other of
      Live s \<Rightarrow> UaString_fromStack al s | Freed \<Rightarrow> Inl (UB UseAfterFree))"

text \<open>The destructor reads \<open>m_impl->data\<close> and deletes the structure.\<close>

definition UaString_destroy :: "(UaString, unit) op" where
  "UaString_destroy s = (case s of Live _ \<Rightarrow> (Inr (), Freed) | Freed \<Rightarrow> (Inl (UB UseAfterFree), Freed))"

text \<open>
  Assignment from a stack string. \<open>None\<close>: the argument is the object's own string, which
  \<open>UA_String_clear\<close> has just emptied. When the copy fails, \<open>m_impl\<close> is deleted but keeps its address.
\<close>

definition UaString_assign_impl :: "allocator \<Rightarrow> UA_String option \<Rightarrow> (UaString, unit) op" where
  "UaString_assign_impl al other s = (case s of Freed \<Rightarrow> (Inl (UB UseAfterFree), Freed)
     | Live own \<Rightarrow>
        (let src = (case other of None \<Rightarrow> UA_STRING_NULL | Some x \<Rightarrow> x)
         in case String_copy al src of
              Inl e \<Rightarrow> (Inl e, s)
            | Inr (c, t) \<Rightarrow> if c \<noteq> OpcUa_Good then (Inl (Throw AllocError), Freed) else (Inr (), Live t)))"

definition UaString_assign :: "allocator \<Rightarrow> UaString option \<Rightarrow> (UaString, unit) op" where
  "UaString_assign al other s = (case other of
      None \<Rightarrow> UaString_assign_impl al None s
    | Some (Live x) \<Rightarrow> UaString_assign_impl al (Some x) s
    | Some Freed \<Rightarrow> (Inl (UB UseAfterFree), s))"

text \<open>\<open>toUtf8\<close> returns a C string: what a caller reads ends at the first NUL.\<close>

definition UaString_toUtf8 :: "UaString \<Rightarrow> string res" where
  "UaString_toUtf8 s = (case s of Live x \<Rightarrow> Inr (c_str (bstr_bytes x)) | Freed \<Rightarrow> Inl (UB UseAfterFree))"

definition UaString_plus :: "allocator \<Rightarrow> UaString \<Rightarrow> UaString \<Rightarrow> UaString res" where
  "UaString_plus al a b = bind_res (UaString_toUtf8 a) (\<lambda>x. bind_res (UaString_toUtf8 b) (\<lambda>y.
     UaString_fromChars al (x @ y)))"

definition UaString_eq :: "UaString \<Rightarrow> UaString \<Rightarrow> bool res" where
  "UaString_eq a b = (case (a, b) of (Live x, Live y) \<Rightarrow> Inr (UA_String_equal x y)
     | _ \<Rightarrow> Inl (UB UseAfterFree))"

definition UaString_length :: "UaString \<Rightarrow> nat res" where
  "UaString_length s = (case s of Live x \<Rightarrow> Inr (bs_length x) | Freed \<Rightarrow> Inl (UB UseAfterFree))"

text \<open>\<open>detach\<close> and \<open>copyTo\<close> assign to the output; the outcome carries the output's new state.\<close>

definition UaString_detach :: "allocator \<Rightarrow> UaString \<Rightarrow> (UaString, unit) op" where
  "UaString_detach al s out = UaString_assign al (Some s) out"

definition wf_UaString :: "UaString \<Rightarrow> bool" where
  "wf_UaString s = (case s of Live x \<Rightarrow> wf_bstr x | Freed \<Rightarrow> False)"

lemma wf_UaString_Live [simp]: "wf_UaString (Live x) \<longleftrightarrow> wf_bstr x" "\<not> wf_UaString Freed"
  by (simp_all add: wf_UaString_def)

lemma wf_UaStringE: "wf_UaString s \<Longrightarrow> (\<And>x. s = Live x \<Longrightarrow> wf_bstr x \<Longrightarrow> P) \<Longrightarrow> P"
  by (cases s) auto

interpretation ua_string: assignable UaString_assign wf_UaString "Live UA_STRING_NULL"
  by unfold_locales
     (auto simp: UaString_assign_def UaString_assign_impl_def String_copy_ok elim!: wf_UaStringE)

lemma UaString_copy_ok: "mem_ok al \<Longrightarrow> wf_UaString s \<Longrightarrow> UaString_copy al s = Inr s"
  by (auto simp: UaString_copy_def UaString_fromStack_def String_copy_ok elim: wf_UaStringE)

lemma UaString_fromChars_ok:
  "mem_ok al \<Longrightarrow> UaString_fromChars al s = Inr (Live (UA_String_fromChars al (Some s)))"
  by (simp add: UaString_fromChars_def)

lemma UaString_toUtf8_fromChars:
  "mem_ok al \<Longrightarrow> bind_res (UaString_fromChars al s) UaString_toUtf8 = Inr (c_str s)"
  by (simp add: UaString_fromChars_ok UaString_toUtf8_def fromChars_bytes)

text \<open>\<open>operator+\<close> yields the string whose C text is the two operands' C texts one
  after the other; bytes of an operand behind an embedded NUL are dropped.\<close>

theorem UaString_plus_text:
  assumes "mem_ok al" "wf_UaString (Live a)" "wf_UaString (Live b)"
  shows "\<exists>c. UaString_plus al (Live a) (Live b) = Inr (Live c) \<and> wf_bstr c
     \<and> bstr_bytes c = c_str (bstr_bytes a) @ c_str (bstr_bytes b)"
  using assms by (simp add: UaString_plus_def UaString_toUtf8_def UaString_fromChars_ok fromChars_bytes)

theorem UaString_plus_text_witness:
  "\<exists>c. UaString_plus enough_memory (Live \<lparr>bs_length = 2, bs_data = Heap ''ab''\<rparr>)
        (Live \<lparr>bs_length = 1, bs_data = Heap ''c''\<rparr>) = Inr (Live c) \<and> wf_bstr c \<and> bstr_bytes c = ''abc''"
  using UaString_plus_text [OF mem_ok_enough, of "\<lparr>bs_length = 2, bs_data = Heap ''ab''\<rparr>"
      "\<lparr>bs_length = 1, bs_data = Heap ''c''\<rparr>"]
  by (simp add: wf_bstr_def bstr_bytes_def c_str_def)

text \<open>When the copy inside an assignment runs out of memory the exception leaves the
  object with a freed \<open>m_impl\<close>: the destructor that runs during unwinding then uses freed memory.\<close>

theorem UaString_failed_assign_dangles:
  assumes "wf_bstr x" "bs_data x = Heap xs" "\<not> can_alloc al (length xs)"
  shows "UaString_assign al (Some (Live x)) (Live s) = (Inl (Throw AllocError), Freed)
     \<and> UaString_destroy (snd (UaString_assign al (Some (Live x)) (Live s))) = (Inl (UB UseAfterFree), Freed)"
  using assms
  using wf_bstr_Heap [OF assms(1,2)]
  by (auto simp: UaString_assign_def UaString_assign_impl_def String_copy_def UA_Array_copy_def
      UaString_destroy_def)

theorem UaString_failed_assign_dangles_witness:
  "UaString_assign (memory_limit 2) (Some (Live \<lparr>bs_length = 3, bs_data = Heap ''abc''\<rparr>))
      (Live UA_STRING_NULL) = (Inl (Throw AllocError), Freed)"
  using UaString_failed_assign_dangles [of "\<lparr>bs_length = 3, bs_data = Heap ''abc''\<rparr>" "''abc''" "memory_limit 2"]
  by (simp add: wf_bstr_def memory_limit_def)

subsection \<open>UaByteString\<close>

text \<open>\<open>m_impl\<close> is allocated by the constructors and freed only by the destructor.\<close>

type_synonym UaByteString = UA_ByteString

definition UaByteString_new :: "allocator \<Rightarrow> UaByteString res" where
  "UaByteString_new al = (if can_alloc al 16 then Inr UA_STRING_NULL else Inl (Throw AllocError))"

text \<open>\<open>release\<close> looks at the data pointer only.\<close>

definition UaByteString_release :: "UaByteString \<Rightarrow> UaByteString" where
  "UaByteString_release s = (if bs_data s \<noteq> Null then UA_STRING_NULL else s)"

text \<open>\<open>len\<close> is a C \<open>int\<close>; \<open>dat\<close> points to the source bytes.\<close>

definition UaByteString_setByteString :: "allocator \<Rightarrow> int \<Rightarrow> byte ptr \<Rightarrow> (UaByteString, unit) op" where
  "UaByteString_setByteString al len dat s =
     (let s1 = UaByteString_release s
      in if 0 < len then
           (if \<not> can_alloc al (nat len) then (Inl (Throw AllocError), s1\<lparr>bs_data := Null\<rparr>)
            else case read_range dat (nat len) of
                Inl e \<Rightarrow> (Inl e, s1)
              | Inr xs \<Rightarrow> (Inr (), s1\<lparr>bs_data := Heap xs, bs_length := nat len\<rparr>))
         else (Inr (), s1\<lparr>bs_length := size_of_int len\<rparr>))"

text \<open>The constructor from bytes releases and rethrows when memory runs out.\<close>

definition UaByteString_fromBytes :: "allocator \<Rightarrow> int \<Rightarrow> byte ptr \<Rightarrow> UaByteString res" where
  "UaByteString_fromBytes al len dat = bind_res (UaByteString_new al) (\<lambda>s.
     case UaByteString_setByteString al len dat s of
       (Inl e, _) \<Rightarrow> Inl e | (Inr _, s') \<Rightarrow> Inr s')"

text \<open>
  \<open>copyTo\<close>: the destination is \<open>None\<close> when it is the object itself. The result is the new
  content of the destination; \<open>UA_ByteString_copy\<close> zeroes it before anything is copied.
\<close>

definition UaByteString_copyTo :: "allocator \<Rightarrow> UaByteString \<Rightarrow> UaByteString option \<Rightarrow> unit res \<times> UaByteString" where
  "UaByteString_copyTo al s dest =
     (let src = (case dest of None \<Rightarrow> UA_STRING_NULL | Some _ \<Rightarrow> s)
      in case String_copy al src of
           Inl e \<Rightarrow> (Inl e, UA_STRING_NULL)
         | Inr (c, t) \<Rightarrow>
             if c \<noteq> OpcUa_Good then (Inl (Throw (RuntimeError ''UA_ByteString_copy failed with: '')), t)
             else (Inr (), t))"

definition UaByteString_copy :: "allocator \<Rightarrow> UaByteString \<Rightarrow> UaByteString res" where
  "UaByteString_copy al other = bind_res (UaByteString_new al) (\<lambda>s.
     case UaByteString_copyTo al other (Some s) of (Inl e, _) \<Rightarrow> Inl e | (Inr _, s') \<Rightarrow> Inr s')"

definition UaByteString_fromStack :: "allocator \<Rightarrow> UA_ByteString \<Rightarrow> UaByteString res" where
  "UaByteString_fromStack al other = bind_res (UaByteString_new al) (\<lambda>s.
     bind_res (String_copy al other) (\<lambda>(c, t).
       if c \<noteq> OpcUa_Good then Inl (Throw (RuntimeError ''UA_ByteString_copy failed: '')) else Inr t))"

definition UaByteString_assign :: "allocator \<Rightarrow> UaByteString option \<Rightarrow> (UaByteString, unit) op" where
  "UaByteString_assign al other s =
     (let s1 = UaByteString_release s
      in case other of
           None \<Rightarrow> UaByteString_copyTo al s1 None
         | Some x \<Rightarrow> UaByteString_copyTo al x (Some s1))"

definition UaByteString_length :: "UaByteString \<Rightarrow> int res" where
  "UaByteString_length s =
     (if INT32_MAX < int (bs_length s)
      then Inl (Throw (RuntimeError ''UaByteString::length() open62541 size too big for UASDK API''))
      else Inr (int (bs_length s)))"

lemma release_wf: "wf_bstr s \<Longrightarrow> UaByteString_release s = UA_STRING_NULL"
  by (cases s) (auto simp: UaByteString_release_def wf_bstr_def UA_STRING_NULL_def)

interpretation ua_bytestring: assignable UaByteString_assign wf_bstr UA_STRING_NULL
  by unfold_locales
     (simp_all add: UaByteString_assign_def UaByteString_copyTo_def String_copy_ok Let_def)

lemma UaByteString_copy_ok: "mem_ok al \<Longrightarrow> wf_bstr s \<Longrightarrow> UaByteString_copy al s = Inr s"
  by (simp add: UaByteString_copy_def UaByteString_new_def UaByteString_copyTo_def String_copy_ok)

lemma setByteString_ok:
  assumes "mem_ok al" "wf_bstr s" "int (length xs) \<le> INT32_MAX"
  shows "UaByteString_setByteString al (int (length xs)) (Heap xs) s
     = (Inr (), \<lparr>bs_length = length xs, bs_data = (if xs = [] then Null else Heap xs)\<rparr>)"
  using assms
  by (simp add: UaByteString_setByteString_def release_wf UA_STRING_NULL_def size_of_int_def)

text \<open>Bytes put into a \<open>UaByteString\<close> are the bytes it holds, its length is their
  number, and its copy holds them too, for every array an \<open>int\<close> length can describe.\<close>

theorem UaByteString_bytes_roundtrip:
  assumes "mem_ok al" "int (length xs) \<le> INT32_MAX"
  shows "\<exists>s. UaByteString_fromBytes al (int (length xs)) (Heap xs) = Inr s \<and> wf_bstr s
     \<and> bstr_bytes s = xs \<and> UaByteString_length s = Inr (int (length xs)) \<and> UaByteString_copy al s = Inr s"
proof -
  let ?s = "\<lparr>bs_length = length xs, bs_data = (if xs = [] then Null else Heap xs)\<rparr>"
  have wf: "wf_bstr ?s" by (simp add: wf_bstr_def)
  have "UaByteString_fromBytes al (int (length xs)) (Heap xs) = Inr ?s"
    using assms by (simp add: UaByteString_fromBytes_def UaByteString_new_def setByteString_ok)
  moreover have "bstr_bytes ?s = xs" by (simp add: bstr_bytes_def)
  moreover have "UaByteString_length ?s = Inr (int (length xs))"
    using assms by (simp add: UaByteString_length_def)
  ultimately show ?thesis using wf assms(1) by (blast intro: UaByteString_copy_ok)
qed

theorem UaByteString_bytes_roundtrip_witness:
  "\<exists>s. UaByteString_fromBytes enough_memory 2 (Heap [7, 9]) = Inr s \<and> bstr_bytes s = [7, 9]"
  using UaByteString_bytes_roundtrip [OF mem_ok_enough, of "[7, 9]"] by (auto simp: INT32_MAX_def)

text \<open>A negative length is stored as a huge \<open>size_t\<close> without memory behind it: the
  object is no longer well-formed, \<open>length()\<close> throws and copying it throws.\<close>

theorem UaByteString_negative_length:
  assumes "len < 0" "- 2147483648 \<le> len" "wf_bstr s" "can_alloc al 16"
  shows "fst (UaByteString_setByteString al len dat s) = Inr ()
    \<and> (\<exists>e. UaByteString_length (snd (UaByteString_setByteString al len dat s)) = Inl (Throw (RuntimeError e)))
    \<and> (\<exists>e. UaByteString_copy al (snd (UaByteString_setByteString al len dat s)) = Inl (Throw (RuntimeError e)))"
proof -
  have n: "size_of_int len = nat (len + 18446744073709551616)"
    using assms(1,2) by (intro size_of_int_neg) auto
  have set: "UaByteString_setByteString al len dat s
      = (Inr (), \<lparr>bs_length = size_of_int len, bs_data = Null\<rparr>)"
    using assms by (simp add: UaByteString_setByteString_def release_wf UA_STRING_NULL_def)
  show ?thesis
    using assms n unfolding set
    by (simp add: UaByteString_length_def INT32_MAX_def UaByteString_copy_def UaByteString_new_def
        UaByteString_copyTo_def String_copy_def UA_Array_copy_def)
qed

theorem UaByteString_negative_length_witness:
  "\<exists>e. UaByteString_length (snd (UaByteString_setByteString enough_memory (-1) Null UA_STRING_NULL))
       = Inl (Throw (RuntimeError e))"
  using UaByteString_negative_length [of "-1" UA_STRING_NULL enough_memory Null]
  by (simp add: enough_memory_def)

end
