(* ===== verification/UaNodeIds.thy ===== *)
theory UaNodeIds
  imports UaStrings
begin

text \<open>
  \<open>UaNodeId\<close> (\<open>src/uanodeid.cpp\<close>, \<open>include/uanodeid.h\<close>), \<open>UaExpandedNodeId\<close>, and the qualified
  and localized names of \<open>include/other.h\<close> and \<open>src/open62541_compat.cpp\<close>. The state of a
  \<open>UaNodeId\<close> is the stack structure \<open>m_impl\<close>.
\<close>

type_synonym UaNodeId = UA_NodeId

subsection \<open>Construction and assignment\<close>

definition UaNodeId_default :: UaNodeId where
  "UaNodeId_default = UA_NODEID_NUMERIC 0 0"

definition UaNodeId_numeric :: "32 word \<Rightarrow> 16 word \<Rightarrow> UaNodeId" where
  "UaNodeId_numeric numericAddress ns = UA_NODEID_NUMERIC ns numericAddress"

definition UaNodeId_string :: "allocator \<Rightarrow> UaString \<Rightarrow> 16 word \<Rightarrow> UaNodeId res" where
  "UaNodeId_string al stringAddress ns = (case stringAddress of
      Freed \<Rightarrow> Inl (UB UseAfterFree)
    | Live s \<Rightarrow> bind_res (String_copy al s) (\<lambda>(status, t).
        if status \<noteq> OpcUa_Good then Inl (Throw AllocError)
        else Inr \<lparr>nid_namespaceIndex = ns, nid_identifier = IdString t\<rparr>))"

definition UaNodeId_copy :: "allocator \<Rightarrow> UaNodeId \<Rightarrow> UaNodeId res" where
  "UaNodeId_copy al other = bind_res (NodeId_copy al other) (\<lambda>(status, m_impl).
     if status \<noteq> OpcUa_Good then Inl (Throw AllocError) else Inr m_impl)"

text \<open>The conversion from the stack's structure ignores the status of the copy.\<close>

definition UaNodeId_fromStack :: "allocator \<Rightarrow> UA_NodeId \<Rightarrow> UaNodeId res" where
  "UaNodeId_fromStack al other = bind_res (NodeId_copy al other) (\<lambda>(_, m_impl). Inr m_impl)"

definition UaNodeId_assign :: "allocator \<Rightarrow> UaNodeId option \<Rightarrow> (UaNodeId, unit) op" where
  "UaNodeId_assign al other m_impl =
     (let src = (case other of None \<Rightarrow> UA_NodeId_null | Some x \<Rightarrow> x)
      in case NodeId_copy al src of
           Inl e \<Rightarrow> (Inl e, UA_NodeId_null)
         | Inr (status, t) \<Rightarrow>
             if status \<noteq> OpcUa_Good then (Inl (Throw AllocError), t) else (Inr (), t))"

text \<open>\<open>copyTo(UaNodeId*)\<close> assigns; \<open>copyTo(UA_NodeId*)\<close> (\<open>None\<close>: a null pointer) overwrites.\<close>

definition UaNodeId_copyTo :: "allocator \<Rightarrow> UaNodeId \<Rightarrow> (UaNodeId, unit) op" where
  "UaNodeId_copyTo al s other = UaNodeId_assign al (Some s) other"

definition UaNodeId_copyToStack :: "allocator \<Rightarrow> UaNodeId \<Rightarrow> UA_NodeId option \<Rightarrow> unit res \<times> UA_NodeId option" where
  "UaNodeId_copyToStack al s other = (case other of
      None \<Rightarrow> (Inl (Throw (RuntimeError ''passed a nullptr'')), None)
    | Some old \<Rightarrow> (case NodeId_copy al s of
        Inl e \<Rightarrow> (Inl e, Some UA_NodeId_null)
      | Inr (status, t) \<Rightarrow>
          if status \<noteq> OpcUa_Good then (Inl (Throw AllocError), Some t) else (Inr (), Some t)))"

interpretation ua_nodeid: assignable UaNodeId_assign wf_nodeid UA_NodeId_null
proof unfold_locales
  show "wf_nodeid UA_NodeId_null"
    by (simp add: wf_nodeid_def UA_NodeId_null_def UA_NODEID_NUMERIC_def)
  then show "mem_ok al \<Longrightarrow> UaNodeId_assign al None s = (Inr (), UA_NodeId_null)" for al s
    by (simp add: UaNodeId_assign_def NodeId_copy_ok)
qed (simp_all add: UaNodeId_assign_def NodeId_copy_ok)

lemma UaNodeId_copy_ok: "mem_ok al \<Longrightarrow> wf_nodeid n \<Longrightarrow> UaNodeId_copy al n = Inr n"
  by (simp add: UaNodeId_copy_def NodeId_copy_ok)

lemma UaNodeId_assign_wf: "wf_nodeid (snd (UaNodeId_assign al other s))"
  using ua_nodeid.wf_cleared
  by (auto simp: UaNodeId_assign_def Let_def split: sum.split option.split dest: NodeId_copy_wf)

subsection \<open>Queries\<close>

datatype IdentifierType = OpcUa_IdentifierType_Numeric | OpcUa_IdentifierType_String

definition UaNodeId_identifierType :: "UaNodeId \<Rightarrow> IdentifierType res" where
  "UaNodeId_identifierType n = (case nid_identifier n of
      IdNumeric _ \<Rightarrow> Inr OpcUa_IdentifierType_Numeric
    | IdString _ \<Rightarrow> Inr OpcUa_IdentifierType_String
    | _ \<Rightarrow> Inl (Throw (RuntimeError ''not-implemented'')))"

text \<open>
  \<open>identifierNumeric\<close> reads the union's numeric member whatever is stored: the low half of the
  length field of a string, or the first field of a GUID (little-endian layout).
\<close>

definition UaNodeId_identifierNumeric :: "UaNodeId \<Rightarrow> 32 word" where
  "UaNodeId_identifierNumeric n = (case nid_identifier n of
      IdNumeric i \<Rightarrow> i | IdString s \<Rightarrow> word_of_nat (bs_length s)
    | IdByteString s \<Rightarrow> word_of_nat (bs_length s) | IdGuid g \<Rightarrow> data1 g)"

definition UaNodeId_identifierString :: "allocator \<Rightarrow> UaNodeId \<Rightarrow> UaString res" where
  "UaNodeId_identifierString al n = (case nid_identifier n of
      IdString s \<Rightarrow> UaString_fromStack al s
    | _ \<Rightarrow> Inl (Throw (RuntimeError ''asking for identifierString from a non-string identifier!'')))"

definition UaNodeId_eq :: "UaNodeId \<Rightarrow> UaNodeId \<Rightarrow> bool" where
  "UaNodeId_eq a b = UA_NodeId_equal a b"

subsection \<open>Printing\<close>

text \<open>
  \<open>boost::lexical_cast<std::string>\<close> of an unsigned integer is a parameter \<open>lc\<close>; what the code
  relies on is that distinct numbers print as distinct strings of decimal digits.
\<close>

definition lexical_cast_ok :: "(nat \<Rightarrow> string) \<Rightarrow> bool" where
  "lexical_cast_ok lc \<longleftrightarrow> inj lc \<and> (\<forall>n. set (lc n) \<subseteq> set ''0123456789'')"

definition UaNodeId_toString :: "(nat \<Rightarrow> string) \<Rightarrow> allocator \<Rightarrow> UaNodeId \<Rightarrow> UaString res" where
  "UaNodeId_toString lc al n = bind_res (UaNodeId_identifierType n) (\<lambda>ty.
     if ty = OpcUa_IdentifierType_String then UaNodeId_identifierString al n
     else if ty = OpcUa_IdentifierType_Numeric
       then UaString_fromChars al (lc (unat (UaNodeId_identifierNumeric n)))
     else UaString_fromChars al ''identifier-type-unsupported'')"

text \<open>\<open>snprintf\<close> with the formats \<open>%02x\<close>, \<open>%04x\<close> and \<open>%08x\<close>.\<close>

definition hex_pad :: "nat \<Rightarrow> nat \<Rightarrow> string" where
  "hex_pad w n = replicate (w - length (show_base 16 n)) (CHR ''0'') @ show_base 16 n"

definition hex_bytes :: "byte list \<Rightarrow> string" where
  "hex_bytes bs = concat (map (\<lambda>b. hex_pad 2 (unat b)) bs)"

definition guid_text :: "UA_Guid \<Rightarrow> string" where
  "guid_text g = ''Guid|'' @ hex_pad 8 (unat (data1 g)) @ ''-'' @ hex_pad 4 (unat (data2 g)) @ ''-''
     @ hex_pad 4 (unat (data3 g)) @ ''-'' @ hex_bytes (take 2 (data4 g)) @ ''-''
     @ hex_bytes (take 6 (drop 2 (data4 g)))"

definition UaNodeId_toFullString :: "(nat \<Rightarrow> string) \<Rightarrow> allocator \<Rightarrow> UaNodeId \<Rightarrow> UaString res" where
  "UaNodeId_toFullString lc al n =
     bind_res
       (let s = ''NS'' @ lc (unat (nid_namespaceIndex n)) @ ''|''
        in case nid_identifier n of
             IdNumeric i \<Rightarrow> Inr (s @ ''Numeric|'' @ lc (unat i))
           | IdString _ \<Rightarrow> bind_res (UaNodeId_identifierString al n) (\<lambda>u.
               bind_res (UaString_copy al u) (\<lambda>u'. bind_res (UaString_toUtf8 u') (\<lambda>t.
                 Inr (s @ ''String|'' @ t))))
           | IdByteString b \<Rightarrow> bind_res (read_range (bs_data b) (bs_length b)) (\<lambda>xs.
               Inr (s @ ''Opaque|0x'' @ hex_bytes xs))
           | IdGuid g \<Rightarrow> Inr (s @ guid_text g))
       (\<lambda>s. UaString_fromChars al s)"


subsection \<open>Fixed-width hexadecimal is injective\<close>

text \<open>Reading the digits back.\<close>

definition digit_val :: "char \<Rightarrow> nat" where
  "digit_val c = length (takeWhile (\<lambda>d. d \<noteq> c) ''0123456789abcdef'')"

definition hex_val :: "string \<Rightarrow> nat" where
  "hex_val s = foldl (\<lambda>a c. a * 16 + digit_val c) 0 s"

lemma digit_val_hex_digit: "d < 16 \<Longrightarrow> digit_val (hex_digit d) = d"
proof -
  have "list_all (\<lambda>d. digit_val (hex_digit d) = d) [0..<16]" by code_simp
  then show "d < 16 \<Longrightarrow> digit_val (hex_digit d) = d" by (simp add: list_all_iff)
qed

lemma hex_val_show: "hex_val (show_base 16 n) = n"
proof (induction n rule: less_induct)
  case (less n)
  show ?case
  proof (cases "n < 16")
    case True
    then show ?thesis by (subst show_base.simps) (simp add: hex_val_def digit_val_hex_digit)
  next
    case False
    then have "hex_val (show_base 16 (n div 16)) = n div 16" by (intro less.IH) simp
    with False show ?thesis
      by (subst show_base.simps) (simp add: hex_val_def digit_val_hex_digit)
  qed
qed

lemma hex_val_zeros: "hex_val (replicate k (CHR ''0'') @ s) = hex_val s"
  by (induction k) (simp_all add: hex_val_def digit_val_def)

lemma hex_pad_inj: "hex_pad w m = hex_pad w n \<Longrightarrow> m = n"
  by (metis hex_pad_def hex_val_show hex_val_zeros)

lemma length_show_base: "n < 16 ^ Suc k \<Longrightarrow> length (show_base 16 n) \<le> Suc k"
proof (induction k arbitrary: n)
  case 0
  then show ?case by (subst show_base.simps) simp
next
  case (Suc k)
  then have "n div 16 < 16 ^ Suc k" by (simp add: div_less_iff_less_mult ac_simps)
  then have "length (show_base 16 (n div 16)) \<le> Suc k" by (rule Suc.IH)
  then show ?case by (subst show_base.simps) simp
qed

lemma length_hex_pad: "n < 16 ^ w \<Longrightarrow> 0 < w \<Longrightarrow> length (hex_pad w n) = w"
  using length_show_base [of n "w - 1"] by (simp add: hex_pad_def)

lemma length_hex_pad_word [simp]:
  "length (hex_pad 8 (unat (x :: 32 word))) = 8"
  "length (hex_pad 4 (unat (y :: 16 word))) = 4"
  "length (hex_pad 2 (unat (z :: 8 word))) = 2"
proof -
  have "unat x < 2 ^ 32" "unat y < 2 ^ 16" "unat z < 2 ^ 8"
    using unsigned_less [of x] unsigned_less [of y] unsigned_less [of z] by simp_all
  then show "length (hex_pad 8 (unat x)) = 8" "length (hex_pad 4 (unat y)) = 4"
    "length (hex_pad 2 (unat z)) = 2"
    by (auto intro!: length_hex_pad)
qed

lemma hex_pad_chars: "set (hex_pad w n) \<subseteq> hex_chars"
  using show_base_chars [of 16 n] by (auto simp: hex_pad_def hex_chars_def)

lemma hex_bytes_Cons: "hex_bytes (b # bs) = hex_pad 2 (unat b) @ hex_bytes bs"
  by (simp add: hex_bytes_def)

lemma length_hex_bytes: "length (hex_bytes bs) = 2 * length bs"
  by (induction bs) (simp_all add: hex_bytes_Cons, simp add: hex_bytes_def)

lemma hex_bytes_inj: "hex_bytes xs = hex_bytes ys \<Longrightarrow> xs = ys"
proof (induction xs arbitrary: ys)
  case Nil
  then have "length (hex_bytes ys) = 0" by (simp add: hex_bytes_def)
  then show ?case by (simp add: length_hex_bytes)
next
  case (Cons x xs)
  then obtain y ys' where ys: "ys = y # ys'"
    using length_hex_bytes [of "x # xs"] length_hex_bytes [of ys] by (cases ys) auto
  with Cons.prems have "hex_pad 2 (unat x) = hex_pad 2 (unat y)" "hex_bytes xs = hex_bytes ys'"
    by (auto simp: hex_bytes_Cons append_eq_append_conv)
  with Cons.IH ys show ?case by (auto simp: word_unat_eq_iff dest: hex_pad_inj)
qed

lemma hex_bytes_chars: "set (hex_bytes bs) \<subseteq> hex_chars"
  using hex_pad_chars by (fastforce simp: hex_bytes_def)

lemma nul_free_hex_bytes: "set s \<subseteq> hex_chars \<Longrightarrow> nul_free s"
  by (auto simp: nul_free_def hex_chars_def)

lemmas hex_nul_free [simp] = nul_free_hex_bytes [OF hex_pad_chars] nul_free_hex_bytes [OF hex_bytes_chars]

subsection \<open>The full string identifies the node\<close>

text \<open>What a node identifier denotes, without the difference between the null and the empty string.\<close>

datatype id_key = KeyNumeric "32 word" | KeyString string | KeyGuid UA_Guid | KeyOpaque "byte list"

definition node_key :: "UaNodeId \<Rightarrow> 16 word \<times> id_key" where
  "node_key n = (nid_namespaceIndex n, case nid_identifier n of
      IdNumeric i \<Rightarrow> KeyNumeric i | IdString s \<Rightarrow> KeyString (bstr_bytes s)
    | IdGuid g \<Rightarrow> KeyGuid g | IdByteString b \<Rightarrow> KeyOpaque (bstr_bytes b))"

definition key_text :: "(nat \<Rightarrow> string) \<Rightarrow> id_key \<Rightarrow> string" where
  "key_text lc k = (case k of KeyNumeric i \<Rightarrow> ''Numeric|'' @ lc (unat i) | KeyString s \<Rightarrow> ''String|'' @ s
     | KeyOpaque b \<Rightarrow> ''Opaque|0x'' @ hex_bytes b | KeyGuid g \<Rightarrow> guid_text g)"

definition node_text :: "(nat \<Rightarrow> string) \<Rightarrow> 16 word \<times> id_key \<Rightarrow> string" where
  "node_text lc k = ''NS'' @ lc (unat (fst k)) @ ''|'' @ key_text lc (snd k)"

text \<open>A C string holds no NUL and a GUID has eight bytes in its last field.\<close>

definition printable_key :: "id_key \<Rightarrow> bool" where
  "printable_key k = (case k of KeyString s \<Rightarrow> nul_free s | KeyGuid g \<Rightarrow> length (data4 g) = 8 | _ \<Rightarrow> True)"

lemma lexical_cast_decimal: "lexical_cast_ok (show_base 10)"
proof -
  have "set (show_base b n) \<subseteq> set ''0123456789''" if "b = 10" for b n
    using that
  proof (induction b n rule: show_base.induct)
    case (1 b n)
    have digit: "hex_digit d \<in> set ''0123456789''" if "d < 10" for d
    proof -
      have "list_all (\<lambda>d. hex_digit d \<in> set ''0123456789'') [0..<10]" by code_simp
      with that show ?thesis unfolding list_all_iff by (metis atLeastLessThan_iff le0 set_upt)
    qed
    show ?case
    proof (cases "n < 10")
      case True
      with digit "1.prems" show ?thesis by (subst show_base.simps) simp
    next
      case False
      then have "set (show_base 10 (n div 10)) \<subseteq> set ''0123456789''"
        using "1.IH" "1.prems" by simp
      with False digit [of "n mod 10"] "1.prems" show ?thesis by (subst show_base.simps) simp
    qed
  qed
  then have "set (show_base 10 n) \<subseteq> set ''0123456789''" for n by blast
  moreover have "inj (show_base 10)" by (auto simp: inj_def intro: show_base_inj [of 10])
  ultimately show ?thesis unfolding lexical_cast_ok_def by blast
qed

lemma lexical_cast_bar: "lexical_cast_ok lc \<Longrightarrow> CHR ''|'' \<notin> set (lc n)"
  by (auto simp: lexical_cast_ok_def)

lemma lexical_cast_inj: "lexical_cast_ok lc \<Longrightarrow> lc m = lc n \<longleftrightarrow> m = n"
  by (auto simp: lexical_cast_ok_def inj_def)

lemma lexical_cast_nul_free: "lexical_cast_ok lc \<Longrightarrow> nul_free (lc n)"
  by (auto simp: lexical_cast_ok_def nul_free_def)

lemma guid_text_inj:
  assumes eq: "guid_text g = guid_text h" and len: "length (data4 g) = 8" "length (data4 h) = 8"
  shows "g = h"
proof -
  have "hex_pad 8 (unat (data1 g)) = hex_pad 8 (unat (data1 h))"
    and "hex_pad 4 (unat (data2 g)) = hex_pad 4 (unat (data2 h))"
    and "hex_pad 4 (unat (data3 g)) = hex_pad 4 (unat (data3 h))"
    and a: "hex_bytes (take 2 (data4 g)) = hex_bytes (take 2 (data4 h))"
    and b: "hex_bytes (take 6 (drop 2 (data4 g))) = hex_bytes (take 6 (drop 2 (data4 h)))"
    using eq len by (auto simp: guid_text_def append_eq_append_conv length_hex_bytes)
  then have "data1 g = data1 h" "data2 g = data2 h" "data3 g = data3 h"
    by (simp_all add: word_unat_eq_iff hex_pad_inj)
  moreover have "take 2 (data4 g) @ drop 2 (data4 g) = take 2 (data4 h) @ drop 2 (data4 h)"
    using hex_bytes_inj [OF a] hex_bytes_inj [OF b] len by simp
  then have "data4 g = data4 h" by simp
  ultimately show ?thesis by (cases g; cases h) simp
qed

lemma key_text_inj:
  assumes "lexical_cast_ok lc" "printable_key j" "printable_key k" "key_text lc j = key_text lc k"
  shows "j = k"
  using assms
  by (cases j; cases k)
     (auto simp: key_text_def printable_key_def lexical_cast_inj word_unat_eq_iff guid_text_def
       dest: hex_bytes_inj intro!: guid_text_inj)

lemma node_text_inj:
  assumes "lexical_cast_ok lc" "printable_key (snd j)" "printable_key (snd k)"
    and "node_text lc j = node_text lc k"
  shows "j = k"
proof -
  have "lc (unat (fst j)) @ CHR ''|'' # key_text lc (snd j) = lc (unat (fst k)) @ CHR ''|'' # key_text lc (snd k)"
    using assms(4) by (simp add: node_text_def)
  from split_at_sep [OF this lexical_cast_bar [OF assms(1)] lexical_cast_bar [OF assms(1)]]
  have "lc (unat (fst j)) = lc (unat (fst k))" "key_text lc (snd j) = key_text lc (snd k)"
    by simp_all
  moreover from this(2) have "snd j = snd k" by (rule key_text_inj [OF assms(1,2,3)])
  ultimately show ?thesis
    using assms(1) by (simp add: prod_eq_iff lexical_cast_inj word_unat_eq_iff)
qed

lemma node_text_nul_free:
  assumes "lexical_cast_ok lc" "printable_key (snd k)"
  shows "nul_free (node_text lc k)"
proof -
  have "nul_free (key_text lc (snd k))"
    using assms by (cases "snd k")
      (simp_all add: key_text_def printable_key_def lexical_cast_nul_free guid_text_def)
  then show ?thesis
    using lexical_cast_nul_free [OF assms(1)] by (simp add: node_text_def)
qed

lemma toFullString_text:
  assumes "mem_ok al" "wf_nodeid n" "lexical_cast_ok lc" "printable_key (snd (node_key n))"
  shows "UaNodeId_toFullString lc al n
    = Inr (Live (UA_String_fromChars al (Some (node_text lc (node_key n)))))"
proof (cases "nid_identifier n")
  case (IdByteString b)
  with assms(2) have "read_range (bs_data b) (bs_length b) = Inr (bstr_bytes b)"
    by (simp add: wf_nodeid_def read_range_bstr)
  with IdByteString assms show ?thesis
    by (simp add: UaNodeId_toFullString_def node_key_def node_text_def key_text_def UaString_fromChars_ok)
qed (use assms in \<open>simp_all add: UaNodeId_toFullString_def node_key_def node_text_def key_text_def
  UaString_fromChars_ok UaNodeId_identifierString_def UaString_fromStack_def wf_nodeid_def String_copy_ok
  UaString_copy_def UaString_toUtf8_def printable_key_def\<close>)

text \<open>\<open>toFullString\<close> always succeeds on a well-formed identifier whose text can be a C
  string, and its result identifies the node: two identifiers print alike exactly when they agree in
  namespace, identifier type and identifier.\<close>

theorem UaNodeId_toFullString_identifies:
  assumes "mem_ok al" "lexical_cast_ok lc" "wf_nodeid m" "wf_nodeid n"
    and "printable_key (snd (node_key m))" "printable_key (snd (node_key n))"
  shows "\<exists>s t. UaNodeId_toFullString lc al m = Inr (Live s) \<and> UaNodeId_toFullString lc al n = Inr (Live t)
     \<and> (bstr_bytes s = bstr_bytes t \<longleftrightarrow> node_key m = node_key n)"
  using assms node_text_inj [OF assms(2,5,6)]
  by (auto simp: toFullString_text fromChars_bytes node_text_nul_free)

theorem UaNodeId_toFullString_identifies_witness:
  "\<exists>s t. UaNodeId_toFullString (show_base 10) enough_memory (UA_NODEID_NUMERIC 2 7) = Inr (Live s)
     \<and> UaNodeId_toFullString (show_base 10) enough_memory
          \<lparr>nid_namespaceIndex = 2, nid_identifier = IdString \<lparr>bs_length = 1, bs_data = Heap ''7''\<rparr>\<rparr> = Inr (Live t)
     \<and> bstr_bytes s \<noteq> bstr_bytes t"
  using UaNodeId_toFullString_identifies [OF mem_ok_enough lexical_cast_decimal, of "UA_NODEID_NUMERIC 2 7"
      "\<lparr>nid_namespaceIndex = 2, nid_identifier = IdString \<lparr>bs_length = 1, bs_data = Heap ''7''\<rparr>\<rparr>"]
  by (simp add: wf_nodeid_def wf_bstr_def node_key_def bstr_bytes_def printable_key_def UA_NODEID_NUMERIC_def)

text \<open>Equality implies equal keys; the converse fails only between a null and an empty string.\<close>

lemma UaNodeId_eq_key:
  "wf_nodeid m \<Longrightarrow> wf_nodeid n \<Longrightarrow> UaNodeId_eq m n \<Longrightarrow> node_key m = node_key n"
  by (cases "nid_identifier m"; cases "nid_identifier n")
     (auto simp: UaNodeId_eq_def UA_NodeId_equal_cases node_key_def wf_nodeid_def UA_String_equal_iff)

text \<open>\<open>toString\<close> returns the text of a string identifier and the decimal digits of a
  numeric one; for a GUID or opaque identifier it throws out of \<open>identifierType\<close>, so its own fallback
  text is never returned. The namespace is not part of the result.\<close>

theorem UaNodeId_toString_cases:
  assumes "mem_ok al" "wf_nodeid n"
  shows "UaNodeId_toString lc al n = (case nid_identifier n of
      IdString s \<Rightarrow> Inr (Live s)
    | IdNumeric i \<Rightarrow> Inr (Live (UA_String_fromChars al (Some (lc (unat i)))))
    | IdGuid _ \<Rightarrow> Inl (Throw (RuntimeError ''not-implemented''))
    | IdByteString _ \<Rightarrow> Inl (Throw (RuntimeError ''not-implemented'')))"
  using assms
  by (cases "nid_identifier n")
     (simp_all add: UaNodeId_toString_def UaNodeId_identifierType_def UaNodeId_identifierString_def
       UaNodeId_identifierNumeric_def UaString_fromChars_ok UaString_fromStack_def String_copy_ok wf_nodeid_def)

theorem UaNodeId_toString_cases_witness:
  "UaNodeId_toString (show_base 10) enough_memory
      \<lparr>nid_namespaceIndex = 2, nid_identifier = IdByteString UA_STRING_NULL\<rparr>
    = Inl (Throw (RuntimeError ''not-implemented''))"
  using UaNodeId_toString_cases [OF mem_ok_enough, of
      "\<lparr>nid_namespaceIndex = 2, nid_identifier = IdByteString UA_STRING_NULL\<rparr>" "show_base 10"]
  by (simp add: wf_nodeid_def)

text \<open>Construction from a stack identifier whose content cannot be copied does not fail:
  it silently yields the null node identifier, where the copy constructor throws.\<close>

theorem UaNodeId_fromStack_silent:
  assumes "wf_bstr s" "bs_data s = Heap xs" "\<not> can_alloc al (length xs)"
  shows "UaNodeId_fromStack al \<lparr>nid_namespaceIndex = ns, nid_identifier = IdString s\<rparr> = Inr UaNodeId_default
     \<and> UaNodeId_copy al \<lparr>nid_namespaceIndex = ns, nid_identifier = IdString s\<rparr> = Inl (Throw AllocError)"
  using assms wf_bstr_Heap [OF assms(1,2)]
  by (auto simp: UaNodeId_fromStack_def UaNodeId_copy_def NodeId_copy_def String_copy_def UA_Array_copy_def
      UaNodeId_default_def UA_NodeId_null_def)

theorem UaNodeId_fromStack_silent_witness:
  "UaNodeId_fromStack (memory_limit 2)
      \<lparr>nid_namespaceIndex = 4, nid_identifier = IdString \<lparr>bs_length = 3, bs_data = Heap ''abc''\<rparr>\<rparr>
    = Inr UaNodeId_default"
  using UaNodeId_fromStack_silent [of "\<lparr>bs_length = 3, bs_data = Heap ''abc''\<rparr>" "''abc''" "memory_limit 2" 4]
  by (simp add: wf_bstr_def memory_limit_def)

subsection \<open>Expanded node identifiers, qualified and localized names\<close>

text \<open>The expanded identifier keeps the node identifier and drops the URI and the server index.\<close>

record UaExpandedNodeId =
  m_nodeId :: UaNodeId

definition UaExpandedNodeId_of :: "allocator \<Rightarrow> UaNodeId \<Rightarrow> UaString \<Rightarrow> 32 word \<Rightarrow> UaExpandedNodeId res" where
  "UaExpandedNodeId_of al nodeId uri serverIndex = bind_res (UaNodeId_copy al nodeId) (\<lambda>n. Inr \<lparr>m_nodeId = n\<rparr>)"

text \<open>
  \<open>m_impl.name\<close> shares the memory of \<open>m_unqualifiedName\<close>; the model records the shared string once
  and the namespace index at its 16 bits (the first constructor takes an \<open>int\<close>).
\<close>

record UaQualifiedName =
  m_unqualifiedName :: UaString
  qn_namespaceIndex :: "16 word"

definition UaQualifiedName_ofInt :: "allocator \<Rightarrow> int \<Rightarrow> UaString \<Rightarrow> UaQualifiedName res" where
  "UaQualifiedName_ofInt al ns name = bind_res (UaString_copy al name) (\<lambda>s.
     Inr \<lparr>m_unqualifiedName = s, qn_namespaceIndex = word_of_int ns\<rparr>)"

definition UaQualifiedName_of :: "allocator \<Rightarrow> UaString \<Rightarrow> 16 word \<Rightarrow> UaQualifiedName res" where
  "UaQualifiedName_of al name nameSpaceIdx = bind_res (UaString_copy al name) (\<lambda>s.
     Inr \<lparr>m_unqualifiedName = s, qn_namespaceIndex = nameSpaceIdx\<rparr>)"

definition UaQualifiedName_eq :: "UaQualifiedName \<Rightarrow> UaQualifiedName \<Rightarrow> bool res" where
  "UaQualifiedName_eq a b =
     (if qn_namespaceIndex a = qn_namespaceIndex b
      then UaString_eq (m_unqualifiedName a) (m_unqualifiedName b) else Inr False)"

definition UaQualifiedName_toString :: "allocator \<Rightarrow> UaQualifiedName \<Rightarrow> UaString res" where
  "UaQualifiedName_toString al q = UaString_copy al (m_unqualifiedName q)"

text \<open>An output stream prints an unsigned short in decimal.\<close>

definition UaQualifiedName_toFullString :: "allocator \<Rightarrow> UaQualifiedName \<Rightarrow> UaString res" where
  "UaQualifiedName_toFullString al q = bind_res (UaString_copy al (m_unqualifiedName q)) (\<lambda>s.
     bind_res (UaString_toUtf8 s) (\<lambda>t.
       UaString_fromChars al (''ns='' @ show_base 10 (unat (qn_namespaceIndex q)) @ ''|'' @ t)))"

record UaLocalizedText =
  lt_locale :: UA_String
  lt_text :: UA_String

definition UaLocalizedText_of :: "allocator \<Rightarrow> string option \<Rightarrow> string option \<Rightarrow> UaLocalizedText" where
  "UaLocalizedText_of al loc txt =
     \<lparr>lt_locale = UA_String_fromChars al loc, lt_text = UA_String_fromChars al txt\<rparr>"

end
