(* ===== verification/UaArrays.thy ===== *)
theory UaArrays
  imports UaStrings
begin

text \<open>
  The array containers: \<open>UaCompatArray\<close> (\<open>include/array_templates.h\<close>), a checked vector and the
  base of every \<open>Ua...Array\<close> type; \<open>UaByteArray\<close> (\<open>src/uabytearray.cpp\<close>); and \<open>ManagedUaArray\<close>
  (\<open>include/managed_uaarray.h\<close>), which owns an array of the stack. \<open>T()\<close> is a parameter.
\<close>

subsection \<open>UaCompatArray\<close>

type_synonym 'a UaCompatArray = "'a list"

definition UaCompatArray_create :: "'a \<Rightarrow> nat \<Rightarrow> 'a UaCompatArray" where
  "UaCompatArray_create T n = replicate n T"

text \<open>\<open>std::vector::resize\<close> cuts the tail or appends copies of \<open>T()\<close>.\<close>

definition UaCompatArray_resize :: "'a \<Rightarrow> nat \<Rightarrow> 'a UaCompatArray \<Rightarrow> 'a UaCompatArray" where
  "UaCompatArray_resize T n a = take n a @ replicate (n - length a) T"

definition UaCompatArray_clear :: "'a UaCompatArray \<Rightarrow> 'a UaCompatArray" where
  "UaCompatArray_clear a = []"

text \<open>\<open>operator[]\<close> is \<open>std::vector::at\<close>: reading, and writing through the reference, throw out of range.\<close>

definition UaCompatArray_get :: "'a UaCompatArray \<Rightarrow> nat \<Rightarrow> 'a res" where
  "UaCompatArray_get a i = (if i < length a then Inr (a ! i) else Inl (Throw (OutOfRange ''vector::at'')))"

definition UaCompatArray_set :: "nat \<Rightarrow> 'a \<Rightarrow> ('a UaCompatArray, unit) op" where
  "UaCompatArray_set i x a =
     (if i < length a then (Inr (), a[i := x]) else (Inl (Throw (OutOfRange ''vector::at'')), a))"

definition UaCompatArray_size :: "'a UaCompatArray \<Rightarrow> nat" where
  "UaCompatArray_size a = length a"

text \<open>After \<open>resize(n)\<close> exactly the indices below \<open>n\<close> are readable: those the array
  had keep their element, the new ones read \<open>T()\<close>, every other index throws \<open>out_of_range\<close>.\<close>

theorem UaCompatArray_resize_get:
  "UaCompatArray_get (UaCompatArray_resize T n a) i =
     (if i < n then (if i < length a then UaCompatArray_get a i else Inr T)
      else Inl (Throw (OutOfRange ''vector::at'')))"
  by (auto simp: UaCompatArray_get_def UaCompatArray_resize_def nth_append)

lemma UaCompatArray_create_is_resize: "UaCompatArray_create T n = UaCompatArray_resize T n (UaCompatArray_clear a)"
  by (simp add: UaCompatArray_create_def UaCompatArray_resize_def UaCompatArray_clear_def)

lemma UaCompatArray_get_set:
  "UaCompatArray_get (snd (UaCompatArray_set i x a)) j =
     (if j = i \<and> i < length a then Inr x else UaCompatArray_get a j)"
  by (auto simp: UaCompatArray_get_def UaCompatArray_set_def)

subsection \<open>UaByteArray\<close>

type_synonym UaByteArray = "byte UaCompatArray"

definition UaByteArray_new :: UaByteArray where
  "UaByteArray_new = []"

text \<open>\<open>std::copy\<close> reads the range \<open>[data, data + sz)\<close> into the created elements.\<close>

definition UaByteArray_of :: "byte ptr \<Rightarrow> 32 word \<Rightarrow> UaByteArray res" where
  "UaByteArray_of dat sz = (let m_data = UaCompatArray_create 0 (unat sz)
     in bind_res (read_range dat (unat sz)) (\<lambda>xs. Inr (xs @ drop (length xs) m_data)))"

definition UaByteArray_data :: "UaByteArray \<Rightarrow> byte ptr" where
  "UaByteArray_data a = (if 0 < UaCompatArray_size a then Heap a else Null)"

lemma UaByteArray_data_of:
  assumes "length xs < 2 ^ 32"
  shows "UaByteArray_of (Heap xs) (word_of_nat (length xs)) = Inr xs"
proof -
  have "unat (word_of_nat (length xs) :: 32 word) = length xs"
    using assms by (simp add: unsigned_of_nat take_bit_nat_eq_self_iff)
  then show ?thesis by (simp add: UaByteArray_of_def UaCompatArray_create_def)
qed

subsection \<open>ManagedUaArray\<close>

record 'a ManagedUaArray =
  m_size :: nat
  m_array :: "'a ptr"

definition ManagedUaArray_new :: "allocator \<Rightarrow> nat \<Rightarrow> 'a \<Rightarrow> nat \<Rightarrow> 'a ManagedUaArray res" where
  "ManagedUaArray_new al memSize zero sz =
     (let arr = UA_Array_new al memSize sz zero
      in if arr = Null then Inl (Throw AllocError) else Inr \<lparr>m_size = sz, m_array = arr\<rparr>)"

definition ManagedUaArray_adopt :: "nat \<Rightarrow> 'a ptr \<Rightarrow> 'a ManagedUaArray" where
  "ManagedUaArray_adopt sz arr = \<lparr>m_size = sz, m_array = arr\<rparr>"

text \<open>Indexing goes through the conversion to \<open>T*\<close> and is unchecked.\<close>

definition ManagedUaArray_get :: "'a ManagedUaArray \<Rightarrow> nat \<Rightarrow> 'a res" where
  "ManagedUaArray_get a i = deref (m_array a) i"

text \<open>A managed array comes into being exactly when its size fits 31 bits and memory is
  there for it; every index below its size can then be read, and index \<open>sz\<close> is undefined behaviour.\<close>

theorem ManagedUaArray_bounds:
  "case ManagedUaArray_new al memSize zero sz of
     Inr a \<Rightarrow> int sz \<le> INT32_MAX \<and> (sz = 0 \<or> can_alloc al (sz * memSize))
        \<and> list_all (\<lambda>i. ManagedUaArray_get a i = Inr zero) [0..<sz]
        \<and> (\<exists>u. ManagedUaArray_get a sz = Inl (UB u))
   | Inl e \<Rightarrow> e = Throw AllocError \<and> (INT32_MAX < int sz \<or> (sz \<noteq> 0 \<and> \<not> can_alloc al (sz * memSize)))"
  by (auto simp: ManagedUaArray_new_def UA_Array_new_def ManagedUaArray_get_def deref_def Let_def list_all_iff)

end
