(* ===== verification/UaVariant_Set.thy ===== *)
theory UaVariant_Set
  imports UA_Values UaNodeIds UaArrays
begin

text \<open>
  \<open>UaVariant\<close>, first half of \<open>src/uavariant.cpp\<close>: ownership of the stack's variant, the scalar,
  array and matrix setters. A member function that touches only the content of \<open>*m_impl\<close> is modelled
  on that content; the life of \<open>m_impl\<close> itself (allocated, freed) is modelled by \<open>obj\<close>. A signed and an
  unsigned integer of one width are the same word: the constructor of \<open>UA_value\<close> tells them apart.
  The library's own vectors are assumed to find memory; every allocation of the stack is a branch.
\<close>

type_synonym UaVariant = "UA_Variant obj"

subsection \<open>Life of the implementation pointer\<close>

text \<open>\<open>UA_Variant_new\<close>: 48 zeroed bytes.\<close>

definition createAndCheckOpen62541Variant :: "allocator \<Rightarrow> UaVariant res" where
  "createAndCheckOpen62541Variant al =
     (if can_alloc al 48 then Inr (Live UA_Variant_init)
      else Inl (Throw (RuntimeError ''UA_Variant_new() returned 0'')))"

definition destroyOpen62541Variant :: "(UaVariant, unit) op" where
  "destroyOpen62541Variant m_impl = (case m_impl of
      Live v \<Rightarrow> (Inr (), Freed) | Freed \<Rightarrow> (Inl (UB UseAfterFree), Freed))"

definition UaVariant_new :: "allocator \<Rightarrow> UaVariant res" where
  "UaVariant_new al = createAndCheckOpen62541Variant al"

text \<open>A member function of the content, called on the object.\<close>

definition on_live :: "(UA_Variant, 'a) op \<Rightarrow> (UaVariant, 'a) op" where
  "on_live f m_impl = (case m_impl of
      Freed \<Rightarrow> (Inl (UB UseAfterFree), Freed)
    | Live v \<Rightarrow> (case f v of (r, v') \<Rightarrow> (r, Live v')))"

text \<open>A constructor that creates the variant and then calls a setter.\<close>

definition construct :: "allocator \<Rightarrow> (UA_Variant, unit) op \<Rightarrow> UaVariant res" where
  "construct al setter = bind_res (createAndCheckOpen62541Variant al) (\<lambda>m_impl.
     case on_live setter m_impl of (Inl e, _) \<Rightarrow> Inl e | (Inr _, m) \<Rightarrow> Inr m)"

text \<open>The copy constructors.\<close>

definition UaVariant_fromStack :: "allocator \<Rightarrow> UA_Variant \<Rightarrow> UaVariant res" where
  "UaVariant_fromStack al other = bind_res (createAndCheckOpen62541Variant al) (\<lambda>_.
     bind_res (UA_Variant_copy al other) (\<lambda>(status, v).
       if status \<noteq> OpcUa_Good then Inl (Throw (RuntimeError ''UA_Variant_copy failed''))
       else Inr (Live v)))"

definition UaVariant_copy :: "allocator \<Rightarrow> UaVariant \<Rightarrow> UaVariant res" where
  "UaVariant_copy al other = bind_res (createAndCheckOpen62541Variant al) (\<lambda>_. case other of
      Freed \<Rightarrow> Inl (UB UseAfterFree)
    | Live w \<Rightarrow> bind_res (UA_Variant_copy al w) (\<lambda>(status, v).
        if \<not> isGood (UaStatus_of status) then Inl (Throw (RuntimeError ''UA_Variant_copy failed:''))
        else Inr (Live v)))"

text \<open>
  \<open>operator=\<close>: assignment to itself (\<open>None\<close>) does nothing. Otherwise the old variant is destroyed
  before the new one is allocated; when that throws, \<open>m_impl\<close> keeps the freed address.
\<close>

definition UaVariant_assign :: "allocator \<Rightarrow> UaVariant option \<Rightarrow> (UaVariant, unit) op" where
  "UaVariant_assign al other m_impl = (case other of None \<Rightarrow> (Inr (), m_impl)
     | Some src \<Rightarrow>
        (case destroyOpen62541Variant m_impl of
           (Inl e, m) \<Rightarrow> (Inl e, m)
         | (Inr _, m) \<Rightarrow>
            (case createAndCheckOpen62541Variant al of
               Inl e \<Rightarrow> (Inl e, m)
             | Inr fresh \<Rightarrow>
                (case src of Freed \<Rightarrow> (Inl (UB UseAfterFree), fresh)
                 | Live w \<Rightarrow>
                    (case UA_Variant_copy al w of
                       Inl e \<Rightarrow> (Inl e, fresh)
                     | Inr (status, v) \<Rightarrow>
                         if \<not> isGood (UaStatus_of status)
                         then (Inl (Throw (RuntimeError ''UA_Variant_copy failed:'')), Live v)
                         else (Inr (), Live v))))))"

definition UaVariant_clear :: "allocator \<Rightarrow> (UaVariant, unit) op" where
  "UaVariant_clear al m_impl =
     (case destroyOpen62541Variant m_impl of
        (Inl e, m) \<Rightarrow> (Inl e, m)
      | (Inr _, m) \<Rightarrow>
         (case createAndCheckOpen62541Variant al of Inl e \<Rightarrow> (Inl e, m) | Inr fresh \<Rightarrow> (Inr (), fresh)))"

text \<open>The destructor.\<close>

definition UaVariant_destroy :: "(UaVariant, unit) op" where
  "UaVariant_destroy m_impl = destroyOpen62541Variant m_impl"

text \<open>
  \<open>copyTo(UaVariant*)\<close> assigns a temporary copy; \<open>copyTo(UA_Variant*)\<close> overwrites the target's bytes.
\<close>

definition UaVariant_copyTo :: "allocator \<Rightarrow> UaVariant \<Rightarrow> (UaVariant, UA_StatusCode) op" where
  "UaVariant_copyTo al src target = (case src of Freed \<Rightarrow> (Inl (UB UseAfterFree), target)
     | Live w \<Rightarrow>
        (case UaVariant_fromStack al w of
           Inl e \<Rightarrow> (Inl e, target)
         | Inr tmp \<Rightarrow> (case UaVariant_assign al (Some tmp) target of
             (Inl e, t) \<Rightarrow> (Inl e, t) | (Inr _, t) \<Rightarrow> (Inr OpcUa_Good, t))))"

definition UaVariant_copyToStack :: "allocator \<Rightarrow> UA_Variant \<Rightarrow> (UA_Variant, UA_StatusCode) op" where
  "UaVariant_copyToStack al src target = (case UA_Variant_copy al src of
      Inl e \<Rightarrow> (Inl e, target) | Inr (status, v) \<Rightarrow> (Inr status, v))"

subsection \<open>Scalar setters\<close>

text \<open>
  \<open>reuseOrRealloc\<close>: with the same type and no dimensions the first element in memory is overwritten
  and the status of the copy ignored; the length is not looked at.
\<close>

definition reuseOrRealloc :: "allocator \<Rightarrow> UA_DataTypeKind \<Rightarrow> UA_value \<Rightarrow> (UA_Variant, unit) op" where
  "reuseOrRealloc al dataType newValue m_impl =
     (if v_data m_impl \<noteq> Null \<and> v_type m_impl = Some (UA_TYPES dataType) \<and> v_arrayDimensionsSize m_impl = 0
      then (case v_data m_impl of
          Heap (x # xs) \<Rightarrow> (case UA_copy al newValue of
             Inl e \<Rightarrow> (Inl e, m_impl)
           | Inr (_, y) \<Rightarrow> (Inr (), UA_Variant (v_type m_impl) (Heap (y # xs)) (v_arrayLength m_impl)
                                     (v_arrayDimensions m_impl) (v_arrayDimensionsSize m_impl)))
        | Heap [] \<Rightarrow> (Inl (UB OutOfBounds), m_impl)
        | _ \<Rightarrow> (Inl (UB SentinelDeref), m_impl))
      else
        (case UA_Variant_setScalarCopy al (UA_Variant_clear m_impl) newValue (UA_TYPES dataType) of
           Inl e \<Rightarrow> (Inl e, UA_Variant_clear m_impl)
         | Inr (status, v) \<Rightarrow>
             if \<not> isGood (UaStatus_of status)
             then (Inl (Throw (RuntimeError ''UA_Variant_setScalarCopy failed:'')), v)
             else (Inr (), v)))"

definition UaVariant_setBool :: "allocator \<Rightarrow> bool \<Rightarrow> (UA_Variant, unit) op" where
  "UaVariant_setBool al value = reuseOrRealloc al BOOLEAN (VBool value)"

definition UaVariant_setByte :: "allocator \<Rightarrow> byte \<Rightarrow> (UA_Variant, unit) op" where
  "UaVariant_setByte al value = reuseOrRealloc al BYTE (VByte value)"

definition UaVariant_setSByte :: "allocator \<Rightarrow> byte \<Rightarrow> (UA_Variant, unit) op" where
  "UaVariant_setSByte al value = reuseOrRealloc al SBYTE (VSByte value)"

definition UaVariant_setInt16 :: "allocator \<Rightarrow> 16 word \<Rightarrow> (UA_Variant, unit) op" where
  "UaVariant_setInt16 al value = reuseOrRealloc al INT16 (VInt16 value)"

definition UaVariant_setUInt16 :: "allocator \<Rightarrow> 16 word \<Rightarrow> (UA_Variant, unit) op" where
  "UaVariant_setUInt16 al value = reuseOrRealloc al UINT16 (VUInt16 value)"

definition UaVariant_setInt32 :: "allocator \<Rightarrow> 32 word \<Rightarrow> (UA_Variant, unit) op" where
  "UaVariant_setInt32 al value = reuseOrRealloc al INT32 (VInt32 value)"

definition UaVariant_setUInt32 :: "allocator \<Rightarrow> 32 word \<Rightarrow> (UA_Variant, unit) op" where
  "UaVariant_setUInt32 al value = reuseOrRealloc al UINT32 (VUInt32 value)"

definition UaVariant_setInt64 :: "allocator \<Rightarrow> 64 word \<Rightarrow> (UA_Variant, unit) op" where
  "UaVariant_setInt64 al value = reuseOrRealloc al INT64 (VInt64 value)"

definition UaVariant_setUInt64 :: "allocator \<Rightarrow> 64 word \<Rightarrow> (UA_Variant, unit) op" where
  "UaVariant_setUInt64 al value = reuseOrRealloc al UINT64 (VUInt64 value)"

definition UaVariant_setFloat :: "allocator \<Rightarrow> 32 word \<Rightarrow> (UA_Variant, unit) op" where
  "UaVariant_setFloat al value = reuseOrRealloc al FLOAT (VFloat value)"

definition UaVariant_setDouble :: "allocator \<Rightarrow> 64 word \<Rightarrow> (UA_Variant, unit) op" where
  "UaVariant_setDouble al value = reuseOrRealloc al DOUBLE (VDouble value)"

text \<open>Strings are cleared first and copied; the variant is empty when the copy fails.\<close>

definition set_string_value :: "allocator \<Rightarrow> UA_DataTypeKind \<Rightarrow> UA_value \<Rightarrow> (UA_Variant, unit) op" where
  "set_string_value al dataType value m_impl =
     (let m = (if v_data m_impl \<noteq> Null then UA_Variant_clear m_impl else m_impl)
      in case UA_Variant_setScalarCopy al m value (UA_TYPES dataType) of
           Inl e \<Rightarrow> (Inl e, m)
         | Inr (s, v) \<Rightarrow> if s \<noteq> OpcUa_Good then (Inl (Throw AllocError), v) else (Inr (), v))"

definition UaVariant_setString :: "allocator \<Rightarrow> UaString \<Rightarrow> (UA_Variant, unit) op" where
  "UaVariant_setString al value m_impl = (case value of
      Freed \<Rightarrow> (Inl (UB UseAfterFree), if v_data m_impl \<noteq> Null then UA_Variant_clear m_impl else m_impl)
    | Live s \<Rightarrow> set_string_value al STRING (VString s) m_impl)"

definition detach_error :: fault where
  "detach_error = Throw (RuntimeError ''value detachment not yet implemented'')"

definition UaVariant_setByteString :: "allocator \<Rightarrow> UaByteString \<Rightarrow> bool \<Rightarrow> (UA_Variant, unit) op" where
  "UaVariant_setByteString al value detach m_impl =
     (if detach then (Inl detach_error, m_impl) else set_string_value al BYTESTRING (VByteString value) m_impl)"

text \<open>The constructors from a value.\<close>

definition UaVariant_ofUInt32 :: "allocator \<Rightarrow> 32 word \<Rightarrow> UaVariant res" where
  "UaVariant_ofUInt32 al v = construct al (UaVariant_setUInt32 al v)"

definition UaVariant_ofInt32 :: "allocator \<Rightarrow> 32 word \<Rightarrow> UaVariant res" where
  "UaVariant_ofInt32 al v = construct al (UaVariant_setInt32 al v)"

definition UaVariant_ofUInt64 :: "allocator \<Rightarrow> 64 word \<Rightarrow> UaVariant res" where
  "UaVariant_ofUInt64 al v = construct al (UaVariant_setUInt64 al v)"

definition UaVariant_ofInt64 :: "allocator \<Rightarrow> 64 word \<Rightarrow> UaVariant res" where
  "UaVariant_ofInt64 al v = construct al (UaVariant_setInt64 al v)"

definition UaVariant_ofString :: "allocator \<Rightarrow> UaString \<Rightarrow> UaVariant res" where
  "UaVariant_ofString al v = construct al (UaVariant_setString al v)"

definition UaVariant_ofFloat :: "allocator \<Rightarrow> 32 word \<Rightarrow> UaVariant res" where
  "UaVariant_ofFloat al v = construct al (UaVariant_setFloat al v)"

definition UaVariant_ofDouble :: "allocator \<Rightarrow> 64 word \<Rightarrow> UaVariant res" where
  "UaVariant_ofDouble al v = construct al (UaVariant_setDouble al v)"

definition UaVariant_ofBool :: "allocator \<Rightarrow> bool \<Rightarrow> UaVariant res" where
  "UaVariant_ofBool al v = construct al (UaVariant_setBool al v)"

definition UaVariant_ofByteString :: "allocator \<Rightarrow> UaByteString \<Rightarrow> UaVariant res" where
  "UaVariant_ofByteString al v = construct al (UaVariant_setByteString al v False)"

subsection \<open>Array setters\<close>

text \<open>The vector's elements are the list \<open>input\<close>, already seen as stack elements of the type.\<close>

definition set1DArray :: "allocator \<Rightarrow> UA_DataTypeKind \<Rightarrow> UA_value list \<Rightarrow> (UA_Variant, unit) op" where
  "set1DArray al dataType input m_impl =
     (let m = (if v_data m_impl \<noteq> Null then UA_Variant_clear m_impl else m_impl)
      in if length input = 0
         then (Inr (), UA_Variant_setArray (UA_Array_new al (kind_memSize dataType) 0 (zero_value dataType)) 0
                         (UA_TYPES dataType))
         else case UA_Variant_setArrayCopy al input (UA_TYPES dataType) of
           Inl e \<Rightarrow> (Inl e, m)
         | Inr (status, v) \<Rightarrow>
             if status \<noteq> OpcUa_Good then (Inl (Throw AllocError), v) else (Inr (), v))"

definition UaVariant_setBoolArray :: "allocator \<Rightarrow> bool list \<Rightarrow> bool \<Rightarrow> (UA_Variant, unit) op" where
  "UaVariant_setBoolArray al input bDetach m_impl =
     (if bDetach then (Inl detach_error, m_impl) else set1DArray al BOOLEAN (map VBool input) m_impl)"

definition UaVariant_setByteArray :: "allocator \<Rightarrow> byte list \<Rightarrow> bool \<Rightarrow> (UA_Variant, unit) op" where
  "UaVariant_setByteArray al input bDetach m_impl =
     (if bDetach then (Inl detach_error, m_impl) else set1DArray al BYTE (map VByte input) m_impl)"

definition UaVariant_setSByteArray :: "allocator \<Rightarrow> byte list \<Rightarrow> bool \<Rightarrow> (UA_Variant, unit) op" where
  "UaVariant_setSByteArray al input bDetach m_impl =
     (if bDetach then (Inl detach_error, m_impl) else set1DArray al SBYTE (map VSByte input) m_impl)"

definition UaVariant_setInt16Array :: "allocator \<Rightarrow> (16 word) list \<Rightarrow> bool \<Rightarrow> (UA_Variant, unit) op" where
  "UaVariant_setInt16Array al input bDetach m_impl =
     (if bDetach then (Inl detach_error, m_impl) else set1DArray al INT16 (map VInt16 input) m_impl)"

definition UaVariant_setUInt16Array :: "allocator \<Rightarrow> (16 word) list \<Rightarrow> bool \<Rightarrow> (UA_Variant, unit) op" where
  "UaVariant_setUInt16Array al input bDetach m_impl =
     (if bDetach then (Inl detach_error, m_impl) else set1DArray al UINT16 (map VUInt16 input) m_impl)"

definition UaVariant_setInt32Array :: "allocator \<Rightarrow> (32 word) list \<Rightarrow> bool \<Rightarrow> (UA_Variant, unit) op" where
  "UaVariant_setInt32Array al input bDetach m_impl =
     (if bDetach then (Inl detach_error, m_impl) else set1DArray al INT32 (map VInt32 input) m_impl)"

definition UaVariant_setUInt32Array :: "allocator \<Rightarrow> (32 word) list \<Rightarrow> bool \<Rightarrow> (UA_Variant, unit) op" where
  "UaVariant_setUInt32Array al input bDetach m_impl =
     (if bDetach then (Inl detach_error, m_impl) else set1DArray al UINT32 (map VUInt32 input) m_impl)"

definition UaVariant_setInt64Array :: "allocator \<Rightarrow> (64 word) list \<Rightarrow> bool \<Rightarrow> (UA_Variant, unit) op" where
  "UaVariant_setInt64Array al input bDetach m_impl =
     (if bDetach then (Inl detach_error, m_impl) else set1DArray al INT64 (map VInt64 input) m_impl)"

definition UaVariant_setUInt64Array :: "allocator \<Rightarrow> (64 word) list \<Rightarrow> bool \<Rightarrow> (UA_Variant, unit) op" where
  "UaVariant_setUInt64Array al input bDetach m_impl =
     (if bDetach then (Inl detach_error, m_impl) else set1DArray al UINT64 (map VUInt64 input) m_impl)"

definition UaVariant_setFloatArray :: "allocator \<Rightarrow> (32 word) list \<Rightarrow> bool \<Rightarrow> (UA_Variant, unit) op" where
  "UaVariant_setFloatArray al input bDetach m_impl =
     (if bDetach then (Inl detach_error, m_impl) else set1DArray al FLOAT (map VFloat input) m_impl)"

definition UaVariant_setDoubleArray :: "allocator \<Rightarrow> (64 word) list \<Rightarrow> bool \<Rightarrow> (UA_Variant, unit) op" where
  "UaVariant_setDoubleArray al input bDetach m_impl =
     (if bDetach then (Inl detach_error, m_impl) else set1DArray al DOUBLE (map VDouble input) m_impl)"

text \<open>
  Element by element with a copy function of the stack. \<open>impl\<close> is the element's \<open>impl()\<close>, \<open>mk\<close> the
  stack element. The result of \<open>UA_Array_new\<close> is not checked: copying into NULL is undefined. When the
  copy function reports an error the variant has been cleared (and the new array leaks).
\<close>

fun copy_loop :: "('s \<Rightarrow> (UA_StatusCode \<times> 's) res) \<Rightarrow> ('e \<Rightarrow> 's res) \<Rightarrow> ('s \<Rightarrow> UA_value) \<Rightarrow> 'e list
    \<Rightarrow> UA_value ptr \<Rightarrow> nat \<Rightarrow> UA_value ptr res" where
  "copy_loop copyFunction impl mk [] arr i = Inr arr"
| "copy_loop copyFunction impl mk (x # xs) arr i = bind_res (impl x) (\<lambda>from.
     case arr of
       Heap ys \<Rightarrow>
         if i < length ys then
           bind_res (copyFunction from) (\<lambda>(status, to).
             if \<not> isGood (UaStatus_of status) then Inl (Throw (RuntimeError ''copy function failed: ''))
             else copy_loop copyFunction impl mk xs (Heap (ys[i := mk to])) (i + 1))
         else Inl (UB OutOfBounds)
     | Sentinel \<Rightarrow> Inl (UB SentinelDeref)
     | Null \<Rightarrow> Inl (UB NullDeref))"

definition set1DArrayComplexTypes :: "allocator \<Rightarrow> UA_DataTypeKind \<Rightarrow> 'e list \<Rightarrow> ('e \<Rightarrow> 's res) \<Rightarrow> ('s \<Rightarrow> UA_value)
    \<Rightarrow> ('s \<Rightarrow> (UA_StatusCode \<times> 's) res) \<Rightarrow> (UA_Variant, unit) op" where
  "set1DArrayComplexTypes al dataType input impl mk copyFunction m_impl =
     (let m = (if v_data m_impl \<noteq> Null then UA_Variant_clear m_impl else m_impl);
          arr = UA_Array_new al (kind_memSize dataType) (length input) (zero_value dataType)
      in case copy_loop copyFunction impl mk input arr 0 of
           Inl e \<Rightarrow> (Inl e, m)
         | Inr arr' \<Rightarrow> (Inr (), UA_Variant_setArray arr' (length input) (UA_TYPES dataType)))"

text \<open>\<open>impl()\<close> of an object with a pointer to its content.\<close>

definition impl_of :: "'a obj \<Rightarrow> 'a res" where
  "impl_of x = (case x of Live s \<Rightarrow> Inr s | Freed \<Rightarrow> Inl (UB UseAfterFree))"

definition UaVariant_setStringArray :: "allocator \<Rightarrow> UaString list \<Rightarrow> bool \<Rightarrow> (UA_Variant, unit) op" where
  "UaVariant_setStringArray al input bDetach m_impl =
     (if bDetach then (Inl detach_error, m_impl)
      else set1DArrayComplexTypes al STRING input impl_of VString (String_copy al) m_impl)"

definition UaVariant_setByteStringArray :: "allocator \<Rightarrow> UaByteString list \<Rightarrow> bool \<Rightarrow> (UA_Variant, unit) op" where
  "UaVariant_setByteStringArray al input bDetach m_impl =
     (if bDetach then (Inl detach_error, m_impl)
      else set1DArrayComplexTypes al BYTESTRING input Inr VByteString (String_copy al) m_impl)"

definition UaVariant_setVariantArray :: "allocator \<Rightarrow> UaVariant list \<Rightarrow> bool \<Rightarrow> (UA_Variant, unit) op" where
  "UaVariant_setVariantArray al input bDetach m_impl =
     (if bDetach then (Inl detach_error, m_impl)
      else set1DArrayComplexTypes al VARIANT input impl_of VVariant (UA_Variant_copy al) m_impl)"

subsection \<open>Matrix setters\<close>

text \<open>The loop over the dimensions: \<open>Inl\<close> is the early return.\<close>

fun validate_loop :: "int \<Rightarrow> 32 word list \<Rightarrow> (UA_StatusCode + int) res" where
  "validate_loop numberOfElements [] = Inr (Inr numberOfElements)"
| "validate_loop numberOfElements (d # ds) =
     (if sint d < 1 then Inr (Inl OpcUa_BadInvalidArgument)
      else bind_res (mul_int64 numberOfElements (sint d)) (\<lambda>n.
        if n \<ge> 0x80000000 then Inr (Inl OpcUa_BadInvalidArgument) else validate_loop n ds))"

definition validateMatrixDimensions :: "32 word \<Rightarrow> 32 word list \<Rightarrow> UA_StatusCode res" where
  "validateMatrixDimensions arrayLength dimensions =
     (if length dimensions = 0
      then Inr (if arrayLength = 0 then OpcUa_Good else OpcUa_BadInvalidArgument)
      else bind_res (validate_loop 1 dimensions) (\<lambda>r. case r of
          Inl status \<Rightarrow> Inr status
        | Inr n \<Rightarrow> Inr (if n = uint arrayLength then OpcUa_Good else OpcUa_BadInvalidArgument)))"

definition applyMatrixDimensions :: "allocator \<Rightarrow> 32 word list \<Rightarrow> (UA_Variant, unit) op" where
  "applyMatrixDimensions al dimensions m_impl =
     (if length dimensions = 0 then (Inr (), m_impl)
      else case UA_Array_new al 4 (length dimensions) (0 :: 32 word) of
          Null \<Rightarrow> (Inl (Throw AllocError), m_impl)
        | _ \<Rightarrow> (Inr (), UA_Variant (v_type m_impl) (v_data m_impl) (v_arrayLength m_impl)
                 (Heap dimensions) (length dimensions)))"

text \<open>Both matrix templates validate, set the array and apply the dimensions.\<close>

definition set_matrix_with ::
    "allocator \<Rightarrow> (UA_Variant, unit) op \<Rightarrow> nat \<Rightarrow> 32 word list \<Rightarrow> (UA_Variant, UA_StatusCode) op" where
  "set_matrix_with al setArray sz dimensions m_impl =
     (case validateMatrixDimensions (word_of_nat sz) dimensions of
        Inl e \<Rightarrow> (Inl e, m_impl)
      | Inr validationResult \<Rightarrow>
          if validationResult \<noteq> OpcUa_Good then (Inr validationResult, m_impl)
          else (case setArray m_impl of
              (Inl e, m) \<Rightarrow> (Inl e, m)
            | (Inr _, m) \<Rightarrow> (case applyMatrixDimensions al dimensions m of
                (Inl e, m') \<Rightarrow> (Inl e, m') | (Inr _, m') \<Rightarrow> (Inr OpcUa_Good, m'))))"

definition setMatrix :: "allocator \<Rightarrow> UA_DataTypeKind \<Rightarrow> UA_value list \<Rightarrow> 32 word list \<Rightarrow> (UA_Variant, UA_StatusCode) op" where
  "setMatrix al dataType input dimensions =
     set_matrix_with al (set1DArray al dataType input) (length input) dimensions"

definition setMatrixComplexTypes :: "allocator \<Rightarrow> UA_DataTypeKind \<Rightarrow> 'e list \<Rightarrow> ('e \<Rightarrow> 's res) \<Rightarrow> ('s \<Rightarrow> UA_value)
    \<Rightarrow> ('s \<Rightarrow> (UA_StatusCode \<times> 's) res) \<Rightarrow> 32 word list \<Rightarrow> (UA_Variant, UA_StatusCode) op" where
  "setMatrixComplexTypes al dataType input impl mk copyFunction dimensions =
     set_matrix_with al (set1DArrayComplexTypes al dataType input impl mk copyFunction) (length input) dimensions"

definition UaVariant_setBoolMatrix ::
    "allocator \<Rightarrow> bool list \<Rightarrow> 32 word list \<Rightarrow> bool \<Rightarrow> (UA_Variant, UA_StatusCode) op" where
  "UaVariant_setBoolMatrix al val dimensions bDetach m_impl =
     (if bDetach then (Inl detach_error, m_impl) else setMatrix al BOOLEAN (map VBool val) dimensions m_impl)"

definition UaVariant_setByteMatrix :: "allocator \<Rightarrow> byte list \<Rightarrow> 32 word list \<Rightarrow> (UA_Variant, UA_StatusCode) op" where
  "UaVariant_setByteMatrix al val dimensions = setMatrix al BYTE (map VByte val) dimensions"

definition UaVariant_setSByteMatrix ::
    "allocator \<Rightarrow> byte list \<Rightarrow> 32 word list \<Rightarrow> bool \<Rightarrow> (UA_Variant, UA_StatusCode) op" where
  "UaVariant_setSByteMatrix al val dimensions bDetach m_impl =
     (if bDetach then (Inl detach_error, m_impl) else setMatrix al SBYTE (map VSByte val) dimensions m_impl)"

definition UaVariant_setInt16Matrix ::
    "allocator \<Rightarrow> (16 word) list \<Rightarrow> 32 word list \<Rightarrow> bool \<Rightarrow> (UA_Variant, UA_StatusCode) op" where
  "UaVariant_setInt16Matrix al val dimensions bDetach m_impl =
     (if bDetach then (Inl detach_error, m_impl) else setMatrix al INT16 (map VInt16 val) dimensions m_impl)"

definition UaVariant_setUInt16Matrix ::
    "allocator \<Rightarrow> (16 word) list \<Rightarrow> 32 word list \<Rightarrow> bool \<Rightarrow> (UA_Variant, UA_StatusCode) op" where
  "UaVariant_setUInt16Matrix al val dimensions bDetach m_impl =
     (if bDetach then (Inl detach_error, m_impl) else setMatrix al UINT16 (map VUInt16 val) dimensions m_impl)"

definition UaVariant_setInt32Matrix ::
    "allocator \<Rightarrow> (32 word) list \<Rightarrow> 32 word list \<Rightarrow> bool \<Rightarrow> (UA_Variant, UA_StatusCode) op" where
  "UaVariant_setInt32Matrix al val dimensions bDetach m_impl =
     (if bDetach then (Inl detach_error, m_impl) else setMatrix al INT32 (map VInt32 val) dimensions m_impl)"

definition UaVariant_setUInt32Matrix ::
    "allocator \<Rightarrow> (32 word) list \<Rightarrow> 32 word list \<Rightarrow> bool \<Rightarrow> (UA_Variant, UA_StatusCode) op" where
  "UaVariant_setUInt32Matrix al val dimensions bDetach m_impl =
     (if bDetach then (Inl detach_error, m_impl) else setMatrix al UINT32 (map VUInt32 val) dimensions m_impl)"

definition UaVariant_setInt64Matrix ::
    "allocator \<Rightarrow> (64 word) list \<Rightarrow> 32 word list \<Rightarrow> bool \<Rightarrow> (UA_Variant, UA_StatusCode) op" where
  "UaVariant_setInt64Matrix al val dimensions bDetach m_impl =
     (if bDetach then (Inl detach_error, m_impl) else setMatrix al INT64 (map VInt64 val) dimensions m_impl)"

definition UaVariant_setUInt64Matrix ::
    "allocator \<Rightarrow> (64 word) list \<Rightarrow> 32 word list \<Rightarrow> bool \<Rightarrow> (UA_Variant, UA_StatusCode) op" where
  "UaVariant_setUInt64Matrix al val dimensions bDetach m_impl =
     (if bDetach then (Inl detach_error, m_impl) else setMatrix al UINT64 (map VUInt64 val) dimensions m_impl)"

definition UaVariant_setFloatMatrix ::
    "allocator \<Rightarrow> (32 word) list \<Rightarrow> 32 word list \<Rightarrow> bool \<Rightarrow> (UA_Variant, UA_StatusCode) op" where
  "UaVariant_setFloatMatrix al val dimensions bDetach m_impl =
     (if bDetach then (Inl detach_error, m_impl) else setMatrix al FLOAT (map VFloat val) dimensions m_impl)"

definition UaVariant_setDoubleMatrix ::
    "allocator \<Rightarrow> (64 word) list \<Rightarrow> 32 word list \<Rightarrow> bool \<Rightarrow> (UA_Variant, UA_StatusCode) op" where
  "UaVariant_setDoubleMatrix al val dimensions bDetach m_impl =
     (if bDetach then (Inl detach_error, m_impl) else setMatrix al DOUBLE (map VDouble val) dimensions m_impl)"

definition UaVariant_setStringMatrix_const :: "allocator \<Rightarrow> UaString list \<Rightarrow> 32 word list \<Rightarrow> (UA_Variant, UA_StatusCode) op" where
  "UaVariant_setStringMatrix_const al val dimensions =
     setMatrixComplexTypes al STRING val impl_of VString (String_copy al) dimensions"

definition UaVariant_setStringMatrix ::
    "allocator \<Rightarrow> UaString list \<Rightarrow> 32 word list \<Rightarrow> bool \<Rightarrow> (UA_Variant, UA_StatusCode) op" where
  "UaVariant_setStringMatrix al val dimensions bDetach m_impl =
     (if bDetach then (Inl detach_error, m_impl)
      else setMatrixComplexTypes al STRING val impl_of VString (String_copy al) dimensions m_impl)"

definition UaVariant_setByteStringMatrix_const :: "allocator \<Rightarrow> UaByteString list \<Rightarrow> 32 word list \<Rightarrow> (UA_Variant, UA_StatusCode) op" where
  "UaVariant_setByteStringMatrix_const al val dimensions =
     setMatrixComplexTypes al BYTESTRING val Inr VByteString (String_copy al) dimensions"

definition UaVariant_setByteStringMatrix ::
    "allocator \<Rightarrow> UaByteString list \<Rightarrow> 32 word list \<Rightarrow> bool \<Rightarrow> (UA_Variant, UA_StatusCode) op" where
  "UaVariant_setByteStringMatrix al val dimensions bDetach m_impl =
     (if bDetach then (Inl detach_error, m_impl)
      else setMatrixComplexTypes al BYTESTRING val Inr VByteString (String_copy al) dimensions m_impl)"

definition UaVariant_setVariantMatrix_const :: "allocator \<Rightarrow> UaVariant list \<Rightarrow> 32 word list \<Rightarrow> (UA_Variant, UA_StatusCode) op" where
  "UaVariant_setVariantMatrix_const al val dimensions =
     setMatrixComplexTypes al VARIANT val impl_of VVariant (UA_Variant_copy al) dimensions"

definition UaVariant_setVariantMatrix ::
    "allocator \<Rightarrow> UaVariant list \<Rightarrow> 32 word list \<Rightarrow> bool \<Rightarrow> (UA_Variant, UA_StatusCode) op" where
  "UaVariant_setVariantMatrix al val dimensions bDetach m_impl =
     (if bDetach then (Inl detach_error, m_impl)
      else setMatrixComplexTypes al VARIANT val impl_of VVariant (UA_Variant_copy al) dimensions m_impl)"

end
