(* ===== verification/UaVariant_Get.thy ===== *)
theory UaVariant_Get
  imports UaVariant_Set
begin

text \<open>
  \<open>UaVariant\<close>, second half of \<open>src/uavariant.cpp\<close>: classification (scalar, array, matrix), the
  checked numeric conversions, the array and matrix getters, printing, comparison and \<open>changeType\<close>.
  An output parameter is the state of the operation: it keeps its value when the code does not write it.
\<close>

subsection \<open>Classification\<close>

datatype OpcUaType = OpcUaType "32 word"

definition OpcUaType_Null :: OpcUaType where "OpcUaType_Null = OpcUaType 0"

text \<open>The enumerators are the numeric identifiers of the built-in types.\<close>

definition OpcUaType_of :: "UA_DataTypeKind \<Rightarrow> OpcUaType" where
  "OpcUaType_of k = OpcUaType (word_of_nat (kind_index k + 1))"

definition UaVariant_type :: "UA_Variant \<Rightarrow> OpcUaType res" where
  "UaVariant_type m_impl =
     (if v_data m_impl = Null then Inr OpcUaType_Null
      else case v_type m_impl of
          None \<Rightarrow> Inl (UB NullDeref)
        | Some ty \<Rightarrow> (case nid_identifier (dt_typeId ty) of
            IdNumeric n \<Rightarrow> Inr (OpcUaType n)
          | _ \<Rightarrow> Inl (Throw (RuntimeError ''No support for non built-in data types in variant! (yet)''))))"

definition UaVariant_dataType :: "UA_Variant \<Rightarrow> UaNodeId res" where
  "UaVariant_dataType v = bind_res (UaVariant_type v) (\<lambda>t. case t of OpcUaType n \<Rightarrow> Inr (UaNodeId_numeric n 0))"

definition isScalarValue :: "UA_Variant \<Rightarrow> bool" where
  "isScalarValue m_impl = (if v_data m_impl \<noteq> Null then v_arrayLength m_impl = 0 \<and> is_heap (v_data m_impl) else False)"

definition UaVariant_isMatrix :: "UA_Variant \<Rightarrow> bool" where
  "UaVariant_isMatrix v \<longleftrightarrow> v_data v \<noteq> Null \<and> \<not> isScalarValue v \<and> 0 < v_arrayDimensionsSize v"

definition UaVariant_isArray :: "UA_Variant \<Rightarrow> bool" where
  "UaVariant_isArray v \<longleftrightarrow> \<not> isScalarValue v \<and> \<not> UaVariant_isMatrix v"

definition UaVariant_isEmpty :: "UA_Variant \<Rightarrow> bool" where
  "UaVariant_isEmpty v = UA_Variant_isEmpty v"

text \<open>\<open>OpcUa_VariantArrayType_*\<close>.\<close>

definition UaVariant_arrayType :: "UA_Variant \<Rightarrow> byte" where
  "UaVariant_arrayType v = (if UaVariant_isMatrix v then 2
     else if UaVariant_isArray v \<and> \<not> UaVariant_isEmpty v then 1 else 0)"

definition UaVariant_arraySize :: "UA_Variant \<Rightarrow> int" where
  "UaVariant_arraySize v = (if \<not> UaVariant_isArray v then -1 else int32_of_size (v_arrayLength v))"

definition UaVariant_dimensionSize :: "UA_Variant \<Rightarrow> int" where
  "UaVariant_dimensionSize v = (if UaVariant_isMatrix v then int32_of_size (v_arrayDimensionsSize v)
     else if UaVariant_isArray v \<and> \<not> UaVariant_isEmpty v then 1 else -1)"

text \<open>The result is the new content of the output array.\<close>

definition UaVariant_arrayDimensions :: "UA_Variant \<Rightarrow> 32 word list res" where
  "UaVariant_arrayDimensions v =
     (if UaVariant_isMatrix v then read_range (v_arrayDimensions v) (v_arrayDimensionsSize v)
      else if isScalarValue v then Inr []
      else Inr [word_of_nat (v_arrayLength v)])"

text \<open>The product of the dimensions in \<open>int64_t\<close>; a \<open>size_t\<close> is compared as \<open>int64_t\<close>.\<close>

fun dimension_product :: "int \<Rightarrow> 32 word list \<Rightarrow> int res" where
  "dimension_product n [] = Inr n"
| "dimension_product n (d # ds) = bind_res (mul_int64 n (uint d)) (\<lambda>m. dimension_product m ds)"

definition int64_of_size :: "nat \<Rightarrow> int" where
  "int64_of_size n = sint (word_of_nat n :: 64 word)"

definition matrix_elements :: "UA_Variant \<Rightarrow> int res" where
  "matrix_elements v = bind_res (read_range (v_arrayDimensions v) (v_arrayDimensionsSize v)) (dimension_product 1)"

definition UaVariant_noOfMatrixElements :: "UA_Variant \<Rightarrow> int res" where
  "UaVariant_noOfMatrixElements v =
     (if \<not> UaVariant_isMatrix v then Inr (-1)
      else bind_res (matrix_elements v) (\<lambda>n.
        if n \<noteq> int64_of_size (v_arrayLength v) then Inr (-1)
        else Inr (sint (word_of_int n :: 32 word))))"

subsection \<open>Scalar getters\<close>

definition isNumericType :: "UA_DataType \<Rightarrow> bool" where
  "isNumericType ty = (case dt_typeKind ty of
      BOOLEAN \<Rightarrow> True | SBYTE \<Rightarrow> True | BYTE \<Rightarrow> True | INT16 \<Rightarrow> True | UINT16 \<Rightarrow> True | INT32 \<Rightarrow> True
    | UINT32 \<Rightarrow> True | INT64 \<Rightarrow> True | UINT64 \<Rightarrow> True | FLOAT \<Rightarrow> True | DOUBLE \<Rightarrow> True | _ \<Rightarrow> False)"

text \<open>
  \<open>boost::numeric_cast\<close> is a parameter \<open>nc\<close>: target type, source value, and \<open>None\<close> for the exception
  \<open>bad_numeric_cast\<close>. Its documented contract on integers: the value when it fits, else the exception.
\<close>

type_synonym numeric_cast = "UA_DataTypeKind \<Rightarrow> UA_value \<Rightarrow> UA_value option"

definition int_value :: "UA_value \<Rightarrow> int option" where
  "int_value x = (case x of VBool b \<Rightarrow> Some (if b then 1 else 0)
     | VSByte w \<Rightarrow> Some (sint w) | VByte w \<Rightarrow> Some (uint w)
     | VInt16 w \<Rightarrow> Some (sint w) | VUInt16 w \<Rightarrow> Some (uint w)
     | VInt32 w \<Rightarrow> Some (sint w) | VUInt32 w \<Rightarrow> Some (uint w)
     | VInt64 w \<Rightarrow> Some (sint w) | VUInt64 w \<Rightarrow> Some (uint w) | _ \<Rightarrow> None)"

definition int_range :: "UA_DataTypeKind \<Rightarrow> (int \<times> int) option" where
  "int_range k = (case k of BOOLEAN \<Rightarrow> Some (0, 1)
     | SBYTE \<Rightarrow> Some (- 128, 127) | BYTE \<Rightarrow> Some (0, 255)
     | INT16 \<Rightarrow> Some (- 32768, 32767) | UINT16 \<Rightarrow> Some (0, 65535)
     | INT32 \<Rightarrow> Some (- 2147483648, 2147483647) | UINT32 \<Rightarrow> Some (0, 4294967295)
     | INT64 \<Rightarrow> Some (- 9223372036854775808, 9223372036854775807)
     | UINT64 \<Rightarrow> Some (0, 18446744073709551615) | _ \<Rightarrow> None)"

definition of_int_value :: "UA_DataTypeKind \<Rightarrow> int \<Rightarrow> UA_value option" where
  "of_int_value k i = (case k of BOOLEAN \<Rightarrow> Some (VBool (i \<noteq> 0))
     | SBYTE \<Rightarrow> Some (VSByte (word_of_int i)) | BYTE \<Rightarrow> Some (VByte (word_of_int i))
     | INT16 \<Rightarrow> Some (VInt16 (word_of_int i)) | UINT16 \<Rightarrow> Some (VUInt16 (word_of_int i))
     | INT32 \<Rightarrow> Some (VInt32 (word_of_int i)) | UINT32 \<Rightarrow> Some (VUInt32 (word_of_int i))
     | INT64 \<Rightarrow> Some (VInt64 (word_of_int i)) | UINT64 \<Rightarrow> Some (VUInt64 (word_of_int i)) | _ \<Rightarrow> None)"

definition integer_cast :: numeric_cast where
  "integer_cast k x = (case (int_range k, int_value x) of
      (Some (lo, hi), Some i) \<Rightarrow> if lo \<le> i \<and> i \<le> hi then of_int_value k i else None
    | _ \<Rightarrow> None)"

definition numeric_cast_ok :: "numeric_cast \<Rightarrow> bool" where
  "numeric_cast_ok nc \<longleftrightarrow> (\<forall>k x. int_range k \<noteq> None \<longrightarrow> int_value x \<noteq> None \<longrightarrow> nc k x = integer_cast k x)"

lemma numeric_cast_ok_integer [simp]: "numeric_cast_ok integer_cast"
  by (simp add: numeric_cast_ok_def)

text \<open>
  The switch over the source type: the value in memory is read as the type says, element zero whatever
  the length. The result is the status and the value written to \<open>out\<close>, if any.
\<close>

definition convertNumericType :: "numeric_cast \<Rightarrow> UA_DataTypeKind \<Rightarrow> UA_Variant \<Rightarrow> (UA_StatusCode \<times> UA_value option) res" where
  "convertNumericType nc target m_impl = (case v_type m_impl of
      None \<Rightarrow> Inl (UB NullDeref)
    | Some ty \<Rightarrow>
        if isNumericType ty then bind_res (deref (v_data m_impl) 0) (\<lambda>x.
          if value_kind x \<noteq> dt_typeKind ty then Inl (UB TypeConfusion)
          else case nc target x of Some y \<Rightarrow> Inr (OpcUa_Good, Some y) | None \<Rightarrow> Inr (OpcUa_BadOutOfRange, None))
        else Inr (OpcUa_Bad, None))"

definition toSimpleType :: "numeric_cast \<Rightarrow> UA_DataTypeKind \<Rightarrow> UA_Variant \<Rightarrow> (UA_StatusCode \<times> UA_value option) res" where
  "toSimpleType nc target m_impl =
     (if v_data m_impl = Null then Inr (OpcUa_Bad, None)
      else case v_type m_impl of None \<Rightarrow> Inr (OpcUa_Bad, None)
      | Some ty \<Rightarrow>
          if ty = UA_TYPES target
          then bind_res (deref (v_data m_impl) 0) (\<lambda>x. Inr (OpcUa_Good, Some x))
          else if isNumericType ty \<and> isNumericType (UA_TYPES target) then convertNumericType nc target m_impl
          else Inr (OpcUa_Bad, None))"

text \<open>Writing the result through the typed output reference.\<close>

definition write_out :: "(UA_value \<Rightarrow> 'a option) \<Rightarrow> (UA_StatusCode \<times> UA_value option) res \<Rightarrow> ('a, UA_StatusCode) op" where
  "write_out proj r out = (case r of Inl e \<Rightarrow> (Inl e, out)
     | Inr (status, None) \<Rightarrow> (Inr status, out)
     | Inr (status, Some x) \<Rightarrow> (case proj x of Some y \<Rightarrow> (Inr status, y) | None \<Rightarrow> (Inl (UB TypeConfusion), out)))"

definition un_VBool :: "UA_value \<Rightarrow> bool option" where
  "un_VBool x = (case x of VBool w \<Rightarrow> Some w | _ \<Rightarrow> None)"

definition un_VInt16 :: "UA_value \<Rightarrow> (16 word) option" where
  "un_VInt16 x = (case x of VInt16 w \<Rightarrow> Some w | _ \<Rightarrow> None)"

definition un_VUInt16 :: "UA_value \<Rightarrow> (16 word) option" where
  "un_VUInt16 x = (case x of VUInt16 w \<Rightarrow> Some w | _ \<Rightarrow> None)"

definition un_VInt32 :: "UA_value \<Rightarrow> (32 word) option" where
  "un_VInt32 x = (case x of VInt32 w \<Rightarrow> Some w | _ \<Rightarrow> None)"

definition un_VUInt32 :: "UA_value \<Rightarrow> (32 word) option" where
  "un_VUInt32 x = (case x of VUInt32 w \<Rightarrow> Some w | _ \<Rightarrow> None)"

definition un_VInt64 :: "UA_value \<Rightarrow> (64 word) option" where
  "un_VInt64 x = (case x of VInt64 w \<Rightarrow> Some w | _ \<Rightarrow> None)"

definition un_VUInt64 :: "UA_value \<Rightarrow> (64 word) option" where
  "un_VUInt64 x = (case x of VUInt64 w \<Rightarrow> Some w | _ \<Rightarrow> None)"

definition un_VByte :: "UA_value \<Rightarrow> byte option" where
  "un_VByte x = (case x of VByte w \<Rightarrow> Some w | _ \<Rightarrow> None)"

definition un_VSByte :: "UA_value \<Rightarrow> byte option" where
  "un_VSByte x = (case x of VSByte w \<Rightarrow> Some w | _ \<Rightarrow> None)"

definition un_VFloat :: "UA_value \<Rightarrow> (32 word) option" where
  "un_VFloat x = (case x of VFloat w \<Rightarrow> Some w | _ \<Rightarrow> None)"

definition un_VDouble :: "UA_value \<Rightarrow> (64 word) option" where
  "un_VDouble x = (case x of VDouble w \<Rightarrow> Some w | _ \<Rightarrow> None)"

definition un_VString :: "UA_value \<Rightarrow> UA_String option" where
  "un_VString x = (case x of VString w \<Rightarrow> Some w | _ \<Rightarrow> None)"

definition un_VByteString :: "UA_value \<Rightarrow> UA_ByteString option" where
  "un_VByteString x = (case x of VByteString w \<Rightarrow> Some w | _ \<Rightarrow> None)"

definition un_VVariant :: "UA_value \<Rightarrow> UA_Variant option" where
  "un_VVariant x = (case x of VVariant w \<Rightarrow> Some w | _ \<Rightarrow> None)"

definition UaVariant_toBool :: "numeric_cast \<Rightarrow> UA_Variant \<Rightarrow> (bool, UA_StatusCode) op" where
  "UaVariant_toBool nc v = write_out un_VBool (toSimpleType nc BOOLEAN v)"

definition UaVariant_toInt16 :: "numeric_cast \<Rightarrow> UA_Variant \<Rightarrow> (16 word, UA_StatusCode) op" where
  "UaVariant_toInt16 nc v = write_out un_VInt16 (toSimpleType nc INT16 v)"

definition UaVariant_toUInt16 :: "numeric_cast \<Rightarrow> UA_Variant \<Rightarrow> (16 word, UA_StatusCode) op" where
  "UaVariant_toUInt16 nc v = write_out un_VUInt16 (toSimpleType nc UINT16 v)"

definition UaVariant_toInt32 :: "numeric_cast \<Rightarrow> UA_Variant \<Rightarrow> (32 word, UA_StatusCode) op" where
  "UaVariant_toInt32 nc v = write_out un_VInt32 (toSimpleType nc INT32 v)"

definition UaVariant_toUInt32 :: "numeric_cast \<Rightarrow> UA_Variant \<Rightarrow> (32 word, UA_StatusCode) op" where
  "UaVariant_toUInt32 nc v = write_out un_VUInt32 (toSimpleType nc UINT32 v)"

definition UaVariant_toInt64 :: "numeric_cast \<Rightarrow> UA_Variant \<Rightarrow> (64 word, UA_StatusCode) op" where
  "UaVariant_toInt64 nc v = write_out un_VInt64 (toSimpleType nc INT64 v)"

definition UaVariant_toUInt64 :: "numeric_cast \<Rightarrow> UA_Variant \<Rightarrow> (64 word, UA_StatusCode) op" where
  "UaVariant_toUInt64 nc v = write_out un_VUInt64 (toSimpleType nc UINT64 v)"

definition UaVariant_toByte :: "numeric_cast \<Rightarrow> UA_Variant \<Rightarrow> (byte, UA_StatusCode) op" where
  "UaVariant_toByte nc v = write_out un_VByte (toSimpleType nc BYTE v)"

definition UaVariant_toSByte :: "numeric_cast \<Rightarrow> UA_Variant \<Rightarrow> (byte, UA_StatusCode) op" where
  "UaVariant_toSByte nc v = write_out un_VSByte (toSimpleType nc SBYTE v)"

definition UaVariant_toFloat :: "numeric_cast \<Rightarrow> UA_Variant \<Rightarrow> (32 word, UA_StatusCode) op" where
  "UaVariant_toFloat nc v = write_out un_VFloat (toSimpleType nc FLOAT v)"

definition UaVariant_toDouble :: "numeric_cast \<Rightarrow> UA_Variant \<Rightarrow> (64 word, UA_StatusCode) op" where
  "UaVariant_toDouble nc v = write_out un_VDouble (toSimpleType nc DOUBLE v)"

text \<open>\<open>toByteString\<close>: a scalar byte string, or an array of bytes. Lengths pass through a C \<open>int\<close>.\<close>

definition as_bytes :: "UA_value ptr \<Rightarrow> byte ptr" where
  "as_bytes p = (case p of Heap xs \<Rightarrow> Heap (map (\<lambda>x. case x of VByte b \<Rightarrow> b | _ \<Rightarrow> 0) xs) | _ \<Rightarrow> Null)"

definition set_bytes :: "allocator \<Rightarrow> int \<Rightarrow> byte ptr \<Rightarrow> (UaByteString, UA_StatusCode) op" where
  "set_bytes al len dat out = (case UaByteString_setByteString al len dat out of
      (Inl e, out') \<Rightarrow> (Inl e, out') | (Inr _, out') \<Rightarrow> (Inr OpcUa_Good, out'))"

definition UaVariant_toByteString :: "allocator \<Rightarrow> UA_Variant \<Rightarrow> (UaByteString, UA_StatusCode) op" where
  "UaVariant_toByteString al m_impl out =
     (if v_data m_impl = Null then (Inr OpcUa_BadTypeMismatch, out)
      else if v_type m_impl = Some (UA_TYPES BYTESTRING) \<and> isScalarValue m_impl then
        (case deref (v_data m_impl) 0 of
           Inl e \<Rightarrow> (Inl e, out)
         | Inr (VByteString s) \<Rightarrow> set_bytes al (int32_of_size (bs_length s)) (bs_data s) out
         | Inr _ \<Rightarrow> (Inl (UB TypeConfusion), out))
      else if v_type m_impl = Some (UA_TYPES BYTE) \<and> \<not> isScalarValue m_impl then
        set_bytes al (int32_of_size (v_arrayLength m_impl)) (as_bytes (v_data m_impl)) out
      else (Inr OpcUa_BadTypeMismatch, out))"

subsection \<open>Array and matrix getters\<close>

text \<open>\<open>std::copy\<close> into the created array: \<open>asg\<close> assigns a stack element to an element of the array.\<close>

fun copy_out :: "(UA_value \<Rightarrow> ('e, unit) op) \<Rightarrow> UA_value list \<Rightarrow> ('e list, unit) op" where
  "copy_out asg [] out = (Inr (), out)"
| "copy_out asg (x # xs) [] = (Inl (UB OutOfBounds), [])"
| "copy_out asg (x # xs) (y # ys) = (case asg x y of (Inl e, y') \<Rightarrow> (Inl e, y' # ys)
     | (Inr _, y') \<Rightarrow> (case copy_out asg xs ys of (r, zs) \<Rightarrow> (r, y' # zs)))"

definition copy_array :: "(UA_value \<Rightarrow> ('e, unit) op) \<Rightarrow> UA_value ptr \<Rightarrow> nat \<Rightarrow> ('e list, unit) op" where
  "copy_array asg input sz out = (case read_range input sz of
      Inl e \<Rightarrow> (Inl e, out) | Inr xs \<Rightarrow> copy_out asg xs out)"

definition toArray :: "UA_DataTypeKind \<Rightarrow> 'e \<Rightarrow> (UA_value \<Rightarrow> ('e, unit) op) \<Rightarrow> UA_Variant \<Rightarrow> ('e list, UA_StatusCode) op" where
  "toArray dataType T asg m_impl out =
     (if UA_Variant_hasArrayType m_impl (UA_TYPES dataType) then
        (let sz = v_arrayLength m_impl
         in case copy_array asg (v_data m_impl) sz (UaCompatArray_create T sz) of
              (Inl e, out') \<Rightarrow> (Inl e, out') | (Inr _, out') \<Rightarrow> (Inr OpcUa_Good, out'))
      else (Inr OpcUa_BadDataEncodingInvalid, out))"

text \<open>
  An element of a simple type is copied, a string is assigned from the stack's string, a byte string or
  variant is assigned from a temporary made of the stack's.
\<close>

definition as_simple :: "(UA_value \<Rightarrow> 'e option) \<Rightarrow> UA_value \<Rightarrow> 'e res" where
  "as_simple proj x = (case proj x of Some y \<Rightarrow> Inr y | None \<Rightarrow> Inl (UB TypeConfusion))"

definition assign_from :: "'e res \<Rightarrow> ('e \<Rightarrow> ('o, unit) op) \<Rightarrow> ('o, unit) op" where
  "assign_from r asg out = (case r of Inl e \<Rightarrow> (Inl e, out) | Inr x \<Rightarrow> asg x out)"

definition put_simple :: "(UA_value \<Rightarrow> 'e option) \<Rightarrow> UA_value \<Rightarrow> ('e, unit) op" where
  "put_simple proj x = assign_from (as_simple proj x) (\<lambda>y out. (Inr (), y))"

definition put_UaString :: "allocator \<Rightarrow> UA_value \<Rightarrow> (UaString, unit) op" where
  "put_UaString al x = assign_from (as_simple un_VString x) (\<lambda>s. UaString_assign_impl al (Some s))"

definition put_UaByteString :: "allocator \<Rightarrow> UA_value \<Rightarrow> (UaByteString, unit) op" where
  "put_UaByteString al x = assign_from (bind_res (as_simple un_VByteString x) (UaByteString_fromStack al))
     (\<lambda>tmp. UaByteString_assign al (Some tmp))"

definition put_UaVariant :: "allocator \<Rightarrow> UA_value \<Rightarrow> (UaVariant, unit) op" where
  "put_UaVariant al x = assign_from (bind_res (as_simple un_VVariant x) (UaVariant_fromStack al))
     (\<lambda>tmp. UaVariant_assign al (Some tmp))"

definition UaVariant_toBoolArray :: "UA_Variant \<Rightarrow> (bool list, UA_StatusCode) op" where
  "UaVariant_toBoolArray v = toArray BOOLEAN False (put_simple un_VBool) v"

definition UaVariant_toSByteArray :: "UA_Variant \<Rightarrow> (byte list, UA_StatusCode) op" where
  "UaVariant_toSByteArray v = toArray SBYTE 0 (put_simple un_VSByte) v"

definition UaVariant_toByteArray :: "UA_Variant \<Rightarrow> (byte list, UA_StatusCode) op" where
  "UaVariant_toByteArray v = toArray BYTE 0 (put_simple un_VByte) v"

definition UaVariant_toInt16Array :: "UA_Variant \<Rightarrow> ((16 word) list, UA_StatusCode) op" where
  "UaVariant_toInt16Array v = toArray INT16 0 (put_simple un_VInt16) v"

definition UaVariant_toUInt16Array :: "UA_Variant \<Rightarrow> ((16 word) list, UA_StatusCode) op" where
  "UaVariant_toUInt16Array v = toArray UINT16 0 (put_simple un_VUInt16) v"

definition UaVariant_toInt32Array :: "UA_Variant \<Rightarrow> ((32 word) list, UA_StatusCode) op" where
  "UaVariant_toInt32Array v = toArray INT32 0 (put_simple un_VInt32) v"

definition UaVariant_toUInt32Array :: "UA_Variant \<Rightarrow> ((32 word) list, UA_StatusCode) op" where
  "UaVariant_toUInt32Array v = toArray UINT32 0 (put_simple un_VUInt32) v"

definition UaVariant_toInt64Array :: "UA_Variant \<Rightarrow> ((64 word) list, UA_StatusCode) op" where
  "UaVariant_toInt64Array v = toArray INT64 0 (put_simple un_VInt64) v"

definition UaVariant_toUInt64Array :: "UA_Variant \<Rightarrow> ((64 word) list, UA_StatusCode) op" where
  "UaVariant_toUInt64Array v = toArray UINT64 0 (put_simple un_VUInt64) v"

definition UaVariant_toFloatArray :: "UA_Variant \<Rightarrow> ((32 word) list, UA_StatusCode) op" where
  "UaVariant_toFloatArray v = toArray FLOAT 0 (put_simple un_VFloat) v"

definition UaVariant_toDoubleArray :: "UA_Variant \<Rightarrow> ((64 word) list, UA_StatusCode) op" where
  "UaVariant_toDoubleArray v = toArray DOUBLE 0 (put_simple un_VDouble) v"

definition UaVariant_toStringArray :: "allocator \<Rightarrow> UA_Variant \<Rightarrow> (UaString list, UA_StatusCode) op" where
  "UaVariant_toStringArray al v = toArray STRING (Live UA_STRING_NULL) (put_UaString al) v"

definition UaVariant_toByteStringArray :: "allocator \<Rightarrow> UA_Variant \<Rightarrow> (UaByteString list, UA_StatusCode) op" where
  "UaVariant_toByteStringArray al v = toArray BYTESTRING UA_STRING_NULL (put_UaByteString al) v"

definition UaVariant_toVariantArray :: "allocator \<Rightarrow> UA_Variant \<Rightarrow> (UaVariant list, UA_StatusCode) op" where
  "UaVariant_toVariantArray al v = toArray VARIANT (Live UA_Variant_init) (put_UaVariant al) v"

text \<open>The two output arrays are the state.\<close>

definition toMatrix :: "UA_DataTypeKind \<Rightarrow> 'e \<Rightarrow> (UA_value \<Rightarrow> ('e, unit) op) \<Rightarrow> UA_Variant
    \<Rightarrow> ('e list \<times> 32 word list, UA_StatusCode) op" where
  "toMatrix dataType T asg m_impl = (\<lambda>(out, dimensions).
     if \<not> UaVariant_isMatrix m_impl \<or> v_type m_impl \<noteq> Some (UA_TYPES dataType)
     then (Inr OpcUa_BadTypeMismatch, (out, dimensions))
     else case matrix_elements m_impl of
         Inl e \<Rightarrow> (Inl e, (out, dimensions))
       | Inr expectedElements \<Rightarrow>
          if expectedElements \<noteq> int64_of_size (v_arrayLength m_impl)
          then (Inr OpcUa_BadInvalidArgument, (out, dimensions))
          else (let n = v_arrayLength m_impl in
            case (if n > 0 then copy_array asg (v_data m_impl) n (UaCompatArray_create T n)
                  else (Inr (), UaCompatArray_create T n)) of
              (Inl e, out') \<Rightarrow> (Inl e, (out', dimensions))
            | (Inr _, out') \<Rightarrow>
                (case read_range (v_arrayDimensions m_impl) (v_arrayDimensionsSize m_impl) of
                   Inl e \<Rightarrow> (Inl e, (out', UaCompatArray_create 0 (v_arrayDimensionsSize m_impl)))
                 | Inr ds \<Rightarrow> (Inr OpcUa_Good, (out', ds)))))"

definition UaVariant_toBoolMatrix :: "UA_Variant \<Rightarrow> (bool list \<times> 32 word list, UA_StatusCode) op" where
  "UaVariant_toBoolMatrix v = toMatrix BOOLEAN False (put_simple un_VBool) v"

definition UaVariant_toSByteMatrix :: "UA_Variant \<Rightarrow> (byte list \<times> 32 word list, UA_StatusCode) op" where
  "UaVariant_toSByteMatrix v = toMatrix SBYTE 0 (put_simple un_VSByte) v"

definition UaVariant_toByteMatrix :: "UA_Variant \<Rightarrow> (byte list \<times> 32 word list, UA_StatusCode) op" where
  "UaVariant_toByteMatrix v = toMatrix BYTE 0 (put_simple un_VByte) v"

definition UaVariant_toInt16Matrix :: "UA_Variant \<Rightarrow> ((16 word) list \<times> 32 word list, UA_StatusCode) op" where
  "UaVariant_toInt16Matrix v = toMatrix INT16 0 (put_simple un_VInt16) v"

definition UaVariant_toUInt16Matrix :: "UA_Variant \<Rightarrow> ((16 word) list \<times> 32 word list, UA_StatusCode) op" where
  "UaVariant_toUInt16Matrix v = toMatrix UINT16 0 (put_simple un_VUInt16) v"

definition UaVariant_toInt32Matrix :: "UA_Variant \<Rightarrow> ((32 word) list \<times> 32 word list, UA_StatusCode) op" where
  "UaVariant_toInt32Matrix v = toMatrix INT32 0 (put_simple un_VInt32) v"

definition UaVariant_toUInt32Matrix :: "UA_Variant \<Rightarrow> ((32 word) list \<times> 32 word list, UA_StatusCode) op" where
  "UaVariant_toUInt32Matrix v = toMatrix UINT32 0 (put_simple un_VUInt32) v"

definition UaVariant_toInt64Matrix :: "UA_Variant \<Rightarrow> ((64 word) list \<times> 32 word list, UA_StatusCode) op" where
  "UaVariant_toInt64Matrix v = toMatrix INT64 0 (put_simple un_VInt64) v"

definition UaVariant_toUInt64Matrix :: "UA_Variant \<Rightarrow> ((64 word) list \<times> 32 word list, UA_StatusCode) op" where
  "UaVariant_toUInt64Matrix v = toMatrix UINT64 0 (put_simple un_VUInt64) v"

definition UaVariant_toFloatMatrix :: "UA_Variant \<Rightarrow> ((32 word) list \<times> 32 word list, UA_StatusCode) op" where
  "UaVariant_toFloatMatrix v = toMatrix FLOAT 0 (put_simple un_VFloat) v"

definition UaVariant_toDoubleMatrix :: "UA_Variant \<Rightarrow> ((64 word) list \<times> 32 word list, UA_StatusCode) op" where
  "UaVariant_toDoubleMatrix v = toMatrix DOUBLE 0 (put_simple un_VDouble) v"

definition UaVariant_toStringMatrix :: "allocator \<Rightarrow> UA_Variant \<Rightarrow> (UaString list \<times> 32 word list, UA_StatusCode) op" where
  "UaVariant_toStringMatrix al v = toMatrix STRING (Live UA_STRING_NULL) (put_UaString al) v"

definition UaVariant_toByteStringMatrix :: "allocator \<Rightarrow> UA_Variant \<Rightarrow> (UaByteString list \<times> 32 word list, UA_StatusCode) op" where
  "UaVariant_toByteStringMatrix al v = toMatrix BYTESTRING UA_STRING_NULL (put_UaByteString al) v"

definition UaVariant_toVariantMatrix :: "allocator \<Rightarrow> UA_Variant \<Rightarrow> (UaVariant list \<times> 32 word list, UA_StatusCode) op" where
  "UaVariant_toVariantMatrix al v = toMatrix VARIANT (Live UA_Variant_init) (put_UaVariant al) v"

subsection \<open>Printing\<close>

text \<open>\<open>UA_print\<close>, the stack's pretty printer, is a parameter: the string it stores for a value.\<close>

definition UaVariant_toString :: "(UA_value \<Rightarrow> UA_String) \<Rightarrow> allocator \<Rightarrow> UA_Variant \<Rightarrow> UaString res" where
  "UaVariant_toString pr al m_impl =
     (if UaVariant_isEmpty m_impl then UaString_fromChars al []
      else if UaVariant_isArray m_impl then UaString_fromChars al ''[array toString() not yet implemented]''
      else bind_res (deref (v_data m_impl) 0) (\<lambda>x.
        if v_type m_impl = Some (UA_TYPES STRING)
        then bind_res (as_simple un_VString x) (UaString_fromStack al)
        else UaString_fromStack al (pr x)))"

text \<open>The stream prints the address of the type descriptor: \<open>addr\<close>.\<close>

definition UaVariant_toFullString ::
    "(UA_value \<Rightarrow> UA_String) \<Rightarrow> (UA_DataType option \<Rightarrow> string) \<Rightarrow> allocator \<Rightarrow> UA_Variant \<Rightarrow> UaString res" where
  "UaVariant_toFullString pr addr al m_impl =
     bind_res
       (if v_type m_impl = Some (UA_TYPES STRING) \<and> isScalarValue m_impl
        then bind_res (UaVariant_toString pr al m_impl) UaString_toUtf8
        else Inr (''type ['' @ addr (v_type m_impl) @ ''] dimensions count [''
                  @ show_base 10 (v_arrayDimensionsSize m_impl) @ '']''))
       (\<lambda>s. UaString_fromChars al s)"

subsection \<open>Comparison\<close>

text \<open>
  The object representation: simple values are their little-endian bytes; \<open>rep\<close> gives the bytes of an
  element that holds pointers (they depend on where its content was allocated).
\<close>

definition word_bytes :: "nat \<Rightarrow> 'a::len word \<Rightarrow> byte list" where
  "word_bytes n w = map (\<lambda>i. ucast (drop_bit (8 * i) w)) [0..<n]"

definition value_bytes :: "(UA_value \<Rightarrow> byte list) \<Rightarrow> UA_value \<Rightarrow> byte list" where
  "value_bytes rep x = (case x of VBool b \<Rightarrow> [if b then 1 else 0] | VSByte w \<Rightarrow> [w] | VByte w \<Rightarrow> [w]
     | VInt16 w \<Rightarrow> word_bytes 2 w | VUInt16 w \<Rightarrow> word_bytes 2 w
     | VInt32 w \<Rightarrow> word_bytes 4 w | VUInt32 w \<Rightarrow> word_bytes 4 w
     | VInt64 w \<Rightarrow> word_bytes 8 w | VUInt64 w \<Rightarrow> word_bytes 8 w
     | VFloat w \<Rightarrow> word_bytes 4 w | VDouble w \<Rightarrow> word_bytes 8 w | _ \<Rightarrow> rep x)"

definition mem_bytes :: "(UA_value \<Rightarrow> byte list) \<Rightarrow> UA_value ptr \<Rightarrow> nat \<Rightarrow> byte list res" where
  "mem_bytes rep p n = (case p of Heap xs \<Rightarrow> read_range (Heap (concat (map (value_bytes rep) xs))) n
     | Null \<Rightarrow> read_range Null n | Sentinel \<Rightarrow> read_range Sentinel n)"

text \<open>\<open>arrayDimensions[i] != other.arrayDimensions[i]\<close> for some \<open>i\<close>, with the early return.\<close>

fun dims_differ :: "32 word ptr \<Rightarrow> 32 word ptr \<Rightarrow> nat \<Rightarrow> nat \<Rightarrow> bool res" where
  "dims_differ p q i 0 = Inr False"
| "dims_differ p q i (Suc m) = bind_res (deref p i) (\<lambda>a. bind_res (deref q i) (\<lambda>b.
     if a \<noteq> b then Inr True else dims_differ p q (i + 1) m))"

definition UaVariant_eq :: "(UA_value \<Rightarrow> UA_String) \<Rightarrow> (UA_value \<Rightarrow> byte list) \<Rightarrow> (UA_value \<Rightarrow> byte list)
    \<Rightarrow> allocator \<Rightarrow> UA_Variant \<Rightarrow> UA_Variant \<Rightarrow> bool res" where
  "UaVariant_eq pr rep rep' al v w =
     bind_res (UaVariant_type v) (\<lambda>t. bind_res (UaVariant_type w) (\<lambda>u.
       if t \<noteq> u then Inr False
       else if v_arrayLength v \<noteq> v_arrayLength w then Inr False
       else if v_arrayDimensionsSize v \<noteq> v_arrayDimensionsSize w then Inr False
       else bind_res (dims_differ (v_arrayDimensions v) (v_arrayDimensions w) 0 (v_arrayDimensionsSize v)) (\<lambda>d.
         if d then Inr False
         else if t = OpcUaType_of STRING then
           bind_res (UaVariant_toString pr al v) (\<lambda>s. bind_res (UaVariant_toString pr al w) (\<lambda>s'. UaString_eq s s'))
         else bind_res (mem_bytes rep (v_data v) (v_arrayLength v)) (\<lambda>a.
           bind_res (mem_bytes rep' (v_data w) (v_arrayLength v)) (\<lambda>b. Inr (a = b))))))"

subsection \<open>Changing the type\<close>

text \<open>One case of the switch: read with conversion, give up on a bad status, set.\<close>

definition change_with :: "(UA_Variant \<Rightarrow> ('a, UA_StatusCode) op) \<Rightarrow> ('a \<Rightarrow> (UA_Variant, unit) op) \<Rightarrow> 'a
    \<Rightarrow> (UA_Variant, UA_StatusCode) op" where
  "change_with getter setter v0 m_impl = (case getter m_impl v0 of
      (Inl e, _) \<Rightarrow> (Inl e, m_impl)
    | (Inr status, v) \<Rightarrow>
        if \<not> isGood (UaStatus_of status) then (Inr status, m_impl)
        else (case setter v m_impl of (Inl e, m) \<Rightarrow> (Inl e, m) | (Inr _, m) \<Rightarrow> (Inr OpcUa_Good, m)))"

definition changeType :: "numeric_cast \<Rightarrow> (UA_value \<Rightarrow> UA_String) \<Rightarrow> allocator \<Rightarrow> OpcUaType \<Rightarrow> bool
    \<Rightarrow> (UA_Variant, UA_StatusCode) op" where
  "changeType nc pr al targetType to_array m_impl =
     (if to_array then (Inr OpcUa_BadNotSupported, m_impl)
      else case UaVariant_type m_impl of
          Inl e \<Rightarrow> (Inl e, m_impl)
        | Inr t \<Rightarrow>
            if t = targetType then (Inr OpcUa_Good, m_impl)
            else if targetType = OpcUaType_of BOOLEAN then change_with (UaVariant_toBool nc) (UaVariant_setBool al) False m_impl
            else if targetType = OpcUaType_of SBYTE then change_with (UaVariant_toSByte nc) (UaVariant_setSByte al) 0 m_impl
            else if targetType = OpcUaType_of BYTE then change_with (UaVariant_toByte nc) (UaVariant_setByte al) 0 m_impl
            else if targetType = OpcUaType_of INT16 then change_with (UaVariant_toInt16 nc) (UaVariant_setInt16 al) 0 m_impl
            else if targetType = OpcUaType_of UINT16 then change_with (UaVariant_toUInt16 nc) (UaVariant_setUInt16 al) 0 m_impl
            else if targetType = OpcUaType_of INT32 then change_with (UaVariant_toInt32 nc) (UaVariant_setInt32 al) 0 m_impl
            else if targetType = OpcUaType_of UINT32 then change_with (UaVariant_toUInt32 nc) (UaVariant_setUInt32 al) 0 m_impl
            else if targetType = OpcUaType_of INT64 then change_with (UaVariant_toInt64 nc) (UaVariant_setInt64 al) 0 m_impl
            else if targetType = OpcUaType_of UINT64 then change_with (UaVariant_toUInt64 nc) (UaVariant_setUInt64 al) 0 m_impl
            else if targetType = OpcUaType_of FLOAT then change_with (UaVariant_toFloat nc) (UaVariant_setFloat al) 0 m_impl
            else if targetType = OpcUaType_of DOUBLE then change_with (UaVariant_toDouble nc) (UaVariant_setDouble al) 0 m_impl
            else if targetType = OpcUaType_of STRING then
              (case UaVariant_toString pr al m_impl of
                 Inl e \<Rightarrow> (Inl e, m_impl)
               | Inr str \<Rightarrow> (case UaVariant_setString al str m_impl of
                   (Inl e, m) \<Rightarrow> (Inl e, m) | (Inr _, m) \<Rightarrow> (Inr OpcUa_Good, m)))
            else (Inr OpcUa_BadNotSupported, m_impl))"

end
