(* ===== verification/UaVariant_Laws.thy ===== *)
theory UaVariant_Laws
  imports UaVariant_Get
begin

text \<open>
  What the setters and getters of \<open>UaVariant\<close> promise each other. The locale \<open>element_type\<close> is the
  contract of a C++ type stored in a variant; it is interpreted for the fourteen types of the interface
  and its lemmas carry the properties. The well-formedness invariant is preserved by every setter.
\<close>

subsection \<open>Copies stay well-formed\<close>

lemma or_zero_word: "(a :: 32 word) OR b = 0 \<longleftrightarrow> a = 0 \<and> b = 0"
  by (auto simp: bit_eq_iff bit_simps)

lemma Variant_copy_Heap:
  assumes "Variant_copy al (UA_Variant (Some ty) (Heap xs) n dims k) = Inr (c, w)"
    and "length xs = (if n = 0 then 1 else n)"
  shows "w = UA_Variant_init \<or> (\<exists>ys dims' k'. copy_elems al xs = Inr (OpcUa_Good, ys)
     \<and> w = UA_Variant (Some ty) (Heap ys) n dims' k' \<and> wf_array dims' k')"
proof -
  let ?v = "UA_Variant (Some ty) (Heap xs) n dims k"
  have len: "(if UA_Variant_isScalar ?v then 1 else n) = length xs" "length xs \<noteq> 0"
    using assms(2) by (auto simp: UA_Variant_isScalar_def)
  show ?thesis
  proof (cases "can_alloc al (length xs * dt_memSize ty)")
    case False
    with assms(1) len show ?thesis by (simp add: Let_def)
  next
    case True
    with assms(1) len obtain c' ys where ys: "copy_elems al xs = Inr (c', ys)"
      by (cases "copy_elems al xs") (auto simp: Let_def)
    show ?thesis
    proof (cases "c' = OpcUa_Good")
      case False
      with assms(1) len True ys show ?thesis by (simp add: Let_def)
    next
      case good: True
      show ?thesis
      proof (cases "dims = Null")
        case True
        with assms(1) len good ys \<open>can_alloc _ _\<close> show ?thesis by (auto simp: Let_def)
      next
        case False
        with assms(1) len good ys \<open>can_alloc _ _\<close> show ?thesis
          by (auto simp: Let_def bind_res_Inr_iff UA_Array_copy_Good_wf split: if_splits)
      qed
    qed
  qed
qed

lemma Variant_copy_empty:
  assumes "Variant_copy al (UA_Variant t d 0 dims k) = Inr (c, w)" "\<not> is_heap d"
  shows "w = UA_Variant_init \<or> (\<exists>dims' k'. w = UA_Variant t d 0 dims' k' \<and> wf_array dims' k')"
  using assms
  by (cases d) (auto simp: Let_def UA_Variant_isScalar_def bind_res_Inr_iff UA_Array_copy_Good_wf split: if_splits)

lemma copy_wf:
  "UA_copy al x = Inr (c, y) \<Longrightarrow> wf_value x \<Longrightarrow> wf_value y \<and> value_kind y = value_kind x"
  "copy_elems al xs = Inr (c, ys) \<Longrightarrow> list_all wf_value xs \<Longrightarrow>
     list_all wf_value ys \<and> map value_kind ys = map value_kind xs"
  "Variant_copy al v = Inr (c, w) \<Longrightarrow> wf_variant v \<Longrightarrow> wf_variant w"
proof (induction al x and al xs and al v arbitrary: c y and c ys and c w
    rule: UA_copy_copy_elems_Variant_copy.induct)
  case (7 al t d n dims k)
  show ?case
  proof (cases d)
    case (Heap xs)
    from Heap "7.prems" obtain ty where t: "t = Some ty" by (cases t; cases xs) (auto split: if_splits)
    let ?v = "UA_Variant (Some ty) (Heap xs) n dims k"
    let ?len = "if UA_Variant_isScalar ?v then 1 else n"
    have xs: "length xs = (if n = 0 then 1 else n)" "list_all wf_value xs"
      "\<forall>x\<in>set xs. dt_typeKind ty = value_kind x" using "7.prems"(2) Heap t by (auto simp: list_all_iff)
    then have len: "?len = length xs" "length xs \<noteq> 0" by (auto simp: UA_Variant_isScalar_def)
    have IH: "list_all wf_value ys \<and> map value_kind ys = map value_kind xs"
      if "copy_elems al xs = Inr (c', ys)" "can_alloc al (length xs * dt_memSize ty)" for c' ys
      using "7.IH" [of ?len ty xs c' ys] that t Heap len xs by simp
    show ?thesis
    proof (cases "can_alloc al (length xs * dt_memSize ty)")
      case False
      with "7.prems"(1) Heap t len show ?thesis by (simp add: Let_def)
    next
      case True
      from Variant_copy_Heap [OF "7.prems"(1) [unfolded Heap t] xs(1)] show ?thesis
      proof (elim disjE exE conjE)
        fix ys dims' k'
        assume ys: "copy_elems al xs = Inr (OpcUa_Good, ys)"
          and w: "w = UA_Variant (Some ty) (Heap ys) n dims' k'" "wf_array dims' k'"
        from IH [OF ys True] have ys': "list_all wf_value ys" "map value_kind ys = map value_kind xs"
          by auto
        from ys'(2) have "length ys = length xs" by (rule map_eq_imp_length_eq)
        moreover from ys'(2) have "value_kind ` set ys = value_kind ` set xs"
          by (metis list.set_map)
        then have "\<forall>y\<in>set ys. dt_typeKind ty = value_kind y" using xs(3) by (metis imageE imageI)
        ultimately show "wf_variant w" using w ys'(1) xs(1) by (simp add: list_all_iff)
      qed simp
    qed
  next
    case Null
    with "7.prems" Variant_copy_empty [of al t Null dims k c w] show ?thesis by auto
  next
    case Sentinel
    with "7.prems" Variant_copy_empty [of al t Sentinel dims k c w] show ?thesis by auto
  qed
qed (auto simp: bind_res_Inr_iff String_copy_wf split: if_splits)

subsection \<open>What a variant holds\<close>

definition scalar_of :: "UA_value \<Rightarrow> UA_Variant \<Rightarrow> bool" where
  "scalar_of x v \<longleftrightarrow> v_type v = Some (UA_TYPES (value_kind x)) \<and> v_data v = Heap [x] \<and> v_arrayLength v = 0
     \<and> v_arrayDimensionsSize v = 0 \<and> wf_variant v"

definition array_of :: "UA_DataTypeKind \<Rightarrow> UA_value list \<Rightarrow> 32 word list \<Rightarrow> UA_Variant \<Rightarrow> bool" where
  "array_of k xs ds v \<longleftrightarrow> v_type v = Some (UA_TYPES k) \<and> v_arrayLength v = length xs
     \<and> v_data v = (if xs = [] then Sentinel else Heap xs)
     \<and> v_arrayDimensions v = (if ds = [] then Null else Heap ds) \<and> v_arrayDimensionsSize v = length ds
     \<and> wf_variant v"

lemma scalar_of_isScalar: "scalar_of x v \<Longrightarrow> isScalarValue v \<and> \<not> UaVariant_isArray v \<and> \<not> UaVariant_isMatrix v"
  by (simp add: scalar_of_def isScalarValue_def UaVariant_isArray_def UaVariant_isMatrix_def)

lemma scalar_of_type: "scalar_of x v \<Longrightarrow> UaVariant_type v = Inr (OpcUaType_of (value_kind x))"
  by (simp add: scalar_of_def UaVariant_type_def UA_TYPES_def UA_NODEID_NUMERIC_def OpcUaType_of_def)

lemma array_of_classes:
  "array_of k xs ds v \<Longrightarrow> \<not> isScalarValue v \<and> (UaVariant_isMatrix v \<longleftrightarrow> ds \<noteq> []) \<and> (UaVariant_isArray v \<longleftrightarrow> ds = [])"
  by (auto simp: array_of_def isScalarValue_def UaVariant_isArray_def UaVariant_isMatrix_def split: if_splits)

lemma array_of_read: "array_of k xs ds v \<Longrightarrow> read_range (v_data v) (v_arrayLength v) = Inr xs"
  by (auto simp: array_of_def)

lemma array_of_hasArrayType: "array_of k xs ds v \<Longrightarrow> UA_Variant_hasArrayType v (UA_TYPES k)"
  by (auto simp: array_of_def UA_Variant_hasArrayType_def UA_Variant_isScalar_def)

subsection \<open>The contract of an element type\<close>

text \<open>
  \<open>inj\<close> stores a C++ value as an element of the type \<open>kind\<close>, \<open>proj\<close> reads it back; copying
  such an element always succeeds, and every well-formed element of the kind is such a value.
\<close>

locale element_type =
  fixes kind :: UA_DataTypeKind
    and inj :: "'a \<Rightarrow> UA_value"
    and proj :: "UA_value \<Rightarrow> 'a option"
  assumes kind_inj: "value_kind (inj x) = kind"
    and proj_inj: "proj (inj x) = Some x"
    and copy_inj: "UA_copy al (inj x) = Inr (OpcUa_Good, inj x)"
    and wf_inj: "wf_value (inj x)"
    and inj_surj: "wf_value y \<Longrightarrow> value_kind y = kind \<Longrightarrow> \<exists>x. y = inj x"
begin

lemma copy_elems_inj: "copy_elems al (map inj xs) = Inr (OpcUa_Good, map inj xs)"
  by (induction xs) (simp_all add: copy_inj)

text \<open>The write of a scalar setter, in the three shapes of the variant.\<close>

lemma reuse_realloc:
  assumes "can_alloc al (kind_memSize kind)"
    and "v_data v = Null \<or> v_type v \<noteq> Some (UA_TYPES kind) \<or> 0 < v_arrayDimensionsSize v"
  shows "reuseOrRealloc al kind (inj x) v = (Inr (), UA_Variant_setScalar (inj x) (UA_TYPES kind))"
  using assms by (auto simp: reuseOrRealloc_def UA_Variant_setScalarCopy_def copy_inj UA_TYPES_def)

lemma reuse_overwrite:
  "reuseOrRealloc al kind (inj x) (UA_Variant (Some (UA_TYPES kind)) (Heap (y # ys)) n dims 0)
     = (Inr (), UA_Variant (Some (UA_TYPES kind)) (Heap (inj x # ys)) n dims 0)"
  by (simp add: reuseOrRealloc_def copy_inj)

lemma reuse_sentinel:
  "reuseOrRealloc al kind (inj x) (UA_Variant (Some (UA_TYPES kind)) Sentinel n dims 0)
     = (Inl (UB SentinelDeref), UA_Variant (Some (UA_TYPES kind)) Sentinel n dims 0)"
  by (simp add: reuseOrRealloc_def)

lemma setter_scalar:
  assumes "can_alloc al (kind_memSize kind)" "wf_variant v"
    and "\<not> UA_Variant_hasArrayType v (UA_TYPES kind) \<or> 0 < v_arrayDimensionsSize v"
  shows "\<exists>v'. reuseOrRealloc al kind (inj x) v = (Inr (), v') \<and> scalar_of (inj x) v'"
proof (cases "v_data v = Null \<or> v_type v \<noteq> Some (UA_TYPES kind) \<or> 0 < v_arrayDimensionsSize v")
  case True
  with assms(1) reuse_realloc show ?thesis
    by (simp add: scalar_of_def UA_Variant_setScalar_def wf_inj kind_inj)
next
  case False
  with assms(2,3) obtain y dims where v: "v = UA_Variant (Some (UA_TYPES kind)) (Heap [y]) 0 dims 0"
    by (cases v; cases "v_data v")
       (auto simp: UA_Variant_hasArrayType_def UA_Variant_isScalar_def length_Suc_conv split: if_splits)
  have "reuseOrRealloc al kind (inj x) v
      = (Inr (), UA_Variant (Some (UA_TYPES kind)) (Heap [inj x]) 0 dims 0)"
    unfolding v by (rule reuse_overwrite)
  moreover have "wf_array dims 0" using assms(2) v by simp
  ultimately show ?thesis by (simp add: scalar_of_def wf_inj kind_inj)
qed

lemma setter_wf:
  assumes "wf_variant v"
  shows "wf_variant (snd (reuseOrRealloc al kind (inj x) v))"
proof (cases "v_data v \<noteq> Null \<and> v_type v = Some (UA_TYPES kind) \<and> v_arrayDimensionsSize v = 0")
  case True
  with assms show ?thesis
    by (cases v; cases "v_data v"; cases "ptr_elems (v_data v)")
       (auto simp: reuseOrRealloc_def copy_inj wf_inj kind_inj)
next
  case False
  then show ?thesis
    by (auto simp: reuseOrRealloc_def UA_Variant_setScalarCopy_def copy_inj UA_Variant_clear_def
        UA_Variant_setScalar_def wf_inj kind_inj)
qed

text \<open>Reading a scalar without conversion.\<close>

lemma getter_same: "scalar_of (inj x) v \<Longrightarrow> write_out proj (toSimpleType nc kind v) out = (Inr OpcUa_Good, x)"
  by (simp add: scalar_of_def toSimpleType_def write_out_def proj_inj kind_inj)

text \<open>Arrays.\<close>

lemma set1DArray_ok:
  assumes "mem_ok al"
  shows "\<exists>v'. set1DArray al kind (map inj xs) v = (Inr (), v') \<and> array_of kind (map inj xs) [] v'"
  using assms
  by (auto simp: set1DArray_def array_of_def UA_Variant_setArray_def UA_Variant_setArrayCopy_def
      copy_elems_inj wf_inj kind_inj)

lemma copy_out_simple:
  "length out = length xs \<Longrightarrow> copy_out (put_simple proj) (map inj xs) out = (Inr (), xs)"
  by (induction xs arbitrary: out)
     (auto simp: put_simple_def assign_from_def as_simple_def proj_inj length_Suc_conv)

lemma copy_array_simple:
  "array_of kind (map inj xs) ds v \<Longrightarrow>
     copy_array (put_simple proj) (v_data v) (v_arrayLength v) (UaCompatArray_create T (v_arrayLength v)) = (Inr (), xs)"
  by (simp add: copy_array_def array_of_read copy_out_simple UaCompatArray_create_def)
     (simp add: array_of_def copy_out_simple)

lemma toArray_ok:
  "array_of kind (map inj xs) ds v \<Longrightarrow> toArray kind T (put_simple proj) v out = (Inr OpcUa_Good, xs)"
  by (simp add: toArray_def Let_def array_of_hasArrayType copy_array_simple)

lemma array_roundtrip:
  assumes "mem_ok al"
  shows "fst (set1DArray al kind (map inj xs) v) = Inr () \<and>
     toArray kind T (put_simple proj) (snd (set1DArray al kind (map inj xs) v)) out = (Inr OpcUa_Good, xs)"
  using set1DArray_ok [OF assms, of xs v] toArray_ok by fastforce

end

subsection \<open>Matrix dimensions\<close>

text \<open>The dimensions the library accepts for \<open>n\<close> elements.\<close>

definition valid_dimensions :: "nat \<Rightarrow> 32 word list \<Rightarrow> bool" where
  "valid_dimensions n ds \<longleftrightarrow> (if ds = [] then n = 0
     else list_all (\<lambda>d. 1 \<le> sint d) ds \<and> prod_list (map sint ds) = int n \<and> n < 2147483648)"

lemma sint32_less: "sint (d :: 32 word) < 2147483648"
  using sint_less [of d] by simp

lemma prod_list_pos: "list_all (\<lambda>d. 1 \<le> sint d) ds \<Longrightarrow> 1 \<le> prod_list (map sint (ds :: 32 word list))"
proof (induction ds)
  case (Cons d ds)
  then have "1 * 1 \<le> sint d * prod_list (map sint ds)" by (intro mult_mono) auto
  then show ?case by simp
qed simp

lemma mul_int64_small:
  "1 \<le> n \<Longrightarrow> n < 2147483648 \<Longrightarrow> 1 \<le> (d :: int) \<Longrightarrow> d \<le> 2147483648 \<Longrightarrow> mul_int64 n d = Inr (n * d)"
proof -
  assume "1 \<le> n" "n < 2147483648" "1 \<le> d" "d \<le> 2147483648"
  then have "0 \<le> n * d" "n * d \<le> 2147483648 * 2147483648"
    using mult_mono [of n 2147483648 d 2147483648] by simp_all
  then show ?thesis by (simp add: mul_int64_def in_int64_def)
qed

lemma validate_loop_spec:
  "1 \<le> n \<Longrightarrow> n < 2147483648 \<Longrightarrow>
     validate_loop n ds = Inr (if list_all (\<lambda>d. 1 \<le> sint d) ds \<and> n * prod_list (map sint ds) < 2147483648
       then Inr (n * prod_list (map sint ds)) else Inl OpcUa_BadInvalidArgument)"
proof (induction ds arbitrary: n)
  case (Cons d ds)
  show ?case
  proof (cases "1 \<le> sint d")
    case True
    have m: "mul_int64 n (sint d) = Inr (n * sint d)"
      using Cons.prems True sint32_less [of d] by (intro mul_int64_small) auto
    have pos: "1 * 1 \<le> n * sint d" using Cons.prems True by (intro mult_mono) auto
    show ?thesis
    proof (cases "n * sint d < 2147483648")
      case lt: True
      then show ?thesis
        using Cons.IH [of "n * sint d"] pos True m by (auto simp: mult.assoc)
    next
      case False
      have "n * sint d * 1 \<le> n * sint d * prod_list (map sint ds)" if "list_all (\<lambda>d. 1 \<le> sint d) ds"
        using prod_list_pos [OF that] pos by (intro mult_left_mono) auto
      with False m True show ?thesis by (auto simp: mult.assoc)
    qed
  qed auto
qed simp

lemma validate_spec:
  assumes "n < 4294967296"
  shows "validateMatrixDimensions (word_of_nat n) ds
    = Inr (if valid_dimensions n ds then OpcUa_Good else OpcUa_BadInvalidArgument)"
proof -
  have u: "uint (word_of_nat n :: 32 word) = int n" "(word_of_nat n :: 32 word) = 0 \<longleftrightarrow> n = 0"
    using assms by (auto simp: unsigned_of_nat take_bit_nat_eq_self_iff word_of_nat_eq_0_iff dest: dvd_imp_le)
  show ?thesis
    using validate_loop_spec [of 1 ds] u
    by (cases "ds = []") (auto simp: validateMatrixDimensions_def valid_dimensions_def)
qed

lemma dimension_product_valid:
  "list_all (\<lambda>d. 1 \<le> sint d) ds \<Longrightarrow> 1 \<le> n \<Longrightarrow> n * prod_list (map sint ds) < 2147483648 \<Longrightarrow>
     dimension_product n ds = Inr (n * prod_list (map sint ds))"
proof (induction ds arbitrary: n)
  case (Cons d ds)
  have p: "1 \<le> prod_list (map sint ds)" using Cons.prems(1) by (intro prod_list_pos) simp
  have pos: "1 * 1 \<le> n * sint d" using Cons.prems by (intro mult_mono) auto
  have "n * 1 \<le> n * (sint d * prod_list (map sint ds))"
    using prod_list_pos [OF Cons.prems(1)] Cons.prems(2) by (intro mult_left_mono) auto
  then have n: "n < 2147483648" using Cons.prems(3) by simp
  have "uint d = sint d" using Cons.prems(1) using sint32_less [of d]
    by (simp add: uint_sint take_bit_int_eq_self_iff)
  moreover have "mul_int64 n (sint d) = Inr (n * sint d)"
    using Cons.prems n sint32_less [of d] by (intro mul_int64_small) auto
  ultimately show ?case
    using Cons.IH [of "n * sint d"] Cons.prems pos by (simp add: mult.assoc)
qed simp

lemma int64_of_size_small: "n < 2147483648 \<Longrightarrow> int64_of_size n = int n"
proof -
  assume n: "n < 2147483648"
  have "uint (word_of_nat n :: 64 word) = int n"
    using n by (simp add: unsigned_of_nat take_bit_nat_eq_self_iff)
  then show ?thesis using n by (simp add: int64_of_size_def sint_uint signed_take_bit_int_eq_self_iff)
qed

lemma matrix_elements_valid:
  assumes "array_of k xs ds v" "valid_dimensions (length xs) ds" "ds \<noteq> []"
  shows "matrix_elements v = Inr (int (length xs))"
  using assms dimension_product_valid [of ds 1] read_range_Heap [of ds]
  by (simp add: matrix_elements_def array_of_def valid_dimensions_def)

text \<open>Applying valid dimensions to a freshly set array.\<close>

lemma apply_dimensions_ok:
  assumes "mem_ok al" "array_of k xs [] v" "int (length ds) \<le> INT32_MAX"
  shows "\<exists>v'. applyMatrixDimensions al ds v = (Inr (), v') \<and> array_of k xs ds v'"
proof (cases "ds = []")
  case True
  with assms show ?thesis by (simp add: applyMatrixDimensions_def)
next
  case False
  with assms have "UA_Array_new al 4 (length ds) (0 :: 32 word) = Heap (replicate (length ds) 0)"
    by (intro UA_Array_new_ok) auto
  with assms(2) False show ?thesis
    by (cases v) (auto simp: applyMatrixDimensions_def array_of_def split: if_splits)
qed

text \<open>The matrix setters: rejected dimensions leave the variant alone, accepted ones are applied.\<close>

lemma set_matrix_bad:
  assumes "sz < 4294967296" "\<not> valid_dimensions sz ds"
  shows "set_matrix_with al setter sz ds v = (Inr OpcUa_BadInvalidArgument, v)"
  using assms by (simp add: set_matrix_with_def validate_spec)

lemma set_matrix_good:
  assumes "sz < 4294967296" "valid_dimensions sz ds" "mem_ok al" "int (length ds) \<le> INT32_MAX"
    and "\<exists>v1. setter v = (Inr (), v1) \<and> array_of k xs [] v1"
  shows "\<exists>v'. set_matrix_with al setter sz ds v = (Inr OpcUa_Good, v') \<and> array_of k xs ds v'"
proof -
  from assms(5) obtain v1 where v1: "setter v = (Inr (), v1)" "array_of k xs [] v1" by blast
  from apply_dimensions_ok [OF assms(3) v1(2) assms(4)] obtain v'
    where "applyMatrixDimensions al ds v1 = (Inr (), v')" "array_of k xs ds v'" by blast
  with assms v1 show ?thesis by (simp add: set_matrix_with_def validate_spec)
qed

context element_type begin

lemma setMatrix_ok:
  assumes "length xs < 4294967296" "valid_dimensions (length xs) ds" "mem_ok al" "int (length ds) \<le> INT32_MAX"
  shows "\<exists>v'. setMatrix al kind (map inj xs) ds v = (Inr OpcUa_Good, v') \<and> array_of kind (map inj xs) ds v'"
  unfolding setMatrix_def length_map
  by (rule set_matrix_good [OF assms]) (rule set1DArray_ok [OF assms(3)])

lemma toMatrix_ok:
  assumes "array_of kind (map inj xs) ds v" "valid_dimensions (length xs) ds" "ds \<noteq> []"
  shows "toMatrix kind T (put_simple proj) v (out, dims) = (Inr OpcUa_Good, (xs, ds))"
proof -
  note cls = array_of_classes [OF assms(1)]
  note el = matrix_elements_valid [OF assms(1) _ assms(3)]
  have len: "v_arrayLength v = length xs" "v_type v = Some (UA_TYPES kind)"
    "read_range (v_arrayDimensions v) (v_arrayDimensionsSize v) = Inr ds"
    using assms by (auto simp: array_of_def)
  have copy: "copy_array (put_simple proj) (v_data v) (length xs) (UaCompatArray_create T (length xs)) = (Inr (), xs)"
    using copy_array_simple [OF assms(1)] len by simp
  have "length xs < 2147483648" using assms(2,3) by (simp add: valid_dimensions_def)
  then show ?thesis
    using cls el assms(2,3) len copy
    by (auto simp: toMatrix_def int64_of_size_small Let_def UaCompatArray_create_def)
qed

lemma matrix_roundtrip:
  assumes "length xs < 4294967296" "valid_dimensions (length xs) ds" "ds \<noteq> []" "mem_ok al"
    and "int (length ds) \<le> INT32_MAX"
  shows "fst (setMatrix al kind (map inj xs) ds v) = Inr OpcUa_Good \<and>
     toMatrix kind T (put_simple proj) (snd (setMatrix al kind (map inj xs) ds v)) (out, dims)
       = (Inr OpcUa_Good, (xs, ds))"
  using setMatrix_ok [OF assms(1,2,4,5), of v] toMatrix_ok [OF _ assms(2,3)] by fastforce

end

subsection \<open>The contract of a complex element type\<close>

text \<open>
  \<open>impl\<close> is the C++ object's \<open>impl()\<close>, \<open>mk\<close> the stack element of that content, \<open>cp\<close> the stack's copy
  function, \<open>put\<close> the assignment \<open>std::copy\<close> performs, \<open>blank\<close> the content of a default-constructed object.
\<close>

locale complex_type =
  fixes kind :: UA_DataTypeKind
    and obj :: "'s \<Rightarrow> 'e"
    and impl :: "'e \<Rightarrow> 's res"
    and mk :: "'s \<Rightarrow> UA_value"
    and cp :: "allocator \<Rightarrow> 's \<Rightarrow> (UA_StatusCode \<times> 's) res"
    and put :: "allocator \<Rightarrow> UA_value \<Rightarrow> ('e, unit) op"
    and wf :: "'s \<Rightarrow> bool"
    and blank :: 's
  assumes impl_obj: "impl (obj s) = Inr s"
    and cp_ok: "mem_ok al \<Longrightarrow> wf s \<Longrightarrow> cp al s = Inr (OpcUa_Good, s)"
    and put_ok: "mem_ok al \<Longrightarrow> wf s \<Longrightarrow> wf t \<Longrightarrow> put al (mk s) (obj t) = (Inr (), obj s)"
    and kind_mk: "value_kind (mk s) = kind"
    and wf_mk: "wf s \<Longrightarrow> wf_value (mk s)"
    and wf_blank: "wf blank"
begin

lemma copy_loop_ok:
  assumes "mem_ok al"
  shows "list_all wf ss \<Longrightarrow> length zs = length ss \<Longrightarrow>
     copy_loop (cp al) impl mk (map obj ss) (Heap (ys @ zs)) (length ys) = Inr (Heap (ys @ map mk ss))"
proof (induction ss arbitrary: ys zs)
  case (Cons s ss)
  then obtain z zs' where zs: "zs = z # zs'" by (cases zs) auto
  have "(ys @ zs)[length ys := mk s] = (ys @ [mk s]) @ zs'" by (simp add: zs)
  moreover have "isGood (UaStatus_of OpcUa_Good)" by (simp add: isGood_def UaStatus_of_def)
  moreover have "copy_loop (cp al) impl mk (map obj ss) (Heap ((ys @ [mk s]) @ zs')) (length (ys @ [mk s]))
      = Inr (Heap ((ys @ [mk s]) @ map mk ss))"
    using Cons.prems zs by (intro Cons.IH) auto
  ultimately show ?case
    using Cons.prems assms zs by (simp add: impl_obj cp_ok)
qed simp

lemma setComplex_ok:
  assumes "mem_ok al" "list_all wf ss" "int (length ss) \<le> INT32_MAX"
  shows "\<exists>v'. set1DArrayComplexTypes al kind (map obj ss) impl mk (cp al) v = (Inr (), v')
     \<and> array_of kind (map mk ss) [] v'"
proof (cases "ss = []")
  case True
  then show ?thesis
    by (simp add: set1DArrayComplexTypes_def UA_Variant_setArray_def array_of_def)
next
  case False
  with assms have new: "UA_Array_new al (kind_memSize kind) (length ss) (zero_value kind)
      = Heap (replicate (length ss) (zero_value kind))"
    by (intro UA_Array_new_ok) auto
  have "copy_loop (cp al) impl mk (map obj ss) (Heap ([] @ replicate (length ss) (zero_value kind))) (length ([] :: UA_value list))
      = Inr (Heap ([] @ map mk ss))"
    using assms by (intro copy_loop_ok) auto
  with new False show ?thesis
    using assms(2)
    by (auto simp: set1DArrayComplexTypes_def UA_Variant_setArray_def array_of_def kind_mk wf_mk list_all_iff)
qed

lemma copy_out_complex:
  assumes "mem_ok al"
  shows "list_all wf ss \<Longrightarrow> length ts = length ss \<Longrightarrow> list_all wf ts \<Longrightarrow>
     copy_out (put al) (map mk ss) (map obj ts) = (Inr (), map obj ss)"
  by (induction ss arbitrary: ts) (auto simp: assms put_ok length_Suc_conv)

lemma copy_array_complex:
  assumes "mem_ok al" "list_all wf ss" "array_of kind (map mk ss) ds v"
  shows "copy_array (put al) (v_data v) (v_arrayLength v) (UaCompatArray_create (obj blank) (v_arrayLength v))
     = (Inr (), map obj ss)"
proof -
  have "v_arrayLength v = length ss" using assms(3) by (simp add: array_of_def)
  then show ?thesis
    using copy_out_complex [OF assms(1,2), of "replicate (length ss) blank"] array_of_read [OF assms(3)]
    by (simp add: copy_array_def UaCompatArray_create_def map_replicate_const wf_blank list_all_iff)
qed

lemma toComplex_ok:
  assumes "mem_ok al" "list_all wf ss" "array_of kind (map mk ss) ds v"
  shows "toArray kind (obj blank) (put al) v out = (Inr OpcUa_Good, map obj ss)"
  by (simp add: toArray_def Let_def array_of_hasArrayType [OF assms(3)] copy_array_complex [OF assms])

lemma complex_roundtrip:
  assumes "mem_ok al" "list_all wf ss" "int (length ss) \<le> INT32_MAX"
  shows "fst (set1DArrayComplexTypes al kind (map obj ss) impl mk (cp al) v) = Inr () \<and>
     toArray kind (obj blank) (put al) (snd (set1DArrayComplexTypes al kind (map obj ss) impl mk (cp al) v)) out
       = (Inr OpcUa_Good, map obj ss)"
  using setComplex_ok [OF assms, of v] toComplex_ok [OF assms(1,2)] by fastforce

lemma complex_matrix_roundtrip:
  assumes "valid_dimensions (length ss) ds" "ds \<noteq> []" "mem_ok al"
    and "int (length ds) \<le> INT32_MAX" "list_all wf ss"
  shows "fst (setMatrixComplexTypes al kind (map obj ss) impl mk (cp al) ds v) = Inr OpcUa_Good \<and>
     toMatrix kind (obj blank) (put al)
       (snd (setMatrixComplexTypes al kind (map obj ss) impl mk (cp al) ds v)) (out, dims)
       = (Inr OpcUa_Good, (map obj ss, ds))"
proof -
  have len: "length ss < 2147483648" using assms(1,2) by (simp add: valid_dimensions_def)
  have "\<exists>v'. setMatrixComplexTypes al kind (map obj ss) impl mk (cp al) ds v = (Inr OpcUa_Good, v')
      \<and> array_of kind (map mk ss) ds v'"
    unfolding setMatrixComplexTypes_def length_map
    using len by (intro set_matrix_good [OF _ assms(1,3,4)] setComplex_ok assms) (auto simp: INT32_MAX_def)
  then obtain v' where v': "setMatrixComplexTypes al kind (map obj ss) impl mk (cp al) ds v = (Inr OpcUa_Good, v')"
    "array_of kind (map mk ss) ds v'" by blast
  have len': "v_arrayLength v' = length ss" "v_type v' = Some (UA_TYPES kind)"
    "read_range (v_arrayDimensions v') (v_arrayDimensionsSize v') = Inr ds"
    using v'(2) assms(2) by (auto simp: array_of_def)
  have "copy_array (put al) (v_data v') (length ss) (UaCompatArray_create (obj blank) (length ss)) = (Inr (), map obj ss)"
    using copy_array_complex [OF assms(3,5) v'(2)] len' by simp
  moreover have "matrix_elements v' = Inr (int (length ss))"
    using matrix_elements_valid [OF v'(2) _ assms(2)] assms(1) by simp
  ultimately show ?thesis
    using array_of_classes [OF v'(2)] len len' assms(2) v'(1)
    by (auto simp: toMatrix_def int64_of_size_small Let_def UaCompatArray_create_def)
qed

end

lemma kind_surj:
  "wf_value y \<Longrightarrow> value_kind y = BOOLEAN \<Longrightarrow> \<exists>x. y = VBool x"
  "wf_value y \<Longrightarrow> value_kind y = SBYTE \<Longrightarrow> \<exists>x. y = VSByte x"
  "wf_value y \<Longrightarrow> value_kind y = BYTE \<Longrightarrow> \<exists>x. y = VByte x"
  "wf_value y \<Longrightarrow> value_kind y = INT16 \<Longrightarrow> \<exists>x. y = VInt16 x"
  "wf_value y \<Longrightarrow> value_kind y = UINT16 \<Longrightarrow> \<exists>x. y = VUInt16 x"
  "wf_value y \<Longrightarrow> value_kind y = INT32 \<Longrightarrow> \<exists>x. y = VInt32 x"
  "wf_value y \<Longrightarrow> value_kind y = UINT32 \<Longrightarrow> \<exists>x. y = VUInt32 x"
  "wf_value y \<Longrightarrow> value_kind y = INT64 \<Longrightarrow> \<exists>x. y = VInt64 x"
  "wf_value y \<Longrightarrow> value_kind y = UINT64 \<Longrightarrow> \<exists>x. y = VUInt64 x"
  "wf_value y \<Longrightarrow> value_kind y = FLOAT \<Longrightarrow> \<exists>x. y = VFloat x"
  "wf_value y \<Longrightarrow> value_kind y = DOUBLE \<Longrightarrow> \<exists>x. y = VDouble x"
  by (cases y; simp add: modelled_kind_def)+

text \<open>The eleven simple types.\<close>

interpretation bool_t: element_type BOOLEAN VBool un_VBool
  by unfold_locales (simp_all add: un_VBool_def kind_surj)

interpretation sbyte_t: element_type SBYTE VSByte un_VSByte
  by unfold_locales (simp_all add: un_VSByte_def kind_surj)

interpretation byte_t: element_type BYTE VByte un_VByte
  by unfold_locales (simp_all add: un_VByte_def kind_surj)

interpretation int16_t: element_type INT16 VInt16 un_VInt16
  by unfold_locales (simp_all add: un_VInt16_def kind_surj)

interpretation uint16_t: element_type UINT16 VUInt16 un_VUInt16
  by unfold_locales (simp_all add: un_VUInt16_def kind_surj)

interpretation int32_t: element_type INT32 VInt32 un_VInt32
  by unfold_locales (simp_all add: un_VInt32_def kind_surj)

interpretation uint32_t: element_type UINT32 VUInt32 un_VUInt32
  by unfold_locales (simp_all add: un_VUInt32_def kind_surj)

interpretation int64_t: element_type INT64 VInt64 un_VInt64
  by unfold_locales (simp_all add: un_VInt64_def kind_surj)

interpretation uint64_t: element_type UINT64 VUInt64 un_VUInt64
  by unfold_locales (simp_all add: un_VUInt64_def kind_surj)

interpretation float_t: element_type FLOAT VFloat un_VFloat
  by unfold_locales (simp_all add: un_VFloat_def kind_surj)

interpretation double_t: element_type DOUBLE VDouble un_VDouble
  by unfold_locales (simp_all add: un_VDouble_def kind_surj)

text \<open>Strings, byte strings and variants.\<close>

interpretation string_t: complex_type STRING Live impl_of VString String_copy put_UaString wf_bstr UA_STRING_NULL
  by unfold_locales
     (simp_all add: impl_of_def String_copy_ok put_UaString_def assign_from_def as_simple_def un_VString_def
       UaString_assign_impl_def)

interpretation bytestring_t: complex_type BYTESTRING "\<lambda>s. s" Inr VByteString String_copy put_UaByteString wf_bstr
    UA_STRING_NULL
  by unfold_locales
     (simp_all add: String_copy_ok put_UaByteString_def assign_from_def as_simple_def un_VByteString_def
       UaByteString_fromStack_def UaByteString_new_def ua_bytestring.assign_other)

lemma UaVariant_fromStack_ok: "mem_ok al \<Longrightarrow> wf_variant v \<Longrightarrow> UaVariant_fromStack al v = Inr (Live v)"
  by (simp add: UaVariant_fromStack_def createAndCheckOpen62541Variant_def UA_Variant_copy_ok)

lemma UaVariant_assign_ok:
  "mem_ok al \<Longrightarrow> wf_variant w \<Longrightarrow> UaVariant_assign al (Some (Live w)) (Live v) = (Inr (), Live w)"
  by (simp add: UaVariant_assign_def destroyOpen62541Variant_def createAndCheckOpen62541Variant_def
      UA_Variant_copy_ok isGood_def UaStatus_of_def)

interpretation variant_t: complex_type VARIANT Live impl_of VVariant UA_Variant_copy put_UaVariant wf_variant
    UA_Variant_init
  by unfold_locales
     (simp_all add: impl_of_def UA_Variant_copy_ok put_UaVariant_def assign_from_def as_simple_def un_VVariant_def
       UaVariant_fromStack_ok UaVariant_assign_ok)

end
