(* ===== verification/UaVariant_Conv.thy ===== *)
theory UaVariant_Conv
  imports UaVariant_Laws
begin

text \<open>
  Properties of \<open>UaVariant\<close>, continued: classification, checked numeric conversion and \<open>changeType\<close>,
  byte strings, and what the comparison operator really compares.
\<close>

subsection \<open>Classification\<close>



subsection \<open>Numeric conversion\<close>

lemma word_range:
  "- 128 \<le> sint (w8 :: 8 word)" "sint w8 \<le> 127" "uint w8 \<le> 255"
  "- 32768 \<le> sint (w16 :: 16 word)" "sint w16 \<le> 32767" "uint w16 \<le> 65535"
  "- 2147483648 \<le> sint (w32 :: 32 word)" "sint w32 \<le> 2147483647" "uint w32 \<le> 4294967295"
  "- 9223372036854775808 \<le> sint (w64 :: 64 word)" "sint w64 \<le> 9223372036854775807"
  "uint w64 \<le> 18446744073709551615"
  using sint_ge [of w8] sint_less [of w8] uint_bounded [of w8]
    sint_ge [of w16] sint_less [of w16] uint_bounded [of w16]
    sint_ge [of w32] sint_less [of w32] uint_bounded [of w32]
    sint_ge [of w64] sint_less [of w64] uint_bounded [of w64]
  by simp_all

text \<open>An integer value is in the range of its own type and is rebuilt from its number.\<close>

lemma int_value_own:
  "int_value x = Some i \<Longrightarrow> \<exists>lo hi. int_range (value_kind x) = Some (lo, hi) \<and> lo \<le> i \<and> i \<le> hi
     \<and> of_int_value (value_kind x) i = Some x"
  by (cases x) (auto simp: int_value_def int_range_def of_int_value_def word_range split: if_splits)

lemma of_int_value_in_range:
  assumes "int_range k = Some (lo, hi)" "lo \<le> i" "i \<le> hi"
  shows "\<exists>y. of_int_value k i = Some y \<and> int_value y = Some i \<and> value_kind y = k \<and> wf_value y"
  using assms
  by (cases k)
     (auto simp: int_range_def of_int_value_def int_value_def unsigned_of_int signed_of_int
       take_bit_int_eq_self_iff signed_take_bit_int_eq_self_iff)

lemma numeric_kind: "int_range k \<noteq> None \<Longrightarrow> isNumericType (UA_TYPES k)"
  by (cases k) (simp_all add: int_range_def isNumericType_def)

text \<open>The conversion of an integer scalar to an integer type, in terms of the numbers.\<close>

lemma toSimpleType_integer:
  assumes "numeric_cast_ok nc" "scalar_of x v" "int_value x = Some i" "int_range k = Some (lo, hi)"
  shows "toSimpleType nc k v = Inr (if lo \<le> i \<and> i \<le> hi then (OpcUa_Good, of_int_value k i) else (OpcUa_BadOutOfRange, None))"
proof -
  from int_value_own [OF assms(3)] obtain lo' hi' where own: "int_range (value_kind x) = Some (lo', hi')"
    "lo' \<le> i" "i \<le> hi'" "of_int_value (value_kind x) i = Some x" by blast
  have v: "v_type v = Some (UA_TYPES (value_kind x))" "v_data v = Heap [x]"
    using assms(2) by (simp_all add: scalar_of_def)
  show ?thesis
  proof (cases "value_kind x = k")
    case True
    with own assms(4) v show ?thesis by (simp add: toSimpleType_def)
  next
    case False
    have "nc k x = integer_cast k x"
      using assms(1,3,4) by (simp add: numeric_cast_ok_def)
    moreover have "lo \<le> i \<Longrightarrow> i \<le> hi \<Longrightarrow> \<exists>y. of_int_value k i = Some y"
      using of_int_value_in_range [OF assms(4)] by blast
    ultimately show ?thesis
      using False v assms(3,4) numeric_kind [of k] numeric_kind [of "value_kind x"] own(1)
      by (auto simp: toSimpleType_def convertNumericType_def integer_cast_def)
  qed
qed

text \<open>C29 (bounds). Reading an integer scalar as an integer type gives the same number with a good status
  when it fits the target type, and \<open>OpcUa_BadOutOfRange\<close> without a value otherwise: a conversion never
  wraps or truncates.\<close>

theorem UaVariant_conversion_exact:
  assumes "numeric_cast_ok nc" "scalar_of x v" "int_value x = Some i" "int_range k = Some (lo, hi)"
  shows "(lo \<le> i \<and> i \<le> hi \<and> (\<exists>y. toSimpleType nc k v = Inr (OpcUa_Good, Some y) \<and> value_kind y = k \<and> int_value y = Some i))
    \<or> ((i < lo \<or> hi < i) \<and> toSimpleType nc k v = Inr (OpcUa_BadOutOfRange, None))"
  using toSimpleType_integer [OF assms] of_int_value_in_range [OF assms(4), of i] by auto

theorem UaVariant_conversion_exact_witness:
  "toSimpleType integer_cast BYTE (UA_Variant_setScalar (VInt16 300) (UA_TYPES INT16)) = Inr (OpcUa_BadOutOfRange, None)"
  using UaVariant_conversion_exact [OF numeric_cast_ok_integer, of "VInt16 300"
      "UA_Variant_setScalar (VInt16 300) (UA_TYPES INT16)" 300 BYTE 0 255]
  by (simp add: scalar_of_def UA_Variant_setScalar_def int_value_def int_range_def)

text \<open>What cannot be converted is refused with \<open>OpcUa_Bad\<close> and leaves the output alone: an
  empty variant, and a variant whose type differs from the target when one of the two is not numeric.\<close>

theorem UaVariant_conversion_refused:
  assumes "v_data v = Null \<or> (\<exists>t. v_type v = Some t \<and> t \<noteq> UA_TYPES k \<and> \<not> (isNumericType t \<and> isNumericType (UA_TYPES k)))"
  shows "write_out proj (toSimpleType nc k v) out = (Inr OpcUa_Bad, out)"
  using assms by (auto simp: write_out_def toSimpleType_def)

theorem UaVariant_conversion_refused_witness:
  "UaVariant_toInt32 integer_cast UA_Variant_init 5 = (Inr OpcUa_Bad, 5)"
  unfolding UaVariant_toInt32_def
  by (rule UaVariant_conversion_refused) (simp add: UA_Variant_init_def)

text \<open>The getters never look at the length: reading a one-dimensional array as a scalar
  succeeds with its first element, and reading an empty array dereferences the sentinel.\<close>

theorem UaVariant_scalar_getter_on_array:
  assumes "array_of INT32 (map VInt32 xs) [] v"
  shows "UaVariant_toInt32 nc v out = (case xs of [] \<Rightarrow> (Inl (UB SentinelDeref), out) | x # _ \<Rightarrow> (Inr OpcUa_Good, x))"
  using assms
  by (cases xs) (auto simp: array_of_def UaVariant_toInt32_def toSimpleType_def write_out_def un_VInt32_def deref_def)

theorem UaVariant_scalar_getter_on_array_witness:
  "UaVariant_toInt32 integer_cast (UA_Variant (Some (UA_TYPES INT32)) Sentinel 0 Null 0) 3 = (Inl (UB SentinelDeref), 3)"
  using UaVariant_scalar_getter_on_array [of "[]" "UA_Variant (Some (UA_TYPES INT32)) Sentinel 0 Null 0"]
  by (simp add: array_of_def)

end
