(* ===== verification/UaVariant_Compare.thy ===== *)
theory UaVariant_Compare
  imports UaVariant_Conv
begin

text \<open>
  Properties of \<open>UaVariant\<close>, concluded: byte strings, \<open>changeType\<close>, and what \<open>operator==\<close> compares.
\<close>

subsection \<open>Byte strings\<close>

lemma set_bytes_ok:
  assumes "mem_ok al" "wf_bstr out" "int (length xs) \<le> INT32_MAX"
  shows "set_bytes al (int (length xs)) (Heap xs) out
     = (Inr OpcUa_Good, \<lparr>bs_length = length xs, bs_data = (if xs = [] then Null else Heap xs)\<rparr>)"
  using setByteString_ok [OF assms] by (simp add: set_bytes_def)

lemma set_bytes_empty:
  "wf_bstr out \<Longrightarrow> set_bytes al 0 p out = (Inr OpcUa_Good, UA_STRING_NULL)"
  by (simp add: set_bytes_def UaByteString_setByteString_def release_wf UA_STRING_NULL_def size_of_int_def)

text \<open>\<open>toByteString\<close> returns the bytes of a scalar byte string and equally those of a
  one-dimensional or matrix byte array, as long as their number fits an \<open>int\<close>; the empty array gives the
  empty byte string instead of a pointer to the sentinel.\<close>

theorem UaVariant_toByteString_bytes:
  assumes "mem_ok al" "wf_bstr out" "wf_bstr s" "int (bs_length s) \<le> INT32_MAX"
    and "scalar_of (VByteString s) v"
    and "array_of BYTE (map VByte xs) ds w" "int (length xs) \<le> INT32_MAX"
  shows "\<exists>t u. UaVariant_toByteString al v out = (Inr OpcUa_Good, t) \<and> bstr_bytes t = bstr_bytes s \<and> wf_bstr t
    \<and> UaVariant_toByteString al w out = (Inr OpcUa_Good, u) \<and> bstr_bytes u = xs \<and> wf_bstr u"
proof -
  have v: "v_type v = Some (UA_TYPES BYTESTRING)" "v_data v = Heap [VByteString s]" "isScalarValue v"
    using assms(5) scalar_of_isScalar [OF assms(5)] by (simp_all add: scalar_of_def)
  have len: "int32_of_size (bs_length s) = int (bs_length s)" "int32_of_size (length xs) = int (length xs)"
    using assms(4,7) by (auto intro!: int32_of_size_small simp: INT32_MAX_def)
  have "\<exists>t. UaVariant_toByteString al v out = (Inr OpcUa_Good, t) \<and> bstr_bytes t = bstr_bytes s \<and> wf_bstr t"
  proof (cases "bs_data s")
    case (Heap ys)
    with assms(3) have ys: "bs_length s = length ys" "ys \<noteq> []" by (auto simp: wf_bstr_def)
    with assms(4) have "int (length ys) \<le> INT32_MAX" by simp
    from set_bytes_ok [OF assms(1,2) this] ys Heap v len show ?thesis
      by (simp add: UaVariant_toByteString_def bstr_bytes_def wf_bstr_def)
  qed (use assms(2,3) v len set_bytes_empty in
      \<open>simp_all add: UaVariant_toByteString_def bstr_bytes_def wf_bstr_def UA_STRING_NULL_def\<close>)
  moreover have "\<exists>u. UaVariant_toByteString al w out = (Inr OpcUa_Good, u) \<and> bstr_bytes u = xs \<and> wf_bstr u"
  proof (cases "xs = []")
    case True
    with assms(6) have w: "v_type w = Some (UA_TYPES BYTE)" "v_data w = Sentinel" "v_arrayLength w = 0"
      by (simp_all add: array_of_def)
    with True len array_of_classes [OF assms(6)] set_bytes_empty [OF assms(2)] show ?thesis
      by (simp add: UaVariant_toByteString_def)
  next
    case False
    with assms(6) have w: "v_type w = Some (UA_TYPES BYTE)" "v_data w = Heap (map VByte xs)" "v_arrayLength w = length xs"
      by (simp_all add: array_of_def)
    have "as_bytes (Heap (map VByte xs)) = Heap xs" by (simp add: as_bytes_def comp_def)
    with w False len array_of_classes [OF assms(6)] set_bytes_ok [OF assms(1,2,7)] show ?thesis
      by (simp add: UaVariant_toByteString_def bstr_bytes_def wf_bstr_def)
  qed
  ultimately show ?thesis by blast
qed

theorem UaVariant_toByteString_bytes_witness:
  "\<exists>u. UaVariant_toByteString enough_memory (UA_Variant (Some (UA_TYPES BYTE)) (Heap [VByte 5, VByte 6]) 2 Null 0) UA_STRING_NULL
     = (Inr OpcUa_Good, u) \<and> bstr_bytes u = [5, 6]"
  using UaVariant_toByteString_bytes [OF mem_ok_enough wf_bstr_null, of UA_STRING_NULL
      "UA_Variant_setScalar (VByteString UA_STRING_NULL) (UA_TYPES BYTESTRING)" "[5, 6]" "[]"
      "UA_Variant (Some (UA_TYPES BYTE)) (Heap [VByte 5, VByte 6]) 2 Null 0"]
  by (auto simp: array_of_def scalar_of_def UA_Variant_setScalar_def INT32_MAX_def)

subsection \<open>Changing the type\<close>

lemma isGood_simps [simp]: "isGood (UaStatus_of OpcUa_Good)" "\<not> isGood (UaStatus_of OpcUa_BadOutOfRange)"
  "\<not> isGood (UaStatus_of OpcUa_Bad)"
  by (simp_all add: isGood_def UaStatus_of_def)

context element_type begin

text \<open>One case of the switch, on an integer scalar.\<close>

lemma change_with_integer:
  assumes "numeric_cast_ok nc" "scalar_of x v" "int_value x = Some i" "int_range kind = Some (lo, hi)"
    and "value_kind x \<noteq> kind" "can_alloc al (kind_memSize kind)"
    and "\<And>w. getter w = write_out proj (toSimpleType nc kind w)"
    and "\<And>z w. setter z w = reuseOrRealloc al kind (inj z) w"
  shows "if lo \<le> i \<and> i \<le> hi
     then \<exists>y v'. change_with getter setter v0 v = (Inr OpcUa_Good, v') \<and> scalar_of y v' \<and> int_value y = Some i \<and> value_kind y = kind
     else change_with getter setter v0 v = (Inr OpcUa_BadOutOfRange, v)"
proof (cases "lo \<le> i \<and> i \<le> hi")
  case True
  with of_int_value_in_range [OF assms(4)] obtain y where y: "of_int_value kind i = Some y"
    "int_value y = Some i" "value_kind y = kind" "wf_value y" by blast
  from inj_surj [OF y(4,3)] obtain z where z: "y = inj z" by blast
  have "getter v v0 = (Inr OpcUa_Good, z)"
    using toSimpleType_integer [OF assms(1-4)] True y(1) z by (simp add: assms(7) write_out_def proj_inj)
  moreover have "\<not> UA_Variant_hasArrayType v (UA_TYPES kind)"
    using assms(2,5) by (simp add: scalar_of_def UA_Variant_hasArrayType_def)
  with setter_scalar [OF assms(6)] assms(2) obtain v' where "reuseOrRealloc al kind (inj z) v = (Inr (), v')"
    "scalar_of (inj z) v'" by (metis scalar_of_def)
  ultimately show ?thesis
    using True y z by (auto simp: change_with_def assms(8))
next
  case False
  then have "getter v v0 = (Inr OpcUa_BadOutOfRange, v0)"
    using toSimpleType_integer [OF assms(1-4)] by (auto simp: assms(7) write_out_def)
  with False show ?thesis by (auto simp: change_with_def)
qed

end

lemma OpcUaType_of_inj: "OpcUaType_of j = OpcUaType_of k \<longleftrightarrow> j = k"
  by (cases j; cases k) (simp_all add: OpcUaType_of_def)

text \<open>\<open>changeType\<close> of an integer scalar to another integer type keeps the number when it
  fits and leaves the variant untouched with \<open>OpcUa_BadOutOfRange\<close> when it does not.\<close>

theorem UaVariant_changeType_integer:
  assumes "numeric_cast_ok nc" "scalar_of x v" "int_value x = Some i" "int_range k = Some (lo, hi)"
    and "can_alloc al (kind_memSize k)"
  shows "if lo \<le> i \<and> i \<le> hi
     then \<exists>y v'. changeType nc pr al (OpcUaType_of k) False v = (Inr OpcUa_Good, v') \<and> scalar_of y v'
            \<and> int_value y = Some i \<and> value_kind y = k
     else changeType nc pr al (OpcUaType_of k) False v = (Inr OpcUa_BadOutOfRange, v)"
proof (cases "value_kind x = k")
  case True
  with int_value_own [OF assms(3)] assms(2-4) show ?thesis
    using scalar_of_type [OF assms(2)] by (auto simp: changeType_def)
next
  case False
  note simps = changeType_def scalar_of_type [OF assms(2)] OpcUaType_of_inj
  have "int_range k \<noteq> None" using assms(4) by simp
  then consider "k = BOOLEAN" | "k = SBYTE" | "k = BYTE" | "k = INT16" | "k = UINT16" | "k = INT32"
    | "k = UINT32" | "k = INT64" | "k = UINT64" by (cases k) (simp_all add: int_range_def)
  then show ?thesis
  proof cases
    case 1
    have "changeType nc pr al (OpcUaType_of k) False v = change_with (UaVariant_toBool nc) (UaVariant_setBool al) False v"
      using False by (simp add: simps 1)
    with bool_t.change_with_integer [OF assms(1-3), of lo hi al "UaVariant_toBool nc" "UaVariant_setBool al" False]
    show ?thesis using False assms(4,5) by (simp add: 1 UaVariant_toBool_def UaVariant_setBool_def fun_eq_iff)
  next
    case 2
    have "changeType nc pr al (OpcUaType_of k) False v = change_with (UaVariant_toSByte nc) (UaVariant_setSByte al) 0 v"
      using False by (simp add: simps 2)
    with sbyte_t.change_with_integer [OF assms(1-3), of lo hi al "UaVariant_toSByte nc" "UaVariant_setSByte al" 0]
    show ?thesis using False assms(4,5) by (simp add: 2 UaVariant_toSByte_def UaVariant_setSByte_def fun_eq_iff)
  next
    case 3
    have "changeType nc pr al (OpcUaType_of k) False v = change_with (UaVariant_toByte nc) (UaVariant_setByte al) 0 v"
      using False by (simp add: simps 3)
    with byte_t.change_with_integer [OF assms(1-3), of lo hi al "UaVariant_toByte nc" "UaVariant_setByte al" 0]
    show ?thesis using False assms(4,5) by (simp add: 3 UaVariant_toByte_def UaVariant_setByte_def fun_eq_iff)
  next
    case 4
    have "changeType nc pr al (OpcUaType_of k) False v = change_with (UaVariant_toInt16 nc) (UaVariant_setInt16 al) 0 v"
      using False by (simp add: simps 4)
    with int16_t.change_with_integer [OF assms(1-3), of lo hi al "UaVariant_toInt16 nc" "UaVariant_setInt16 al" 0]
    show ?thesis using False assms(4,5) by (simp add: 4 UaVariant_toInt16_def UaVariant_setInt16_def fun_eq_iff)
  next
    case 5
    have "changeType nc pr al (OpcUaType_of k) False v = change_with (UaVariant_toUInt16 nc) (UaVariant_setUInt16 al) 0 v"
      using False by (simp add: simps 5)
    with uint16_t.change_with_integer [OF assms(1-3), of lo hi al "UaVariant_toUInt16 nc" "UaVariant_setUInt16 al" 0]
    show ?thesis using False assms(4,5) by (simp add: 5 UaVariant_toUInt16_def UaVariant_setUInt16_def fun_eq_iff)
  next
    case 6
    have "changeType nc pr al (OpcUaType_of k) False v = change_with (UaVariant_toInt32 nc) (UaVariant_setInt32 al) 0 v"
      using False by (simp add: simps 6)
    with int32_t.change_with_integer [OF assms(1-3), of lo hi al "UaVariant_toInt32 nc" "UaVariant_setInt32 al" 0]
    show ?thesis using False assms(4,5) by (simp add: 6 UaVariant_toInt32_def UaVariant_setInt32_def fun_eq_iff)
  next
    case 7
    have "changeType nc pr al (OpcUaType_of k) False v = change_with (UaVariant_toUInt32 nc) (UaVariant_setUInt32 al) 0 v"
      using False by (simp add: simps 7)
    with uint32_t.change_with_integer [OF assms(1-3), of lo hi al "UaVariant_toUInt32 nc" "UaVariant_setUInt32 al" 0]
    show ?thesis using False assms(4,5) by (simp add: 7 UaVariant_toUInt32_def UaVariant_setUInt32_def fun_eq_iff)
  next
    case 8
    have "changeType nc pr al (OpcUaType_of k) False v = change_with (UaVariant_toInt64 nc) (UaVariant_setInt64 al) 0 v"
      using False by (simp add: simps 8)
    with int64_t.change_with_integer [OF assms(1-3), of lo hi al "UaVariant_toInt64 nc" "UaVariant_setInt64 al" 0]
    show ?thesis using False assms(4,5) by (simp add: 8 UaVariant_toInt64_def UaVariant_setInt64_def fun_eq_iff)
  next
    case 9
    have "changeType nc pr al (OpcUaType_of k) False v = change_with (UaVariant_toUInt64 nc) (UaVariant_setUInt64 al) 0 v"
      using False by (simp add: simps 9)
    with uint64_t.change_with_integer [OF assms(1-3), of lo hi al "UaVariant_toUInt64 nc" "UaVariant_setUInt64 al" 0]
    show ?thesis using False assms(4,5) by (simp add: 9 UaVariant_toUInt64_def UaVariant_setUInt64_def fun_eq_iff)
  qed
qed


theorem UaVariant_changeType_integer_witness:
  "changeType integer_cast (\<lambda>_. UA_STRING_NULL) enough_memory (OpcUaType_of SBYTE) False
     (UA_Variant_setScalar (VUInt32 200) (UA_TYPES UINT32))
   = (Inr OpcUa_BadOutOfRange, UA_Variant_setScalar (VUInt32 200) (UA_TYPES UINT32))"
  using UaVariant_changeType_integer [OF numeric_cast_ok_integer, of "VUInt32 200"
      "UA_Variant_setScalar (VUInt32 200) (UA_TYPES UINT32)" 200 SBYTE "- 128" 127 enough_memory "\<lambda>_. UA_STRING_NULL"]
  by (simp add: scalar_of_def UA_Variant_setScalar_def int_value_def int_range_def)

text \<open>\<open>changeType\<close> asked for a scalar accepts an array and reports success although only the
  first element survives: the other elements are dropped.\<close>

theorem UaVariant_changeType_drops_elements:
  assumes "numeric_cast_ok nc" "mem_ok al" "array_of INT32 (map VInt32 (x # xs)) [] v"
  shows "\<exists>v'. changeType nc pr al (OpcUaType_of INT64) False v = (Inr OpcUa_Good, v')
     \<and> scalar_of (VInt64 (word_of_int (sint x))) v'"
proof -
  have v: "v_type v = Some (UA_TYPES INT32)" "v_data v = Heap (VInt32 x # map VInt32 xs)" "wf_variant v"
    using assms(3) by (simp_all add: array_of_def)
  have "nc INT64 (VInt32 x) = integer_cast INT64 (VInt32 x)"
    using assms(1) by (simp add: numeric_cast_ok_def int_range_def int_value_def)
  also have "\<dots> = Some (VInt64 (word_of_int (sint x)))"
    using word_range(7,8) [of x] by (simp add: integer_cast_def int_range_def int_value_def of_int_value_def)
  finally have get: "UaVariant_toInt64 nc v 0 = (Inr OpcUa_Good, word_of_int (sint x))"
    using v by (simp add: UaVariant_toInt64_def toSimpleType_def convertNumericType_def isNumericType_def
        write_out_def un_VInt64_def)
  have "\<not> UA_Variant_hasArrayType v (UA_TYPES INT64)" using v by (simp add: UA_Variant_hasArrayType_def)
  with int64_t.setter_scalar [of al v] v(3) assms(2) obtain v'
    where "UaVariant_setInt64 al (word_of_int (sint x)) v = (Inr (), v')" "scalar_of (VInt64 (word_of_int (sint x))) v'"
    by (metis UaVariant_setInt64_def mem_okD)
  moreover have "UaVariant_type v = Inr (OpcUaType_of INT32)"
    using v by (simp add: UaVariant_type_def UA_TYPES_def UA_NODEID_NUMERIC_def OpcUaType_of_def)
  ultimately show ?thesis
    using get by (simp add: changeType_def OpcUaType_of_inj change_with_def)
qed

theorem UaVariant_changeType_drops_elements_witness:
  "\<exists>v'. changeType integer_cast (\<lambda>_. UA_STRING_NULL) enough_memory (OpcUaType_of INT64) False
      (UA_Variant (Some (UA_TYPES INT32)) (Heap [VInt32 1, VInt32 2]) 2 Null 0) = (Inr OpcUa_Good, v')
    \<and> scalar_of (VInt64 1) v'"
  using UaVariant_changeType_drops_elements [OF numeric_cast_ok_integer mem_ok_enough, of 1 "[2]"
      "UA_Variant (Some (UA_TYPES INT32)) (Heap [VInt32 1, VInt32 2]) 2 Null 0"]
  by (simp add: array_of_def)

subsection \<open>Comparison\<close>

lemma dims_differ_nth:
  "length ds = i + m \<Longrightarrow> length es = i + m \<Longrightarrow>
     dims_differ (Heap ds) (Heap es) i m = Inr (drop i ds \<noteq> drop i es)"
proof (induction m arbitrary: i)
  case (Suc m)
  then have "drop i ds = ds ! i # drop (i + 1) ds" "drop i es = es ! i # drop (i + 1) es"
    by (simp_all add: Cons_nth_drop_Suc)
  with Suc.IH [of "i + 1"] Suc.prems show ?case by (simp add: deref_def)
qed simp

lemma dims_differ_array:
  assumes "array_of k xs ds v" "array_of l ys es w" "length ds = length es"
  shows "dims_differ (v_arrayDimensions v) (v_arrayDimensions w) 0 (v_arrayDimensionsSize v) = Inr (ds \<noteq> es)"
proof -
  have "v_arrayDimensions v = (if ds = [] then Null else Heap ds)" "v_arrayDimensionsSize v = length ds"
    "v_arrayDimensions w = (if es = [] then Null else Heap es)"
    using assms(1,2) by (simp_all add: array_of_def)
  note sel = this
  show ?thesis
  proof (cases "ds = []")
    case True
    then have "es = []" using assms(3) by simp
    with True sel show ?thesis by simp
  next
    case False
    then have "es \<noteq> []" using assms(3) by (cases es) auto
    moreover have "dims_differ (Heap ds) (Heap es) 0 (length ds) = Inr (drop 0 ds \<noteq> drop 0 es)"
      by (rule dims_differ_nth) (simp_all only: add_0 assms(3))
    ultimately show ?thesis using False sel by simp
  qed
qed

lemma array_of_type: "array_of k xs ds v \<Longrightarrow> UaVariant_type v = Inr (OpcUaType_of k)"
  by (auto simp: array_of_def UaVariant_type_def UA_TYPES_def UA_NODEID_NUMERIC_def OpcUaType_of_def)

text \<open>\<open>operator==\<close> compares \<open>arrayLength\<close> bytes, and a scalar has array length zero: any two
  scalars of one type other than String are equal, whatever their values.\<close>

theorem UaVariant_eq_ignores_scalars:
  assumes "scalar_of x v" "scalar_of y w" "value_kind x = value_kind y" "value_kind x \<noteq> STRING"
  shows "UaVariant_eq pr rep rep' al v w = Inr True"
  using assms scalar_of_type [OF assms(1)] scalar_of_type [OF assms(2)]
  by (simp add: UaVariant_eq_def scalar_of_def OpcUaType_of_inj mem_bytes_def)

theorem UaVariant_eq_ignores_scalars_witness:
  "UaVariant_eq (\<lambda>_. UA_STRING_NULL) (\<lambda>_. []) (\<lambda>_. []) enough_memory
     (UA_Variant_setScalar (VInt32 1) (UA_TYPES INT32)) (UA_Variant_setScalar (VInt32 2) (UA_TYPES INT32)) = Inr True"
  using UaVariant_eq_ignores_scalars [of "VInt32 1" "UA_Variant_setScalar (VInt32 1) (UA_TYPES INT32)"
      "VInt32 2" "UA_Variant_setScalar (VInt32 2) (UA_TYPES INT32)"]
  by (simp add: scalar_of_def UA_Variant_setScalar_def)

text \<open>\<open>operator==\<close> is right on scalar strings (it is the equality of the strings), on
  variants of different types (never equal) and on arrays and matrices of bytes (equal exactly when
  elements and dimensions are).\<close>

theorem UaVariant_eq_correct_cases:
  assumes "mem_ok al" "scalar_of (VString s) v" "scalar_of (VString t) w" "wf_bstr s" "wf_bstr t"
    and "scalar_of x a" "scalar_of y b" "value_kind x \<noteq> value_kind y"
    and "array_of BYTE (map VByte xs) ds c" "array_of BYTE (map VByte ys) es d"
  shows "UaVariant_eq pr rep rep' al v w = Inr (UA_String_equal s t)
    \<and> UaVariant_eq pr rep rep' al a b = Inr False
    \<and> UaVariant_eq pr rep rep' al c d = Inr (xs = ys \<and> ds = es)"
proof (intro conjI)
  have str: "UaVariant_toString pr al v = Inr (Live s)" "UaVariant_toString pr al w = Inr (Live t)"
    using assms(1-5) scalar_of_isScalar [OF assms(2)] scalar_of_isScalar [OF assms(3)]
    by (simp_all add: UaVariant_toString_def scalar_of_def UaVariant_isEmpty_def UA_Variant_isEmpty_def
        as_simple_def un_VString_def UaString_fromStack_def String_copy_ok)
  then show "UaVariant_eq pr rep rep' al v w = Inr (UA_String_equal s t)"
    using assms(2,3) scalar_of_type [OF assms(2)] scalar_of_type [OF assms(3)]
    by (simp add: UaVariant_eq_def scalar_of_def UaString_eq_def)
  show "UaVariant_eq pr rep rep' al a b = Inr False"
    using assms(8) scalar_of_type [OF assms(6)] scalar_of_type [OF assms(7)]
    by (simp add: UaVariant_eq_def OpcUaType_of_inj)
  have bytes: "concat (map (value_bytes r) (map VByte zs)) = zs" for r zs
    by (induction zs) (simp_all add: value_bytes_def)
  have mem: "mem_bytes r (v_data c) (length xs) = Inr xs" "mem_bytes r (v_data d) (length ys) = Inr ys" for r
    using assms(9,10) bytes read_range_Heap [of xs] read_range_Heap [of ys]
    by (auto simp: array_of_def mem_bytes_def)
  show "UaVariant_eq pr rep rep' al c d = Inr (xs = ys \<and> ds = es)"
  proof (cases "length xs = length ys \<and> length ds = length es")
    case True
    with mem assms(9,10) dims_differ_array [OF assms(9,10)] show ?thesis
      by (simp add: UaVariant_eq_def array_of_type [OF assms(9)] array_of_type [OF assms(10)] OpcUaType_of_inj)
         (auto simp: array_of_def)
  next
    case False
    with assms(9,10) show ?thesis
      by (auto simp: UaVariant_eq_def array_of_type [OF assms(9)] array_of_type [OF assms(10)] array_of_def)
  qed
qed

theorem UaVariant_eq_correct_cases_witness:
  "UaVariant_eq (\<lambda>_. UA_STRING_NULL) (\<lambda>_. []) (\<lambda>_. []) enough_memory
     (UA_Variant (Some (UA_TYPES BYTE)) (Heap [VByte 1, VByte 2]) 2 Null 0)
     (UA_Variant (Some (UA_TYPES BYTE)) (Heap [VByte 1, VByte 3]) 2 Null 0) = Inr False"
  using UaVariant_eq_correct_cases [OF mem_ok_enough, of UA_STRING_NULL
      "UA_Variant_setScalar (VString UA_STRING_NULL) (UA_TYPES STRING)" UA_STRING_NULL
      "UA_Variant_setScalar (VString UA_STRING_NULL) (UA_TYPES STRING)"
      "VInt32 1" "UA_Variant_setScalar (VInt32 1) (UA_TYPES INT32)"
      "VBool True" "UA_Variant_setScalar (VBool True) (UA_TYPES BOOLEAN)"
      "[1, 2]" "[]" "UA_Variant (Some (UA_TYPES BYTE)) (Heap [VByte 1, VByte 2]) 2 Null 0"
      "[1, 3]" "[]" "UA_Variant (Some (UA_TYPES BYTE)) (Heap [VByte 1, VByte 3]) 2 Null 0"]
  by (simp add: scalar_of_def array_of_def UA_Variant_setScalar_def)

text \<open>Two string arrays of one length compare equal whatever they contain, because both print
  as the same placeholder; and of an array of 4-byte integers only the first quarter is compared.\<close>

theorem UaVariant_eq_ignores_elements:
  assumes "mem_ok al" "array_of STRING ss [] v" "array_of STRING ts [] w" "length ss = length ts"
    and "array_of INT32 (map VInt32 xs) [] a" "array_of INT32 (map VInt32 ys) [] b" "length xs = length ys"
    and "take ((length xs + 3) div 4) xs = take ((length xs + 3) div 4) ys"
  shows "UaVariant_eq pr rep rep' al v w = Inr True \<and> UaVariant_eq pr rep rep' al a b = Inr True"
proof
  have "UaVariant_toString pr al v = UaString_fromChars al ''[array toString() not yet implemented]''"
    "UaVariant_toString pr al w = UaString_fromChars al ''[array toString() not yet implemented]''"
    using array_of_classes [OF assms(2)] array_of_classes [OF assms(3)] assms(2,3)
    by (simp_all add: UaVariant_toString_def array_of_def UaVariant_isEmpty_def UA_Variant_isEmpty_def)
  then show "UaVariant_eq pr rep rep' al v w = Inr True"
    using assms(1-4)
    by (simp add: UaVariant_eq_def array_of_type [OF assms(2)] array_of_type [OF assms(3)]
        UaString_fromChars_ok)
       (simp add: array_of_def UaString_eq_def)
  define m where "m = (length xs + 3) div 4"
  have m: "length xs \<le> 4 * m" "m \<le> length xs" unfolding m_def by simp_all
  have len4: "length (concat (map (value_bytes r) (map VInt32 zs))) = 4 * length zs" for r zs
    by (induction zs) (simp_all add: value_bytes_def word_bytes_def)
  have bytes: "concat (map (value_bytes r) (map VInt32 zs)) = concat (map (value_bytes r') (map VInt32 zs))" for r r' zs
    by (simp add: value_bytes_def comp_def)
  have prefix: "take (length xs) (concat (map (value_bytes r) (map VInt32 zs)))
      = take (length xs) (concat (map (value_bytes r) (map VInt32 (take m zs))))" if "length zs = length xs" for r zs
  proof -
    have "concat (map (value_bytes r) (map VInt32 zs))
        = concat (map (value_bytes r) (map VInt32 (take m zs))) @ concat (map (value_bytes r) (map VInt32 (drop m zs)))"
      by (metis append_take_drop_id concat_append map_append)
    then show ?thesis using m that len4 [of r "take m zs"] by simp
  qed
  have "take (length xs) (concat (map (value_bytes rep) (map VInt32 xs)))
      = take (length xs) (concat (map (value_bytes rep') (map VInt32 ys)))"
    using prefix [of xs rep] prefix [of ys rep'] assms(7,8) bytes [of rep _ rep'] unfolding m_def by metis
  moreover have "mem_bytes rep (v_data a) (length xs) = Inr (take (length xs) (concat (map (value_bytes rep) (map VInt32 xs))))"
    "mem_bytes rep' (v_data b) (length xs) = Inr (take (length xs) (concat (map (value_bytes rep') (map VInt32 ys))))"
    using assms(5-7) len4 [of rep xs] len4 [of rep' ys]
    by (auto simp: array_of_def mem_bytes_def read_range_def)
  ultimately show "UaVariant_eq pr rep rep' al a b = Inr True"
    using assms(5-7)
    by (simp add: UaVariant_eq_def array_of_type [OF assms(5)] array_of_type [OF assms(6)] OpcUaType_of_inj)
       (simp add: array_of_def)
qed

theorem UaVariant_eq_ignores_elements_witness:
  "UaVariant_eq (\<lambda>_. UA_STRING_NULL) (\<lambda>_. []) (\<lambda>_. []) enough_memory
     (UA_Variant (Some (UA_TYPES INT32)) (Heap [VInt32 1, VInt32 2]) 2 Null 0)
     (UA_Variant (Some (UA_TYPES INT32)) (Heap [VInt32 1, VInt32 9]) 2 Null 0) = Inr True"
  using UaVariant_eq_ignores_elements [OF mem_ok_enough, of "[]" "UA_Variant (Some (UA_TYPES STRING)) Sentinel 0 Null 0"
      "[]" "UA_Variant (Some (UA_TYPES STRING)) Sentinel 0 Null 0"
      "[1, 2]" "UA_Variant (Some (UA_TYPES INT32)) (Heap [VInt32 1, VInt32 2]) 2 Null 0"
      "[1, 9]" "UA_Variant (Some (UA_TYPES INT32)) (Heap [VInt32 1, VInt32 9]) 2 Null 0"]
  by (simp add: array_of_def)

end
