(* ===== verification/UA_Calendar.thy ===== *)
theory UA_Calendar
  imports Compat_Prelude
begin

text \<open>
  The calendar of the bundled stack: \<open>musl_secs_to_tm\<close>, \<open>musl_tm_to_secs\<close> and the conversions between
  \<open>UA_DateTime\<close> and its broken-down form. The integers are C's, with division towards zero; the guard of
  \<open>musl_secs_to_tm\<close> keeps every intermediate value within its type. The years are compared with the rule of the
  Gregorian calendar.
\<close>

subsection \<open>Broken-down time\<close>

record musl_tm =
  tm_sec :: int
  tm_min :: int
  tm_hour :: int
  tm_mday :: int
  tm_mon :: int
  tm_year :: int
  tm_wday :: int
  tm_yday :: int

definition musl_tm_zero :: musl_tm where
  "musl_tm_zero = \<lparr>tm_sec = 0, tm_min = 0, tm_hour = 0, tm_mday = 0, tm_mon = 0, tm_year = 0, tm_wday = 0, tm_yday = 0\<rparr>"

definition LEAPOCH :: int where "LEAPOCH = 946684800 + 86400 * (31 + 29)"
definition DAYS_PER_400Y :: int where "DAYS_PER_400Y = 365 * 400 + 97"
definition DAYS_PER_100Y :: int where "DAYS_PER_100Y = 365 * 100 + 24"
definition DAYS_PER_4Y :: int where "DAYS_PER_4Y = 365 * 4 + 1"

definition days_in_month :: "int list" where
  "days_in_month = [31, 30, 31, 30, 31, 31, 30, 31, 30, 31, 31, 29]"

text \<open>\<open>if (r < 0) { r += b; --q; }\<close> and \<open>if (n == k) --n;\<close>.\<close>

definition borrow :: "int \<Rightarrow> int \<Rightarrow> int \<Rightarrow> int \<times> int" where
  "borrow q r b = (if r < 0 then (q - 1, r + b) else (q, r))"

definition cap :: "int \<Rightarrow> int \<Rightarrow> int" where
  "cap n k = (if n = k then n - 1 else n)"

text \<open>The loop over the months; the table is read past its end if the days exceed a year.\<close>

fun month_loop :: "int list \<Rightarrow> int \<Rightarrow> int \<Rightarrow> (int \<times> int) res" where
  "month_loop [] months remdays = Inl (UB OutOfBounds)"
| "month_loop (d # ds) months remdays = (if d \<le> remdays then month_loop ds (months + 1) (remdays - d) else Inr (months, remdays))"

text \<open>Centuries, leap cycles and years within 400 years from the first of March 2000, and the days left in the year.\<close>

definition year_cycles :: "int \<Rightarrow> int \<times> int \<times> int \<times> int" where
  "year_cycles remdays0 =
     (let c_cycles = cap (trunc_div remdays0 DAYS_PER_100Y) 4;
          remdays1 = remdays0 - c_cycles * DAYS_PER_100Y;
          q_cycles = cap (trunc_div remdays1 DAYS_PER_4Y) 25;
          remdays2 = remdays1 - q_cycles * DAYS_PER_4Y;
          remyears = cap (trunc_div remdays2 365) 4
      in (c_cycles, q_cycles, remyears, remdays2 - remyears * 365))"

definition musl_secs_to_tm :: "int \<Rightarrow> musl_tm \<Rightarrow> (int \<times> musl_tm) res" where
  "musl_secs_to_tm t tm =
     (if t < - 2147483648 * 31622400 \<or> t > 2147483647 * 31622400 then Inr (- 1, tm)
      else
        (let secs = t - LEAPOCH;
             (days, remsecs) = borrow (trunc_div secs 86400) (trunc_mod secs 86400) 86400;
             wday = snd (borrow 0 (trunc_mod (3 + days) 7) 7);
             (qc_cycles, remdays0) = borrow (trunc_div days DAYS_PER_400Y) (trunc_mod days DAYS_PER_400Y) DAYS_PER_400Y;
             (c_cycles, q_cycles, remyears, remdays3) = year_cycles remdays0;
             leap = (if remyears = 0 \<and> (q_cycles \<noteq> 0 \<or> c_cycles = 0) then 1 else 0);
             yday0 = remdays3 + 31 + 28 + leap;
             yday = (if yday0 \<ge> 365 + leap then yday0 - (365 + leap) else yday0);
             years = remyears + 4 * q_cycles + 100 * c_cycles + 400 * qc_cycles
         in bind_res (month_loop days_in_month 0 remdays3) (\<lambda>(months0, remdays).
              let (months, years') = (if months0 \<ge> 10 then (months0 - 12, years + 1) else (months0, years))
              in if years' + 100 > 2147483647 \<or> years' + 100 < - 2147483648 then Inr (- 1, tm)
                 else Inr (0, tm\<lparr>tm_year := years' + 100, tm_mon := months + 2, tm_mday := remdays + 1, tm_wday := wday,
                        tm_yday := yday, tm_hour := trunc_div remsecs 3600,
                        tm_min := trunc_mod (trunc_div remsecs 60) 60, tm_sec := trunc_mod remsecs 60\<rparr>))))"

definition secs_through_month :: "int list" where
  "secs_through_month = [0, 31 * 86400, 59 * 86400, 90 * 86400, 120 * 86400, 151 * 86400, 181 * 86400, 212 * 86400,
     243 * 86400, 273 * 86400, 304 * 86400, 334 * 86400]"

definition musl_month_to_secs :: "int \<Rightarrow> bool \<Rightarrow> int res" where
  "musl_month_to_secs month is_leap =
     (if 0 \<le> month \<and> nat month < length secs_through_month
      then Inr (secs_through_month ! nat month + (if is_leap \<and> month \<ge> 2 then 86400 else 0)) else Inl (UB OutOfBounds))"

text \<open>The centuries, the leap years since the last of them and whether the year is a leap year, within 400 years.\<close>

definition year_in_cycle :: "int \<Rightarrow> int \<times> int \<times> bool" where
  "year_in_cycle rem =
     (if rem = 0 then (0, 0, True)
      else
        (let (centuries, rem') =
               (if rem \<ge> 200 then (if rem \<ge> 300 then (3, rem - 300) else (2, rem - 200))
                else if rem \<ge> 100 then (1, rem - 100) else (0, rem))
         in if rem' = 0 then (centuries, 0, False)
            else (centuries, trunc_div rem' 4, trunc_mod rem' 4 = 0)))"

text \<open>Seconds up to the first of January, and whether the year is a leap year.\<close>

definition musl_year_to_secs :: "int \<Rightarrow> int \<times> bool" where
  "musl_year_to_secs year =
     (if (year - 2) mod 2 ^ 64 \<le> 136 then
        (let leaps = (year - 68) div 4; is_leap = ((year - 68) mod 4 = 0)
         in (31536000 * (year - 70) + 86400 * (if is_leap then leaps - 1 else leaps), is_leap))
      else
        (let (cycles, rem) = borrow (trunc_div (year - 100) 400) (trunc_mod (year - 100) 400) 400;
             (centuries, leaps, is_leap) = year_in_cycle rem;
             leaps' = leaps + 97 * cycles + 24 * centuries - (if is_leap then 1 else 0)
         in ((year - 100) * 31536000 + leaps' * 86400 + 946684800 + 86400, is_leap)))"

definition musl_tm_to_secs :: "musl_tm \<Rightarrow> int res" where
  "musl_tm_to_secs tm =
     (let (month, year) =
            (if tm_mon tm \<ge> 12 \<or> tm_mon tm < 0 then
               (let (adj, m) = borrow (trunc_div (tm_mon tm) 12) (trunc_mod (tm_mon tm) 12) 12 in (m, tm_year tm + adj))
             else (tm_mon tm, tm_year tm));
          (t, is_leap) = musl_year_to_secs year
      in bind_res (musl_month_to_secs month is_leap) (\<lambda>ms.
           Inr (t + ms + 86400 * (tm_mday tm - 1) + 3600 * tm_hour tm + 60 * tm_min tm + tm_sec tm)))"

subsection \<open>Division towards zero\<close>

lemma trunc_div_pos: "0 < b \<Longrightarrow> trunc_div a b = (if 0 \<le> a then a div b else - ((- a) div b))"
  by (auto simp: trunc_div_def sgn_if)

lemma trunc_div_nonneg [simp]: "0 \<le> a \<Longrightarrow> 0 < b \<Longrightarrow> trunc_div a b = a div b"
  by (simp add: trunc_div_pos)

lemma trunc_mod_nonneg [simp]: "0 \<le> a \<Longrightarrow> 0 < b \<Longrightarrow> trunc_mod a b = a mod b"
  by (simp add: trunc_mod_def minus_mult_div_eq_mod)

text \<open>Division towards zero followed by a borrow is division towards minus infinity.\<close>

lemma borrow_floor:
  assumes "0 < b"
  shows "borrow (trunc_div a b) (trunc_mod a b) b = (a div b, a mod b)"
proof -
  have r: "0 \<le> a mod b" "a mod b < b" "a - b * (a div b) = a mod b"
    using assms by (simp_all add: minus_mult_div_eq_mod)
  have "(- a) div b = (if a mod b = 0 then - (a div b) else - (a div b) - 1)"
    using assms by (simp add: zdiv_zminus1_eq_if)
  then have "trunc_div a b = (if 0 \<le> a \<or> a mod b = 0 then a div b else a div b + 1)"
    using assms by (simp add: trunc_div_pos)
  moreover have "a - b * (a div b + 1) = a mod b - b" using r(3) by (simp add: distrib_left)
  ultimately have "trunc_mod a b = (if 0 \<le> a \<or> a mod b = 0 then a mod b else a mod b - b)"
    using r(3) by (simp add: trunc_mod_def)
  with \<open>trunc_div a b = _\<close> r(1,2) show ?thesis by (auto simp: borrow_def)
qed

subsection \<open>The Gregorian calendar\<close>

definition leap_year :: "int \<Rightarrow> bool" where
  "leap_year y \<longleftrightarrow> y mod 4 = 0 \<and> (y mod 100 \<noteq> 0 \<or> y mod 400 = 0)"

text \<open>Days from the first of January 1970 to the first of January of a year.\<close>

definition new_year :: "int \<Rightarrow> int" where
  "new_year y = 365 * (y - 1970) + (y - 1) div 4 - (y - 1) div 100 + (y - 1) div 400 - 477"

lemma new_year_1970: "new_year 1970 = 0"
  by (simp add: new_year_def)

lemma div_step:
  fixes y b :: int
  assumes "0 < b"
  shows "y div b = (y - 1) div b + (if y mod b = 0 then 1 else 0)"
proof -
  have y: "y = b * (y div b) + y mod b" "0 \<le> y mod b" "y mod b < b" using assms by simp_all
  show ?thesis
  proof (cases "y mod b = 0")
    case True
    then have "y - 1 = b * (y div b - 1) + (b - 1)" using y(1) by (simp add: right_diff_distrib)
    then have "(y - 1) div b = y div b - 1" by (rule int_div_pos_eq) (use assms in auto)
    then show ?thesis using True by simp
  next
    case False
    have "y - 1 = b * (y div b) + (y mod b - 1)" using y(1) by simp
    then have "(y - 1) div b = y div b" by (rule int_div_pos_eq) (use False y in auto)
    then show ?thesis using False by simp
  qed
qed

text \<open>Quotients and remainders under names of their own, so that arithmetic does not split them.\<close>

lemma new_year_Suc: "new_year (y + 1) = new_year y + (if leap_year y then 366 else 365)"
proof -
  define A B C where "A = (y - 1) div 4" and "B = (y - 1) div 100" and "C = (y - 1) div 400"
  define p q r where "p = (y mod 4 = 0)" and "q = (y mod 100 = 0)" and "r = (y mod 400 = 0)"
  have imp: "r \<Longrightarrow> q" "q \<Longrightarrow> p"
    unfolding p_def q_def r_def mod_eq_0_iff_dvd by (auto elim: dvd_trans [rotated])
  have "new_year (y + 1) = 365 * (y - 1970) + 365 + y div 4 - y div 100 + y div 400 - 477"
    by (simp add: new_year_def)
  also have "\<dots> = 365 * (y - 1970) + 365 + (A + (if p then 1 else 0)) - (B + (if q then 1 else 0)) + (C + (if r then 1 else 0)) - 477"
    unfolding A_def B_def C_def p_def q_def r_def
    by (simp only: div_step [of 4 y] div_step [of 100 y] div_step [of 400 y] zero_less_numeral)
  also have "\<dots> = 365 * (y - 1970) + A - B + C - 477 + (if p \<and> (\<not> q \<or> r) then 366 else 365)"
    using imp by (cases p; cases q; cases r) simp_all
  finally show ?thesis
    by (simp only: new_year_def leap_year_def A_def B_def C_def p_def q_def r_def)
qed

text \<open>The code's year function is the calendar's.\<close>

lemma century_leaps:
  fixes r :: int
  assumes "0 \<le> r" "r < 400"
  shows "\<exists>centuries leaps. year_in_cycle r = (centuries, leaps, leap_year r)
    \<and> leaps + 24 * centuries - (if leap_year r then 1 else 0) = (r + 3) div 4 - (r + 99) div 100 + (r + 399) div 400 - 1"
proof -
  define Q P where "Q = r div 4" and "P = (r mod 4 = 0)"
  have q: "(r + 3) div 4 = Q + (if P then 0 else 1)" unfolding Q_def P_def by presburger
  have s: "(r - 100) div 4 = Q - 25" "(r - 200) div 4 = Q - 50" "(r - 300) div 4 = Q - 75"
    "(r - 100) mod 4 = 0 \<longleftrightarrow> P" "(r - 200) mod 4 = 0 \<longleftrightarrow> P" "(r - 300) mod 4 = 0 \<longleftrightarrow> P"
    unfolding Q_def P_def by presburger+
  have leap: "leap_year r \<longleftrightarrow> P \<and> (r mod 100 \<noteq> 0 \<or> r = 0)"
    using assms by (simp add: leap_year_def P_def)
  consider "r = 0" | "0 < r" "r < 100" | "r = 100" | "100 < r" "r < 200" | "r = 200" | "200 < r" "r < 300" | "r = 300" | "300 < r"
    using assms by linarith
  then show ?thesis
  proof cases
    case 2
    have "(r + 99) div 100 = 1" by (rule int_div_pos_eq [of _ _ _ "r - 1"]) (use 2 assms in auto)
    moreover have "(r + 399) div 400 = 1" by (rule int_div_pos_eq [of _ _ _ "r - 1"]) (use 2 assms in auto)
    moreover have "r mod 100 = r - 0" by (rule int_mod_pos_eq [of _ _ 0]) (use 2 assms in auto)
    ultimately show ?thesis using 2 by (simp add: year_in_cycle_def leap q s flip: Q_def P_def)
  next
    case 4
    have "(r + 99) div 100 = 2" by (rule int_div_pos_eq [of _ _ _ "r - 101"]) (use 4 assms in auto)
    moreover have "(r + 399) div 400 = 1" by (rule int_div_pos_eq [of _ _ _ "r - 1"]) (use 4 assms in auto)
    moreover have "r mod 100 = r - 100" by (rule int_mod_pos_eq [of _ _ 1]) (use 4 assms in auto)
    ultimately show ?thesis using 4 by (simp add: year_in_cycle_def leap q s flip: Q_def P_def)
  next
    case 6
    have "(r + 99) div 100 = 3" by (rule int_div_pos_eq [of _ _ _ "r - 201"]) (use 6 assms in auto)
    moreover have "(r + 399) div 400 = 1" by (rule int_div_pos_eq [of _ _ _ "r - 1"]) (use 6 assms in auto)
    moreover have "r mod 100 = r - 200" by (rule int_mod_pos_eq [of _ _ 2]) (use 6 assms in auto)
    ultimately show ?thesis using 6 by (simp add: year_in_cycle_def leap q s flip: Q_def P_def)
  next
    case 8
    have "(r + 99) div 100 = 4" by (rule int_div_pos_eq [of _ _ _ "r - 301"]) (use 8 assms in auto)
    moreover have "(r + 399) div 400 = 1" by (rule int_div_pos_eq [of _ _ _ "r - 1"]) (use 8 assms in auto)
    moreover have "r mod 100 = r - 300" by (rule int_mod_pos_eq [of _ _ 3]) (use 8 assms in auto)
    ultimately show ?thesis using 8 by (simp add: year_in_cycle_def leap q s flip: Q_def P_def)
  qed (simp_all add: year_in_cycle_def leap_year_def)
qed

lemma leap_year_period: "leap_year (400 * k + r) = leap_year r"
proof -
  have "(400 * k + r) mod 4 = r mod 4" using mod_mult_self4 [of 4 "100 * k" r] by simp
  moreover have "(400 * k + r) mod 100 = r mod 100" using mod_mult_self4 [of 100 "4 * k" r] by simp
  moreover have "(400 * k + r) mod 400 = r mod 400" by (rule mod_mult_self4)
  ultimately show ?thesis by (simp only: leap_year_def)
qed

lemma new_year_period: "new_year (2000 + 400 * c + r) =
   365 * (400 * c + r + 30) + 97 * c + 7 + (r + 3) div 4 - (r + 99) div 100 + (r + 399) div 400"
proof -
  have "2000 + 400 * c + r - 1 = 4 * (499 + 100 * c) + (r + 3)" "2000 + 400 * c + r - 1 = 100 * (19 + 4 * c) + (r + 99)"
    "2000 + 400 * c + r - 1 = 400 * (4 + c) + (r + 399)" by simp_all
  then have "(2000 + 400 * c + r - 1) div 4 = 499 + 100 * c + (r + 3) div 4"
    "(2000 + 400 * c + r - 1) div 100 = 19 + 4 * c + (r + 99) div 100"
    "(2000 + 400 * c + r - 1) div 400 = 4 + c + (r + 399) div 400"
    by (simp_all only: div_mult_self4 zero_neq_numeral [symmetric] not_False_eq_True)
  then show ?thesis unfolding new_year_def by (simp only:) (simp add: algebra_simps)
qed

lemma year_to_secs_near:
  assumes "2 \<le> y" "y \<le> 138"
  shows "musl_year_to_secs y = (86400 * new_year (y + 1900), leap_year (y + 1900))"
proof -
  define Q P where "Q = y div 4" and "P = (y mod 4 = 0)"
  have q: "(y + 1899) div 4 = Q + 474 + (if P then 0 else 1)" "(y - 68) div 4 = Q - 17" "(y - 68) mod 4 = 0 \<longleftrightarrow> P"
    "(y + 1900) mod 4 = 0 \<longleftrightarrow> P"
    unfolding Q_def P_def by presburger+
  have c: "(y + 1899) div 400 - (y + 1899) div 100 = - 15"
  proof (cases "y \<le> 100")
    case True
    have "(y + 1899) div 400 = 4" by (rule int_div_pos_eq [of _ _ _ "y + 299"]) (use True assms in auto)
    moreover have "(y + 1899) div 100 = 19" by (rule int_div_pos_eq [of _ _ _ "y - 1"]) (use True assms in auto)
    ultimately show ?thesis by simp
  next
    case False
    have "(y + 1899) div 400 = 5" by (rule int_div_pos_eq [of _ _ _ "y - 101"]) (use False assms in auto)
    moreover have "(y + 1899) div 100 = 20" by (rule int_div_pos_eq [of _ _ _ "y - 101"]) (use False assms in auto)
    ultimately show ?thesis by simp
  qed
  have leap: "leap_year (y + 1900) \<longleftrightarrow> P"
  proof (cases "y = 100")
    case True
    then show ?thesis by (simp add: leap_year_def P_def)
  next
    case False
    have "(y + 1900) mod 100 \<noteq> 0"
    proof (cases "y < 100")
      case True
      have "(y + 1900) mod 100 = y" by (rule int_mod_pos_eq [of _ _ 19]) (use True assms in auto)
      then show ?thesis using assms by simp
    next
      case False': False
      have "(y + 1900) mod 100 = y - 100" by (rule int_mod_pos_eq [of _ _ 20]) (use False' assms in auto)
      then show ?thesis using False by simp
    qed
    then show ?thesis by (simp add: leap_year_def q)
  qed
  have "(y - 2) mod 2 ^ 64 = y - 2" using assms by simp
  then have "musl_year_to_secs y = (31536000 * (y - 70) + 86400 * (if P then Q - 17 - 1 else Q - 17), P)"
    using assms by (simp add: musl_year_to_secs_def Let_def q)
  moreover have "new_year (y + 1900) = 365 * (y - 70) + (Q + 474 + (if P then 0 else 1)) + - 15 - 477"
  proof -
    define A B C where "A = (y + 1900 - 1) div 4" and "B = (y + 1900 - 1) div 100" and "C = (y + 1900 - 1) div 400"
    have "new_year (y + 1900) = 365 * (y + 1900 - 1970) + A - B + C - 477"
      by (simp only: new_year_def A_def B_def C_def)
    moreover have e: "y + 1900 - 1 = y + 1899" by simp
    have "A = Q + 474 + (if P then 0 else 1)" unfolding A_def e by (rule q(1))
    moreover have "C - B = - 15" unfolding B_def C_def e by (rule c)
    ultimately show ?thesis by simp
  qed
  ultimately show ?thesis by (simp add: leap)
qed

lemma year_to_secs:
  assumes "\<bar>y\<bar> \<le> 2 ^ 40"
  shows "musl_year_to_secs y = (86400 * new_year (y + 1900), leap_year (y + 1900))"
proof (cases "2 \<le> y \<and> y \<le> 138")
  case True
  then show ?thesis by (simp add: year_to_secs_near)
next
  case False
  define c r where "c = (y - 100) div 400" and "r = (y - 100) mod 400"
  have y: "y = 100 + 400 * c + r" by (simp add: c_def r_def)
  have r: "0 \<le> r" "r < 400" by (simp_all add: r_def)
  have far: "\<not> (y - 2) mod 2 ^ 64 \<le> 136"
  proof (cases "y < 2")
    case True
    have "(y - 2) mod 2 ^ 64 = y - 2 + 2 ^ 64" by (rule int_mod_pos_eq [of _ _ "- 1"]) (use True assms in simp_all)
    then show ?thesis using assms by simp
  next
    case y: False
    have "(y - 2) mod 2 ^ 64 = y - 2" by (rule int_mod_pos_eq [of _ _ 0]) (use y assms in simp_all)
    then show ?thesis using False y by simp
  qed
  from century_leaps [OF r] obtain k l where cyc: "year_in_cycle r = (k, l, leap_year r)"
    "l + 24 * k - (if leap_year r then 1 else 0) = (r + 3) div 4 - (r + 99) div 100 + (r + 399) div 400 - 1" by blast
  have b: "borrow (trunc_div (y - 100) 400) (trunc_mod (y - 100) 400) 400 = (c, r)"
    by (simp add: borrow_floor c_def r_def)
  have "musl_year_to_secs y =
      ((y - 100) * 31536000 + (l + 97 * c + 24 * k - (if leap_year r then 1 else 0)) * 86400 + 946684800 + 86400, leap_year r)"
    by (simp only: musl_year_to_secs_def far if_False b cyc(1) Let_def prod.case)
  moreover have "y + 1900 = 2000 + 400 * c + r" "leap_year (y + 1900) = leap_year r"
    using leap_year_period [of "5 + c" r] by (simp_all add: y algebra_simps)
  moreover have "l + 97 * c + 24 * k - (if leap_year r then 1 else 0)
      = 97 * c + ((r + 3) div 4 - (r + 99) div 100 + (r + 399) div 400) - 1" using cyc(2) by linarith
  ultimately show ?thesis by (simp only: new_year_period prod.inject) (simp add: y algebra_simps)
qed

subsection \<open>Days to dates\<close>

lemma cap_div:
  fixes r b k :: int
  assumes "0 \<le> r" "r \<le> k * b" "0 < b" "0 < k"
  shows "0 \<le> cap (r div b) k \<and> cap (r div b) k \<le> k - 1 \<and> 0 \<le> r - cap (r div b) k * b \<and> r - cap (r div b) k * b \<le> b
    \<and> (r - cap (r div b) k * b = b \<longrightarrow> cap (r div b) k = k - 1) \<and> (r < k * b \<longrightarrow> r - cap (r div b) k * b < b)"
proof -
  define q m where "q = r div b" and "m = r mod b"
  have r: "r = q * b + m" "0 \<le> m" "m < b" using assms by (simp_all add: q_def m_def)
  have q: "0 \<le> q" using assms by (simp add: q_def pos_imp_zdiv_nonneg_iff)
  have "q \<le> k" using zdiv_mono1 [OF assms(2,3)] assms(3) by (simp add: q_def)
  show ?thesis
  proof (cases "q = k")
    case True
    with r assms have "r = k * b" by (cases "m = 0") auto
    have e: "cap (r div b) k = k - 1" using True by (simp add: cap_def flip: q_def)
    have d: "r - (k - 1) * b = b" using \<open>r = k * b\<close> by (simp add: left_diff_distrib)
    show ?thesis unfolding e d using assms(3,4) \<open>r = k * b\<close> by simp
  next
    case False
    have e: "cap (r div b) k = q" using False by (simp add: cap_def flip: q_def)
    have d: "r - q * b = m" using r(1) by simp
    show ?thesis unfolding e d using False \<open>q \<le> k\<close> q r(2,3) by simp
  qed
qed

lemma year_cycles_bounds:
  assumes "0 \<le> r0" "r0 < 146097"
  obtains c q y r where "year_cycles r0 = (c, q, y, r)" "r0 = 36524 * c + 1461 * q + 365 * y + r"
    "0 \<le> c" "c \<le> 3" "0 \<le> q" "q \<le> 24" "0 \<le> y" "y \<le> 3" "0 \<le> r" "r \<le> 365"
    "r = 365 \<Longrightarrow> y = 3 \<and> (q < 24 \<or> c = 3)"
proof -
  define c where "c = cap (r0 div 36524) 4"
  define r1 where "r1 = r0 - c * 36524"
  define q where "q = cap (r1 div 1461) 25"
  define r2 where "r2 = r1 - q * 1461"
  define y where "y = cap (r2 div 365) 4"
  have c: "0 \<le> c" "c \<le> 3" "0 \<le> r1" "r1 \<le> 36524" "r1 = 36524 \<longrightarrow> c = 3"
    using cap_div [of r0 4 36524] assms by (auto simp: c_def r1_def)
  have q: "0 \<le> q" "q \<le> 24" "0 \<le> r2" "r2 < 1461"
    using cap_div [of r1 25 1461] c by (auto simp: q_def r2_def)
  have y: "0 \<le> y" "y \<le> 3" "0 \<le> r2 - y * 365" "r2 - y * 365 \<le> 365" "r2 - y * 365 = 365 \<longrightarrow> y = 3"
    using cap_div [of r2 4 365] q by (auto simp: y_def)
  have "r2 = 1460" if "r2 - y * 365 = 365" using that y by simp
  moreover have "r1 = 36524" if "r2 = 1460" "q = 24" using that by (simp add: r2_def)
  ultimately have "r2 - y * 365 = 365 \<Longrightarrow> y = 3 \<and> (q < 24 \<or> c = 3)" using y(5) q(2) c(5) by force
  moreover have "year_cycles r0 = (c, q, y, r2 - y * 365)"
    using assms(1) c(3) q(3) by (simp add: year_cycles_def DAYS_PER_100Y_def DAYS_PER_4Y_def Let_def c_def r1_def q_def r2_def y_def)
  moreover have "r0 = 36524 * c + 1461 * q + 365 * y + (r2 - y * 365)" by (simp add: r2_def r1_def)
  ultimately show ?thesis using c q y that by blast
qed

lemma month_loop_days:
  assumes "0 \<le> r" "r \<le> 365"
  obtains m d where "month_loop days_in_month 0 r = Inr (m, d)" "0 \<le> m" "m \<le> 11" "0 \<le> d" "d < days_in_month ! nat m"
    "86400 * (r - d) = (if m < 10 then secs_through_month ! nat (m + 2) - 59 * 86400 else secs_through_month ! nat (m - 10) + 306 * 86400)"
proof -
  have "\<exists>m d. month_loop days_in_month 0 r = Inr (m, d) \<and> 0 \<le> m \<and> m \<le> 11 \<and> 0 \<le> d \<and> d < days_in_month ! nat m
    \<and> 86400 * (r - d) = (if m < 10 then secs_through_month ! nat (m + 2) - 59 * 86400 else secs_through_month ! nat (m - 10) + 306 * 86400)"
    using assms by (simp add: days_in_month_def secs_through_month_def)
  then show ?thesis using that by blast
qed

text \<open>The broken-down form of a number of seconds, in the terms above.\<close>

lemma secs_to_tm_eq:
  assumes t: "\<bar>t\<bar> \<le> 10 ^ 15" and days: "days = (t - LEAPOCH) div 86400" and s: "s = (t - LEAPOCH) mod 86400"
    and cyc: "year_cycles (days mod 146097) = (c, q, y, r)" and loop: "month_loop days_in_month 0 r = Inr (m, d)"
    and N: "N = y + 4 * q + 100 * c + 400 * (days div 146097)" "\<bar>N\<bar> \<le> 10 ^ 9"
  shows "\<exists>wday yday. musl_secs_to_tm t tm = Inr (0, tm\<lparr>tm_year := (if m \<ge> 10 then N + 101 else N + 100),
    tm_mon := (if m \<ge> 10 then m - 10 else m + 2), tm_mday := d + 1, tm_wday := wday, tm_yday := yday,
    tm_hour := s div 3600, tm_min := s div 60 mod 60, tm_sec := s mod 60\<rparr>)"
proof -
  have range: "(t < - 2147483648 * 31622400 \<or> t > 2147483647 * 31622400) = False" using t by auto
  have far: "(N' + 100 > 2147483647 \<or> N' + 100 < - 2147483648) = False" if "N' = N \<or> N' = N + 1" for N'
    using N(2) that by auto
  have s0: "0 \<le> s" by (simp add: s)
  have b: "borrow (trunc_div (t - LEAPOCH) 86400) (trunc_mod (t - LEAPOCH) 86400) 86400 = (days, s)"
    "borrow (trunc_div days DAYS_PER_400Y) (trunc_mod days DAYS_PER_400Y) DAYS_PER_400Y = (days div 146097, days mod 146097)"
    by (simp_all add: borrow_floor days s DAYS_PER_400Y_def)
  show ?thesis
    unfolding musl_secs_to_tm_def range if_False Let_def b prod.case cyc loop bind_res_simps N(1) [symmetric]
    using s0 far [of N] far [of "N + 1"] by (cases "m \<ge> 10") (auto simp: add.commute)
qed

text \<open>A date of the calendar and a time of the day.\<close>

definition month_length :: "int \<Rightarrow> int \<Rightarrow> int" where
  "month_length year month = [31, if leap_year year then 29 else 28, 31, 30, 31, 30, 31, 31, 30, 31, 30, 31] ! nat month"

definition real_date :: "musl_tm \<Rightarrow> bool" where
  "real_date tm \<longleftrightarrow> 0 \<le> tm_mon tm \<and> tm_mon tm \<le> 11 \<and> 1 \<le> tm_mday tm \<and> tm_mday tm \<le> month_length (tm_year tm + 1900) (tm_mon tm)
     \<and> 0 \<le> tm_hour tm \<and> tm_hour tm \<le> 23 \<and> 0 \<le> tm_min tm \<and> tm_min tm \<le> 59 \<and> 0 \<le> tm_sec tm \<and> tm_sec tm \<le> 59"

text \<open>The first of January after \<open>N\<close> years of the era, against the days counted from March.\<close>

lemma new_year_march:
  assumes "0 \<le> y" "y \<le> 3" "0 \<le> q" "q \<le> 24" "0 \<le> c" "c \<le> 3"
  shows "new_year (2001 + (y + 4 * q + 100 * c + 400 * e)) = 146097 * e + 36524 * c + 1461 * q + 365 * y + 11323"
proof -
  define n where "n = 2001 + (y + 4 * q + 100 * c + 400 * e) - 1"
  have "n div 4 = q + 25 * c + 100 * e + 500" by (rule int_div_pos_eq [of _ _ _ y]) (use assms in \<open>simp_all add: n_def\<close>)
  moreover have "n div 100 = c + 4 * e + 20" by (rule int_div_pos_eq [of _ _ _ "y + 4 * q"]) (use assms in \<open>simp_all add: n_def\<close>)
  moreover have "n div 400 = e + 5" by (rule int_div_pos_eq [of _ _ _ "y + 4 * q + 100 * c"]) (use assms in \<open>simp_all add: n_def\<close>)
  ultimately show ?thesis unfolding new_year_def n_def [symmetric] by simp
qed

lemma leap_day:
  assumes "0 \<le> q" "q \<le> 24" "0 \<le> c" "c \<le> 3" "q < 24 \<or> c = 3"
  shows "leap_year (2001 + (3 + 4 * q + 100 * c + 400 * e))"
proof -
  have e: "2001 + (3 + 4 * q + 100 * c + 400 * e) = 400 * (e + 5) + (100 * c + 4 * (q + 1))" by simp
  have "leap_year (100 * c + 4 * (q + 1))"
  proof (cases "q = 24")
    case True
    then show ?thesis using assms by (simp add: leap_year_def)
  next
    case False
    have "(100 * c + 4 * (q + 1)) mod 100 = 4 * (q + 1)" by (rule int_mod_pos_eq [of _ _ c]) (use assms False in simp_all)
    moreover have "(100 * c + 4 * (q + 1)) mod 4 = 0" by presburger
    ultimately show ?thesis using assms by (simp add: leap_year_def)
  qed
  then show ?thesis unfolding e leap_year_period .
qed

lemma secs_of_day: "0 \<le> s \<Longrightarrow> 3600 * (s div 3600) + 60 * (s div 60 mod 60) + s mod 60 = s" for s :: int
proof -
  have "s div 60 div 60 = s div 3600" by (simp add: zdiv_zmult2_eq [symmetric])
  then have "60 * (s div 3600) + s div 60 mod 60 = s div 60" using mult_div_mod_eq [of 60 "s div 60"] by simp
  moreover have "60 * (s div 60) + s mod 60 = s" by simp
  ultimately show ?thesis by linarith
qed

lemma tm_to_secs_eq:
  assumes "0 \<le> tm_mon tm" "tm_mon tm \<le> 11" "\<bar>tm_year tm\<bar> \<le> 2 ^ 40"
  shows "musl_tm_to_secs tm = Inr (86400 * new_year (tm_year tm + 1900) + secs_through_month ! nat (tm_mon tm)
    + (if leap_year (tm_year tm + 1900) \<and> tm_mon tm \<ge> 2 then 86400 else 0)
    + 86400 * (tm_mday tm - 1) + 3600 * tm_hour tm + 60 * tm_min tm + tm_sec tm)"
proof -
  have "nat (tm_mon tm) < length secs_through_month" using assms by (simp add: secs_through_month_def)
  then show ?thesis using assms by (simp add: musl_tm_to_secs_def year_to_secs musl_month_to_secs_def)
qed

text \<open>The months of the loop, which count from March, are the months of the calendar.\<close>

lemma loop_month:
  assumes "0 \<le> m" "m \<le> 11" "0 \<le> d" "d < days_in_month ! nat m" "m = 11 \<Longrightarrow> d = 28 \<Longrightarrow> leap_year year"
  shows "1 \<le> d + 1 \<and> d + 1 \<le> month_length year (if m \<ge> 10 then m - 10 else m + 2)"
proof -
  have "m = 0 \<or> m = 1 \<or> m = 2 \<or> m = 3 \<or> m = 4 \<or> m = 5" if "m \<le> 5" using assms(1) that by linarith
  moreover have "m = 6 \<or> m = 7 \<or> m = 8 \<or> m = 9 \<or> m = 10 \<or> m = 11" if "\<not> m \<le> 5" using assms(2) that by linarith
  ultimately consider "m = 0" | "m = 1" | "m = 2" | "m = 3" | "m = 4" | "m = 5" | "m = 6" | "m = 7" | "m = 8" | "m = 9" | "m = 10" | "m = 11"
    by blast
  then show ?thesis
  proof cases
    case 12
    then show ?thesis using assms by (cases "d = 28") (auto simp: days_in_month_def month_length_def)
  qed (use assms in \<open>auto simp: days_in_month_def month_length_def\<close>)
qed

text \<open>
  The two directions of the calendar agree: every number of seconds (up to about 30 million years) has a
  real date, and the date is the number's.
\<close>

lemma secs_to_tm:
  assumes t: "\<bar>t\<bar> \<le> 10 ^ 15"
  obtains tm' where "musl_secs_to_tm t tm = Inr (0, tm')" "real_date tm'" "musl_tm_to_secs tm' = Inr t"
    "400 * ((t - LEAPOCH) div 86400 div 146097) \<le> tm_year tm' - 100" "tm_year tm' - 100 \<le> 400 * ((t - LEAPOCH) div 86400 div 146097) + 400"
proof -
  define days s where "days = (t - LEAPOCH) div 86400" and "s = (t - LEAPOCH) mod 86400"
  define e r0 where "e = days div 146097" and "r0 = days mod 146097"
  have s: "0 \<le> s" "s < 86400" and r0: "0 \<le> r0" "r0 < 146097" by (simp_all add: s_def r0_def)
  have tt: "t = LEAPOCH + 86400 * days + s" "days = 146097 * e + r0" by (simp_all add: days_def s_def e_def r0_def)
  from year_cycles_bounds [OF r0] obtain c q y r where cyc: "year_cycles r0 = (c, q, y, r)"
    "r0 = 36524 * c + 1461 * q + 365 * y + r" "0 \<le> c" "c \<le> 3" "0 \<le> q" "q \<le> 24" "0 \<le> y" "y \<le> 3" "0 \<le> r" "r \<le> 365"
    "r = 365 \<Longrightarrow> y = 3 \<and> (q < 24 \<or> c = 3)" by blast
  from month_loop_days [OF cyc(9,10)] obtain m d where md: "month_loop days_in_month 0 r = Inr (m, d)"
    "0 \<le> m" "m \<le> 11" "0 \<le> d" "d < days_in_month ! nat m"
    "86400 * (r - d) = (if m < 10 then secs_through_month ! nat (m + 2) - 59 * 86400 else secs_through_month ! nat (m - 10) + 306 * 86400)"
    by blast
  define N where "N = y + 4 * q + 100 * c + 400 * e"
  have e: "- 80001 \<le> e" "e \<le> 80001" using tt t s r0 by (auto simp: LEAPOCH_def)
  have N: "\<bar>N\<bar> \<le> 10 ^ 9" "400 * e \<le> N" "N \<le> 400 * e + 399" using cyc e by (auto simp: N_def)
  from secs_to_tm_eq [OF t days_def s_def cyc(1) [unfolded r0_def] md(1) N_def [unfolded e_def] N(1), of tm]
  obtain wd yd where res: "musl_secs_to_tm t tm = Inr (0, tm\<lparr>tm_year := (if m \<ge> 10 then N + 101 else N + 100),
    tm_mon := (if m \<ge> 10 then m - 10 else m + 2), tm_mday := d + 1, tm_wday := wd, tm_yday := yd,
    tm_hour := s div 3600, tm_min := s div 60 mod 60, tm_sec := s mod 60\<rparr>)" by blast
  define year where "year = (if m \<ge> 10 then N + 101 else N + 100)"
  define mon where "mon = (if m \<ge> 10 then m - 10 else m + 2)"
  have mon: "0 \<le> mon" "mon \<le> 11" using md(2,3) by (auto simp: mon_def)
  have year: "\<bar>year\<bar> \<le> 2 ^ 40" using N(1) by (auto simp: year_def)
  have ny: "new_year (2001 + N) = days - r + 11323"
    using new_year_march [OF cyc(7,8,5,6,3,4), of e] tt(2) cyc(2) unfolding N_def by simp
  have "leap_year (year + 1900)" if "m = 11" "d = 28"
  proof -
    have "r = 365" using md(6) that by (simp add: secs_through_month_def)
    then show ?thesis using leap_day [OF cyc(5,6,3,4)] cyc(11) that by (simp add: year_def N_def algebra_simps)
  qed
  from loop_month [OF md(2-5) this] have day: "1 \<le> d + 1" "d + 1 \<le> month_length (year + 1900) mon"
    by (simp_all add: mon_def)
  define tm' where "tm' = tm\<lparr>tm_year := year, tm_mon := mon, tm_mday := d + 1, tm_wday := wd, tm_yday := yd,
    tm_hour := s div 3600, tm_min := s div 60 mod 60, tm_sec := s mod 60\<rparr>"
  have res': "musl_secs_to_tm t tm = Inr (0, tm')" using res by (simp add: tm'_def year_def mon_def)
  have "s div 3600 \<le> 23" using zdiv_mono1 [of s 86399 3600] s by simp
  moreover have "x mod 60 \<le> 59" for x :: int using pos_mod_bound [of 60 x] by simp
  ultimately have real: "real_date tm'" using day mon s(1) by (simp add: real_date_def tm'_def pos_imp_zdiv_nonneg_iff)
  have "86400 * new_year (year + 1900) + secs_through_month ! nat mon + (if leap_year (year + 1900) \<and> mon \<ge> 2 then 86400 else 0)
      + 86400 * d = LEAPOCH + 86400 * days"
  proof (cases "m \<ge> 10")
    case True
    have "new_year (year + 1900) = days - r + 11323"
      using True ny by (simp add: year_def add.commute)
    then show ?thesis using True md(3,6) by (simp add: mon_def LEAPOCH_def)
  next
    case False
    have "new_year (year + 1900) = new_year (2000 + N)" "leap_year (year + 1900) = leap_year (2000 + N)"
      using False by (simp_all add: year_def add.commute)
    moreover have "new_year (2000 + N) + (if leap_year (2000 + N) then 366 else 365) = days - r + 11323"
      using ny new_year_Suc [of "2000 + N"] by (simp add: add.commute)
    moreover have "mon \<ge> 2" using False md(2) by (simp add: mon_def)
    ultimately show ?thesis using False md(6) by (cases "leap_year (2000 + N)") (simp_all add: mon_def LEAPOCH_def)
  qed
  then have "musl_tm_to_secs tm' = Inr t"
    using secs_of_day [OF s(1)] tt(1) mon year by (subst tm_to_secs_eq) (simp_all add: tm'_def)
  moreover have "400 * e \<le> year - 100" "year - 100 \<le> 400 * e + 400" using N(2,3) by (auto simp: year_def)
  ultimately show ?thesis using that [OF res' real] by (simp add: tm'_def e_def days_def)
qed

end
