(* ===== verification/UA_Dates.thy ===== *)
theory UA_Dates
  imports UA_Calendar UA_Stack
begin

text \<open>
  Dates in the bundled stack: a \<open>UA_DateTime\<close> is a signed 64-bit number of intervals of 100 nanoseconds since
  1601. Here are its conversion to and from the fields of a date and the parser of the text form. The only part
  left open is the fraction of a second, which the parser computes in floating point: the function \<open>ticks\<close>
  from the digits.
\<close>

definition UA_DATETIME_USEC :: int where "UA_DATETIME_USEC = 10"
definition UA_DATETIME_MSEC :: int where "UA_DATETIME_MSEC = 10000"
definition UA_DATETIME_SEC :: int where "UA_DATETIME_SEC = 10000000"
definition UA_DATETIME_UNIX_EPOCH :: int where "UA_DATETIME_UNIX_EPOCH = 11644473600 * UA_DATETIME_SEC"

lemmas datetime_units = UA_DATETIME_USEC_def UA_DATETIME_MSEC_def UA_DATETIME_SEC_def UA_DATETIME_UNIX_EPOCH_def

subsection \<open>Fields\<close>

record UA_DateTimeStruct =
  ds_nanoSec :: "16 word"
  ds_microSec :: "16 word"
  ds_milliSec :: "16 word"
  ds_sec :: "16 word"
  ds_min :: "16 word"
  ds_hour :: "16 word"
  ds_day :: "16 word"
  ds_month :: "16 word"
  ds_year :: "16 word"

definition UA_DateTime_toStruct :: "int \<Rightarrow> UA_DateTimeStruct res" where
  "UA_DateTime_toStruct t =
     (let (secSinceUnixEpoch, frac) = borrow (trunc_div t UA_DATETIME_SEC - trunc_div UA_DATETIME_UNIX_EPOCH UA_DATETIME_SEC)
            (trunc_mod t UA_DATETIME_SEC) UA_DATETIME_SEC
      in bind_res (musl_secs_to_tm secSinceUnixEpoch musl_tm_zero) (\<lambda>(_, ts).
           Inr \<lparr>ds_nanoSec = word_of_int (trunc_mod frac 10 * 100), ds_microSec = word_of_int (trunc_div (trunc_mod frac 10000) 10),
                ds_milliSec = word_of_int (trunc_div (trunc_mod frac 10000000) 10000), ds_sec = word_of_int (tm_sec ts),
                ds_min = word_of_int (tm_min ts), ds_hour = word_of_int (tm_hour ts), ds_day = word_of_int (tm_mday ts),
                ds_month = word_of_int (tm_mon ts + 1), ds_year = word_of_int (tm_year ts + 1900)\<rparr>))"

text \<open>The year is signed, the other fields are not.\<close>

definition struct_tm :: "UA_DateTimeStruct \<Rightarrow> musl_tm" where
  "struct_tm ts = musl_tm_zero\<lparr>tm_year := sint (ds_year ts) - 1900, tm_mon := uint (ds_month ts) - 1, tm_mday := uint (ds_day ts),
     tm_hour := uint (ds_hour ts), tm_min := uint (ds_min ts), tm_sec := uint (ds_sec ts)\<rparr>"

definition UA_DateTime_fromStruct :: "UA_DateTimeStruct \<Rightarrow> int res" where
  "UA_DateTime_fromStruct ts =
     bind_res (musl_tm_to_secs (struct_tm ts)) (\<lambda>sec_epoch.
     bind_res (mul_int64 sec_epoch UA_DATETIME_SEC) (\<lambda>secs.
     bind_res (add_int64 UA_DATETIME_UNIX_EPOCH secs) (\<lambda>t1.
     bind_res (add_int64 t1 (uint (ds_milliSec ts) * UA_DATETIME_MSEC)) (\<lambda>t2.
     bind_res (add_int64 t2 (uint (ds_microSec ts) * UA_DATETIME_USEC)) (\<lambda>t3.
       add_int64 t3 (trunc_div (uint (ds_nanoSec ts)) 100))))))"

text \<open>A date of the calendar and a time of the day, with a fraction in units of 100 nanoseconds.\<close>

definition real_struct :: "UA_DateTimeStruct \<Rightarrow> bool" where
  "real_struct ts \<longleftrightarrow> real_date (struct_tm ts) \<and> uint (ds_milliSec ts) \<le> 999 \<and> uint (ds_microSec ts) \<le> 999
     \<and> uint (ds_nanoSec ts) \<le> 900 \<and> uint (ds_nanoSec ts) mod 100 = 0"

subsection \<open>A date determines its fields and back\<close>

lemma split_ticks: "0 \<le> f \<Longrightarrow> f < 10000000 \<Longrightarrow> f div 10000 * 10000 + f mod 10000 div 10 * 10 + f mod 10 = f" for f :: int
proof -
  define m where "m = f mod 10000"
  have "f div 10000 * 10000 + m = f" by (simp add: m_def)
  moreover have "m div 10 * 10 + m mod 10 = m" by simp
  moreover have "m mod 10 = f mod 10" by (simp add: m_def mod_mod_cancel)
  ultimately show ?thesis by (simp flip: m_def)
qed

lemma uint16_of_int: "0 \<le> x \<Longrightarrow> x < 65536 \<Longrightarrow> uint (word_of_int x :: 16 word) = x"
  by (simp add: uint_word_of_int)

lemma sint16_of_int: "- 32768 \<le> x \<Longrightarrow> x \<le> 32767 \<Longrightarrow> sint (word_of_int x :: 16 word) = x"
  by (simp add: int_word_sint)

lemma month_length_31: "0 \<le> m \<Longrightarrow> m \<le> 11 \<Longrightarrow> month_length y m \<le> 31"
proof -
  assume m: "0 \<le> m" "m \<le> 11"
  have "\<forall>x\<in>set [31, if leap_year y then 29 else 28, 31, 30, 31, 30, 31, 31, 30, 31, 30, 31]. x \<le> (31 :: int)" by simp
  moreover have "nat m < length [31, if leap_year y then 29 else 28, 31, 30, 31, 30, 31, 31, 30, 31, 30, 31 :: int]" using m by simp
  ultimately show ?thesis unfolding month_length_def using nth_mem by blast
qed

lemma tm_to_secs_day: "musl_tm_to_secs (tm\<lparr>tm_wday := w, tm_yday := y\<rparr>) = musl_tm_to_secs tm"
  by (simp add: musl_tm_to_secs_def)

text \<open>What \<open>toStruct\<close> computes: the date of the seconds since the Unix epoch, and the three parts of the fraction.\<close>

lemma toStruct_struct:
  assumes "in_int64 t"
  obtains ts where "UA_DateTime_toStruct t = Inr ts" "real_struct ts"
    "musl_tm_to_secs (struct_tm ts) = Inr ((t - UA_DATETIME_UNIX_EPOCH) div UA_DATETIME_SEC)"
    "uint (ds_milliSec ts) * 10000 + uint (ds_microSec ts) * 10 + uint (ds_nanoSec ts) div 100 = t mod UA_DATETIME_SEC"
proof -
  define u f where "u = (t - UA_DATETIME_UNIX_EPOCH) div UA_DATETIME_SEC" and "f = t mod UA_DATETIME_SEC"
  have tu: "t = UA_DATETIME_UNIX_EPOCH + UA_DATETIME_SEC * u + f"
  proof -
    have "(t - UA_DATETIME_UNIX_EPOCH) mod UA_DATETIME_SEC = f"
      unfolding f_def UA_DATETIME_UNIX_EPOCH_def by (rule mod_diff_eq [THEN subst]) simp
    then show ?thesis using mult_div_mod_eq [of UA_DATETIME_SEC "t - UA_DATETIME_UNIX_EPOCH"] by (simp add: u_def)
  qed
  have f: "0 \<le> f" "f < 10000000" by (simp_all add: f_def UA_DATETIME_SEC_def)
  have u: "- 933981677286 \<le> u" "u \<le> 910692730086"
    using assms tu f by (auto simp: in_int64_def datetime_units)
  have b: "borrow (trunc_div t UA_DATETIME_SEC - trunc_div UA_DATETIME_UNIX_EPOCH UA_DATETIME_SEC) (trunc_mod t UA_DATETIME_SEC) UA_DATETIME_SEC = (u, f)"
  proof -
    have "borrow (q - k) r b = (fst (borrow q r b) - k, snd (borrow q r b))" for q k r b by (simp add: borrow_def)
    moreover have "t div UA_DATETIME_SEC - 11644473600 = u"
    proof -
      have "t = UA_DATETIME_SEC * (11644473600 + u) + f" using tu by (simp add: datetime_units)
      then have "t div UA_DATETIME_SEC = 11644473600 + u" by (rule int_div_pos_eq) (use f in \<open>simp_all add: datetime_units\<close>)
      then show ?thesis by simp
    qed
    moreover have "trunc_div UA_DATETIME_UNIX_EPOCH UA_DATETIME_SEC = 11644473600" by (simp add: datetime_units)
    ultimately show ?thesis by (simp add: borrow_floor f_def UA_DATETIME_SEC_def)
  qed
  have "\<bar>u\<bar> \<le> 10 ^ 15" using u by simp
  from secs_to_tm [OF this, of musl_tm_zero] obtain tm where tm: "musl_secs_to_tm u musl_tm_zero = Inr (0, tm)" "real_date tm" "musl_tm_to_secs tm = Inr u"
    "400 * ((u - LEAPOCH) div 86400 div 146097) \<le> tm_year tm - 100" "tm_year tm - 100 \<le> 400 * ((u - LEAPOCH) div 86400 div 146097) + 400" by blast
  define e where "e = (u - LEAPOCH) div 86400 div 146097"
  have "e = (u - LEAPOCH) div 12622780800" using zdiv_zmult2_eq [of 146097 "u - LEAPOCH" 86400] by (simp add: e_def)
  then have "- 76 \<le> e" "e \<le> 73"
    using zdiv_mono1 [of "- 934933546087" "u - LEAPOCH" 12622780800] zdiv_mono1 [of "u - LEAPOCH" 910692730087 12622780800] u
    by (simp_all add: LEAPOCH_def)
  then have year: "- 32768 \<le> tm_year tm + 1900" "tm_year tm + 1900 \<le> 32767" using tm(4,5) by (simp_all flip: e_def)
  have fields: "0 \<le> tm_mon tm" "tm_mon tm \<le> 11" "1 \<le> tm_mday tm" "tm_mday tm \<le> 31" "0 \<le> tm_hour tm" "tm_hour tm \<le> 23"
    "0 \<le> tm_min tm" "tm_min tm \<le> 59" "0 \<le> tm_sec tm" "tm_sec tm \<le> 59"
    using tm(2) month_length_31 [of "tm_mon tm" "tm_year tm + 1900"] by (auto simp: real_date_def)
  define ts where "ts = \<lparr>ds_nanoSec = word_of_int (f mod 10 * 100), ds_microSec = word_of_int (f mod 10000 div 10),
      ds_milliSec = word_of_int (f div 10000), ds_sec = word_of_int (tm_sec tm), ds_min = word_of_int (tm_min tm),
      ds_hour = word_of_int (tm_hour tm), ds_day = word_of_int (tm_mday tm), ds_month = word_of_int (tm_mon tm + 1),
      ds_year = (word_of_int (tm_year tm + 1900) :: 16 word)\<rparr>"
  have parts: "0 \<le> f div 10000" "f div 10000 \<le> 999" "0 \<le> f mod 10000 div 10" "f mod 10000 div 10 \<le> 999" "0 \<le> f mod 10 * 100" "f mod 10 * 100 \<le> 900"
    using f zdiv_mono1 [of f 9999999 10000] zdiv_mono1 [of "f mod 10000" 9999 10] pos_mod_bound [of 10000 f] pos_mod_bound [of 10 f]
    by (simp_all add: pos_imp_zdiv_nonneg_iff)
  have "f mod 10000000 = f" using f by simp
  then have toStruct: "UA_DateTime_toStruct t = Inr ts"
    using f by (simp add: UA_DateTime_toStruct_def b tm(1) ts_def)
  have date: "struct_tm ts = tm\<lparr>tm_wday := 0, tm_yday := 0\<rparr>"
    using fields year
    by (cases tm) (simp add: struct_tm_def ts_def musl_tm_zero_def uint16_of_int sint16_of_int del: of_int_add)
  have frac: "uint (ds_milliSec ts) = f div 10000" "uint (ds_microSec ts) = f mod 10000 div 10" "uint (ds_nanoSec ts) = f mod 10 * 100"
    using parts by (simp_all add: ts_def uint16_of_int del: of_int_mult)
  have "real_struct ts" using tm(2) parts by (simp add: real_struct_def date frac real_date_def)
  moreover have "musl_tm_to_secs (struct_tm ts) = Inr u" using tm(3) by (simp add: date tm_to_secs_day)
  moreover have "uint (ds_milliSec ts) * 10000 + uint (ds_microSec ts) * 10 + uint (ds_nanoSec ts) div 100 = f"
    using split_ticks [OF f] by (simp add: frac)
  ultimately show ?thesis using that toStruct by (simp add: u_def f_def)
qed

text \<open>C32 (roundtrip). Every date of 64 bits has fields, they are those of a real date (a month of the year, a day of that month in the
  Gregorian calendar with its leap years, a time of the day, a fraction below a second), and computing a
  date from the fields gives the same date back. The exception are the first 369 years or so of the
  range, where the product of the seconds since 1970 and the number of ticks in a second overflows.\<close>

theorem date_fields_roundtrip:
  assumes "in_int64 t"
  shows "\<exists>ts. UA_DateTime_toStruct t = Inr ts \<and> real_struct ts
    \<and> UA_DateTime_fromStruct ts = (if - 9223372036854775808 \<le> t - t mod UA_DATETIME_SEC - UA_DATETIME_UNIX_EPOCH
                                   then Inr t else Inl (UB SignedOverflow))"
proof -
  from toStruct_struct [OF assms] obtain ts where ts: "UA_DateTime_toStruct t = Inr ts" "real_struct ts"
    "musl_tm_to_secs (struct_tm ts) = Inr ((t - UA_DATETIME_UNIX_EPOCH) div UA_DATETIME_SEC)"
    "uint (ds_milliSec ts) * 10000 + uint (ds_microSec ts) * 10 + uint (ds_nanoSec ts) div 100 = t mod UA_DATETIME_SEC" .
  define u f where "u = (t - UA_DATETIME_UNIX_EPOCH) div UA_DATETIME_SEC" and "f = t mod UA_DATETIME_SEC"
  have "(t - UA_DATETIME_UNIX_EPOCH) mod UA_DATETIME_SEC = f"
    unfolding f_def UA_DATETIME_UNIX_EPOCH_def by (rule mod_diff_eq [THEN subst]) simp
  then have tu: "t = UA_DATETIME_UNIX_EPOCH + u * UA_DATETIME_SEC + f"
    using mult_div_mod_eq [of UA_DATETIME_SEC "t - UA_DATETIME_UNIX_EPOCH"] by (simp add: u_def mult.commute)
  have f: "0 \<le> f" "f < 10000000" by (simp_all add: f_def UA_DATETIME_SEC_def)
  have parts: "0 \<le> uint (ds_milliSec ts)" "0 \<le> uint (ds_microSec ts)" "0 \<le> uint (ds_nanoSec ts) div 100"
    "uint (ds_milliSec ts) * 10000 + uint (ds_microSec ts) * 10 + uint (ds_nanoSec ts) div 100 = f"
    using ts(4) by (simp_all add: f_def pos_imp_zdiv_nonneg_iff)
  have mul: "mul_int64 u UA_DATETIME_SEC = (if - 9223372036854775808 \<le> u * UA_DATETIME_SEC then Inr (u * UA_DATETIME_SEC) else Inl (UB SignedOverflow))"
    using assms tu f by (auto simp: mul_int64_def in_int64_def UA_DATETIME_UNIX_EPOCH_def UA_DATETIME_SEC_def)
  have secs: "musl_tm_to_secs (struct_tm ts) = Inr u" using ts(3) by (simp add: u_def)
  have hi: "116444736000000000 + u * 10000000 + f \<le> 9223372036854775807"
    using assms tu by (simp add: in_int64_def datetime_units)
  have "UA_DateTime_fromStruct ts = (if - 9223372036854775808 \<le> u * UA_DATETIME_SEC then Inr t else Inl (UB SignedOverflow))"
  proof (cases "- 9223372036854775808 \<le> u * UA_DATETIME_SEC")
    case True
    define A B C where "A = uint (ds_milliSec ts) * UA_DATETIME_MSEC" and "B = uint (ds_microSec ts) * UA_DATETIME_USEC"
      and "C = uint (ds_nanoSec ts) div 100"
    have abc: "0 \<le> A" "0 \<le> B" "0 \<le> C" "A + B + C = f"
      using parts by (simp_all add: A_def B_def C_def UA_DATETIME_MSEC_def UA_DATETIME_USEC_def)
    have "trunc_div (uint (ds_nanoSec ts)) 100 = C" by (simp add: C_def)
    then have "UA_DateTime_fromStruct ts = Inr (UA_DATETIME_UNIX_EPOCH + u * UA_DATETIME_SEC + A + B + C)"
      using True hi f abc mul unfolding UA_DateTime_fromStruct_def secs A_def [symmetric] B_def [symmetric]
      by (simp add: add_int64_def in_int64_def UA_DATETIME_UNIX_EPOCH_def UA_DATETIME_SEC_def)
    then show ?thesis using True tu abc(4) by simp
  next
    case False
    then show ?thesis using mul unfolding UA_DateTime_fromStruct_def secs by simp
  qed
  moreover have "t - t mod UA_DATETIME_SEC - UA_DATETIME_UNIX_EPOCH = u * UA_DATETIME_SEC"
    unfolding f_def [symmetric] using tu by linarith
  ultimately show ?thesis using ts(1,2) by auto
qed

theorem date_fields_roundtrip_witness:
  "\<exists>ts. UA_DateTime_toStruct (UA_DATETIME_UNIX_EPOCH + 5) = Inr ts \<and> UA_DateTime_fromStruct ts = Inr (UA_DATETIME_UNIX_EPOCH + 5)"
  using date_fields_roundtrip [of "UA_DATETIME_UNIX_EPOCH + 5"] by (auto simp: in_int64_def datetime_units)

end
