(* ===== verification/UA_DateParse.thy ===== *)
theory UA_DateParse
  imports UA_Dates
begin

text \<open>
  The stack's parser of dates, \<open>UA_DateTime_parse\<close>, with the number parsers it calls. Every read of the text is
  checked against its length. A check that fails ends the parse with \<open>None\<close>, which is \<open>BADDECODINGERROR\<close>.
\<close>

subsection \<open>Numbers\<close>

text \<open>
  \<open>parseUInt64\<close> reads at most \<open>size\<close> characters from a pointer. It stores nothing when it reports an overflow; the
  callers' variables are zero before.
\<close>

definition is_digit :: "char \<Rightarrow> bool" where
  "is_digit c \<longleftrightarrow> 48 \<le> (of_char c :: nat) \<and> (of_char c :: nat) \<le> 57"

fun parse_decimal :: "string \<Rightarrow> nat \<Rightarrow> nat \<Rightarrow> 64 word \<Rightarrow> (nat \<times> 64 word) res" where
  "parse_decimal cs 0 i n = Inr (i, n)"
| "parse_decimal [] (Suc k) i n = Inl (UB OutOfBounds)"
| "parse_decimal (c # cs) (Suc k) i n =
     (if \<not> is_digit c then Inr (i, n)
      else (let n' = push_bit 3 n + push_bit 1 n + word_of_nat (of_char c - 48)
            in if n' < n then Inr (0, 0) else parse_decimal cs k (Suc i) n'))"

text \<open>The character is made lower case by setting a bit before the tests, which also makes digits of 16 control characters.\<close>

definition hex_value :: "char \<Rightarrow> 64 word option" where
  "hex_value ch = (let c = (or (of_char ch) 32 :: nat)
     in if 48 \<le> c \<and> c \<le> 57 then Some (word_of_nat (c - 48))
        else if 97 \<le> c \<and> c \<le> 102 then Some (word_of_nat (c - 97 + 10))
        else if 65 \<le> c \<and> c \<le> 70 then Some (word_of_nat (c - 65 + 10)) else None)"

fun parse_hex :: "string \<Rightarrow> nat \<Rightarrow> nat \<Rightarrow> 64 word \<Rightarrow> (nat \<times> 64 word) res" where
  "parse_hex cs 0 i n = Inr (if i > 2 then i else 0, n)"
| "parse_hex [] (Suc k) i n = Inl (UB OutOfBounds)"
| "parse_hex (c # cs) (Suc k) i n = (case hex_value c of
      None \<Rightarrow> Inr (if i > 2 then i else 0, n)
    | Some d \<Rightarrow> (let n' = or (push_bit 4 n) (and d 15) in if n' < n then Inr (0, 0) else parse_hex cs k (Suc i) n'))"

definition char_at :: "string \<Rightarrow> nat \<Rightarrow> char res" where
  "char_at s pos = (if pos < length s then Inr (s ! pos) else Inl (UB OutOfBounds))"

definition parseUInt64 :: "string \<Rightarrow> nat \<Rightarrow> (nat \<times> 64 word) res" where
  "parseUInt64 str n =
     bind_res (if n > 2 then bind_res (char_at str 0) (\<lambda>c0. if c0 = CHR ''0''
                 then bind_res (char_at str 1) (\<lambda>c1. Inr (c1 = CHR ''x'' \<or> c1 = CHR ''X'')) else Inr False) else Inr False) (\<lambda>hex.
       if hex then parse_hex (drop 2 str) (n - 2) 2 0 else parse_decimal str n 0 0)"

definition parseInt64 :: "string \<Rightarrow> nat \<Rightarrow> (nat \<times> int) res" where
  "parseInt64 str n = bind_res (char_at str 0) (\<lambda>c.
     let neg = (c = CHR ''-''); i = (if c = CHR ''-'' \<or> c = CHR ''+'' then 1 else 0)
     in bind_res (parseUInt64 (drop i str) (n - i)) (\<lambda>(len, v).
          if len = 0 then Inr (0, 0)
          else if \<not> neg then (if v > 9223372036854775807 then Inr (0, 0) else Inr (len + i, uint v))
          else (if v > 9223372036854775808 then Inr (0, 0) else Inr (len + i, - uint v))))"

subsection \<open>The date\<close>

definition UA_CHECK :: "bool \<Rightarrow> 'a option res \<Rightarrow> 'a option res" where
  "UA_CHECK b r = (if b then r else Inr None)"

definition bind_opt :: "'a option res \<Rightarrow> ('a \<Rightarrow> 'b option res) \<Rightarrow> 'b option res" where
  "bind_opt r f = bind_res r (\<lambda>x. case x of None \<Rightarrow> Inr None | Some y \<Rightarrow> f y)"

definition skip_char :: "string \<Rightarrow> nat \<Rightarrow> char \<Rightarrow> nat res" where
  "skip_char s pos sep = bind_res (char_at s pos) (\<lambda>c. Inr (if c = sep then Suc pos else pos))"

text \<open>Four digits, or up to five before a minus; \<open>tm_year\<close> counts from 1900.\<close>

definition parse_year :: "string \<Rightarrow> (int \<times> nat) option res" where
  "parse_year s = bind_res (char_at s 0) (\<lambda>c0.
     let pos = (if c0 = CHR ''-'' \<or> c0 = CHR ''+'' then 1 else 0)
     in UA_CHECK (length s - pos > 5) (bind_res (parseInt64 (drop pos s) 5) (\<lambda>(len, year).
          UA_CHECK (len > 0 \<and> pos + len < length s) (bind_res (char_at s (pos + len)) (\<lambda>c.
          UA_CHECK (len = 4 \<or> c = CHR ''-'') (bind_res (skip_char s (pos + len) CHR ''-'') (\<lambda>pos'.
            Inr (Some (sint (word_of_int (if c0 = CHR ''-'' then - year else year) :: 16 word) - 1900, pos')))))))))"

text \<open>Two digits and an optional separator: month, hour and minute.\<close>

definition parse_field :: "string \<Rightarrow> nat \<Rightarrow> char \<Rightarrow> (int \<times> nat) option res" where
  "parse_field s pos sep = UA_CHECK (length s - pos > 2) (bind_res (parseUInt64 (drop pos s) 2) (\<lambda>(len, v).
     UA_CHECK (len = 2) (bind_res (skip_char s (pos + len) sep) (\<lambda>pos'. Inr (Some (uint (ucast v :: 16 word), pos'))))))"

text \<open>The day, and one more character: the check refuses only a \<open>T\<close> after less than two digits.\<close>

definition parse_day :: "string \<Rightarrow> nat \<Rightarrow> (int \<times> nat) option res" where
  "parse_day s pos = UA_CHECK (length s - pos > 2) (bind_res (parseUInt64 (drop pos s) 2) (\<lambda>(len, v).
     bind_res (if len = 2 then Inr True else bind_res (char_at s (pos + len)) (\<lambda>c. Inr (c \<noteq> CHR ''T''))) (\<lambda>ok.
     UA_CHECK ok (Inr (Some (uint (ucast v :: 16 word), Suc (pos + len)))))))"

definition parse_second :: "string \<Rightarrow> nat \<Rightarrow> (int \<times> nat) option res" where
  "parse_second s pos = UA_CHECK (length s - pos \<ge> 2) (bind_res (parseUInt64 (drop pos s) 2) (\<lambda>(len, v).
     UA_CHECK (len = 2) (Inr (Some (uint (ucast v :: 16 word), pos + len)))))"

text \<open>The seconds since the Unix epoch, and the position behind them.\<close>

definition parse_seconds :: "string \<Rightarrow> (int \<times> nat) option res" where
  "parse_seconds s =
     bind_opt (parse_year s) (\<lambda>(year, p1). bind_opt (parse_field s p1 CHR ''-'') (\<lambda>(month, p2). bind_opt (parse_day s p2) (\<lambda>(day, p3).
     bind_opt (parse_field s p3 CHR '':'') (\<lambda>(hour, p4). bind_opt (parse_field s p4 CHR '':'') (\<lambda>(min, p5).
     bind_opt (parse_second s p5) (\<lambda>(sec, p6).
       bind_res (musl_tm_to_secs (musl_tm_zero\<lparr>tm_year := year, tm_mon := month - 1, tm_mday := day, tm_hour := hour,
          tm_min := min, tm_sec := sec\<rparr>)) (\<lambda>t. Inr (Some (t, p6)))))))))"

subsection \<open>Fraction and time zone\<close>

definition parse_fraction :: "(string \<Rightarrow> int) \<Rightarrow> string \<Rightarrow> nat \<Rightarrow> int \<Rightarrow> (int \<times> nat) res" where
  "parse_fraction ticks s pos dt =
     (if pos < length s \<and> (s ! pos = CHR '','' \<or> s ! pos = CHR ''.'') then
        (let digits = takeWhile is_digit (drop (Suc pos) s)
         in bind_res (add_int64 dt (ticks digits)) (\<lambda>dt'. Inr (dt', Suc pos + length digits)))
      else Inr (dt, pos))"

text \<open>An offset without minutes jumps over its own application.\<close>

definition parse_zone :: "string \<Rightarrow> nat \<Rightarrow> int \<Rightarrow> (int \<times> nat) option res" where
  "parse_zone s pos dt =
     (if \<not> pos < length s then Inr (Some (dt, pos))
      else if s ! pos = CHR ''Z'' then Inr (Some (dt, Suc pos))
      else if s ! pos = CHR ''+'' \<or> s ! pos = CHR ''-'' then
        UA_CHECK (length s - Suc pos \<ge> 2) (bind_res (parseUInt64 (drop (Suc pos) s) 2) (\<lambda>(len, tzHour).
        UA_CHECK (len = 2)
          (let p1 = Suc pos + len
           in if \<not> p1 < length s then Inr (Some (dt, p1))
              else bind_res (skip_char s p1 CHR '':'') (\<lambda>p2.
                UA_CHECK (length s - p2 \<ge> 2) (bind_res (parseUInt64 (drop p2 s) 2) (\<lambda>(len2, tzMin).
                UA_CHECK (len2 = 2)
                  (let offset = sint (tzHour * 3600 + tzMin * 60)
                   in bind_res (mul_int64 (if s ! pos = CHR ''-'' then - offset else offset) UA_DATETIME_SEC) (\<lambda>d.
                      bind_res (add_int64 dt (- d)) (\<lambda>dt'. Inr (Some (dt', p2 + len2)))))))))))
      else Inr None)"

subsection \<open>The parser\<close>

definition sinceunix_min :: int where "sinceunix_min = - 922337203685 - 11644473600 - 1"
definition sinceunix_max :: int where "sinceunix_max = (9223372036854775807 - UA_DATETIME_UNIX_EPOCH) div UA_DATETIME_SEC"

text \<open>One second is taken off before the fraction is added, and put back at the end, against overflow: by a sign read twice.\<close>

definition finish_date :: "nat \<Rightarrow> nat \<Rightarrow> int \<Rightarrow> int \<Rightarrow> int option" where
  "finish_date len pos sinceunix dt =
     (if sinceunix > 0
      then (if dt > 9223372036854775807 - UA_DATETIME_SEC then None
            else if pos \<noteq> len then None else Some (dt + UA_DATETIME_SEC))
      else (if dt < - 9223372036854775808 + UA_DATETIME_SEC then None
            else if pos \<noteq> len then None else Some (dt - UA_DATETIME_SEC)))"

definition parse_text :: "(string \<Rightarrow> int) \<Rightarrow> string \<Rightarrow> int option res" where
  "parse_text ticks s = UA_CHECK (s \<noteq> []) (bind_opt (parse_seconds s) (\<lambda>(sinceunix, p).
     UA_CHECK (\<not> (sinceunix < sinceunix_min \<or> sinceunix > sinceunix_max))
       (let since' = sinceunix - (if sinceunix > 0 then 1 else - 1)
        in bind_res (mul_int64 (since' + 11644473600) UA_DATETIME_SEC) (\<lambda>dt.
           bind_res (parse_fraction ticks s p dt) (\<lambda>(dt', p').
           bind_opt (parse_zone s p' dt') (\<lambda>(dt'', p'').
             Inr (finish_date (length s) p'' since' dt'')))))))"

definition UA_DateTime_parse :: "(string \<Rightarrow> int) \<Rightarrow> UA_String \<Rightarrow> (UA_StatusCode \<times> int) res" where
  "UA_DateTime_parse ticks str = bind_res (read_range (bs_data str) (bs_length str)) (\<lambda>s.
     bind_res (parse_text ticks s) (\<lambda>r. Inr (case r of None \<Rightarrow> (0x80070000, 0) | Some dt \<Rightarrow> (OpcUa_Good, dt))))"

subsection \<open>Decimal fields\<close>

text \<open>A number in \<open>w\<close> decimal digits.\<close>

primrec digits :: "nat \<Rightarrow> nat \<Rightarrow> string" where
  "digits 0 n = []"
| "digits (Suc w) n = digits w (n div 10) @ [hex_digit (n mod 10)]"

lemma length_digits [simp]: "length (digits w n) = w"
  by (induction w arbitrary: n) simp_all

lemma digits_Nil [simp]: "digits w n = [] \<longleftrightarrow> w = 0"
  using length_digits [of w n] by (metis length_0_conv)

lemma digits_2: "digits 2 n = [hex_digit (n div 10 mod 10), hex_digit (n mod 10)]"
proof -
  have "2 = Suc (Suc 0)" by simp
  then show ?thesis by (simp only: digits.simps append.simps)
qed

lemma digits_4: "digits 4 n = digits 2 (n div 100) @ digits 2 n"
proof -
  have "4 = Suc (Suc (Suc (Suc 0)))" by simp
  then have "digits 4 n = [hex_digit (n div 10 div 10 div 10 mod 10), hex_digit (n div 10 div 10 mod 10), hex_digit (n div 10 mod 10), hex_digit (n mod 10)]"
    by (simp only: digits.simps append.simps)
  moreover have "n div 10 div 10 = n div 100" by (simp add: div_mult2_eq [symmetric])
  ultimately show ?thesis by (simp add: digits_2)
qed

lemma digit_code: "d < 10 \<Longrightarrow> of_char (hex_digit d) = (48 + d :: nat)"
proof -
  assume "d < 10"
  then have "d \<in> set [0, 1, 2, 3, 4, 5, 6, 7, 8, 9]" by auto
  moreover have "\<forall>d\<in>set [0, 1, 2, 3, 4, 5, 6, 7, 8, 9]. of_char (hex_digit d) = (48 + d :: nat)"
    by (simp add: hex_digit_def)
  ultimately show ?thesis by blast
qed

lemma digit_value: "d < 10 \<Longrightarrow> of_char (hex_digit d) - 48 = int d"
proof -
  assume "d < 10"
  then have "d \<in> {0,1,2,3,4,5,6,7,8,9}" by auto
  then show ?thesis by (auto simp: hex_digit_def)
qed

lemma is_digit_digit: "d < 10 \<Longrightarrow> is_digit (hex_digit d)"
  by (simp add: is_digit_def digit_code)

lemma digit_not: "\<not> is_digit c \<Longrightarrow> d < 10 \<Longrightarrow> hex_digit d \<noteq> c"
  using is_digit_digit by metis

lemma separators_not_digits [simp]:
  "\<not> is_digit (CHR ''-'')" "\<not> is_digit (CHR ''+'')" "\<not> is_digit (CHR '':'')" "\<not> is_digit (CHR ''T'')" "\<not> is_digit (CHR ''Z'')"
  "\<not> is_digit (CHR ''.'')" "\<not> is_digit (CHR '','')" "\<not> is_digit (CHR ''x'')" "\<not> is_digit (CHR ''X'')"
  by (simp_all add: is_digit_def)

lemma decimal_step:
  assumes "d < 10" "a < 10 ^ 6"
  shows "parse_decimal (hex_digit d # cs) (Suc k) i (word_of_nat a) = parse_decimal cs k (Suc i) (word_of_nat (10 * a + d))"
proof -
  have "push_bit 3 (word_of_nat a :: 64 word) + push_bit 1 (word_of_nat a) + word_of_nat d = word_of_nat (10 * a + d)"
    by (simp add: push_bit_eq_mult)
  moreover have "\<not> (word_of_nat (10 * a + d) :: 64 word) < word_of_nat a"
    using assms by (simp add: word_less_nat_alt unat_of_nat not_less del: of_nat_add of_nat_mult)
  ultimately show ?thesis using assms by (simp add: is_digit_digit digit_code Let_def del: of_nat_add of_nat_mult)
qed

lemma decimal_first: "d < 10 \<Longrightarrow> parse_decimal (hex_digit d # cs) (Suc k) i 0 = parse_decimal cs k (Suc i) (word_of_nat d)"
  using decimal_step [of d 0 cs k i] by simp

lemma decimal_stop: "\<not> is_digit c \<Longrightarrow> parse_decimal (c # cs) (Suc k) i n = Inr (i, n)"
  by simp

lemma parse_two: "n < 100 \<Longrightarrow> parseUInt64 (digits 2 n @ cs) 2 = Inr (2, word_of_nat n)"
proof -
  assume n: "n < 100"
  have "10 * (n div 10 mod 10) + n mod 10 = n" using n by simp
  then have "parse_decimal (digits 2 n @ cs) (Suc (Suc 0)) 0 0 = Inr (Suc (Suc 0), word_of_nat n)"
    by (simp add: digits_2 decimal_first decimal_step del: parse_decimal.simps(3) of_nat_add of_nat_mult)
  then show ?thesis by (simp add: parseUInt64_def numeral_2_eq_2)
qed

lemma parse_four:
  assumes "n < 10000" "\<not> is_digit c"
  shows "parseInt64 (digits 4 n @ c # cs) 5 = Inr (4, int n)"
proof -
  define a b d e where "a = n div 100 div 10 mod 10" and "b = n div 100 mod 10" and "d = n div 10 mod 10" and "e = n mod 10"
  have lt: "a < 10" "b < 10" "d < 10" "e < 10" by (simp_all add: a_def b_def d_def e_def)
  have n: "10 * (10 * (10 * a + b) + d) + e = n"
  proof -
    have "10 * a + b = n div 100" using assms(1) by (simp add: a_def b_def)
    moreover have "10 * (n div 100) + d = n div 10" by (simp add: d_def div_mult2_eq [of n 10 10, simplified])
    moreover have "10 * (n div 10) + e = n" by (simp add: e_def)
    ultimately show ?thesis by simp
  qed
  have str: "digits 4 n = [hex_digit a, hex_digit b, hex_digit d, hex_digit e]"
    by (simp add: digits_4 digits_2 a_def b_def d_def e_def)
  have "parse_decimal (digits 4 n @ c # cs) (Suc (Suc (Suc (Suc (Suc 0))))) 0 0 = Inr (Suc (Suc (Suc (Suc 0))), word_of_nat (10 * (10 * (10 * a + b) + d) + e))"
    using lt assms(2)
    by (simp add: str decimal_first decimal_step decimal_stop del: parse_decimal.simps(3) of_nat_add of_nat_mult)
  moreover have "5 = Suc (Suc (Suc (Suc (Suc 0))))" "4 = Suc (Suc (Suc (Suc 0)))" by simp_all
  ultimately have dec: "parse_decimal (digits 4 n @ c # cs) 5 0 0 = Inr (4, word_of_nat n)" by (simp only: n)
  have "hex_digit b \<noteq> CHR ''x''" "hex_digit b \<noteq> CHR ''X''" "hex_digit a \<noteq> CHR ''-''" "hex_digit a \<noteq> CHR ''+''"
    using lt by (simp_all add: digit_not)
  then have "parseUInt64 (digits 4 n @ c # cs) 5 = Inr (4, word_of_nat n)" "char_at (digits 4 n @ c # cs) 0 = Inr (hex_digit a)"
    using dec by (cases "hex_digit a = CHR ''0''"; simp add: parseUInt64_def char_at_def str)+
  moreover have "\<not> (9223372036854775807 :: 64 word) < word_of_nat n" "uint (word_of_nat n :: 64 word) = int n"
    using assms(1) by (simp_all add: word_less_nat_alt unat_of_nat uint_nat)
  ultimately show ?thesis
    using \<open>hex_digit a \<noteq> CHR ''-''\<close> \<open>hex_digit a \<noteq> CHR ''+''\<close> by (simp add: parseInt64_def)
qed

lemma parse_year_text:
  assumes "n < 10000" "s = digits 4 n @ CHR ''-'' # cs" "cs \<noteq> []"
  shows "parse_year s = Inr (Some (int n - 1900, 5))"
proof -
  have c: "s ! 0 = hex_digit (n div 100 div 10 mod 10)" "length s > 5" "s ! 4 = CHR ''-''"
    using assms(2,3) by (simp_all add: digits_4 digits_2)
  have "s ! 0 \<noteq> CHR ''-''" "s ! 0 \<noteq> CHR ''+''" using digit_not [of _ "n div 100 div 10 mod 10"] c(1) by auto
  moreover have "sint (word_of_nat n :: 16 word) = int n" using sint16_of_int [of "int n"] assms(1) by simp
  moreover have "s \<noteq> []" using c(2) by auto
  ultimately show ?thesis
    using c parse_four [OF assms(1), of "CHR ''-''" cs]
    by (simp add: parse_year_def char_at_def skip_char_def UA_CHECK_def assms(2) [symmetric])
qed

lemma uint_two: "n < 100 \<Longrightarrow> uint (ucast (word_of_nat n :: 64 word) :: 16 word) = int n"
  by (simp add: unsigned_ucast_eq unsigned_of_nat take_bit_nat_eq_self)

lemma parse_field_text:
  assumes "n < 100" "drop pos s = digits 2 n @ c # cs"
  shows "parse_field s pos sep = Inr (Some (int n, if c = sep then pos + 3 else pos + 2))"
proof -
  have "length (drop pos s) = length cs + 3" using assms(2) by (simp add: digits_2)
  then have l: "length s = pos + length cs + 3" by (cases "pos \<le> length s") simp_all
  have "s ! (pos + 2) = drop pos s ! 2" using l by simp
  then have "s ! (pos + 2) = c" by (simp add: assms(2) digits_2)
  then show ?thesis
    using l by (simp add: parse_field_def UA_CHECK_def assms(2) parse_two [OF assms(1)] skip_char_def char_at_def uint_two [OF assms(1)])
qed

lemma parse_day_text:
  assumes "n < 100" "drop pos s = digits 2 n @ c # cs"
  shows "parse_day s pos = Inr (Some (int n, pos + 3))"
proof -
  have "length (drop pos s) = length cs + 3" using assms(2) by (simp add: digits_2)
  then have "length s - pos = length cs + 3" by simp
  then show ?thesis by (simp add: parse_day_def UA_CHECK_def assms(2) parse_two [OF assms(1)] uint_two [OF assms(1)])
qed

lemma parse_second_text:
  assumes "n < 100" "drop pos s = digits 2 n @ cs"
  shows "parse_second s pos = Inr (Some (int n, pos + 2))"
proof -
  have "length (drop pos s) = length cs + 2" using assms(2) by (simp add: digits_2)
  then have "length s - pos = length cs + 2" by simp
  then show ?thesis by (simp add: parse_second_def UA_CHECK_def assms(2) parse_two [OF assms(1)] uint_two [OF assms(1)])
qed

text \<open>The text of a date: year, month, day, a separator, hour, minute, second.\<close>

definition date_text :: "nat \<Rightarrow> nat \<Rightarrow> nat \<Rightarrow> char \<Rightarrow> nat \<Rightarrow> nat \<Rightarrow> string" where
  "date_text year month day sep hour minute = digits 4 year @ CHR ''-'' # digits 2 month @ CHR ''-'' # digits 2 day @ sep # digits 2 hour
     @ CHR '':'' # digits 2 minute @ CHR '':'' # []"

lemma length_date_text [simp]: "length (date_text year month day sep hour minute) = 17"
  by (simp add: date_text_def)

lemma parse_seconds_text:
  assumes "year < 10000" "month < 100" "day < 100" "hour < 100" "minute < 100"
    and s: "s = date_text year month day sep hour minute @ cs" and sec: "parse_second s 17 = r"
  shows "parse_seconds s = bind_opt r (\<lambda>(second, p).
    bind_res (musl_tm_to_secs (musl_tm_zero\<lparr>tm_year := int year - 1900, tm_mon := int month - 1, tm_mday := int day, tm_hour := int hour,
       tm_min := int minute, tm_sec := second\<rparr>)) (\<lambda>t. Inr (Some (t, p))))"
proof -
  have d: "drop 5 s = digits 2 month @ CHR ''-'' # digits 2 day @ sep # digits 2 hour @ CHR '':'' # digits 2 minute @ CHR '':'' # cs"
    "drop 8 s = digits 2 day @ sep # digits 2 hour @ CHR '':'' # digits 2 minute @ CHR '':'' # cs"
    "drop 11 s = digits 2 hour @ CHR '':'' # digits 2 minute @ CHR '':'' # cs" "drop 14 s = digits 2 minute @ CHR '':'' # cs"
    by (simp_all add: s date_text_def)
  have "parse_year s = Inr (Some (int year - 1900, 5))"
    by (rule parse_year_text [OF assms(1)]) (simp add: s date_text_def, simp)
  then show ?thesis
    using parse_field_text [OF assms(2) d(1), of "CHR ''-''"] parse_day_text [OF assms(3) d(2)]
      parse_field_text [OF assms(4) d(3), of "CHR '':''"] parse_field_text [OF assms(5) d(4), of "CHR '':''"] sec
    by (simp add: parse_seconds_def bind_opt_def)
qed

subsection \<open>From the seconds to the date\<close>

text \<open>The second taken off and put back goes wrong for the first two seconds after the Unix epoch.\<close>

definition epoch_shift :: "int \<Rightarrow> int" where
  "epoch_shift u = (if u = 0 then 2 else if u = 1 then - 2 else 0)"

lemma parse_text_exact:
  assumes secs: "parse_seconds s = Inr (Some (u, p))" and range: "in_int64 (UA_DATETIME_UNIX_EPOCH + u * UA_DATETIME_SEC + f)"
    and f: "0 \<le> f" "f < UA_DATETIME_SEC"
    and frac: "\<And>dt. in_int64 dt \<Longrightarrow> parse_fraction ticks s p dt = bind_res (add_int64 dt f) (\<lambda>dt'. Inr (dt', p'))"
    and zone: "\<And>dt. parse_zone s p' dt = Inr (Some (dt, length s))"
  shows "parse_text ticks s = Inr (Some (UA_DATETIME_UNIX_EPOCH + (u + epoch_shift u) * UA_DATETIME_SEC + f))"
proof -
  have s: "s \<noteq> []" using secs by (auto simp: parse_seconds_def parse_year_def char_at_def bind_opt_def)
  have r: "- 9223372036854775808 \<le> 116444736000000000 + u * 10000000 + f" "116444736000000000 + u * 10000000 + f \<le> 9223372036854775807" "f < 10000000"
    using range f by (simp_all add: in_int64_def datetime_units)
  then have u: "\<not> (u < sinceunix_min \<or> u > sinceunix_max)"
    using f(1) by (simp add: sinceunix_min_def sinceunix_max_def datetime_units)
  define v where "v = u - (if u > 0 then 1 else - 1)"
  define x where "x = (v + 11644473600) * 10000000"
  have x: "in_int64 x" using r f(1) by (auto simp: in_int64_def v_def x_def)
  have mul: "mul_int64 (v + 11644473600) UA_DATETIME_SEC = Inr x"
    using x by (simp add: mul_int64_def UA_DATETIME_SEC_def x_def)
  have "bind_res (bind_res (add_int64 dt f) (\<lambda>dt'. Inr (dt', p'))) g = bind_res (add_int64 dt f) (\<lambda>dt'. g (dt', p'))" for dt and g :: "int \<times> nat \<Rightarrow> int option res"
    by (cases "add_int64 dt f") simp_all
  then have "parse_text ticks s = bind_res (add_int64 x f) (\<lambda>dt'. Inr (finish_date (length s) (length s) v dt'))"
    using s u by (simp add: parse_text_def UA_CHECK_def bind_opt_def secs Let_def mul frac [OF x] zone flip: v_def)
  moreover have "add_int64 x f = Inr (x + f)"
    using r f(1) by (auto simp: add_int64_def in_int64_def v_def x_def)
  moreover have "finish_date (length s) (length s) v (x + f) = Some (UA_DATETIME_UNIX_EPOCH + (u + epoch_shift u) * UA_DATETIME_SEC + f)"
    using r f(1) by (auto simp: finish_date_def v_def x_def epoch_shift_def datetime_units)
  ultimately show ?thesis by simp
qed

end
