(* ===== verification/UaDateTimes.thy ===== *)
theory UaDateTimes
  imports UaStrings UA_DateParse
begin

text \<open>
  \<open>UaDateTime\<close> (\<open>src/uadatetime.cpp\<close>, \<open>include/uadatetime.h\<close>): a signed 64-bit number of intervals of 100
  nanoseconds since 1601. Arithmetic that leaves 64 bits is undefined behaviour. The floating point of the class
  is left open: \<open>ticks\<close> (the fraction the stack's parser reads), \<open>fmt\<close> (seconds printed with nine decimals by
  \<open>boost::format\<close>) and \<open>quot\<close> (the quotient by 1E7, cut to an integer), with what IEEE doubles give as
  hypotheses. The clock behind \<open>now\<close> is not modelled.
\<close>

type_synonym UaDateTime = int

definition UaDateTime_new :: UaDateTime where
  "UaDateTime_new = 0"

definition UaDateTime_of :: "int \<Rightarrow> UaDateTime" where
  "UaDateTime_of dateTime = dateTime"

text \<open>\<open>secs\<close> is a C \<open>int\<close>, widened by the 64-bit factor.\<close>

definition UaDateTime_addSecs :: "32 word \<Rightarrow> UaDateTime \<Rightarrow> UaDateTime res" where
  "UaDateTime_addSecs secs m_dateTime =
     bind_res (mul_int64 (sint secs) UA_DATETIME_SEC) (\<lambda>d. add_int64 m_dateTime d)"

definition UaDateTime_addMilliSecs :: "32 word \<Rightarrow> UaDateTime \<Rightarrow> UaDateTime res" where
  "UaDateTime_addMilliSecs msecs m_dateTime =
     bind_res (mul_int64 (sint msecs) UA_DATETIME_MSEC) (\<lambda>d. add_int64 m_dateTime d)"

definition UaDateTime_fromTime_t :: "int \<Rightarrow> UaDateTime res" where
  "UaDateTime_fromTime_t epochSeconds =
     bind_res (mul_int64 epochSeconds UA_DATETIME_SEC) (\<lambda>d. add_int64 d UA_DATETIME_UNIX_EPOCH)"

definition UaDateTime_toTime_t :: "UaDateTime \<Rightarrow> int res" where
  "UaDateTime_toTime_t m_dateTime =
     bind_res (add_int64 m_dateTime (- UA_DATETIME_UNIX_EPOCH)) (\<lambda>d. Inr (trunc_div d UA_DATETIME_SEC))"

text \<open>The output of the parser is used only with a good status.\<close>

definition UaDateTime_fromString :: "(string \<Rightarrow> int) \<Rightarrow> UaString \<Rightarrow> UaDateTime res" where
  "UaDateTime_fromString ticks dateTimeString = (case dateTimeString of
      Freed \<Rightarrow> Inl (UB UseAfterFree)
    | Live s \<Rightarrow> bind_res (UA_DateTime_parse ticks s) (\<lambda>(isParseOk, dateTime).
        if isParseOk \<noteq> OpcUa_Good then Inl (Throw (RuntimeError ''Failed to convert string ['')) else Inr dateTime))"

text \<open>\<open>%0wd\<close>: at least \<open>w\<close> characters, the sign counted, filled with zeros.\<close>

definition zero_pad :: "nat \<Rightarrow> int \<Rightarrow> string" where
  "zero_pad w i = (let d = show_base 10 (nat \<bar>i\<bar>)
     in if i < 0 then CHR ''-'' # replicate (w - 1 - length d) (CHR ''0'') @ d else replicate (w - length d) (CHR ''0'') @ d)"

definition UaDateTime_toString :: "(int \<Rightarrow> int \<Rightarrow> string) \<Rightarrow> allocator \<Rightarrow> UaDateTime \<Rightarrow> UaString res" where
  "UaDateTime_toString fmt al m_dateTime =
     bind_res (UA_DateTime_toStruct m_dateTime) (\<lambda>dateTime.
       let totalNanoSeconds = uint (ds_milliSec dateTime) * 10 ^ 6 + uint (ds_microSec dateTime) * 10 ^ 3 + uint (ds_nanoSec dateTime)
       in UaString_fromChars al (zero_pad 4 (sint (ds_year dateTime)) @ ''-'' @ zero_pad 2 (uint (ds_month dateTime)) @ ''-''
            @ zero_pad 2 (uint (ds_day dateTime)) @ '':'' @ zero_pad 2 (uint (ds_hour dateTime)) @ '':''
            @ zero_pad 2 (uint (ds_min dateTime)) @ '':'' @ fmt (uint (ds_sec dateTime)) totalNanoSeconds))"

text \<open>A quotient outside of 32 bits is converted with undefined result.\<close>

definition UaDateTime_secsTo :: "(int \<Rightarrow> int) \<Rightarrow> UaDateTime \<Rightarrow> UaDateTime \<Rightarrow> 32 word res" where
  "UaDateTime_secsTo quot dt m_dateTime = bind_res (add_int64 dt (- m_dateTime)) (\<lambda>d.
     if - 2147483648 \<le> quot d \<and> quot d \<le> 2147483647 then Inr (word_of_int (quot d)) else Inl (UB SignedOverflow))"

text \<open>The interval of \<open>time_t\<close> values that \<open>fromTime_t\<close> can represent: years -27627 to 30828.\<close>

definition representable :: "int \<Rightarrow> bool" where
  "representable t \<longleftrightarrow> - 922337203685 \<le> t \<and> t \<le> 910692730085"

text \<open>Seconds of the Unix clock become a date and come back unchanged exactly when they are
  in the representable interval; outside of it the conversion overflows a signed integer.\<close>

theorem UaDateTime_time_t_roundtrip:
  "bind_res (UaDateTime_fromTime_t t) UaDateTime_toTime_t =
     (if representable t then Inr t else Inl (UB SignedOverflow))"
proof (cases "representable t")
  case True
  then have "UaDateTime_fromTime_t t = Inr (t * UA_DATETIME_SEC + UA_DATETIME_UNIX_EPOCH)"
    by (simp add: UaDateTime_fromTime_t_def mul_int64_def add_int64_def in_int64_def representable_def
        UA_DATETIME_SEC_def UA_DATETIME_UNIX_EPOCH_def)
  moreover have "UaDateTime_toTime_t (t * UA_DATETIME_SEC + UA_DATETIME_UNIX_EPOCH) = Inr (trunc_div (t * UA_DATETIME_SEC) UA_DATETIME_SEC)"
    using True by (simp add: UaDateTime_toTime_t_def add_int64_def in_int64_def representable_def
        UA_DATETIME_SEC_def UA_DATETIME_UNIX_EPOCH_def)
  moreover have "trunc_div (t * UA_DATETIME_SEC) UA_DATETIME_SEC = t"
    by (simp add: trunc_div_def UA_DATETIME_SEC_def sgn_mult abs_mult mult_sgn_abs)
  ultimately show ?thesis using True by simp
next
  case False
  then show ?thesis
    by (auto simp: UaDateTime_fromTime_t_def mul_int64_def add_int64_def in_int64_def representable_def
        UA_DATETIME_SEC_def UA_DATETIME_UNIX_EPOCH_def)
qed

text \<open>The other way round only the fraction of a second is lost, towards the Unix epoch.\<close>

lemma UaDateTime_date_roundtrip:
  assumes "0 \<le> d" "d \<le> 9223372036854775807"
  shows "\<exists>d'. bind_res (UaDateTime_toTime_t d) UaDateTime_fromTime_t = Inr d'
     \<and> \<bar>d - d'\<bar> < UA_DATETIME_SEC \<and> (UA_DATETIME_UNIX_EPOCH \<le> d \<longrightarrow> d' \<le> d)
     \<and> (d \<le> UA_DATETIME_UNIX_EPOCH \<longrightarrow> d \<le> d')"
proof -
  define e where "e = d - UA_DATETIME_UNIX_EPOCH"
  define q where "q = trunc_div e UA_DATETIME_SEC"
  have e: "- 116444736000000000 \<le> e" "e \<le> 9106927300854775807" "d = e + 116444736000000000"
    using assms by (simp_all add: e_def UA_DATETIME_UNIX_EPOCH_def UA_DATETIME_SEC_def)
  have q: "q = (if 0 \<le> e then e div 10000000 else - ((- e) div 10000000))"
    by (auto simp: q_def trunc_div_def UA_DATETIME_SEC_def sgn_if)
  have dm: "10000000 * (x div 10000000) + x mod 10000000 = x" "0 \<le> x mod 10000000" "x mod 10000000 < 10000000" for x :: int
    by simp_all
  have near: "0 \<le> e \<Longrightarrow> q * 10000000 \<le> e \<and> e < q * 10000000 + 10000000 \<and> 0 \<le> q"
    using dm [of e] pos_imp_zdiv_nonneg_iff [of 10000000 e] by (simp add: q) linarith
  have near': "e < 0 \<Longrightarrow> e \<le> q * 10000000 \<and> q * 10000000 < e + 10000000 \<and> q \<le> 0"
    using dm [of "- e"] by (simp add: q) linarith
  have to: "UaDateTime_toTime_t d = Inr q"
    using assms by (simp add: UaDateTime_toTime_t_def add_int64_def in_int64_def q_def e_def
        UA_DATETIME_UNIX_EPOCH_def UA_DATETIME_SEC_def)
  have "representable q"
    using near near' e by (cases "0 \<le> e") (auto simp: representable_def)
  then have "UaDateTime_fromTime_t q = Inr (q * 10000000 + 116444736000000000)"
    by (simp add: UaDateTime_fromTime_t_def mul_int64_def add_int64_def in_int64_def representable_def
        UA_DATETIME_SEC_def UA_DATETIME_UNIX_EPOCH_def)
  with to near near' e(3) show ?thesis
    by (cases "0 \<le> e") (auto simp: UA_DATETIME_SEC_def UA_DATETIME_UNIX_EPOCH_def)
qed

subsection \<open>Seconds between dates\<close>

text \<open>Whole seconds are divided exactly in doubles.\<close>

definition quot_ok :: "(int \<Rightarrow> int) \<Rightarrow> bool" where
  "quot_ok quot \<longleftrightarrow> (\<forall>k. \<bar>k\<bar> \<le> 2 ^ 31 \<longrightarrow> quot (k * 10000000) = k)"

lemma secsTo_addSecs:
  assumes "quot_ok quot" "in_int64 d" "UaDateTime_addSecs n d = Inr d'"
  shows "UaDateTime_secsTo quot d' d = Inr n"
proof -
  have n: "- 2147483648 \<le> sint n" "sint n \<le> 2147483647" using sint_ge [of n] sint_lt [of n] by simp_all
  have "d' - d = sint n * 10000000"
    using assms(3) n by (auto simp: UaDateTime_addSecs_def mul_int64_def add_int64_def in_int64_def UA_DATETIME_SEC_def split: if_splits)
  moreover have "quot (sint n * 10000000) = sint n" using assms(1) n by (simp add: quot_ok_def)
  moreover have "in_int64 (sint n * 10000000)" using n by (simp add: in_int64_def)
  ultimately show ?thesis using n by (simp add: UaDateTime_secsTo_def add_int64_def)
qed

end
