(* ===== verification/UaDataValues.thy ===== *)
theory UaDataValues
  imports UaVariant_Compare UaDateTimes
begin

text \<open>
  The stack's \<open>UA_DataValue\<close> and the class \<open>UaDataValue\<close> (\<open>src/uadatavalue.cpp\<close>): a variant with a
  status, two timestamps and a presence flag for each. Every modifying operation holds the object's mutex
  throughout, so it is one step. The clock is a parameter \<open>now\<close>.
\<close>

subsection \<open>The stack's structure\<close>

record UA_DataValue =
  dv_value :: UA_Variant
  dv_sourceTimestamp :: int
  dv_serverTimestamp :: int
  dv_sourcePicoseconds :: "16 word"
  dv_serverPicoseconds :: "16 word"
  dv_status :: UA_StatusCode
  dv_hasValue :: bool
  dv_hasStatus :: bool
  dv_hasSourceTimestamp :: bool
  dv_hasServerTimestamp :: bool
  dv_hasSourcePicoseconds :: bool
  dv_hasServerPicoseconds :: bool

definition UA_DataValue_init :: UA_DataValue where
  "UA_DataValue_init = \<lparr>dv_value = UA_Variant_init, dv_sourceTimestamp = 0, dv_serverTimestamp = 0,
     dv_sourcePicoseconds = 0, dv_serverPicoseconds = 0, dv_status = 0, dv_hasValue = False,
     dv_hasStatus = False, dv_hasSourceTimestamp = False, dv_hasServerTimestamp = False,
     dv_hasSourcePicoseconds = False, dv_hasServerPicoseconds = False\<rparr>"

text \<open>The copy takes every field as it is and the variant deeply; a failed copy leaves a zeroed structure.\<close>

definition UA_DataValue_copy :: "allocator \<Rightarrow> UA_DataValue \<Rightarrow> (UA_StatusCode \<times> UA_DataValue) res" where
  "UA_DataValue_copy al src = bind_res (Variant_copy al (dv_value src)) (\<lambda>(retval, v).
     Inr (retval, if retval = OpcUa_Good then src\<lparr>dv_value := v\<rparr> else UA_DataValue_init))"

definition wf_datavalue :: "UA_DataValue \<Rightarrow> bool" where
  "wf_datavalue d \<longleftrightarrow> wf_variant (dv_value d)"

lemma wf_datavalue_init [simp]: "wf_datavalue UA_DataValue_init"
  by (simp add: wf_datavalue_def UA_DataValue_init_def)

lemma UA_DataValue_copy_ok:
  "mem_ok al \<Longrightarrow> wf_datavalue d \<Longrightarrow> UA_DataValue_copy al d = Inr (OpcUa_Good, d)"
  by (simp add: UA_DataValue_copy_def wf_datavalue_def copy_ok)

subsection \<open>UaDataValue\<close>

text \<open>The state is \<open>*m_impl\<close>, 80 bytes from the allocator.\<close>

type_synonym UaDataValue = UA_DataValue

definition UaDataValue_of :: "allocator \<Rightarrow> UA_Variant \<Rightarrow> UA_StatusCode \<Rightarrow> UaDateTime \<Rightarrow> UaDateTime \<Rightarrow> UaDataValue res" where
  "UaDataValue_of al variant code sourceTime serverTime =
     (if \<not> can_alloc al 80 then Inl (Throw (RuntimeError ''UA_DataValue_new returned null ptr''))
      else bind_res (UA_Variant_copy al variant) (\<lambda>(_, v).
        Inr (UA_DataValue_init\<lparr>dv_value := v, dv_status := code, dv_hasStatus := True,
               dv_serverTimestamp := serverTime, dv_hasServerTimestamp := True, dv_hasServerPicoseconds := False,
               dv_sourceTimestamp := sourceTime, dv_hasSourceTimestamp := True, dv_hasSourcePicoseconds := False,
               dv_hasValue := True\<rparr>)))"

definition UaDataValue_new :: "allocator \<Rightarrow> UaDataValue res" where
  "UaDataValue_new al =
     (if \<not> can_alloc al 80 then Inl (Throw (RuntimeError ''UA_DataValue_new returned null ptr''))
      else Inr UA_DataValue_init)"

text \<open>The copy constructor does not check the new structure: copying into NULL is undefined.\<close>

definition UaDataValue_copy :: "allocator \<Rightarrow> UaDataValue \<Rightarrow> UaDataValue res" where
  "UaDataValue_copy al other =
     (if \<not> can_alloc al 80 then Inl (UB NullDeref)
      else bind_res (UA_DataValue_copy al other) (\<lambda>(_, d). Inr d))"

text \<open>
  The setters. The status of the variant copy is ignored: on failure the value is empty. \<open>detachValue\<close>
  clears the argument, which is part of the state.
\<close>

definition put_variant :: "allocator \<Rightarrow> bool \<Rightarrow> (UaDataValue \<times> UaVariant, unit) op" where
  "put_variant al detachValue = (\<lambda>(d, value). case value of
       Freed \<Rightarrow> (Inl (UB UseAfterFree), (d, value))
     | Live w \<Rightarrow> (case UA_Variant_copy al w of
         Inl e \<Rightarrow> (Inl e, (d\<lparr>dv_value := UA_Variant_init\<rparr>, value))
       | Inr (_, v) \<Rightarrow>
           (let d1 = d\<lparr>dv_value := v, dv_hasValue := True\<rparr>
            in if detachValue
               then (case UaVariant_clear al value of (r, value') \<Rightarrow> (r, (d1, value')))
               else (Inr (), (d1, value)))))"

definition UaDataValue_setValue :: "int \<Rightarrow> allocator \<Rightarrow> bool \<Rightarrow> bool \<Rightarrow> (UaDataValue \<times> UaVariant, unit) op" where
  "UaDataValue_setValue now al detachValue updateTimeStamps s =
     (case put_variant al detachValue s of
        (Inl e, s') \<Rightarrow> (Inl e, s')
      | (Inr _, (d, value)) \<Rightarrow>
          (Inr (), (if updateTimeStamps
             then d\<lparr>dv_sourceTimestamp := now, dv_hasSourceTimestamp := True,
                    dv_serverTimestamp := now, dv_hasServerTimestamp := True\<rparr>
             else d, value)))"

definition UaDataValue_setDataValue ::
    "allocator \<Rightarrow> bool \<Rightarrow> UA_StatusCode \<Rightarrow> UaDateTime \<Rightarrow> UaDateTime \<Rightarrow> (UaDataValue \<times> UaVariant, unit) op" where
  "UaDataValue_setDataValue al detachValue code sourceTimestamp serverTimestamp s =
     (case put_variant al detachValue s of
        (Inl e, s') \<Rightarrow> (Inl e, s')
      | (Inr _, (d, value)) \<Rightarrow>
          (Inr (), (d\<lparr>dv_status := code, dv_hasStatus := True,
             dv_sourceTimestamp := sourceTimestamp, dv_hasSourceTimestamp := True,
             dv_serverTimestamp := serverTimestamp, dv_hasServerTimestamp := True\<rparr>, value)))"

definition UaDataValue_setStatusCode :: "UA_StatusCode \<Rightarrow> UaDataValue \<Rightarrow> UaDataValue" where
  "UaDataValue_setStatusCode code d = d\<lparr>dv_status := code, dv_hasStatus := True\<rparr>"

definition UaDataValue_setSourceTimestamp :: "UaDateTime \<Rightarrow> UaDataValue \<Rightarrow> UaDataValue" where
  "UaDataValue_setSourceTimestamp t d = d\<lparr>dv_sourceTimestamp := t, dv_hasSourceTimestamp := True\<rparr>"

definition UaDataValue_setServerTimestamp :: "UaDateTime \<Rightarrow> UaDataValue \<Rightarrow> UaDataValue" where
  "UaDataValue_setServerTimestamp t d = d\<lparr>dv_serverTimestamp := t, dv_hasServerTimestamp := True\<rparr>"

text \<open>
  \<open>operator=\<close> deletes the old structure and copies into a new one. For the object itself (\<open>None\<close>)
  \<open>other.m_impl\<close> is by then the new, empty structure.
\<close>

definition UaDataValue_assign :: "allocator \<Rightarrow> UaDataValue option \<Rightarrow> (UaDataValue, unit) op" where
  "UaDataValue_assign al other d =
     (if \<not> can_alloc al 80 then (Inl (UB NullDeref), UA_DataValue_init)
      else case UA_DataValue_copy al (case other of None \<Rightarrow> UA_DataValue_init | Some x \<Rightarrow> x) of
          Inl e \<Rightarrow> (Inl e, UA_DataValue_init)
        | Inr (_, d') \<Rightarrow> (Inr (), d'))"

interpretation ua_datavalue: assignable UaDataValue_assign wf_datavalue UA_DataValue_init
  by unfold_locales (simp_all add: UaDataValue_assign_def UA_DataValue_copy_ok)

definition UaDataValue_clone :: "allocator \<Rightarrow> UaDataValue \<Rightarrow> UaDataValue res" where
  "UaDataValue_clone al d = UaDataValue_copy al d"

lemma UaDataValue_clone_ok: "mem_ok al \<Longrightarrow> wf_datavalue d \<Longrightarrow> UaDataValue_clone al d = Inr d"
  by (simp add: UaDataValue_clone_def UaDataValue_copy_def UA_DataValue_copy_ok)

text \<open>
  \<open>operator==\<close>: \<open>None\<close> is the object itself. The flags are not compared; the values are, as variants
  copied for the purpose.
\<close>

definition UaDataValue_eq :: "(UA_value \<Rightarrow> UA_String) \<Rightarrow> (UA_value \<Rightarrow> byte list) \<Rightarrow> (UA_value \<Rightarrow> byte list)
    \<Rightarrow> allocator \<Rightarrow> UaDataValue \<Rightarrow> UaDataValue option \<Rightarrow> bool res" where
  "UaDataValue_eq pr rep rep' al d other = (case other of None \<Rightarrow> Inr True
     | Some o' \<Rightarrow>
         if dv_status d = dv_status o' \<and> dv_serverTimestamp d = dv_serverTimestamp o'
            \<and> dv_sourceTimestamp d = dv_sourceTimestamp o'
         then bind_res (UaVariant_fromStack al (dv_value d)) (\<lambda>a.
           bind_res (UaVariant_fromStack al (dv_value o')) (\<lambda>b. case (a, b) of
               (Live v, Live w) \<Rightarrow> UaVariant_eq pr rep rep' al v w
             | _ \<Rightarrow> Inl (UB UseAfterFree)))
         else Inr False)"

text \<open>\<open>setDataValue\<close> leaves a data value that holds exactly the given variant, status and
  timestamps, all marked present, whatever it held before; with detachment the argument ends up empty,
  without it unchanged; a copy of the result is equal to it field by field.\<close>

theorem UaDataValue_setDataValue_sets:
  assumes "mem_ok al" "wf_variant v"
  shows "\<exists>d'. UaDataValue_setDataValue al detach st src srv (d, Live v)
        = (Inr (), (d', Live (if detach then UA_Variant_init else v)))
    \<and> dv_value d' = v \<and> dv_status d' = st \<and> dv_sourceTimestamp d' = src \<and> dv_serverTimestamp d' = srv
    \<and> dv_hasValue d' \<and> dv_hasStatus d' \<and> dv_hasSourceTimestamp d' \<and> dv_hasServerTimestamp d'
    \<and> wf_datavalue d' \<and> UaDataValue_clone al d' = Inr d'"
proof -
  let ?d' = "d\<lparr>dv_value := v, dv_hasValue := True, dv_status := st, dv_hasStatus := True,
     dv_sourceTimestamp := src, dv_hasSourceTimestamp := True, dv_serverTimestamp := srv, dv_hasServerTimestamp := True\<rparr>"
  have "wf_datavalue ?d'" using assms(2) by (simp add: wf_datavalue_def)
  moreover have "UaDataValue_setDataValue al detach st src srv (d, Live v)
      = (Inr (), (?d', Live (if detach then UA_Variant_init else v)))"
    using assms by (simp add: UaDataValue_setDataValue_def put_variant_def UA_Variant_copy_ok Let_def
        UaVariant_clear_def destroyOpen62541Variant_def createAndCheckOpen62541Variant_def)
  ultimately show ?thesis using assms(1) by (auto intro: UaDataValue_clone_ok)
qed

theorem UaDataValue_setDataValue_sets_witness:
  "\<exists>d'. UaDataValue_setDataValue enough_memory True 0 5 6 (UA_DataValue_init, Live (UA_Variant_setScalar (VBool True) (UA_TYPES BOOLEAN)))
      = (Inr (), (d', Live UA_Variant_init)) \<and> dv_sourceTimestamp d' = 5 \<and> dv_serverTimestamp d' = 6"
  using UaDataValue_setDataValue_sets [OF mem_ok_enough, of "UA_Variant_setScalar (VBool True) (UA_TYPES BOOLEAN)" True 0 5 6 UA_DataValue_init]
  by (auto simp: UA_Variant_setScalar_def)

text \<open>Assigning one of the library's value objects to itself (\<open>UaString\<close>, \<open>UaByteString\<close>,
  \<open>UaNodeId\<close>, \<open>UaDataValue\<close>) succeeds and leaves it empty, because the content is released before it is
  copied; only \<open>UaVariant\<close> checks for itself and keeps its content.\<close>

theorem self_assignment_loses_content:
  assumes "mem_ok al" "wf_UaString s" "wf_bstr b" "wf_nodeid n" "wf_datavalue d"
  shows "UaString_assign al None s = (Inr (), Live UA_STRING_NULL)
    \<and> UaByteString_assign al None b = (Inr (), UA_STRING_NULL)
    \<and> UaNodeId_assign al None n = (Inr (), UaNodeId_default)
    \<and> UaDataValue_assign al None d = (Inr (), UA_DataValue_init)
    \<and> UaVariant_assign al None v = (Inr (), v)"
  using assms ua_string.assign_self ua_bytestring.assign_self ua_nodeid.assign_self ua_datavalue.assign_self
  by (simp add: UaVariant_assign_def UaNodeId_default_def UA_NodeId_null_def)

theorem self_assignment_loses_content_witness:
  "UaNodeId_assign enough_memory None (UA_NODEID_NUMERIC 2 85) = (Inr (), UA_NODEID_NUMERIC 0 0)"
  using self_assignment_loses_content [OF mem_ok_enough, of "Live UA_STRING_NULL" UA_STRING_NULL
      "UA_NODEID_NUMERIC 2 85" UA_DataValue_init]
  by (simp add: wf_nodeid_def UA_NODEID_NUMERIC_def UaNodeId_default_def)

text \<open>Assignment between different objects is a deep copy for all five classes, and a swap
  through a temporary exchanges two data values.\<close>

theorem assignment_copies:
  assumes "mem_ok al" "wf_UaString s" "wf_UaString s'" "wf_bstr b" "wf_bstr b'" "wf_nodeid n" "wf_nodeid n'"
    and "wf_datavalue d" "wf_datavalue d'" "wf_datavalue t" "wf_variant v"
  shows "UaString_assign al (Some s') s = (Inr (), s')
    \<and> UaByteString_assign al (Some b') b = (Inr (), b')
    \<and> UaNodeId_assign al (Some n') n = (Inr (), n')
    \<and> UaVariant_assign al (Some (Live v)) (Live w) = (Inr (), Live v)
    \<and> (let t' = snd (UaDataValue_assign al (Some d) t);
           d1 = snd (UaDataValue_assign al (Some d') d);
           d2 = snd (UaDataValue_assign al (Some t') d')
       in d1 = d' \<and> d2 = d)"
  using assms ua_string.assign_other ua_bytestring.assign_other ua_nodeid.assign_other
    ua_datavalue.swap [OF assms(1,8-10) refl refl refl] UaVariant_assign_ok
  by (simp add: Let_def)

theorem assignment_copies_witness:
  "UaNodeId_assign enough_memory (Some (UA_NODEID_NUMERIC 2 85)) (UA_NODEID_NUMERIC 0 1) = (Inr (), UA_NODEID_NUMERIC 2 85)"
  using assignment_copies [OF mem_ok_enough, of "Live UA_STRING_NULL" "Live UA_STRING_NULL" UA_STRING_NULL UA_STRING_NULL
      "UA_NODEID_NUMERIC 0 1" "UA_NODEID_NUMERIC 2 85" UA_DataValue_init UA_DataValue_init UA_DataValue_init UA_Variant_init]
  by (simp add: wf_nodeid_def UA_NODEID_NUMERIC_def)

text \<open>A setter that runs out of memory silently stores an empty value marked as present.\<close>

lemma UaDataValue_setValue_silent_loss:
  assumes "UA_Variant_copy al v = Inr (c, w)" "c \<noteq> OpcUa_Good" "\<not> detach"
    and "w = UA_Variant_init"
  shows "\<exists>d'. UaDataValue_setValue now al detach upd (d, Live v) = (Inr (), (d', Live v))
     \<and> UaVariant_isEmpty (dv_value d') \<and> dv_hasValue d'"
  using assms
  by (auto simp: UaDataValue_setValue_def put_variant_def Let_def UaVariant_isEmpty_def UA_Variant_isEmpty_def
      UA_Variant_init_def)

text \<open>Two data values with equal status and timestamps compare by their variants.\<close>

lemma UaDataValue_eq_values:
  assumes "mem_ok al" "wf_datavalue d" "wf_datavalue e" "dv_status d = dv_status e"
    and "dv_serverTimestamp d = dv_serverTimestamp e" "dv_sourceTimestamp d = dv_sourceTimestamp e"
  shows "UaDataValue_eq pr rep rep' al d (Some e) = UaVariant_eq pr rep rep' al (dv_value d) (dv_value e)"
  using assms by (simp add: UaDataValue_eq_def UaVariant_fromStack_ok wf_datavalue_def)

end
