(* ===== verification/AsyncOps.thy ===== *)
theory AsyncOps
  imports UaDataValues UaArrays
begin

text \<open>
  Asynchronous operations (\<open>src/async_operations.cpp\<close>, \<open>include/async_operations.h\<close>): the blocks that
  carry the result of one read, write or call, the handles that complete them, and the registry
  \<open>AsyncOperations\<close> with its completion queue. Sequential behaviour is here; the interleaving of server
  thread, workers and shutdown is in \<open>AsyncSystem\<close>. The stack's queue of waiting operations is modelled
  as far as these functions see it: an operation is known by the address of its output.
\<close>

subsection \<open>Blocks\<close>

datatype Phase = Initial | Finished | Deferred

text \<open>\<open>std::atomic::exchange\<close>: the old value, and the new state.\<close>

definition exchange :: "Phase \<Rightarrow> Phase \<Rightarrow> Phase \<times> Phase" where
  "exchange new old = (old, new)"

record AsyncReadBlock =
  rb_target :: nat
  rb_placeholderHasSourceTimestamp :: bool
  rb_placeholderHasServerTimestamp :: bool
  rb_placeholderSourceTimestamp :: int
  rb_placeholderServerTimestamp :: int
  rb_result :: "UaDataValue option"

text \<open>The constructor remembers which timestamps the stack asked for and their defaults.\<close>

definition AsyncReadBlock_new :: "nat \<Rightarrow> UA_DataValue \<Rightarrow> AsyncReadBlock" where
  "AsyncReadBlock_new target content = \<lparr>rb_target = target,
     rb_placeholderHasSourceTimestamp = dv_hasSourceTimestamp content,
     rb_placeholderHasServerTimestamp = dv_hasServerTimestamp content,
     rb_placeholderSourceTimestamp = dv_sourceTimestamp content,
     rb_placeholderServerTimestamp = dv_serverTimestamp content,
     rb_result = None\<rparr>"

definition AsyncReadBlock_setResult :: "allocator \<Rightarrow> UaDataValue \<Rightarrow> AsyncReadBlock \<Rightarrow> AsyncReadBlock res" where
  "AsyncReadBlock_setResult al result b = bind_res (UaDataValue_copy al result) (\<lambda>r. Inr (b\<lparr>rb_result := Some r\<rparr>))"

definition police_source :: "AsyncReadBlock \<Rightarrow> UA_DataValue \<Rightarrow> UA_DataValue" where
  "police_source b t =
     (if \<not> rb_placeholderHasSourceTimestamp b then t\<lparr>dv_hasSourceTimestamp := False, dv_sourceTimestamp := 0\<rparr>
      else if \<not> dv_hasSourceTimestamp t
      then t\<lparr>dv_hasSourceTimestamp := True, dv_sourceTimestamp := rb_placeholderSourceTimestamp b\<rparr> else t)"

definition police_server :: "AsyncReadBlock \<Rightarrow> UA_DataValue \<Rightarrow> UA_DataValue" where
  "police_server b t =
     (if \<not> rb_placeholderHasServerTimestamp b then t\<lparr>dv_hasServerTimestamp := False, dv_serverTimestamp := 0\<rparr>
      else if \<not> dv_hasServerTimestamp t
      then t\<lparr>dv_hasServerTimestamp := True, dv_serverTimestamp := rb_placeholderServerTimestamp b\<rparr> else t)"

text \<open>\<open>fillTarget\<close> on the content of the target; the status of the copy is ignored.\<close>

definition fillTarget :: "allocator \<Rightarrow> bool \<Rightarrow> AsyncReadBlock \<Rightarrow> UA_DataValue \<Rightarrow> UA_DataValue res" where
  "fillTarget al policeTimestamps b m_target = (case rb_result b of None \<Rightarrow> Inr m_target
     | Some r \<Rightarrow> bind_res (UA_DataValue_copy al r) (\<lambda>(_, t).
         if \<not> policeTimestamps then Inr t else Inr (police_server b (police_source b t))))"

record AsyncWriteBlock =
  wb_target :: nat
  wb_result :: UA_StatusCode

definition AsyncWriteBlock_new :: "nat \<Rightarrow> AsyncWriteBlock" where
  "AsyncWriteBlock_new target = \<lparr>wb_target = target, wb_result = OpcUa_BadInternalError\<rparr>"

definition AsyncWriteBlock_setResult :: "UA_StatusCode \<Rightarrow> AsyncWriteBlock \<Rightarrow> AsyncWriteBlock" where
  "AsyncWriteBlock_setResult status b = b\<lparr>wb_result := status\<rparr>"

record AsyncMethodBlock =
  mb_outputArray :: nat
  mb_outputSize :: nat
  mb_outputs :: "UA_Variant list"
  mb_result :: UA_StatusCode

definition AsyncMethodBlock_new :: "nat \<Rightarrow> nat \<Rightarrow> AsyncMethodBlock" where
  "AsyncMethodBlock_new outputArray outputSize = \<lparr>mb_outputArray = outputArray, mb_outputSize = outputSize,
     mb_outputs = [], mb_result = OpcUa_BadInternalError\<rparr>"

text \<open>The part of \<open>finishCall\<close> before the phase exchange: the arguments are assigned one by one.\<close>

fun copy_variants :: "allocator \<Rightarrow> UA_Variant list \<Rightarrow> UA_Variant list res" where
  "copy_variants al [] = Inr []"
| "copy_variants al (v # vs) = bind_res (UA_Variant_copy al v) (\<lambda>(status, w).
     if \<not> isGood (UaStatus_of status) then Inl (Throw (RuntimeError ''UA_Variant_copy failed:''))
     else bind_res (copy_variants al vs) (\<lambda>ws. Inr (w # ws)))"

definition finishCall_store :: "allocator \<Rightarrow> UA_Variant list \<Rightarrow> UA_StatusCode \<Rightarrow> AsyncMethodBlock \<Rightarrow> AsyncMethodBlock res" where
  "finishCall_store al outputArguments code b = bind_res (copy_variants al outputArguments) (\<lambda>vs.
     Inr (b\<lparr>mb_outputs := vs, mb_result := code\<rparr>))"

text \<open>\<open>copyOutputs\<close> overwrites as many outputs as both sides have.\<close>

fun copy_n :: "allocator \<Rightarrow> UA_Variant list \<Rightarrow> UA_Variant list \<Rightarrow> UA_Variant list res" where
  "copy_n al (v # vs) (t # ts) = bind_res (UA_Variant_copy al v) (\<lambda>(_, w).
     bind_res (copy_n al vs ts) (\<lambda>ws. Inr (w # ws)))"
| "copy_n al _ ts = Inr ts"

definition copyOutputs :: "allocator \<Rightarrow> AsyncMethodBlock \<Rightarrow> UA_Variant list \<Rightarrow> UA_Variant list res" where
  "copyOutputs al b m_outputArray =
     (let n = (if length (mb_outputs b) < mb_outputSize b then length (mb_outputs b) else mb_outputSize b)
      in copy_n al (take n (mb_outputs b)) m_outputArray)"

datatype Block = ReadBlock AsyncReadBlock | WriteBlock AsyncWriteBlock | MethodBlock AsyncMethodBlock

text \<open>\<open>key()\<close>: the address of the operation's output.\<close>

definition block_key :: "Block \<Rightarrow> nat" where
  "block_key b = (case b of ReadBlock r \<Rightarrow> rb_target r | WriteBlock w \<Rightarrow> wb_target w | MethodBlock m \<Rightarrow> mb_outputArray m)"

subsection \<open>The stack's waiting operations\<close>

datatype op_kind = ReadOp | WriteOp | CallOp

text \<open>The waiting operations, the memory of the outputs, and the results integrated so far, in order.\<close>

record async_stack =
  waitingOps :: "(op_kind \<times> nat) list"
  mem_read :: "nat \<Rightarrow> UA_DataValue"
  mem_call :: "nat \<Rightarrow> UA_Variant list"
  results :: "(nat \<times> UA_StatusCode) list"

definition processOperationResult :: "op_kind \<times> nat \<Rightarrow> UA_StatusCode \<Rightarrow> async_stack \<Rightarrow> async_stack" where
  "processOperationResult op code st =
     st\<lparr>waitingOps := remove1 op (waitingOps st), results := results st @ [(snd op, code)]\<rparr>"

definition UA_Server_setAsyncReadResult :: "nat \<Rightarrow> async_stack \<Rightarrow> UA_StatusCode \<times> async_stack" where
  "UA_Server_setAsyncReadResult result st = (case find (\<lambda>op. snd op = result) (waitingOps st) of
      Some op \<Rightarrow> (OpcUa_Good, processOperationResult op (dv_status (mem_read st result)) st)
    | None \<Rightarrow> (OpcUa_BadNotFound, st))"

definition UA_Server_setAsyncWriteResult :: "nat \<Rightarrow> UA_StatusCode \<Rightarrow> async_stack \<Rightarrow> UA_StatusCode \<times> async_stack" where
  "UA_Server_setAsyncWriteResult value code st = (case find (\<lambda>op. snd op = value) (waitingOps st) of
      Some op \<Rightarrow> (OpcUa_Good, processOperationResult op code st)
    | None \<Rightarrow> (OpcUa_BadNotFound, st))"

definition UA_Server_setAsyncCallMethodResult :: "nat \<Rightarrow> UA_StatusCode \<Rightarrow> async_stack \<Rightarrow> UA_StatusCode \<times> async_stack" where
  "UA_Server_setAsyncCallMethodResult output code st = (case find (\<lambda>op. fst op = CallOp \<and> snd op = output) (waitingOps st) of
      Some op \<Rightarrow> (OpcUa_Good, processOperationResult op code st)
    | None \<Rightarrow> (OpcUa_BadNotFound, st))"

subsection \<open>Finishing a block\<close>

text \<open>On the server thread, directly or through the stack. The status is the one the code logs.\<close>

definition finishInline :: "allocator \<Rightarrow> Block \<Rightarrow> async_stack \<Rightarrow> async_stack res" where
  "finishInline al b st = (case b of
      ReadBlock r \<Rightarrow> bind_res (fillTarget al False r (mem_read st (rb_target r))) (\<lambda>t.
        Inr (st\<lparr>mem_read := (mem_read st)(rb_target r := t)\<rparr>))
    | WriteBlock w \<Rightarrow> Inr st
    | MethodBlock m \<Rightarrow> bind_res (copyOutputs al m (mem_call st (mb_outputArray m))) (\<lambda>vs.
        Inr (st\<lparr>mem_call := (mem_call st)(mb_outputArray m := vs)\<rparr>)))"

definition finishDeferred :: "allocator \<Rightarrow> Block \<Rightarrow> async_stack \<Rightarrow> (UA_StatusCode \<times> async_stack) res" where
  "finishDeferred al b st = (case b of
      ReadBlock r \<Rightarrow> bind_res (fillTarget al True r (mem_read st (rb_target r))) (\<lambda>t.
        Inr (UA_Server_setAsyncReadResult (rb_target r) (st\<lparr>mem_read := (mem_read st)(rb_target r := t)\<rparr>)))
    | WriteBlock w \<Rightarrow> Inr (UA_Server_setAsyncWriteResult (wb_target w) (wb_result w) st)
    | MethodBlock m \<Rightarrow> bind_res (copyOutputs al m (mem_call st (mb_outputArray m))) (\<lambda>vs.
        Inr (UA_Server_setAsyncCallMethodResult (mb_outputArray m) (mb_result m)
               (st\<lparr>mem_call := (mem_call st)(mb_outputArray m := vs)\<rparr>))))"

text \<open>Filling the target of a deferred read delivers value and status of the result and
  exactly the timestamps the stack asked for: one it did not ask for is removed, one it asked for and the
  result lacks gets the placeholder's time, one the result has is kept.\<close>

theorem fillTarget_polices_timestamps:
  assumes "mem_ok al" "wf_datavalue r" "rb_result b = Some r"
  shows "\<exists>t. fillTarget al True b t0 = Inr t
    \<and> dv_value t = dv_value r \<and> dv_hasValue t = dv_hasValue r
    \<and> dv_status t = dv_status r \<and> dv_hasStatus t = dv_hasStatus r
    \<and> dv_hasSourceTimestamp t = rb_placeholderHasSourceTimestamp b
    \<and> dv_hasServerTimestamp t = rb_placeholderHasServerTimestamp b
    \<and> dv_sourceTimestamp t = (if \<not> rb_placeholderHasSourceTimestamp b then 0
         else if dv_hasSourceTimestamp r then dv_sourceTimestamp r else rb_placeholderSourceTimestamp b)
    \<and> dv_serverTimestamp t = (if \<not> rb_placeholderHasServerTimestamp b then 0
         else if dv_hasServerTimestamp r then dv_serverTimestamp r else rb_placeholderServerTimestamp b)"
  using assms by (simp add: fillTarget_def UA_DataValue_copy_ok police_source_def police_server_def)

theorem fillTarget_polices_timestamps_witness:
  "\<exists>t. fillTarget enough_memory True
      ((AsyncReadBlock_new 8 (UA_DataValue_init\<lparr>dv_hasServerTimestamp := True, dv_serverTimestamp := 77\<rparr>))
         \<lparr>rb_result := Some (UA_DataValue_init\<lparr>dv_hasSourceTimestamp := True, dv_sourceTimestamp := 5\<rparr>)\<rparr>) UA_DataValue_init = Inr t
    \<and> \<not> dv_hasSourceTimestamp t \<and> dv_serverTimestamp t = 77"
  using fillTarget_polices_timestamps [OF mem_ok_enough, of
      "UA_DataValue_init\<lparr>dv_hasSourceTimestamp := True, dv_sourceTimestamp := 5\<rparr>"
      "(AsyncReadBlock_new 8 (UA_DataValue_init\<lparr>dv_hasServerTimestamp := True, dv_serverTimestamp := 77\<rparr>))
         \<lparr>rb_result := Some (UA_DataValue_init\<lparr>dv_hasSourceTimestamp := True, dv_sourceTimestamp := 5\<rparr>)\<rparr>"
      UA_DataValue_init]
  by (auto simp: AsyncReadBlock_new_def UA_DataValue_init_def wf_datavalue_def)

lemma copy_n_ok:
  "mem_ok al \<Longrightarrow> list_all wf_variant vs \<Longrightarrow> length vs \<le> length ts \<Longrightarrow>
     copy_n al vs ts = Inr (vs @ drop (length vs) ts)"
proof (induction vs arbitrary: ts)
  case (Cons v vs)
  then obtain t ts' where "ts = t # ts'" by (cases ts) auto
  with Cons show ?case by (simp add: UA_Variant_copy_ok)
qed simp

lemma copyOutputs_ok:
  assumes "mem_ok al" "list_all wf_variant (mb_outputs b)" "length arr = mb_outputSize b"
  shows "copyOutputs al b arr = Inr (take (mb_outputSize b) (mb_outputs b) @ drop (length (mb_outputs b)) arr)"
proof -
  let ?n = "if length (mb_outputs b) < mb_outputSize b then length (mb_outputs b) else mb_outputSize b"
  have "list_all wf_variant (take ?n (mb_outputs b))"
    using assms(2) by (auto simp: list_all_iff dest: in_set_takeD)
  moreover have "length (take ?n (mb_outputs b)) \<le> length arr" using assms(3) by simp
  ultimately have "copy_n al (take ?n (mb_outputs b)) arr
      = Inr (take ?n (mb_outputs b) @ drop (length (take ?n (mb_outputs b))) arr)"
    by (rule copy_n_ok [OF assms(1)])
  then show ?thesis using assms(3) by (auto simp: copyOutputs_def Let_def)
qed

text \<open>The outputs of a method are copied into the stack's array up to the shorter of the
  two: surplus results are dropped, missing ones leave the stack's placeholder, no element is written
  outside the array.\<close>

theorem copyOutputs_copies:
  assumes "mem_ok al" "list_all wf_variant (mb_outputs b)" "length arr = mb_outputSize b"
  shows "copyOutputs al b arr = Inr (take (mb_outputSize b) (mb_outputs b) @ drop (length (mb_outputs b)) arr)"
  using assms by (rule copyOutputs_ok)

theorem copyOutputs_copies_witness:
  "copyOutputs enough_memory ((AsyncMethodBlock_new 8 1)\<lparr>mb_outputs := [UA_Variant_init, UA_Variant_init]\<rparr>)
     [UA_Variant_setScalar (VBool True) (UA_TYPES BOOLEAN)] = Inr [UA_Variant_init]"
  using copyOutputs_copies [OF mem_ok_enough, of "(AsyncMethodBlock_new 8 1)\<lparr>mb_outputs := [UA_Variant_init, UA_Variant_init]\<rparr>"
      "[UA_Variant_setScalar (VBool True) (UA_TYPES BOOLEAN)]"]
  by (simp add: AsyncMethodBlock_new_def)

end
