(* ===== verification/AsyncRegistry.thy ===== *)
theory AsyncRegistry
  imports AsyncOps
begin

text \<open>
  \<open>AsyncOperations\<close> (\<open>src/async_operations.cpp\<close>): the registry of pending operations, used by the server
  thread only, and the completion queue with its counter, used under the mutex. The registry is generic
  in the blocks; what it needs of them and of the stack is the locale \<open>async_server\<close>.
\<close>

subsection \<open>State and operations\<close>

record 'b AsyncOperations =
  m_pending :: "nat \<rightharpoonup> 'b"
  m_queue :: "'b list"
  m_serving :: bool
  m_closed :: bool
  m_inflight :: "32 word"

definition AsyncOperations_new :: "'b AsyncOperations" where
  "AsyncOperations_new = \<lparr>m_pending = Map.empty, m_queue = [], m_serving = False, m_closed = False, m_inflight = 0\<rparr>"

definition deferralActive :: "'b AsyncOperations \<Rightarrow> bool" where
  "deferralActive a \<longleftrightarrow> m_serving a \<and> \<not> m_closed a"

definition isClosed :: "'b AsyncOperations \<Rightarrow> bool" where
  "isClosed a = m_closed a"

definition setServing :: "'b AsyncOperations \<Rightarrow> 'b AsyncOperations" where
  "setServing a = a\<lparr>m_serving := True\<rparr>"

text \<open>\<open>establishDeferral\<close> is two atomic steps: the counter under the mutex, then the registry.\<close>

definition establish_count :: "'b AsyncOperations \<Rightarrow> 'b AsyncOperations" where
  "establish_count a = a\<lparr>m_inflight := m_inflight a + 1\<rparr>"

definition establish_register :: "nat \<Rightarrow> 'b \<Rightarrow> 'b AsyncOperations \<Rightarrow> 'b AsyncOperations" where
  "establish_register k b a = a\<lparr>m_pending := (m_pending a)(k \<mapsto> b)\<rparr>"

definition establishDeferral :: "('b \<Rightarrow> nat) \<Rightarrow> 'b \<Rightarrow> 'b AsyncOperations \<Rightarrow> 'b AsyncOperations" where
  "establishDeferral key b a = establish_register (key b) b (establish_count a)"

definition push :: "'b \<Rightarrow> 'b AsyncOperations \<Rightarrow> 'b AsyncOperations" where
  "push b a = (let a1 = (if \<not> m_closed a then a\<lparr>m_queue := m_queue a @ [b]\<rparr> else a)
     in a1\<lparr>m_inflight := m_inflight a1 - 1\<rparr>)"

text \<open>\<open>drain\<close>: the queue is taken under the mutex, then handled block by block.\<close>

definition drain_swap :: "'b AsyncOperations \<Rightarrow> 'b list \<times> 'b AsyncOperations" where
  "drain_swap a = (m_queue a, a\<lparr>m_queue := []\<rparr>)"

text \<open>\<open>std::map::erase\<close>.\<close>

definition erase :: "nat \<Rightarrow> (nat \<rightharpoonup> 'b) \<Rightarrow> (nat \<rightharpoonup> 'b)" where
  "erase k m = m(k := None)"

lemma erase_apply [simp]: "erase k m j = (if j = k then None else m j)"
  by (simp add: erase_def)

lemma dom_erase [simp]: "dom (erase k m) = dom m - {k}"
  by (auto simp: erase_def)

lemma erase_restrict: "erase k m |` (- K) = m |` (- insert k K)"
  by (auto simp: restrict_map_def fun_eq_iff)

text \<open>One block of the batch; \<open>finish\<close> is its \<open>finishDeferred\<close>. Shared pointers compare by identity.\<close>

definition drain_block :: "('b \<Rightarrow> nat) \<Rightarrow> ('b \<Rightarrow> 's \<Rightarrow> (UA_StatusCode \<times> 's) res) \<Rightarrow> 'b
    \<Rightarrow> 'b AsyncOperations \<times> 's \<Rightarrow> ('b AsyncOperations \<times> 's) res" where
  "drain_block key finish b = (\<lambda>(a, srv). case m_pending a (key b) of
       None \<Rightarrow> Inr (a, srv)
     | Some b' \<Rightarrow> if b' \<noteq> b then Inr (a, srv)
         else bind_res (finish b srv) (\<lambda>(_, srv').
           Inr (a\<lparr>m_pending := erase (key b) (m_pending a)\<rparr>, srv')))"

fun drain_batch :: "('b \<Rightarrow> nat) \<Rightarrow> ('b \<Rightarrow> 's \<Rightarrow> (UA_StatusCode \<times> 's) res) \<Rightarrow> 'b list
    \<Rightarrow> 'b AsyncOperations \<times> 's \<Rightarrow> ('b AsyncOperations \<times> 's) res" where
  "drain_batch key finish [] st = Inr st"
| "drain_batch key finish (b # bs) st = bind_res (drain_block key finish b st) (drain_batch key finish bs)"

definition drain :: "('b \<Rightarrow> nat) \<Rightarrow> ('b \<Rightarrow> 's \<Rightarrow> (UA_StatusCode \<times> 's) res)
    \<Rightarrow> 'b AsyncOperations \<times> 's \<Rightarrow> ('b AsyncOperations \<times> 's) res" where
  "drain key finish = (\<lambda>(a, srv). case drain_swap a of (batch, a') \<Rightarrow> drain_batch key finish batch (a', srv))"

definition cancel :: "nat \<Rightarrow> 'b AsyncOperations \<Rightarrow> 'b AsyncOperations" where
  "cancel k a = a\<lparr>m_pending := erase k (m_pending a)\<rparr>"

text \<open>\<open>shutdown\<close> closes the queue and waits for the counter, at most 60 seconds.\<close>

definition shutdown_close :: "'b AsyncOperations \<Rightarrow> 'b AsyncOperations" where
  "shutdown_close a = a\<lparr>m_closed := True\<rparr>"

definition shutdown_may_return :: "bool \<Rightarrow> 'b AsyncOperations \<Rightarrow> bool" where
  "shutdown_may_return timed_out a \<longleftrightarrow> m_inflight a = 0 \<or> timed_out"

definition clearRegistry :: "'b AsyncOperations \<Rightarrow> 'b AsyncOperations" where
  "clearRegistry a = a\<lparr>m_pending := Map.empty\<rparr>"

text \<open>The blocks of a batch that are still current when their turn comes.\<close>

fun answered :: "('b \<Rightarrow> nat) \<Rightarrow> (nat \<rightharpoonup> 'b) \<Rightarrow> 'b list \<Rightarrow> 'b list" where
  "answered key pend [] = []"
| "answered key pend (b # bs) =
     (if pend (key b) = Some b then b # answered key (erase (key b) pend) bs else answered key pend bs)"

lemma answered_pending: "b \<in> set (answered key pend bs) \<Longrightarrow> pend (key b) = Some b \<and> b \<in> set bs"
proof (induction bs arbitrary: pend)
  case (Cons x bs)
  show ?case
  proof (cases "pend (key x) = Some x")
    case True
    have "b \<in> set (answered key (erase (key x) pend) bs) \<Longrightarrow> erase (key x) pend (key b) = Some b \<and> b \<in> set bs"
      by (rule Cons.IH)
    with Cons.prems True show ?thesis by (auto split: if_splits)
  qed (use Cons in auto)
qed simp

lemma answered_distinct: "distinct (map key (answered key pend bs))"
proof (induction bs arbitrary: pend)
  case (Cons b bs)
  have "key b \<noteq> key c" if "c \<in> set (answered key (erase (key b) pend) bs)" for c
    using answered_pending [OF that] by (cases "key b = key c") auto
  with Cons show ?case by auto
qed simp

lemma answered_complete: "b \<in> set bs \<Longrightarrow> pend (key b) = Some b \<Longrightarrow> b \<in> set (answered key pend bs)"
proof (induction bs arbitrary: pend)
  case (Cons x bs)
  show ?case
  proof (cases "x = b")
    case False
    show ?thesis
    proof (cases "pend (key x) = Some x")
      case True
      with False Cons.prems have "key x \<noteq> key b" by auto
      with True False Cons show ?thesis by simp
    qed (use False Cons in auto)
  qed (use Cons.prems in auto)
qed simp

subsection \<open>The interface to the stack\<close>

text \<open>
  \<open>keys\<close> are the outputs of the operations the stack waits for, \<open>awaits srv b\<close> says that block \<open>b\<close> answers
  one of them. Finishing such a block is accepted and removes its operation and no other.
\<close>

locale async_server =
  fixes key :: "'b \<Rightarrow> nat"
    and finish :: "'b \<Rightarrow> 's \<Rightarrow> (UA_StatusCode \<times> 's) res"
    and keys :: "'s \<Rightarrow> nat set"
    and awaits :: "'s \<Rightarrow> 'b \<Rightarrow> bool"
    and log :: "'s \<Rightarrow> nat list"
  assumes awaits_key: "awaits s b \<Longrightarrow> key b \<in> keys s"
    and finish_accepted: "awaits s b \<Longrightarrow> \<exists>s'. finish b s = Inr (OpcUa_Good, s') \<and> keys s' = keys s - {key b}
        \<and> log s' = log s @ [key b] \<and> (\<forall>c. awaits s c \<longrightarrow> key c \<noteq> key b \<longrightarrow> awaits s' c)"
begin

text \<open>The registry and the stack agree: an entry for every waiting operation, and its own block.\<close>

definition agree :: "'b AsyncOperations \<Rightarrow> 's \<Rightarrow> bool" where
  "agree a s \<longleftrightarrow> dom (m_pending a) = keys s \<and> (\<forall>k b. m_pending a k = Some b \<longrightarrow> key b = k \<and> awaits s b)"

lemma drain_block_current:
  assumes "agree a s" "m_pending a (key b) = Some b"
  shows "\<exists>s'. drain_block key finish b (a, s) = Inr (cancel (key b) a, s') \<and> agree (cancel (key b) a) s'
     \<and> finish b s = Inr (OpcUa_Good, s') \<and> log s' = log s @ [key b]"
proof -
  have "awaits s b" using assms by (auto simp: agree_def)
  from finish_accepted [OF this] obtain s' where s': "finish b s = Inr (OpcUa_Good, s')"
    "keys s' = keys s - {key b}" "log s' = log s @ [key b]"
    "\<forall>c. awaits s c \<longrightarrow> key c \<noteq> key b \<longrightarrow> awaits s' c" by blast
  have "agree (cancel (key b) a) s'"
    using assms(1) s'(2,4) by (auto simp: agree_def cancel_def)
  with assms(2) s' show ?thesis by (simp add: drain_block_def cancel_def)
qed

lemma drain_block_stale:
  "m_pending a (key b) \<noteq> Some b \<Longrightarrow> drain_block key finish b (a, s) = Inr (a, s)"
  by (auto simp: drain_block_def split: option.split)

text \<open>
  Draining a batch never fails, keeps the agreement, answers exactly the current blocks, in order and each
  once, and leaves the entries of all other operations alone.
\<close>

lemma drain_batch_spec:
  "agree a s \<Longrightarrow> \<exists>a' s'. drain_batch key finish bs (a, s) = Inr (a', s') \<and> agree a' s'
     \<and> log s' = log s @ map key (answered key (m_pending a) bs)
     \<and> m_pending a' = m_pending a |` (- key ` set (answered key (m_pending a) bs))
     \<and> m_queue a' = m_queue a \<and> m_inflight a' = m_inflight a \<and> m_closed a' = m_closed a"
proof (induction bs arbitrary: a s)
  case (Cons b bs)
  show ?case
  proof (cases "m_pending a (key b) = Some b")
    case True
    from drain_block_current [OF Cons.prems True] obtain s1
      where s1: "drain_block key finish b (a, s) = Inr (cancel (key b) a, s1)" "agree (cancel (key b) a) s1"
        "log s1 = log s @ [key b]" by blast
    from Cons.IH [OF s1(2)] obtain a' s' where
      d: "drain_batch key finish bs (cancel (key b) a, s1) = Inr (a', s')" "agree a' s'"
        "log s' = log s1 @ map key (answered key (m_pending (cancel (key b) a)) bs)"
        "m_pending a' = m_pending (cancel (key b) a) |` (- key ` set (answered key (m_pending (cancel (key b) a)) bs))"
        "m_queue a' = m_queue (cancel (key b) a)" "m_inflight a' = m_inflight (cancel (key b) a)"
        "m_closed a' = m_closed (cancel (key b) a)"
      by blast
    with True s1 show ?thesis by (simp add: cancel_def erase_restrict)
  next
    case False
    with drain_block_stale [of a b s] Cons.IH [OF Cons.prems] show ?thesis by simp
  qed
qed (simp add: restrict_map_def)

lemma drain_spec:
  assumes "agree a s"
  shows "\<exists>a' s'. drain key finish (a, s) = Inr (a', s') \<and> agree a' s' \<and> m_queue a' = []
     \<and> log s' = log s @ map key (answered key (m_pending a) (m_queue a))
     \<and> m_pending a' = m_pending a |` (- key ` set (answered key (m_pending a) (m_queue a)))"
proof -
  have "agree (a\<lparr>m_queue := []\<rparr>) s" using assms by (simp add: agree_def)
  from drain_batch_spec [OF this, of "m_queue a"] show ?thesis
    by (auto simp: drain_def drain_swap_def)
qed

end

subsection \<open>The stack fulfils the interface\<close>

definition block_kind :: "Block \<Rightarrow> op_kind" where
  "block_kind b = (case b of ReadBlock _ \<Rightarrow> ReadOp | WriteBlock _ \<Rightarrow> WriteOp | MethodBlock _ \<Rightarrow> CallOp)"

definition waiting_keys :: "async_stack \<Rightarrow> nat set" where
  "waiting_keys st = snd ` set (waitingOps st)"

text \<open>A block whose result can be copied, for an operation of its kind, all outputs being distinct.\<close>

definition block_ok :: "async_stack \<Rightarrow> Block \<Rightarrow> bool" where
  "block_ok st b = (case b of
      ReadBlock r \<Rightarrow> (case rb_result r of None \<Rightarrow> True | Some d \<Rightarrow> wf_datavalue d)
    | WriteBlock _ \<Rightarrow> True
    | MethodBlock m \<Rightarrow> list_all wf_variant (mb_outputs m) \<and> length (mem_call st (mb_outputArray m)) = mb_outputSize m)"

definition stack_awaits :: "async_stack \<Rightarrow> Block \<Rightarrow> bool" where
  "stack_awaits st b \<longleftrightarrow> distinct (map snd (waitingOps st)) \<and> (block_kind b, block_key b) \<in> set (waitingOps st) \<and> block_ok st b"

lemma find_snd:
  "distinct (map snd ops) \<Longrightarrow> (k, p) \<in> set ops \<Longrightarrow> find (\<lambda>op. snd op = p) ops = Some (k, p)"
  by (induction ops) force+

lemma find_call:
  "distinct (map snd ops) \<Longrightarrow> (CallOp, p) \<in> set ops \<Longrightarrow> find (\<lambda>op. fst op = CallOp \<and> snd op = p) ops = Some (CallOp, p)"
  by (induction ops) force+

lemma remove1_keys:
  "distinct (map snd ops) \<Longrightarrow> op \<in> set ops \<Longrightarrow>
     snd ` set (remove1 op ops) = snd ` set ops - {snd op} \<and> distinct (map snd (remove1 op ops))"
  by (induction ops) (auto simp: distinct_map inj_on_def image_iff dest: notin_set_remove1)

text \<open>Finishing a current block in each of the three kinds.\<close>

lemma finishDeferred_accepted:
  assumes "mem_ok al" "stack_awaits st b"
  shows "\<exists>st' code. finishDeferred al b st = Inr (OpcUa_Good, st')
     \<and> waitingOps st' = remove1 (block_kind b, block_key b) (waitingOps st)
     \<and> results st' = results st @ [(block_key b, code)]
     \<and> (\<forall>p. p \<noteq> block_key b \<longrightarrow> mem_call st' p = mem_call st p)"
proof (cases b)
  case (ReadBlock r)
  have "\<exists>t. fillTarget al True r (mem_read st (rb_target r)) = Inr t"
    using assms ReadBlock by (auto simp: fillTarget_def stack_awaits_def block_ok_def UA_DataValue_copy_ok split: option.splits)
  with ReadBlock assms(2) find_snd [of "waitingOps st" ReadOp "rb_target r"] show ?thesis
    by (auto simp: finishDeferred_def UA_Server_setAsyncReadResult_def processOperationResult_def stack_awaits_def
        block_kind_def block_key_def)
next
  case (WriteBlock w)
  with assms(2) find_snd [of "waitingOps st" WriteOp "wb_target w"] show ?thesis
    by (auto simp: finishDeferred_def UA_Server_setAsyncWriteResult_def processOperationResult_def stack_awaits_def
        block_kind_def block_key_def)
next
  case (MethodBlock m)
  have "\<exists>vs. copyOutputs al m (mem_call st (mb_outputArray m)) = Inr vs"
    using assms MethodBlock copyOutputs_ok [OF assms(1), of m] by (simp add: stack_awaits_def block_ok_def)
  with MethodBlock assms(2) find_call [of "waitingOps st" "mb_outputArray m"] show ?thesis
    by (auto simp: finishDeferred_def UA_Server_setAsyncCallMethodResult_def processOperationResult_def stack_awaits_def
        block_kind_def block_key_def)
qed

text \<open>A shared pointer to a block: the address of the block object, which is what is compared, and its content.\<close>

type_synonym block_ptr = "nat \<times> Block"

definition ptr_key :: "block_ptr \<Rightarrow> nat" where
  "ptr_key p = block_key (snd p)"

definition ptr_finish :: "allocator \<Rightarrow> block_ptr \<Rightarrow> async_stack \<Rightarrow> (UA_StatusCode \<times> async_stack) res" where
  "ptr_finish al p st = finishDeferred al (snd p) st"

definition awaits_with :: "allocator \<Rightarrow> async_stack \<Rightarrow> block_ptr \<Rightarrow> bool" where
  "awaits_with al st p \<longleftrightarrow> mem_ok al \<and> stack_awaits st (snd p)"

definition answered_keys :: "async_stack \<Rightarrow> nat list" where
  "answered_keys st = map fst (results st)"

interpretation stack: async_server ptr_key "ptr_finish al" waiting_keys "awaits_with al" answered_keys for al
proof unfold_locales
  fix st p
  assume "awaits_with al st p"
  then have al: "mem_ok al" and b: "stack_awaits st (snd p)" by (simp_all add: awaits_with_def)
  then show "ptr_key p \<in> waiting_keys st" by (force simp: stack_awaits_def waiting_keys_def ptr_key_def)
  from finishDeferred_accepted [OF al b] obtain st' code where st': "finishDeferred al (snd p) st = Inr (OpcUa_Good, st')"
    "waitingOps st' = remove1 (block_kind (snd p), block_key (snd p)) (waitingOps st)"
    "results st' = results st @ [(block_key (snd p), code)]"
    "\<forall>q. q \<noteq> block_key (snd p) \<longrightarrow> mem_call st' q = mem_call st q" by blast
  have d: "distinct (map snd (waitingOps st))" "(block_kind (snd p), block_key (snd p)) \<in> set (waitingOps st)"
    using b by (simp_all add: stack_awaits_def)
  note rem = remove1_keys [OF d]
  have "awaits_with al st' c" if "awaits_with al st c" "ptr_key c \<noteq> ptr_key p" for c
    using that st' rem
    by (auto simp: awaits_with_def stack_awaits_def block_ok_def block_key_def ptr_key_def in_set_remove1 split: Block.splits)
  with st' rem show "\<exists>s'. ptr_finish al p st = Inr (OpcUa_Good, s') \<and> waiting_keys s' = waiting_keys st - {ptr_key p}
      \<and> answered_keys s' = answered_keys st @ [ptr_key p]
      \<and> (\<forall>c. awaits_with al st c \<longrightarrow> ptr_key c \<noteq> ptr_key p \<longrightarrow> awaits_with al s' c)"
    by (auto simp: waiting_keys_def answered_keys_def ptr_finish_def ptr_key_def)
qed

text \<open>Registry and stack agree: one entry per waiting operation, holding the block made for it.\<close>

definition registry_agrees :: "allocator \<Rightarrow> block_ptr AsyncOperations \<Rightarrow> async_stack \<Rightarrow> bool" where
  "registry_agrees al a st \<longleftrightarrow> dom (m_pending a) = waiting_keys st
     \<and> (\<forall>k b. m_pending a k = Some b \<longrightarrow> ptr_key b = k \<and> awaits_with al st b)"

lemma registry_agrees_agree: "registry_agrees al a st \<longleftrightarrow> stack.agree al a st"
  by (simp add: registry_agrees_def stack.agree_def)

text \<open>While registry and stack agree, \<open>drain\<close> finishes without error and keeps the agreement:
  it empties the queue and answers, in order and each once, exactly those completed operations whose own
  block is still registered. The completion of a cancelled operation is dropped even when its output
  address has been taken by a new operation, which stays pending.\<close>

theorem AsyncOperations_drain_answers:
  assumes "registry_agrees al a st"
  shows "\<exists>a' st'. drain ptr_key (ptr_finish al) (a, st) = Inr (a', st') \<and> registry_agrees al a' st'
     \<and> m_queue a' = []
     \<and> answered_keys st' = answered_keys st @ map ptr_key (answered ptr_key (m_pending a) (m_queue a))
     \<and> distinct (map ptr_key (answered ptr_key (m_pending a) (m_queue a)))
     \<and> (\<forall>b. b \<in> set (answered ptr_key (m_pending a) (m_queue a))
            \<longleftrightarrow> b \<in> set (m_queue a) \<and> m_pending a (ptr_key b) = Some b)
     \<and> (\<forall>k b. m_pending a k = Some b \<and> b \<notin> set (m_queue a) \<longrightarrow> m_pending a' k = Some b)"
proof -
  let ?ans = "answered ptr_key (m_pending a) (m_queue a)"
  from assms have agree: "stack.agree al a st" by (simp add: registry_agrees_agree)
  from stack.drain_spec [OF this] obtain a' st' where d:
    "drain ptr_key (ptr_finish al) (a, st) = Inr (a', st')" "stack.agree al a' st'" "m_queue a' = []"
    "answered_keys st' = answered_keys st @ map ptr_key ?ans"
    "m_pending a' = m_pending a |` (- ptr_key ` set ?ans)" by blast
  have mem: "b \<in> set ?ans \<longleftrightarrow> b \<in> set (m_queue a) \<and> m_pending a (ptr_key b) = Some b" for b
    using answered_pending [of b ptr_key "m_pending a" "m_queue a"]
      answered_complete [of b "m_queue a" "m_pending a" ptr_key] by blast
  have "m_pending a' k = Some b" if "m_pending a k = Some b" "b \<notin> set (m_queue a)" for k b
  proof -
    have "k \<notin> ptr_key ` set ?ans"
    proof
      assume "k \<in> ptr_key ` set ?ans"
      then obtain c where "c \<in> set ?ans" "k = ptr_key c" by blast
      with mem [of c] that show False by simp
    qed
    with that d(5) show ?thesis by simp
  qed
  with d mem answered_distinct show ?thesis by (auto simp: registry_agrees_agree)
qed

theorem AsyncOperations_drain_answers_witness:
  "\<exists>a' st'. drain ptr_key (ptr_finish enough_memory)
      (AsyncOperations_new\<lparr>m_pending := [8 \<mapsto> (2, WriteBlock (AsyncWriteBlock_new 8))],
         m_queue := [(1, WriteBlock (AsyncWriteBlock_new 8))]\<rparr>,
       \<lparr>waitingOps = [(WriteOp, 8)], mem_read = (\<lambda>_. UA_DataValue_init), mem_call = (\<lambda>_. []), results = []\<rparr>)
      = Inr (a', st') \<and> answered_keys st' = [] \<and> m_pending a' 8 = Some (2, WriteBlock (AsyncWriteBlock_new 8))"
proof -
  let ?b = "\<lambda>i :: nat. (i, WriteBlock (AsyncWriteBlock_new 8))"
  let ?a = "AsyncOperations_new\<lparr>m_pending := [8 \<mapsto> ?b 2], m_queue := [?b 1]\<rparr>"
  let ?st = "\<lparr>waitingOps = [(WriteOp, 8)], mem_read = (\<lambda>_. UA_DataValue_init), mem_call = (\<lambda>_. []), results = []\<rparr>"
  have "registry_agrees enough_memory ?a ?st"
    by (auto simp: registry_agrees_def waiting_keys_def awaits_with_def stack_awaits_def block_ok_def block_key_def
      block_kind_def AsyncWriteBlock_new_def ptr_key_def split: if_splits)
  note drained = AsyncOperations_drain_answers [OF this]
  obtain a' st' where d: "drain ptr_key (ptr_finish enough_memory) (?a, ?st) = Inr (a', st')"
    "answered_keys st' = answered_keys ?st @ map ptr_key (answered ptr_key (m_pending ?a) (m_queue ?a))"
    "\<forall>k b. m_pending ?a k = Some b \<and> b \<notin> set (m_queue ?a) \<longrightarrow> m_pending a' k = Some b"
    using drained by blast
  have "answered ptr_key (m_pending ?a) (m_queue ?a) = []"
    by (simp add: ptr_key_def block_key_def AsyncWriteBlock_new_def)
  then have keys: "answered_keys st' = []" using d(2) by (simp add: answered_keys_def)
  have "m_pending ?a 8 = Some (?b 2) \<and> ?b 2 \<notin> set (m_queue ?a)" by simp
  then have "m_pending a' 8 = Some (?b 2)" using d(3) by blast
  with d(1) keys show ?thesis by blast
qed

end
