(* ===== verification/AsyncSystem.thy ===== *)
theory AsyncSystem
  imports AsyncRegistry
begin

text \<open>
  The concurrent system around \<open>AsyncOperations\<close>: the server thread (\<open>unifiedRead\<close>, \<open>unifiedWrite\<close> and
  \<open>unifiedCall\<close> in \<open>src/nodemanagerbase.cpp\<close>, the drain in \<open>UaServer::runThread\<close>), any number of workers
  that complete operations through handles or \<open>finishCall\<close>, cancellation by the stack, and the shutdown
  in \<open>UaServer::stop\<close>. One event is one atomic step: a section under the mutex, an atomic exchange, or an
  access to data only one thread touches. A block is a number, its address; the data it carries is in
  \<open>AsyncOps\<close>.
\<close>

subsection \<open>State\<close>

text \<open>
  \<open>Locked\<close>: the worker holds a shared pointer to the block it pushes, which a handle always does and \<open>finishCall\<close> gets by
  locking \<open>m_self\<close>.
\<close>

datatype worker_pc = NoHandle | Running | ResultSet | OwesPush | Locked | Pushed

text \<open>Where the server thread is; after \<open>Joined\<close> it is the thread that called \<open>stop\<close>.\<close>

datatype server_pc = Idle | Dispatched nat | Establishing nat | Registering nat | Persisting nat
  | Draining "nat list" | Joined | Closing | Waited | FinalDrain "nat list" | Drained | Cleared | Deleted

text \<open>How an operation ended; \<open>Answered b\<close> was answered by the completion of block \<open>b\<close>.\<close>

datatype outcome = Inline | Refused | Cancelled | Answered nat

text \<open>
  \<open>waiting\<close> is the stack's list of waiting operations, by output address, with the block made for each;
  \<open>not_found\<close> counts results the stack had no operation for.
\<close>

record sys =
  ops :: "nat AsyncOperations"
  next_id :: nat
  key_of :: "nat \<Rightarrow> nat"
  is_method :: "nat \<Rightarrow> bool"
  phase :: "nat \<Rightarrow> Phase"
  worker :: "nat \<Rightarrow> worker_pc"
  server :: server_pc
  waiting :: "nat \<rightharpoonup> nat"
  outcome :: "nat \<Rightarrow> outcome option"
  not_found :: nat

definition sys_init :: sys where
  "sys_init = \<lparr>ops = AsyncOperations_new, next_id = 0, key_of = (\<lambda>_. 0), is_method = (\<lambda>_. False),
     phase = (\<lambda>_. Initial), worker = (\<lambda>_. NoHandle), server = Idle, waiting = Map.empty,
     outcome = (\<lambda>_. None), not_found = 0\<rparr>"

definition batch :: "sys \<Rightarrow> nat list" where
  "batch s = (case server s of Draining bs \<Rightarrow> bs | FinalDrain bs \<Rightarrow> bs | _ \<Rightarrow> [])"

text \<open>The block in the server thread's hands.\<close>

definition current :: "sys \<Rightarrow> nat option" where
  "current s = (case server s of Dispatched b \<Rightarrow> Some b | Establishing b \<Rightarrow> Some b | Registering b \<Rightarrow> Some b
     | Persisting b \<Rightarrow> Some b | _ \<Rightarrow> None)"

text \<open>
  A handle owns its block. A method's callback is a raw pointer: its block lives as long as the server
  thread, the registry, the queue, the batch or the worker that locked it holds a shared pointer to it.
\<close>

definition alive :: "sys \<Rightarrow> nat \<Rightarrow> bool" where
  "alive s b \<longleftrightarrow> \<not> is_method s b \<or> current s = Some b \<or> m_pending (ops s) (key_of s b) = Some b
     \<or> b \<in> set (m_queue (ops s)) \<or> b \<in> set (batch s) \<or> worker s b = Locked"

subsection \<open>Server thread\<close>

text \<open>
  The stack calls \<open>unifiedRead/Write\<close> (deferring only when serving and open) or \<open>unifiedCall\<close> (refused
  only when closed) with the address \<open>k\<close> of an output no waiting operation uses; a block is made and
  \<open>beginRead/beginWrite/beginCall\<close> gives it to a worker.
\<close>

definition dispatch :: "nat \<Rightarrow> bool \<Rightarrow> sys \<Rightarrow> sys option" where
  "dispatch k m s =
     (if server s = Idle \<and> waiting s k = None \<and> (if m then \<not> isClosed (ops s) else deferralActive (ops s))
      then Some (let b = next_id s in
        s\<lparr>next_id := b + 1, key_of := (key_of s)(b := k), is_method := (is_method s)(b := m),
          phase := (phase s)(b := Initial), worker := (worker s)(b := Running), server := Dispatched b\<rparr>)
      else None)"

text \<open>\<open>phase().exchange(Deferred)\<close>: finish inline, or go on to establish the deferral.\<close>

definition server_exchange :: "sys \<Rightarrow> sys option" where
  "server_exchange s = (case server s of
      Dispatched b \<Rightarrow>
        (case exchange Deferred (phase s b) of (old, new) \<Rightarrow>
          let s1 = s\<lparr>phase := (phase s)(b := new)\<rparr>
          in if old = Finished then Some (s1\<lparr>server := Idle, outcome := (outcome s)(b := Some Inline)\<rparr>)
             else Some (s1\<lparr>server := Establishing b\<rparr>))
    | _ \<Rightarrow> None)"

text \<open>
  \<open>beginCall\<close> returned a bad status without a dispatch (so no one will call back): the exchange finds the
  block unfinished and the status is returned.
\<close>

definition call_refused :: "sys \<Rightarrow> sys option" where
  "call_refused s = (case server s of
      Dispatched b \<Rightarrow>
        if is_method s b \<and> phase s b = Initial \<and> worker s b = Running
        then Some (s\<lparr>phase := (phase s)(b := Deferred), worker := (worker s)(b := NoHandle), server := Idle,
                     outcome := (outcome s)(b := Some Refused)\<rparr>)
        else None
    | _ \<Rightarrow> None)"

definition server_count :: "sys \<Rightarrow> sys option" where
  "server_count s = (case server s of
      Establishing b \<Rightarrow> Some (s\<lparr>ops := establish_count (ops s), server := Registering b\<rparr>) | _ \<Rightarrow> None)"

definition server_register :: "sys \<Rightarrow> sys option" where
  "server_register s = (case server s of
      Registering b \<Rightarrow> Some (s\<lparr>ops := establish_register (key_of s b) b (ops s), server := Persisting b\<rparr>) | _ \<Rightarrow> None)"

text \<open>
  Back in the stack with \<open>GOODCOMPLETESASYNCHRONOUSLY\<close>: the operation is queued as waiting, or, when its
  queue is full or the caller cannot wait, cancelled at once.
\<close>

definition stack_persist :: "bool \<Rightarrow> sys \<Rightarrow> sys option" where
  "stack_persist accepted s = (case server s of
      Persisting b \<Rightarrow>
        Some (if accepted then s\<lparr>waiting := (waiting s)(key_of s b \<mapsto> b), server := Idle\<rparr>
              else s\<lparr>ops := cancel (key_of s b) (ops s), outcome := (outcome s)(b := Some Cancelled), server := Idle\<rparr>)
    | _ \<Rightarrow> None)"

text \<open>Timeout, session close or cancel request: the stack drops the operation.\<close>

definition stack_cancel :: "nat \<Rightarrow> sys \<Rightarrow> sys option" where
  "stack_cancel k s = (if server s = Idle then
      (case waiting s k of None \<Rightarrow> None
       | Some b \<Rightarrow> Some (s\<lparr>waiting := erase k (waiting s), ops := cancel k (ops s),
                          outcome := (outcome s)(b := Some Cancelled)\<rparr>))
     else None)"

definition begin_drain :: "sys \<Rightarrow> sys option" where
  "begin_drain s = (case server s of
      Idle \<Rightarrow> (case drain_swap (ops s) of (bs, a) \<Rightarrow> Some (s\<lparr>ops := a, server := Draining bs\<rparr>))
    | Waited \<Rightarrow> (case drain_swap (ops s) of (bs, a) \<Rightarrow> Some (s\<lparr>ops := a, server := FinalDrain bs\<rparr>))
    | _ \<Rightarrow> None)"

text \<open>
  What the stack does with the result of block \<open>b\<close>: it goes to whatever operation waits at that address.
  This is the block's \<open>finishDeferred\<close> for \<open>drain_block\<close>.
\<close>

definition stack_result :: "(nat \<Rightarrow> nat) \<Rightarrow> nat \<Rightarrow> (nat \<rightharpoonup> nat) \<times> (nat \<Rightarrow> outcome option) \<times> nat
    \<Rightarrow> (UA_StatusCode \<times> (nat \<rightharpoonup> nat) \<times> (nat \<Rightarrow> outcome option) \<times> nat) res" where
  "stack_result key b = (\<lambda>(w, out, nf). case w (key b) of
      None \<Rightarrow> Inr (OpcUa_BadNotFound, w, out, nf + 1)
    | Some c \<Rightarrow> Inr (OpcUa_Good, erase (key b) w, out(c := Some (Answered b)), nf))"

definition drain_one :: "nat \<Rightarrow> sys \<Rightarrow> sys option" where
  "drain_one b s = (case drain_block (key_of s) (stack_result (key_of s)) b (ops s, waiting s, outcome s, not_found s) of
      Inl _ \<Rightarrow> None
    | Inr (a, w, out, nf) \<Rightarrow> Some (s\<lparr>ops := a, waiting := w, outcome := out, not_found := nf\<rparr>))"

definition drain_step :: "sys \<Rightarrow> sys option" where
  "drain_step s = (case server s of
      Draining [] \<Rightarrow> Some (s\<lparr>server := Idle\<rparr>)
    | Draining (b # bs) \<Rightarrow> map_option (\<lambda>s'. s'\<lparr>server := Draining bs\<rparr>) (drain_one b s)
    | FinalDrain [] \<Rightarrow> Some (s\<lparr>server := Drained\<rparr>)
    | FinalDrain (b # bs) \<Rightarrow> map_option (\<lambda>s'. s'\<lparr>server := FinalDrain bs\<rparr>) (drain_one b s)
    | _ \<Rightarrow> None)"

text \<open>\<open>stop\<close>: join, close, wait (or time out), drain, clear the registry.\<close>

definition stop_step :: "bool \<Rightarrow> sys \<Rightarrow> sys option" where
  "stop_step timed_out s = (case server s of
      Idle \<Rightarrow> Some (s\<lparr>server := Joined\<rparr>)
    | Joined \<Rightarrow> Some (s\<lparr>ops := shutdown_close (ops s), server := Closing\<rparr>)
    | Closing \<Rightarrow> if shutdown_may_return timed_out (ops s) then Some (s\<lparr>server := Waited\<rparr>) else None
    | Drained \<Rightarrow> Some (s\<lparr>ops := clearRegistry (ops s), server := Cleared\<rparr>)
    | _ \<Rightarrow> None)"

text \<open>\<open>UA_Server_delete\<close> cancels whatever still waits; then the operations object is deleted.\<close>

definition stack_delete :: "sys \<Rightarrow> sys option" where
  "stack_delete s = (if server s = Cleared then
      Some (s\<lparr>waiting := Map.empty,
              outcome := (\<lambda>b. if waiting s (key_of s b) = Some b then Some Cancelled else outcome s b),
              server := Deleted\<rparr>)
     else None)"

subsection \<open>Workers\<close>

definition worker_result :: "nat \<Rightarrow> sys \<Rightarrow> sys option" where
  "worker_result b s = (if worker s b = Running \<and> alive s b then Some (s\<lparr>worker := (worker s)(b := ResultSet)\<rparr>) else None)"

text \<open>
  \<open>phase().exchange(Finished)\<close>: the loser of the race with the server thread has to push. A handle has its shared pointer;
  a callback has to lock the weak one in the block first, which must still exist then.
\<close>

definition worker_exchange :: "nat \<Rightarrow> sys \<Rightarrow> sys option" where
  "worker_exchange b s = (if worker s b = ResultSet \<and> alive s b then
      (case exchange Finished (phase s b) of (old, new) \<Rightarrow>
        Some (s\<lparr>phase := (phase s)(b := new), worker := (worker s)
          (b := if old = Deferred then (if is_method s b then OwesPush else Locked) else Pushed)\<rparr>))
     else None)"

definition worker_lock :: "nat \<Rightarrow> sys \<Rightarrow> sys option" where
  "worker_lock b s = (if worker s b = OwesPush \<and> alive s b then Some (s\<lparr>worker := (worker s)(b := Locked)\<rparr>) else None)"

definition worker_push :: "nat \<Rightarrow> sys \<Rightarrow> sys option" where
  "worker_push b s = (if worker s b = Locked \<and> server s \<noteq> Deleted
     then Some (s\<lparr>ops := push b (ops s), worker := (worker s)(b := Pushed)\<rparr>) else None)"

subsection \<open>The transition system\<close>

datatype event = SetServing | Dispatch nat bool | ServerExchange | CallRefused | ServerCount | ServerRegister
  | StackPersist bool | StackCancel nat | BeginDrain | DrainStep | StopStep bool | StackDelete
  | WorkerResult nat | WorkerExchange nat | WorkerLock nat | WorkerPush nat

definition step :: "sys \<Rightarrow> event \<Rightarrow> sys option" where
  "step s e = (case e of
      SetServing \<Rightarrow> (if server s = Idle then Some (s\<lparr>ops := setServing (ops s)\<rparr>) else None)
    | Dispatch k m \<Rightarrow> dispatch k m s
    | ServerExchange \<Rightarrow> server_exchange s
    | CallRefused \<Rightarrow> call_refused s
    | ServerCount \<Rightarrow> server_count s
    | ServerRegister \<Rightarrow> server_register s
    | StackPersist a \<Rightarrow> stack_persist a s
    | StackCancel k \<Rightarrow> stack_cancel k s
    | BeginDrain \<Rightarrow> begin_drain s
    | DrainStep \<Rightarrow> drain_step s
    | StopStep t \<Rightarrow> stop_step t s
    | StackDelete \<Rightarrow> stack_delete s
    | WorkerResult b \<Rightarrow> worker_result b s
    | WorkerExchange b \<Rightarrow> worker_exchange b s
    | WorkerLock b \<Rightarrow> worker_lock b s
    | WorkerPush b \<Rightarrow> worker_push b s)"

inductive reach :: "sys \<Rightarrow> bool" where
  reach_init: "reach sys_init"
| reach_step: "reach s \<Longrightarrow> step s e = Some s' \<Longrightarrow> reach s'"

lemma reach_invariant:
  assumes "reach s" "P sys_init" "\<And>s e t. reach s \<Longrightarrow> P s \<Longrightarrow> step s e = Some t \<Longrightarrow> P t"
  shows "P s"
  using assms(1) by induction (fact assms(2), rule assms(3))

text \<open>Running a list of events.\<close>

fun run :: "event list \<Rightarrow> sys \<Rightarrow> sys option" where
  "run [] s = Some s"
| "run (e # es) s = (case step s e of None \<Rightarrow> None | Some s' \<Rightarrow> run es s')"

lemma run_reach: "reach s \<Longrightarrow> run es s = Some t \<Longrightarrow> reach t"
  by (induction es arbitrary: s) (auto split: option.splits intro: reach_step)

named_theorems async_steps \<open>the step functions\<close>

lemmas step_defs [async_steps] = dispatch_def server_exchange_def call_refused_def server_count_def
  server_register_def stack_persist_def stack_cancel_def begin_drain_def drain_step_def stop_step_def stack_delete_def
  worker_result_def worker_exchange_def worker_lock_def worker_push_def exchange_def

lemmas registry_defs [async_steps] = establish_count_def establish_register_def push_def drain_swap_def
  cancel_def shutdown_close_def clearRegistry_def setServing_def

subsection \<open>The registry mirrors the stack\<close>

text \<open>
  The invariant, on the components of the state it speaks of: the registry holds what the stack waits for
  (plus the block being persisted, minus everything once it is cleared); every waiting operation and the
  current one are undecided; conversely an undecided operation is one of these; and results only reach
  the operation their block was made for.
\<close>

definition current_of :: "server_pc \<Rightarrow> nat option" where
  "current_of pc = (case pc of Dispatched b \<Rightarrow> Some b | Establishing b \<Rightarrow> Some b | Registering b \<Rightarrow> Some b
     | Persisting b \<Rightarrow> Some b | _ \<Rightarrow> None)"

lemma current_of_simps [simp]:
  "current_of Idle = None" "current_of (Dispatched b) = Some b" "current_of (Establishing b) = Some b"
  "current_of (Registering b) = Some b" "current_of (Persisting b) = Some b" "current_of (Draining bs) = None"
  "current_of Joined = None" "current_of Closing = None" "current_of Waited = None"
  "current_of (FinalDrain bs) = None" "current_of Drained = None" "current_of Cleared = None" "current_of Deleted = None"
  by (simp_all add: current_of_def)

lemma current_server: "current s = current_of (server s)"
  by (simp add: current_def current_of_def)

definition expected_registry :: "server_pc \<Rightarrow> (nat \<rightharpoonup> nat) \<Rightarrow> (nat \<Rightarrow> nat) \<Rightarrow> (nat \<rightharpoonup> nat)" where
  "expected_registry pc w key = (case pc of Persisting b \<Rightarrow> w(key b \<mapsto> b) | Cleared \<Rightarrow> Map.empty
     | Deleted \<Rightarrow> Map.empty | _ \<Rightarrow> w)"

lemma expected_registry_simps [simp]:
  "expected_registry (Persisting b) w key = w(key b \<mapsto> b)" "expected_registry Cleared w key = Map.empty"
  "expected_registry Deleted w key = Map.empty" "expected_registry Idle w key = w"
  "expected_registry (Dispatched b) w key = w" "expected_registry (Establishing b) w key = w"
  "expected_registry (Registering b) w key = w" "expected_registry (Draining bs) w key = w"
  "expected_registry Joined w key = w" "expected_registry Closing w key = w" "expected_registry Waited w key = w"
  "expected_registry (FinalDrain bs) w key = w" "expected_registry Drained w key = w"
  by (simp_all add: expected_registry_def)

definition sound_on :: "server_pc \<Rightarrow> (nat \<rightharpoonup> nat) \<Rightarrow> (nat \<rightharpoonup> nat) \<Rightarrow> (nat \<Rightarrow> nat) \<Rightarrow> nat \<Rightarrow> (nat \<Rightarrow> outcome option)
    \<Rightarrow> (nat \<Rightarrow> worker_pc) \<Rightarrow> nat \<Rightarrow> bool" where
  "sound_on pc pend w key n out wk nf \<longleftrightarrow> pend = expected_registry pc w key
     \<and> (\<forall>k b. w k = Some b \<longrightarrow> key b = k \<and> b < n \<and> out b = None \<and> current_of pc \<noteq> Some b)
     \<and> (\<forall>b. current_of pc = Some b \<longrightarrow> b < n \<and> out b = None \<and> w (key b) = None)
     \<and> (\<forall>b. n \<le> b \<longrightarrow> wk b = NoHandle \<and> out b = None)
     \<and> (\<forall>b. b < n \<longrightarrow> out b = None \<longrightarrow> current_of pc = Some b \<or> w (key b) = Some b)
     \<and> (\<forall>c b. out c = Some (Answered b) \<longrightarrow> b = c) \<and> nf = 0"

definition sound :: "sys \<Rightarrow> bool" where
  "sound s \<longleftrightarrow> sound_on (server s) (m_pending (ops s)) (waiting s) (key_of s) (next_id s) (outcome s) (worker s) (not_found s)"

lemma sound_init: "sound sys_init"
  by (simp add: sound_def sound_on_def sys_init_def AsyncOperations_new_def)

lemmas sound_conjuncts = iffD1 [OF sound_on_def]
lemmas sound_rest = sound_conjuncts [THEN conjunct2, THEN conjunct2]

lemmas sound_registry = sound_conjuncts [THEN conjunct1]
lemmas sound_waiting = sound_conjuncts [THEN conjunct2, THEN conjunct1, rule_format]
lemmas sound_current = sound_rest [THEN conjunct1, rule_format]
lemmas sound_fresh = sound_rest [THEN conjunct2, THEN conjunct1, rule_format]
lemmas sound_undecided = sound_rest [THEN conjunct2, THEN conjunct2, THEN conjunct1, rule_format]
lemmas sound_answers = sound_rest [THEN conjunct2, THEN conjunct2, THEN conjunct2, THEN conjunct1, rule_format]
lemmas sound_found = sound_rest [THEN conjunct2, THEN conjunct2, THEN conjunct2, THEN conjunct2]

lemma sound_onI:
  assumes "pend = expected_registry pc w key"
    and "\<And>k b. w k = Some b \<Longrightarrow> key b = k \<and> b < n \<and> out b = None \<and> current_of pc \<noteq> Some b"
    and "\<And>b. current_of pc = Some b \<Longrightarrow> b < n \<and> out b = None \<and> w (key b) = None"
    and "\<And>b. n \<le> b \<Longrightarrow> wk b = NoHandle \<and> out b = None"
    and "\<And>b. b < n \<Longrightarrow> out b = None \<Longrightarrow> current_of pc = Some b \<or> w (key b) = Some b"
    and "\<And>c b. out c = Some (Answered b) \<Longrightarrow> b = c" and "nf = 0"
  shows "sound_on pc pend w key n out wk nf"
  unfolding sound_on_def
  by (rule conjI [OF assms(1)], rule conjI, intro allI impI, erule assms(2), rule conjI, intro allI impI, erule assms(3),
      rule conjI, intro allI impI, erule assms(4), rule conjI, intro allI impI, (erule assms(5), assumption),
      rule conjI, intro allI impI, erule assms(6), rule assms(7))

text \<open>Each kind of step on these components. Forgetting a waiting operation with its outcome:\<close>

lemma sound_forget:
  assumes S: "sound_on pc pend w key n out wk nf" and w: "w k = Some b"
    and pc: "current_of pc = None" "current_of pc' = None"
    and pend': "pend' = expected_registry pc' (erase k w) key" and own: "\<And>c. x = Answered c \<Longrightarrow> c = b"
  shows "sound_on pc' pend' (erase k w) key n (out(b \<mapsto> x)) wk nf"
proof (rule sound_onI)
  note wb = sound_waiting [OF S w]
  show "key c = j \<and> c < n \<and> (out(b \<mapsto> x)) c = None \<and> current_of pc' \<noteq> Some c" if "erase k w j = Some c" for j c
    using that sound_waiting [OF S, of j c] wb pc by (auto split: if_splits)
  show "wk c = NoHandle \<and> (out(b \<mapsto> x)) c = None" if "n \<le> c" for c
    using that sound_fresh [OF S that] wb by auto
  show "current_of pc' = Some c \<or> erase k w (key c) = Some c" if "c < n" "(out(b \<mapsto> x)) c = None" for c
    using that sound_undecided [OF S that(1)] pc wb w by (auto split: if_splits)
  show "d = c" if "(out(b \<mapsto> x)) c = Some (Answered d)" for c d
    using that sound_answers [OF S, of c d] own by (auto split: if_splits)
qed (use pend' pc sound_found [OF S] in simp_all)

lemma sound_move:
  assumes "sound_on pc pend w key n out wk nf" "current_of pc' = current_of pc"
    and "expected_registry pc' w key = expected_registry pc w key"
  shows "sound_on pc' pend w key n out wk nf"
  using assms by (simp add: sound_on_def)

lemma sound_dispatch:
  assumes S: "sound_on Idle pend w key n out wk nf" and w: "w k = None"
  shows "sound_on (Dispatched n) pend w (key(n := k)) (n + 1) out (wk(n := Running)) nf"
proof (rule sound_onI)
  show "(key(n := k)) b = j \<and> b < n + 1 \<and> out b = None \<and> current_of (Dispatched n) \<noteq> Some b" if "w j = Some b" for j b
    using sound_waiting [OF S that] by auto
  show "b < n + 1 \<and> out b = None \<and> w ((key(n := k)) b) = None" if "current_of (Dispatched n) = Some b" for b
    using that w sound_fresh [OF S, of n] by simp
  show "(wk(n := Running)) b = NoHandle \<and> out b = None" if "n + 1 \<le> b" for b
    using that sound_fresh [OF S, of b] by simp
  show "current_of (Dispatched n) = Some b \<or> w ((key(n := k)) b) = Some b" if "b < n + 1" "out b = None" for b
    using that sound_undecided [OF S, of b] by (cases "b = n") auto
qed (use sound_registry [OF S] sound_answers [OF S] sound_found [OF S] in auto)

lemma sound_finish:
  assumes S: "sound_on pc pend w key n out wk nf" and pc: "current_of pc = Some b"
    and pend': "pend' = w" and o': "\<And>c. o' \<noteq> Answered c" and wk': "\<And>c. n \<le> c \<Longrightarrow> wk' c = wk c"
  shows "sound_on Idle pend' w key n (out(b \<mapsto> o')) wk' nf"
proof (rule sound_onI)
  note cur = sound_current [OF S pc]
  show "key c = j \<and> c < n \<and> (out(b \<mapsto> o')) c = None \<and> current_of Idle \<noteq> Some c" if "w j = Some c" for j c
    using sound_waiting [OF S that] pc by auto
  show "wk' c = NoHandle \<and> (out(b \<mapsto> o')) c = None" if "n \<le> c" for c
    using sound_fresh [OF S that] wk' [OF that] cur that by auto
  show "current_of Idle = Some c \<or> w (key c) = Some c" if "c < n" "(out(b \<mapsto> o')) c = None" for c
    using that sound_undecided [OF S that(1)] pc by (auto split: if_splits)
  show "d = c" if "(out(b \<mapsto> o')) c = Some (Answered d)" for c d
    using that sound_answers [OF S, of c d] o' by (auto split: if_splits)
qed (use pend' sound_found [OF S] in simp_all)

lemma sound_register:
  assumes "sound_on (Registering b) pend w key n out wk nf"
  shows "sound_on (Persisting b) (pend(key b \<mapsto> b)) w key n out wk nf"
  using assms by (simp add: sound_on_def)

lemma sound_persist:
  assumes S: "sound_on (Persisting b) pend w key n out wk nf"
  shows "sound_on Idle pend (w(key b \<mapsto> b)) key n out wk nf"
proof (rule sound_onI)
  have cur: "b < n \<and> out b = None \<and> w (key b) = None" using sound_current [OF S] by simp
  show "key c = j \<and> c < n \<and> out c = None \<and> current_of Idle \<noteq> Some c" if "(w(key b \<mapsto> b)) j = Some c" for j c
    using that sound_waiting [OF S, of j c] cur by (auto split: if_splits)
  show "current_of Idle = Some c \<or> (w(key b \<mapsto> b)) (key c) = Some c" if "c < n" "out c = None" for c
    using sound_undecided [OF S that] cur by auto
qed (use sound_registry [OF S] sound_fresh [OF S] sound_answers [OF S] sound_found [OF S] in auto)

lemma sound_reject:
  assumes "sound_on (Persisting b) pend w key n out wk nf"
  shows "sound_on Idle (erase (key b) pend) w key n (out(b \<mapsto> Cancelled)) wk nf"
proof -
  have "w (key b) = None" using sound_current [OF assms] by simp
  then have "erase (key b) pend = w" using sound_registry [OF assms] by (auto simp: erase_def fun_eq_iff)
  then show ?thesis by (intro sound_finish [OF assms]) simp_all
qed

lemma sound_cancel:
  assumes "sound_on Idle pend w key n out wk nf" "w k = Some b"
  shows "sound_on Idle (erase k pend) (erase k w) key n (out(b \<mapsto> Cancelled)) wk nf"
  using sound_registry [OF assms(1)] by (intro sound_forget [OF assms]) simp_all

lemma sound_answer:
  assumes "sound_on pc w w key n out wk nf" "w (key b) = Some b" "current_of pc = None"
    and "current_of pc' = None" "expected_registry pc' = expected_registry Idle"
  shows "sound_on pc' (erase (key b) w) (erase (key b) w) key n (out(b \<mapsto> Answered b)) wk nf"
  using assms(5) by (intro sound_forget [OF assms(1-4)]) auto

lemma sound_clear:
  "sound_on Drained pend w key n out wk nf \<Longrightarrow> sound_on Cleared Map.empty w key n out wk nf"
  by (simp add: sound_on_def)

lemma sound_delete:
  assumes S: "sound_on Cleared pend w key n out wk nf"
  shows "sound_on Deleted pend Map.empty key n (\<lambda>b. if w (key b) = Some b then Some Cancelled else out b) wk nf"
proof (rule sound_onI)
  show "wk b = NoHandle \<and> (if w (key b) = Some b then Some Cancelled else out b) = None" if "n \<le> b" for b
    using sound_fresh [OF S that] sound_waiting [OF S, of "key b" b] that by auto
  show "current_of Deleted = Some b \<or> Map.empty (key b) = Some b"
    if "b < n" "(if w (key b) = Some b then Some Cancelled else out b) = None" for b
    using that sound_undecided [OF S that(1)] by (auto split: if_splits)
  show "b = c" if "(if w (key c) = Some c then Some Cancelled else out c) = Some (Answered b)" for c b
    using that sound_answers [OF S, of c b] by (auto split: if_splits)
qed (use sound_registry [OF S] sound_found [OF S] in simp_all)

lemma sound_worker:
  assumes S: "sound_on pc pend w key n out wk nf" and "wk b \<noteq> NoHandle"
  shows "sound_on pc pend w key n out (wk(b := x)) nf"
proof -
  have "\<not> n \<le> b" using assms sound_fresh [OF S, of b] by auto
  with S show ?thesis by (auto simp: sound_on_def)
qed

text \<open>One block of the batch, with the registry mirroring the stack.\<close>

lemma drain_one_cases:
  assumes "drain_one b s = Some s'" "m_pending (ops s) = waiting s"
  shows "(s' = s \<and> waiting s (key_of s b) \<noteq> Some b) \<or>
    (waiting s (key_of s b) = Some b \<and> s' = s\<lparr>ops := cancel (key_of s b) (ops s),
        waiting := erase (key_of s b) (waiting s), outcome := (outcome s)(b := Some (Answered b))\<rparr>)"
  using assms
  by (cases "waiting s (key_of s b)")
     (auto simp: drain_one_def drain_block_def stack_result_def cancel_def split: if_splits)

lemma sound_drain_one:
  assumes "sound s" "drain_one b s = Some t" "current_of (server s) = None" "current_of pc = None"
    and "expected_registry (server s) = expected_registry Idle" "expected_registry pc = expected_registry Idle"
  shows "sound (t\<lparr>server := pc\<rparr>)"
proof -
  have mir: "m_pending (ops s) = waiting s"
    using assms(1,5) sound_registry by (fastforce simp: sound_def)
  from drain_one_cases [OF assms(2) this] show ?thesis
  proof (elim disjE conjE)
    assume "t = s"
    with assms show ?thesis by (auto simp: sound_def intro: sound_move)
  next
    assume w: "waiting s (key_of s b) = Some b" and t: "t = s\<lparr>ops := cancel (key_of s b) (ops s),
        waiting := erase (key_of s b) (waiting s), outcome := (outcome s)(b := Some (Answered b))\<rparr>"
    from assms(1) mir have "sound_on (server s) (waiting s) (waiting s) (key_of s) (next_id s) (outcome s) (worker s) (not_found s)"
      by (simp add: sound_def)
    from sound_answer [OF this w assms(3,4,6)] show ?thesis
      by (simp add: t sound_def cancel_def mir)
  qed
qed

text \<open>Every step preserves it.\<close>

lemma sound_server_exchange: "sound s \<Longrightarrow> server_exchange s = Some t \<Longrightarrow> sound t"
proof -
  assume S: "sound s" and t: "server_exchange s = Some t"
  then obtain b where b: "server s = Dispatched b" by (auto simp: server_exchange_def split: server_pc.splits)
  from S b have S': "sound_on (Dispatched b) (m_pending (ops s)) (waiting s) (key_of s) (next_id s) (outcome s) (worker s) (not_found s)"
    by (simp add: sound_def)
  show ?thesis
  proof (cases "phase s b = Finished")
    case True
    with t b sound_registry [OF S'] show ?thesis
      by (auto simp: server_exchange_def exchange_def sound_def intro!: sound_finish [OF S'])
  next
    case False
    with t b sound_move [OF S', of "Establishing b"] show ?thesis
      by (auto simp: server_exchange_def exchange_def sound_def)
  qed
qed

lemma sound_call_refused: "sound s \<Longrightarrow> call_refused s = Some t \<Longrightarrow> sound t"
proof -
  assume S: "sound s" and t: "call_refused s = Some t"
  then obtain b where b: "server s = Dispatched b" by (auto simp: call_refused_def split: server_pc.splits)
  from S b have S': "sound_on (Dispatched b) (m_pending (ops s)) (waiting s) (key_of s) (next_id s) (outcome s) (worker s) (not_found s)"
    by (simp add: sound_def)
  have "b < next_id s" using sound_current [OF S'] by simp
  with t b sound_registry [OF S'] show ?thesis
    by (auto simp: call_refused_def sound_def split: if_splits intro!: sound_finish [OF S'])
qed

lemma sound_stack_persist: "sound s \<Longrightarrow> stack_persist a s = Some t \<Longrightarrow> sound t"
  by (auto simp: stack_persist_def sound_def cancel_def split: server_pc.splits if_splits intro: sound_persist sound_reject)

lemma sound_stack_cancel: "sound s \<Longrightarrow> stack_cancel k s = Some t \<Longrightarrow> sound t"
  by (auto simp: stack_cancel_def sound_def cancel_def split: option.splits if_splits intro!: sound_cancel)

lemma expected_registry_drain:
  "expected_registry (Draining bs) = expected_registry Idle" "expected_registry (FinalDrain bs) = expected_registry Idle"
  by (simp_all add: fun_eq_iff)

lemma sound_begin_drain: "sound s \<Longrightarrow> begin_drain s = Some t \<Longrightarrow> sound t"
  by (auto simp: begin_drain_def drain_swap_def sound_def split: server_pc.splits) (erule sound_move; simp)+

lemma sound_drain_done:
  "sound s \<Longrightarrow> server s = Draining [] \<Longrightarrow> sound (s\<lparr>server := Idle\<rparr>)"
  "sound s \<Longrightarrow> server s = FinalDrain [] \<Longrightarrow> sound (s\<lparr>server := Drained\<rparr>)"
  by (simp_all add: sound_def) (erule sound_move; simp)+

lemma sound_drain_step: "sound s \<Longrightarrow> drain_step s = Some t \<Longrightarrow> sound t"
  by (auto simp: drain_step_def sound_drain_done split: server_pc.splits list.splits)
     (erule (1) sound_drain_one; simp add: expected_registry_drain)+

lemma sound_stop_step: "sound s \<Longrightarrow> stop_step b s = Some t \<Longrightarrow> sound t"
  by (auto simp: stop_step_def sound_def shutdown_close_def clearRegistry_def sound_clear split: server_pc.splits if_splits)
     (erule sound_move; simp)+

lemma sound_stack_delete: "sound s \<Longrightarrow> stack_delete s = Some t \<Longrightarrow> sound t"
  by (auto simp: stack_delete_def sound_def split: if_splits intro!: sound_delete)

lemma sound_server_register: "sound s \<Longrightarrow> server_register s = Some t \<Longrightarrow> sound t"
  by (auto simp: server_register_def establish_register_def sound_def split: server_pc.splits intro!: sound_register)

lemma sound_server_count: "sound s \<Longrightarrow> server_count s = Some t \<Longrightarrow> sound t"
  by (auto simp: server_count_def establish_count_def sound_def split: server_pc.splits) (erule sound_move; simp)

lemma sound_dispatch_step: "sound s \<Longrightarrow> dispatch k m s = Some t \<Longrightarrow> sound t"
  using sound_dispatch [of "m_pending (ops s)" "waiting s" "key_of s" "next_id s" "outcome s" "worker s" "not_found s" k]
  by (auto simp: dispatch_def sound_def Let_def split: if_splits)

lemma sound_workers:
  "sound s \<Longrightarrow> worker_result b s = Some t \<Longrightarrow> sound t"
  "sound s \<Longrightarrow> worker_exchange b s = Some t \<Longrightarrow> sound t"
  "sound s \<Longrightarrow> worker_lock b s = Some t \<Longrightarrow> sound t"
  "sound s \<Longrightarrow> worker_push b s = Some t \<Longrightarrow> sound t"
  by (auto simp: worker_result_def worker_exchange_def worker_lock_def worker_push_def exchange_def push_def sound_def Let_def
      split: if_splits intro!: sound_worker)

lemmas sound_steps = sound_dispatch_step sound_server_exchange sound_call_refused sound_server_count
  sound_server_register sound_stack_persist sound_stack_cancel sound_begin_drain sound_drain_step sound_stop_step
  sound_stack_delete sound_workers

lemma sound_set_serving: "sound s \<Longrightarrow> sound (s\<lparr>ops := setServing (ops s)\<rparr>)"
  by (simp add: sound_def setServing_def)

lemma sound_step: "sound s \<Longrightarrow> step s e = Some t \<Longrightarrow> sound t"
  by (cases e) (simp add: step_def sound_set_serving split: if_splits, blast intro: sound_set_serving,
    (simp add: step_def, erule (1) sound_steps)+)

lemma reach_sound: "reach s \<Longrightarrow> sound s"
  by (induction rule: reach.induct) (auto intro: sound_init sound_step)

end
