(* ===== verification/AsyncLifecycle.thy ===== *)
theory AsyncLifecycle
  imports AsyncSystem
begin

text \<open>
  What the asynchronous system guarantees: the life cycle each operation refines, the accounting of
  \<open>m_inflight\<close>, completions that are not lost, and shutdown.
\<close>

subsection \<open>Shape of the state\<close>

text \<open>The queue is closed from \<open>shutdown\<close> on, and nothing waits once the stack is deleted.\<close>

definition closed_pc :: "server_pc \<Rightarrow> bool" where
  "closed_pc pc = (case pc of Closing \<Rightarrow> True | Waited \<Rightarrow> True | FinalDrain bs \<Rightarrow> True | Drained \<Rightarrow> True
     | Cleared \<Rightarrow> True | Deleted \<Rightarrow> True | _ \<Rightarrow> False)"

lemma closed_pc_simps [simp]:
  "\<not> closed_pc Idle" "\<not> closed_pc (Dispatched b)" "\<not> closed_pc (Establishing b)" "\<not> closed_pc (Registering b)"
  "\<not> closed_pc (Persisting b)" "\<not> closed_pc (Draining bs)" "\<not> closed_pc Joined" "closed_pc Closing" "closed_pc Waited"
  "closed_pc (FinalDrain bs)" "closed_pc Drained" "closed_pc Cleared" "closed_pc Deleted"
  by (simp_all add: closed_pc_def)

definition shaped :: "sys \<Rightarrow> bool" where
  "shaped s \<longleftrightarrow> m_closed (ops s) = closed_pc (server s) \<and> (server s = Deleted \<longrightarrow> waiting s = Map.empty)"

text \<open>Decided to defer, not counted yet.\<close>

definition counting :: "server_pc \<Rightarrow> 32 word" where
  "counting pc = (case pc of Establishing b \<Rightarrow> 1 | _ \<Rightarrow> 0)"

lemma counting_simps [simp]:
  "counting (Establishing b) = 1" "counting Idle = 0" "counting (Dispatched b) = 0" "counting (Registering b) = 0"
  "counting (Persisting b) = 0" "counting (Draining bs) = 0" "counting Joined = 0" "counting Closing = 0"
  "counting Waited = 0" "counting (FinalDrain bs) = 0" "counting Drained = 0" "counting Cleared = 0" "counting Deleted = 0"
  by (simp_all add: counting_def)

lemma drain_one_fields:
  assumes "drain_one b s = Some t"
  shows "m_closed (ops t) = m_closed (ops s)" "m_inflight (ops t) = m_inflight (ops s)" "m_queue (ops t) = m_queue (ops s)"
    "worker t = worker s" "phase t = phase s" "server t = server s" "next_id t = next_id s" "key_of t = key_of s"
    "is_method t = is_method s"
  using assms by (auto simp: drain_one_def drain_block_def stack_result_def bind_res_def split: option.splits if_splits)

lemma drain_step_fields:
  assumes "drain_step s = Some t"
  shows "phase t = phase s" "worker t = worker s" "m_inflight (ops t) = m_inflight (ops s)"
    "counting (server t) = counting (server s)" "server t \<noteq> Dispatched b" "server s \<noteq> Dispatched b"
    "next_id t = next_id s"
  using assms by (auto simp: drain_step_def drain_one_fields split: server_pc.splits list.splits)

lemma shaped_step: "shaped s \<Longrightarrow> step s e = Some t \<Longrightarrow> shaped t"
  by (cases e) (auto simp: step_def async_steps shaped_def Let_def dest: drain_one_fields(1)
    split: if_splits server_pc.splits list.splits option.splits)

lemma reach_shaped: "reach s \<Longrightarrow> shaped s"
  by (erule reach_invariant) (simp add: shaped_def sys_init_def AsyncOperations_new_def, erule (1) shaped_step)

subsection \<open>The handshake and the counter\<close>

text \<open>
  Both sides exchange the phase once. Where the two stand tells what the phase is; \<open>at_dispatch\<close> says the
  server thread has not exchanged yet.
\<close>

definition handshake :: "bool \<Rightarrow> Phase \<Rightarrow> worker_pc \<Rightarrow> bool" where
  "handshake at_dispatch ph w = (case w of
      NoHandle \<Rightarrow> \<not> at_dispatch
    | Running \<Rightarrow> ph = (if at_dispatch then Initial else Deferred)
    | ResultSet \<Rightarrow> ph = (if at_dispatch then Initial else Deferred)
    | OwesPush \<Rightarrow> ph = Finished \<and> \<not> at_dispatch
    | Locked \<Rightarrow> ph = Finished \<and> \<not> at_dispatch
    | Pushed \<Rightarrow> at_dispatch \<longrightarrow> ph = Finished)"

lemma handshake_simps [simp]:
  "handshake d ph NoHandle = (\<not> d)"
  "handshake d ph Running = (ph = (if d then Initial else Deferred))"
  "handshake d ph ResultSet = (ph = (if d then Initial else Deferred))"
  "handshake d ph OwesPush = (ph = Finished \<and> \<not> d)"
  "handshake d ph Locked = (ph = Finished \<and> \<not> d)"
  "handshake d ph Pushed = (d \<longrightarrow> ph = Finished)"
  by (simp_all add: handshake_def)

text \<open>The worker of such a block will push.\<close>

definition owes :: "Phase \<Rightarrow> worker_pc \<Rightarrow> bool" where
  "owes ph w \<longleftrightarrow> w = OwesPush \<or> w = Locked \<or> ph = Deferred \<and> (w = Running \<or> w = ResultSet)"

definition outstanding :: "sys \<Rightarrow> nat set" where
  "outstanding s = {b. owes (phase s b) (worker s b)}"

definition handshakes :: "sys \<Rightarrow> bool" where
  "handshakes s \<longleftrightarrow> (\<forall>b. handshake (server s = Dispatched b) (phase s b) (worker s b))"

lemma handshakesD: "handshakes s \<Longrightarrow> handshake (server s = Dispatched b) (phase s b) (worker s b)"
  by (simp add: handshakes_def)

lemma handshakes_cong:
  "handshakes s \<Longrightarrow> phase t = phase s \<Longrightarrow> worker t = worker s \<Longrightarrow>
     (\<And>b. server t = Dispatched b \<longleftrightarrow> server s = Dispatched b) \<Longrightarrow> handshakes t"
  by (simp add: handshakes_def)

text \<open>One block changes, all others keep phase, worker and their relation to the server thread.\<close>

lemma handshakes_update:
  assumes "handshakes s" "handshake (server t = Dispatched b) (phase t b) (worker t b)"
    and "\<And>c. c \<noteq> b \<Longrightarrow> phase t c = phase s c \<and> worker t c = worker s c \<and> (server t = Dispatched c \<longleftrightarrow> server s = Dispatched c)"
  shows "handshakes t"
  unfolding handshakes_def
proof
  fix c show "handshake (server t = Dispatched c) (phase t c) (worker t c)"
    using assms(2) assms(3) [of c] handshakesD [OF assms(1), of c] by (cases "c = b") simp_all
qed

lemma handshakes_step:
  assumes S: "sound s" and H: "handshakes s" and t: "step s e = Some t"
  shows "handshakes t"
proof (cases e)
  case (Dispatch k m)
  with t have t': "server s = Idle" "t = s\<lparr>next_id := next_id s + 1, key_of := (key_of s)(next_id s := k),
      is_method := (is_method s)(next_id s := m), phase := (phase s)(next_id s := Initial),
      worker := (worker s)(next_id s := Running), server := Dispatched (next_id s)\<rparr>"
    by (auto simp: step_def dispatch_def Let_def split: if_splits)
  show ?thesis by (rule handshakes_update [OF H, of _ "next_id s"]) (simp_all add: t')
next
  case ServerExchange
  with t obtain b where b: "server s = Dispatched b" by (auto simp: step_def server_exchange_def split: server_pc.splits)
  have "handshake (server t = Dispatched b) (phase t b) (worker t b)"
    using ServerExchange t b handshakesD [OF H, of b]
    by (cases "worker s b") (auto simp: step_def server_exchange_def exchange_def Let_def split: if_splits)
  with ServerExchange t b show ?thesis
    by (auto intro!: handshakes_update [OF H, of _ b] simp: step_def server_exchange_def exchange_def Let_def split: if_splits)
next
  case CallRefused
  with t obtain b where b: "server s = Dispatched b" by (auto simp: step_def call_refused_def split: server_pc.splits)
  with CallRefused t show ?thesis
    by (auto intro!: handshakes_update [OF H, of _ b] simp: step_def call_refused_def split: if_splits)
next
  case (WorkerResult b)
  with t handshakesD [OF H, of b] show ?thesis
    by (auto intro!: handshakes_update [OF H, of _ b] simp: step_def worker_result_def split: if_splits)
next
  case (WorkerExchange b)
  with t handshakesD [OF H, of b] show ?thesis
    by (auto intro!: handshakes_update [OF H, of _ b] simp: step_def worker_exchange_def exchange_def split: if_splits)
next
  case (WorkerLock b)
  with t handshakesD [OF H, of b] show ?thesis
    by (auto intro!: handshakes_update [OF H, of _ b] simp: step_def worker_lock_def split: if_splits)
next
  case (WorkerPush b)
  with t handshakesD [OF H, of b] show ?thesis
    by (auto intro!: handshakes_update [OF H, of _ b] simp: step_def worker_push_def split: if_splits)
next
  case DrainStep
  with t have "drain_step s = Some t" by (simp add: step_def)
  then show ?thesis by (intro handshakes_cong [OF H]) (simp_all add: drain_step_fields)
qed (use t in \<open>auto intro!: handshakes_cong [OF H] simp: step_def async_steps
      split: if_splits server_pc.splits option.splits\<close>)

lemma reach_handshakes: "reach s \<Longrightarrow> handshakes s"
  by (erule reach_invariant) (simp add: handshakes_def sys_init_def, blast intro: handshakes_step reach_sound)

lemma outstanding_cong: "phase t = phase s \<Longrightarrow> worker t = worker s \<Longrightarrow> outstanding t = outstanding s"
  by (simp add: outstanding_def)

lemma outstanding_bound: "sound s \<Longrightarrow> outstanding s \<subseteq> {..<next_id s}"
proof
  fix b assume S: "sound s" and b: "b \<in> outstanding s"
  from b have "worker s b \<noteq> NoHandle" by (auto simp: outstanding_def owes_def)
  with sound_fresh [OF S [unfolded sound_def], of b] show "b \<in> {..<next_id s}" by force
qed

lemma outstanding_finite: "sound s \<Longrightarrow> finite (outstanding s)"
  by (rule finite_subset [OF outstanding_bound]) simp_all

text \<open>
  The counter is the number of outstanding operations modulo \<open>2^32\<close>; while the server thread has decided to
  defer and not counted yet it lags by one, and wraps if the worker pushes first.
\<close>

definition balanced :: "sys \<Rightarrow> bool" where
  "balanced s \<longleftrightarrow> m_inflight (ops s) + counting (server s) = word_of_nat (card (outstanding s))"

lemma balanced_cong:
  "balanced s \<Longrightarrow> outstanding t = outstanding s \<Longrightarrow> m_inflight (ops t) = m_inflight (ops s) \<Longrightarrow>
     counting (server t) = counting (server s) \<Longrightarrow> balanced t"
  by (simp add: balanced_def)

text \<open>Changing one block without changing whether it is outstanding.\<close>

lemma outstanding_update:
  assumes "owes (phase t b) (worker t b) = owes (phase s b) (worker s b)"
    and "\<And>c. c \<noteq> b \<Longrightarrow> phase t c = phase s c \<and> worker t c = worker s c"
  shows "outstanding t = outstanding s"
proof -
  have "owes (phase t c) (worker t c) = owes (phase s c) (worker s c)" for c
    using assms(1) assms(2) [of c] by (cases "c = b") simp_all
  then show ?thesis by (simp add: outstanding_def)
qed

lemma balanced_server_exchange:
  assumes "sound s" "handshakes s" "balanced s" "server_exchange s = Some t"
  shows "balanced t"
proof -
  from assms(4) obtain b where b: "server s = Dispatched b" by (auto simp: server_exchange_def split: server_pc.splits)
  have h: "handshake True (phase s b) (worker s b)" using handshakesD [OF assms(2), of b] b by simp
  show ?thesis
  proof (cases "phase s b = Finished")
    case True
    with assms(4) b have t: "t = s\<lparr>phase := (phase s)(b := Deferred), server := Idle, outcome := (outcome s)(b := Some Inline)\<rparr>"
      by (simp add: server_exchange_def exchange_def)
    from h True have "worker s b = Pushed" by (cases "worker s b") auto
    with t have "outstanding t = outstanding s" by (intro outstanding_update [of _ b]) (auto simp: owes_def)
    with assms(3) b show ?thesis by (simp add: balanced_def t)
  next
    case False
    with assms(4) b have t: "t = s\<lparr>phase := (phase s)(b := Deferred), server := Establishing b\<rparr>"
      by (simp add: server_exchange_def exchange_def)
    from h False have w: "worker s b = Running \<or> worker s b = ResultSet" "phase s b = Initial" by (cases "worker s b"; simp)+
    have "outstanding t = insert b (outstanding s)" using w by (auto simp: outstanding_def owes_def t)
    moreover have "b \<notin> outstanding s" using w by (auto simp: outstanding_def owes_def)
    ultimately show ?thesis
      using assms(3) b outstanding_finite [OF assms(1)] by (simp add: balanced_def t)
  qed
qed

lemma balanced_push:
  assumes "sound s" "balanced s" "worker_push b s = Some t"
  shows "balanced t"
proof -
  from assms(3) have w: "worker s b = Locked" and t: "t = s\<lparr>ops := push b (ops s), worker := (worker s)(b := Pushed)\<rparr>"
    by (auto simp: worker_push_def split: if_splits)
  have b: "b \<in> outstanding s" using w by (simp add: outstanding_def owes_def)
  have "outstanding t = outstanding s - {b}" by (auto simp: outstanding_def owes_def t)
  moreover have "card (outstanding s) = Suc (card (outstanding s - {b}))"
    using b outstanding_finite [OF assms(1)] by (rule card.remove [OF _ _, rotated])
  ultimately show ?thesis
    using assms(2) by (simp add: balanced_def t push_def Let_def algebra_simps)
qed

lemma balanced_step:
  assumes S: "sound s" and H: "handshakes s" and B: "balanced s" and t: "step s e = Some t"
  shows "balanced t"
proof (cases e)
  case (Dispatch k m)
  have "worker s (next_id s) = NoHandle" using sound_fresh [OF S [unfolded sound_def], of "next_id s"] by simp
  with Dispatch t show ?thesis
    by (auto simp: step_def dispatch_def Let_def owes_def split: if_splits
        intro!: balanced_cong [OF B] outstanding_update [of _ "next_id s"])
next
  case ServerExchange
  with assms balanced_server_exchange show ?thesis by (simp add: step_def)
next
  case CallRefused
  with t obtain b where b: "server s = Dispatched b" by (auto simp: step_def call_refused_def split: server_pc.splits)
  with CallRefused t show ?thesis
    by (auto simp: step_def call_refused_def owes_def split: if_splits
        intro!: balanced_cong [OF B] outstanding_update [of _ b])
next
  case ServerCount
  with t obtain b where b: "server s = Establishing b" by (auto simp: step_def server_count_def split: server_pc.splits)
  with ServerCount t B show ?thesis
    by (auto simp: step_def server_count_def establish_count_def balanced_def outstanding_def)
next
  case (WorkerResult b)
  with t show ?thesis
    by (auto simp: step_def worker_result_def owes_def split: if_splits
        intro!: balanced_cong [OF B] outstanding_update [of _ b])
next
  case (WorkerExchange b)
  with t handshakesD [OF H, of b] show ?thesis
    by (auto simp: step_def worker_exchange_def exchange_def owes_def split: if_splits
        intro!: balanced_cong [OF B] outstanding_update [of _ b])
next
  case (WorkerLock b)
  with t show ?thesis
    by (auto simp: step_def worker_lock_def owes_def split: if_splits
        intro!: balanced_cong [OF B] outstanding_update [of _ b])
next
  case (WorkerPush b)
  with assms balanced_push show ?thesis by (simp add: step_def)
next
  case DrainStep
  with t have "drain_step s = Some t" by (simp add: step_def)
  then show ?thesis by (intro balanced_cong [OF B] outstanding_cong) (simp_all add: drain_step_fields)
qed (use t in \<open>auto intro!: balanced_cong [OF B] outstanding_cong simp: step_def async_steps
      split: if_splits server_pc.splits option.splits\<close>)

lemma reach_balanced: "reach s \<Longrightarrow> balanced s"
  by (erule reach_invariant)
     (simp add: balanced_def outstanding_def owes_def sys_init_def AsyncOperations_new_def,
      blast intro: balanced_step reach_sound reach_handshakes)

subsection \<open>The life cycle of an operation\<close>

text \<open>The contract, for one operation: begun once, decided once.\<close>

datatype op_state = Fresh | Begun | Pending | Done outcome

inductive op_step :: "nat \<Rightarrow> op_state \<Rightarrow> op_state \<Rightarrow> bool" for b where
  op_begin: "op_step b Fresh Begun"
| op_inline: "op_step b Begun (Done Inline)"
| op_refuse: "op_step b Begun (Done Refused)"
| op_defer: "op_step b Begun Pending"
| op_cancel: "op_step b Pending (Done Cancelled)"
| op_answer: "op_step b Pending (Done (Answered b))"

inductive_simps op_step_Done [simp]: "op_step b (Done x) y"
inductive_simps op_step_Fresh [simp]: "op_step b Fresh y"
inductive_simps op_step_Begun [simp]: "op_step b Begun y"
inductive_simps op_step_Pending [simp]: "op_step b Pending y"

definition abs_op :: "sys \<Rightarrow> nat \<Rightarrow> op_state" where
  "abs_op s b = (if next_id s \<le> b then Fresh
     else case outcome s b of Some x \<Rightarrow> Done x | None \<Rightarrow> if server s = Dispatched b then Begun else Pending)"

lemma abs_op_cong:
  "next_id t = next_id s \<Longrightarrow> outcome t b = outcome s b \<Longrightarrow> (server t = Dispatched b \<longleftrightarrow> server s = Dispatched b) \<Longrightarrow>
     abs_op t b = abs_op s b"
  by (simp add: abs_op_def)

lemma sound_sys:
  assumes "sound s"
  shows "current_of (server s) = Some b \<Longrightarrow> b < next_id s \<and> outcome s b = None \<and> waiting s (key_of s b) = None"
    and "waiting s k = Some b \<Longrightarrow> key_of s b = k \<and> b < next_id s \<and> outcome s b = None \<and> current_of (server s) \<noteq> Some b"
    and "next_id s \<le> b \<Longrightarrow> worker s b = NoHandle \<and> outcome s b = None"
  using sound_current [OF assms [unfolded sound_def], of b] sound_waiting [OF assms [unfolded sound_def], of k b]
    sound_fresh [OF assms [unfolded sound_def], of b]
  by blast+

text \<open>What a drain step does to the operations.\<close>

lemma drain_step_cases:
  assumes S: "sound s" and t: "drain_step s = Some t"
  shows "(outcome t = outcome s \<and> waiting t = waiting s)
     \<or> (\<exists>b. waiting s (key_of s b) = Some b \<and> b \<in> set (batch s) \<and> outcome t = (outcome s)(b := Some (Answered b)))"
proof -
  from t consider "outcome t = outcome s" "waiting t = waiting s"
    | b bs u where "server s = Draining (b # bs) \<or> server s = FinalDrain (b # bs)" "drain_one b s = Some u"
        "outcome t = outcome u" "waiting t = waiting u"
    by (auto simp: drain_step_def split: server_pc.splits list.splits)
  then show ?thesis
  proof cases
    case 2
    from 2(1) sound_registry [OF S [unfolded sound_def]] have "m_pending (ops s) = waiting s" by auto
    from drain_one_cases [OF 2(2) this] 2 show ?thesis by (auto simp: batch_def)
  qed simp
qed

lemma op_refines:
  assumes S: "sound s" and t: "step s e = Some t"
  shows "op_step b (abs_op s b) (abs_op t b) \<or> abs_op t b = abs_op s b"
proof (cases e)
  case (Dispatch k m)
  with t sound_sys(3) [OF S, of "next_id s"] show ?thesis
    by (auto simp: step_def dispatch_def Let_def abs_op_def not_le split: if_splits)
next
  case ServerExchange
  with t obtain c where "server s = Dispatched c" by (auto simp: step_def server_exchange_def split: server_pc.splits)
  with ServerExchange t sound_sys(1) [OF S, of c] show ?thesis
    by (auto simp: step_def server_exchange_def exchange_def abs_op_def Let_def split: if_splits option.splits)
next
  case CallRefused
  with t obtain c where "server s = Dispatched c" by (auto simp: step_def call_refused_def split: server_pc.splits)
  with CallRefused t sound_sys(1) [OF S, of c] show ?thesis
    by (auto simp: step_def call_refused_def abs_op_def split: if_splits option.splits)
next
  case (StackPersist a)
  with t obtain c where "server s = Persisting c" by (auto simp: step_def stack_persist_def split: server_pc.splits)
  with StackPersist t sound_sys(1) [OF S, of c] show ?thesis
    by (auto simp: step_def stack_persist_def abs_op_def split: if_splits option.splits)
next
  case (StackCancel k)
  with t obtain c where "server s = Idle" "waiting s k = Some c"
    by (auto simp: step_def stack_cancel_def split: option.splits if_splits)
  with StackCancel t sound_sys(2) [OF S, of k c] show ?thesis
    by (auto simp: step_def stack_cancel_def abs_op_def split: if_splits option.splits)
next
  case DrainStep
  with t have t: "drain_step s = Some t" by (simp add: step_def)
  from drain_step_cases [OF S t] show ?thesis
  proof (elim disjE exE conjE)
    assume "outcome t = outcome s"
    with drain_step_fields [OF t] have "abs_op t b = abs_op s b" by (intro abs_op_cong) simp_all
    then show ?thesis ..
  next
    fix c assume "waiting s (key_of s c) = Some c" "outcome t = (outcome s)(c := Some (Answered c))"
    with drain_step_fields [OF t] sound_sys(2) [OF S, of "key_of s c" c] show ?thesis
      by (cases "b = c") (auto simp: abs_op_def)
  qed
next
  case StackDelete
  then have "abs_op t b = abs_op s b \<or> waiting s (key_of s b) = Some b" and "server s = Cleared"
    using t by (auto simp: step_def stack_delete_def abs_op_def split: if_splits)
  then show ?thesis
    using StackDelete t sound_sys(2) [OF S, of "key_of s b" b] by (auto simp: step_def stack_delete_def abs_op_def)
qed (use t in \<open>auto intro!: abs_op_cong simp: step_def async_steps split: if_splits server_pc.splits option.splits\<close>)

text \<open>C1 (refinement). Every step of the system is, for each operation, a step of its life cycle or none:
  an operation is begun once and decided once, inline or refused before it is deferred, answered by the
  completion of its own block or cancelled after, and never changes its outcome.\<close>

theorem operation_lifecycle:
  assumes "reach s" "step s e = Some t"
  shows "op_step b (abs_op s b) (abs_op t b) \<or> abs_op t b = abs_op s b"
  using op_refines [OF reach_sound [OF assms(1)] assms(2)] .

definition deferred_read :: "event list" where
  "deferred_read = [SetServing, Dispatch 8 False, ServerExchange, ServerCount, ServerRegister, StackPersist True]"

lemmas run_eval = step_def async_steps sys_init_def AsyncOperations_new_def deferralActive_def isClosed_def Let_def

theorem operation_lifecycle_witness:
  "\<exists>s t. run deferred_read sys_init = Some s \<and> step s (StackCancel 8) = Some t
     \<and> abs_op s 0 = Pending \<and> abs_op t 0 = Done Cancelled \<and> op_step 0 (abs_op s 0) (abs_op t 0)"
proof -
  obtain s where s: "run deferred_read sys_init = Some s" "abs_op s 0 = Pending"
    "\<exists>t. step s (StackCancel 8) = Some t \<and> abs_op t 0 = Done Cancelled"
    by (simp add: deferred_read_def run_eval abs_op_def)
  then obtain t where t: "step s (StackCancel 8) = Some t" "abs_op t 0 = Done Cancelled" by blast
  have "reach s" by (rule run_reach [OF reach_init s(1)])
  from operation_lifecycle [OF this t(1), of 0] s t show ?thesis by auto
qed

end
