(* ===== verification/AsyncShutdown.thy ===== *)
theory AsyncShutdown
  imports AsyncLifecycle
begin

text \<open>
  Completion and shutdown of the asynchronous system: the counter that \<open>shutdown\<close> waits for, results
  that reach their own operation, completions that are not lost, and the state in which the operations
  object is deleted.
\<close>

subsection \<open>The counter\<close>

text \<open>C4 (invariant). In every reachable state \<open>m_inflight\<close> is the number of operations whose worker has yet
  to push, modulo \<open>2^32\<close>, short of the one the server thread has decided to defer but not yet counted:
  for any number of workers and any interleaving of exchange, count and push.\<close>

theorem inflight_counts_outstanding:
  assumes "reach s"
  shows "m_inflight (ops s) + counting (server s) = word_of_nat (card (outstanding s))"
  using reach_balanced [OF assms] by (simp add: balanced_def)

text \<open>A push that overtakes the count makes the counter wrap to the largest value until the count is made.\<close>

theorem inflight_counts_outstanding_witness:
  "\<exists>s. run [SetServing, Dispatch 8 False, ServerExchange, WorkerResult 0, WorkerExchange 0, WorkerPush 0] sys_init = Some s
     \<and> m_inflight (ops s) = 4294967295 \<and> m_inflight (ops s) + 1 = word_of_nat (card (outstanding s))"
proof -
  obtain s where s: "run [SetServing, Dispatch 8 False, ServerExchange, WorkerResult 0, WorkerExchange 0, WorkerPush 0] sys_init = Some s"
    "m_inflight (ops s) = 4294967295" "server s = Establishing 0"
    by (simp add: run_eval alive_def push_def)
  from inflight_counts_outstanding [OF run_reach [OF reach_init s(1)]] s show ?thesis by auto
qed

subsection \<open>Answers\<close>

text \<open>C5 (safety). Whatever the interleaving of cancellations, reuse of output addresses, completions and
  drains: a result handed to the stack always finds a waiting operation, and it is the operation the
  completed block was made for.\<close>

theorem results_reach_their_operation:
  assumes "reach s"
  shows "not_found s = 0 \<and> (outcome s c = Some (Answered b) \<longrightarrow> b = c)"
  using sound_answers [OF reach_sound [OF assms(1), unfolded sound_def], of c b]
    sound_found [OF reach_sound [OF assms(1), unfolded sound_def]] by simp

definition late_completion :: "event list" where
  "late_completion = deferred_read @ [WorkerResult 0, StackCancel 8, Dispatch 8 False, ServerExchange, ServerCount,
     ServerRegister, StackPersist True, WorkerExchange 0, WorkerPush 0, WorkerResult 1, WorkerExchange 1, WorkerPush 1,
     BeginDrain, DrainStep, DrainStep, DrainStep]"

theorem results_reach_their_operation_witness:
  "\<exists>s. run late_completion sys_init = Some s \<and> outcome s 0 = Some Cancelled
     \<and> outcome s 1 = Some (Answered 1) \<and> not_found s = 0"
proof -
  obtain s where s: "run late_completion sys_init = Some s" "outcome s 0 = Some Cancelled" "outcome s 1 = Some (Answered 1)"
    by (simp add: late_completion_def deferred_read_def run_eval alive_def push_def drain_one_def drain_block_def stack_result_def)
  from results_reach_their_operation [OF run_reach [OF reach_init s(1)], of 1 1] s show ?thesis by auto
qed

subsection \<open>No completion is lost\<close>

text \<open>Until the queue is closed, an undecided operation whose worker is done is in the queue or the batch, unless
  it is the one the server thread is about to finish inline.\<close>

definition retained :: "sys \<Rightarrow> bool" where
  "retained s \<longleftrightarrow> (\<forall>b. worker s b = Pushed \<longrightarrow> outcome s b = None \<longrightarrow> \<not> m_closed (ops s) \<longrightarrow> server s \<noteq> Dispatched b \<longrightarrow>
     b \<in> set (m_queue (ops s)) \<union> set (batch s))"

lemma retainedD: "retained s \<Longrightarrow> worker s b = Pushed \<Longrightarrow> outcome s b = None \<Longrightarrow> \<not> m_closed (ops s) \<Longrightarrow>
    server s \<noteq> Dispatched b \<Longrightarrow> b \<in> set (m_queue (ops s)) \<union> set (batch s)"
  unfolding retained_def by blast

lemma retainedI:
  assumes "retained s"
    and "\<And>b. worker t b = Pushed \<Longrightarrow> outcome t b = None \<Longrightarrow> \<not> m_closed (ops t) \<Longrightarrow> server t \<noteq> Dispatched b \<Longrightarrow>
      (worker s b = Pushed \<and> outcome s b = None \<and> \<not> m_closed (ops s) \<and> server s \<noteq> Dispatched b
        \<and> (b \<in> set (m_queue (ops s)) \<union> set (batch s) \<longrightarrow> b \<in> set (m_queue (ops t)) \<union> set (batch t)))
      \<or> b \<in> set (m_queue (ops t)) \<union> set (batch t)"
  shows "retained t"
  unfolding retained_def
proof (intro allI impI)
  fix b assume b: "worker t b = Pushed" "outcome t b = None" "\<not> m_closed (ops t)" "server t \<noteq> Dispatched b"
  from assms(2) [OF this] retainedD [OF assms(1), of b]
  show "b \<in> set (m_queue (ops t)) \<union> set (batch t)" by blast
qed

text \<open>The block at the head of the batch has been decided once its turn is over.\<close>

lemma drain_one_decides:
  assumes S: "sound s" and t: "drain_one b s = Some t" and b: "worker s b = Pushed"
    and pc: "current_of (server s) = None" "expected_registry (server s) = expected_registry Idle"
  shows "outcome t b \<noteq> None"
proof -
  note S' = S [unfolded sound_def]
  have mir: "m_pending (ops s) = waiting s" using sound_registry [OF S'] pc(2) by simp
  have "b < next_id s" using sound_sys(3) [OF S, of b] b by (cases "next_id s \<le> b") auto
  with drain_one_cases [OF t mir] sound_undecided [OF S', of b] pc(1) show ?thesis by auto
qed

lemma drain_one_keeps:
  assumes S: "sound s" and t: "drain_one b s = Some t" and x: "outcome s c = Some x"
    and pc: "expected_registry (server s) = expected_registry Idle"
  shows "outcome t c = Some x"
proof -
  have mir: "m_pending (ops s) = waiting s" using sound_registry [OF S [unfolded sound_def]] pc by simp
  from drain_one_cases [OF t mir] x sound_sys(2) [OF S, of "key_of s b" b] show ?thesis by auto
qed

lemma retained_drain_step:
  assumes S: "sound s" and R: "retained s" and t: "drain_step s = Some t"
  shows "retained t"
proof -
  from t consider "set (batch s) = {}" "batch t = []" "m_queue (ops t) = m_queue (ops s)" "outcome t = outcome s"
      "m_closed (ops t) = m_closed (ops s)"
    | c cs u where "server s = Draining (c # cs) \<or> server s = FinalDrain (c # cs)" "drain_one c s = Some u"
        "batch t = cs" "outcome t = outcome u" "m_queue (ops t) = m_queue (ops s)" "m_closed (ops t) = m_closed (ops s)"
    by (auto simp: drain_step_def batch_def drain_one_fields split: server_pc.splits list.splits)
  then show ?thesis
  proof cases
    case 1
    with t R show ?thesis by (auto intro!: retainedI [OF R] simp: drain_step_fields)
  next
    case 2
    then have pc: "current_of (server s) = None" "expected_registry (server s) = expected_registry Idle"
      by (auto simp: expected_registry_drain)
    have "batch s = c # cs" using 2(1) by (auto simp: batch_def)
    moreover have "outcome s b = None" if "outcome t b = None" for b
      using drain_one_keeps [OF S 2(2), of b] pc(2) that 2(4) by (cases "outcome s b") auto
    moreover have "b \<noteq> c" if "outcome t b = None" "worker t b = Pushed" for b
      using drain_one_decides [OF S 2(2) _ pc] that 2(4) drain_step_fields(2) [OF t] by auto
    ultimately show ?thesis
      using 2 t by (intro retainedI [OF R]) (auto simp: drain_step_fields)
  qed
qed

lemma retained_step:
  assumes S: "sound s" and H: "handshakes s" and R: "retained s" and t: "step s e = Some t"
  shows "retained t"
proof (cases e)
  case (Dispatch k m)
  with t show ?thesis
    by (auto intro!: retainedI [OF R] simp: step_def dispatch_def Let_def batch_def split: if_splits)
next
  case ServerExchange
  with t obtain c where c: "server s = Dispatched c" by (auto simp: step_def server_exchange_def split: server_pc.splits)
  with ServerExchange t handshakesD [OF H, of c] show ?thesis
    by (auto intro!: retainedI [OF R] simp: step_def server_exchange_def exchange_def batch_def Let_def split: if_splits)
next
  case CallRefused
  with t obtain c where c: "server s = Dispatched c" by (auto simp: step_def call_refused_def split: server_pc.splits)
  with CallRefused t show ?thesis
    by (auto intro!: retainedI [OF R] simp: step_def call_refused_def batch_def split: if_splits)
next
  case (WorkerExchange b)
  with t handshakesD [OF H, of b] show ?thesis
    by (auto intro!: retainedI [OF R] simp: step_def worker_exchange_def exchange_def batch_def split: if_splits)
next
  case (WorkerPush b)
  with t show ?thesis
    by (auto intro!: retainedI [OF R] simp: step_def worker_push_def push_def batch_def Let_def split: if_splits)
next
  case DrainStep
  with t show ?thesis by (simp add: step_def retained_drain_step [OF S R])
qed (use t in \<open>auto intro!: retainedI [OF R] simp: step_def async_steps batch_def split: if_splits server_pc.splits option.splits\<close>)

lemma reach_retained: "reach s \<Longrightarrow> retained s"
  by (erule reach_invariant)
     (simp add: retained_def sys_init_def, blast intro: retained_step reach_sound reach_handshakes)

lemma drain_one_total: "\<exists>t. drain_one b s = Some t"
  by (auto simp: drain_one_def drain_block_def stack_result_def split: option.split)

lemma drain_run:
  assumes "sound s" "server s = Draining bs"
  shows "\<exists>t. run (replicate (length bs + 1) DrainStep) s = Some t \<and> server t = Idle \<and> m_queue (ops t) = m_queue (ops s)
     \<and> (\<forall>b\<in>set bs. waiting s (key_of s b) = Some b \<longrightarrow> outcome t b = Some (Answered b))
     \<and> (\<forall>c x. outcome s c = Some x \<longrightarrow> outcome t c = Some x)"
  using assms
proof (induction bs arbitrary: s)
  case Nil
  then show ?case by (simp add: step_def drain_step_def)
next
  case (Cons b bs)
  from drain_one_total obtain u where u: "drain_one b s = Some u" by blast
  let ?s1 = "u\<lparr>server := Draining bs\<rparr>"
  have st: "step s DrainStep = Some ?s1" using Cons.prems u by (simp add: step_def drain_step_def)
  then have "sound ?s1" using Cons.prems(1) by (blast intro: sound_step)
  from Cons.IH [OF this] obtain t where t: "run (replicate (length bs + 1) DrainStep) ?s1 = Some t" "server t = Idle"
    "m_queue (ops t) = m_queue (ops u)"
    "\<forall>c\<in>set bs. waiting u (key_of u c) = Some c \<longrightarrow> outcome t c = Some (Answered c)"
    "\<forall>c x. outcome u c = Some x \<longrightarrow> outcome t c = Some x" by auto
  have pc: "expected_registry (server s) = expected_registry Idle" using Cons.prems(2) by (simp add: expected_registry_drain)
  have mir: "m_pending (ops s) = waiting s" using sound_registry [OF Cons.prems(1) [unfolded sound_def]] pc by simp
  have keep: "outcome t c = Some x" if "outcome s c = Some x" for c x
    using drain_one_keeps [OF Cons.prems(1) u that pc] t(5) by blast
  have ans: "outcome t c = Some (Answered c)" if "c \<in> set (b # bs)" "waiting s (key_of s c) = Some c" for c
  proof (cases "c = b")
    case True
    with drain_one_cases [OF u mir] that t(5) show ?thesis by auto
  next
    case False
    with drain_one_cases [OF u mir] that have "waiting u (key_of u c) = Some c" by auto
    with False that t(4) show ?thesis by auto
  qed
  have "run (replicate (length (b # bs) + 1) DrainStep) s = Some t" using st t(1) by simp
  moreover have "m_queue (ops t) = m_queue (ops s)" using t(3) drain_one_fields(3) [OF u] by simp
  ultimately show ?case using t(2) keep ans by (intro exI [of _ t] conjI ballI allI impI) assumption+
qed

text \<open>C3 (liveness). Whatever has happened before: when the server thread is between two iterations and the
  queue is still open, one drain (as many steps as the queue is long, and two) answers every operation
  that still waits and whose worker has finished, and leaves the queue empty and the server thread idle.\<close>

theorem drain_answers_completed:
  assumes "reach s" "server s = Idle"
  shows "\<exists>t. run (BeginDrain # replicate (length (m_queue (ops s)) + 1) DrainStep) s = Some t
     \<and> server t = Idle \<and> m_queue (ops t) = []
     \<and> (\<forall>k b. waiting s k = Some b \<and> worker s b = Pushed \<longrightarrow> outcome t b = Some (Answered b))"
proof -
  let ?s1 = "s\<lparr>ops := (ops s)\<lparr>m_queue := []\<rparr>, server := Draining (m_queue (ops s))\<rparr>"
  have st: "step s BeginDrain = Some ?s1" using assms(2) by (simp add: step_def begin_drain_def drain_swap_def)
  have S: "sound s" by (rule reach_sound [OF assms(1)])
  from sound_step [OF this st] have "sound ?s1" .
  from drain_run [OF this, of "m_queue (ops s)"] obtain t where
    t: "run (replicate (length (m_queue (ops s)) + 1) DrainStep) ?s1 = Some t" "server t = Idle" "m_queue (ops t) = []"
      "\<forall>b\<in>set (m_queue (ops s)). waiting s (key_of s b) = Some b \<longrightarrow> outcome t b = Some (Answered b)" by auto
  have "outcome t b = Some (Answered b)" if "waiting s k = Some b" "worker s b = Pushed" for k b
  proof -
    have w: "key_of s b = k" "outcome s b = None" using sound_sys(2) [OF S that(1)] by simp_all
    have "\<not> m_closed (ops s)" using reach_shaped [OF assms(1)] assms(2) by (simp add: shaped_def)
    with retainedD [OF reach_retained [OF assms(1)] that(2)] w assms(2)
    have "b \<in> set (m_queue (ops s))" by (simp add: batch_def)
    with t(4) w that(1) show ?thesis by simp
  qed
  moreover have "run (BeginDrain # replicate (length (m_queue (ops s)) + 1) DrainStep) s = Some t" using st t(1) by simp
  ultimately show ?thesis using t(2,3) by blast
qed

theorem drain_answers_completed_witness:
  "\<exists>s t. run (deferred_read @ [WorkerResult 0, WorkerExchange 0, WorkerPush 0]) sys_init = Some s
     \<and> run [BeginDrain, DrainStep, DrainStep] s = Some t \<and> outcome t 0 = Some (Answered 0)"
proof -
  obtain s where s: "run (deferred_read @ [WorkerResult 0, WorkerExchange 0, WorkerPush 0]) sys_init = Some s"
    "server s = Idle" "waiting s 8 = Some 0" "worker s 0 = Pushed" "length (m_queue (ops s)) = 1"
    by (simp add: deferred_read_def run_eval alive_def push_def)
  from drain_answers_completed [OF run_reach [OF reach_init s(1)] s(2)] obtain t where
    "run (BeginDrain # replicate (length (m_queue (ops s)) + 1) DrainStep) s = Some t" "outcome t 0 = Some (Answered 0)"
    using s(3,4) by blast
  moreover from s(5) have "BeginDrain # replicate (length (m_queue (ops s)) + 1) DrainStep = [BeginDrain, DrainStep, DrainStep]"
    by (simp add: numeral_2_eq_2)
  ultimately have "run [BeginDrain, DrainStep, DrainStep] s = Some t" "outcome t 0 = Some (Answered 0)" by (simp_all only:)
  with s(1) show ?thesis by blast
qed

subsection \<open>Shutdown\<close>

definition quiet :: "sys \<Rightarrow> bool" where
  "quiet s \<longleftrightarrow> closed_pc (server s) \<and> (\<forall>b. worker s b = NoHandle \<or> worker s b = Pushed)"

lemma quiet_worker: "quiet s \<Longrightarrow> worker s b = NoHandle \<or> worker s b = Pushed"
  by (simp add: quiet_def)

lemma quiet_cong: "quiet s \<Longrightarrow> worker t = worker s \<Longrightarrow> closed_pc (server t) \<Longrightarrow> quiet t"
  by (simp add: quiet_def)

lemma closed_pc_cases: "closed_pc pc \<Longrightarrow> pc = Closing \<or> pc = Waited \<or> (\<exists>bs. pc = FinalDrain bs) \<or> pc = Drained
    \<or> pc = Cleared \<or> pc = Deleted"
  by (cases pc) simp_all

lemma quiet_drain_step:
  assumes "quiet s" "drain_step s = Some t"
  shows "quiet t"
proof (rule quiet_cong [OF assms(1) drain_step_fields(2) [OF assms(2)]])
  have "closed_pc (server s)" using assms(1) by (simp add: quiet_def)
  then show "closed_pc (server t)" using assms(2) by (auto simp: drain_step_def split: server_pc.splits list.splits)
qed

lemma quiet_step:
  assumes Q: "quiet s" and t: "step s e = Some t"
  shows "quiet t"
proof -
  from Q have "closed_pc (server s)" by (simp add: quiet_def)
  note pc = closed_pc_cases [OF this]
  show ?thesis
  proof (cases e)
    case (WorkerResult b)
    with t quiet_worker [OF Q, of b] show ?thesis by (auto simp: step_def worker_result_def split: if_splits)
  next
    case (WorkerExchange b)
    with t quiet_worker [OF Q, of b] show ?thesis by (auto simp: step_def worker_exchange_def split: if_splits)
  next
    case (WorkerLock b)
    with t quiet_worker [OF Q, of b] show ?thesis by (auto simp: step_def worker_lock_def split: if_splits)
  next
    case (WorkerPush b)
    with t quiet_worker [OF Q, of b] show ?thesis by (auto simp: step_def worker_push_def split: if_splits)
  next
    case DrainStep
    with t show ?thesis by (simp add: step_def quiet_drain_step [OF Q])
  qed (use t pc in \<open>auto intro!: quiet_cong [OF Q] simp: step_def async_steps
        split: if_splits server_pc.splits option.splits\<close>)
qed

lemma quiet_run: "quiet s \<Longrightarrow> run es s = Some t \<Longrightarrow> quiet t"
  by (induction es arbitrary: s) (auto split: option.splits intro: quiet_step)

text \<open>At \<open>Closing\<close> an unfinished worker is outstanding: no operation is half dispatched.\<close>

lemma closing_outstanding:
  assumes "handshakes s" "closed_pc (server s)" "worker s b \<noteq> NoHandle" "worker s b \<noteq> Pushed"
  shows "b \<in> outstanding s"
proof -
  have "server s \<noteq> Dispatched b" using assms(2) by auto
  with handshakesD [OF assms(1), of b] assms(3,4) show ?thesis
    by (cases "worker s b") (auto simp: outstanding_def owes_def)
qed

text \<open>C2 (safety). When \<open>shutdown\<close> returns without a timeout, fewer than \<open>2^32\<close> operations being outstanding,
  no worker has anything left to do: through the rest of \<open>stop\<close>, the deletion of the operations object
  included, no worker writes a result, exchanges a phase, locks a block or pushes.\<close>

theorem shutdown_quiesces_workers:
  assumes "reach s" "server s = Closing" "card (outstanding s) < 2 ^ 32"
    and "step s (StopStep False) = Some t" "run es t = Some u"
  shows "(worker u b = NoHandle \<or> worker u b = Pushed)
     \<and> step u (WorkerResult b) = None \<and> step u (WorkerExchange b) = None \<and> step u (WorkerLock b) = None \<and> step u (WorkerPush b) = None"
proof -
  from assms(2,4) have t: "m_inflight (ops s) = 0" "t = s\<lparr>server := Waited\<rparr>"
    by (auto simp: step_def stop_step_def shutdown_may_return_def split: if_splits)
  have S: "sound s" by (rule reach_sound [OF assms(1)])
  from reach_balanced [OF assms(1)] t(1) assms(2) have "(word_of_nat (card (outstanding s)) :: 32 word) = 0"
    by (simp add: balanced_def)
  then have "card (outstanding s) = 0"
    using assms(3) nat_dvd_not_less by (fastforce simp: word_of_nat_eq_0_iff)
  with outstanding_finite [OF S] have "outstanding s = {}" by simp
  with closing_outstanding [OF reach_handshakes [OF assms(1)]] assms(2)
  have "quiet t" by (auto simp: quiet_def t(2))
  from quiet_worker [OF quiet_run [OF this assms(5)], of b] show ?thesis
    by (auto simp: step_def worker_result_def worker_exchange_def worker_lock_def worker_push_def)
qed

theorem shutdown_quiesces_workers_witness:
  "\<exists>s t. run (deferred_read @ [WorkerResult 0, WorkerExchange 0, StopStep True, StopStep True, WorkerPush 0]) sys_init = Some s
     \<and> run [StopStep False, BeginDrain, DrainStep, StopStep True, StackDelete] s = Some t
     \<and> server t = Deleted \<and> step t (WorkerPush 0) = None"
proof -
  obtain s where s: "run (deferred_read @ [WorkerResult 0, WorkerExchange 0, StopStep True, StopStep True, WorkerPush 0]) sys_init = Some s"
    "server s = Closing" "outstanding s = {}"
    "\<exists>t. run [StopStep False, BeginDrain, DrainStep, StopStep True, StackDelete] s = Some t \<and> server t = Deleted"
    by (simp add: deferred_read_def run_eval alive_def push_def outstanding_def owes_def shutdown_may_return_def)
  then obtain t where t: "run [StopStep False, BeginDrain, DrainStep, StopStep True, StackDelete] s = Some t" "server t = Deleted"
    by blast
  from t(1) obtain w where w: "step s (StopStep False) = Some w" "run [BeginDrain, DrainStep, StopStep True, StackDelete] w = Some t"
    by (auto split: option.splits)
  have "card (outstanding s) < 2 ^ 32" using s(3) by simp
  from shutdown_quiesces_workers [OF run_reach [OF reach_init s(1)] s(2) this w, of 0] s(1) t show ?thesis by blast
qed

text \<open>C38 (termination). Nothing is left undecided by the end of \<open>stop\<close>: when the server has been deleted,
  every operation ever begun has its outcome, whatever the workers did.\<close>

theorem delete_decides_every_operation:
  assumes "reach s" "server s = Deleted" "b < next_id s"
  shows "\<exists>x. outcome s b = Some x"
proof (rule ccontr)
  assume "\<not> ?thesis"
  then have "outcome s b = None" by simp
  from sound_undecided [OF reach_sound [OF assms(1), unfolded sound_def] assms(3) this] assms(2)
    reach_shaped [OF assms(1)] show False by (simp add: shaped_def)
qed

theorem delete_decides_every_operation_witness:
  "\<exists>s. run (deferred_read @ [StopStep True, StopStep True, StopStep True, BeginDrain, DrainStep, StopStep True, StackDelete]) sys_init = Some s
     \<and> server s = Deleted \<and> outcome s 0 \<noteq> None"
proof -
  obtain s where s: "run (deferred_read @ [StopStep True, StopStep True, StopStep True, BeginDrain, DrainStep, StopStep True, StackDelete]) sys_init = Some s"
    "server s = Deleted" "0 < next_id s"
    by (simp add: deferred_read_def run_eval shutdown_may_return_def)
  from delete_decides_every_operation [OF run_reach [OF reach_init s(1)] s(2,3)] s show ?thesis by auto
qed

subsection \<open>The cancelled method call\<close>

text \<open>What is queued or in the batch has been pushed.\<close>

definition queue_pushed :: "sys \<Rightarrow> bool" where
  "queue_pushed s \<longleftrightarrow> (\<forall>b\<in>set (m_queue (ops s)) \<union> set (batch s). worker s b = Pushed)"

lemma queue_pushedI:
  assumes "queue_pushed s" "set (m_queue (ops t)) \<union> set (batch t) \<subseteq> set (m_queue (ops s)) \<union> set (batch s)"
    and "\<And>b. worker s b = Pushed \<Longrightarrow> worker t b = Pushed"
  shows "queue_pushed t"
  using assms unfolding queue_pushed_def by blast

lemma queue_pushed_drain:
  assumes "queue_pushed s" "drain_step s = Some t"
  shows "queue_pushed t"
proof (rule queue_pushedI [OF assms(1)])
  show "set (m_queue (ops t)) \<union> set (batch t) \<subseteq> set (m_queue (ops s)) \<union> set (batch s)"
    using assms(2) by (auto simp: drain_step_def batch_def drain_one_fields split: server_pc.splits list.splits)
qed (simp add: drain_step_fields(2) [OF assms(2)])

lemma queue_pushed_step:
  assumes S: "sound s" and Q: "queue_pushed s" and t: "step s e = Some t"
  shows "queue_pushed t"
proof (cases e)
  case DrainStep
  with t show ?thesis by (simp add: step_def queue_pushed_drain [OF Q])
next
  case (Dispatch k m)
  with t sound_sys(3) [OF S, of "next_id s"] show ?thesis
    by (auto simp: step_def dispatch_def Let_def batch_def split: if_splits intro!: queue_pushedI [OF Q])
next
  case (WorkerPush b)
  with t Q show ?thesis by (auto simp: step_def worker_push_def push_def Let_def queue_pushed_def batch_def split: if_splits server_pc.splits)
qed (use t in \<open>auto simp: step_def async_steps Let_def batch_def
      split: if_splits server_pc.splits option.splits intro!: queue_pushedI [OF Q]\<close>)

lemma reach_queue_pushed: "reach s \<Longrightarrow> queue_pushed s"
  by (erule reach_invariant)
     (simp add: queue_pushed_def sys_init_def batch_def AsyncOperations_new_def, blast intro: queue_pushed_step reach_sound)

text \<open>A block whose worker still has to push, but which nothing keeps alive.\<close>

definition abandoned :: "sys \<Rightarrow> nat \<Rightarrow> bool" where
  "abandoned s b \<longleftrightarrow> \<not> alive s b \<and> owes (phase s b) (worker s b)"

lemma abandonedI:
  assumes "abandoned s b" "worker t b = worker s b" "phase t b = phase s b" "is_method t b = is_method s b"
    "key_of t b = key_of s b" "current t \<noteq> Some b"
    "m_pending (ops t) (key_of s b) = Some b \<Longrightarrow> m_pending (ops s) (key_of s b) = Some b \<or> current s = Some b"
    "b \<in> set (m_queue (ops t)) \<union> set (batch t) \<Longrightarrow> b \<in> set (m_queue (ops s)) \<union> set (batch s)"
  shows "abandoned t b"
  using assms unfolding abandoned_def alive_def by auto

lemma drain_one_pending: "drain_one b s = Some t \<Longrightarrow> m_pending (ops t) k = Some c \<Longrightarrow> m_pending (ops s) k = Some c"
  by (auto simp: drain_one_def drain_block_def stack_result_def bind_res_def split: option.splits if_splits)

lemma abandoned_drain_step:
  assumes "abandoned s b" "drain_step s = Some t"
  shows "abandoned t b"
  using assms(2)
  by (auto simp: drain_step_def drain_one_fields current_def batch_def dest: drain_one_pending
      split: server_pc.splits list.splits intro!: abandonedI [OF assms(1)])

lemma abandoned_step:
  assumes S: "sound s" and A: "abandoned s b" and t: "step s e = Some t"
  shows "abandoned t b \<and> worker t b = worker s b"
proof -
  have lt: "b < next_id s"
    using sound_sys(3) [OF S, of b] A by (cases "next_id s \<le> b") (auto simp: abandoned_def owes_def)
  have cur: "current s \<noteq> Some b" and dead: "\<not> alive s b" and unlocked: "worker s b \<noteq> Locked" using A by (auto simp: abandoned_def alive_def)
  show ?thesis
  proof (cases e)
    case DrainStep
    with t show ?thesis by (simp add: step_def abandoned_drain_step [OF A] drain_step_fields(2))
  next
    case (Dispatch k m)
    with t lt cur show ?thesis
      by (auto simp: step_def dispatch_def Let_def current_def batch_def split: if_splits intro!: abandonedI [OF A])
  next
    case (WorkerResult c)
    with t dead cur show ?thesis
      by (auto simp: step_def worker_result_def current_def batch_def split: if_splits intro!: abandonedI [OF A])
  next
    case (WorkerExchange c)
    with t dead cur show ?thesis
      by (auto simp: step_def worker_exchange_def exchange_def current_def batch_def split: if_splits intro!: abandonedI [OF A])
  next
    case (WorkerLock c)
    with t dead cur show ?thesis
      by (auto simp: step_def worker_lock_def current_def batch_def split: if_splits intro!: abandonedI [OF A])
  next
    case (WorkerPush c)
    with t unlocked cur show ?thesis
      by (auto simp: step_def worker_push_def push_def Let_def current_def batch_def split: if_splits intro!: abandonedI [OF A])
  qed (use t cur in \<open>auto simp: step_def async_steps Let_def current_def batch_def
      split: if_splits server_pc.splits option.splits intro!: abandonedI [OF A]\<close>)
qed

lemma abandoned_run:
  "reach s \<Longrightarrow> abandoned s b \<Longrightarrow> run es s = Some t \<Longrightarrow> abandoned t b \<and> worker t b = worker s b \<and> reach t"
proof (induction es arbitrary: s)
  case (Cons e es)
  then obtain u where u: "step s e = Some u" "run es u = Some t" by (auto split: option.splits)
  have "abandoned u b \<and> worker u b = worker s b" by (rule abandoned_step [OF reach_sound [OF Cons.prems(1)] Cons.prems(2) u(1)])
  with Cons.IH [OF reach_step [OF Cons.prems(1) u(1)]] u(2) show ?case by metis
qed simp

text \<open>Cancelling erases the last shared pointer, unless the worker has locked the block or pushed it.\<close>

lemma cancel_abandons:
  assumes r: "reach s" and m: "is_method s b" "waiting s k = Some b" and w: "worker s b \<in> {Running, ResultSet, OwesPush}"
    and t: "step s (StackCancel k) = Some t"
  shows "abandoned t b \<and> worker t b = worker s b"
proof -
  from t m(2) have idle: "server s = Idle"
    and t': "t = s\<lparr>waiting := erase k (waiting s), ops := cancel k (ops s), outcome := (outcome s)(b := Some Cancelled)\<rparr>"
    by (auto simp: step_def stack_cancel_def split: if_splits)
  have key: "key_of s b = k" using sound_sys(2) [OF reach_sound [OF r] m(2)] by simp
  have "b \<notin> set (m_queue (ops s))" using reach_queue_pushed [OF r] w by (auto simp: queue_pushed_def)
  then have "\<not> alive t b"
    using m(1) w by (auto simp: t' alive_def current_def batch_def idle cancel_def key erase_def)
  moreover have "owes (phase s b) (worker s b)"
    using handshakesD [OF reach_handshakes [OF r], of b] idle w by (auto simp: owes_def)
  ultimately show ?thesis by (simp add: abandoned_def t')
qed

text \<open>C39 (safety). A method call that the stack cancels before its worker has pushed its block or, in \<open>finishCall\<close>, has locked
  it: whatever happened before and happens then, the registry held the last shared
  pointer to the block, so the callback the worker still has to go on with points to freed memory, from then on
  for ever; the worker can never do its next step, the completion is never pushed and the call stays counted, so that \<open>shutdown\<close>
  cannot return before its timeout (as long as fewer than \<open>2^32\<close> operations are outstanding, beyond which the counter wraps).\<close>

theorem cancelled_call_never_completes:
  assumes "reach s" "is_method s b" "waiting s k = Some b" "worker s b \<in> {Running, ResultSet, OwesPush}"
    and "step s (StackCancel k) = Some t" "run es t = Some u" "card (outstanding u) < 2 ^ 32"
  shows "\<not> alive u b \<and> worker u b = worker s b \<and> b \<in> outstanding u
     \<and> step u (WorkerResult b) = None \<and> step u (WorkerExchange b) = None \<and> step u (WorkerLock b) = None \<and> step u (WorkerPush b) = None
     \<and> (server u = Closing \<longrightarrow> step u (StopStep False) = None)"
proof -
  from cancel_abandons [OF assms(1-5)] have a: "abandoned t b" "worker t b = worker s b" by simp_all
  from abandoned_run [OF reach_step [OF assms(1,5)] a(1) assms(6)] a(2)
  have A: "abandoned u b" "worker u b = worker s b" and r: "reach u" by simp_all
  then have out: "b \<in> outstanding u" by (simp add: abandoned_def outstanding_def)
  have "card (outstanding u) \<noteq> 0" using out outstanding_finite [OF reach_sound [OF r]] by auto
  then have "\<not> 4294967296 dvd card (outstanding u)" using assms(7) nat_dvd_not_less by fastforce
  then have "server u = Closing \<Longrightarrow> m_inflight (ops u) \<noteq> 0"
    using reach_balanced [OF r] by (auto simp: balanced_def word_of_nat_eq_0_iff)
  moreover have "\<not> alive u b" using A(1) by (simp add: abandoned_def)
  moreover have "worker u b \<noteq> Locked" using A(2) assms(4) by auto
  ultimately show ?thesis
    using A(2) out
    by (simp add: step_def stop_step_def shutdown_may_return_def worker_result_def worker_exchange_def worker_lock_def worker_push_def)
qed

text \<open>An operation is answered, then a call is cancelled between the exchange and the lock of its worker.\<close>

definition call_before_cancel :: "event list" where
  "call_before_cancel = late_completion @ [Dispatch 9 True, ServerExchange, ServerCount, ServerRegister, StackPersist True,
     WorkerResult 2, WorkerExchange 2]"

theorem cancelled_call_never_completes_witness:
  "\<exists>s t u. run call_before_cancel sys_init = Some s \<and> step s (StackCancel 9) = Some t
     \<and> run [StopStep True, StopStep True] t = Some u
     \<and> server u = Closing \<and> step u (StopStep False) = None \<and> worker u 2 = OwesPush \<and> \<not> alive u 2"
proof -
  obtain s where s: "run call_before_cancel sys_init = Some s" "is_method s 2" "waiting s 9 = Some 2" "worker s 2 = OwesPush"
    "\<exists>t. step s (StackCancel 9) = Some t \<and> (\<exists>u. run [StopStep True, StopStep True] t = Some u \<and> server u = Closing \<and> next_id u = 3)"
    by (simp add: call_before_cancel_def late_completion_def deferred_read_def run_eval alive_def current_def push_def drain_one_def drain_block_def
        stack_result_def)
  then obtain t u where t: "step s (StackCancel 9) = Some t" "run [StopStep True, StopStep True] t = Some u" "server u = Closing"
    "next_id u = 3" by blast
  have "reach u" by (rule run_reach [OF reach_step [OF run_reach [OF reach_init s(1)] t(1)] t(2)])
  from card_mono [OF _ outstanding_bound [OF reach_sound [OF this]]] have "card (outstanding u) < 2 ^ 32" using t(4) by simp
  from cancelled_call_never_completes [OF run_reach [OF reach_init s(1)] s(2,3) _ t(1,2) this] s t show ?thesis by auto
qed

text \<open>Cancelled after the lock, the call is dropped at the next drain and no longer counted.\<close>

lemma cancelled_after_lock:
  "\<exists>s. run ([SetServing, Dispatch 8 True, ServerExchange, ServerCount, ServerRegister, StackPersist True, WorkerResult 0, WorkerExchange 0,
        WorkerLock 0, StackCancel 8, WorkerPush 0, BeginDrain, DrainStep, DrainStep]) sys_init = Some s
     \<and> outcome s 0 = Some Cancelled \<and> m_inflight (ops s) = 0 \<and> server s = Idle"
  by (simp add: run_eval alive_def current_def push_def drain_one_def drain_block_def stack_result_def)

end
