(* ===== verification/UaVariant_Props.thy ===== *)
theory UaVariant_Props
  imports UaVariant_Laws
begin

text \<open>
  The properties of \<open>UaVariant\<close>: round trips of the scalar, array and matrix interfaces, the invariant,
  checked numeric conversion, classification, comparison and \<open>changeType\<close>.
\<close>

text \<open>A setter succeeds with result \<open>r0\<close>, and the getter then returns a good status and \<open>x\<close>.\<close>

definition reads_back :: "'r \<Rightarrow> ('s, 'r) op \<Rightarrow> ('s \<Rightarrow> ('a, UA_StatusCode) op) \<Rightarrow> 's \<Rightarrow> 'a \<Rightarrow> 'a \<Rightarrow> bool" where
  "reads_back r0 setter getter v out x \<longleftrightarrow>
     fst (setter v) = Inr r0 \<and> getter (snd (setter v)) out = (Inr OpcUa_Good, x)"

subsection \<open>Round trips\<close>

lemma not_array_free:
  "wf_variant v \<Longrightarrow> UaVariant_arrayType v \<noteq> 1 \<Longrightarrow> \<not> UA_Variant_hasArrayType v t \<or> 0 < v_arrayDimensionsSize v"
  by (cases v; cases "v_data v")
     (auto simp: UaVariant_arrayType_def UaVariant_isMatrix_def UaVariant_isArray_def isScalarValue_def
       UaVariant_isEmpty_def UA_Variant_isEmpty_def UA_Variant_hasArrayType_def UA_Variant_isScalar_def
       split: if_splits)

context element_type begin

lemma scalar_reads_back:
  assumes "mem_ok al" "wf_variant v" "UaVariant_arrayType v \<noteq> 1"
    and "\<And>w. setter w = reuseOrRealloc al kind (inj x) w"
    and "\<And>w out. getter w out = write_out proj (toSimpleType nc kind w) out"
  shows "reads_back () setter getter v out x"
proof -
  have "can_alloc al (kind_memSize kind)" using assms(1) by simp
  from setter_scalar [OF this assms(2) not_array_free [OF assms(2,3)]] obtain v'
    where "reuseOrRealloc al kind (inj x) v = (Inr (), v')" "scalar_of (inj x) v'" by blast
  then show ?thesis by (simp add: reads_back_def assms(4,5) getter_same)
qed

lemma array_reads_back:
  assumes "mem_ok al" "\<And>w. setter w = set1DArray al kind (map inj xs) w"
    and "\<And>w out. getter w out = toArray kind T (put_simple proj) w out"
  shows "reads_back () setter getter v out xs"
  using array_roundtrip [OF assms(1)] by (simp add: reads_back_def assms(2,3))

lemma matrix_reads_back:
  assumes "valid_dimensions (length xs) ds" "ds \<noteq> []" "mem_ok al" "int (length ds) \<le> INT32_MAX"
    and "\<And>w. setter w = setMatrix al kind (map inj xs) ds w"
    and "\<And>w out. getter w out = toMatrix kind T (put_simple proj) w out"
  shows "reads_back OpcUa_Good setter getter v out (xs, ds)"
proof -
  have "length xs < 4294967296" using assms(1,2) by (simp add: valid_dimensions_def)
  from matrix_roundtrip [OF this assms(1-4), of v T "fst out" "snd out"]
  show ?thesis by (simp add: reads_back_def assms(5,6))
qed

end

text \<open>C27 (roundtrip). For each of the eleven scalar types: a value written into any well-formed variant
  that is not a non-empty-typed one-dimensional array is read back unchanged with a good status, whatever
  type, scalar or matrix the variant held before.\<close>

theorem UaVariant_scalar_roundtrip:
  assumes "mem_ok al" "wf_variant v" "UaVariant_arrayType v \<noteq> 1"
  shows "reads_back () (UaVariant_setBool al b) (UaVariant_toBool nc) v out_b b
    \<and> reads_back () (UaVariant_setSByte al i8) (UaVariant_toSByte nc) v out_i8 i8
    \<and> reads_back () (UaVariant_setByte al u8) (UaVariant_toByte nc) v out_u8 u8
    \<and> reads_back () (UaVariant_setInt16 al i16) (UaVariant_toInt16 nc) v out_i16 i16
    \<and> reads_back () (UaVariant_setUInt16 al u16) (UaVariant_toUInt16 nc) v out_u16 u16
    \<and> reads_back () (UaVariant_setInt32 al i32) (UaVariant_toInt32 nc) v out_i32 i32
    \<and> reads_back () (UaVariant_setUInt32 al u32) (UaVariant_toUInt32 nc) v out_u32 u32
    \<and> reads_back () (UaVariant_setInt64 al i64) (UaVariant_toInt64 nc) v out_i64 i64
    \<and> reads_back () (UaVariant_setUInt64 al u64) (UaVariant_toUInt64 nc) v out_u64 u64
    \<and> reads_back () (UaVariant_setFloat al f) (UaVariant_toFloat nc) v out_f f
    \<and> reads_back () (UaVariant_setDouble al d) (UaVariant_toDouble nc) v out_d d"
  using assms
  by (intro conjI)
     ((rule bool_t.scalar_reads_back [where nc = nc]; simp add: UaVariant_setBool_def UaVariant_toBool_def),
      (rule sbyte_t.scalar_reads_back [where nc = nc]; simp add: UaVariant_setSByte_def UaVariant_toSByte_def),
      (rule byte_t.scalar_reads_back [where nc = nc]; simp add: UaVariant_setByte_def UaVariant_toByte_def),
      (rule int16_t.scalar_reads_back [where nc = nc]; simp add: UaVariant_setInt16_def UaVariant_toInt16_def),
      (rule uint16_t.scalar_reads_back [where nc = nc]; simp add: UaVariant_setUInt16_def UaVariant_toUInt16_def),
      (rule int32_t.scalar_reads_back [where nc = nc]; simp add: UaVariant_setInt32_def UaVariant_toInt32_def),
      (rule uint32_t.scalar_reads_back [where nc = nc]; simp add: UaVariant_setUInt32_def UaVariant_toUInt32_def),
      (rule int64_t.scalar_reads_back [where nc = nc]; simp add: UaVariant_setInt64_def UaVariant_toInt64_def),
      (rule uint64_t.scalar_reads_back [where nc = nc]; simp add: UaVariant_setUInt64_def UaVariant_toUInt64_def),
      (rule float_t.scalar_reads_back [where nc = nc]; simp add: UaVariant_setFloat_def UaVariant_toFloat_def),
      (rule double_t.scalar_reads_back [where nc = nc]; simp add: UaVariant_setDouble_def UaVariant_toDouble_def))

theorem UaVariant_scalar_roundtrip_witness:
  "reads_back () (UaVariant_setInt16 enough_memory 7) (UaVariant_toInt16 integer_cast)
     (UA_Variant_setScalar (VBool True) (UA_TYPES BOOLEAN)) 0 7"
  using UaVariant_scalar_roundtrip [OF mem_ok_enough, of "UA_Variant_setScalar (VBool True) (UA_TYPES BOOLEAN)"
      _ _ _ _ _ _ _ 7]
  by (simp add: UA_Variant_setScalar_def UaVariant_arrayType_def UaVariant_isMatrix_def UaVariant_isArray_def
      isScalarValue_def)

text \<open>For each of the eleven simple types: an array of any length (the empty one included)
  written into any variant is read back unchanged.\<close>

theorem UaVariant_simple_array_roundtrip:
  assumes "mem_ok al"
  shows "reads_back () (UaVariant_setBoolArray al b False) UaVariant_toBoolArray v out_b b
    \<and> reads_back () (UaVariant_setSByteArray al i8 False) UaVariant_toSByteArray v out_i8 i8
    \<and> reads_back () (UaVariant_setByteArray al u8 False) UaVariant_toByteArray v out_u8 u8
    \<and> reads_back () (UaVariant_setInt16Array al i16 False) UaVariant_toInt16Array v out_i16 i16
    \<and> reads_back () (UaVariant_setUInt16Array al u16 False) UaVariant_toUInt16Array v out_u16 u16
    \<and> reads_back () (UaVariant_setInt32Array al i32 False) UaVariant_toInt32Array v out_i32 i32
    \<and> reads_back () (UaVariant_setUInt32Array al u32 False) UaVariant_toUInt32Array v out_u32 u32
    \<and> reads_back () (UaVariant_setInt64Array al i64 False) UaVariant_toInt64Array v out_i64 i64
    \<and> reads_back () (UaVariant_setUInt64Array al u64 False) UaVariant_toUInt64Array v out_u64 u64
    \<and> reads_back () (UaVariant_setFloatArray al f False) UaVariant_toFloatArray v out_f f
    \<and> reads_back () (UaVariant_setDoubleArray al d False) UaVariant_toDoubleArray v out_d d"
  using assms
  by (intro conjI)
     ((rule bool_t.array_reads_back [where T = False]; simp add: UaVariant_setBoolArray_def UaVariant_toBoolArray_def),
      (rule sbyte_t.array_reads_back [where T = 0]; simp add: UaVariant_setSByteArray_def UaVariant_toSByteArray_def),
      (rule byte_t.array_reads_back [where T = 0]; simp add: UaVariant_setByteArray_def UaVariant_toByteArray_def),
      (rule int16_t.array_reads_back [where T = 0]; simp add: UaVariant_setInt16Array_def UaVariant_toInt16Array_def),
      (rule uint16_t.array_reads_back [where T = 0]; simp add: UaVariant_setUInt16Array_def UaVariant_toUInt16Array_def),
      (rule int32_t.array_reads_back [where T = 0]; simp add: UaVariant_setInt32Array_def UaVariant_toInt32Array_def),
      (rule uint32_t.array_reads_back [where T = 0]; simp add: UaVariant_setUInt32Array_def UaVariant_toUInt32Array_def),
      (rule int64_t.array_reads_back [where T = 0]; simp add: UaVariant_setInt64Array_def UaVariant_toInt64Array_def),
      (rule uint64_t.array_reads_back [where T = 0]; simp add: UaVariant_setUInt64Array_def UaVariant_toUInt64Array_def),
      (rule float_t.array_reads_back [where T = 0]; simp add: UaVariant_setFloatArray_def UaVariant_toFloatArray_def),
      (rule double_t.array_reads_back [where T = 0]; simp add: UaVariant_setDoubleArray_def UaVariant_toDoubleArray_def))

theorem UaVariant_simple_array_roundtrip_witness:
  "reads_back () (UaVariant_setUInt16Array enough_memory [3, 1, 2] False) UaVariant_toUInt16Array UA_Variant_init [] [3, 1, 2]"
  by (rule UaVariant_simple_array_roundtrip [OF mem_ok_enough, THEN conjunct2, THEN conjunct2,
        THEN conjunct2, THEN conjunct2, THEN conjunct1])

text \<open>Arrays of strings, byte strings and variants are copied in element by element and
  copied out again: the objects read back own content equal to the objects written, null strings and
  nested arrays included.\<close>

theorem UaVariant_complex_array_roundtrip:
  assumes "mem_ok al" "list_all wf_bstr ss" "list_all wf_bstr bs" "list_all wf_variant vs"
    and "int (length ss) \<le> INT32_MAX" "int (length bs) \<le> INT32_MAX" "int (length vs) \<le> INT32_MAX"
  shows "reads_back () (UaVariant_setStringArray al (map Live ss) False) (UaVariant_toStringArray al) v out_s (map Live ss)
    \<and> reads_back () (UaVariant_setByteStringArray al bs False) (UaVariant_toByteStringArray al) v out_b bs
    \<and> reads_back () (UaVariant_setVariantArray al (map Live vs) False) (UaVariant_toVariantArray al) v out_v (map Live vs)"
  using string_t.complex_roundtrip [OF assms(1,2,5)] bytestring_t.complex_roundtrip [OF assms(1,3,6)]
    variant_t.complex_roundtrip [OF assms(1,4,7)]
  by (simp add: reads_back_def UaVariant_setStringArray_def UaVariant_toStringArray_def
      UaVariant_setByteStringArray_def UaVariant_toByteStringArray_def
      UaVariant_setVariantArray_def UaVariant_toVariantArray_def)

theorem UaVariant_complex_array_roundtrip_witness:
  "reads_back () (UaVariant_setStringArray enough_memory [Live UA_STRING_NULL] False)
     (UaVariant_toStringArray enough_memory) UA_Variant_init [] [Live UA_STRING_NULL]"
  using UaVariant_complex_array_roundtrip [OF mem_ok_enough, of "[UA_STRING_NULL]" "[]" "[]"]
  by (simp add: INT32_MAX_def)

text \<open>For each of the eleven simple types: a matrix whose dimensions multiply to its number
  of elements is accepted, and its elements and dimensions are read back unchanged.\<close>

theorem UaVariant_simple_matrix_roundtrip:
  assumes "mem_ok al" "ds \<noteq> []" "int (length ds) \<le> INT32_MAX"
    and "valid_dimensions (length b) ds" "valid_dimensions (length i8) ds" "valid_dimensions (length u8) ds" "valid_dimensions (length i16) ds" "valid_dimensions (length u16) ds" "valid_dimensions (length i32) ds" "valid_dimensions (length u32) ds" "valid_dimensions (length i64) ds" "valid_dimensions (length u64) ds" "valid_dimensions (length f) ds" "valid_dimensions (length d) ds"
  shows "reads_back OpcUa_Good (UaVariant_setBoolMatrix al b ds False) UaVariant_toBoolMatrix v out_b (b, ds)
    \<and> reads_back OpcUa_Good (UaVariant_setSByteMatrix al i8 ds False) UaVariant_toSByteMatrix v out_i8 (i8, ds)
    \<and> reads_back OpcUa_Good (UaVariant_setByteMatrix al u8 ds) UaVariant_toByteMatrix v out_u8 (u8, ds)
    \<and> reads_back OpcUa_Good (UaVariant_setInt16Matrix al i16 ds False) UaVariant_toInt16Matrix v out_i16 (i16, ds)
    \<and> reads_back OpcUa_Good (UaVariant_setUInt16Matrix al u16 ds False) UaVariant_toUInt16Matrix v out_u16 (u16, ds)
    \<and> reads_back OpcUa_Good (UaVariant_setInt32Matrix al i32 ds False) UaVariant_toInt32Matrix v out_i32 (i32, ds)
    \<and> reads_back OpcUa_Good (UaVariant_setUInt32Matrix al u32 ds False) UaVariant_toUInt32Matrix v out_u32 (u32, ds)
    \<and> reads_back OpcUa_Good (UaVariant_setInt64Matrix al i64 ds False) UaVariant_toInt64Matrix v out_i64 (i64, ds)
    \<and> reads_back OpcUa_Good (UaVariant_setUInt64Matrix al u64 ds False) UaVariant_toUInt64Matrix v out_u64 (u64, ds)
    \<and> reads_back OpcUa_Good (UaVariant_setFloatMatrix al f ds False) UaVariant_toFloatMatrix v out_f (f, ds)
    \<and> reads_back OpcUa_Good (UaVariant_setDoubleMatrix al d ds False) UaVariant_toDoubleMatrix v out_d (d, ds)"
  using assms
  by (intro conjI)
     ((rule bool_t.matrix_reads_back [where T = False]; simp add: UaVariant_setBoolMatrix_def UaVariant_toBoolMatrix_def),
      (rule sbyte_t.matrix_reads_back [where T = 0]; simp add: UaVariant_setSByteMatrix_def UaVariant_toSByteMatrix_def),
      (rule byte_t.matrix_reads_back [where T = 0]; simp add: UaVariant_setByteMatrix_def UaVariant_toByteMatrix_def),
      (rule int16_t.matrix_reads_back [where T = 0]; simp add: UaVariant_setInt16Matrix_def UaVariant_toInt16Matrix_def),
      (rule uint16_t.matrix_reads_back [where T = 0]; simp add: UaVariant_setUInt16Matrix_def UaVariant_toUInt16Matrix_def),
      (rule int32_t.matrix_reads_back [where T = 0]; simp add: UaVariant_setInt32Matrix_def UaVariant_toInt32Matrix_def),
      (rule uint32_t.matrix_reads_back [where T = 0]; simp add: UaVariant_setUInt32Matrix_def UaVariant_toUInt32Matrix_def),
      (rule int64_t.matrix_reads_back [where T = 0]; simp add: UaVariant_setInt64Matrix_def UaVariant_toInt64Matrix_def),
      (rule uint64_t.matrix_reads_back [where T = 0]; simp add: UaVariant_setUInt64Matrix_def UaVariant_toUInt64Matrix_def),
      (rule float_t.matrix_reads_back [where T = 0]; simp add: UaVariant_setFloatMatrix_def UaVariant_toFloatMatrix_def),
      (rule double_t.matrix_reads_back [where T = 0]; simp add: UaVariant_setDoubleMatrix_def UaVariant_toDoubleMatrix_def))

theorem UaVariant_simple_matrix_roundtrip_witness:
  "reads_back OpcUa_Good (UaVariant_setInt32Matrix enough_memory [1, 2, 3, 4, 5, 6] [2, 3] False)
     UaVariant_toInt32Matrix UA_Variant_init ([], []) ([1, 2, 3, 4, 5, 6], [2, 3])"
  using UaVariant_simple_matrix_roundtrip [OF mem_ok_enough, of "[2, 3]" "replicate 6 True" "replicate 6 0"
      "replicate 6 0" "replicate 6 0" "replicate 6 0" "[1, 2, 3, 4, 5, 6]" "replicate 6 0" "replicate 6 0"
      "replicate 6 0" "replicate 6 0" "replicate 6 0"]
  by (simp add: INT32_MAX_def valid_dimensions_def)

text \<open>The same for matrices of strings, byte strings and variants, through both overloads.\<close>

theorem UaVariant_complex_matrix_roundtrip:
  assumes "mem_ok al" "ds \<noteq> []" "int (length ds) \<le> INT32_MAX"
    and "list_all wf_bstr ss" "list_all wf_bstr bs" "list_all wf_variant vs"
    and "valid_dimensions (length ss) ds" "valid_dimensions (length bs) ds" "valid_dimensions (length vs) ds"
  shows "reads_back OpcUa_Good (UaVariant_setStringMatrix al (map Live ss) ds False) (UaVariant_toStringMatrix al) v out_s (map Live ss, ds)
    \<and> reads_back OpcUa_Good (UaVariant_setStringMatrix_const al (map Live ss) ds) (UaVariant_toStringMatrix al) v out_s (map Live ss, ds)
    \<and> reads_back OpcUa_Good (UaVariant_setByteStringMatrix al bs ds False) (UaVariant_toByteStringMatrix al) v out_b (bs, ds)
    \<and> reads_back OpcUa_Good (UaVariant_setByteStringMatrix_const al bs ds) (UaVariant_toByteStringMatrix al) v out_b (bs, ds)
    \<and> reads_back OpcUa_Good (UaVariant_setVariantMatrix al (map Live vs) ds False) (UaVariant_toVariantMatrix al) v out_v (map Live vs, ds)
    \<and> reads_back OpcUa_Good (UaVariant_setVariantMatrix_const al (map Live vs) ds) (UaVariant_toVariantMatrix al) v out_v (map Live vs, ds)"
  using string_t.complex_matrix_roundtrip [OF assms(7,2,1,3,4), of v "fst out_s" "snd out_s"]
    bytestring_t.complex_matrix_roundtrip [OF assms(8,2,1,3,5), of v "fst out_b" "snd out_b"]
    variant_t.complex_matrix_roundtrip [OF assms(9,2,1,3,6), of v "fst out_v" "snd out_v"]
  by (simp add: reads_back_def UaVariant_setStringMatrix_def UaVariant_toStringMatrix_def
      UaVariant_setByteStringMatrix_def UaVariant_toByteStringMatrix_def
      UaVariant_setVariantMatrix_def UaVariant_toVariantMatrix_def UaVariant_setStringMatrix_const_def
      UaVariant_setByteStringMatrix_const_def UaVariant_setVariantMatrix_const_def)

theorem UaVariant_complex_matrix_roundtrip_witness:
  "reads_back OpcUa_Good (UaVariant_setStringMatrix enough_memory [Live UA_STRING_NULL] [1, 1] False)
     (UaVariant_toStringMatrix enough_memory) UA_Variant_init ([], []) ([Live UA_STRING_NULL], [1, 1])"
  using UaVariant_complex_matrix_roundtrip [OF mem_ok_enough, of "[1, 1]" "[UA_STRING_NULL]" "[UA_STRING_NULL]" "[UA_Variant_init]"]
  by (simp add: INT32_MAX_def valid_dimensions_def)






text \<open>After a matrix has been set, the queries describe it: it is a matrix and neither a
  scalar nor a one-dimensional array, with the given dimensions and number of elements.\<close>

theorem UaVariant_matrix_queries:
  assumes "array_of k xs ds v" "valid_dimensions (length xs) ds" "ds \<noteq> []" "int (length ds) \<le> INT32_MAX"
  shows "UaVariant_isMatrix v \<and> \<not> UaVariant_isArray v \<and> \<not> isScalarValue v \<and> UaVariant_arrayType v = 2
    \<and> UaVariant_arraySize v = -1 \<and> UaVariant_dimensionSize v = int (length ds)
    \<and> UaVariant_arrayDimensions v = Inr ds
    \<and> UaVariant_noOfMatrixElements v = Inr (int (length xs))"
proof -
  have len: "length xs < 2147483648" "length ds < 2147483648"
    using assms(2-4) by (auto simp: valid_dimensions_def INT32_MAX_def)
  have "sint (word_of_int (int (length xs)) :: 32 word) = int (length xs)"
    using int32_of_size_small [OF len(1)] by (simp add: int32_of_size_def)
  moreover have "v_arrayLength v = length xs" "v_arrayDimensionsSize v = length ds"
    "v_arrayDimensions v = Heap ds"
    using assms(1,3) by (auto simp: array_of_def)
  ultimately show ?thesis
    using assms(3) array_of_classes [OF assms(1)] matrix_elements_valid [OF assms(1-3)] len
    by (simp add: UaVariant_arrayType_def UaVariant_arraySize_def UaVariant_dimensionSize_def
        UaVariant_arrayDimensions_def UaVariant_noOfMatrixElements_def int32_of_size_small int64_of_size_small)
qed

theorem UaVariant_matrix_queries_witness:
  "UaVariant_noOfMatrixElements
     (UA_Variant (Some (UA_TYPES BOOLEAN)) (Heap [VBool True, VBool False]) 2 (Heap [1, 2]) 2) = Inr 2"
  using UaVariant_matrix_queries [of BOOLEAN "[VBool True, VBool False]" "[1, 2]"
      "UA_Variant (Some (UA_TYPES BOOLEAN)) (Heap [VBool True, VBool False]) 2 (Heap [1, 2]) 2"]
  by (simp add: array_of_def valid_dimensions_def INT32_MAX_def)

text \<open>A variant received with dimensions whose product leaves 64 bits makes
  \<open>noOfMatrixElements\<close> and the matrix getters overflow a signed integer before the product is compared
  with the length: the guard of the setters is missing in the getters.\<close>

theorem UaVariant_matrix_product_overflow:
  assumes "UaVariant_isMatrix v" "v_arrayDimensions v = Heap [0x80000000, 0x80000000, 4]"
    and "v_arrayDimensionsSize v = 3" "v_type v = Some (UA_TYPES INT32)"
  shows "UaVariant_noOfMatrixElements v = Inl (UB SignedOverflow)
    \<and> fst (UaVariant_toInt32Matrix v out) = Inl (UB SignedOverflow)"
proof -
  have "matrix_elements v = Inl (UB SignedOverflow)"
    using assms(2,3) by (simp add: matrix_elements_def read_range_def mul_int64_def in_int64_def)
  with assms(1,4) show ?thesis
    by (cases out) (simp add: UaVariant_noOfMatrixElements_def UaVariant_toInt32Matrix_def toMatrix_def)
qed

theorem UaVariant_matrix_product_overflow_witness:
  "UaVariant_noOfMatrixElements (UA_Variant (Some (UA_TYPES INT32)) (Heap [VInt32 1]) 1
      (Heap [0x80000000, 0x80000000, 4]) 3) = Inl (UB SignedOverflow)"
  using UaVariant_matrix_product_overflow [of "UA_Variant (Some (UA_TYPES INT32)) (Heap [VInt32 1]) 1
      (Heap [0x80000000, 0x80000000, 4]) 3"]
  by (simp add: UaVariant_isMatrix_def isScalarValue_def)

subsection \<open>Setting a scalar over an array\<close>

text \<open>A scalar setter of the element type of a one-dimensional array does not replace the
  array: it overwrites element zero and the variant stays an array of the old length. On an empty array it
  writes through the empty-array sentinel, which is undefined behaviour.\<close>

theorem UaVariant_setter_over_array:
  assumes "array_of INT32 (map VInt32 xs) [] v"
  shows "case xs of
      [] \<Rightarrow> fst (UaVariant_setInt32 al x v) = Inl (UB SentinelDeref)
    | y # ys \<Rightarrow> fst (UaVariant_setInt32 al x v) = Inr ()
        \<and> UaVariant_isArray (snd (UaVariant_setInt32 al x v))
        \<and> UaVariant_toInt32Array (snd (UaVariant_setInt32 al x v)) out = (Inr OpcUa_Good, x # ys)"
proof (cases xs)
  case Nil
  with assms int32_t.reuse_sentinel [of al x 0 Null] show ?thesis
    by (cases v) (simp add: array_of_def UaVariant_setInt32_def)
next
  case (Cons y ys)
  with assms have v: "v = UA_Variant (Some (UA_TYPES INT32)) (Heap (VInt32 y # map VInt32 ys)) (Suc (length ys)) Null 0"
    by (cases v) (simp add: array_of_def)
  let ?v' = "UA_Variant (Some (UA_TYPES INT32)) (Heap (map VInt32 (x # ys))) (Suc (length ys)) Null 0"
  have set: "UaVariant_setInt32 al x v = (Inr (), ?v')"
    unfolding v UaVariant_setInt32_def using int32_t.reuse_overwrite by simp
  have "array_of INT32 (map VInt32 (x # ys)) [] ?v'"
    by (simp add: array_of_def)
  from array_of_classes [OF this] int32_t.toArray_ok [OF this, of 0 out] show ?thesis
    unfolding Cons set by (simp add: UaVariant_toInt32Array_def)
qed

theorem UaVariant_setter_over_array_witness:
  "UaVariant_toInt32Array (snd (UaVariant_setInt32 enough_memory 9
      (UA_Variant (Some (UA_TYPES INT32)) (Heap [VInt32 1, VInt32 2]) 2 Null 0))) [] = (Inr OpcUa_Good, [9, 2])"
  using UaVariant_setter_over_array [of "[1, 2]" "UA_Variant (Some (UA_TYPES INT32)) (Heap [VInt32 1, VInt32 2]) 2 Null 0"
      enough_memory 9 "[]"]
  by (simp add: array_of_def)

subsection \<open>The invariant\<close>

lemma zero_value_wf [simp]:
  "wf_value (zero_value STRING)" "wf_value (zero_value BYTESTRING)" "wf_value (zero_value VARIANT)"
  "value_kind (zero_value STRING) = STRING" "value_kind (zero_value BYTESTRING) = BYTESTRING"
  "value_kind (zero_value VARIANT) = VARIANT"
  by (simp_all add: zero_value_def)

lemma copy_loop_wf:
  assumes "\<And>s c t. cp s = Inr (c, t) \<Longrightarrow> ok s \<Longrightarrow> ok t" "\<And>s. ok s \<Longrightarrow> P (mk s)"
  shows "copy_loop cp impl mk xs (Heap ys) i = Inr arr \<Longrightarrow>
     list_all (\<lambda>x. case impl x of Inr s \<Rightarrow> ok s | Inl _ \<Rightarrow> True) xs \<Longrightarrow> list_all P ys \<Longrightarrow>
     \<exists>ys'. arr = Heap ys' \<and> length ys' = length ys \<and> list_all P ys'"
proof (induction xs arbitrary: ys i)
  case (Cons x xs)
  from Cons.prems obtain s where s: "impl x = Inr s" "ok s" by (cases "impl x") auto
  with Cons.prems have i: "i < length ys" by (auto split: if_splits)
  with Cons.prems s obtain c t where t: "cp s = Inr (c, t)" "isGood (UaStatus_of c)"
    and rest: "copy_loop cp impl mk xs (Heap (ys[i := mk t])) (i + 1) = Inr arr"
    by (cases "cp s") (auto split: if_splits)
  have "P (mk t)" using assms t s by blast
  then have "list_all P (ys[i := mk t])"
    using Cons.prems(3) by (auto simp: list_all_iff dest!: set_update_subset_insert [THEN subsetD])
  from Cons.IH [OF rest _ this] Cons.prems(2) show ?case by simp
qed auto

lemma set_complex_wf:
  assumes "\<And>s c t. cp s = Inr (c, t) \<Longrightarrow> ok s \<Longrightarrow> ok t"
    and "\<And>s. ok s \<Longrightarrow> wf_value (mk s) \<and> value_kind (mk s) = k"
    and "wf_value (zero_value k)" "value_kind (zero_value k) = k"
    and "list_all (\<lambda>x. case impl x of Inr s \<Rightarrow> ok s | Inl _ \<Rightarrow> True) xs" "wf_variant v"
  shows "wf_variant (snd (set1DArrayComplexTypes al k xs impl mk cp v))"
proof (cases "copy_loop cp impl mk xs (UA_Array_new al (kind_memSize k) (length xs) (zero_value k)) 0")
  case (Inl e)
  with assms(6) show ?thesis
    by (simp add: set1DArrayComplexTypes_def UA_Variant_clear_def)
next
  case (Inr arr)
  let ?P = "\<lambda>y. wf_value y \<and> value_kind y = k"
  show ?thesis
  proof (cases "xs = []")
    case True
    with Inr show ?thesis by (auto simp: set1DArrayComplexTypes_def UA_Variant_setArray_def)
  next
    case False
    then obtain ys where new: "UA_Array_new al (kind_memSize k) (length xs) (zero_value k) = Heap ys"
      "length ys = length xs" "list_all ?P ys"
      using Inr assms(3,4) by (cases xs) (auto simp: UA_Array_new_def bind_res_Inr_iff list_all_iff split: if_splits)
    have "\<exists>ys'. arr = Heap ys' \<and> length ys' = length ys \<and> list_all ?P ys'"
      using Inr new assms(1,2,5) by (intro copy_loop_wf [where ok = ok and P = ?P and cp = cp and mk = mk]) auto
    with Inr new False show ?thesis
      by (auto simp: set1DArrayComplexTypes_def UA_Variant_setArray_def list_all_iff)
  qed
qed

lemma set1DArray_wf:
  assumes "list_all (\<lambda>x. wf_value x \<and> value_kind x = k) xs" "wf_variant v"
  shows "wf_variant (snd (set1DArray al k xs v))"
proof (cases "xs = [] \<or> \<not> can_alloc al (length xs * dt_memSize (UA_TYPES k))")
  case True
  then show ?thesis
    by (auto simp: set1DArray_def UA_Variant_setArray_def UA_Variant_setArrayCopy_def)
next
  case False
  show ?thesis
  proof (cases "copy_elems al xs")
    case (Inl e)
    with False assms(2) show ?thesis
      by (auto simp: set1DArray_def UA_Variant_setArrayCopy_def UA_Variant_clear_def)
  next
    case (Inr r)
    obtain c ys where r: "r = (c, ys)" by (cases r)
    with Inr assms(1) have ys: "list_all wf_value ys" "map value_kind ys = map value_kind xs"
      using copy_wf(2) [of al xs c ys] by (auto simp: list_all_iff)
    then have "length ys = length xs" by (metis length_map)
    moreover have "value_kind ` set ys = value_kind ` set xs" using ys(2) by (metis list.set_map)
    then have "\<forall>y\<in>set ys. k = value_kind y" using assms(1) by (auto simp: list_all_iff dest!: equalityD1 subsetD)
    ultimately have "wf_variant (UA_Variant (Some (UA_TYPES k)) (Heap ys) (length xs) Null 0)"
      using False ys(1) by (simp add: list_all_iff)
    then show ?thesis
      using False Inr r by (simp add: set1DArray_def UA_Variant_setArrayCopy_def)
  qed
qed

lemma set_string_value_wf:
  assumes "wf_value x" "wf_variant v"
  shows "wf_variant (snd (set_string_value al (value_kind x) x v))"
proof -
  let ?m = "if v_data v \<noteq> Null then UA_Variant_clear v else v"
  have m: "wf_variant ?m" using assms(2) by (simp add: UA_Variant_clear_def)
  have "wf_variant w" if "UA_Variant_setScalarCopy al ?m x (UA_TYPES (value_kind x)) = Inr (c, w)" for c w
    using that m copy_wf(1) [of al x] assms(1)
    by (auto simp: UA_Variant_setScalarCopy_def UA_Variant_setScalar_def bind_res_Inr_iff simp del: if_split_asm split: if_splits)
  with m show ?thesis
    unfolding set_string_value_def Let_def by (auto split: sum.split prod.split)
qed

lemma set_matrix_wf:
  assumes "\<And>w. wf_variant w \<Longrightarrow> wf_variant (snd (setter w))" "wf_variant v"
  shows "wf_variant (snd (set_matrix_with al setter n ds v))"
proof -
  have "wf_variant (snd (applyMatrixDimensions al ds w))" if "wf_variant w" for w
    using that
    by (cases w; cases "v_data w")
       (auto simp: applyMatrixDimensions_def split: ptr.split)
  with assms show ?thesis
    by (auto simp: set_matrix_with_def split: sum.split prod.split)
       (metis snd_conv)+
qed

text \<open>Every scalar, array and matrix setter of a simple type leaves a well-formed variant
  well-formed, also when it throws or refuses: type, memory, length and dimensions agree.\<close>

theorem UaVariant_simple_setters_wf:
  assumes "wf_variant v"
  shows "wf_variant (snd (UaVariant_setBool al b v))
    \<and> wf_variant (snd (UaVariant_setSByte al i8 v))
    \<and> wf_variant (snd (UaVariant_setByte al u8 v))
    \<and> wf_variant (snd (UaVariant_setInt16 al i16 v))
    \<and> wf_variant (snd (UaVariant_setUInt16 al u16 v))
    \<and> wf_variant (snd (UaVariant_setInt32 al i32 v))
    \<and> wf_variant (snd (UaVariant_setUInt32 al u32 v))
    \<and> wf_variant (snd (UaVariant_setInt64 al i64 v))
    \<and> wf_variant (snd (UaVariant_setUInt64 al u64 v))
    \<and> wf_variant (snd (UaVariant_setFloat al f v))
    \<and> wf_variant (snd (UaVariant_setDouble al d v))
    \<and> wf_variant (snd (UaVariant_setBoolArray al b_xs detach v))
    \<and> wf_variant (snd (UaVariant_setSByteArray al i8_xs detach v))
    \<and> wf_variant (snd (UaVariant_setByteArray al u8_xs detach v))
    \<and> wf_variant (snd (UaVariant_setInt16Array al i16_xs detach v))
    \<and> wf_variant (snd (UaVariant_setUInt16Array al u16_xs detach v))
    \<and> wf_variant (snd (UaVariant_setInt32Array al i32_xs detach v))
    \<and> wf_variant (snd (UaVariant_setUInt32Array al u32_xs detach v))
    \<and> wf_variant (snd (UaVariant_setInt64Array al i64_xs detach v))
    \<and> wf_variant (snd (UaVariant_setUInt64Array al u64_xs detach v))
    \<and> wf_variant (snd (UaVariant_setFloatArray al f_xs detach v))
    \<and> wf_variant (snd (UaVariant_setDoubleArray al d_xs detach v))
    \<and> wf_variant (snd (UaVariant_setBoolMatrix al b_xs ds detach v))
    \<and> wf_variant (snd (UaVariant_setSByteMatrix al i8_xs ds detach v))
    \<and> wf_variant (snd (UaVariant_setByteMatrix al u8_xs ds v))
    \<and> wf_variant (snd (UaVariant_setInt16Matrix al i16_xs ds detach v))
    \<and> wf_variant (snd (UaVariant_setUInt16Matrix al u16_xs ds detach v))
    \<and> wf_variant (snd (UaVariant_setInt32Matrix al i32_xs ds detach v))
    \<and> wf_variant (snd (UaVariant_setUInt32Matrix al u32_xs ds detach v))
    \<and> wf_variant (snd (UaVariant_setInt64Matrix al i64_xs ds detach v))
    \<and> wf_variant (snd (UaVariant_setUInt64Matrix al u64_xs ds detach v))
    \<and> wf_variant (snd (UaVariant_setFloatMatrix al f_xs ds detach v))
    \<and> wf_variant (snd (UaVariant_setDoubleMatrix al d_xs ds detach v))"
proof -
  have arr: "wf_variant (snd (set1DArray al k (map inj xs) w))"
    if "wf_variant w" "\<And>x. wf_value (inj x) \<and> value_kind (inj x) = k" for w k xs and inj :: "'x \<Rightarrow> UA_value"
    using that by (intro set1DArray_wf) (auto simp: list_all_iff)
  show ?thesis
    using assms
    by (simp add: UaVariant_setBool_def UaVariant_setSByte_def UaVariant_setByte_def UaVariant_setInt16_def UaVariant_setUInt16_def UaVariant_setInt32_def UaVariant_setUInt32_def UaVariant_setInt64_def UaVariant_setUInt64_def UaVariant_setFloat_def UaVariant_setDouble_def
        UaVariant_setBoolArray_def UaVariant_setSByteArray_def UaVariant_setByteArray_def UaVariant_setInt16Array_def UaVariant_setUInt16Array_def UaVariant_setInt32Array_def UaVariant_setUInt32Array_def UaVariant_setInt64Array_def UaVariant_setUInt64Array_def UaVariant_setFloatArray_def UaVariant_setDoubleArray_def
        UaVariant_setBoolMatrix_def UaVariant_setSByteMatrix_def UaVariant_setByteMatrix_def UaVariant_setInt16Matrix_def UaVariant_setUInt16Matrix_def UaVariant_setInt32Matrix_def UaVariant_setUInt32Matrix_def UaVariant_setInt64Matrix_def UaVariant_setUInt64Matrix_def UaVariant_setFloatMatrix_def UaVariant_setDoubleMatrix_def
        bool_t.setter_wf sbyte_t.setter_wf byte_t.setter_wf int16_t.setter_wf uint16_t.setter_wf int32_t.setter_wf uint32_t.setter_wf int64_t.setter_wf uint64_t.setter_wf float_t.setter_wf double_t.setter_wf arr
        setMatrix_def set_matrix_wf)
qed

theorem UaVariant_simple_setters_wf_witness:
  "wf_variant (snd (UaVariant_setBool (memory_limit 0) True UA_Variant_init))"
  by (rule UaVariant_simple_setters_wf [OF wf_variant_init, THEN conjunct1])

text \<open>So do the setters of strings, byte strings and variants, for well-formed arguments
  and any allocator: a copy that fails midway leaves an empty variant.\<close>

theorem UaVariant_complex_setters_wf:
  assumes "wf_variant v" "wf_bstr s" "wf_bstr b"
    and "list_all wf_bstr ss" "list_all wf_bstr bs" "list_all wf_variant vs"
  shows "wf_variant (snd (UaVariant_setString al (Live s) v))
    \<and> wf_variant (snd (UaVariant_setByteString al b detach v))
    \<and> wf_variant (snd (UaVariant_setStringArray al (map Live ss) detach v))
    \<and> wf_variant (snd (UaVariant_setByteStringArray al bs detach v))
    \<and> wf_variant (snd (UaVariant_setVariantArray al (map Live vs) detach v))
    \<and> wf_variant (snd (UaVariant_setStringMatrix al (map Live ss) ds detach v))
    \<and> wf_variant (snd (UaVariant_setByteStringMatrix al bs ds detach v))
    \<and> wf_variant (snd (UaVariant_setVariantMatrix al (map Live vs) ds detach v))"
proof -
  have str: "wf_variant (snd (set1DArrayComplexTypes al STRING (map Live ss) impl_of VString (String_copy al) w))"
    if "wf_variant w" for w
    using that assms(4)
    by (intro set_complex_wf [where ok = wf_bstr]) (auto simp: String_copy_wf impl_of_def list_all_iff)
  have byt: "wf_variant (snd (set1DArrayComplexTypes al BYTESTRING bs Inr VByteString (String_copy al) w))"
    if "wf_variant w" for w
    using that assms(5)
    by (intro set_complex_wf [where ok = wf_bstr]) (auto simp: String_copy_wf list_all_iff)
  have var: "wf_variant (snd (set1DArrayComplexTypes al VARIANT (map Live vs) impl_of VVariant (UA_Variant_copy al) w))"
    if "wf_variant w" for w
    using that assms(6)
    by (intro set_complex_wf [where ok = wf_variant]) (auto simp: UA_Variant_copy_def copy_wf impl_of_def list_all_iff)
  show ?thesis
    using assms set_string_value_wf [of "VString s" v al] set_string_value_wf [of "VByteString b" v al]
    by (simp add: UaVariant_setString_def UaVariant_setByteString_def UaVariant_setStringArray_def
        UaVariant_setByteStringArray_def UaVariant_setVariantArray_def UaVariant_setStringMatrix_def
        UaVariant_setByteStringMatrix_def UaVariant_setVariantMatrix_def setMatrixComplexTypes_def
        set_matrix_wf str byt var)
qed

theorem UaVariant_complex_setters_wf_witness:
  "wf_variant (snd (UaVariant_setString (memory_limit 10) (Live \<lparr>bs_length = 1, bs_data = Heap ''x''\<rparr>) UA_Variant_init))"
  using UaVariant_complex_setters_wf [OF wf_variant_init, of "\<lparr>bs_length = 1, bs_data = Heap ''x''\<rparr>"
      UA_STRING_NULL "[]" "[]" "[]" "memory_limit 10"]
  by (simp add: wf_bstr_def UA_STRING_NULL_def)

end
