(* ===== verification/StatusNames.thy ===== *)
theory StatusNames
  imports StatusCode
begin

text \<open>
  The names of the status codes: the stack's table \<open>statusCodeDescriptions\<close> and \<open>UA_StatusCode_name\<close>
  (\<open>extern/open62541/src/open62541.c\<close>), which \<open>UaStatus::toString\<close> calls. An entry matches when the upper
  16 bits agree; the last entry is the name of the codes that match none. The table is cut into pieces of
  sixteen entries.
\<close>

definition status_names_1 :: "(UA_StatusCode \<times> string) list" where
  "status_names_1 = [
     (0x00000000, ''Good''),
     (0x00000000, ''Good''),
     (0x40000000, ''Uncertain''),
     (0x80000000, ''Bad''),
     (0x80010000, ''BadUnexpectedError''),
     (0x80020000, ''BadInternalError''),
     (0x80030000, ''BadOutOfMemory''),
     (0x80040000, ''BadResourceUnavailable''),
     (0x80050000, ''BadCommunicationError''),
     (0x80060000, ''BadEncodingError''),
     (0x80070000, ''BadDecodingError''),
     (0x80080000, ''BadEncodingLimitsExceeded''),
     (0x80B80000, ''BadRequestTooLarge''),
     (0x80B90000, ''BadResponseTooLarge''),
     (0x80090000, ''BadUnknownResponse''),
     (0x800A0000, ''BadTimeout'')]"

definition status_names_2 :: "(UA_StatusCode \<times> string) list" where
  "status_names_2 = [
     (0x800B0000, ''BadServiceUnsupported''),
     (0x800C0000, ''BadShutdown''),
     (0x800D0000, ''BadServerNotConnected''),
     (0x800E0000, ''BadServerHalted''),
     (0x800F0000, ''BadNothingToDo''),
     (0x80100000, ''BadTooManyOperations''),
     (0x80DB0000, ''BadTooManyMonitoredItems''),
     (0x80110000, ''BadDataTypeIdUnknown''),
     (0x80120000, ''BadCertificateInvalid''),
     (0x80130000, ''BadSecurityChecksFailed''),
     (0x81140000, ''BadCertificatePolicyCheckFailed''),
     (0x80140000, ''BadCertificateTimeInvalid''),
     (0x80150000, ''BadCertificateIssuerTimeInvalid''),
     (0x80160000, ''BadCertificateHostNameInvalid''),
     (0x80170000, ''BadCertificateUriInvalid''),
     (0x80180000, ''BadCertificateUseNotAllowed'')]"

definition status_names_3 :: "(UA_StatusCode \<times> string) list" where
  "status_names_3 = [
     (0x80190000, ''BadCertificateIssuerUseNotAllowed''),
     (0x801A0000, ''BadCertificateUntrusted''),
     (0x801B0000, ''BadCertificateRevocationUnknown''),
     (0x801C0000, ''BadCertificateIssuerRevocationUnknown''),
     (0x801D0000, ''BadCertificateRevoked''),
     (0x801E0000, ''BadCertificateIssuerRevoked''),
     (0x810D0000, ''BadCertificateChainIncomplete''),
     (0x801F0000, ''BadUserAccessDenied''),
     (0x80200000, ''BadIdentityTokenInvalid''),
     (0x80210000, ''BadIdentityTokenRejected''),
     (0x80220000, ''BadSecureChannelIdInvalid''),
     (0x80230000, ''BadInvalidTimestamp''),
     (0x80240000, ''BadNonceInvalid''),
     (0x80250000, ''BadSessionIdInvalid''),
     (0x80260000, ''BadSessionClosed''),
     (0x80270000, ''BadSessionNotActivated'')]"

definition status_names_4 :: "(UA_StatusCode \<times> string) list" where
  "status_names_4 = [
     (0x80280000, ''BadSubscriptionIdInvalid''),
     (0x802A0000, ''BadRequestHeaderInvalid''),
     (0x802B0000, ''BadTimestampsToReturnInvalid''),
     (0x802C0000, ''BadRequestCancelledByClient''),
     (0x80E50000, ''BadTooManyArguments''),
     (0x810E0000, ''BadLicenseExpired''),
     (0x810F0000, ''BadLicenseLimitsExceeded''),
     (0x81100000, ''BadLicenseNotAvailable''),
     (0x002D0000, ''GoodSubscriptionTransferred''),
     (0x002E0000, ''GoodCompletesAsynchronously''),
     (0x002F0000, ''GoodOverload''),
     (0x00300000, ''GoodClamped''),
     (0x80310000, ''BadNoCommunication''),
     (0x80320000, ''BadWaitingForInitialData''),
     (0x80330000, ''BadNodeIdInvalid''),
     (0x80340000, ''BadNodeIdUnknown'')]"

definition status_names_5 :: "(UA_StatusCode \<times> string) list" where
  "status_names_5 = [
     (0x80350000, ''BadAttributeIdInvalid''),
     (0x80360000, ''BadIndexRangeInvalid''),
     (0x80370000, ''BadIndexRangeNoData''),
     (0x80380000, ''BadDataEncodingInvalid''),
     (0x80390000, ''BadDataEncodingUnsupported''),
     (0x803A0000, ''BadNotReadable''),
     (0x803B0000, ''BadNotWritable''),
     (0x803C0000, ''BadOutOfRange''),
     (0x803D0000, ''BadNotSupported''),
     (0x803E0000, ''BadNotFound''),
     (0x803F0000, ''BadObjectDeleted''),
     (0x80400000, ''BadNotImplemented''),
     (0x80410000, ''BadMonitoringModeInvalid''),
     (0x80420000, ''BadMonitoredItemIdInvalid''),
     (0x80430000, ''BadMonitoredItemFilterInvalid''),
     (0x80440000, ''BadMonitoredItemFilterUnsupported'')]"

definition status_names_6 :: "(UA_StatusCode \<times> string) list" where
  "status_names_6 = [
     (0x80450000, ''BadFilterNotAllowed''),
     (0x80460000, ''BadStructureMissing''),
     (0x80470000, ''BadEventFilterInvalid''),
     (0x80480000, ''BadContentFilterInvalid''),
     (0x80C10000, ''BadFilterOperatorInvalid''),
     (0x80C20000, ''BadFilterOperatorUnsupported''),
     (0x80C30000, ''BadFilterOperandCountMismatch''),
     (0x80490000, ''BadFilterOperandInvalid''),
     (0x80C40000, ''BadFilterElementInvalid''),
     (0x80C50000, ''BadFilterLiteralInvalid''),
     (0x804A0000, ''BadContinuationPointInvalid''),
     (0x804B0000, ''BadNoContinuationPoints''),
     (0x804C0000, ''BadReferenceTypeIdInvalid''),
     (0x804D0000, ''BadBrowseDirectionInvalid''),
     (0x804E0000, ''BadNodeNotInView''),
     (0x81120000, ''BadNumericOverflow'')]"

definition status_names_7 :: "(UA_StatusCode \<times> string) list" where
  "status_names_7 = [
     (0x804F0000, ''BadServerUriInvalid''),
     (0x80500000, ''BadServerNameMissing''),
     (0x80510000, ''BadDiscoveryUrlMissing''),
     (0x80520000, ''BadSemaphoreFileMissing''),
     (0x80530000, ''BadRequestTypeInvalid''),
     (0x80540000, ''BadSecurityModeRejected''),
     (0x80550000, ''BadSecurityPolicyRejected''),
     (0x80560000, ''BadTooManySessions''),
     (0x80570000, ''BadUserSignatureInvalid''),
     (0x80580000, ''BadApplicationSignatureInvalid''),
     (0x80590000, ''BadNoValidCertificates''),
     (0x80C60000, ''BadIdentityChangeNotSupported''),
     (0x805A0000, ''BadRequestCancelledByRequest''),
     (0x805B0000, ''BadParentNodeIdInvalid''),
     (0x805C0000, ''BadReferenceNotAllowed''),
     (0x805D0000, ''BadNodeIdRejected'')]"

definition status_names_8 :: "(UA_StatusCode \<times> string) list" where
  "status_names_8 = [
     (0x805E0000, ''BadNodeIdExists''),
     (0x805F0000, ''BadNodeClassInvalid''),
     (0x80600000, ''BadBrowseNameInvalid''),
     (0x80610000, ''BadBrowseNameDuplicated''),
     (0x80620000, ''BadNodeAttributesInvalid''),
     (0x80630000, ''BadTypeDefinitionInvalid''),
     (0x80640000, ''BadSourceNodeIdInvalid''),
     (0x80650000, ''BadTargetNodeIdInvalid''),
     (0x80660000, ''BadDuplicateReferenceNotAllowed''),
     (0x80670000, ''BadInvalidSelfReference''),
     (0x80680000, ''BadReferenceLocalOnly''),
     (0x80690000, ''BadNoDeleteRights''),
     (0x40BC0000, ''UncertainReferenceNotDeleted''),
     (0x806A0000, ''BadServerIndexInvalid''),
     (0x806B0000, ''BadViewIdUnknown''),
     (0x80C90000, ''BadViewTimestampInvalid'')]"

definition status_names_9 :: "(UA_StatusCode \<times> string) list" where
  "status_names_9 = [
     (0x80CA0000, ''BadViewParameterMismatch''),
     (0x80CB0000, ''BadViewVersionInvalid''),
     (0x40C00000, ''UncertainNotAllNodesAvailable''),
     (0x00BA0000, ''GoodResultsMayBeIncomplete''),
     (0x80C80000, ''BadNotTypeDefinition''),
     (0x406C0000, ''UncertainReferenceOutOfServer''),
     (0x806D0000, ''BadTooManyMatches''),
     (0x806E0000, ''BadQueryTooComplex''),
     (0x806F0000, ''BadNoMatch''),
     (0x80700000, ''BadMaxAgeInvalid''),
     (0x80E60000, ''BadSecurityModeInsufficient''),
     (0x80710000, ''BadHistoryOperationInvalid''),
     (0x80720000, ''BadHistoryOperationUnsupported''),
     (0x80BD0000, ''BadInvalidTimestampArgument''),
     (0x80730000, ''BadWriteNotSupported''),
     (0x80740000, ''BadTypeMismatch'')]"

definition status_names_10 :: "(UA_StatusCode \<times> string) list" where
  "status_names_10 = [
     (0x80750000, ''BadMethodInvalid''),
     (0x80760000, ''BadArgumentsMissing''),
     (0x81110000, ''BadNotExecutable''),
     (0x80770000, ''BadTooManySubscriptions''),
     (0x80780000, ''BadTooManyPublishRequests''),
     (0x80790000, ''BadNoSubscription''),
     (0x807A0000, ''BadSequenceNumberUnknown''),
     (0x00DF0000, ''GoodRetransmissionQueueNotSupported''),
     (0x807B0000, ''BadMessageNotAvailable''),
     (0x807C0000, ''BadInsufficientClientProfile''),
     (0x80BF0000, ''BadStateNotActive''),
     (0x81150000, ''BadAlreadyExists''),
     (0x807D0000, ''BadTcpServerTooBusy''),
     (0x807E0000, ''BadTcpMessageTypeInvalid''),
     (0x807F0000, ''BadTcpSecureChannelUnknown''),
     (0x80800000, ''BadTcpMessageTooLarge'')]"

definition status_names_11 :: "(UA_StatusCode \<times> string) list" where
  "status_names_11 = [
     (0x80810000, ''BadTcpNotEnoughResources''),
     (0x80820000, ''BadTcpInternalError''),
     (0x80830000, ''BadTcpEndpointUrlInvalid''),
     (0x80840000, ''BadRequestInterrupted''),
     (0x80850000, ''BadRequestTimeout''),
     (0x80860000, ''BadSecureChannelClosed''),
     (0x80870000, ''BadSecureChannelTokenUnknown''),
     (0x80880000, ''BadSequenceNumberInvalid''),
     (0x80BE0000, ''BadProtocolVersionUnsupported''),
     (0x80890000, ''BadConfigurationError''),
     (0x808A0000, ''BadNotConnected''),
     (0x808B0000, ''BadDeviceFailure''),
     (0x808C0000, ''BadSensorFailure''),
     (0x808D0000, ''BadOutOfService''),
     (0x808E0000, ''BadDeadbandFilterInvalid''),
     (0x408F0000, ''UncertainNoCommunicationLastUsableValue'')]"

definition status_names_12 :: "(UA_StatusCode \<times> string) list" where
  "status_names_12 = [
     (0x40900000, ''UncertainLastUsableValue''),
     (0x40910000, ''UncertainSubstituteValue''),
     (0x40920000, ''UncertainInitialValue''),
     (0x40930000, ''UncertainSensorNotAccurate''),
     (0x40940000, ''UncertainEngineeringUnitsExceeded''),
     (0x40950000, ''UncertainSubNormal''),
     (0x00960000, ''GoodLocalOverride''),
     (0x80970000, ''BadRefreshInProgress''),
     (0x80980000, ''BadConditionAlreadyDisabled''),
     (0x80CC0000, ''BadConditionAlreadyEnabled''),
     (0x80990000, ''BadConditionDisabled''),
     (0x809A0000, ''BadEventIdUnknown''),
     (0x80BB0000, ''BadEventNotAcknowledgeable''),
     (0x80CD0000, ''BadDialogNotActive''),
     (0x80CE0000, ''BadDialogResponseInvalid''),
     (0x80CF0000, ''BadConditionBranchAlreadyAcked'')]"

definition status_names_13 :: "(UA_StatusCode \<times> string) list" where
  "status_names_13 = [
     (0x80D00000, ''BadConditionBranchAlreadyConfirmed''),
     (0x80D10000, ''BadConditionAlreadyShelved''),
     (0x80D20000, ''BadConditionNotShelved''),
     (0x80D30000, ''BadShelvingTimeOutOfRange''),
     (0x809B0000, ''BadNoData''),
     (0x80D70000, ''BadBoundNotFound''),
     (0x80D80000, ''BadBoundNotSupported''),
     (0x809D0000, ''BadDataLost''),
     (0x809E0000, ''BadDataUnavailable''),
     (0x809F0000, ''BadEntryExists''),
     (0x80A00000, ''BadNoEntryExists''),
     (0x80A10000, ''BadTimestampNotSupported''),
     (0x00A20000, ''GoodEntryInserted''),
     (0x00A30000, ''GoodEntryReplaced''),
     (0x40A40000, ''UncertainDataSubNormal''),
     (0x00A50000, ''GoodNoData'')]"

definition status_names_14 :: "(UA_StatusCode \<times> string) list" where
  "status_names_14 = [
     (0x00A60000, ''GoodMoreData''),
     (0x80D40000, ''BadAggregateListMismatch''),
     (0x80D50000, ''BadAggregateNotSupported''),
     (0x80D60000, ''BadAggregateInvalidInputs''),
     (0x80DA0000, ''BadAggregateConfigurationRejected''),
     (0x00D90000, ''GoodDataIgnored''),
     (0x80E40000, ''BadRequestNotAllowed''),
     (0x81130000, ''BadRequestNotComplete''),
     (0x80E80000, ''BadTransactionPending''),
     (0x811F0000, ''BadTicketRequired''),
     (0x81200000, ''BadTicketInvalid''),
     (0x00DC0000, ''GoodEdited''),
     (0x00DD0000, ''GoodPostActionFailed''),
     (0x40DE0000, ''UncertainDominantValueChanged''),
     (0x00E00000, ''GoodDependentValueChanged''),
     (0x80E10000, ''BadDominantValueChanged'')]"

definition status_names_15 :: "(UA_StatusCode \<times> string) list" where
  "status_names_15 = [
     (0x40E20000, ''UncertainDependentValueChanged''),
     (0x80E30000, ''BadDependentValueChanged''),
     (0x01160000, ''GoodEdited_DependentValueChanged''),
     (0x01170000, ''GoodEdited_DominantValueChanged''),
     (0x01180000, ''GoodEdited_DominantValueChanged_DependentValueChanged''),
     (0x81190000, ''BadEdited_OutOfRange''),
     (0x811A0000, ''BadInitialValue_OutOfRange''),
     (0x811B0000, ''BadOutOfRange_DominantValueChanged''),
     (0x811C0000, ''BadEdited_OutOfRange_DominantValueChanged''),
     (0x811D0000, ''BadOutOfRange_DominantValueChanged_DependentValueChanged''),
     (0x811E0000, ''BadEdited_OutOfRange_DominantValueChanged_DependentValueChanged''),
     (0x00A70000, ''GoodCommunicationEvent''),
     (0x00A80000, ''GoodShutdownEvent''),
     (0x00A90000, ''GoodCallAgain''),
     (0x00AA0000, ''GoodNonCriticalTimeout''),
     (0x80AB0000, ''BadInvalidArgument'')]"

definition status_names_16 :: "(UA_StatusCode \<times> string) list" where
  "status_names_16 = [
     (0x80AC0000, ''BadConnectionRejected''),
     (0x80AD0000, ''BadDisconnect''),
     (0x80AE0000, ''BadConnectionClosed''),
     (0x80AF0000, ''BadInvalidState''),
     (0x80B00000, ''BadEndOfStream''),
     (0x80B10000, ''BadNoDataAvailable''),
     (0x80B20000, ''BadWaitingForResponse''),
     (0x80B30000, ''BadOperationAbandoned''),
     (0x80B40000, ''BadExpectedStreamToBlock''),
     (0x80B50000, ''BadWouldBlock''),
     (0x80B60000, ''BadSyntaxError''),
     (0x80B70000, ''BadMaxConnectionsReached'')]"

definition statusCodeDescriptions :: "(UA_StatusCode \<times> string) list" where
  "statusCodeDescriptions = concat [
     status_names_1, status_names_2, status_names_3, status_names_4, status_names_5, status_names_6, status_names_7, status_names_8, status_names_9,
      status_names_10, status_names_11, status_names_12, status_names_13, status_names_14, status_names_15, status_names_16]
     @ [(0xFFFFFFFF, ''Unknown StatusCode'')]"

definition UA_StatusCode_equalTop :: "UA_StatusCode \<Rightarrow> UA_StatusCode \<Rightarrow> bool" where
  "UA_StatusCode_equalTop s1 s2 \<longleftrightarrow> s1 AND 0xFFFF0000 = s2 AND 0xFFFF0000"

definition UA_StatusCode_name :: "UA_StatusCode \<Rightarrow> string" where
  "UA_StatusCode_name code =
     (case find (\<lambda>d. UA_StatusCode_equalTop (fst d) code) statusCodeDescriptions of
        Some d \<Rightarrow> snd d | None \<Rightarrow> snd (last statusCodeDescriptions))"

subsection \<open>Looking codes up\<close>

definition top_only :: "UA_StatusCode \<Rightarrow> bool" where
  "top_only c \<longleftrightarrow> c AND 0xFFFF0000 = c"

lemma equalTop_top_only: "top_only a \<Longrightarrow> top_only c \<Longrightarrow> UA_StatusCode_equalTop a c \<longleftrightarrow> a = c"
  by (simp add: top_only_def UA_StatusCode_equalTop_def)

lemma status_names_top:
  "list_all (\<lambda>d. top_only (fst d)) status_names_1"
  "list_all (\<lambda>d. top_only (fst d)) status_names_2"
  "list_all (\<lambda>d. top_only (fst d)) status_names_3"
  "list_all (\<lambda>d. top_only (fst d)) status_names_4"
  "list_all (\<lambda>d. top_only (fst d)) status_names_5"
  "list_all (\<lambda>d. top_only (fst d)) status_names_6"
  "list_all (\<lambda>d. top_only (fst d)) status_names_7"
  "list_all (\<lambda>d. top_only (fst d)) status_names_8"
  "list_all (\<lambda>d. top_only (fst d)) status_names_9"
  "list_all (\<lambda>d. top_only (fst d)) status_names_10"
  "list_all (\<lambda>d. top_only (fst d)) status_names_11"
  "list_all (\<lambda>d. top_only (fst d)) status_names_12"
  "list_all (\<lambda>d. top_only (fst d)) status_names_13"
  "list_all (\<lambda>d. top_only (fst d)) status_names_14"
  "list_all (\<lambda>d. top_only (fst d)) status_names_15"
  "list_all (\<lambda>d. top_only (fst d)) status_names_16"
  by (simp_all add: top_only_def status_names_1_def status_names_2_def status_names_3_def status_names_4_def status_names_5_def status_names_6_def status_names_7_def status_names_8_def status_names_9_def
       status_names_10_def status_names_11_def status_names_12_def status_names_13_def status_names_14_def status_names_15_def status_names_16_def)

lemma aliases_top: "list_all (\<lambda>e. top_only (snd e)) status_aliases"
  by (simp add: status_aliases_def status_aliases_1_def status_aliases_2_def top_only_def)

text \<open>Searching by equality, piece by piece.\<close>

fun find_name :: "UA_StatusCode \<Rightarrow> (UA_StatusCode \<times> string) list \<Rightarrow> string option" where
  "find_name c [] = None"
| "find_name c ((k, n) # es) = (if k = c then Some n else find_name c es)"

fun first_name :: "UA_StatusCode \<Rightarrow> (UA_StatusCode \<times> string) list list \<Rightarrow> string option" where
  "first_name c [] = None"
| "first_name c (es # ess) = (case find_name c es of None \<Rightarrow> first_name c ess | Some n \<Rightarrow> Some n)"

lemma find_name_append: "find_name c (es @ fs) = (case find_name c es of None \<Rightarrow> find_name c fs | Some n \<Rightarrow> Some n)"
  by (induction c es rule: find_name.induct) auto

lemma first_name_concat: "first_name c ess = find_name c (concat ess)"
  by (induction ess) (simp_all add: find_name_append split: option.split)

lemma find_equalTop:
  "top_only c \<Longrightarrow> list_all (\<lambda>d. top_only (fst d)) es \<Longrightarrow> find_name c es = Some n \<Longrightarrow>
     \<exists>d. find (\<lambda>d. UA_StatusCode_equalTop (fst d) c) (es @ fs) = Some d \<and> snd d = n"
  by (induction c es rule: find_name.induct) (auto simp: equalTop_top_only split: if_splits)

lemma UA_StatusCode_name_first:
  assumes "top_only c" "first_name c [
     status_names_1, status_names_2, status_names_3, status_names_4, status_names_5, status_names_6, status_names_7, status_names_8, status_names_9,
      status_names_10, status_names_11, status_names_12, status_names_13, status_names_14, status_names_15, status_names_16] = Some n"
  shows "UA_StatusCode_name c = n"
proof -
  let ?ess = "[
     status_names_1, status_names_2, status_names_3, status_names_4, status_names_5, status_names_6, status_names_7, status_names_8, status_names_9,
      status_names_10, status_names_11, status_names_12, status_names_13, status_names_14, status_names_15, status_names_16]"
  have "list_all (\<lambda>d. top_only (fst d)) (concat ?ess)" by (simp add: status_names_top)
  from find_equalTop [OF assms(1) this assms(2) [unfolded first_name_concat]]
  obtain d where "find (\<lambda>d. UA_StatusCode_equalTop (fst d) c) statusCodeDescriptions = Some d" "snd d = n"
    unfolding statusCodeDescriptions_def by blast
  then show ?thesis by (simp add: UA_StatusCode_name_def)
qed

definition entry_matches :: "string \<times> UA_StatusCode \<Rightarrow> bool" where
  "entry_matches e \<longleftrightarrow> map_option (append ''OpcUa_'') (first_name (snd e) [
     status_names_1, status_names_2, status_names_3, status_names_4, status_names_5, status_names_6, status_names_7, status_names_8, status_names_9,
      status_names_10, status_names_11, status_names_12, status_names_13, status_names_14, status_names_15, status_names_16]) = Some (fst e)"

lemma entry_name: "entry_matches e \<Longrightarrow> top_only (snd e) \<Longrightarrow> fst e = ''OpcUa_'' @ UA_StatusCode_name (snd e)"
  by (auto simp: entry_matches_def dest: UA_StatusCode_name_first)

text \<open>Evaluating a search: on integers, and without touching the rest of the list.\<close>

fun find_int :: "int \<Rightarrow> (int \<times> string) list \<Rightarrow> string option" where
  "find_int c [] = None"
| "find_int c ((k, n) # es) = (if k = c then Some n else find_int c es)"

definition int_entries :: "(UA_StatusCode \<times> string) list \<Rightarrow> (int \<times> string) list" where
  "int_entries es = map (\<lambda>d. (uint (fst d), snd d)) es"

lemma find_name_int: "find_name c es = find_int (uint c) (int_entries es)"
  by (induction c es rule: find_name.induct) (auto simp: int_entries_def word_uint_eq_iff)

lemma int_entries_simps [simp]:
  "int_entries [] = []" "int_entries ((k, n) # es) = (uint k, n) # int_entries es"
  by (simp_all add: int_entries_def)

lemma find_int_lazy: "c = c' \<Longrightarrow> find_int c es = find_int c' es" by simp

lemmas int_pieces =
  arg_cong [OF status_names_1_def, of int_entries, simplified]
  arg_cong [OF status_names_2_def, of int_entries, simplified]
  arg_cong [OF status_names_3_def, of int_entries, simplified]
  arg_cong [OF status_names_4_def, of int_entries, simplified]
  arg_cong [OF status_names_5_def, of int_entries, simplified]
  arg_cong [OF status_names_6_def, of int_entries, simplified]
  arg_cong [OF status_names_7_def, of int_entries, simplified]
  arg_cong [OF status_names_8_def, of int_entries, simplified]
  arg_cong [OF status_names_9_def, of int_entries, simplified]
  arg_cong [OF status_names_10_def, of int_entries, simplified]
  arg_cong [OF status_names_11_def, of int_entries, simplified]
  arg_cong [OF status_names_12_def, of int_entries, simplified]
  arg_cong [OF status_names_13_def, of int_entries, simplified]
  arg_cong [OF status_names_14_def, of int_entries, simplified]
  arg_cong [OF status_names_15_def, of int_entries, simplified]
  arg_cong [OF status_names_16_def, of int_entries, simplified]

lemmas find_int_pieces = int_pieces [THEN arg_cong, of "find_int c"] for c

lemma aliases_1_match: "list_all entry_matches status_aliases_1"
  unfolding status_aliases_1_def entry_matches_def list.pred_inject(2)
  by (intro conjI; simp add: find_name_int find_int_pieces cong: find_int_lazy)

lemma aliases_2_match: "list_all entry_matches status_aliases_2"
  unfolding status_aliases_2_def entry_matches_def list.pred_inject(2)
  by (intro conjI; simp add: find_name_int find_int_pieces cong: find_int_lazy)

lemma alias_texts: "list_all (\<lambda>e. nul_free (fst e) \<and> fst e \<noteq> ''OpcUa_Unknown StatusCode'') status_aliases"
  by (simp add: status_aliases_def status_aliases_1_def status_aliases_2_def)

text \<open>The header's aliases and the stack's table of names agree: every \<open>OpcUa_X\<close> of
  \<open>statuscode.h\<close> stands for a code whose name in the stack is \<open>X\<close>, and \<open>UaStatus::toString\<close> of it is
  \<open>X\<close> followed by the code in hexadecimal. (In particular \<open>OpcUa_Bad\<close> and \<open>OpcUa_Uncertain\<close> print
  the stack's names; the private descriptions of \<open>statuscode.cpp\<close> are not used.)\<close>

theorem aliases_print_their_names:
  "list_all (\<lambda>e. fst e = ''OpcUa_'' @ UA_StatusCode_name (snd e)
     \<and> UaStatus_toString UA_StatusCode_name (UaStatus_of (snd e))
         = UA_StatusCode_name (snd e) @ '' (0x'' @ toHexString (snd e) @ '')'') status_aliases"
proof -
  have "list_all entry_matches status_aliases"
    by (simp add: status_aliases_def aliases_1_match aliases_2_match)
  then have name: "fst e = ''OpcUa_'' @ UA_StatusCode_name (snd e)" if "e \<in> set status_aliases" for e
    using that aliases_top entry_name [of e] by (simp add: list_all_iff)
  have "UaStatus_toString UA_StatusCode_name (UaStatus_of (snd e))
      = UA_StatusCode_name (snd e) @ '' (0x'' @ toHexString (snd e) @ '')''" if e: "e \<in> set status_aliases" for e
  proof -
    have "nul_free (fst e) \<and> fst e \<noteq> ''OpcUa_Unknown StatusCode''" using e alias_texts by (simp add: list_all_iff)
    then have "nul_free (UA_StatusCode_name (snd e))" "UA_StatusCode_name (snd e) \<noteq> ''Unknown StatusCode''"
      unfolding name [OF e] by auto
    then have "statusDescription UA_StatusCode_name (UaStatus_of (snd e)) = UA_StatusCode_name (snd e)"
      by (simp add: statusDescription_def)
    then show ?thesis unfolding UaStatus_toString_eq by simp
  qed
  with name show ?thesis by (simp add: list_all_iff)
qed

end
