(* ===== verification/UaNodes.thy ===== *)
theory UaNodes
  imports UaNodeIds UaDataValues UaArrays
begin

text \<open>
  The node classes (\<open>include/uanode.h\<close>, \<open>include/uabasenodes.h\<close>, \<open>opcua_basedatavariabletype\<close>,
  \<open>opcua_baseobjecttype.h\<close>, \<open>uadatavariablecache\<close>, \<open>methodhandleuanode.h\<close>) and the conversion of node
  classes. Nodes live in a heap, a map from addresses, because they refer to each other by pointer; the
  virtual accessors are a case distinction on the class of the object.
\<close>

subsection \<open>Node classes\<close>

datatype OpcUa_NodeClass =
    OpcUa_NodeClass_Object | OpcUa_NodeClass_Variable | OpcUa_NodeClass_Method
  | OpcUa_NodeClass_ObjectType | OpcUa_NodeClass_VariableType | OpcUa_NodeClass_ReferenceType
  | OpcUa_NodeClass_DataType | OpcUa_NodeClass_View

text \<open>The enumerators have the values of the stack's \<open>UA_NodeClass\<close>.\<close>

definition nodeClass_value :: "OpcUa_NodeClass \<Rightarrow> int" where
  "nodeClass_value c = (case c of
      OpcUa_NodeClass_Object \<Rightarrow> 1 | OpcUa_NodeClass_Variable \<Rightarrow> 2 | OpcUa_NodeClass_Method \<Rightarrow> 4
    | OpcUa_NodeClass_ObjectType \<Rightarrow> 8 | OpcUa_NodeClass_VariableType \<Rightarrow> 16 | OpcUa_NodeClass_ReferenceType \<Rightarrow> 32
    | OpcUa_NodeClass_DataType \<Rightarrow> 64 | OpcUa_NodeClass_View \<Rightarrow> 128)"

definition safeConvertNodeClassToSdk :: "int \<Rightarrow> OpcUa_NodeClass res" where
  "safeConvertNodeClassToSdk nc =
     (if nc = 4 then Inr OpcUa_NodeClass_Method
      else if nc = 1 then Inr OpcUa_NodeClass_Object
      else if nc = 2 then Inr OpcUa_NodeClass_Variable
      else if nc = 8 then Inr OpcUa_NodeClass_ObjectType
      else if nc = 16 then Inr OpcUa_NodeClass_VariableType
      else if nc = 32 then Inr OpcUa_NodeClass_ReferenceType
      else if nc = 64 then Inr OpcUa_NodeClass_DataType
      else if nc = 128 then Inr OpcUa_NodeClass_View
      else Inl (Throw (RuntimeError ''This node class is not implemented: '')))"

text \<open>The conversion accepts exactly the values of the enumerators and is their inverse.\<close>

lemma safeConvert_iff: "safeConvertNodeClassToSdk nc = Inr c \<longleftrightarrow> nodeClass_value c = nc"
  by (cases c) (auto simp: safeConvertNodeClassToSdk_def nodeClass_value_def)

lemma safeConvert_error:
  "(\<forall>c. nodeClass_value c \<noteq> nc) \<longleftrightarrow>
     safeConvertNodeClassToSdk nc = Inl (Throw (RuntimeError ''This node class is not implemented: ''))"
proof -
  have "safeConvertNodeClassToSdk nc = Inl (Throw (RuntimeError ''This node class is not implemented: ''))
      \<or> (\<exists>c. safeConvertNodeClassToSdk nc = Inr c)"
    by (simp add: safeConvertNodeClassToSdk_def)
  then show ?thesis by (auto simp: safeConvert_iff [symmetric])
qed

subsection \<open>Data variables\<close>

text \<open>A qualified name is copied member by member; the copy still points to the text of the original.\<close>

definition UaQualifiedName_copy :: "allocator \<Rightarrow> UaQualifiedName \<Rightarrow> UaQualifiedName res" where
  "UaQualifiedName_copy al q = bind_res (UaString_copy al (m_unqualifiedName q)) (\<lambda>s. Inr (q\<lparr>m_unqualifiedName := s\<rparr>))"

text \<open>\<open>bv_handlesIo\<close> is what \<open>handlesIo()\<close> of the object's class returns; the default is \<open>False\<close>.\<close>

record BaseDataVariableType =
  bv_browseName :: UaQualifiedName
  bv_currentValue :: UaDataValue
  bv_nodeId :: UaNodeId
  bv_typeDefinitionId :: UaNodeId
  bv_valueRank :: "32 word"
  bv_accessLevel :: byte
  bv_arrayDimensions :: "32 word UaCompatArray"
  bv_handlesIo :: bool

definition BaseDataVariableType_new :: "allocator \<Rightarrow> int \<Rightarrow> int \<Rightarrow> UaNodeId \<Rightarrow> UaString \<Rightarrow> 16 word
    \<Rightarrow> UA_Variant \<Rightarrow> byte \<Rightarrow> BaseDataVariableType res" where
  "BaseDataVariableType_new al now1 now2 nodeId name browseNameNameSpaceIndex initialValue accessLevel =
     bind_res (UaQualifiedName_ofInt al (uint browseNameNameSpaceIndex) name) (\<lambda>q.
     bind_res (UaDataValue_of al initialValue OpcUa_Good now1 now2) (\<lambda>d.
     bind_res (UaNodeId_copy al nodeId) (\<lambda>i.
       Inr \<lparr>bv_browseName = q, bv_currentValue = d, bv_nodeId = i,
            bv_typeDefinitionId = UaNodeId_numeric 24 0, bv_valueRank = - 1, bv_accessLevel = accessLevel,
            bv_arrayDimensions = [], bv_handlesIo = False\<rparr>)))"

definition BaseDataVariableType_setValue :: "allocator \<Rightarrow> UaDataValue \<Rightarrow> bool \<Rightarrow> (BaseDataVariableType, UA_StatusCode) op" where
  "BaseDataVariableType_setValue al dataValue checkAccessLevel v =
     (if \<not> checkAccessLevel \<or> bv_accessLevel v AND 2 \<noteq> 0 then
        (case UaDataValue_assign al (Some dataValue) (bv_currentValue v) of
           (Inl e, d) \<Rightarrow> (Inl e, v\<lparr>bv_currentValue := d\<rparr>)
         | (Inr _, d) \<Rightarrow> (Inr OpcUa_Good, v\<lparr>bv_currentValue := d\<rparr>))
      else (Inr OpcUa_BadUserAccessDenied, v))"

definition BaseDataVariableType_value :: "allocator \<Rightarrow> BaseDataVariableType \<Rightarrow> UaDataValue res" where
  "BaseDataVariableType_value al v = UaDataValue_clone al (bv_currentValue v)"

definition BaseDataVariableType_setAccessLevel :: "byte \<Rightarrow> BaseDataVariableType \<Rightarrow> BaseDataVariableType" where
  "BaseDataVariableType_setAccessLevel accessLevel v = v\<lparr>bv_accessLevel := accessLevel\<rparr>"

definition BaseDataVariableType_setDataType :: "allocator \<Rightarrow> UaNodeId \<Rightarrow> (BaseDataVariableType, unit) op" where
  "BaseDataVariableType_setDataType al typeref v =
     (case UaNodeId_assign al (Some typeref) (bv_typeDefinitionId v) of (r, i) \<Rightarrow> (r, v\<lparr>bv_typeDefinitionId := i\<rparr>))"

definition BaseDataVariableType_setValueRank :: "32 word \<Rightarrow> BaseDataVariableType \<Rightarrow> BaseDataVariableType" where
  "BaseDataVariableType_setValueRank valueRank v = v\<lparr>bv_valueRank := valueRank\<rparr>"

definition BaseDataVariableType_setArrayDimensions :: "32 word UaCompatArray \<Rightarrow> BaseDataVariableType \<Rightarrow> BaseDataVariableType" where
  "BaseDataVariableType_setArrayDimensions arrayDimensions v = v\<lparr>bv_arrayDimensions := arrayDimensions\<rparr>"

text \<open>The variables the operations keep: contents that can be copied.\<close>

definition wf_variable :: "BaseDataVariableType \<Rightarrow> bool" where
  "wf_variable v \<longleftrightarrow> wf_UaString (m_unqualifiedName (bv_browseName v)) \<and> wf_datavalue (bv_currentValue v)
     \<and> wf_nodeid (bv_nodeId v) \<and> wf_nodeid (bv_typeDefinitionId v)"

lemma UaDataValue_of_ok:
  "mem_ok al \<Longrightarrow> wf_variant w \<Longrightarrow> UaDataValue_of al w code src srv = Inr (UA_DataValue_init
     \<lparr>dv_value := w, dv_status := code, dv_hasStatus := True, dv_serverTimestamp := srv, dv_hasServerTimestamp := True,
      dv_hasServerPicoseconds := False, dv_sourceTimestamp := src, dv_hasSourceTimestamp := True,
      dv_hasSourcePicoseconds := False, dv_hasValue := True\<rparr>)"
  by (simp add: UaDataValue_of_def UA_Variant_copy_ok)

lemma UaDataValue_of_wf: "mem_ok al \<Longrightarrow> wf_variant w \<Longrightarrow> UaDataValue_of al w code src srv = Inr d \<Longrightarrow> wf_datavalue d"
  by (auto simp: UaDataValue_of_ok wf_datavalue_def)

lemma UaQualifiedName_copy_ok: "mem_ok al \<Longrightarrow> wf_UaString (m_unqualifiedName q) \<Longrightarrow> UaQualifiedName_copy al q = Inr q"
  by (simp add: UaQualifiedName_copy_def UaString_copy_ok)

lemma setValue_ok:
  assumes "mem_ok al" "wf_datavalue d" "wf_variable v"
  shows "BaseDataVariableType_setValue al d check v =
    (if check \<and> bv_accessLevel v AND 2 = 0 then (Inr OpcUa_BadUserAccessDenied, v)
     else (Inr OpcUa_Good, v\<lparr>bv_currentValue := d\<rparr>))"
  using ua_datavalue.assign_other [OF assms(1,2)] assms(3)
  by (simp add: BaseDataVariableType_setValue_def wf_variable_def)

lemma setValue_wf:
  "mem_ok al \<Longrightarrow> wf_datavalue d \<Longrightarrow> wf_variable v \<Longrightarrow> wf_variable (snd (BaseDataVariableType_setValue al d check v))"
  by (simp add: setValue_ok) (simp add: wf_variable_def)

lemma value_ok: "mem_ok al \<Longrightarrow> wf_variable v \<Longrightarrow> BaseDataVariableType_value al v = Inr (bv_currentValue v)"
  by (simp add: BaseDataVariableType_value_def wf_variable_def UaDataValue_clone_ok)

subsection \<open>Method arguments and properties\<close>

text \<open>
  \<open>UA_Argument\<close>, 96 bytes, and the table of pointers to them; an allocation that fails leaves a null
  pointer (\<open>None\<close>), as \<open>UA_Argument_new\<close> is not checked.
\<close>

record UA_Argument =
  arg_name :: UA_String
  arg_dataType :: UA_NodeId
  arg_valueRank :: "32 word"

definition UA_Argument_init :: UA_Argument where
  "UA_Argument_init = \<lparr>arg_name = UA_STRING_NULL, arg_dataType = UA_NodeId_null, arg_valueRank = 0\<rparr>"

definition UA_Argument_new :: "allocator \<Rightarrow> UA_Argument option" where
  "UA_Argument_new al = (if can_alloc al 96 then Some UA_Argument_init else None)"

datatype ArgumentType = INARGUMENTS | OUTARGUMENTS

record UaPropertyMethodArgument =
  ma_nodeId :: UaNodeId
  ma_numberArguments :: nat
  ma_browseName :: UaQualifiedName
  ma_impl :: "UA_Argument option list"
  ma_argumentType :: ArgumentType

definition UaPropertyMethodArgument_new :: "allocator \<Rightarrow> UaNodeId \<Rightarrow> 32 word \<Rightarrow> ArgumentType \<Rightarrow> UaPropertyMethodArgument res" where
  "UaPropertyMethodArgument_new al nodeId numberOfArguments argumentType =
     bind_res (UaNodeId_copy al nodeId) (\<lambda>i.
     bind_res (UaString_fromChars al ''args'') (\<lambda>a.
     bind_res (UaQualifiedName_ofInt al (uint (nid_namespaceIndex nodeId)) a) (\<lambda>q.
       if \<not> can_alloc al (unat numberOfArguments * 8) then Inl (Throw AllocError)
       else Inr \<lparr>ma_nodeId = i, ma_numberArguments = unat numberOfArguments, ma_browseName = q,
                 ma_impl = replicate (unat numberOfArguments) (UA_Argument_new al), ma_argumentType = argumentType\<rparr>)))"

text \<open>
  \<open>setArgument\<close>: the data type is taken over with its pointers (the caller keeps the identifier alive), the
  name is copied. Array dimensions and description are ignored.
\<close>

definition setArgument :: "allocator \<Rightarrow> 32 word \<Rightarrow> UaString \<Rightarrow> UaNodeId \<Rightarrow> 32 word \<Rightarrow> (UaPropertyMethodArgument, UA_StatusCode) op" where
  "setArgument al index name dataType valueRank p =
     (if unat index \<ge> ma_numberArguments p then (Inr OpcUa_BadInvalidArgument, p)
      else case ma_impl p ! unat index of
        None \<Rightarrow> (Inl (UB NullDeref), p)
      | Some a \<Rightarrow>
          (let put = (\<lambda>x. p\<lparr>ma_impl := (ma_impl p)[unat index := Some x]\<rparr>); a1 = a\<lparr>arg_dataType := dataType\<rparr>
           in case name of
             Freed \<Rightarrow> (Inl (UB UseAfterFree), put a1)
           | Live s \<Rightarrow> (case String_copy al s of
               Inl e \<Rightarrow> (Inl e, put a1)
             | Inr (status, t) \<Rightarrow>
                 if status \<noteq> OpcUa_Good then (Inr OpcUa_Bad, put (a1\<lparr>arg_name := t\<rparr>))
                 else (Inr OpcUa_Good, put (a1\<lparr>arg_name := t, arg_valueRank := valueRank\<rparr>)))))"

definition implArgument :: "UaPropertyMethodArgument \<Rightarrow> nat \<Rightarrow> UA_Argument res" where
  "implArgument p index =
     (if index \<ge> ma_numberArguments p
      then Inl (Throw (OutOfRange ''asking for argument past initially declared range''))
      else case ma_impl p ! index of None \<Rightarrow> Inl (UB NullDeref) | Some a \<Rightarrow> Inr a)"

definition wf_method_argument :: "UaPropertyMethodArgument \<Rightarrow> bool" where
  "wf_method_argument p \<longleftrightarrow> length (ma_impl p) = ma_numberArguments p \<and> None \<notin> set (ma_impl p)
     \<and> wf_nodeid (ma_nodeId p) \<and> wf_UaString (m_unqualifiedName (ma_browseName p))"

record UaPropertyCache =
  pc_nodeId :: UaNodeId
  pc_browseName :: UaQualifiedName
  pc_value :: UaVariant
  pc_typeDefinitionId :: UaNodeId
  pc_accessLevel :: byte

definition UaPropertyCache_new :: "allocator \<Rightarrow> UaString \<Rightarrow> UaNodeId \<Rightarrow> UA_Variant \<Rightarrow> byte \<Rightarrow> UaPropertyCache res" where
  "UaPropertyCache_new al name nodeId defaultValue accessLevel =
     bind_res (UaNodeId_copy al nodeId) (\<lambda>i.
     bind_res (UaQualifiedName_ofInt al (uint (nid_namespaceIndex nodeId)) name) (\<lambda>q.
     bind_res (UaVariant_copy al (Live defaultValue)) (\<lambda>v.
     bind_res (UaVariant_dataType defaultValue) (\<lambda>t.
       Inr \<lparr>pc_nodeId = i, pc_browseName = q, pc_value = v, pc_typeDefinitionId = t, pc_accessLevel = accessLevel\<rparr>))))"

definition UaPropertyCache_value :: "allocator \<Rightarrow> int \<Rightarrow> int \<Rightarrow> UaPropertyCache \<Rightarrow> UaDataValue res" where
  "UaPropertyCache_value al now1 now2 p = (case pc_value p of
      Freed \<Rightarrow> Inl (UB UseAfterFree) | Live v \<Rightarrow> UaDataValue_of al v OpcUa_Good now1 now2)"

subsection \<open>Objects and methods\<close>

record BaseObjectType =
  bo_nodeId :: UaNodeId
  bo_browseName :: UaQualifiedName

definition BaseObjectType_new :: "allocator \<Rightarrow> UaNodeId \<Rightarrow> UaString \<Rightarrow> 16 word \<Rightarrow> BaseObjectType res" where
  "BaseObjectType_new al nodeId name browseNameNameSpaceIndex = bind_res (UaNodeId_copy al nodeId) (\<lambda>i.
     bind_res (UaQualifiedName_ofInt al (uint browseNameNameSpaceIndex) name) (\<lambda>q.
       Inr \<lparr>bo_nodeId = i, bo_browseName = q\<rparr>))"

record BaseMethod =
  bm_nodeId :: UaNodeId
  bm_browseName :: UaQualifiedName

definition BaseMethod_new :: "allocator \<Rightarrow> UaNodeId \<Rightarrow> UaString \<Rightarrow> 16 word \<Rightarrow> BaseMethod res" where
  "BaseMethod_new al nodeId name browseNameNameSpaceIndex = bind_res (UaNodeId_copy al nodeId) (\<lambda>i.
     bind_res (UaQualifiedName_ofInt al (uint browseNameNameSpaceIndex) name) (\<lambda>q.
       Inr \<lparr>bm_nodeId = i, bm_browseName = q\<rparr>))"

lemma wf_variant_dataType:
  assumes "UaVariant_dataType v = Inr i"
  shows "wf_nodeid i"
proof -
  from assms obtain t where "(case t of OpcUaType n \<Rightarrow> Inr (UaNodeId_numeric n 0)) = (Inr i :: UaNodeId res)"
    by (auto simp: UaVariant_dataType_def bind_res_Inr_iff)
  then show ?thesis by (cases t) (auto simp: UaNodeId_numeric_def UA_NODEID_NUMERIC_def wf_nodeid_def)
qed

lemma setArgument_within:
  assumes "mem_ok al" "wf_method_argument p" "wf_bstr name" "unat i < ma_numberArguments p"
  shows "\<exists>p'. setArgument al i (Live name) ty rank p = (Inr OpcUa_Good, p') \<and> wf_method_argument p'
      \<and> implArgument p' (unat i) = Inr \<lparr>arg_name = name, arg_dataType = ty, arg_valueRank = rank\<rparr>
      \<and> (\<forall>j. j \<noteq> unat i \<longrightarrow> implArgument p' j = implArgument p j)"
proof -
  from assms(2,4) have len: "unat i < length (ma_impl p)" by (simp add: wf_method_argument_def)
  then have "ma_impl p ! unat i \<in> set (ma_impl p)" by (rule nth_mem)
  with assms(2) obtain a where a: "ma_impl p ! unat i = Some a"
    by (cases "ma_impl p ! unat i") (auto simp: wf_method_argument_def)
  let ?x = "a\<lparr>arg_dataType := ty, arg_name := name, arg_valueRank := rank\<rparr>"
  let ?p' = "p\<lparr>ma_impl := (ma_impl p)[unat i := Some ?x]\<rparr>"
  have "setArgument al i (Live name) ty rank p = (Inr OpcUa_Good, ?p')"
    using assms(1,3,4) a by (simp add: setArgument_def String_copy_ok)
  moreover have "wf_method_argument ?p'"
    using assms(2) by (auto simp: wf_method_argument_def dest: set_update_subset_insert [THEN subsetD])
  moreover have "implArgument ?p' (unat i) = Inr ?x" using assms(4) len by (simp add: implArgument_def)
  moreover have "implArgument ?p' j = implArgument p j" if "j \<noteq> unat i" for j
    using that by (simp add: implArgument_def)
  ultimately show ?thesis by (intro exI [of _ ?p']) simp
qed

text \<open>The table of a method's arguments never reads or writes outside its size: an index at or past
  the number of arguments is refused by \<open>setArgument\<close>, which then changes nothing, and makes \<open>implArgument\<close>
  throw; below it, \<open>implArgument\<close> returns what was last set there and every other argument is unchanged.\<close>

theorem method_arguments_bounds:
  assumes "mem_ok al" "wf_method_argument p" "wf_bstr name"
  shows "if unat i < ma_numberArguments p
    then (\<exists>p'. setArgument al i (Live name) ty rank p = (Inr OpcUa_Good, p') \<and> wf_method_argument p'
      \<and> implArgument p' (unat i) = Inr \<lparr>arg_name = name, arg_dataType = ty, arg_valueRank = rank\<rparr>
      \<and> (\<forall>j. j \<noteq> unat i \<longrightarrow> implArgument p' j = implArgument p j))
    else setArgument al i (Live name) ty rank p = (Inr OpcUa_BadInvalidArgument, p)
      \<and> implArgument p (unat i) = Inl (Throw (OutOfRange ''asking for argument past initially declared range''))"
  using setArgument_within [OF assms] by (simp add: setArgument_def implArgument_def)

theorem method_arguments_bounds_witness:
  "let p = \<lparr>ma_nodeId = UA_NodeId_null, ma_numberArguments = 1,
       ma_browseName = \<lparr>m_unqualifiedName = Live UA_STRING_NULL, qn_namespaceIndex = 0\<rparr>,
       ma_impl = [Some UA_Argument_init], ma_argumentType = INARGUMENTS\<rparr>
   in setArgument enough_memory 1 (Live UA_STRING_NULL) UA_NodeId_null 0 p = (Inr OpcUa_BadInvalidArgument, p)"
  using method_arguments_bounds [OF mem_ok_enough, of
      "\<lparr>ma_nodeId = UA_NodeId_null, ma_numberArguments = 1,
        ma_browseName = \<lparr>m_unqualifiedName = Live UA_STRING_NULL, qn_namespaceIndex = 0\<rparr>,
        ma_impl = [Some UA_Argument_init], ma_argumentType = INARGUMENTS\<rparr>" UA_STRING_NULL 1 UA_NodeId_null 0]
  by (simp add: wf_method_argument_def wf_nodeid_def UA_NodeId_null_def UA_NODEID_NUMERIC_def)

subsection \<open>The node heap\<close>

text \<open>Address 0 is the null pointer; an address that holds nothing belongs to a deleted node.\<close>

type_synonym addr = nat

record ReferencedTarget =
  rt_target :: addr
  rt_referenceTypeId :: UaNodeId

text \<open>A class of the application that derives from \<open>UaNode\<close> directly, by what its accessors return.\<close>

record ForeignNode =
  fn_nodeId :: UaNodeId
  fn_browseName :: UaQualifiedName
  fn_typeDefinitionId :: UaNodeId
  fn_nodeClass :: OpcUa_NodeClass

datatype node_object =
    ServerRootNode
  | Object BaseObjectType
  | DataVariable BaseDataVariableType
  | MethodArgument UaPropertyMethodArgument
  | PropertyCache UaPropertyCache
  | Method BaseMethod
  | Foreign ForeignNode

record UaNode =
  node_obj :: node_object
  m_referenceTargets :: "ReferencedTarget list"

type_synonym node_heap = "addr \<rightharpoonup> UaNode"

definition UaNode_new :: "node_object \<Rightarrow> UaNode" where
  "UaNode_new n = \<lparr>node_obj = n, m_referenceTargets = []\<rparr>"

definition deref_node :: "node_heap \<Rightarrow> addr \<Rightarrow> UaNode res" where
  "deref_node h a = (if a = 0 then Inl (UB NullDeref)
     else case h a of None \<Rightarrow> Inl (UB UseAfterFree) | Some n \<Rightarrow> Inr n)"

text \<open>The accessors return copies of the members, or build the constant identifiers of their class.\<close>

definition member_nodeId :: "UaNode \<Rightarrow> UaNodeId" where
  "member_nodeId n = (case node_obj n of
      ServerRootNode \<Rightarrow> UaNodeId_numeric 85 0
    | Object x \<Rightarrow> bo_nodeId x | DataVariable x \<Rightarrow> bv_nodeId x | MethodArgument x \<Rightarrow> ma_nodeId x
    | PropertyCache x \<Rightarrow> pc_nodeId x | Method x \<Rightarrow> bm_nodeId x | Foreign x \<Rightarrow> fn_nodeId x)"

definition UaNode_nodeId :: "allocator \<Rightarrow> UaNode \<Rightarrow> UaNodeId res" where
  "UaNode_nodeId al n = UaNodeId_copy al (member_nodeId n)"

definition UaNode_browseName :: "allocator \<Rightarrow> UaNode \<Rightarrow> UaQualifiedName res" where
  "UaNode_browseName al n = (case node_obj n of
      ServerRootNode \<Rightarrow> bind_res (UaString_fromChars al ''.'') (UaQualifiedName_ofInt al 0)
    | Object x \<Rightarrow> UaQualifiedName_copy al (bo_browseName x)
    | DataVariable x \<Rightarrow> UaQualifiedName_copy al (bv_browseName x)
    | MethodArgument x \<Rightarrow> UaQualifiedName_copy al (ma_browseName x)
    | PropertyCache x \<Rightarrow> UaQualifiedName_copy al (pc_browseName x)
    | Method x \<Rightarrow> UaQualifiedName_copy al (bm_browseName x)
    | Foreign x \<Rightarrow> UaQualifiedName_copy al (fn_browseName x))"

definition UaNode_typeDefinitionId :: "allocator \<Rightarrow> UaNode \<Rightarrow> UaNodeId res" where
  "UaNode_typeDefinitionId al n = (case node_obj n of
      ServerRootNode \<Rightarrow> Inr (UaNodeId_numeric 58 0)
    | Object _ \<Rightarrow> Inr (UaNodeId_numeric 58 0)
    | DataVariable x \<Rightarrow> UaNodeId_copy al (bv_typeDefinitionId x)
    | MethodArgument _ \<Rightarrow> Inr (UaNodeId_numeric 63 0)
    | PropertyCache x \<Rightarrow> UaNodeId_copy al (pc_typeDefinitionId x)
    | Method _ \<Rightarrow> Inr (UaNodeId_numeric 58 0)
    | Foreign x \<Rightarrow> UaNodeId_copy al (fn_typeDefinitionId x))"

definition UaNode_nodeClass :: "UaNode \<Rightarrow> OpcUa_NodeClass" where
  "UaNode_nodeClass n = (case node_obj n of
      ServerRootNode \<Rightarrow> OpcUa_NodeClass_Object
    | Object _ \<Rightarrow> OpcUa_NodeClass_Object
    | DataVariable _ \<Rightarrow> OpcUa_NodeClass_Variable
    | MethodArgument _ \<Rightarrow> OpcUa_NodeClass_Variable
    | PropertyCache _ \<Rightarrow> OpcUa_NodeClass_Variable
    | Method _ \<Rightarrow> OpcUa_NodeClass_Method
    | Foreign x \<Rightarrow> fn_nodeClass x)"

text \<open>\<open>addReferencedTarget\<close> on the node at an address.\<close>

definition addReferencedTarget :: "addr \<Rightarrow> addr \<Rightarrow> UaNodeId \<Rightarrow> node_heap \<Rightarrow> node_heap res" where
  "addReferencedTarget a targetNode referenceTypeId h = bind_res (deref_node h a) (\<lambda>n.
     Inr (h(a \<mapsto> n\<lparr>m_referenceTargets := m_referenceTargets n
       @ [\<lparr>rt_target = targetNode, rt_referenceTypeId = referenceTypeId\<rparr>]\<rparr>)))"

text \<open>\<open>getTargetNodeByBrowseName\<close>: the first target with the name, skipping null targets; 0 when there is none.\<close>

fun find_target :: "allocator \<Rightarrow> node_heap \<Rightarrow> ReferencedTarget list \<Rightarrow> UaQualifiedName \<Rightarrow> addr res" where
  "find_target al h [] browseName = Inr 0"
| "find_target al h (candidate # ts) browseName =
     (if rt_target candidate = 0 then find_target al h ts browseName
      else bind_res (deref_node h (rt_target candidate)) (\<lambda>n.
           bind_res (UaNode_browseName al n) (\<lambda>q.
           bind_res (UaQualifiedName_eq q browseName) (\<lambda>e.
             if e then Inr (rt_target candidate) else find_target al h ts browseName))))"

definition getTargetNodeByBrowseName :: "allocator \<Rightarrow> node_heap \<Rightarrow> addr \<Rightarrow> UaQualifiedName \<Rightarrow> addr res" where
  "getTargetNodeByBrowseName al h a browseName = bind_res (deref_node h a) (\<lambda>n.
     find_target al h (m_referenceTargets n) browseName)"

subsection \<open>Well-formed nodes\<close>

text \<open>The browse name as a member; that of the root is built on each call.\<close>

definition member_browseName :: "allocator \<Rightarrow> UaNode \<Rightarrow> UaQualifiedName" where
  "member_browseName al n = (case node_obj n of
      ServerRootNode \<Rightarrow> \<lparr>m_unqualifiedName = Live (UA_String_fromChars al (Some ''.'')), qn_namespaceIndex = 0\<rparr>
    | Object x \<Rightarrow> bo_browseName x | DataVariable x \<Rightarrow> bv_browseName x | MethodArgument x \<Rightarrow> ma_browseName x
    | PropertyCache x \<Rightarrow> pc_browseName x | Method x \<Rightarrow> bm_browseName x | Foreign x \<Rightarrow> fn_browseName x)"

text \<open>The type definition as a member.\<close>

definition member_typeDefinitionId :: "UaNode \<Rightarrow> UaNodeId" where
  "member_typeDefinitionId n = (case node_obj n of
      ServerRootNode \<Rightarrow> UaNodeId_numeric 58 0 | Object _ \<Rightarrow> UaNodeId_numeric 58 0
    | DataVariable x \<Rightarrow> bv_typeDefinitionId x | MethodArgument _ \<Rightarrow> UaNodeId_numeric 63 0
    | PropertyCache x \<Rightarrow> pc_typeDefinitionId x | Method _ \<Rightarrow> UaNodeId_numeric 58 0
    | Foreign x \<Rightarrow> fn_typeDefinitionId x)"

definition wf_object :: "node_object \<Rightarrow> bool" where
  "wf_object n = (case n of
      DataVariable v \<Rightarrow> wf_variable v
    | MethodArgument p \<Rightarrow> wf_method_argument p
    | PropertyCache p \<Rightarrow> (\<exists>v. pc_value p = Live v \<and> wf_variant v)
    | _ \<Rightarrow> True)"

definition wf_node :: "UaNode \<Rightarrow> bool" where
  "wf_node n \<longleftrightarrow> wf_object (node_obj n) \<and> wf_nodeid (member_nodeId n) \<and> wf_nodeid (member_typeDefinitionId n)
     \<and> wf_UaString (m_unqualifiedName (member_browseName enough_memory n))"

definition wf_heap :: "node_heap \<Rightarrow> bool" where
  "wf_heap h \<longleftrightarrow> h 0 = None \<and> (\<forall>a n. h a = Some n \<longrightarrow> wf_node n)"

lemma wf_heapD: "wf_heap h \<Longrightarrow> h a = Some n \<Longrightarrow> wf_node n"
  by (auto simp: wf_heap_def)

lemma wf_heap_nonnull: "wf_heap h \<Longrightarrow> h a = Some n \<Longrightarrow> a \<noteq> 0"
  by (cases "a = 0") (simp_all add: wf_heap_def)

lemma wf_heap_update: "wf_heap h \<Longrightarrow> a \<noteq> 0 \<Longrightarrow> wf_node n \<Longrightarrow> wf_heap (h(a \<mapsto> n))"
  by (simp add: wf_heap_def)

lemma deref_node_ok: "wf_heap h \<Longrightarrow> h a = Some n \<Longrightarrow> deref_node h a = Inr n"
  by (simp add: deref_node_def wf_heap_nonnull)

lemma deref_node_iff: "wf_heap h \<Longrightarrow> deref_node h a = Inr n \<longleftrightarrow> h a = Some n"
  by (auto simp: deref_node_def wf_heap_def split: option.splits)

lemma nodeId_ok: "mem_ok al \<Longrightarrow> wf_node n \<Longrightarrow> UaNode_nodeId al n = Inr (member_nodeId n)"
  by (simp add: UaNode_nodeId_def wf_node_def UaNodeId_copy_ok)

lemma typeDefinitionId_ok: "mem_ok al \<Longrightarrow> wf_node n \<Longrightarrow> UaNode_typeDefinitionId al n = Inr (member_typeDefinitionId n)"
  by (cases "node_obj n")
     (simp_all add: UaNode_typeDefinitionId_def member_typeDefinitionId_def wf_node_def UaNodeId_copy_ok)

lemma browseName_ok: "mem_ok al \<Longrightarrow> wf_node n \<Longrightarrow> UaNode_browseName al n = Inr (member_browseName al n)"
  by (cases "node_obj n")
     (simp_all add: UaNode_browseName_def member_browseName_def wf_node_def UaQualifiedName_copy_ok
       UaString_fromChars_ok UaQualifiedName_ofInt_def UaString_copy_ok)

lemma wf_node_targets [simp]: "wf_node (n\<lparr>m_referenceTargets := ts\<rparr>) \<longleftrightarrow> wf_node n"
  by (simp add: wf_node_def member_nodeId_def member_typeDefinitionId_def member_browseName_def)

lemma member_nodeId_targets [simp]: "member_nodeId (n\<lparr>m_referenceTargets := ts\<rparr>) = member_nodeId n"
  by (simp add: member_nodeId_def)

lemma addReferencedTarget_ok:
  "wf_heap h \<Longrightarrow> h a = Some n \<Longrightarrow> addReferencedTarget a t ty h = Inr (h(a \<mapsto> n\<lparr>m_referenceTargets :=
     m_referenceTargets n @ [\<lparr>rt_target = t, rt_referenceTypeId = ty\<rparr>]\<rparr>))"
  by (simp add: addReferencedTarget_def deref_node_ok)

lemma addReferencedTarget_wf:
  "wf_heap h \<Longrightarrow> addReferencedTarget a t ty h = Inr h' \<Longrightarrow> wf_heap h'"
  by (auto simp: addReferencedTarget_def bind_res_Inr_iff deref_node_iff
      intro!: wf_heap_update dest: wf_heapD wf_heap_nonnull)

subsection \<open>Method handles\<close>

record MethodHandleUaNode =
  m_obj :: addr
  m_method :: addr

definition MethodHandleUaNode_new :: MethodHandleUaNode where
  "MethodHandleUaNode_new = \<lparr>m_obj = 0, m_method = 0\<rparr>"

definition setUaNodes :: "addr \<Rightarrow> addr \<Rightarrow> MethodHandleUaNode \<Rightarrow> MethodHandleUaNode" where
  "setUaNodes uaObject uaMethod h = h\<lparr>m_obj := uaObject, m_method := uaMethod\<rparr>"

end
