(* ===== verification/UaHandlers.thy ===== *)
theory UaHandlers
  imports UaNodes AsyncRegistry
begin

text \<open>
  The callbacks the stack invokes on the server thread (\<open>unifiedRead\<close>, \<open>unifiedWrite\<close>, \<open>unifiedCall\<close> in
  \<open>src/nodemanagerbase.cpp\<close>) with the data they carry, and the handles through which application code
  completes an operation (\<open>include/async_operations.h\<close>, \<open>src/async_operations.cpp\<close>). The virtual methods
  \<open>beginRead\<close>, \<open>beginWrite\<close> and \<open>beginCall\<close> are arguments, so that every override is covered: what they do
  before they return, in this thread or another, is the change they make to the context. The interleavings
  after that are in \<open>AsyncSystem\<close>.
\<close>

subsection \<open>The context of a server\<close>

text \<open>
  \<open>ctx_operations\<close> is the context pointer of the server's configuration (\<open>None\<close>: null); blocks are objects on
  the heap, known by their address, with their atomic phase.
\<close>

record server_ctx =
  ctx_operations :: "nat AsyncOperations option"
  ctx_blocks :: "nat \<rightharpoonup> Block"
  ctx_phase :: "nat \<Rightarrow> Phase"
  ctx_next :: nat
  ctx_stack :: async_stack
  ctx_nodes :: node_heap
  ctx_handles :: "addr \<rightharpoonup> MethodHandleUaNode"

definition block_at :: "server_ctx \<Rightarrow> nat \<Rightarrow> Block res" where
  "block_at ctx b = (case ctx_blocks ctx b of None \<Rightarrow> Inl (UB UseAfterFree) | Some x \<Rightarrow> Inr x)"

text \<open>\<open>std::make_shared\<close>, and the end of the last shared pointer.\<close>

definition make_block :: "Block \<Rightarrow> server_ctx \<Rightarrow> nat \<times> server_ctx" where
  "make_block x ctx = (ctx_next ctx, ctx\<lparr>ctx_blocks := (ctx_blocks ctx)(ctx_next ctx \<mapsto> x),
     ctx_phase := (ctx_phase ctx)(ctx_next ctx := Initial), ctx_next := Suc (ctx_next ctx)\<rparr>)"

definition drop_block :: "nat \<Rightarrow> server_ctx \<Rightarrow> server_ctx" where
  "drop_block b ctx = ctx\<lparr>ctx_blocks := (ctx_blocks ctx)(b := None)\<rparr>"

text \<open>The end of \<open>complete\<close> and \<open>finishCall\<close>: the phase exchange, and the push of a deferred block.\<close>

definition complete_block :: "nat \<Rightarrow> server_ctx \<Rightarrow> server_ctx" where
  "complete_block b ctx = (case exchange Finished (ctx_phase ctx b) of (old, new) \<Rightarrow>
     (let ctx1 = ctx\<lparr>ctx_phase := (ctx_phase ctx)(b := new)\<rparr>
      in if old = Deferred then ctx1\<lparr>ctx_operations := map_option (push b) (ctx_operations ctx1)\<rparr> else ctx1))"

subsection \<open>Handles\<close>

text \<open>A handle is its \<open>m_block\<close>; a moved-from or completed handle holds \<open>None\<close>.\<close>

type_synonym handle = "nat option"

definition AsyncReadHandle_complete :: "allocator \<Rightarrow> UaDataValue \<Rightarrow> handle \<times> server_ctx \<Rightarrow> (handle \<times> server_ctx) res" where
  "AsyncReadHandle_complete al result = (\<lambda>(m_block, ctx). case m_block of
       None \<Rightarrow> Inr (None, ctx)
     | Some b \<Rightarrow> bind_res (block_at ctx b) (\<lambda>x. case x of
         ReadBlock r \<Rightarrow> bind_res (AsyncReadBlock_setResult al result r) (\<lambda>r'.
           Inr (None, complete_block b (ctx\<lparr>ctx_blocks := (ctx_blocks ctx)(b \<mapsto> ReadBlock r')\<rparr>)))
       | _ \<Rightarrow> Inl (UB TypeConfusion)))"

text \<open>The destructor answers an operation nobody completed.\<close>

definition AsyncReadHandle_destroy :: "allocator \<Rightarrow> int \<Rightarrow> int \<Rightarrow> handle \<times> server_ctx \<Rightarrow> server_ctx res" where
  "AsyncReadHandle_destroy al sourceTime serverTime = (\<lambda>(m_block, ctx). case m_block of
       None \<Rightarrow> Inr ctx
     | Some b \<Rightarrow> bind_res (UaDataValue_of al UA_Variant_init OpcUa_BadInternalError sourceTime serverTime) (\<lambda>d.
         bind_res (AsyncReadHandle_complete al d (Some b, ctx)) (\<lambda>(_, ctx'). Inr ctx')))"

definition AsyncWriteHandle_complete :: "UA_StatusCode \<Rightarrow> handle \<times> server_ctx \<Rightarrow> (handle \<times> server_ctx) res" where
  "AsyncWriteHandle_complete status = (\<lambda>(m_block, ctx). case m_block of
       None \<Rightarrow> Inr (None, ctx)
     | Some b \<Rightarrow> bind_res (block_at ctx b) (\<lambda>x. case x of
         WriteBlock w \<Rightarrow> Inr (None, complete_block b (ctx\<lparr>ctx_blocks :=
           (ctx_blocks ctx)(b \<mapsto> WriteBlock (AsyncWriteBlock_setResult status w))\<rparr>))
       | _ \<Rightarrow> Inl (UB TypeConfusion)))"

definition AsyncWriteHandle_destroy :: "handle \<times> server_ctx \<Rightarrow> server_ctx res" where
  "AsyncWriteHandle_destroy = (\<lambda>(m_block, ctx). case m_block of
       None \<Rightarrow> Inr ctx
     | Some b \<Rightarrow> bind_res (AsyncWriteHandle_complete OpcUa_BadInternalError (Some b, ctx)) (\<lambda>(_, ctx'). Inr ctx'))"

text \<open>\<open>finishCall\<close> on the block of a method call; a raw pointer, which may dangle.\<close>

definition finishCall :: "allocator \<Rightarrow> UA_Variant list \<Rightarrow> UA_StatusCode \<Rightarrow> nat \<Rightarrow> server_ctx \<Rightarrow> (UA_StatusCode \<times> server_ctx) res" where
  "finishCall al outputArguments code b ctx = bind_res (block_at ctx b) (\<lambda>x. case x of
       MethodBlock m \<Rightarrow> bind_res (finishCall_store al outputArguments code m) (\<lambda>m'.
         Inr (OpcUa_Good, complete_block b (ctx\<lparr>ctx_blocks := (ctx_blocks ctx)(b \<mapsto> MethodBlock m')\<rparr>)))
     | _ \<Rightarrow> Inl (UB TypeConfusion))"

subsection \<open>The variable behind a node context\<close>

text \<open>\<open>static_cast\<close> from the context pointer: right only when it points to a data variable.\<close>

definition variable_at :: "server_ctx \<Rightarrow> addr \<Rightarrow> BaseDataVariableType res" where
  "variable_at ctx a = bind_res (deref_node (ctx_nodes ctx) a) (\<lambda>n. case node_obj n of
     DataVariable v \<Rightarrow> Inr v | _ \<Rightarrow> Inl (UB TypeConfusion))"

definition put_variable :: "addr \<Rightarrow> BaseDataVariableType \<Rightarrow> server_ctx \<Rightarrow> server_ctx" where
  "put_variable a v ctx = ctx\<lparr>ctx_nodes := (ctx_nodes ctx)(a := map_option (\<lambda>n. n\<lparr>node_obj := DataVariable v\<rparr>) (ctx_nodes ctx a))\<rparr>"

definition setValue_at :: "allocator \<Rightarrow> addr \<Rightarrow> UaDataValue \<Rightarrow> server_ctx \<Rightarrow> (UA_StatusCode \<times> server_ctx) res" where
  "setValue_at al a d ctx = bind_res (variable_at ctx a) (\<lambda>v.
     case BaseDataVariableType_setValue al d True v of
       (Inl e, _) \<Rightarrow> Inl e | (Inr status, v') \<Rightarrow> Inr (status, put_variable a v' ctx))"

text \<open>The default \<open>beginRead\<close> and \<open>beginWrite\<close> complete at once.\<close>

definition BaseDataVariableType_beginRead :: "allocator \<Rightarrow> addr \<Rightarrow> handle \<times> server_ctx \<Rightarrow> (handle \<times> server_ctx) res" where
  "BaseDataVariableType_beginRead al a = (\<lambda>(h, ctx). bind_res (variable_at ctx a) (\<lambda>v.
     bind_res (BaseDataVariableType_value al v) (\<lambda>d. AsyncReadHandle_complete al d (h, ctx))))"

definition BaseDataVariableType_beginWrite :: "allocator \<Rightarrow> addr \<Rightarrow> UaDataValue \<Rightarrow> handle \<times> server_ctx \<Rightarrow> (handle \<times> server_ctx) res" where
  "BaseDataVariableType_beginWrite al a d = (\<lambda>(h, ctx). bind_res (setValue_at al a d ctx) (\<lambda>(status, ctx').
     AsyncWriteHandle_complete status (h, ctx')))"

definition deferral_possible :: "server_ctx \<Rightarrow> bool" where
  "deferral_possible ctx = (case ctx_operations ctx of None \<Rightarrow> False | Some a \<Rightarrow> deferralActive a)"

definition establish :: "nat \<Rightarrow> server_ctx \<Rightarrow> server_ctx" where
  "establish b ctx = ctx\<lparr>ctx_operations := map_option
     (establishDeferral (\<lambda>b. case ctx_blocks ctx b of Some x \<Rightarrow> block_key x | None \<Rightarrow> 0) b) (ctx_operations ctx)\<rparr>"

subsection \<open>Reading\<close>

text \<open>
  \<open>out\<close> is the address of the stack's data value. The handle is destroyed when \<open>beginRead\<close> returns, unless it
  was moved away. \<open>nodeContext\<close> is not checked for null here.
\<close>

definition unifiedRead :: "allocator \<Rightarrow> (addr \<Rightarrow> handle \<times> server_ctx \<Rightarrow> (handle \<times> server_ctx) res) \<Rightarrow> int \<Rightarrow> int
    \<Rightarrow> addr \<Rightarrow> nat \<Rightarrow> server_ctx \<Rightarrow> (UA_StatusCode \<times> server_ctx) res" where
  "unifiedRead al beginRead sourceTime serverTime nodeContext out ctx = bind_res (variable_at ctx nodeContext) (\<lambda>v.
     if bv_handlesIo v \<and> deferral_possible ctx then
       (case make_block (ReadBlock (AsyncReadBlock_new out (mem_read (ctx_stack ctx) out))) ctx of (b, ctx1) \<Rightarrow>
        bind_res (beginRead nodeContext (Some b, ctx1)) (\<lambda>hc.
        bind_res (AsyncReadHandle_destroy al sourceTime serverTime hc) (\<lambda>ctx2.
          case exchange Deferred (ctx_phase ctx2 b) of (old, new) \<Rightarrow>
            (let ctx3 = ctx2\<lparr>ctx_phase := (ctx_phase ctx2)(b := new)\<rparr>
             in if old = Finished then
                  bind_res (block_at ctx3 b) (\<lambda>x. bind_res (finishInline al x (ctx_stack ctx3)) (\<lambda>st.
                    Inr (OpcUa_Good, drop_block b (ctx3\<lparr>ctx_stack := st\<rparr>))))
                else Inr (UA_STATUSCODE_GOODCOMPLETESASYNCHRONOUSLY, establish b ctx3)))))
     else bind_res (BaseDataVariableType_value al v) (\<lambda>aCopy.
          bind_res (UA_DataValue_copy al aCopy) (\<lambda>(_, t).
            Inr (OpcUa_Good, ctx\<lparr>ctx_stack := (ctx_stack ctx)\<lparr>mem_read := (mem_read (ctx_stack ctx))(out := t)\<rparr>\<rparr>))))"

subsection \<open>Writing\<close>

text \<open>\<open>dataValue\<close> is the address of the value to write; null pointers are refused here.\<close>

definition unifiedWrite :: "allocator \<Rightarrow> (addr \<Rightarrow> UaDataValue \<Rightarrow> handle \<times> server_ctx \<Rightarrow> (handle \<times> server_ctx) res) \<Rightarrow> int \<Rightarrow> int
    \<Rightarrow> addr \<Rightarrow> nat \<Rightarrow> server_ctx \<Rightarrow> (UA_StatusCode \<times> server_ctx) res" where
  "unifiedWrite al beginWrite sourceTime serverTime nodeContext dataValue ctx =
     (if dataValue = 0 then Inr (OpcUa_BadInternalError, ctx)
      else if nodeContext = 0 then Inr (OpcUa_BadInternalError, ctx)
      else bind_res (variable_at ctx nodeContext) (\<lambda>v.
        bind_res (UaVariant_fromStack al (dv_value (mem_read (ctx_stack ctx) dataValue))) (\<lambda>variant.
        case variant of Freed \<Rightarrow> Inl (UB UseAfterFree) | Live w \<Rightarrow>
        if bv_handlesIo v \<and> deferral_possible ctx then
          (case make_block (WriteBlock (AsyncWriteBlock_new dataValue)) ctx of (b, ctx1) \<Rightarrow>
           bind_res (UaDataValue_of al w OpcUa_Good sourceTime serverTime) (\<lambda>d.
           bind_res (beginWrite nodeContext d (Some b, ctx1)) (\<lambda>hc.
           bind_res (AsyncWriteHandle_destroy hc) (\<lambda>ctx2.
             case exchange Deferred (ctx_phase ctx2 b) of (old, new) \<Rightarrow>
               (let ctx3 = ctx2\<lparr>ctx_phase := (ctx_phase ctx2)(b := new)\<rparr>
                in if old = Finished then
                     bind_res (block_at ctx3 b) (\<lambda>x. case x of
                       WriteBlock wb \<Rightarrow> Inr (wb_result wb, drop_block b ctx3) | _ \<Rightarrow> Inl (UB TypeConfusion))
                   else Inr (UA_STATUSCODE_GOODCOMPLETESASYNCHRONOUSLY, establish b ctx3))))))
        else bind_res (UaDataValue_of al w OpcUa_Good sourceTime serverTime) (\<lambda>d. setValue_at al nodeContext d ctx))))"

subsection \<open>Calling a method\<close>

text \<open>The input arguments: each is copied into a variant and assigned to its element of the array.\<close>

fun copy_inputs :: "allocator \<Rightarrow> UA_Variant list \<Rightarrow> UaVariant list res" where
  "copy_inputs al [] = Inr []"
| "copy_inputs al (x # xs) = bind_res (UaVariant_fromStack al x) (\<lambda>v.
     case UaVariant_assign al (Some v) (Live UA_Variant_init) of
       (Inl e, _) \<Rightarrow> Inl e
     | (Inr _, w) \<Rightarrow> bind_res (copy_inputs al xs) (\<lambda>ws. Inr (w # ws)))"

text \<open>The default \<open>beginCall\<close> of \<open>BaseObjectType\<close> refuses.\<close>

definition BaseObjectType_beginCall :: "addr \<Rightarrow> nat \<Rightarrow> addr \<Rightarrow> UaVariant list \<Rightarrow> server_ctx \<Rightarrow> (UA_StatusCode \<times> server_ctx) res" where
  "BaseObjectType_beginCall receiver callback methodHandle inputArgs ctx = Inr (OpcUa_Bad, ctx)"

text \<open>
  The receiver is the parent the method was added under, cast down to \<open>BaseObjectType\<close> without a check and used
  by the virtual call.
\<close>

definition object_at :: "server_ctx \<Rightarrow> addr \<Rightarrow> BaseObjectType res" where
  "object_at ctx a = bind_res (deref_node (ctx_nodes ctx) a) (\<lambda>n. case node_obj n of
     Object x \<Rightarrow> Inr x | _ \<Rightarrow> Inl (UB TypeConfusion))"

definition handle_at :: "server_ctx \<Rightarrow> addr \<Rightarrow> MethodHandleUaNode res" where
  "handle_at ctx p = (if p = 0 then Inl (UB NullDeref)
     else case ctx_handles ctx p of None \<Rightarrow> Inl (UB UseAfterFree) | Some h \<Rightarrow> Inr h)"

definition calls_refused :: "server_ctx \<Rightarrow> bool" where
  "calls_refused ctx = (case ctx_operations ctx of None \<Rightarrow> True | Some a \<Rightarrow> isClosed a)"

definition unifiedCall :: "allocator \<Rightarrow> (addr \<Rightarrow> nat \<Rightarrow> addr \<Rightarrow> UaVariant list \<Rightarrow> server_ctx \<Rightarrow> (UA_StatusCode \<times> server_ctx) res)
    \<Rightarrow> addr \<Rightarrow> UA_Variant list \<Rightarrow> nat \<Rightarrow> nat \<Rightarrow> server_ctx \<Rightarrow> (UA_StatusCode \<times> server_ctx) res" where
  "unifiedCall al beginCall methodContext input output outputSize ctx = bind_res (handle_at ctx methodContext) (\<lambda>handle.
     if calls_refused ctx then Inr (OpcUa_BadOutOfService, ctx)
     else bind_res (copy_inputs al input) (\<lambda>inputArgs.
       case make_block (MethodBlock (AsyncMethodBlock_new output outputSize)) ctx of (b, ctx1) \<Rightarrow>
       bind_res (object_at ctx1 (m_obj handle)) (\<lambda>_.
       bind_res (beginCall (m_obj handle) b methodContext inputArgs ctx1) (\<lambda>(status, ctx2).
         case exchange Deferred (ctx_phase ctx2 b) of (old, new) \<Rightarrow>
           (let ctx3 = ctx2\<lparr>ctx_phase := (ctx_phase ctx2)(b := new)\<rparr>
            in if old = Finished then
                 bind_res (block_at ctx3 b) (\<lambda>x. bind_res (finishInline al x (ctx_stack ctx3)) (\<lambda>st.
                   case x of MethodBlock m \<Rightarrow> Inr (mb_result m, drop_block b (ctx3\<lparr>ctx_stack := st\<rparr>))
                   | _ \<Rightarrow> Inl (UB TypeConfusion)))
               else if isNotGood (UaStatus_of status) then Inr (status, drop_block b ctx3)
               else Inr (UA_STATUSCODE_GOODCOMPLETESASYNCHRONOUSLY, establish b ctx3))))))"

subsection \<open>Basic laws\<close>

lemma make_block_pair: "make_block x ctx = (ctx_next ctx, snd (make_block x ctx))"
  by (simp add: make_block_def)

lemma make_block_simps:
  "ctx_blocks (snd (make_block x ctx)) = (ctx_blocks ctx)(ctx_next ctx \<mapsto> x)"
  "ctx_phase (snd (make_block x ctx)) = (ctx_phase ctx)(ctx_next ctx := Initial)"
  "ctx_operations (snd (make_block x ctx)) = ctx_operations ctx"
  "ctx_stack (snd (make_block x ctx)) = ctx_stack ctx"
  "ctx_nodes (snd (make_block x ctx)) = ctx_nodes ctx"
  "ctx_handles (snd (make_block x ctx)) = ctx_handles ctx"
  by (simp_all add: make_block_def)

lemma complete_initial:
  "ctx_phase ctx b = Initial \<Longrightarrow> complete_block b ctx = ctx\<lparr>ctx_phase := (ctx_phase ctx)(b := Finished)\<rparr>"
  by (simp add: complete_block_def exchange_def Let_def)

lemma complete_deferred:
  "ctx_phase ctx b = Deferred \<Longrightarrow> complete_block b ctx = ctx\<lparr>ctx_phase := (ctx_phase ctx)(b := Finished),
     ctx_operations := map_option (push b) (ctx_operations ctx)\<rparr>"
  by (simp add: complete_block_def exchange_def Let_def)

lemma read_complete_ok:
  assumes "mem_ok al" "wf_datavalue d" "ctx_blocks ctx b = Some (ReadBlock r)"
  shows "AsyncReadHandle_complete al d (Some b, ctx)
    = Inr (None, complete_block b (ctx\<lparr>ctx_blocks := (ctx_blocks ctx)(b \<mapsto> ReadBlock (r\<lparr>rb_result := Some d\<rparr>))\<rparr>))"
  using assms by (simp add: AsyncReadHandle_complete_def block_at_def AsyncReadBlock_setResult_def
      UaDataValue_copy_def UA_DataValue_copy_ok)

lemma write_complete_ok:
  "ctx_blocks ctx b = Some (WriteBlock w) \<Longrightarrow> AsyncWriteHandle_complete status (Some b, ctx)
    = Inr (None, complete_block b (ctx\<lparr>ctx_blocks := (ctx_blocks ctx)(b \<mapsto> WriteBlock (w\<lparr>wb_result := status\<rparr>))\<rparr>))"
  by (simp add: AsyncWriteHandle_complete_def block_at_def AsyncWriteBlock_setResult_def)

lemma handle_empty [simp]:
  "AsyncReadHandle_complete al d (None, ctx) = Inr (None, ctx)"
  "AsyncReadHandle_destroy al sourceTime serverTime (None, ctx) = Inr ctx"
  "AsyncWriteHandle_complete st (None, ctx) = Inr (None, ctx)"
  "AsyncWriteHandle_destroy (None, ctx) = Inr ctx"
  by (simp_all add: AsyncReadHandle_complete_def AsyncReadHandle_destroy_def AsyncWriteHandle_complete_def
      AsyncWriteHandle_destroy_def)

text \<open>A data variable at an address of a well-formed heap.\<close>

definition has_variable :: "server_ctx \<Rightarrow> addr \<Rightarrow> BaseDataVariableType \<Rightarrow> bool" where
  "has_variable ctx a v \<longleftrightarrow> wf_heap (ctx_nodes ctx) \<and> (\<exists>n. ctx_nodes ctx a = Some n \<and> node_obj n = DataVariable v)"

lemma has_variable_at: "has_variable ctx a v \<Longrightarrow> variable_at ctx a = Inr v"
  by (auto simp: has_variable_def variable_at_def deref_node_ok)

lemma has_variable_wf: "has_variable ctx a v \<Longrightarrow> wf_variable v"
  by (auto simp: has_variable_def wf_node_def wf_object_def dest: wf_heapD)

lemma has_variable_nonnull: "has_variable ctx a v \<Longrightarrow> a \<noteq> 0"
  by (auto simp: has_variable_def dest: wf_heap_nonnull)

lemma has_variable_cong: "ctx_nodes ctx' = ctx_nodes ctx \<Longrightarrow> has_variable ctx' a v = has_variable ctx a v"
  by (simp add: has_variable_def)

lemma read_default:
  assumes "mem_ok al" "has_variable ctx a v"
  shows "\<exists>ctx'. unifiedRead al (BaseDataVariableType_beginRead al) sourceTime serverTime a out ctx = Inr (OpcUa_Good, ctx')
    \<and> ctx_stack ctx' = (ctx_stack ctx)\<lparr>mem_read := (mem_read (ctx_stack ctx))(out := bv_currentValue v)\<rparr>
    \<and> ctx_operations ctx' = ctx_operations ctx \<and> ctx_nodes ctx' = ctx_nodes ctx \<and> ctx_handles ctx' = ctx_handles ctx"
proof (cases "bv_handlesIo v \<and> deferral_possible ctx")
  case False
  have "wf_datavalue (bv_currentValue v)" using has_variable_wf [OF assms(2)] by (simp add: wf_variable_def)
  then have "unifiedRead al (BaseDataVariableType_beginRead al) sourceTime serverTime a out ctx = Inr (OpcUa_Good,
      ctx\<lparr>ctx_stack := (ctx_stack ctx)\<lparr>mem_read := (mem_read (ctx_stack ctx))(out := bv_currentValue v)\<rparr>\<rparr>)"
    unfolding unifiedRead_def has_variable_at [OF assms(2)] bind_res_simps if_not_P [OF False]
        value_ok [OF assms(1) has_variable_wf [OF assms(2)]]
    by (simp add: UA_DataValue_copy_ok [OF assms(1)])
  then show ?thesis by simp
next
  case True
  let ?x = "ReadBlock (AsyncReadBlock_new out (mem_read (ctx_stack ctx) out))"
  let ?b = "ctx_next ctx" and ?c1 = "snd (make_block ?x ctx)"
  have v1: "has_variable ?c1 a v" using assms(2) by (simp add: has_variable_def make_block_simps)
  have wf: "wf_datavalue (bv_currentValue v)" using has_variable_wf [OF assms(2)] by (simp add: wf_variable_def)
  have "BaseDataVariableType_beginRead al a (Some ?b, ?c1) = Inr (None, complete_block ?b (?c1\<lparr>ctx_blocks :=
      (ctx_blocks ?c1)(?b \<mapsto> ReadBlock ((AsyncReadBlock_new out (mem_read (ctx_stack ctx) out))\<lparr>rb_result := Some (bv_currentValue v)\<rparr>))\<rparr>))"
    using v1 has_variable_wf [OF v1] assms(1) wf
    by (simp add: BaseDataVariableType_beginRead_def has_variable_at value_ok read_complete_ok make_block_simps)
  with True assms wf show ?thesis
    by (subst unifiedRead_def, subst make_block_pair)
       (simp add: has_variable_at make_block_simps complete_initial exchange_def Let_def block_at_def finishInline_def
         fillTarget_def UA_DataValue_copy_ok AsyncReadBlock_new_def drop_block_def)
qed

text \<open>The data value a write delivers to the variable.\<close>

definition written :: "UA_Variant \<Rightarrow> int \<Rightarrow> int \<Rightarrow> UaDataValue" where
  "written w sourceTime serverTime = UA_DataValue_init
     \<lparr>dv_value := w, dv_status := OpcUa_Good, dv_hasStatus := True, dv_serverTimestamp := serverTime, dv_hasServerTimestamp := True,
      dv_hasServerPicoseconds := False, dv_sourceTimestamp := sourceTime, dv_hasSourceTimestamp := True,
      dv_hasSourcePicoseconds := False, dv_hasValue := True\<rparr>"

definition writable :: "BaseDataVariableType \<Rightarrow> bool" where
  "writable v \<longleftrightarrow> bv_accessLevel v AND 2 \<noteq> 0"

definition after_write :: "UA_Variant \<Rightarrow> int \<Rightarrow> int \<Rightarrow> BaseDataVariableType \<Rightarrow> BaseDataVariableType" where
  "after_write w sourceTime serverTime v = (if writable v then v\<lparr>bv_currentValue := written w sourceTime serverTime\<rparr> else v)"

lemma written_wf: "wf_variant w \<Longrightarrow> wf_datavalue (written w sourceTime serverTime)"
  by (simp add: written_def wf_datavalue_def)

lemma setValue_at_ok:
  assumes "mem_ok al" "wf_variant w" "has_variable ctx a v"
  shows "setValue_at al a (written w sourceTime serverTime) ctx
    = Inr (if writable v then OpcUa_Good else OpcUa_BadUserAccessDenied, put_variable a (after_write w sourceTime serverTime v) ctx)"
  using setValue_ok [OF assms(1) written_wf [OF assms(2)] has_variable_wf [OF assms(3)], of sourceTime serverTime True]
  by (simp add: setValue_at_def has_variable_at [OF assms(3)] writable_def after_write_def)

lemma put_variable_ctx [simp]:
  "ctx_operations (put_variable a v ctx) = ctx_operations ctx" "ctx_stack (put_variable a v ctx) = ctx_stack ctx"
  "ctx_blocks (put_variable a v ctx) = ctx_blocks ctx" "ctx_phase (put_variable a v ctx) = ctx_phase ctx"
  "ctx_handles (put_variable a v ctx) = ctx_handles ctx"
  by (simp_all add: put_variable_def)

lemma write_default:
  assumes "mem_ok al" "has_variable ctx a v" "p \<noteq> 0" "w = dv_value (mem_read (ctx_stack ctx) p)" "wf_variant w"
  shows "\<exists>ctx'. unifiedWrite al (BaseDataVariableType_beginWrite al) sourceTime serverTime a p ctx
      = Inr (if writable v then OpcUa_Good else OpcUa_BadUserAccessDenied, ctx')
    \<and> ctx_nodes ctx' = ctx_nodes (put_variable a (after_write w sourceTime serverTime v) ctx)
    \<and> ctx_operations ctx' = ctx_operations ctx \<and> ctx_stack ctx' = ctx_stack ctx"
proof (cases "bv_handlesIo v \<and> deferral_possible ctx")
  case False
  have "UaDataValue_of al w OpcUa_Good sourceTime serverTime = Inr (written w sourceTime serverTime)"
    using assms(1,5) by (simp add: UaDataValue_of_ok written_def)
  then have "unifiedWrite al (BaseDataVariableType_beginWrite al) sourceTime serverTime a p ctx
      = Inr (if writable v then OpcUa_Good else OpcUa_BadUserAccessDenied, put_variable a (after_write w sourceTime serverTime v) ctx)"
    unfolding unifiedWrite_def has_variable_at [OF assms(2)] bind_res_simps if_not_P [OF False]
      if_not_P [OF assms(3)] if_not_P [OF has_variable_nonnull [OF assms(2)]] assms(4) [symmetric]
      UaVariant_fromStack_ok [OF assms(1,5)]
    by (simp add: setValue_at_ok [OF assms(1,5,2)])
  then show ?thesis by simp
next
  case True
  let ?x = "WriteBlock (AsyncWriteBlock_new p)"
  let ?b = "ctx_next ctx" and ?c1 = "snd (make_block ?x ctx)"
  let ?st = "if writable v then OpcUa_Good else OpcUa_BadUserAccessDenied"
  have v1: "has_variable ?c1 a v" using assms(2) by (simp add: has_variable_def make_block_simps)
  have "BaseDataVariableType_beginWrite al a (written w sourceTime serverTime) (Some ?b, ?c1)
      = Inr (None, complete_block ?b ((put_variable a (after_write w sourceTime serverTime v) ?c1)\<lparr>ctx_blocks :=
          (ctx_blocks ?c1)(?b \<mapsto> WriteBlock ((AsyncWriteBlock_new p)\<lparr>wb_result := ?st\<rparr>))\<rparr>))"
    using setValue_at_ok [OF assms(1,5) v1, of sourceTime serverTime]
    by (simp add: BaseDataVariableType_beginWrite_def write_complete_ok make_block_simps)
  with True assms has_variable_nonnull [OF assms(2)] show ?thesis
    by (subst unifiedWrite_def, subst make_block_pair)
       (simp add: has_variable_at make_block_simps complete_initial exchange_def Let_def block_at_def
         UaVariant_fromStack_ok UaDataValue_of_ok written_def [symmetric] drop_block_def, simp add: put_variable_def make_block_simps)
qed

lemma put_variable_has:
  assumes "has_variable ctx a v" "wf_variable v'"
  shows "has_variable (put_variable a v' ctx) a v'"
proof -
  from assms(1) obtain n where n: "wf_heap (ctx_nodes ctx)" "ctx_nodes ctx a = Some n" by (auto simp: has_variable_def)
  have "wf_node (n\<lparr>node_obj := DataVariable v'\<rparr>)"
    using assms(2) by (simp add: wf_node_def wf_object_def wf_variable_def member_nodeId_def
        member_typeDefinitionId_def member_browseName_def)
  with n have "wf_heap ((ctx_nodes ctx)(a \<mapsto> n\<lparr>node_obj := DataVariable v'\<rparr>))"
    by (intro wf_heap_update) (auto dest: wf_heap_nonnull)
  with n show ?thesis by (simp add: has_variable_def put_variable_def)
qed

lemma after_write_wf: "wf_variable v \<Longrightarrow> wf_variant w \<Longrightarrow> wf_variable (after_write w sourceTime serverTime v)"
  by (simp add: after_write_def) (simp add: wf_variable_def written_wf)

text \<open>C26 (roundtrip). What the stack writes to a variable is what the next read delivers, with status Good and the
  times of the write (the clock is read twice, for the source and for the server); a write to a variable without the write bit answers BadUserAccessDenied and the next
  read delivers the old value unchanged. This holds for every combination of deferral and of a class that
  asks to handle the input and output itself but keeps the default methods.\<close>

theorem written_value_is_read:
  assumes "mem_ok al" "has_variable ctx a v" "p \<noteq> 0" "wf_variant (dv_value (mem_read (ctx_stack ctx) p))"
  shows "\<exists>c1 c2. unifiedWrite al (BaseDataVariableType_beginWrite al) sourceTime serverTime a p ctx
        = Inr (if writable v then OpcUa_Good else OpcUa_BadUserAccessDenied, c1)
    \<and> unifiedRead al (BaseDataVariableType_beginRead al) laterSource laterServer a out c1 = Inr (OpcUa_Good, c2)
    \<and> mem_read (ctx_stack c2) out
        = (if writable v then written (dv_value (mem_read (ctx_stack ctx) p)) sourceTime serverTime else bv_currentValue v)"
proof -
  let ?w = "dv_value (mem_read (ctx_stack ctx) p)"
  from write_default [OF assms(1-3) refl assms(4)] obtain c1 where c1:
    "unifiedWrite al (BaseDataVariableType_beginWrite al) sourceTime serverTime a p ctx
      = Inr (if writable v then OpcUa_Good else OpcUa_BadUserAccessDenied, c1)"
    "ctx_nodes c1 = ctx_nodes (put_variable a (after_write ?w sourceTime serverTime v) ctx)" by blast
  have "has_variable (put_variable a (after_write ?w sourceTime serverTime v) ctx) a (after_write ?w sourceTime serverTime v)"
    by (intro put_variable_has [OF assms(2)] after_write_wf has_variable_wf [OF assms(2)] assms(4))
  then have "has_variable c1 a (after_write ?w sourceTime serverTime v)" using has_variable_cong [OF c1(2)] by simp
  from read_default [OF assms(1) this] obtain c2 where
    "unifiedRead al (BaseDataVariableType_beginRead al) laterSource laterServer a out c1 = Inr (OpcUa_Good, c2)"
    "ctx_stack c2 = (ctx_stack c1)\<lparr>mem_read := (mem_read (ctx_stack c1))(out := bv_currentValue (after_write ?w sourceTime serverTime v))\<rparr>"
    by blast
  with c1 show ?thesis by (auto simp: after_write_def)
qed

text \<open>For a class that keeps the default methods it makes no difference whether the server can
  defer operations: reads and writes have the same status, the same delivered value and the same effect on
  the nodes as on a server without asynchronous operations, and nothing is registered.\<close>

theorem default_io_never_defers:
  assumes "mem_ok al" "has_variable ctx a v" "p \<noteq> 0" "wf_variant (dv_value (mem_read (ctx_stack ctx) p))"
  shows "\<exists>c1 c2 c3 c4 st.
      unifiedRead al (BaseDataVariableType_beginRead al) sourceTime serverTime a out ctx = Inr (OpcUa_Good, c1)
    \<and> unifiedRead al (BaseDataVariableType_beginRead al) sourceTime serverTime a out (ctx\<lparr>ctx_operations := None\<rparr>) = Inr (OpcUa_Good, c2)
    \<and> ctx_stack c1 = ctx_stack c2 \<and> ctx_nodes c1 = ctx_nodes c2 \<and> ctx_operations c1 = ctx_operations ctx
    \<and> unifiedWrite al (BaseDataVariableType_beginWrite al) sourceTime serverTime a p ctx = Inr (st, c3)
    \<and> unifiedWrite al (BaseDataVariableType_beginWrite al) sourceTime serverTime a p (ctx\<lparr>ctx_operations := None\<rparr>) = Inr (st, c4)
    \<and> ctx_stack c3 = ctx_stack c4 \<and> ctx_nodes c3 = ctx_nodes c4 \<and> ctx_operations c3 = ctx_operations ctx"
proof -
  let ?n = "ctx\<lparr>ctx_operations := None\<rparr>"
  have n: "has_variable ?n a v" "dv_value (mem_read (ctx_stack ctx) p) = dv_value (mem_read (ctx_stack ?n) p)"
    "put_variable a x ?n = (put_variable a x ctx)\<lparr>ctx_operations := None\<rparr>" for x
    using assms(2) by (simp_all add: has_variable_def put_variable_def)
  note rd = read_default [OF assms(1,2), of sourceTime serverTime out] read_default [OF assms(1) n(1), of sourceTime serverTime out]
  note wr = write_default [OF assms(1-3) refl assms(4), of sourceTime serverTime] write_default [OF assms(1) n(1) assms(3) n(2) assms(4), of sourceTime serverTime]
  from rd wr n(3) show ?thesis by fastforce
qed

text \<open>A concrete server: one writable variable at address 16, a value to write at 32.\<close>

definition example_variable :: "byte \<Rightarrow> BaseDataVariableType" where
  "example_variable accessLevel = \<lparr>bv_browseName = \<lparr>m_unqualifiedName = Live UA_STRING_NULL, qn_namespaceIndex = 2\<rparr>,
     bv_currentValue = UA_DataValue_init, bv_nodeId = UA_NODEID_NUMERIC 2 7, bv_typeDefinitionId = UaNodeId_numeric 24 0,
     bv_valueRank = - 1, bv_accessLevel = accessLevel, bv_arrayDimensions = [], bv_handlesIo = True\<rparr>"

definition example_ctx :: "byte \<Rightarrow> server_ctx" where
  "example_ctx accessLevel = \<lparr>ctx_operations = Some (setServing AsyncOperations_new), ctx_blocks = Map.empty,
     ctx_phase = (\<lambda>_. Initial), ctx_next = 100,
     ctx_stack = \<lparr>waitingOps = [],
       mem_read = (\<lambda>_. UA_DataValue_init\<lparr>dv_value := UA_Variant_setScalar (VBool True) (UA_TYPES BOOLEAN)\<rparr>),
       mem_call = (\<lambda>_. [UA_Variant_init]), results = []\<rparr>,
     ctx_nodes = [16 \<mapsto> UaNode_new (DataVariable (example_variable accessLevel)),
                  24 \<mapsto> UaNode_new (Object \<lparr>bo_nodeId = UA_NODEID_NUMERIC 2 8,
                    bo_browseName = \<lparr>m_unqualifiedName = Live UA_STRING_NULL, qn_namespaceIndex = 2\<rparr>\<rparr>)],
     ctx_handles = [8 \<mapsto> setUaNodes 24 0 MethodHandleUaNode_new]\<rparr>"

lemma example_heap: "wf_heap (ctx_nodes (example_ctx l))"
  by (auto simp: wf_heap_def example_ctx_def UaNode_new_def wf_node_def wf_object_def wf_variable_def example_variable_def
      member_nodeId_def member_typeDefinitionId_def member_browseName_def wf_nodeid_def UA_NODEID_NUMERIC_def
      UaNodeId_numeric_def)

lemma example_has: "has_variable (example_ctx l) 16 (example_variable l)"
  using example_heap [of l] by (simp add: has_variable_def) (simp add: example_ctx_def UaNode_new_def)

lemma example_mem: "mem_read (ctx_stack (example_ctx l)) p
    = UA_DataValue_init\<lparr>dv_value := UA_Variant_setScalar (VBool True) (UA_TYPES BOOLEAN)\<rparr>"
  by (simp add: example_ctx_def)

lemma example_wf: "wf_variant (UA_Variant_setScalar (VBool True) (UA_TYPES BOOLEAN))"
  by (simp add: UA_Variant_setScalar_def)

theorem written_value_is_read_witness:
  "\<exists>c1 c2. unifiedWrite enough_memory (BaseDataVariableType_beginWrite enough_memory) 5 6 16 32 (example_ctx 3)
        = Inr (OpcUa_Good, c1)
    \<and> unifiedRead enough_memory (BaseDataVariableType_beginRead enough_memory) 9 10 16 40 c1 = Inr (OpcUa_Good, c2)
    \<and> dv_value (mem_read (ctx_stack c2) 40) = UA_Variant_setScalar (VBool True) (UA_TYPES BOOLEAN)
    \<and> dv_sourceTimestamp (mem_read (ctx_stack c2) 40) = 5"
  using written_value_is_read [OF mem_ok_enough example_has [of 3], of 32 5 6 9 10 40]
  by (auto simp: example_mem example_wf writable_def example_variable_def written_def)

theorem default_io_never_defers_witness:
  "\<exists>c1. unifiedRead enough_memory (BaseDataVariableType_beginRead enough_memory) 9 10 16 40 (example_ctx 1) = Inr (OpcUa_Good, c1)
    \<and> ctx_operations c1 = Some (setServing AsyncOperations_new)"
  using default_io_never_defers [OF mem_ok_enough example_has [of 1], of 32 9 10 40]
  by (simp add: example_mem example_wf) (auto simp: example_ctx_def)

text \<open>What application code can do with a read handle: any number of completions, then the destructor.\<close>

fun use_read_handle :: "allocator \<Rightarrow> int \<Rightarrow> int \<Rightarrow> UaDataValue list \<Rightarrow> handle \<times> server_ctx \<Rightarrow> server_ctx res" where
  "use_read_handle al sourceTime serverTime [] hc = AsyncReadHandle_destroy al sourceTime serverTime hc"
| "use_read_handle al sourceTime serverTime (d # ds) hc = bind_res (AsyncReadHandle_complete al d hc) (use_read_handle al sourceTime serverTime ds)"

fun use_write_handle :: "UA_StatusCode list \<Rightarrow> handle \<times> server_ctx \<Rightarrow> server_ctx res" where
  "use_write_handle [] hc = AsyncWriteHandle_destroy hc"
| "use_write_handle (st # sts) hc = bind_res (AsyncWriteHandle_complete st hc) (use_write_handle sts)"

lemma use_empty [simp]: "use_read_handle al sourceTime serverTime ds (None, ctx) = Inr ctx" "use_write_handle sts (None, ctx) = Inr ctx"
  by (induction ds, simp_all) (induction sts, simp_all)

definition dropped_result :: "int \<Rightarrow> int \<Rightarrow> UaDataValue" where
  "dropped_result sourceTime serverTime = (written UA_Variant_init sourceTime serverTime)\<lparr>dv_status := OpcUa_BadInternalError\<rparr>"

lemma dropped_result_of: "mem_ok al \<Longrightarrow> UaDataValue_of al UA_Variant_init OpcUa_BadInternalError sourceTime serverTime = Inr (dropped_result sourceTime serverTime)"
  by (simp add: UaDataValue_of_ok dropped_result_def written_def)

lemma complete_block_effect:
  "ctx_phase (complete_block b ctx) b = Finished"
  "ctx_blocks (complete_block b ctx) = ctx_blocks ctx"
  "ctx_operations (complete_block b ctx)
     = (if ctx_phase ctx b = Deferred then map_option (push b) (ctx_operations ctx) else ctx_operations ctx)"
  by (simp_all add: complete_block_def exchange_def Let_def)

text \<open>C7 (safety). A handle answers its operation exactly once, whatever the application does with it: the first
  completion stores the result and finishes the block (pushing it, once, if the operation was deferred),
  later completions and the destructor change nothing any more, and a handle that is dropped without an
  answer completes its operation with BadInternalError. No operation is left unanswered.\<close>

theorem handles_answer_once:
  assumes "mem_ok al" "list_all wf_datavalue ds" "ctx_blocks ctx b = Some (ReadBlock r)" "ctx_blocks ctx b' = Some (WriteBlock w)"
  shows "\<exists>c c'. use_read_handle al sourceTime serverTime ds (Some b, ctx) = Inr c
      \<and> ctx_blocks c b = Some (ReadBlock (r\<lparr>rb_result := Some (case ds of [] \<Rightarrow> dropped_result sourceTime serverTime | d # _ \<Rightarrow> d)\<rparr>))
      \<and> ctx_phase c b = Finished
      \<and> ctx_operations c = (if ctx_phase ctx b = Deferred then map_option (push b) (ctx_operations ctx) else ctx_operations ctx)
      \<and> use_write_handle sts (Some b', ctx) = Inr c'
      \<and> ctx_blocks c' b' = Some (WriteBlock (w\<lparr>wb_result := (case sts of [] \<Rightarrow> OpcUa_BadInternalError | s # _ \<Rightarrow> s)\<rparr>))
      \<and> ctx_phase c' b' = Finished
      \<and> ctx_operations c' = (if ctx_phase ctx b' = Deferred then map_option (push b') (ctx_operations ctx) else ctx_operations ctx)"
proof -
  have "wf_datavalue (dropped_result sourceTime serverTime)" by (simp add: dropped_result_def written_def wf_datavalue_def)
  then have "use_read_handle al sourceTime serverTime ds (Some b, ctx) = Inr (complete_block b (ctx\<lparr>ctx_blocks := (ctx_blocks ctx)
      (b \<mapsto> ReadBlock (r\<lparr>rb_result := Some (case ds of [] \<Rightarrow> dropped_result sourceTime serverTime | d # _ \<Rightarrow> d)\<rparr>))\<rparr>))"
    using assms by (cases ds) (simp_all add: AsyncReadHandle_destroy_def dropped_result_of read_complete_ok)
  moreover have "use_write_handle sts (Some b', ctx) = Inr (complete_block b' (ctx\<lparr>ctx_blocks := (ctx_blocks ctx)
      (b' \<mapsto> WriteBlock (w\<lparr>wb_result := (case sts of [] \<Rightarrow> OpcUa_BadInternalError | s # _ \<Rightarrow> s)\<rparr>))\<rparr>))"
    using assms(4) by (cases sts) (simp_all add: AsyncWriteHandle_destroy_def write_complete_ok)
  ultimately show ?thesis by (simp add: complete_block_effect)
qed

theorem handles_answer_once_witness:
  "let ctx = (example_ctx 3)\<lparr>ctx_blocks := [1 \<mapsto> ReadBlock (AsyncReadBlock_new 40 UA_DataValue_init), 2 \<mapsto> WriteBlock (AsyncWriteBlock_new 48)],
     ctx_phase := (\<lambda>_. Deferred)\<rparr>
   in \<exists>c'. use_write_handle [OpcUa_Good, OpcUa_Bad] (Some 2, ctx) = Inr c'
     \<and> map_option m_queue (ctx_operations c') = Some [2]"
  using handles_answer_once [OF mem_ok_enough, of "[]" "(example_ctx 3)\<lparr>ctx_blocks := [1 \<mapsto> ReadBlock (AsyncReadBlock_new 40 UA_DataValue_init),
      2 \<mapsto> WriteBlock (AsyncWriteBlock_new 48)], ctx_phase := (\<lambda>_. Deferred)\<rparr>" 1 "AsyncReadBlock_new 40 UA_DataValue_init" 2
      "AsyncWriteBlock_new 48" 7 8 "[OpcUa_Good, OpcUa_Bad]"]
  by (auto simp: example_ctx_def push_def Let_def setServing_def AsyncOperations_new_def)

lemma copy_variants_ok: "mem_ok al \<Longrightarrow> list_all wf_variant vs \<Longrightarrow> copy_variants al vs = Inr vs"
  by (induction vs) (simp_all add: UA_Variant_copy_ok)

lemma copy_inputs_ok: "mem_ok al \<Longrightarrow> list_all wf_variant xs \<Longrightarrow> copy_inputs al xs = Inr (map Live xs)"
  by (induction xs) (simp_all add: UaVariant_fromStack_ok UaVariant_assign_ok)

text \<open>The context in which \<open>beginCall\<close> runs: the block of the call has been made.\<close>

definition call_ctx :: "nat \<Rightarrow> nat \<Rightarrow> server_ctx \<Rightarrow> server_ctx" where
  "call_ctx out outputSize ctx = snd (make_block (MethodBlock (AsyncMethodBlock_new out outputSize)) ctx)"

lemma unifiedCall_open:
  assumes "mem_ok al" "list_all wf_variant input" "handle_at ctx p = Inr h" "object_at ctx (m_obj h) = Inr obj"
    and "\<not> calls_refused ctx"
    and "beginCall (m_obj h) (ctx_next ctx) p (map Live input) (call_ctx out n ctx) = Inr (status, c)"
    and "ctx_blocks c (ctx_next ctx) = Some (MethodBlock m)"
  shows "unifiedCall al beginCall p input out n ctx =
     (let c1 = c\<lparr>ctx_phase := (ctx_phase c)(ctx_next ctx := Deferred)\<rparr>
      in if ctx_phase c (ctx_next ctx) = Finished
         then bind_res (finishInline al (MethodBlock m) (ctx_stack c)) (\<lambda>st.
                Inr (mb_result m, drop_block (ctx_next ctx) (c1\<lparr>ctx_stack := st\<rparr>)))
         else if isNotGood (UaStatus_of status) then Inr (status, drop_block (ctx_next ctx) c1)
         else Inr (UA_STATUSCODE_GOODCOMPLETESASYNCHRONOUSLY, establish (ctx_next ctx) c1))"
proof -
  have "object_at (call_ctx out n ctx) (m_obj h) = Inr obj"
    using assms(4) by (simp add: object_at_def call_ctx_def make_block_simps)
  with assms show ?thesis
    unfolding unifiedCall_def
    by (subst make_block_pair) (simp add: copy_inputs_ok call_ctx_def [symmetric] exchange_def Let_def block_at_def)
qed

lemma unifiedCall_throws:
  assumes "mem_ok al" "list_all wf_variant input" "handle_at ctx p = Inr h" "object_at ctx (m_obj h) = Inr obj"
    and "\<not> calls_refused ctx"
    and "beginCall (m_obj h) (ctx_next ctx) p (map Live input) (call_ctx out n ctx) = Inl e"
  shows "unifiedCall al beginCall p input out n ctx = Inl e"
proof -
  have "object_at (call_ctx out n ctx) (m_obj h) = Inr obj"
    using assms(4) by (simp add: object_at_def call_ctx_def make_block_simps)
  with assms show ?thesis
    unfolding unifiedCall_def by (subst make_block_pair) (simp add: copy_inputs_ok call_ctx_def [symmetric])
qed

text \<open>
  What the application owes while \<open>beginCall\<close> runs: it has the block only through the callback, on which it may use \<open>finishCall\<close> in
  this or another thread, so the block stays a method block with outputs that can be copied, and the stack's array keeps
  its length; the server's registry is not taken away.
\<close>

definition call_kept :: "nat \<Rightarrow> nat \<Rightarrow> nat \<Rightarrow> server_ctx \<Rightarrow> bool" where
  "call_kept b out n ctx \<longleftrightarrow> (case ctx_blocks ctx b of
       Some (MethodBlock m) \<Rightarrow> list_all wf_variant (mb_outputs m) \<and> mb_outputArray m = out \<and> mb_outputSize m = n
     | _ \<Rightarrow> False) \<and> length (mem_call (ctx_stack ctx) out) = n \<and> ctx_operations ctx \<noteq> None"

lemma call_keptD:
  assumes "call_kept b out n ctx"
  obtains m a where "ctx_blocks ctx b = Some (MethodBlock m)" "list_all wf_variant (mb_outputs m)" "mb_outputArray m = out" "mb_outputSize m = n"
    "length (mem_call (ctx_stack ctx) out) = n" "ctx_operations ctx = Some a"
  using assms by (auto simp: call_kept_def split: option.splits Block.splits)

lemma call_kept_start:
  assumes "\<not> calls_refused ctx" "length (mem_call (ctx_stack ctx) out) = n"
  shows "call_kept (ctx_next ctx) out n (call_ctx out n ctx)"
  using assms by (auto simp: call_kept_def call_ctx_def make_block_simps AsyncMethodBlock_new_def calls_refused_def split: option.splits)

text \<open>\<open>finishCall\<close> keeps to it, however often and with whatever arguments it is used.\<close>

lemma finishCall_keeps:
  assumes "mem_ok al" "list_all wf_variant outs" "call_kept b out n ctx"
  shows "\<exists>ctx'. finishCall al outs code b ctx = Inr (OpcUa_Good, ctx') \<and> call_kept b out n ctx' \<and> ctx_phase ctx' b = Finished"
proof -
  from assms(3) obtain m a where m: "ctx_blocks ctx b = Some (MethodBlock m)" "mb_outputArray m = out" "mb_outputSize m = n"
    "length (mem_call (ctx_stack ctx) out) = n" "ctx_operations ctx = Some a" by (rule call_keptD)
  have stack: "ctx_stack (complete_block b c) = ctx_stack c" for c by (simp add: complete_block_def Let_def split: prod.split)
  show ?thesis
    using m assms(1,2)
    by (simp add: finishCall_def block_at_def finishCall_store_def copy_variants_ok call_kept_def complete_block_effect stack)
qed

text \<open>C6 (functional). A method call (whose context is a live handle with an object as receiver, with input arguments that can be copied and
  enough memory to do so) has exactly five outcomes. Without
  asynchronous operations or after they were closed it is refused with BadOutOfService and \<open>beginCall\<close> is not
  called. If \<open>beginCall\<close> throws, the exception leaves the callback of the stack: there is no handler. If it returns, whatever
  its status, having used its block only through \<open>finishCall\<close> (\<open>call_kept\<close>, which \<open>finishCall\<close> preserves), there are three cases. If the callback was
  used before \<open>beginCall\<close> returned, the call answers with the callback's status,
  however bad the status of \<open>beginCall\<close>, the outputs are in the stack's array and the block is gone. If not
  and \<open>beginCall\<close> failed, its status is the answer, nothing is registered and the callback dangles.
  Otherwise the call is deferred: exactly one operation more is in flight and the block is registered
  under the address of the outputs.\<close>

theorem unifiedCall_outcomes:
  assumes "mem_ok al" "list_all wf_variant input" "handle_at ctx p = Inr h" "object_at ctx (m_obj h) = Inr obj"
  shows "if calls_refused ctx then unifiedCall al beginCall p input out n ctx = Inr (OpcUa_BadOutOfService, ctx)
    else case beginCall (m_obj h) (ctx_next ctx) p (map Live input) (call_ctx out n ctx) of
      Inl e \<Rightarrow> unifiedCall al beginCall p input out n ctx = Inl e
    | Inr (status, c) \<Rightarrow> call_kept (ctx_next ctx) out n c \<longrightarrow>
        (\<exists>m a. ctx_blocks c (ctx_next ctx) = Some (MethodBlock m) \<and> ctx_operations c = Some a \<and>
          (if ctx_phase c (ctx_next ctx) = Finished then
            (\<exists>ctx'. unifiedCall al beginCall p input out n ctx = Inr (mb_result m, ctx')
              \<and> mem_call (ctx_stack ctx') out = take n (mb_outputs m) @ drop (length (mb_outputs m)) (mem_call (ctx_stack c) out)
              \<and> ctx_operations ctx' = Some a \<and> block_at ctx' (ctx_next ctx) = Inl (UB UseAfterFree))
          else if isNotGood (UaStatus_of status) then
            (\<exists>ctx'. unifiedCall al beginCall p input out n ctx = Inr (status, ctx')
              \<and> ctx_operations ctx' = Some a \<and> finishCall al [] OpcUa_Good (ctx_next ctx) ctx' = Inl (UB UseAfterFree))
          else
            (\<exists>ctx' a'. unifiedCall al beginCall p input out n ctx = Inr (UA_STATUSCODE_GOODCOMPLETESASYNCHRONOUSLY, ctx')
              \<and> ctx_operations ctx' = Some a' \<and> m_pending a' = (m_pending a)(out \<mapsto> ctx_next ctx)
              \<and> m_inflight a' = m_inflight a + 1 \<and> m_queue a' = m_queue a \<and> ctx_phase ctx' (ctx_next ctx) = Deferred)))"
proof (cases "calls_refused ctx")
  case True
  then show ?thesis using assms(3) by (simp add: unifiedCall_def)
next
  case open_ctx: False
  show ?thesis
  proof (cases "beginCall (m_obj h) (ctx_next ctx) p (map Live input) (call_ctx out n ctx)")
    case (Inl e)
    then show ?thesis using unifiedCall_throws [OF assms open_ctx, of beginCall out n e] open_ctx by simp
  next
    case (Inr r)
    obtain status c where r: "r = (status, c)" by (cases r)
    note returned = Inr [unfolded r]
    have ?thesis if kept: "call_kept (ctx_next ctx) out n c"
    proof -
      from kept obtain m a where m: "ctx_blocks c (ctx_next ctx) = Some (MethodBlock m)" "list_all wf_variant (mb_outputs m)"
        "mb_outputArray m = out" "mb_outputSize m = n" "length (mem_call (ctx_stack c) out) = n" "ctx_operations c = Some a" by (rule call_keptD)
      note call = unifiedCall_open [where beginCall = beginCall and out = out and n = n, OF assms open_ctx returned m(1)]
      have "finishInline al (MethodBlock m) (ctx_stack c)
        = Inr ((ctx_stack c)\<lparr>mem_call := (mem_call (ctx_stack c))(out := take n (mb_outputs m)
              @ drop (length (mb_outputs m)) (mem_call (ctx_stack c) out))\<rparr>)"
        using copyOutputs_ok [OF assms(1) m(2)] m(3-5) by (simp add: finishInline_def)
      with open_ctx returned call m show ?thesis
        by (simp add: Let_def drop_block_def finishCall_def block_at_def establish_def establishDeferral_def establish_count_def
            establish_register_def block_key_def)
    qed
    then show ?thesis using open_ctx returned by (cases "call_kept (ctx_next ctx) out n c") simp_all
  qed
qed

text \<open>The witness: a \<open>beginCall\<close> that only starts a job and returns Good, one that answers at once and returns Bad, and one that throws.\<close>

theorem unifiedCall_outcomes_witness:
  "(\<exists>ctx' a'. unifiedCall enough_memory (\<lambda>r b m ins c. Inr (OpcUa_Good, c)) 8 [] 48 1 (example_ctx 3)
      = Inr (UA_STATUSCODE_GOODCOMPLETESASYNCHRONOUSLY, ctx')
    \<and> ctx_operations ctx' = Some a' \<and> m_pending a' = [48 \<mapsto> 100] \<and> m_inflight a' = 1)
   \<and> (\<exists>ctx'. unifiedCall enough_memory (\<lambda>r b m ins c. bind_res (finishCall enough_memory [] OpcUa_Good b c) (\<lambda>(_, c'). Inr (OpcUa_Bad, c')))
        8 [] 48 1 (example_ctx 3) = Inr (OpcUa_Good, ctx'))
   \<and> unifiedCall enough_memory (\<lambda>r b m ins c. Inl (Throw (OutOfRange ''input''))) 8 [] 48 1 (example_ctx 3) = Inl (Throw (OutOfRange ''input''))"
proof -
  let ?h = "setUaNodes 24 0 MethodHandleUaNode_new"
  let ?obj = "\<lparr>bo_nodeId = UA_NODEID_NUMERIC 2 8, bo_browseName = \<lparr>m_unqualifiedName = Live UA_STRING_NULL, qn_namespaceIndex = 2\<rparr>\<rparr>"
  have h: "handle_at (example_ctx 3) 8 = Inr ?h" "object_at (example_ctx 3) (m_obj ?h) = Inr ?obj" "\<not> calls_refused (example_ctx 3)"
    by (simp_all add: example_ctx_def handle_at_def object_at_def deref_node_def UaNode_new_def setUaNodes_def MethodHandleUaNode_new_def
        calls_refused_def isClosed_def setServing_def AsyncOperations_new_def)
  note outcomes = unifiedCall_outcomes [OF mem_ok_enough list.pred_inject(1) h(1,2), where out = 48 and n = 1]
  have next_block: "ctx_next (example_ctx 3) = 100" "length (mem_call (ctx_stack (example_ctx 3)) 48) = 1" by (simp_all add: example_ctx_def)
  have kept: "call_kept 100 48 1 (call_ctx 48 1 (example_ctx 3))" using call_kept_start [OF h(3) next_block(2)] next_block(1) by simp
  from finishCall_keeps [OF mem_ok_enough list.pred_inject(1) kept, of OpcUa_Good] obtain c where
    c: "finishCall enough_memory [] OpcUa_Good 100 (call_ctx 48 1 (example_ctx 3)) = Inr (OpcUa_Good, c)" "call_kept 100 48 1 c" "ctx_phase c 100 = Finished"
    by blast
  from c(1) have block: "ctx_blocks c 100 = Some (MethodBlock ((AsyncMethodBlock_new 48 1)\<lparr>mb_outputs := [], mb_result := OpcUa_Good\<rparr>))"
    by (auto simp: finishCall_def block_at_def call_ctx_def make_block_simps next_block finishCall_store_def complete_block_effect)
  have ops: "ctx_operations (call_ctx 48 1 (example_ctx 3)) = Some (setServing AsyncOperations_new)"
    "ctx_phase (call_ctx 48 1 (example_ctx 3)) 100 = Initial"
    by (simp_all add: call_ctx_def make_block_def example_ctx_def)
  note facts = h(3) next_block(1) if_False if_True not_False_eq_True prod.case sum.case
  have "\<exists>ctx' a'. unifiedCall enough_memory (\<lambda>r b m ins c. Inr (OpcUa_Good, c)) 8 [] 48 1 (example_ctx 3)
      = Inr (UA_STATUSCODE_GOODCOMPLETESASYNCHRONOUSLY, ctx')
    \<and> ctx_operations ctx' = Some a' \<and> m_pending a' = [48 \<mapsto> 100] \<and> m_inflight a' = 1"
    using outcomes [of "\<lambda>r b m ins c. Inr (OpcUa_Good, c)"] kept ops
    by (auto simp: facts setServing_def AsyncOperations_new_def simp del: One_nat_def)
  moreover have "\<exists>ctx'. unifiedCall enough_memory (\<lambda>r b m ins c. bind_res (finishCall enough_memory [] OpcUa_Good b c) (\<lambda>(_, c'). Inr (OpcUa_Bad, c')))
        8 [] 48 1 (example_ctx 3) = Inr (OpcUa_Good, ctx')"
    using outcomes [of "\<lambda>r b m ins c. bind_res (finishCall enough_memory [] OpcUa_Good b c) (\<lambda>(_, c'). Inr (OpcUa_Bad, c'))"] c block
    by (auto simp: facts simp del: One_nat_def)
  moreover have "unifiedCall enough_memory (\<lambda>r b m ins c. Inl (Throw (OutOfRange ''input''))) 8 [] 48 1 (example_ctx 3)
      = Inl (Throw (OutOfRange ''input''))"
    using outcomes [of "\<lambda>r b m ins c. Inl (Throw (OutOfRange ''input''))"] by (simp add: facts del: One_nat_def)
  ultimately show ?thesis by blast
qed

end
