(* ===== verification/NodeManagers.thy ===== *)
theory NodeManagers
  imports UaNodes
begin

text \<open>
  The node manager (\<open>include/nodemanagerbase.h\<close>, \<open>src/nodemanagerbase.cpp\<close>): it builds the address space. The
  stack's functions that add nodes are third-party code: a record of functions on the state \<open>'s\<close> of the
  server, an argument of every operation. What happens to the nodes themselves is on the node heap.
\<close>

subsection \<open>The stack's functions\<close>

record UA_ObjectAttributes =
  oa_displayName :: UaLocalizedText
  oa_description :: UaLocalizedText

record UA_VariableAttributes =
  va_displayName :: UaLocalizedText
  va_description :: UaLocalizedText
  va_dataType :: UA_NodeId
  va_valueRank :: "32 word"
  va_accessLevel :: byte
  va_arrayDimensions :: "32 word list"
  va_value :: UA_Variant

definition null_text :: UaLocalizedText where
  "null_text = \<lparr>lt_locale = UA_STRING_NULL, lt_text = UA_STRING_NULL\<rparr>"

text \<open>\<open>UA_VariableAttributes_default\<close>: any rank, readable, status and timestamps writable.\<close>

definition UA_VariableAttributes_default :: UA_VariableAttributes where
  "UA_VariableAttributes_default = \<lparr>va_displayName = null_text, va_description = null_text,
     va_dataType = UA_NODEID_NUMERIC 0 24, va_valueRank = - 2, va_accessLevel = 0x61,
     va_arrayDimensions = [], va_value = UA_Variant_init\<rparr>"

definition UA_VariableAttributes_init :: UA_VariableAttributes where
  "UA_VariableAttributes_init = \<lparr>va_displayName = null_text, va_description = null_text,
     va_dataType = UA_NodeId_null, va_valueRank = 0, va_accessLevel = 0, va_arrayDimensions = [], va_value = UA_Variant_init\<rparr>"

record UA_MethodAttributes =
  mat_executable :: bool
  mat_userExecutable :: bool
  mat_displayName :: UaLocalizedText
  mat_description :: UaLocalizedText

text \<open>
  Every function takes the new node's identifier, the parent's, the reference type and the browse name; then
  the type definition, the attributes, and the node context where the code passes one.
\<close>

type_synonym 's add_node = "UA_NodeId \<Rightarrow> UA_NodeId \<Rightarrow> UA_NodeId \<Rightarrow> UaQualifiedName \<Rightarrow> 's \<Rightarrow> UA_StatusCode \<times> 's"

record 's stack_api =
  UA_Server_addObjectNode :: "UA_NodeId \<Rightarrow> UA_ObjectAttributes \<Rightarrow> 's add_node"
  UA_Server_addDataSourceVariableNode :: "UA_NodeId \<Rightarrow> UA_VariableAttributes \<Rightarrow> addr \<Rightarrow> 's add_node"
  UA_Server_addVariableNode :: "UA_NodeId \<Rightarrow> UA_VariableAttributes \<Rightarrow> 's add_node"
  UA_Server_addMethodNodeEx :: "UA_MethodAttributes \<Rightarrow> UA_Argument list \<Rightarrow> UA_NodeId \<Rightarrow> UA_Argument list \<Rightarrow> UA_NodeId
      \<Rightarrow> addr \<Rightarrow> 's add_node"
  UA_Server_addNamespace :: "string \<Rightarrow> 's \<Rightarrow> nat \<times> 's"

subsection \<open>State\<close>

text \<open>
  \<open>m_server\<close> is null before \<open>linkServer\<close>. The root node is a member object; it has an address like the others.
  Method handles are allocated one after another and never freed.
\<close>

record 's NodeManagerBase =
  m_server :: "'s option"
  m_listNodes :: "addr list"
  m_nameSpaceUri :: string
  m_serverRootNode :: addr
  nodes :: node_heap
  method_handles :: "addr \<rightharpoonup> MethodHandleUaNode"
  next_handle :: addr

definition NodeManagerBase_new :: "string \<Rightarrow> addr \<Rightarrow> node_heap \<Rightarrow> 's NodeManagerBase" where
  "NodeManagerBase_new sNamespaceUri root h = \<lparr>m_server = None, m_listNodes = [], m_nameSpaceUri = c_str sNamespaceUri,
     m_serverRootNode = root, nodes = h(root \<mapsto> UaNode_new ServerRootNode), method_handles = Map.empty, next_handle = 1\<rparr>"

text \<open>The destructor deletes the registered nodes from the last to the first; deleting one twice is undefined.\<close>

fun delete_nodes :: "addr list \<Rightarrow> node_heap \<Rightarrow> node_heap res" where
  "delete_nodes [] h = Inr h"
| "delete_nodes (a # as) h = (if h a = None \<and> a \<noteq> 0 then Inl (UB UseAfterFree) else delete_nodes as (h(a := None)))"

definition NodeManagerBase_destroy :: "'s NodeManagerBase \<Rightarrow> node_heap res" where
  "NodeManagerBase_destroy st = delete_nodes (rev (m_listNodes st)) (nodes st)"

subsection \<open>Looking nodes up\<close>

fun find_node :: "allocator \<Rightarrow> node_heap \<Rightarrow> UaNodeId \<Rightarrow> addr list \<Rightarrow> addr res" where
  "find_node al h nodeId [] = Inr 0"
| "find_node al h nodeId (a # as) = bind_res (deref_node h a) (\<lambda>n. bind_res (UaNode_nodeId al n) (\<lambda>i.
     if UaNodeId_eq i nodeId then Inr a else find_node al h nodeId as))"

text \<open>The identifier is compared with the root's first; the predicate holds a copy of it.\<close>

definition getNode :: "allocator \<Rightarrow> 's NodeManagerBase \<Rightarrow> UaNodeId \<Rightarrow> addr res" where
  "getNode al st nodeId =
     (if UaNodeId_eq nodeId (UaNodeId_numeric 85 0) then Inr (m_serverRootNode st)
      else bind_res (UaNodeId_copy al nodeId) (\<lambda>i. find_node al (nodes st) i (m_listNodes st)))"

subsection \<open>Adding nodes\<close>

definition display_name :: "allocator \<Rightarrow> UaNode \<Rightarrow> UaLocalizedText res" where
  "display_name al n = bind_res (UaNode_browseName al n) (\<lambda>q. bind_res (UaString_copy al (m_unqualifiedName q)) (\<lambda>s.
     bind_res (UaString_toUtf8 s) (\<lambda>t. Inr (UaLocalizedText_of al (Some ''en_US'') (Some t)))))"

definition emptyDescription :: "allocator \<Rightarrow> UaLocalizedText" where
  "emptyDescription al = UaLocalizedText_of al (Some ''en_US'') (Some [])"

text \<open>
  \<open>x().impl()\<close> stored beyond the full expression: the temporary that owned a string identifier is gone when the
  stack reads the structure.
\<close>

definition after_temporary :: "UaNodeId \<Rightarrow> UA_NodeId res" where
  "after_temporary n = (case nid_identifier n of
      IdString s \<Rightarrow> (case bs_data s of Heap _ \<Rightarrow> Inl (UB UseAfterFree) | _ \<Rightarrow> Inr n)
    | IdByteString s \<Rightarrow> (case bs_data s of Heap _ \<Rightarrow> Inl (UB UseAfterFree) | _ \<Rightarrow> Inr n)
    | _ \<Rightarrow> Inr n)"

text \<open>The call of the stack: it uses the server pointer, which nobody checks.\<close>

definition call_stack :: "('s \<Rightarrow> UA_StatusCode \<times> 's) \<Rightarrow> 's NodeManagerBase \<Rightarrow> (UA_StatusCode \<times> 's NodeManagerBase) res" where
  "call_stack f st = (case m_server st of None \<Rightarrow> Inl (UB NullDeref)
     | Some s \<Rightarrow> (case f s of (code, s') \<Rightarrow> Inr (code, st\<lparr>m_server := Some s'\<rparr>)))"

text \<open>\<open>m_listNodes.push_back(to); parent->addReferencedTarget(to, refType)\<close>, the type passed by value.\<close>

definition add_target :: "allocator \<Rightarrow> addr \<Rightarrow> addr \<Rightarrow> UaNodeId \<Rightarrow> 's NodeManagerBase \<Rightarrow> 's NodeManagerBase res" where
  "add_target al parent to refType st = bind_res (UaNodeId_copy al refType) (\<lambda>ty.
     bind_res (addReferencedTarget parent to ty (nodes st)) (\<lambda>h. Inr (st\<lparr>nodes := h\<rparr>)))"

definition register_node :: "allocator \<Rightarrow> addr \<Rightarrow> addr \<Rightarrow> UaNodeId \<Rightarrow> 's NodeManagerBase \<Rightarrow> 's NodeManagerBase res" where
  "register_node al parent to refType st = add_target al parent to refType (st\<lparr>m_listNodes := m_listNodes st @ [to]\<rparr>)"

definition addObjectNodeAndReference :: "'s stack_api \<Rightarrow> allocator \<Rightarrow> addr \<Rightarrow> addr \<Rightarrow> UaNodeId \<Rightarrow> 's NodeManagerBase
    \<Rightarrow> (UA_StatusCode \<times> 's NodeManagerBase) res" where
  "addObjectNodeAndReference api al parent to refType st =
     bind_res (deref_node (nodes st) to) (\<lambda>n. bind_res (display_name al n) (\<lambda>displayName.
     bind_res (UaNode_nodeId al n) (\<lambda>i. bind_res (deref_node (nodes st) parent) (\<lambda>p.
     bind_res (UaNode_nodeId al p) (\<lambda>pid. bind_res (UaNode_browseName al n) (\<lambda>q. bind_res (UaNode_typeDefinitionId al n) (\<lambda>ty.
     bind_res (call_stack (UA_Server_addObjectNode api ty
         \<lparr>oa_displayName = displayName, oa_description = emptyDescription al\<rparr> i pid refType q) st) (\<lambda>(s, st1).
       if s = OpcUa_Good then bind_res (register_node al parent to refType st1) (\<lambda>st2. Inr (s, st2))
       else Inr (s, st1)))))))))"

definition variable_value :: "allocator \<Rightarrow> UaDataValue \<Rightarrow> UA_Variant res" where
  "variable_value al d = bind_res (UaVariant_fromStack al (dv_value d)) (\<lambda>v. case v of
     Freed \<Rightarrow> Inl (UB UseAfterFree)
   | Live w \<Rightarrow> (case UaVariant_copyToStack al w UA_Variant_init of (Inl e, _) \<Rightarrow> Inl e | (Inr _, x) \<Rightarrow> Inr x))"

definition addDataVariableNodeAndReference :: "'s stack_api \<Rightarrow> allocator \<Rightarrow> addr \<Rightarrow> addr \<Rightarrow> BaseDataVariableType \<Rightarrow> UaNodeId
    \<Rightarrow> 's NodeManagerBase \<Rightarrow> (UA_StatusCode \<times> 's NodeManagerBase) res" where
  "addDataVariableNodeAndReference api al parent to variable refType st =
     bind_res (deref_node (nodes st) to) (\<lambda>n. bind_res (display_name al n) (\<lambda>displayName.
     bind_res (UaNode_typeDefinitionId al n) (\<lambda>dataType.
     bind_res (BaseDataVariableType_value al variable) (\<lambda>d. bind_res (variable_value al d) (\<lambda>v.
     bind_res (UaNode_nodeId al n) (\<lambda>i. bind_res (deref_node (nodes st) parent) (\<lambda>p.
     bind_res (UaNode_nodeId al p) (\<lambda>pid. bind_res (UaNode_browseName al n) (\<lambda>q.
     bind_res (after_temporary dataType) (\<lambda>dt.
     bind_res (call_stack (UA_Server_addDataSourceVariableNode api (UaNodeId_numeric 63 0)
         (UA_VariableAttributes_init\<lparr>va_description := emptyDescription al, va_displayName := displayName, va_dataType := dt,
            va_valueRank := bv_valueRank variable, va_accessLevel := bv_accessLevel variable,
            va_arrayDimensions := bv_arrayDimensions variable, va_value := v\<rparr>) to i pid refType q) st) (\<lambda>(s, st1).
       if s = OpcUa_Good then bind_res (register_node al parent to refType st1) (\<lambda>st2. Inr (s, st2))
       else Inr (s, st1))))))))))))"

text \<open>The message of an exception names the node: printing its identifier comes first and may itself throw.\<close>

definition throw_named :: "(nat \<Rightarrow> string) \<Rightarrow> allocator \<Rightarrow> UaNode \<Rightarrow> exn \<Rightarrow> 'a res" where
  "throw_named lc al n e = bind_res (UaNode_nodeId al n) (\<lambda>i. bind_res (UaNodeId_toString lc al i) (\<lambda>s.
     bind_res (UaString_toUtf8 s) (\<lambda>_. Inl (Throw e))))"

text \<open>A property is added to the stack only: the manager neither registers it nor links it to its parent.\<close>

definition addPropertyNodeAndReference :: "'s stack_api \<Rightarrow> (nat \<Rightarrow> string) \<Rightarrow> allocator \<Rightarrow> int \<Rightarrow> addr \<Rightarrow> addr \<Rightarrow> UaPropertyCache
    \<Rightarrow> UaNodeId \<Rightarrow> 's NodeManagerBase \<Rightarrow> (UA_StatusCode \<times> 's NodeManagerBase) res" where
  "addPropertyNodeAndReference api lc al now parent to cache refType st =
     bind_res (deref_node (nodes st) to) (\<lambda>n. bind_res (display_name al n) (\<lambda>displayName.
     bind_res (UaNode_typeDefinitionId al n) (\<lambda>dataType.
     bind_res (UaPropertyCache_value al now now cache) (\<lambda>d. bind_res (variable_value al d) (\<lambda>v.
     bind_res (UaNode_nodeId al n) (\<lambda>i. bind_res (deref_node (nodes st) parent) (\<lambda>p.
     bind_res (UaNode_nodeId al p) (\<lambda>pid. bind_res (UaNode_browseName al n) (\<lambda>q.
     bind_res (after_temporary dataType) (\<lambda>dt.
     bind_res (call_stack (UA_Server_addVariableNode api (UaNodeId_numeric 68 0)
         (UA_VariableAttributes_default\<lparr>va_displayName := displayName, va_dataType := dt,
            va_accessLevel := pc_accessLevel cache, va_value := v\<rparr>) i pid refType q) st) (\<lambda>(s, st1).
       if \<not> isGood (UaStatus_of s) then throw_named lc al n (RuntimeError ''failed to add property '')
       else Inr (s, st1))))))))))))"

text \<open>The dynamic casts, in the order of the code.\<close>

definition addVariableNodeAndReference :: "'s stack_api \<Rightarrow> (nat \<Rightarrow> string) \<Rightarrow> allocator \<Rightarrow> int \<Rightarrow> addr \<Rightarrow> addr \<Rightarrow> UaNodeId
    \<Rightarrow> 's NodeManagerBase \<Rightarrow> (UA_StatusCode \<times> 's NodeManagerBase) res" where
  "addVariableNodeAndReference api lc al now parent to refType st = bind_res (deref_node (nodes st) to) (\<lambda>n.
     case node_obj n of
       MethodArgument _ \<Rightarrow> bind_res (add_target al parent to refType st) (\<lambda>st1. Inr (OpcUa_Good, st1))
     | PropertyCache p \<Rightarrow> addPropertyNodeAndReference api lc al now parent to p refType st
     | DataVariable v \<Rightarrow> addDataVariableNodeAndReference api al parent to v refType st
     | _ \<Rightarrow> throw_named lc al n (LogicError ''Can't add this variable: no obvious handler''))"

text \<open>
  The arguments of a method come from its HasProperty targets; the cast of the target is not checked, so any
  other property is a null pointer. A later list of the same kind replaces an earlier one.
\<close>

record method_arguments =
  in_args :: "UA_Argument list"
  in_args_id :: UaNodeId
  out_args :: "UA_Argument list"
  out_args_id :: UaNodeId

definition no_arguments :: method_arguments where
  "no_arguments = \<lparr>in_args = [], in_args_id = UaNodeId_default, out_args = [], out_args_id = UaNodeId_default\<rparr>"

fun impl_arguments :: "UaPropertyMethodArgument \<Rightarrow> nat list \<Rightarrow> UA_Argument list res" where
  "impl_arguments p [] = Inr []"
| "impl_arguments p (i # is) = bind_res (implArgument p i) (\<lambda>a. bind_res (impl_arguments p is) (\<lambda>as. Inr (a # as)))"

definition collect_argument :: "allocator \<Rightarrow> UaPropertyMethodArgument \<Rightarrow> method_arguments \<Rightarrow> method_arguments res" where
  "collect_argument al property args =
     bind_res (impl_arguments property [0..<ma_numberArguments property]) (\<lambda>as.
     bind_res (UaNodeId_copy al (ma_nodeId property)) (\<lambda>i.
       if ma_argumentType property = INARGUMENTS
       then (case UaNodeId_assign al (Some i) (in_args_id args) of
               (Inl e, _) \<Rightarrow> Inl e | (Inr _, j) \<Rightarrow> Inr (args\<lparr>in_args := as, in_args_id := j\<rparr>))
       else (case UaNodeId_assign al (Some i) (out_args_id args) of
               (Inl e, _) \<Rightarrow> Inl e | (Inr _, j) \<Rightarrow> Inr (args\<lparr>out_args := as, out_args_id := j\<rparr>))))"

fun collect_arguments :: "allocator \<Rightarrow> node_heap \<Rightarrow> ReferencedTarget list \<Rightarrow> method_arguments \<Rightarrow> method_arguments res" where
  "collect_arguments al h [] args = Inr args"
| "collect_arguments al h (t # ts) args =
     (if UaNodeId_eq (rt_referenceTypeId t) (UaNodeId_numeric 46 0) then
        bind_res (deref_node h (rt_target t)) (\<lambda>n. case node_obj n of
            MethodArgument property \<Rightarrow> bind_res (collect_argument al property args) (collect_arguments al h ts)
          | _ \<Rightarrow> Inl (UB NullDeref))
      else collect_arguments al h ts args)"

definition addMethodNodeAndReference :: "'s stack_api \<Rightarrow> allocator \<Rightarrow> addr \<Rightarrow> addr \<Rightarrow> UaNodeId \<Rightarrow> 's NodeManagerBase
    \<Rightarrow> (UA_StatusCode \<times> 's NodeManagerBase) res" where
  "addMethodNodeAndReference api al parent to refType st =
     bind_res (deref_node (nodes st) to) (\<lambda>n. bind_res (display_name al n) (\<lambda>displayName.
     if \<not> can_alloc al 24 then Inl (Throw AllocError) else
     (let handle = next_handle st;
          st0 = st\<lparr>method_handles := (method_handles st)(handle \<mapsto> setUaNodes parent to MethodHandleUaNode_new),
                   next_handle := Suc handle\<rparr>
      in bind_res (collect_arguments al (nodes st) (m_referenceTargets n) no_arguments) (\<lambda>args.
         bind_res (UaNode_nodeId al n) (\<lambda>i. bind_res (deref_node (nodes st) parent) (\<lambda>p.
         bind_res (UaNode_nodeId al p) (\<lambda>pid. bind_res (UaNode_browseName al n) (\<lambda>q.
         bind_res (call_stack (UA_Server_addMethodNodeEx api
             \<lparr>mat_executable = True, mat_userExecutable = True, mat_displayName = displayName, mat_description = emptyDescription al\<rparr>
             (in_args args) (in_args_id args) (out_args args) (out_args_id args) handle i pid refType q) st0) (\<lambda>(s, st1).
           if \<not> isGood (UaStatus_of s) then Inl (Throw (RuntimeError ''failed to add the method node:''))
           else bind_res (register_node al parent to refType st1) (\<lambda>st2. Inr (OpcUa_Good, st2)))))))))))"

definition addNodeAndReference :: "'s stack_api \<Rightarrow> (nat \<Rightarrow> string) \<Rightarrow> allocator \<Rightarrow> int \<Rightarrow> addr \<Rightarrow> addr \<Rightarrow> UaNodeId
    \<Rightarrow> 's NodeManagerBase \<Rightarrow> (UA_StatusCode \<times> 's NodeManagerBase) res" where
  "addNodeAndReference api lc al now parent to refType st =
     bind_res (deref_node (nodes st) to) (\<lambda>n. bind_res (display_name al n) (\<lambda>_.
       case UaNode_nodeClass n of
         OpcUa_NodeClass_Object \<Rightarrow> addObjectNodeAndReference api al parent to refType st
       | OpcUa_NodeClass_Variable \<Rightarrow> addVariableNodeAndReference api lc al now parent to refType st
       | OpcUa_NodeClass_Method \<Rightarrow> addMethodNodeAndReference api al parent to refType st
       | _ \<Rightarrow> Inl (Throw (RuntimeError ''Adding this nodeClass to the address space is not yet implemented by open62541-compat.''))))"

text \<open>The overload with the parent's identifier.\<close>

definition addNodeAndReference_from :: "'s stack_api \<Rightarrow> (nat \<Rightarrow> string) \<Rightarrow> allocator \<Rightarrow> int \<Rightarrow> UaNodeId \<Rightarrow> addr \<Rightarrow> UaNodeId
    \<Rightarrow> 's NodeManagerBase \<Rightarrow> (UA_StatusCode \<times> 's NodeManagerBase) res" where
  "addNodeAndReference_from api lc al now from to refType st = bind_res (getNode al st from) (\<lambda>parentNode.
     if parentNode = 0 then Inr (OpcUa_BadNodeIdUnknown, st)
     else addNodeAndReference api lc al now parentNode to refType st)"

definition addUaReference :: "UaNodeId \<Rightarrow> UaNodeId \<Rightarrow> UaNodeId \<Rightarrow> ('s NodeManagerBase, UA_StatusCode) op" where
  "addUaReference from to refType st =
     (Inl (Throw (RuntimeError ''addUaReference is not yet well implemented, implement me.'')), st)"

definition linkServer :: "'s stack_api \<Rightarrow> 's \<Rightarrow> ('s NodeManagerBase, unit) op" where
  "linkServer api server st = (case UA_Server_addNamespace api (m_nameSpaceUri st) server of (nsIndex, s') \<Rightarrow>
     (let st1 = st\<lparr>m_server := Some s'\<rparr>
      in if nsIndex \<noteq> 2
         then (Inl (Throw (LogicError ''UA_Server_addNamespace: namespace added to nsindex different than 2'')), st1)
         else (Inr (), st1)))"

definition afterStartUp :: "UA_StatusCode" where
  "afterStartUp = OpcUa_Good"

end
