(* ===== verification/NodeManagerProps.thy ===== *)
theory NodeManagerProps
  imports NodeManagers
begin

text \<open>
  What the node manager's operations do, and the invariant of the address space they build.
\<close>

subsection \<open>Effects of the steps\<close>

lemma display_name_ok: "mem_ok al \<Longrightarrow> wf_node n \<Longrightarrow> \<exists>t. display_name al n = Inr t"
proof -
  assume al: "mem_ok al" and n: "wf_node n"
  have "wf_UaString (m_unqualifiedName (member_browseName al n))"
    using n by (cases "node_obj n") (simp_all add: wf_node_def member_browseName_def)
  then obtain x where x: "m_unqualifiedName (member_browseName al n) = Live x" "wf_bstr x" by (rule wf_UaStringE)
  with al n show ?thesis
    by (simp add: display_name_def browseName_ok UaString_copy_ok UaString_toUtf8_def)
qed

lemma call_stackD:
  "call_stack f st = Inr (code, st') \<Longrightarrow> \<exists>s s'. m_server st = Some s \<and> f s = (code, s') \<and> st' = st\<lparr>m_server := Some s'\<rparr>"
  by (auto simp: call_stack_def split: option.splits prod.splits)

text \<open>The parent \<open>p\<close> at address \<open>a\<close> gets one more target.\<close>

definition linked :: "addr \<Rightarrow> UaNode \<Rightarrow> addr \<Rightarrow> UaNodeId \<Rightarrow> node_heap \<Rightarrow> node_heap" where
  "linked a p to refType h = h(a \<mapsto> p\<lparr>m_referenceTargets := m_referenceTargets p
     @ [\<lparr>rt_target = to, rt_referenceTypeId = refType\<rparr>]\<rparr>)"

lemma add_targetD:
  assumes "mem_ok al" "wf_heap (nodes st)" "wf_nodeid ty" "add_target al a to ty st = Inr st'"
  shows "\<exists>p. nodes st a = Some p \<and> st' = st\<lparr>nodes := linked a p to ty (nodes st)\<rparr>"
  using assms by (auto simp: add_target_def UaNodeId_copy_ok bind_res_Inr_iff addReferencedTarget_def deref_node_iff linked_def)

lemma linked_wf: "wf_heap h \<Longrightarrow> h a = Some p \<Longrightarrow> wf_heap (linked a p to ty h)"
  by (auto simp: linked_def intro!: wf_heap_update dest: wf_heap_nonnull wf_heapD)

lemma linked_obj: "h a = Some p \<Longrightarrow> map_option node_obj (linked a p to ty h b) = map_option node_obj (h b)"
  by (simp add: linked_def)

text \<open>One of the stack's four functions, called for the identifier \<open>i\<close>, answered \<open>r\<close>.\<close>

inductive adds :: "'s stack_api \<Rightarrow> UA_NodeId \<Rightarrow> 's \<Rightarrow> UA_StatusCode \<times> 's \<Rightarrow> bool" for api i s where
  adds_object: "adds api i s (UA_Server_addObjectNode api ty oa i pid rt q s)"
| adds_data: "adds api i s (UA_Server_addDataSourceVariableNode api ty va c i pid rt q s)"
| adds_variable: "adds api i s (UA_Server_addVariableNode api ty va i pid rt q s)"
| adds_method: "adds api i s (UA_Server_addMethodNodeEx api ma ia ii ao oi c i pid rt q s)"

text \<open>The node is registered and linked, or only the server has changed.\<close>

definition registered :: "'s stack_api \<Rightarrow> addr \<Rightarrow> addr \<Rightarrow> UaNode \<Rightarrow> UaNodeId \<Rightarrow> UA_StatusCode
    \<Rightarrow> 's NodeManagerBase \<Rightarrow> 's NodeManagerBase \<Rightarrow> bool" where
  "registered api parent to n refType code st st' \<longleftrightarrow> code = OpcUa_Good
     \<and> (\<exists>s s' p. m_server st = Some s \<and> adds api (member_nodeId n) s (OpcUa_Good, s') \<and> m_server st' = Some s'
        \<and> nodes st parent = Some p \<and> nodes st' = linked parent p to refType (nodes st)
        \<and> m_listNodes st' = m_listNodes st @ [to])"

definition stack_only :: "'s stack_api \<Rightarrow> UaNode \<Rightarrow> UA_StatusCode \<Rightarrow> 's NodeManagerBase \<Rightarrow> 's NodeManagerBase \<Rightarrow> bool" where
  "stack_only api n code st st' \<longleftrightarrow>
     (\<exists>s s'. m_server st = Some s \<and> adds api (member_nodeId n) s (code, s') \<and> st' = st\<lparr>m_server := Some s'\<rparr>)"

lemma registered_list: "registered api parent to n ty code st st' \<Longrightarrow> m_listNodes st' = m_listNodes st @ [to]"
  by (auto simp: registered_def)

lemma register_after:
  assumes "mem_ok al" "wf_heap (nodes st)" "wf_nodeid ty" "m_server st = Some s" "adds api (member_nodeId n) s (OpcUa_Good, s')"
    and "register_node al parent to ty st1 = Inr st'" "nodes st1 = nodes st" "m_listNodes st1 = m_listNodes st" "m_server st1 = Some s'"
  shows "registered api parent to n ty OpcUa_Good st st' \<and> m_serverRootNode st' = m_serverRootNode st1"
  using assms add_targetD [of al "st1\<lparr>m_listNodes := m_listNodes st1 @ [to]\<rparr>" ty parent to st']
  by (auto simp: register_node_def registered_def)

lemma finish_adding:
  assumes "mem_ok al" "wf_heap (nodes st)" "wf_nodeid ty" "call_stack f st = Inr (s, st1)"
    and "\<And>x. adds api (member_nodeId n) x (f x)"
    and "(if s = OpcUa_Good then bind_res (register_node al parent to ty st1) (\<lambda>st2. Inr (s, st2)) else Inr (s, st1)) = Inr (code, st')"
  shows "(registered api parent to n ty code st st' \<or> code \<noteq> OpcUa_Good \<and> stack_only api n code st st')
    \<and> m_serverRootNode st' = m_serverRootNode st"
proof -
  from call_stackD [OF assms(4)] obtain x x' where x: "m_server st = Some x" "st1 = st\<lparr>m_server := Some x'\<rparr>"
    "f x = (s, x')" by blast
  then have adds: "adds api (member_nodeId n) x (s, x')" using assms(5) [of x] by simp
  show ?thesis
  proof (cases "s = OpcUa_Good")
    case True
    with assms(6) have "register_node al parent to ty st1 = Inr st'" "code = OpcUa_Good" by (auto simp: bind_res_Inr_iff)
    with register_after [OF assms(1-3) x(1)] adds True x(2) show ?thesis by simp
  next
    case False
    with assms(6) adds x show ?thesis by (auto simp: stack_only_def)
  qed
qed

lemma addObject_effect:
  assumes "mem_ok al" "wf_heap (nodes st)" "nodes st to = Some n" "wf_nodeid ty"
    and "addObjectNodeAndReference api al parent to ty st = Inr (code, st')"
  shows "(registered api parent to n ty code st st' \<or> code \<noteq> OpcUa_Good \<and> stack_only api n code st st')
    \<and> m_serverRootNode st' = m_serverRootNode st"
proof -
  have wf: "wf_node n" using assms(2,3) by (rule wf_heapD)
  obtain t where t: "display_name al n = Inr t" using display_name_ok [OF assms(1) wf] by blast
  from assms(5) obtain p pid st1 s where call: "call_stack (UA_Server_addObjectNode api (member_typeDefinitionId n)
      \<lparr>oa_displayName = t, oa_description = emptyDescription al\<rparr> (member_nodeId n) pid ty (member_browseName al n)) st = Inr (s, st1)"
    "(if s = OpcUa_Good then bind_res (register_node al parent to ty st1) (\<lambda>st2. Inr (s, st2)) else Inr (s, st1)) = Inr (code, st')"
    unfolding addObjectNodeAndReference_def deref_node_ok [OF assms(2,3)] bind_res_simps t nodeId_ok [OF assms(1) wf]
      browseName_ok [OF assms(1) wf] typeDefinitionId_ok [OF assms(1) wf]
    by (auto simp: bind_res_Inr_iff)
  show ?thesis by (rule finish_adding [OF assms(1,2,4) call(1) adds_object call(2)])
qed

lemma addDataVariable_effect:
  assumes "mem_ok al" "wf_heap (nodes st)" "nodes st to = Some n" "wf_nodeid ty"
    and "addDataVariableNodeAndReference api al parent to v ty st = Inr (code, st')"
  shows "(registered api parent to n ty code st st' \<or> code \<noteq> OpcUa_Good \<and> stack_only api n code st st')
    \<and> m_serverRootNode st' = m_serverRootNode st"
proof -
  have wf: "wf_node n" using assms(2,3) by (rule wf_heapD)
  obtain t where t: "display_name al n = Inr t" using display_name_ok [OF assms(1) wf] by blast
  from assms(5) obtain pid va st1 s where call: "call_stack (UA_Server_addDataSourceVariableNode api (UaNodeId_numeric 63 0) va to
      (member_nodeId n) pid ty (member_browseName al n)) st = Inr (s, st1)"
    "(if s = OpcUa_Good then bind_res (register_node al parent to ty st1) (\<lambda>st2. Inr (s, st2)) else Inr (s, st1)) = Inr (code, st')"
    unfolding addDataVariableNodeAndReference_def deref_node_ok [OF assms(2,3)] bind_res_simps t nodeId_ok [OF assms(1) wf]
      browseName_ok [OF assms(1) wf] typeDefinitionId_ok [OF assms(1) wf]
    by (auto simp: bind_res_Inr_iff)
  show ?thesis by (rule finish_adding [OF assms(1,2,4) call(1) adds_data call(2)])
qed

lemma throw_named_error: "throw_named lc al n e \<noteq> Inr r"
  by (auto simp: throw_named_def bind_res_Inr_iff)

lemma addProperty_effect:
  assumes "mem_ok al" "wf_heap (nodes st)" "nodes st to = Some n"
    and "addPropertyNodeAndReference api lc al now parent to v ty st = Inr (code, st')"
  shows "code = OpcUa_Good \<and> stack_only api n code st st'"
proof -
  have wf: "wf_node n" using assms(2,3) by (rule wf_heapD)
  obtain t where t: "display_name al n = Inr t" using display_name_ok [OF assms(1) wf] by blast
  from assms(4) obtain pid va where call: "call_stack (UA_Server_addVariableNode api (UaNodeId_numeric 68 0) va
      (member_nodeId n) pid ty (member_browseName al n)) st = Inr (code, st')" and "isGood (UaStatus_of code)"
    unfolding addPropertyNodeAndReference_def deref_node_ok [OF assms(2,3)] bind_res_simps t nodeId_ok [OF assms(1) wf]
      browseName_ok [OF assms(1) wf] typeDefinitionId_ok [OF assms(1) wf]
    by (auto simp: bind_res_Inr_iff throw_named_error split: if_splits)
  from call_stackD [OF call] obtain x x' where x: "m_server st = Some x" "st' = st\<lparr>m_server := Some x'\<rparr>"
    "UA_Server_addVariableNode api (UaNodeId_numeric 68 0) va (member_nodeId n) pid ty (member_browseName al n) x = (code, x')"
    by blast
  have "adds api (member_nodeId n) x (code, x')" unfolding x(3) [symmetric] by (rule adds_variable)
  with x \<open>isGood (UaStatus_of code)\<close> show ?thesis by (auto simp: stack_only_def isGood_def UaStatus_of_def)
qed

lemma addMethod_effect:
  assumes "mem_ok al" "wf_heap (nodes st)" "nodes st to = Some n" "wf_nodeid ty"
    and "addMethodNodeAndReference api al parent to ty st = Inr (code, st')"
  shows "registered api parent to n ty code st st' \<and> m_serverRootNode st' = m_serverRootNode st"
proof -
  have wf: "wf_node n" using assms(2,3) by (rule wf_heapD)
  obtain t where t: "display_name al n = Inr t" using display_name_ok [OF assms(1) wf] by blast
  define st0 where "st0 = st\<lparr>method_handles := (method_handles st)(next_handle st \<mapsto> setUaNodes parent to MethodHandleUaNode_new),
      next_handle := Suc (next_handle st)\<rparr>"
  have fields: "m_server st0 = m_server st" "nodes st0 = nodes st" "m_listNodes st0 = m_listNodes st"
    "m_serverRootNode st0 = m_serverRootNode st" by (simp_all add: st0_def)
  have ca: "(\<not> can_alloc al 24) = False" using assms(1) by simp
  define ma where "ma = \<lparr>mat_executable = True, mat_userExecutable = True, mat_displayName = t, mat_description = emptyDescription al\<rparr>"
  from assms(5) obtain args :: method_arguments and pid r where call: "call_stack (UA_Server_addMethodNodeEx api ma
      (in_args args) (in_args_id args) (out_args args) (out_args_id args) (next_handle st) (member_nodeId n) pid ty (member_browseName al n)) st0
      = Inr r" and r: "(case r of (s, st1) \<Rightarrow> if \<not> isGood (UaStatus_of s) then Inl (Throw (RuntimeError ''failed to add the method node:''))
         else bind_res (register_node al parent to ty st1) (\<lambda>st2. Inr (OpcUa_Good, st2))) = Inr (code, st')"
    unfolding addMethodNodeAndReference_def deref_node_ok [OF assms(2,3)] bind_res_simps t nodeId_ok [OF assms(1) wf]
      browseName_ok [OF assms(1) wf] ca Let_def st0_def [symmetric] ma_def [symmetric]
      if_False bind_res_Inr_iff by blast
  obtain s st1 where [simp]: "r = (s, st1)" by (cases r)
  from r have s: "s = OpcUa_Good" "register_node al parent to ty st1 = Inr st'" "code = OpcUa_Good"
    by (auto simp: bind_res_Inr_iff isGood_def UaStatus_of_def split: if_splits)
  from call_stackD [OF call [unfolded \<open>r = (s, st1)\<close>]] obtain x x' where x: "m_server st = Some x" "st1 = st0\<lparr>m_server := Some x'\<rparr>"
    "adds api (member_nodeId n) x (OpcUa_Good, x')" using fields adds_method s(1) by metis
  from register_after [OF assms(1,2,4) x(1,3) s(2)] x(2) fields s(3) show ?thesis by simp
qed

lemma addVariable_effect:
  assumes "mem_ok al" "wf_heap (nodes st)" "nodes st to = Some n" "wf_nodeid ty"
    and "addVariableNodeAndReference api lc al now parent to ty st = Inr (code, st')"
  shows "m_serverRootNode st' = m_serverRootNode st \<and> (case node_obj n of
      MethodArgument _ \<Rightarrow> code = OpcUa_Good \<and> (\<exists>p. nodes st parent = Some p \<and> st' = st\<lparr>nodes := linked parent p to ty (nodes st)\<rparr>)
    | PropertyCache _ \<Rightarrow> code = OpcUa_Good \<and> stack_only api n code st st'
    | DataVariable _ \<Rightarrow> registered api parent to n ty code st st' \<or> code \<noteq> OpcUa_Good \<and> stack_only api n code st st'
    | _ \<Rightarrow> False)"
proof (cases "node_obj n")
  case (MethodArgument x)
  with assms show ?thesis
    by (auto simp: addVariableNodeAndReference_def deref_node_ok bind_res_Inr_iff dest!: add_targetD)
next
  case (PropertyCache x)
  with assms have "addPropertyNodeAndReference api lc al now parent to x ty st = Inr (code, st')"
    by (simp add: addVariableNodeAndReference_def deref_node_ok)
  from addProperty_effect [OF assms(1-3) this] PropertyCache show ?thesis by (auto simp: stack_only_def)
next
  case (DataVariable x)
  with assms have "addDataVariableNodeAndReference api al parent to x ty st = Inr (code, st')"
    by (simp add: addVariableNodeAndReference_def deref_node_ok)
  from addDataVariable_effect [OF assms(1-4) this] DataVariable show ?thesis by simp
qed (use assms in \<open>simp_all add: addVariableNodeAndReference_def deref_node_ok throw_named_error\<close>)

text \<open>What a call that returns has done, by the class of the node.\<close>

definition outcome_of_adding :: "'s stack_api \<Rightarrow> addr \<Rightarrow> addr \<Rightarrow> UaNode \<Rightarrow> UaNodeId \<Rightarrow> UA_StatusCode
    \<Rightarrow> 's NodeManagerBase \<Rightarrow> 's NodeManagerBase \<Rightarrow> bool" where
  "outcome_of_adding api parent to n refType code st st' \<longleftrightarrow> (case node_obj n of
      MethodArgument _ \<Rightarrow> code = OpcUa_Good
        \<and> (\<exists>p. nodes st parent = Some p \<and> st' = st\<lparr>nodes := linked parent p to refType (nodes st)\<rparr>)
    | PropertyCache _ \<Rightarrow> code = OpcUa_Good \<and> stack_only api n code st st'
    | Method _ \<Rightarrow> registered api parent to n refType code st st'
    | _ \<Rightarrow> registered api parent to n refType code st st' \<or> code \<noteq> OpcUa_Good \<and> stack_only api n code st st')"

lemma addNode_outcome:
  assumes "mem_ok al" "wf_heap (nodes st)" "nodes st to = Some n" "wf_nodeid ty"
    and "addNodeAndReference api lc al now parent to ty st = Inr (code, st')"
  shows "outcome_of_adding api parent to n ty code st st' \<and> m_serverRootNode st' = m_serverRootNode st"
proof -
  obtain t where t: "display_name al n = Inr t" using display_name_ok [OF assms(1)] wf_heapD [OF assms(2,3)] by blast
  note run = assms(5) [unfolded addNodeAndReference_def deref_node_ok [OF assms(2,3)] bind_res_simps t]
  show ?thesis
  proof (cases "UaNode_nodeClass n")
    case OpcUa_NodeClass_Object
    with run have "addObjectNodeAndReference api al parent to ty st = Inr (code, st')" by simp
    from addObject_effect [OF assms(1-4) this] OpcUa_NodeClass_Object show ?thesis
      by (cases "node_obj n") (simp_all add: outcome_of_adding_def UaNode_nodeClass_def)
  next
    case OpcUa_NodeClass_Variable
    with run have "addVariableNodeAndReference api lc al now parent to ty st = Inr (code, st')" by simp
    from addVariable_effect [OF assms(1-4) this] OpcUa_NodeClass_Variable show ?thesis
      by (cases "node_obj n") (auto simp: outcome_of_adding_def UaNode_nodeClass_def)
  next
    case OpcUa_NodeClass_Method
    with run have "addMethodNodeAndReference api al parent to ty st = Inr (code, st')" by simp
    from addMethod_effect [OF assms(1-4) this] OpcUa_NodeClass_Method show ?thesis
      by (cases "node_obj n") (simp_all add: outcome_of_adding_def UaNode_nodeClass_def)
  qed (use run in simp_all)
qed

lemma addNode_frame:
  assumes "mem_ok al" "wf_heap (nodes st)" "nodes st to = Some n" "wf_nodeid refType"
    and "addNodeAndReference api lc al now parent to refType st = Inr (code, st')"
  shows "outcome_of_adding api parent to n refType code st st' \<and> m_serverRootNode st' = m_serverRootNode st
    \<and> wf_heap (nodes st') \<and> (\<forall>a. a \<noteq> parent \<longrightarrow> nodes st' a = nodes st a)
    \<and> (\<forall>a. map_option node_obj (nodes st' a) = map_option node_obj (nodes st a))"
proof -
  note o = addNode_outcome [OF assms]
  from o consider (link) p where "nodes st parent = Some p" "nodes st' = linked parent p to refType (nodes st)" | (same) "nodes st' = nodes st"
    by (cases "node_obj n") (auto simp: outcome_of_adding_def registered_def stack_only_def)
  then have "wf_heap (nodes st') \<and> (\<forall>a. a \<noteq> parent \<longrightarrow> nodes st' a = nodes st a)
    \<and> (\<forall>a. map_option node_obj (nodes st' a) = map_option node_obj (nodes st a))"
  proof cases
    case link
    then show ?thesis using linked_wf [OF assms(2)] linked_obj [of "nodes st"] by (auto simp: linked_def)
  qed (use assms(2) in simp)
  with o show ?thesis by blast
qed

text \<open>A call of \<open>addNodeAndReference\<close> that returns has done exactly one of four things, by the class of
  the node. Objects, data variables and methods: accepted by the stack, appended to the manager's list and
  linked from the parent; or refused with the stack's status, nothing but the server having changed (for
  a method this throws instead). A method's argument: linked from its parent only. A property: known to
  the stack only, so that neither \<open>getNode\<close> nor the parent's references lead to it.\<close>

theorem addNodeAndReference_effects:
  assumes "mem_ok al" "wf_heap (nodes st)" "nodes st to = Some n" "wf_nodeid refType"
    and "addNodeAndReference api lc al now parent to refType st = Inr (code, st')"
  shows "outcome_of_adding api parent to n refType code st st' \<and> m_serverRootNode st' = m_serverRootNode st
    \<and> wf_heap (nodes st') \<and> (\<forall>a. a \<noteq> parent \<longrightarrow> nodes st' a = nodes st a)
    \<and> (\<forall>a. map_option node_obj (nodes st' a) = map_option node_obj (nodes st a))"
  using addNode_frame [OF assms] .

subsection \<open>The invariant of the address space\<close>

text \<open>The identifier 0 asks the stack for a fresh one; \<open>ids s\<close> are the identifiers the server \<open>s\<close> knows.\<close>

definition requested :: "UA_NodeId \<Rightarrow> bool" where
  "requested i \<longleftrightarrow> nid_identifier i \<noteq> IdNumeric 0"

definition rejects_known :: "'s stack_api \<Rightarrow> ('s \<Rightarrow> UA_NodeId set) \<Rightarrow> bool" where
  "rejects_known api ids \<longleftrightarrow> (\<forall>i s code s'. adds api i s (code, s') \<longrightarrow> ids s \<subseteq> ids s'
     \<and> (code = OpcUa_Good \<and> requested i \<longrightarrow> i \<in> ids s' \<and> (\<forall>j\<in>ids s. \<not> UA_NodeId_equal j i)))"

definition id_at :: "node_heap \<Rightarrow> addr \<Rightarrow> UaNodeId" where
  "id_at h a = (case h a of None \<Rightarrow> UA_NodeId_null | Some n \<Rightarrow> member_nodeId n)"

text \<open>
  Every registered node exists; one with an identifier of its own choice is known to the stack under it, is not the root, and no other
  registered node has this identifier.
\<close>

definition distinct_from_earlier :: "node_heap \<Rightarrow> addr list \<Rightarrow> bool" where
  "distinct_from_earlier h as \<longleftrightarrow> sorted_wrt (\<lambda>a b. \<not> UaNodeId_eq (id_at h a) (id_at h b)) as"

definition chosen :: "node_heap \<Rightarrow> addr list \<Rightarrow> addr list" where
  "chosen h as = filter (\<lambda>a. requested (id_at h a)) as"

definition address_space_ok :: "('s \<Rightarrow> UA_NodeId set) \<Rightarrow> 's NodeManagerBase \<Rightarrow> bool" where
  "address_space_ok ids st \<longleftrightarrow> wf_heap (nodes st) \<and> distinct_from_earlier (nodes st) (chosen (nodes st) (m_listNodes st))
     \<and> (\<exists>s. m_server st = Some s \<and> UaNodeId_numeric 85 0 \<in> ids s
          \<and> (\<forall>a\<in>set (m_listNodes st). nodes st a \<noteq> None \<and> (requested (id_at (nodes st) a) \<longrightarrow> id_at (nodes st) a \<in> ids s
               \<and> \<not> UaNodeId_eq (UaNodeId_numeric 85 0) (id_at (nodes st) a))))"








lemma id_at_frame: "map_option node_obj (h' a) = map_option node_obj (h a) \<Longrightarrow> id_at h' a = id_at h a"
  by (cases "h a"; cases "h' a") (simp_all add: id_at_def member_nodeId_def)

lemma distinct_frame:
  assumes "\<And>a. id_at h' a = id_at h a"
  shows "distinct_from_earlier h' (chosen h' as) = distinct_from_earlier h (chosen h as)"
  by (simp add: distinct_from_earlier_def chosen_def assms)

lemma add_keeps_ok:
  assumes "mem_ok al" "rejects_known api ids" "address_space_ok ids st" "nodes st to = Some n"
    and "wf_nodeid ty" "addNodeAndReference api lc al now parent to ty st = Inr (code, st')"
  shows "address_space_ok ids st'"
proof -
  from assms(3) obtain s where s: "wf_heap (nodes st)" "distinct_from_earlier (nodes st) (chosen (nodes st) (m_listNodes st))" "m_server st = Some s"
    "UaNodeId_numeric 85 0 \<in> ids s" "\<forall>a\<in>set (m_listNodes st). nodes st a \<noteq> None \<and> (requested (id_at (nodes st) a) \<longrightarrow> id_at (nodes st) a \<in> ids s
       \<and> \<not> UaNodeId_eq (UaNodeId_numeric 85 0) (id_at (nodes st) a))" by (auto simp: address_space_ok_def)
  note fr = addNode_frame [OF assms(1) s(1) assms(4-6)]
  then have same: "id_at (nodes st') a = id_at (nodes st) a" "nodes st' a = None \<longleftrightarrow> nodes st a = None" for a
    by (blast intro: id_at_frame) (metis fr map_option_is_None)
  have wf: "wf_heap (nodes st')" using fr by blast
  have grow: "address_space_ok ids st'" if "m_listNodes st' = m_listNodes st" "m_server st' = Some s'" "ids s \<subseteq> ids s'" for s'
  proof -
    have "distinct_from_earlier (nodes st') (chosen (nodes st') (m_listNodes st'))"
      unfolding that(1) distinct_frame [of "nodes st'" "nodes st", OF same(1)] by (rule s(2))
    moreover have "\<forall>a\<in>set (m_listNodes st'). nodes st' a \<noteq> None \<and> (requested (id_at (nodes st') a) \<longrightarrow> id_at (nodes st') a \<in> ids s'
        \<and> \<not> UaNodeId_eq (UaNodeId_numeric 85 0) (id_at (nodes st') a))"
      unfolding same that(1) using s(5) that(3) by blast
    ultimately show ?thesis using that(2,3) s(4) wf by (simp add: address_space_ok_def) blast
  qed
  from fr consider (reg) "registered api parent to n ty code st st'" | (only) "stack_only api n code st st'"
    | (arg) "m_listNodes st' = m_listNodes st" "m_server st' = m_server st"
    by (cases "node_obj n") (auto simp: outcome_of_adding_def)
  then show ?thesis
  proof cases
    case reg
    then obtain s' where s': "adds api (member_nodeId n) s (OpcUa_Good, s')" "m_server st' = Some s'"
      "m_listNodes st' = m_listNodes st @ [to]" using s(3) by (auto simp: registered_def)
    with assms(2) have ids: "ids s \<subseteq> ids s'"
      "requested (member_nodeId n) \<Longrightarrow> member_nodeId n \<in> ids s' \<and> (\<forall>j\<in>ids s. \<not> UA_NodeId_equal j (member_nodeId n))"
      unfolding rejects_known_def by blast+
    have to: "id_at (nodes st) to = member_nodeId n" using assms(4) by (simp add: id_at_def)
    have "distinct_from_earlier (nodes st) (chosen (nodes st) (m_listNodes st @ [to]))"
      using s(2,5) ids(2) to by (auto simp: distinct_from_earlier_def chosen_def sorted_wrt_append UaNodeId_eq_def)
    then have d: "distinct_from_earlier (nodes st') (chosen (nodes st') (m_listNodes st'))"
      unfolding s'(3) distinct_frame [of "nodes st'" "nodes st", OF same(1)] .
    have "\<forall>a\<in>set (m_listNodes st'). nodes st' a \<noteq> None \<and> (requested (id_at (nodes st') a) \<longrightarrow> id_at (nodes st') a \<in> ids s'
        \<and> \<not> UaNodeId_eq (UaNodeId_numeric 85 0) (id_at (nodes st') a))"
      unfolding same s'(3) using s(4,5) ids to assms(4) by (simp add: UaNodeId_eq_def) blast
    with wf d s'(2) s(4) ids(1) show ?thesis by (simp add: address_space_ok_def) blast
  next
    case only
    then obtain s' where s': "adds api (member_nodeId n) s (code, s')" "m_server st' = Some s'" "m_listNodes st' = m_listNodes st"
      using s(3) by (auto simp: stack_only_def)
    have "ids s \<subseteq> ids s'" using assms(2) s'(1) unfolding rejects_known_def by blast
    with s'(3,2) show ?thesis by (rule grow)
  next
    case arg
    with s(3) grow [of s] show ?thesis by simp
  qed
qed

text \<open>What is registered by a call: its node, if it is neither a property nor the argument of a method.\<close>

definition never_registered :: "UaNode \<Rightarrow> bool" where
  "never_registered n \<longleftrightarrow> (case node_obj n of PropertyCache _ \<Rightarrow> True | MethodArgument _ \<Rightarrow> True | _ \<Rightarrow> False)"

lemma never_registered_frame: "map_option node_obj (Some n) = map_option node_obj (Some m) \<Longrightarrow> never_registered n = never_registered m"
  by (simp add: never_registered_def)

lemma outcome_lists:
  "outcome_of_adding api parent to n ty code st st' \<Longrightarrow>
     m_listNodes st' = m_listNodes st \<or> m_listNodes st' = m_listNodes st @ [to] \<and> \<not> never_registered n"
  by (auto simp: outcome_of_adding_def registered_def stack_only_def never_registered_def split: node_object.splits)

text \<open>A sequence of calls, up to the first that throws; the statuses are returned.\<close>

fun add_all :: "'s stack_api \<Rightarrow> (nat \<Rightarrow> string) \<Rightarrow> allocator \<Rightarrow> int \<Rightarrow> (addr \<times> addr \<times> UaNodeId) list
    \<Rightarrow> 's NodeManagerBase \<Rightarrow> (UA_StatusCode list \<times> 's NodeManagerBase) res" where
  "add_all api lc al now [] st = Inr ([], st)"
| "add_all api lc al now ((parent, to, ty) # reqs) st =
     bind_res (addNodeAndReference api lc al now parent to ty st) (\<lambda>(code, st1).
     bind_res (add_all api lc al now reqs st1) (\<lambda>(codes, st2). Inr (code # codes, st2)))"

text \<open>The node exists, and the reference type is well formed.\<close>

definition request_ok :: "node_heap \<Rightarrow> addr \<times> addr \<times> UaNodeId \<Rightarrow> bool" where
  "request_ok h r \<longleftrightarrow> wf_nodeid (snd (snd r)) \<and> h (fst (snd r)) \<noteq> None"

lemma request_ok_frame:
  assumes "\<And>a. map_option node_obj (h' a) = map_option node_obj (h a)" "request_ok h r"
  shows "request_ok h' r"
  using assms(1) [of "fst (snd r)"] assms(2) by (auto simp: request_ok_def)

lemma add_all_ok:
  assumes "mem_ok al" "rejects_known api ids"
  shows "address_space_ok ids st \<Longrightarrow> list_all (request_ok (nodes st)) reqs \<Longrightarrow>
    add_all api lc al now reqs st = Inr (codes, st') \<Longrightarrow>
    address_space_ok ids st' \<and> m_serverRootNode st' = m_serverRootNode st
    \<and> (\<forall>a. map_option node_obj (nodes st' a) = map_option node_obj (nodes st a))
    \<and> (\<forall>a\<in>set (m_listNodes st'). a \<in> set (m_listNodes st) \<or> a \<in> (\<lambda>r. fst (snd r)) ` set reqs \<and> \<not> never_registered (the (nodes st a)))"
proof (induction reqs arbitrary: st codes)
  case (Cons r reqs)
  obtain parent to ty where [simp]: "r = (parent, to, ty)" by (cases r)
  from Cons.prems(3) obtain code st1 codes' where
    one: "addNodeAndReference api lc al now parent to ty st = Inr (code, st1)" and
    rest: "add_all api lc al now reqs st1 = Inr (codes', st')" by (auto simp: bind_res_Inr_iff)
  from Cons.prems(2) obtain n where n: "nodes st to = Some n" "wf_nodeid ty" by (auto simp: request_ok_def)
  have wf: "wf_heap (nodes st)" using Cons.prems(1) by (simp add: address_space_ok_def)
  note fr = addNode_frame [OF assms(1) wf n one]
  have "list_all (request_ok (nodes st1)) reqs"
    using Cons.prems(2) fr by (auto simp: list_all_iff intro: request_ok_frame)
  moreover have "address_space_ok ids st1" by (rule add_keeps_ok [OF assms Cons.prems(1) n one])
  ultimately have IH: "address_space_ok ids st'" "m_serverRootNode st' = m_serverRootNode st1"
    "\<forall>a. map_option node_obj (nodes st' a) = map_option node_obj (nodes st1 a)"
    "\<forall>a\<in>set (m_listNodes st'). a \<in> set (m_listNodes st1) \<or> a \<in> (\<lambda>r. fst (snd r)) ` set reqs \<and> \<not> never_registered (the (nodes st1 a))"
    using Cons.IH [OF _ _ rest] by simp_all
  have never: "never_registered (the (nodes st1 a)) = never_registered (the (nodes st a))" if "nodes st a \<noteq> None" for a
  proof -
    have "map_option node_obj (nodes st1 a) = map_option node_obj (nodes st a)" using fr by blast
    with that show ?thesis by (auto simp: never_registered_def)
  qed
  have exists: "nodes st a \<noteq> None" if "a \<in> (\<lambda>r. fst (snd r)) ` set reqs" for a
    using Cons.prems(2) that by (auto simp: list_all_iff request_ok_def)
  have "a \<in> set (m_listNodes st) \<or> a \<in> (\<lambda>r. fst (snd r)) ` set (r # reqs) \<and> \<not> never_registered (the (nodes st a))"
    if "a \<in> set (m_listNodes st')" for a
  proof -
    from IH(4) that consider "a \<in> set (m_listNodes st1)" | "a \<in> (\<lambda>r. fst (snd r)) ` set reqs" "\<not> never_registered (the (nodes st1 a))" by blast
    then show ?thesis
    proof cases
      case 1
      then show ?thesis using outcome_lists [of api parent to n ty code st st1] fr n by auto
    next
      case 2
      then show ?thesis using never [OF exists [OF 2(1)]] by auto
    qed
  qed
  then show ?case using IH fr by simp
qed simp



text \<open>
  A server that keeps the list of its identifiers, a manager linked to it, two objects with one identifier, one with the null identifier,
  and a list of arguments.
\<close>

definition list_add :: "UA_NodeId \<Rightarrow> UA_NodeId list \<Rightarrow> UA_StatusCode \<times> UA_NodeId list" where
  "list_add i s = (if nid_identifier i = IdNumeric 0 then (OpcUa_Good, UA_NODEID_NUMERIC (nid_namespaceIndex i) (50000 + of_nat (length s)) # s)
     else if list_ex (\<lambda>j. UA_NodeId_equal j i) s then (OpcUa_BadNodeIdExists, s) else (OpcUa_Good, i # s))"

definition list_api :: "UA_NodeId list stack_api" where
  "list_api = \<lparr>UA_Server_addObjectNode = (\<lambda>ty oa i pid rt q. list_add i),
     UA_Server_addDataSourceVariableNode = (\<lambda>ty va c i pid rt q. list_add i),
     UA_Server_addVariableNode = (\<lambda>ty va i pid rt q. list_add i),
     UA_Server_addMethodNodeEx = (\<lambda>ma ia ii ao oi c i pid rt q. list_add i),
     UA_Server_addNamespace = (\<lambda>uri s. (2, s))\<rparr>"

lemma list_api_rejects: "rejects_known list_api set"
  by (auto simp: rejects_known_def list_api_def list_add_def list_ex_iff requested_def elim!: adds.cases split: if_splits)

definition example_object :: "32 word \<Rightarrow> UaNode" where
  "example_object i = UaNode_new (Object \<lparr>bo_nodeId = UA_NODEID_NUMERIC 2 i,
     bo_browseName = \<lparr>m_unqualifiedName = Live UA_STRING_NULL, qn_namespaceIndex = 2\<rparr>\<rparr>)"

definition example_arguments :: UaNode where
  "example_arguments = UaNode_new (MethodArgument \<lparr>ma_nodeId = UA_NODEID_NUMERIC 2 9, ma_numberArguments = 0,
     ma_browseName = \<lparr>m_unqualifiedName = Live UA_STRING_NULL, qn_namespaceIndex = 2\<rparr>, ma_impl = [], ma_argumentType = INARGUMENTS\<rparr>)"

definition example_manager :: "UA_NodeId list NodeManagerBase" where
  "example_manager = snd (linkServer list_api [UA_NODEID_NUMERIC 0 85]
     (NodeManagerBase_new ''urn'' 8 [16 \<mapsto> example_object 7, 24 \<mapsto> example_object 7, 32 \<mapsto> example_arguments, 40 \<mapsto> example_object 0]))"

lemma example_manager_ok: "address_space_ok set example_manager"
  by (simp add: address_space_ok_def example_manager_def linkServer_def list_api_def NodeManagerBase_new_def Let_def
      distinct_from_earlier_def chosen_def UaNodeId_numeric_def wf_heap_def wf_node_def wf_object_def UaNode_new_def example_object_def
      example_arguments_def wf_method_argument_def
      member_nodeId_def member_typeDefinitionId_def member_browseName_def wf_nodeid_def UA_NODEID_NUMERIC_def)

lemma example_nodes: "nodes example_manager 16 = Some (example_object 7)" "nodes example_manager 24 = Some (example_object 7)"
  "nodes example_manager 32 = Some example_arguments" "nodes example_manager 40 = Some (example_object 0)"
  "nodes example_manager 8 = Some (UaNode_new ServerRootNode)" "m_listNodes example_manager = []"
  by (simp_all add: example_manager_def linkServer_def list_api_def NodeManagerBase_new_def Let_def)

definition example_requests :: "(addr \<times> addr \<times> UaNodeId) list" where
  "example_requests = [(8, 16, UaNodeId_numeric 47 0), (8, 24, UaNodeId_numeric 47 0), (16, 32, UaNodeId_numeric 46 0)]"

lemmas example_eval = example_manager_def linkServer_def list_api_def NodeManagerBase_new_def Let_def addNodeAndReference_def
  addObjectNodeAndReference_def addVariableNodeAndReference_def deref_node_def example_object_def example_arguments_def UaNode_new_def display_name_def
  UaNode_browseName_def UaNode_nodeClass_def UaNode_nodeId_def UaNode_typeDefinitionId_def UaQualifiedName_copy_ok UaString_copy_ok UaNodeId_copy_ok
  UaString_toUtf8_def member_nodeId_def wf_nodeid_def UA_NODEID_NUMERIC_def UaNodeId_numeric_def call_stack_def list_add_def
  register_node_def add_target_def addReferencedTarget_def UA_NodeId_equal_cases

lemma example_run: "\<exists>st'. add_all list_api (show_base 10) enough_memory 0 example_requests
    example_manager = Inr ([OpcUa_Good, OpcUa_BadNodeIdExists, OpcUa_Good], st') \<and> m_listNodes st' = [16]"
  by (simp add: example_requests_def example_eval)


lemma example_requests_ok: "list_all (request_ok (nodes example_manager)) (example_requests @ [(8, 40, UaNodeId_numeric 47 0)])"
  by (simp add: request_ok_def example_nodes example_requests_def wf_nodeid_def UaNodeId_numeric_def UA_NODEID_NUMERIC_def)


theorem addNodeAndReference_effects_witness:
  "\<exists>st'. addNodeAndReference list_api (show_base 10) enough_memory 0 8 16 (UaNodeId_numeric 47 0) example_manager
      = Inr (OpcUa_Good, st')
    \<and> outcome_of_adding list_api 8 16 (example_object 7) (UaNodeId_numeric 47 0) OpcUa_Good example_manager st'"
proof -
  from example_run obtain st' where st': "addNodeAndReference list_api (show_base 10) enough_memory 0 8 16 (UaNodeId_numeric 47 0)
      example_manager = Inr (OpcUa_Good, st')" by (auto simp: bind_res_Inr_iff example_requests_def)
  have "wf_heap (nodes example_manager)" "wf_nodeid (UaNodeId_numeric 47 0)"
    using example_manager_ok by (simp_all add: address_space_ok_def wf_nodeid_def UaNodeId_numeric_def UA_NODEID_NUMERIC_def)
  from addNodeAndReference_effects [OF mem_ok_enough this(1) example_nodes(1) this(2) st'] st' show ?thesis by blast
qed

subsection \<open>The end of a manager\<close>

lemma delete_nodes_ok:
  "distinct as \<Longrightarrow> \<forall>a\<in>set as. h a \<noteq> None \<Longrightarrow> delete_nodes as h = Inr (\<lambda>a. if a \<in> set as then None else h a)"
proof (induction as arbitrary: h)
  case (Cons b as)
  then have "delete_nodes as (h(b := None)) = Inr (\<lambda>a. if a \<in> set as then None else (h(b := None)) a)"
    by (intro Cons.IH) auto
  with Cons.prems show ?case by (auto simp: fun_eq_iff)
qed simp

lemma distinct_from_earlier_distinct: "distinct_from_earlier h as \<Longrightarrow> distinct as"
  by (induction as) (auto simp: distinct_from_earlier_def UaNodeId_eq_def)

lemma distinct_chosen: "distinct_from_earlier h (chosen h as) \<Longrightarrow> \<forall>a\<in>set as. requested (id_at h a) \<Longrightarrow> distinct as"
  using distinct_from_earlier_distinct [of h "chosen h as"] by (simp add: chosen_def filter_id_conv [THEN iffD2])

text \<open>C36 (safety). A manager that starts empty and to which any sequence of nodes is added, accepted or refused, none with the numeric
  identifier 0: the list holds only nodes that were added, none twice, and never a property or the argument of a method. The destructor
  deletes every registered node exactly once and nothing else, so properties and method arguments are not freed with their manager.\<close>

theorem destructor_frees_registered:
  assumes "mem_ok al" "rejects_known api ids" "address_space_ok ids st" "m_listNodes st = []" "list_all (request_ok (nodes st)) reqs"
    and "list_all (\<lambda>(parent, to, ty). nid_identifier (id_at (nodes st) to) \<noteq> IdNumeric 0) reqs"
    and "add_all api lc al now reqs st = Inr (codes, st')"
  shows "distinct (m_listNodes st') \<and> set (m_listNodes st') \<subseteq> (\<lambda>(parent, to, ty). to) ` set reqs
    \<and> (\<forall>a n. nodes st' a = Some n \<and> never_registered n \<longrightarrow> a \<notin> set (m_listNodes st'))
    \<and> (\<exists>h. NodeManagerBase_destroy st' = Inr h \<and> (\<forall>a. h a = (if a \<in> set (m_listNodes st') then None else nodes st' a)))"
proof -
  let ?as = "m_listNodes st'"
  from add_all_ok [OF assms(1-3,5,7)] have ok: "address_space_ok ids st'"
    and obj: "\<And>a. map_option node_obj (nodes st' a) = map_option node_obj (nodes st a)"
    and as: "\<And>a. a \<in> set ?as \<Longrightarrow> a \<in> (\<lambda>r. fst (snd r)) ` set reqs \<and> \<not> never_registered (the (nodes st a))"
    using assms(4) by auto
  have "requested (id_at (nodes st') a)" if a: "a \<in> set ?as" for a
  proof -
    have "requested (id_at (nodes st) a)" using as [OF a] assms(6) by (auto simp: list_all_iff requested_def)
    then show ?thesis using id_at_frame [of "nodes st'" a "nodes st", OF obj] by simp
  qed
  then have d: "distinct ?as" using ok distinct_chosen by (auto simp: address_space_ok_def)
  have "a \<notin> set ?as" if n: "nodes st' a = Some n" "never_registered n" for a n
  proof
    assume a: "a \<in> set ?as"
    from obj [of a] n(1) have "map_option node_obj (nodes st a) = Some (node_obj n)" by simp
    then obtain m where m: "nodes st a = Some m" "node_obj m = node_obj n" by (auto simp: map_option_eq_Some)
    then show False using as [OF a] n(2) by (simp add: never_registered_def)
  qed
  moreover have "\<exists>h. NodeManagerBase_destroy st' = Inr h \<and> (\<forall>a. h a = (if a \<in> set ?as then None else nodes st' a))"
    using d ok delete_nodes_ok [of "rev ?as" "nodes st'"] by (auto simp: address_space_ok_def NodeManagerBase_destroy_def)
  moreover have "set ?as \<subseteq> (\<lambda>(parent, to, ty). to) ` set reqs" using as by (force simp: case_prod_beta)
  ultimately show ?thesis using d by blast
qed

theorem destructor_frees_registered_witness:
  "\<exists>st' h. add_all list_api (show_base 10) enough_memory 0 example_requests example_manager = Inr ([OpcUa_Good, OpcUa_BadNodeIdExists, OpcUa_Good], st')
    \<and> m_listNodes st' = [16] \<and> NodeManagerBase_destroy st' = Inr h \<and> h 16 = None \<and> h 24 \<noteq> None \<and> h 32 \<noteq> None"
proof -
  from example_run obtain st' where st': "add_all list_api (show_base 10) enough_memory 0 example_requests example_manager
      = Inr ([OpcUa_Good, OpcUa_BadNodeIdExists, OpcUa_Good], st')" "m_listNodes st' = [16]" by blast
  have reqs: "list_all (request_ok (nodes example_manager)) example_requests" using example_requests_ok by simp
  have ids: "list_all (\<lambda>(parent, to, ty). nid_identifier (id_at (nodes example_manager) to) \<noteq> IdNumeric 0) example_requests"
    by (simp add: example_requests_def id_at_def example_nodes example_object_def example_arguments_def UaNode_new_def member_nodeId_def
        UA_NODEID_NUMERIC_def)
  from destructor_frees_registered [OF mem_ok_enough list_api_rejects example_manager_ok example_nodes(6) reqs ids st'(1)] st'(2) obtain h
    where h: "NodeManagerBase_destroy st' = Inr h" "\<forall>a. h a = (if a \<in> {16} then None else nodes st' a)" by auto
  have "map_option node_obj (nodes st' a) = map_option node_obj (nodes example_manager a)" for a
    using add_all_ok [OF mem_ok_enough list_api_rejects example_manager_ok reqs st'(1)] by blast
  then have "nodes st' 24 \<noteq> None" "nodes st' 32 \<noteq> None" using example_nodes by (metis map_option_is_None option.distinct(1))+
  then show ?thesis using h st' by auto
qed

text \<open>A node with the null identifier is accepted as often as it is added: it is deleted as often, too.\<close>

lemma null_identifier_deleted_twice:
  "\<exists>st'. add_all list_api (show_base 10) enough_memory 0 [(8, 40, UaNodeId_numeric 47 0), (8, 40, UaNodeId_numeric 47 0)] example_manager
      = Inr ([OpcUa_Good, OpcUa_Good], st') \<and> NodeManagerBase_destroy st' = Inl (UB UseAfterFree)"
  by (simp add: example_eval NodeManagerBase_destroy_def)

text \<open>A method whose HasProperty target is not a list of arguments is a null pointer dereference.\<close>

lemma addMethod_null_argument:
  assumes "mem_ok al" "wf_heap h" "h a = Some n" "\<And>p. node_obj n \<noteq> MethodArgument p"
    and "UaNodeId_eq (rt_referenceTypeId t) (UaNodeId_numeric 46 0)" "rt_target t = a"
  shows "collect_arguments al h (t # ts) args = Inl (UB NullDeref)"
  using assms by (cases "node_obj n") (auto simp: deref_node_ok)

text \<open>A manager that was not linked to a server passes a null pointer to the stack.\<close>

lemma add_without_server: "m_server st = None \<Longrightarrow> call_stack f st = Inl (UB NullDeref)"
  by (simp add: call_stack_def)

text \<open>A data type with a string identifier is read after it was freed.\<close>

lemma string_data_type_dangles:
  "nid_identifier n = IdString s \<Longrightarrow> bs_data s = Heap xs \<Longrightarrow> after_temporary n = Inl (UB UseAfterFree)"
  by (simp add: after_temporary_def)

end
