(* ===== verification/UaSessions.thy ===== *)
theory UaSessions
  imports UaNodes
begin

text \<open>
  The client session (\<open>include/uaclient/uasession.h\<close>, \<open>src/uaclient/uasession.cpp\<close>) and the structures it
  exchanges with the application (\<open>include/stack_fake_structures.h\<close>). The stack's client is third-party code:
  a record of functions on the state \<open>'c\<close> of clients and network. Every operation but \<open>browse\<close> holds the session's
  mutex throughout and is one step; the build without \<open>OPCUA_2603\<close> is modelled.
\<close>

subsection \<open>Structures\<close>

record ReadValueId =
  rv_NodeId :: UaNodeId
  rv_AttributeId :: "32 word"

definition ReadValueId_new :: ReadValueId where
  "ReadValueId_new = \<lparr>rv_NodeId = UaNodeId_numeric 0 0, rv_AttributeId = 13\<rparr>"

record DataValue =
  fd_StatusCode :: UaStatus
  fd_Value :: UaVariant
  fd_SourceTimestamp :: UaDateTime
  fd_ServerTimestamp :: UaDateTime

definition DataValue_new :: DataValue where
  "DataValue_new = \<lparr>fd_StatusCode = UaStatus_default, fd_Value = Live UA_Variant_init,
     fd_SourceTimestamp = UaDateTime_new, fd_ServerTimestamp = UaDateTime_new\<rparr>"

record WriteValue =
  wv_NodeId :: UaNodeId
  wv_AttributeId :: "32 word"
  wv_Value :: DataValue

definition WriteValue_new :: WriteValue where
  "WriteValue_new = \<lparr>wv_NodeId = UaNodeId_numeric 0 0, wv_AttributeId = 13, wv_Value = DataValue_new\<rparr>"

record ReferenceDescription =
  rd_ReferenceTypeId :: UaNodeId
  rd_IsForward :: bool
  rd_NodeId :: UaExpandedNodeId
  rd_BrowseName :: UaString
  rd_NodeClass :: OpcUa_NodeClass
  rd_TypeDefinition :: UaExpandedNodeId

record SessionConnectInfo =
  internalServiceCallTimeout :: "32 word"
  nSecureChannelLifetime :: "32 word"
  nSessionTimeout :: int

text \<open>Five seconds per call, an hour for channel and session, in milliseconds.\<close>

definition SessionConnectInfo_new :: SessionConnectInfo where
  "SessionConnectInfo_new = \<lparr>internalServiceCallTimeout = 5000, nSecureChannelLifetime = 60 * 60 * 1000,
     nSessionTimeout = 60 * 60 * 1000\<rparr>"

record CallIn =
  ci_objectId :: UaNodeId
  ci_methodId :: UaNodeId
  ci_inputArguments :: "UA_Variant list"

record CallOut =
  co_callResult :: UaStatus
  co_inputArgumentResults :: "UA_StatusCode list"
  co_outputArguments :: "UaVariant list"

datatype ServerStatus = Disconnected | Connected | ConnectionWarningWatchdogTimeout
  | ConnectionErrorApiReconnect | ServerShutdown | NewSessionCreated

subsection \<open>The stack's client\<close>

record UA_ReadValueId =
  uv_nodeId :: UA_NodeId
  uv_attributeId :: "32 word"

record UA_ReadRequest =
  rq_maxAge :: int
  rq_timestampsToReturn :: int
  rq_nodesToRead :: "UA_ReadValueId list"

record 'r UA_Response =
  serviceResult :: UA_StatusCode
  resultsSize :: nat
  resultsArray :: "'r ptr"

record UA_WriteValue =
  uw_nodeId :: UA_NodeId
  uw_attributeId :: "32 word"
  uw_value :: UA_DataValue

record UA_CallMethodRequest =
  cm_objectId :: UA_NodeId
  cm_methodId :: UA_NodeId
  cm_inputArguments :: "UA_Variant list"

record UA_CallMethodResult =
  cr_statusCode :: UA_StatusCode
  cr_outputArgumentsSize :: nat
  cr_outputArguments :: "UA_Variant ptr"

record UA_ExpandedNodeId =
  en_nodeId :: UA_NodeId
  en_namespaceUri :: UA_String
  en_serverIndex :: "32 word"

record UA_ReferenceDescription =
  ur_referenceTypeId :: UA_NodeId
  ur_isForward :: bool
  ur_nodeId :: UA_ExpandedNodeId
  ur_browseName :: UA_String
  ur_nodeClass :: int
  ur_typeDefinition :: UA_ExpandedNodeId

record UA_BrowseResult =
  ub_referencesSize :: nat
  ub_references :: "UA_ReferenceDescription ptr"

record UA_ClientConfig =
  cc_timeout :: "32 word"
  cc_secureChannelLifeTime :: "32 word"
  cc_requestedSessionTimeout :: int
  cc_connectivityCheckInterval :: "32 word"

text \<open>Clients are addresses, 0 is null. \<open>getState\<close> says whether the session is activated, and the connect status.\<close>

record 'c client_api =
  UA_Client_new :: "'c \<Rightarrow> nat \<times> 'c"
  UA_Client_configure :: "nat \<Rightarrow> UA_ClientConfig \<Rightarrow> 'c \<Rightarrow> 'c"
  UA_Client_connect :: "nat \<Rightarrow> string \<Rightarrow> 'c \<Rightarrow> UA_StatusCode \<times> 'c"
  UA_Client_disconnect :: "nat \<Rightarrow> 'c \<Rightarrow> UA_StatusCode \<times> 'c"
  UA_Client_delete :: "nat \<Rightarrow> 'c \<Rightarrow> 'c"
  UA_Client_getState :: "nat \<Rightarrow> 'c \<Rightarrow> bool \<times> UA_StatusCode"
  UA_Client_Service_read :: "nat \<Rightarrow> UA_ReadRequest \<Rightarrow> 'c \<Rightarrow> UA_DataValue UA_Response \<times> 'c"
  UA_Client_Service_write :: "nat \<Rightarrow> UA_WriteValue list \<Rightarrow> 'c \<Rightarrow> UA_StatusCode UA_Response \<times> 'c"
  UA_Client_Service_call :: "nat \<Rightarrow> UA_CallMethodRequest \<Rightarrow> 'c \<Rightarrow> UA_CallMethodResult UA_Response \<times> 'c"
  UA_Client_Service_browse :: "nat \<Rightarrow> UA_NodeId \<Rightarrow> 'c \<Rightarrow> UA_BrowseResult UA_Response \<times> 'c"

subsection \<open>Connecting and disconnecting\<close>

text \<open>What was done with clients, in order; the trace is the model's, the code does not keep it.\<close>

datatype client_call = New nat | Use nat | Delete nat

record 'c UaSession =
  m_client :: nat
  remote :: 'c
  client_trace :: "client_call list"

definition UaSession_new :: "'c \<Rightarrow> 'c UaSession" where
  "UaSession_new c = \<lparr>m_client = 0, remote = c, client_trace = []\<rparr>"

definition using_client :: "'c UaSession \<Rightarrow> 'c \<Rightarrow> 'c UaSession" where
  "using_client s c = s\<lparr>remote := c, client_trace := client_trace s @ [Use (m_client s)]\<rparr>"

definition delete_client :: "'c client_api \<Rightarrow> 'c UaSession \<Rightarrow> 'c UaSession" where
  "delete_client api s = s\<lparr>remote := UA_Client_delete api (m_client s) (remote s),
     client_trace := client_trace s @ [Delete (m_client s)], m_client := 0\<rparr>"

definition UaSession_connect :: "'c client_api \<Rightarrow> UaString \<Rightarrow> SessionConnectInfo \<Rightarrow> ('c UaSession, UA_StatusCode) op" where
  "UaSession_connect api endpoint connectInfo s =
     (if m_client s \<noteq> 0 then (Inr OpcUa_Bad, s)
      else case UA_Client_new api (remote s) of (c, r1) \<Rightarrow>
        if c = 0 then (Inl (Throw AllocError), s\<lparr>remote := r1\<rparr>)
        else
          (let s1 = s\<lparr>m_client := c, remote := r1, client_trace := client_trace s @ [New c]\<rparr>;
               s2 = using_client s1 (UA_Client_configure api c
                 \<lparr>cc_timeout = internalServiceCallTimeout connectInfo,
                  cc_secureChannelLifeTime = nSecureChannelLifetime connectInfo,
                  cc_requestedSessionTimeout = nSessionTimeout connectInfo,
                  cc_connectivityCheckInterval = 2000\<rparr> (remote s1))
           in case UaString_toUtf8 endpoint of
                Inl e \<Rightarrow> (Inl e, s2)
              | Inr url \<Rightarrow> (case UA_Client_connect api c url (remote s2) of (status, r3) \<Rightarrow>
                  (let s3 = using_client s2 r3
                   in if \<not> isGood (UaStatus_of status) then (Inr status, delete_client api s3)
                      else (Inr OpcUa_Good, s3)))))"

definition UaSession_serverStatus :: "'c client_api \<Rightarrow> 'c UaSession \<Rightarrow> ServerStatus" where
  "UaSession_serverStatus api s =
     (if m_client s = 0 then Disconnected
      else case UA_Client_getState api (m_client s) (remote s) of (activated, connectStatus) \<Rightarrow>
        if connectStatus \<noteq> OpcUa_Good then ConnectionErrorApiReconnect
        else if activated then Connected else Disconnected)"

definition UaSession_disconnect :: "'c client_api \<Rightarrow> ('c UaSession, UA_StatusCode) op" where
  "UaSession_disconnect api s =
     (if m_client s = 0 then (Inr OpcUa_BadInvalidState, s)
      else case UA_Client_disconnect api (m_client s) (remote s) of (status, r) \<Rightarrow>
        (Inr status, delete_client api (using_client s r)))"

definition UaSession_destroy :: "'c client_api \<Rightarrow> 'c UaSession \<Rightarrow> 'c UaSession" where
  "UaSession_destroy api s = (if m_client s \<noteq> 0 then snd (UaSession_disconnect api s) else s)"

text \<open>A service call passes the client pointer on without a check.\<close>

definition call_service :: "(nat \<Rightarrow> 'q \<Rightarrow> 'c \<Rightarrow> 'r \<times> 'c) \<Rightarrow> 'q \<Rightarrow> ('c UaSession, 'r) op" where
  "call_service f request s =
     (if m_client s = 0 then (Inl (UB NullDeref), s)
      else case f (m_client s) request (remote s) of (response, r) \<Rightarrow> (Inr response, using_client s r))"

subsection \<open>Reading\<close>

definition UA_ReadValueId_init :: UA_ReadValueId where
  "UA_ReadValueId_init = \<lparr>uv_nodeId = UA_NodeId_null, uv_attributeId = 0\<rparr>"

definition copy_nodeId :: "allocator \<Rightarrow> UaNodeId \<Rightarrow> UA_NodeId res" where
  "copy_nodeId al i = (case UaNodeId_copyToStack al i (Some UA_NodeId_null) of
     (Inl e, _) \<Rightarrow> Inl e | (Inr _, None) \<Rightarrow> Inl (UB NullDeref) | (Inr _, Some j) \<Rightarrow> Inr j)"

fun read_requests :: "allocator \<Rightarrow> ReadValueId list \<Rightarrow> UA_ReadValueId list res" where
  "read_requests al [] = Inr []"
| "read_requests al (x # xs) = bind_res (copy_nodeId al (rv_NodeId x)) (\<lambda>i. bind_res (read_requests al xs) (\<lambda>ys.
     Inr (\<lparr>uv_nodeId = i, uv_attributeId = rv_AttributeId x\<rparr> # ys)))"

definition build_read :: "allocator \<Rightarrow> int \<Rightarrow> int \<Rightarrow> ReadValueId list \<Rightarrow> UA_ReadRequest res" where
  "build_read al maxAge timeStamps nodesToRead =
     bind_res (ManagedUaArray_new al 72 UA_ReadValueId_init (length nodesToRead)) (\<lambda>_.
     bind_res (read_requests al nodesToRead) (\<lambda>ns.
       Inr \<lparr>rq_maxAge = maxAge, rq_timestampsToReturn = timeStamps, rq_nodesToRead = ns\<rparr>))"

text \<open>A member variant is assigned from the stack's, through a temporary.\<close>

definition assign_variant :: "allocator \<Rightarrow> UA_Variant \<Rightarrow> UaVariant \<Rightarrow> UaVariant res" where
  "assign_variant al v target = bind_res (UaVariant_fromStack al v) (\<lambda>t.
     case UaVariant_assign al (Some t) target of (Inl e, _) \<Rightarrow> Inl e | (Inr _, w) \<Rightarrow> Inr w)"

text \<open>One element of the results: a status that was not transmitted is Good.\<close>

definition to_DataValue :: "allocator \<Rightarrow> UA_DataValue \<Rightarrow> DataValue res" where
  "to_DataValue al r =
     bind_res (if dv_hasValue r then assign_variant al (dv_value r) (fd_Value DataValue_new) else Inr (fd_Value DataValue_new)) (\<lambda>v.
       Inr \<lparr>fd_StatusCode = (if dv_hasStatus r then UaStatus_of (dv_status r) else UaStatus_of OpcUa_Good),
            fd_Value = v,
            fd_SourceTimestamp = (if dv_hasSourceTimestamp r then UaDateTime_of (dv_sourceTimestamp r) else fd_SourceTimestamp DataValue_new),
            fd_ServerTimestamp = (if dv_hasServerTimestamp r then UaDateTime_of (dv_serverTimestamp r) else fd_ServerTimestamp DataValue_new)\<rparr>)"

fun to_DataValues :: "allocator \<Rightarrow> UA_DataValue list \<Rightarrow> DataValue list res" where
  "to_DataValues al [] = Inr []"
| "to_DataValues al (r # rs) = bind_res (to_DataValue al r) (\<lambda>v. bind_res (to_DataValues al rs) (\<lambda>vs. Inr (v # vs)))"

text \<open>The answer is the status and the array \<open>values\<close>.\<close>

definition convert_read :: "allocator \<Rightarrow> nat \<Rightarrow> UA_DataValue UA_Response \<Rightarrow> (UA_StatusCode \<times> DataValue list) res" where
  "convert_read al n response =
     (if isGood (UaStatus_of (serviceResult response)) then
        if resultsSize response \<noteq> n then Inr (OpcUa_Bad, [])
        else bind_res (read_range (resultsArray response) n) (\<lambda>rs. bind_res (to_DataValues al rs) (\<lambda>vs.
               Inr (serviceResult response, vs)))
      else Inr (serviceResult response, []))"

definition UaSession_read :: "'c client_api \<Rightarrow> allocator \<Rightarrow> int \<Rightarrow> int \<Rightarrow> ReadValueId list
    \<Rightarrow> ('c UaSession, UA_StatusCode \<times> DataValue list) op" where
  "UaSession_read api al maxAge timeStamps nodesToRead s = (case build_read al maxAge timeStamps nodesToRead of
      Inl e \<Rightarrow> (Inl e, s)
    | Inr request \<Rightarrow> (case call_service (UA_Client_Service_read api) request s of
        (Inl e, s') \<Rightarrow> (Inl e, s')
      | (Inr response, s') \<Rightarrow> (convert_read al (length nodesToRead) response, s')))"

subsection \<open>Writing\<close>

definition UA_WriteValue_init :: UA_WriteValue where
  "UA_WriteValue_init = \<lparr>uw_nodeId = UA_NodeId_null, uw_attributeId = 0, uw_value = UA_DataValue_init\<rparr>"

text \<open>Only the value is sent, not status or timestamps; the status of its copy is ignored.\<close>

definition write_request :: "allocator \<Rightarrow> WriteValue \<Rightarrow> UA_WriteValue res" where
  "write_request al x = bind_res (copy_nodeId al (wv_NodeId x)) (\<lambda>i. case fd_Value (wv_Value x) of
       Freed \<Rightarrow> Inl (UB UseAfterFree)
     | Live w \<Rightarrow> (case UaVariant_copyToStack al w UA_Variant_init of
         (Inl e, _) \<Rightarrow> Inl e
       | (Inr _, v) \<Rightarrow> Inr \<lparr>uw_nodeId = i, uw_attributeId = wv_AttributeId x,
           uw_value = UA_DataValue_init\<lparr>dv_value := v, dv_hasValue := True\<rparr>\<rparr>))"

fun write_requests :: "allocator \<Rightarrow> WriteValue list \<Rightarrow> UA_WriteValue list res" where
  "write_requests al [] = Inr []"
| "write_requests al (x # xs) = bind_res (write_request al x) (\<lambda>y. bind_res (write_requests al xs) (\<lambda>ys. Inr (y # ys)))"

definition convert_write :: "nat \<Rightarrow> UA_StatusCode UA_Response \<Rightarrow> (UA_StatusCode \<times> UA_StatusCode list) res" where
  "convert_write n response =
     (if isGood (UaStatus_of (serviceResult response)) then
        if resultsSize response \<noteq> n then Inr (OpcUa_Bad, [])
        else bind_res (read_range (resultsArray response) (resultsSize response)) (\<lambda>rs. Inr (serviceResult response, rs))
      else Inr (serviceResult response, []))"

definition UaSession_write :: "'c client_api \<Rightarrow> allocator \<Rightarrow> WriteValue list
    \<Rightarrow> ('c UaSession, UA_StatusCode \<times> UA_StatusCode list) op" where
  "UaSession_write api al nodesToWrite s =
     (case bind_res (ManagedUaArray_new al 128 UA_WriteValue_init (length nodesToWrite)) (\<lambda>_. write_requests al nodesToWrite) of
        Inl e \<Rightarrow> (Inl e, s)
      | Inr request \<Rightarrow> (case call_service (UA_Client_Service_write api) request s of
          (Inl e, s') \<Rightarrow> (Inl e, s')
        | (Inr response, s') \<Rightarrow> (convert_write (length nodesToWrite) response, s')))"

subsection \<open>Calling\<close>

text \<open>All arguments are copied before the failure of any is reported.\<close>

fun copy_arguments :: "allocator \<Rightarrow> UA_Variant list \<Rightarrow> (UA_Variant list \<times> bool) res" where
  "copy_arguments al [] = Inr ([], False)"
| "copy_arguments al (v # vs) = bind_res (UA_Variant_copy al v) (\<lambda>(status, w).
     bind_res (copy_arguments al vs) (\<lambda>(ws, failed). Inr (w # ws, \<not> isGood (UaStatus_of status) \<or> failed)))"

definition build_call :: "allocator \<Rightarrow> CallIn \<Rightarrow> UA_CallMethodRequest res" where
  "build_call al callIn =
     bind_res (ManagedUaArray_new al 48 UA_Variant_init (length (ci_inputArguments callIn))) (\<lambda>_.
     bind_res (copy_arguments al (ci_inputArguments callIn)) (\<lambda>(args, anyArgumentFailed).
       if anyArgumentFailed
       then Inl (Throw (RuntimeError ''Failed to copy arguments through UA_Variant_copy, potentially memory issue.''))
       else Inr \<lparr>cm_objectId = ci_objectId callIn, cm_methodId = ci_methodId callIn, cm_inputArguments = args\<rparr>))"

fun to_outputs :: "allocator \<Rightarrow> UA_Variant list \<Rightarrow> UaVariant list res" where
  "to_outputs al [] = Inr []"
| "to_outputs al (v # vs) = bind_res (assign_variant al v (Live UA_Variant_init)) (\<lambda>w. bind_res (to_outputs al vs) (\<lambda>ws. Inr (w # ws)))"

text \<open>A bad service result leaves \<open>callOut\<close> as it was; an exception leaves its arrays empty.\<close>

definition convert_call :: "allocator \<Rightarrow> CallOut \<Rightarrow> UA_CallMethodResult UA_Response \<Rightarrow> (UA_StatusCode \<times> CallOut) res" where
  "convert_call al callOut response =
     (if \<not> isGood (UaStatus_of (serviceResult response)) then Inr (serviceResult response, callOut)
      else if resultsSize response \<noteq> 1
      then Inl (Throw (LogicError ''One method called so expected one call response, but instead got: ''))
      else bind_res (deref (resultsArray response) 0) (\<lambda>result.
        bind_res (read_range (cr_outputArguments result) (cr_outputArgumentsSize result)) (\<lambda>vs.
        bind_res (to_outputs al vs) (\<lambda>outs.
          Inr (cr_statusCode result, \<lparr>co_callResult = UaStatus_of (cr_statusCode result),
            co_inputArgumentResults = [], co_outputArguments = outs\<rparr>)))))"

definition UaSession_call :: "'c client_api \<Rightarrow> allocator \<Rightarrow> CallIn \<Rightarrow> CallOut \<Rightarrow> ('c UaSession, UA_StatusCode \<times> CallOut) op" where
  "UaSession_call api al callIn callOut s = (case build_call al callIn of
      Inl e \<Rightarrow> (Inl e, s)
    | Inr request \<Rightarrow> (case call_service (UA_Client_Service_call api) request s of
        (Inl e, s') \<Rightarrow> (Inl e, s')
      | (Inr response, s') \<Rightarrow> (convert_call al callOut response, s')))"

subsection \<open>Browsing\<close>

text \<open>One reference, member by member; an unknown node class throws.\<close>

definition to_expanded :: "allocator \<Rightarrow> UA_ExpandedNodeId \<Rightarrow> UaExpandedNodeId res" where
  "to_expanded al e = bind_res (UaNodeId_fromStack al (en_nodeId e)) (\<lambda>i. bind_res (UaString_fromStack al (en_namespaceUri e)) (\<lambda>u.
     UaExpandedNodeId_of al i u (en_serverIndex e)))"

definition to_ReferenceDescription :: "allocator \<Rightarrow> UA_ReferenceDescription \<Rightarrow> ReferenceDescription res" where
  "to_ReferenceDescription al rd =
     bind_res (UaNodeId_fromStack al (ur_referenceTypeId rd)) (\<lambda>t.
     case UaNodeId_assign al (Some t) UaNodeId_default of (Inl e, _) \<Rightarrow> Inl e | (Inr _, referenceTypeId) \<Rightarrow>
     bind_res (to_expanded al (ur_nodeId rd)) (\<lambda>nodeId.
     case UaString_assign_impl al (Some (ur_browseName rd)) (Live UA_STRING_NULL) of (Inl e, _) \<Rightarrow> Inl e | (Inr _, browseName) \<Rightarrow>
     bind_res (safeConvertNodeClassToSdk (ur_nodeClass rd)) (\<lambda>nodeClass.
     bind_res (to_expanded al (ur_typeDefinition rd)) (\<lambda>typeDefinition.
       Inr \<lparr>rd_ReferenceTypeId = referenceTypeId, rd_IsForward = ur_isForward rd, rd_NodeId = nodeId,
            rd_BrowseName = browseName, rd_NodeClass = nodeClass, rd_TypeDefinition = typeDefinition\<rparr>))))"

fun to_ReferenceDescriptions :: "allocator \<Rightarrow> UA_ReferenceDescription list \<Rightarrow> ReferenceDescription list res" where
  "to_ReferenceDescriptions al [] = Inr []"
| "to_ReferenceDescriptions al (r # rs) = bind_res (to_ReferenceDescription al r) (\<lambda>x.
     bind_res (to_ReferenceDescriptions al rs) (\<lambda>xs. Inr (x # xs)))"

text \<open>On a bad result the error is logged, with the node's identifier as text.\<close>

definition convert_browse :: "(nat \<Rightarrow> string) \<Rightarrow> allocator \<Rightarrow> UaNodeId \<Rightarrow> UA_BrowseResult UA_Response
    \<Rightarrow> (UA_StatusCode \<times> ReferenceDescription list) res" where
  "convert_browse lc al nodeToBrowse response =
     (if isGood (UaStatus_of (serviceResult response)) then
        if resultsSize response = 1 then
          bind_res (deref (resultsArray response) 0) (\<lambda>br.
          bind_res (read_range (ub_references br) (ub_referencesSize br)) (\<lambda>rs.
          bind_res (to_ReferenceDescriptions al rs) (\<lambda>xs. Inr (serviceResult response, xs))))
        else Inr (OpcUa_BadUnknownResponse, [])
      else bind_res (UaNodeId_toString lc al nodeToBrowse) (\<lambda>_. Inr (serviceResult response, [])))"

definition UaSession_browse :: "'c client_api \<Rightarrow> (nat \<Rightarrow> string) \<Rightarrow> allocator \<Rightarrow> UaNodeId
    \<Rightarrow> ('c UaSession, UA_StatusCode \<times> ReferenceDescription list) op" where
  "UaSession_browse api lc al nodeToBrowse s =
     (if \<not> can_alloc al 72 then (Inl (UB NullDeref), s)
      else case copy_nodeId al nodeToBrowse of
        Inl e \<Rightarrow> (Inl e, s)
      | Inr i \<Rightarrow> (case call_service (UA_Client_Service_browse api) i s of
          (Inl e, s') \<Rightarrow> (Inl e, s')
        | (Inr response, s') \<Rightarrow> (convert_browse lc al nodeToBrowse response, s')))"

end
