(* ===== verification/UaSessionProps.thy ===== *)
theory UaSessionProps
  imports UaSessions
begin

text \<open>
  The life cycle of the client behind a session, and what the services deliver to the application.
\<close>

subsection \<open>The client's life cycle\<close>

text \<open>The client alive after a trace (0: none); a use or deletion of another, or a second creation, is an error.\<close>

fun live_after :: "nat \<Rightarrow> client_call list \<Rightarrow> nat option" where
  "live_after l [] = Some l"
| "live_after l (New c # t) = (if l = 0 \<and> c \<noteq> 0 then live_after c t else None)"
| "live_after l (Use c # t) = (if l = c \<and> c \<noteq> 0 then live_after l t else None)"
| "live_after l (Delete c # t) = (if l = c \<and> c \<noteq> 0 then live_after 0 t else None)"

lemma live_after_append: "live_after l (t @ u) = (case live_after l t of None \<Rightarrow> None | Some m \<Rightarrow> live_after m u)"
  by (induction l t rule: live_after.induct) simp_all

definition client_ok :: "'c UaSession \<Rightarrow> bool" where
  "client_ok s \<longleftrightarrow> live_after 0 (client_trace s) = Some (m_client s)"

lemma using_client_ok: "client_ok s \<Longrightarrow> m_client s \<noteq> 0 \<Longrightarrow> client_ok (using_client s r)"
  by (simp add: client_ok_def using_client_def live_after_append)

lemma delete_client_ok: "client_ok s \<Longrightarrow> m_client s \<noteq> 0 \<Longrightarrow> client_ok (delete_client api s) \<and> m_client (delete_client api s) = 0"
  by (simp add: client_ok_def delete_client_def live_after_append)

lemma using_client_m [simp]: "m_client (using_client s r) = m_client s"
  by (simp add: using_client_def)

lemma call_service_ok: "client_ok s \<Longrightarrow> client_ok (snd (call_service f q s))"
  by (auto simp: call_service_def using_client_ok split: prod.split)

lemma connect_ok: "client_ok s \<Longrightarrow> client_ok (snd (UaSession_connect api endpoint info s))"
proof -
  assume ok: "client_ok s"
  obtain c r1 where new: "UA_Client_new api (remote s) = (c, r1)" by fastforce
  let ?s1 = "s\<lparr>m_client := c, remote := r1, client_trace := client_trace s @ [New c]\<rparr>"
  show ?thesis
  proof (cases "m_client s = 0 \<and> c \<noteq> 0")
    case True
    with ok have s1: "client_ok ?s1" "m_client ?s1 \<noteq> 0" by (simp_all add: client_ok_def live_after_append)
    have u: "client_ok (using_client ?s1 x)" "client_ok (using_client (using_client ?s1 x) y)"
      "client_ok (delete_client api (using_client (using_client ?s1 x) y))" for x y
      using using_client_ok [OF s1] using_client_ok [of "using_client ?s1 x"] delete_client_ok [of "using_client (using_client ?s1 x) y"]
        s1(2) by (simp_all add: using_client_ok)
    with True new show ?thesis by (simp add: UaSession_connect_def Let_def split: sum.split prod.split)
  next
    case False
    with ok new show ?thesis by (auto simp: UaSession_connect_def client_ok_def)
  qed
qed

lemma disconnect_ok: "client_ok s \<Longrightarrow> client_ok (snd (UaSession_disconnect api s)) \<and> m_client (snd (UaSession_disconnect api s)) = 0"
  by (auto simp: UaSession_disconnect_def delete_client_ok using_client_ok split: prod.split)

datatype session_event =
    Connect UaString SessionConnectInfo
  | Disconnect
  | Read int int "ReadValueId list"
  | Write "WriteValue list"
  | Call CallIn CallOut
  | Browse UaNodeId

definition session_step :: "'c client_api \<Rightarrow> (nat \<Rightarrow> string) \<Rightarrow> allocator \<Rightarrow> session_event \<Rightarrow> 'c UaSession \<Rightarrow> 'c UaSession" where
  "session_step api lc al e s = (case e of
      Connect url info \<Rightarrow> snd (UaSession_connect api url info s)
    | Disconnect \<Rightarrow> snd (UaSession_disconnect api s)
    | Read maxAge ts ns \<Rightarrow> snd (UaSession_read api al maxAge ts ns s)
    | Write ns \<Rightarrow> snd (UaSession_write api al ns s)
    | Call callIn callOut \<Rightarrow> snd (UaSession_call api al callIn callOut s)
    | Browse n \<Rightarrow> snd (UaSession_browse api lc al n s))"

definition session_run :: "'c client_api \<Rightarrow> (nat \<Rightarrow> string) \<Rightarrow> allocator \<Rightarrow> session_event list \<Rightarrow> 'c UaSession \<Rightarrow> 'c UaSession" where
  "session_run api lc al es s = fold (session_step api lc al) es s"

text \<open>A service leaves the session as it was or as the call of the service left it.\<close>

lemma service_states:
  "snd (UaSession_read api al m t ns s) = s \<or> (\<exists>q. snd (UaSession_read api al m t ns s) = snd (call_service (UA_Client_Service_read api) q s))"
  "snd (UaSession_write api al ws s) = s \<or> (\<exists>q. snd (UaSession_write api al ws s) = snd (call_service (UA_Client_Service_write api) q s))"
  "snd (UaSession_call api al ci co s) = s \<or> (\<exists>q. snd (UaSession_call api al ci co s) = snd (call_service (UA_Client_Service_call api) q s))"
  "snd (UaSession_browse api lc al n s) = s \<or> (\<exists>q. snd (UaSession_browse api lc al n s) = snd (call_service (UA_Client_Service_browse api) q s))"
  unfolding UaSession_read_def UaSession_write_def UaSession_call_def UaSession_browse_def
  by (auto split: sum.split prod.split) (metis snd_conv)+

lemma services_ok:
  assumes "client_ok s"
  shows "client_ok (snd (UaSession_read api al m t ns s))" "client_ok (snd (UaSession_write api al ws s))"
    "client_ok (snd (UaSession_call api al ci co s))" "client_ok (snd (UaSession_browse api lc al n s))"
  using service_states(1) [of api al m t ns s] service_states(2) [of api al ws s]
    service_states(3) [of api al ci co s] service_states(4) [of api lc al n s]
  by (elim disjE exE; simp only: assms call_service_ok [OF assms])+

lemma session_step_ok: "client_ok s \<Longrightarrow> client_ok (session_step api lc al e s)"
  by (cases e) (simp_all add: session_step_def connect_ok disconnect_ok services_ok)

lemma session_run_ok: "client_ok s \<Longrightarrow> client_ok (session_run api lc al es s)"
  unfolding session_run_def by (induction es arbitrary: s) (simp_all add: session_step_ok)

text \<open>Whatever operations are called on a session, in whatever order and with whatever outcome, the
  session owns at most one client: a client is created only when there is none, used only between its
  creation and its deletion, and deleted at most once; the pointer is non-null exactly while it lives. After
  the destructor none is left.\<close>

theorem session_client_lifecycle:
  "live_after 0 (client_trace (session_run api lc al es (UaSession_new c)))
      = Some (m_client (session_run api lc al es (UaSession_new c)))
   \<and> live_after 0 (client_trace (UaSession_destroy api (session_run api lc al es (UaSession_new c)))) = Some 0"
proof -
  have ok: "client_ok (session_run api lc al es (UaSession_new c))"
    by (rule session_run_ok) (simp add: client_ok_def UaSession_new_def)
  then show ?thesis
    using disconnect_ok [OF ok, of api] by (auto simp: client_ok_def UaSession_destroy_def)
qed

subsection \<open>What the services deliver\<close>

lemma call_service_connected:
  "m_client s \<noteq> 0 \<Longrightarrow> f (m_client s) q (remote s) = (response, r) \<Longrightarrow> call_service f q s = (Inr response, using_client s r)"
  by (simp add: call_service_def)

lemma copy_nodeId_ok: "mem_ok al \<Longrightarrow> wf_nodeid i \<Longrightarrow> copy_nodeId al i = Inr i"
  by (simp add: copy_nodeId_def UaNodeId_copyToStack_def NodeId_copy_ok)

lemma managed_ok: "mem_ok al \<Longrightarrow> int n \<le> INT32_MAX \<Longrightarrow> \<exists>a. ManagedUaArray_new al m z n = Inr a"
  by (auto simp: ManagedUaArray_new_def UA_Array_new_def)

lemma read_range_wf: "wf_array p n \<Longrightarrow> read_range p n = Inr (ptr_elems p)"
  by (cases p) (auto simp: read_range_def)

lemma assign_variant_ok: "mem_ok al \<Longrightarrow> wf_variant v \<Longrightarrow> assign_variant al v (Live w) = Inr (Live v)"
  by (simp add: assign_variant_def UaVariant_fromStack_ok UaVariant_assign_ok)

text \<open>The data value the application sees for a result of the stack.\<close>

definition delivered :: "UA_DataValue \<Rightarrow> DataValue" where
  "delivered r = \<lparr>fd_StatusCode = UaStatus_of (if dv_hasStatus r then dv_status r else OpcUa_Good),
     fd_Value = Live (if dv_hasValue r then dv_value r else UA_Variant_init),
     fd_SourceTimestamp = (if dv_hasSourceTimestamp r then dv_sourceTimestamp r else 0),
     fd_ServerTimestamp = (if dv_hasServerTimestamp r then dv_serverTimestamp r else 0)\<rparr>"

lemma to_DataValue_ok: "mem_ok al \<Longrightarrow> wf_datavalue r \<Longrightarrow> to_DataValue al r = Inr (delivered r)"
  by (simp add: to_DataValue_def delivered_def wf_datavalue_def DataValue_new_def assign_variant_ok UaDateTime_of_def UaDateTime_new_def)

lemma to_DataValues_ok: "mem_ok al \<Longrightarrow> list_all wf_datavalue rs \<Longrightarrow> to_DataValues al rs = Inr (map delivered rs)"
  by (induction rs) (simp_all add: to_DataValue_ok)

definition requested_read :: "int \<Rightarrow> int \<Rightarrow> ReadValueId list \<Rightarrow> UA_ReadRequest" where
  "requested_read maxAge ts ns = \<lparr>rq_maxAge = maxAge, rq_timestampsToReturn = ts,
     rq_nodesToRead = map (\<lambda>x. \<lparr>uv_nodeId = rv_NodeId x, uv_attributeId = rv_AttributeId x\<rparr>) ns\<rparr>"

lemma build_read_ok:
  assumes "mem_ok al" "list_all (\<lambda>x. wf_nodeid (rv_NodeId x)) ns" "int (length ns) \<le> INT32_MAX"
  shows "build_read al maxAge ts ns = Inr (requested_read maxAge ts ns)"
proof -
  have "read_requests al ns = Inr (map (\<lambda>x. \<lparr>uv_nodeId = rv_NodeId x, uv_attributeId = rv_AttributeId x\<rparr>) ns)"
    using assms(1,2) by (induction ns) (simp_all add: copy_nodeId_ok)
  with managed_ok [OF assms(1,3), of 72 UA_ReadValueId_init] show ?thesis by (auto simp: build_read_def requested_read_def)
qed

text \<open>C33 (functional). \<open>read\<close> asks the server for exactly the given nodes and attributes, in order, and delivers its
  results in that order, a status that was not transmitted counting as Good. If the server returns another
  number of results the answer is Bad, if the service failed its status, and in both cases the array of
  values is empty. The application thus never sees a value attributed to the wrong node.\<close>

theorem session_read_delivers:
  assumes "mem_ok al" "list_all (\<lambda>x. wf_nodeid (rv_NodeId x)) ns" "int (length ns) \<le> INT32_MAX" "m_client s \<noteq> 0"
    and "UA_Client_Service_read api (m_client s) (requested_read maxAge ts ns) (remote s) = (response, r)"
    and "wf_array (resultsArray response) (resultsSize response)" "list_all wf_datavalue (ptr_elems (resultsArray response))"
  shows "UaSession_read api al maxAge ts ns s =
    (Inr (if serviceResult response \<noteq> OpcUa_Good then (serviceResult response, [])
          else if resultsSize response \<noteq> length ns then (OpcUa_Bad, [])
          else (OpcUa_Good, map delivered (ptr_elems (resultsArray response)))), using_client s r)"
  unfolding UaSession_read_def build_read_ok [OF assms(1-3)] sum.case call_service_connected [where f = "UA_Client_Service_read api", OF assms(4,5)]
  using read_range_wf [OF assms(6)] to_DataValues_ok [OF assms(1,7)]
  by (auto simp: convert_read_def isGood_def UaStatus_of_def)

lemma copy_arguments_ok: "mem_ok al \<Longrightarrow> list_all wf_variant vs \<Longrightarrow> copy_arguments al vs = Inr (vs, False)"
  by (induction vs) (simp_all add: UA_Variant_copy_ok isGood_def UaStatus_of_def)

lemma to_outputs_ok: "mem_ok al \<Longrightarrow> list_all wf_variant vs \<Longrightarrow> to_outputs al vs = Inr (map Live vs)"
  by (induction vs) (simp_all add: assign_variant_ok)

definition requested_call :: "CallIn \<Rightarrow> UA_CallMethodRequest" where
  "requested_call ci = \<lparr>cm_objectId = ci_objectId ci, cm_methodId = ci_methodId ci, cm_inputArguments = ci_inputArguments ci\<rparr>"

lemma build_call_ok:
  assumes "mem_ok al" "list_all wf_variant (ci_inputArguments ci)" "int (length (ci_inputArguments ci)) \<le> INT32_MAX"
  shows "build_call al ci = Inr (requested_call ci)"
  using managed_ok [OF assms(1,3), of 48 UA_Variant_init]
  by (auto simp: build_call_def copy_arguments_ok [OF assms(1,2)] requested_call_def)

text \<open>C34 (error). On a connected session, \<open>call\<close> sends object, method and arguments unchanged. If the service fails, its status is the
  answer and the application's result structure is untouched, whatever results the response holds, also none; if the service is good and the
  server does not return exactly one
  result, \<open>call\<close> throws; otherwise, the one result having a well-formed array of outputs, the answer is the method's own status, stored in the structure with
  copies of the outputs, also when the method failed.\<close>

theorem session_call_outcomes:
  assumes "mem_ok al" "list_all wf_variant (ci_inputArguments ci)" "int (length (ci_inputArguments ci)) \<le> INT32_MAX" "m_client s \<noteq> 0"
    and "UA_Client_Service_call api (m_client s) (requested_call ci) (remote s) = (response, r)"
    and one: "serviceResult response = OpcUa_Good \<Longrightarrow> resultsSize response = 1 \<Longrightarrow> resultsArray response = Heap [res]
      \<and> wf_array (cr_outputArguments res) (cr_outputArgumentsSize res) \<and> list_all wf_variant (ptr_elems (cr_outputArguments res))"
  shows "UaSession_call api al ci callOut s =
    (if serviceResult response \<noteq> OpcUa_Good then Inr (serviceResult response, callOut)
     else if resultsSize response \<noteq> 1
       then Inl (Throw (LogicError ''One method called so expected one call response, but instead got: ''))
     else Inr (cr_statusCode res, \<lparr>co_callResult = UaStatus_of (cr_statusCode res), co_inputArgumentResults = [],
            co_outputArguments = map Live (ptr_elems (cr_outputArguments res))\<rparr>),
     using_client s r)"
proof -
  have "convert_call al callOut response = Inr (cr_statusCode res, \<lparr>co_callResult = UaStatus_of (cr_statusCode res), co_inputArgumentResults = [],
      co_outputArguments = map Live (ptr_elems (cr_outputArguments res))\<rparr>)"
    if good: "serviceResult response = OpcUa_Good" "resultsSize response = 1"
  proof -
    note r = one [OF good]
    then have "deref (resultsArray response) 0 = Inr res" by simp
    then show ?thesis
      using good r by (simp add: convert_call_def read_range_wf to_outputs_ok [OF assms(1)])
  qed
  then show ?thesis
    unfolding UaSession_call_def build_call_ok [OF assms(1-3)] sum.case
      call_service_connected [where f = "UA_Client_Service_call api", OF assms(4,5)]
    by (auto simp: convert_call_def)
qed

text \<open>A reference as the application sees it, when its node class is known.\<close>

definition wf_reference :: "UA_ReferenceDescription \<Rightarrow> bool" where
  "wf_reference rd \<longleftrightarrow> wf_nodeid (ur_referenceTypeId rd) \<and> wf_nodeid (en_nodeId (ur_nodeId rd)) \<and> wf_nodeid (en_nodeId (ur_typeDefinition rd))
     \<and> wf_bstr (ur_browseName rd) \<and> wf_bstr (en_namespaceUri (ur_nodeId rd)) \<and> wf_bstr (en_namespaceUri (ur_typeDefinition rd))"

definition described :: "UA_ReferenceDescription \<Rightarrow> OpcUa_NodeClass \<Rightarrow> ReferenceDescription" where
  "described rd c = \<lparr>rd_ReferenceTypeId = ur_referenceTypeId rd, rd_IsForward = ur_isForward rd,
     rd_NodeId = \<lparr>m_nodeId = en_nodeId (ur_nodeId rd)\<rparr>, rd_BrowseName = Live (ur_browseName rd), rd_NodeClass = c,
     rd_TypeDefinition = \<lparr>m_nodeId = en_nodeId (ur_typeDefinition rd)\<rparr>\<rparr>"

lemma to_expanded_ok:
  "mem_ok al \<Longrightarrow> wf_nodeid (en_nodeId e) \<Longrightarrow> wf_bstr (en_namespaceUri e) \<Longrightarrow> to_expanded al e = Inr \<lparr>m_nodeId = en_nodeId e\<rparr>"
  by (simp add: to_expanded_def UaNodeId_fromStack_def NodeId_copy_ok UaString_fromStack_def String_copy_ok
      UaExpandedNodeId_of_def UaNodeId_copy_ok)

lemma to_ReferenceDescription_ok:
  assumes "mem_ok al" "wf_reference rd"
  shows "to_ReferenceDescription al rd = bind_res (safeConvertNodeClassToSdk (ur_nodeClass rd)) (\<lambda>c. Inr (described rd c))"
  using assms
  by (cases "safeConvertNodeClassToSdk (ur_nodeClass rd)")
     (simp_all add: to_ReferenceDescription_def wf_reference_def UaNodeId_fromStack_def NodeId_copy_ok UaNodeId_assign_def
       to_expanded_ok UaString_assign_impl_def String_copy_ok described_def)

definition known_class :: "int \<Rightarrow> OpcUa_NodeClass option" where
  "known_class nc = find (\<lambda>c. nodeClass_value c = nc)
     [OpcUa_NodeClass_Object, OpcUa_NodeClass_Variable, OpcUa_NodeClass_Method, OpcUa_NodeClass_ObjectType,
      OpcUa_NodeClass_VariableType, OpcUa_NodeClass_ReferenceType, OpcUa_NodeClass_DataType, OpcUa_NodeClass_View]"

lemma safeConvert_known: "safeConvertNodeClassToSdk nc = (case known_class nc of Some c \<Rightarrow> Inr c
    | None \<Rightarrow> Inl (Throw (RuntimeError ''This node class is not implemented: '')))"
  by (simp add: known_class_def nodeClass_value_def safeConvertNodeClassToSdk_def)

lemma to_ReferenceDescriptions_ok:
  "mem_ok al \<Longrightarrow> list_all wf_reference rds \<Longrightarrow>
   to_ReferenceDescriptions al rds = (case those (map (\<lambda>rd. map_option (described rd) (known_class (ur_nodeClass rd))) rds) of
      Some ds \<Rightarrow> Inr ds | None \<Rightarrow> Inl (Throw (RuntimeError ''This node class is not implemented: '')))"
  by (induction rds) (auto simp: to_ReferenceDescription_ok safeConvert_known split: option.split)

text \<open>C35 (error). On a connected session, \<open>browse\<close> delivers the references of the one result (well formed) in order, each with its members,
  provided every node
  class is one the library knows; otherwise it throws. A good answer with no result or several is
  BadUnknownResponse. If the service fails the answer is its status and no references, whatever results it holds, also none, except for a node
  with a GUID or opaque identifier, where logging the error throws instead.\<close>

theorem session_browse_outcomes:
  assumes "mem_ok al" "wf_nodeid n" "m_client s \<noteq> 0"
    and "UA_Client_Service_browse api (m_client s) n (remote s) = (response, r)"
    and one: "serviceResult response = OpcUa_Good \<Longrightarrow> resultsSize response = 1 \<Longrightarrow> resultsArray response = Heap [br]
      \<and> wf_array (ub_references br) (ub_referencesSize br) \<and> list_all wf_reference (ptr_elems (ub_references br))"
  shows "UaSession_browse api lc al n s =
    (if serviceResult response \<noteq> OpcUa_Good then
       (case nid_identifier n of
          IdNumeric _ \<Rightarrow> Inr (serviceResult response, []) | IdString _ \<Rightarrow> Inr (serviceResult response, [])
        | _ \<Rightarrow> Inl (Throw (RuntimeError ''not-implemented'')))
     else if resultsSize response \<noteq> 1 then Inr (OpcUa_BadUnknownResponse, [])
     else (case those (map (\<lambda>rd. map_option (described rd) (known_class (ur_nodeClass rd))) (ptr_elems (ub_references br))) of
         Some ds \<Rightarrow> Inr (OpcUa_Good, ds) | None \<Rightarrow> Inl (Throw (RuntimeError ''This node class is not implemented: ''))),
     using_client s r)"
proof -
  have browse: "UaSession_browse api lc al n s = (convert_browse lc al n response, using_client s r)"
    using assms(1) call_service_connected [where f = "UA_Client_Service_browse api", OF assms(3,4)]
    by (simp add: UaSession_browse_def copy_nodeId_ok assms(2))
  have delivers: "convert_browse lc al n response
      = (case those (map (\<lambda>rd. map_option (described rd) (known_class (ur_nodeClass rd))) (ptr_elems (ub_references br))) of
         Some ds \<Rightarrow> Inr (OpcUa_Good, ds) | None \<Rightarrow> Inl (Throw (RuntimeError ''This node class is not implemented: '')))"
    if good: "serviceResult response = OpcUa_Good" "resultsSize response = 1"
  proof -
    note r = one [OF good]
    then have "deref (resultsArray response) 0 = Inr br" by simp
    then show ?thesis
      using good r by (simp add: convert_browse_def read_range_wf to_ReferenceDescriptions_ok [OF assms(1)] split: option.split)
  qed
  show ?thesis
  proof (cases "serviceResult response = OpcUa_Good")
    case True
    then show ?thesis using browse delivers by (auto simp: convert_browse_def)
  next
    case False
    then show ?thesis
      using browse UaNodeId_toString_cases [OF assms(1,2), of lc] by (cases "nid_identifier n") (auto simp: convert_browse_def)
  qed
qed

subsection \<open>A server that answers\<close>

text \<open>
  Every read yields one Good value without a status, every call fails with no outputs, every browse is refused. The second client
  answers without results: its service of calls fails, that of browsing says it is good.
\<close>

definition answer :: UA_DataValue where
  "answer = UA_DataValue_init\<lparr>dv_value := UA_Variant_setScalar (VBool True) (UA_TYPES BOOLEAN), dv_hasValue := True\<rparr>"

definition example_client :: "unit client_api" where
  "example_client = \<lparr>UA_Client_new = (\<lambda>c. (4, c)), UA_Client_configure = (\<lambda>_ _ c. c), UA_Client_connect = (\<lambda>_ _ c. (OpcUa_Good, c)),
     UA_Client_disconnect = (\<lambda>_ c. (OpcUa_Good, c)), UA_Client_delete = (\<lambda>_ c. c), UA_Client_getState = (\<lambda>_ _. (True, OpcUa_Good)),
     UA_Client_Service_read = (\<lambda>_ q c. (\<lparr>serviceResult = OpcUa_Good, resultsSize = 1, resultsArray = Heap [answer]\<rparr>, c)),
     UA_Client_Service_write = (\<lambda>_ q c. (\<lparr>serviceResult = OpcUa_Good, resultsSize = 0, resultsArray = Null\<rparr>, c)),
     UA_Client_Service_call = (\<lambda>_ q c. (\<lparr>serviceResult = OpcUa_Good, resultsSize = 1,
        resultsArray = Heap [\<lparr>cr_statusCode = OpcUa_BadInvalidArgument, cr_outputArgumentsSize = 0, cr_outputArguments = Sentinel\<rparr>]\<rparr>, c)),
     UA_Client_Service_browse = (\<lambda>_ q c. (\<lparr>serviceResult = OpcUa_BadNodeIdUnknown, resultsSize = 1,
        resultsArray = Heap [\<lparr>ub_referencesSize = 0, ub_references = Null\<rparr>]\<rparr>, c))\<rparr>"

definition silent_client :: "UA_StatusCode \<Rightarrow> unit client_api" where
  "silent_client status = example_client
     \<lparr>UA_Client_Service_call := (\<lambda>_ q c. (\<lparr>serviceResult = status, resultsSize = 0, resultsArray = Null\<rparr>, c)),
      UA_Client_Service_browse := (\<lambda>_ q c. (\<lparr>serviceResult = status, resultsSize = 0, resultsArray = Null\<rparr>, c))\<rparr>"

definition connected_session :: "unit UaSession" where
  "connected_session = snd (UaSession_connect example_client (Live UA_STRING_NULL) SessionConnectInfo_new (UaSession_new ()))"

lemma connected_client [simp]: "m_client connected_session = 4"
  by (simp add: connected_session_def UaSession_connect_def UaSession_new_def example_client_def using_client_def Let_def
      UaString_toUtf8_def isGood_def UaStatus_of_def)

theorem session_read_delivers_witness:
  "fst (UaSession_read example_client enough_memory 0 0 [ReadValueId_new] connected_session)
     = Inr (OpcUa_Good, [\<lparr>fd_StatusCode = UaStatus_of OpcUa_Good,
         fd_Value = Live (UA_Variant_setScalar (VBool True) (UA_TYPES BOOLEAN)), fd_SourceTimestamp = 0, fd_ServerTimestamp = 0\<rparr>])
   \<and> fst (UaSession_read example_client enough_memory 0 0 [] connected_session) = Inr (OpcUa_Bad, [])"
proof -
  have wf: "wf_array (Heap [answer]) 1" "list_all wf_datavalue (ptr_elems (Heap [answer]))"
    by (simp_all add: answer_def wf_datavalue_def UA_Variant_setScalar_def)
  have svc: "UA_Client_Service_read example_client (m_client connected_session) q (remote connected_session)
      = (\<lparr>serviceResult = OpcUa_Good, resultsSize = 1, resultsArray = Heap [answer]\<rparr>, ())" for q
    by (simp add: example_client_def)
  have "wf_nodeid (UaNodeId_numeric 0 0)" by (simp add: wf_nodeid_def UaNodeId_numeric_def UA_NODEID_NUMERIC_def)
  then show ?thesis
    using session_read_delivers [where s = connected_session and maxAge = 0 and ts = 0, OF mem_ok_enough _ _ _ svc, of "[ReadValueId_new]"]
      session_read_delivers [where s = connected_session and maxAge = 0 and ts = 0, OF mem_ok_enough _ _ _ svc, of "[]"] wf
    by (simp add: ReadValueId_new_def INT32_MAX_def delivered_def answer_def UA_DataValue_init_def)
qed

theorem session_call_outcomes_witness:
  "let call = \<lparr>ci_objectId = UaNodeId_numeric 1 2, ci_methodId = UaNodeId_numeric 2 2, ci_inputArguments = []\<rparr>;
       out = \<lparr>co_callResult = UaStatus_default, co_inputArgumentResults = [1], co_outputArguments = []\<rparr>
   in fst (UaSession_call example_client enough_memory call out connected_session)
       = Inr (OpcUa_BadInvalidArgument, \<lparr>co_callResult = UaStatus_of OpcUa_BadInvalidArgument, co_inputArgumentResults = [], co_outputArguments = []\<rparr>)
    \<and> fst (UaSession_call (silent_client OpcUa_BadNotFound) enough_memory call out connected_session) = Inr (OpcUa_BadNotFound, out)
    \<and> fst (UaSession_call (silent_client OpcUa_Good) enough_memory call out connected_session)
       = Inl (Throw (LogicError ''One method called so expected one call response, but instead got: ''))"
proof -
  let ?ci = "\<lparr>ci_objectId = UaNodeId_numeric 1 2, ci_methodId = UaNodeId_numeric 2 2, ci_inputArguments = []\<rparr>"
  let ?r = "\<lparr>cr_statusCode = OpcUa_BadInvalidArgument, cr_outputArgumentsSize = 0, cr_outputArguments = Sentinel\<rparr>"
  have svc: "UA_Client_Service_call example_client (m_client connected_session) (requested_call ?ci) (remote connected_session)
      = (\<lparr>serviceResult = OpcUa_Good, resultsSize = 1, resultsArray = Heap [?r]\<rparr>, ())"
    "UA_Client_Service_call (silent_client status) (m_client connected_session) (requested_call ?ci) (remote connected_session)
      = (\<lparr>serviceResult = status, resultsSize = 0, resultsArray = Null\<rparr>, ())" for status
    by (simp_all add: example_client_def silent_client_def)
  show ?thesis
    using session_call_outcomes [OF mem_ok_enough _ _ _ svc(1), of ?r] session_call_outcomes [OF mem_ok_enough _ _ _ svc(2), of OpcUa_BadNotFound ?r]
      session_call_outcomes [OF mem_ok_enough _ _ _ svc(2), of OpcUa_Good ?r]
    by (simp add: INT32_MAX_def Let_def)
qed

theorem session_browse_outcomes_witness:
  "fst (UaSession_browse example_client (show_base 10) enough_memory (UaNodeId_numeric 85 0) connected_session)
     = Inr (OpcUa_BadNodeIdUnknown, [])
   \<and> fst (UaSession_browse (silent_client OpcUa_BadNotFound) (show_base 10) enough_memory
       \<lparr>nid_namespaceIndex = 2, nid_identifier = IdByteString UA_STRING_NULL\<rparr> connected_session)
     = Inl (Throw (RuntimeError ''not-implemented''))
   \<and> fst (UaSession_browse (silent_client OpcUa_Good) (show_base 10) enough_memory (UaNodeId_numeric 85 0) connected_session)
     = Inr (OpcUa_BadUnknownResponse, [])"
proof -
  let ?br = "\<lparr>ub_referencesSize = 0, ub_references = Null\<rparr>"
  have svc: "UA_Client_Service_browse example_client (m_client connected_session) n (remote connected_session)
      = (\<lparr>serviceResult = OpcUa_BadNodeIdUnknown, resultsSize = 1, resultsArray = Heap [?br]\<rparr>, ())"
    "UA_Client_Service_browse (silent_client status) (m_client connected_session) n (remote connected_session)
      = (\<lparr>serviceResult = status, resultsSize = 0, resultsArray = Null\<rparr>, ())" for n status
    by (simp_all add: example_client_def silent_client_def)
  have "wf_nodeid (UaNodeId_numeric 85 0)" "wf_nodeid \<lparr>nid_namespaceIndex = 2, nid_identifier = IdByteString UA_STRING_NULL\<rparr>"
    by (simp_all add: wf_nodeid_def UaNodeId_numeric_def UA_NODEID_NUMERIC_def)
  with session_browse_outcomes [OF mem_ok_enough _ _ svc(1), of "UaNodeId_numeric 85 0" ?br "show_base 10"]
    session_browse_outcomes [OF mem_ok_enough _ _ svc(2), of "UaNodeId_numeric 85 0" OpcUa_Good ?br "show_base 10"]
    session_browse_outcomes [OF mem_ok_enough _ _ svc(2), of "\<lparr>nid_namespaceIndex = 2, nid_identifier = IdByteString UA_STRING_NULL\<rparr>"
      OpcUa_BadNotFound ?br "show_base 10"]
  show ?thesis by (simp add: UaNodeId_numeric_def UA_NODEID_NUMERIC_def)
qed

text \<open>A service on a session that is not connected dereferences a null pointer.\<close>

lemma service_not_connected: "m_client s = 0 \<Longrightarrow> call_service f q s = (Inl (UB NullDeref), s)"
  by (simp add: call_service_def)

end
