(* ===== verification/UaSession_KeepAlive.thy ===== *)
theory UaSession_KeepAlive
  imports UaSessionProps
begin

text \<open>
  The session in the build with \<open>OPCUA_2603\<close> (\<open>src/uaclient/uasession.cpp\<close>): \<open>connect\<close> starts a thread that lets the
  stack's client work every half second, \<open>disconnect\<close> stops it. The thread does not take the session's mutex, nor
  does \<open>browse\<close>. The steps of the thread, of the waiting \<open>disconnect\<close> and of \<open>browse\<close> interleave with whole services.
\<close>

subsection \<open>The thread and its future\<close>

text \<open>Before the test of the loop, asleep, in the call of the stack with the pointer it was given, and returned.\<close>

datatype ka_pc = NotAsked | Testing | Sleeping | Iterating nat | Ended

text \<open>
  \<open>m_clientRunIterateThreadFuture\<close> is represented by whether it has a shared state; \<open>ka_waiting\<close> says that a
  \<open>disconnect\<close> holds the mutex and waits in \<open>get\<close>; \<open>ka_browsing\<close> are the calls of \<open>browse\<close> inside the stack.
\<close>

record 'c kasession =
  ka_session :: "'c UaSession"
  m_clientRunIterateToggle :: bool
  future_valid :: bool
  ka_thread :: ka_pc
  ka_waiting :: bool
  ka_browsing :: "(nat \<times> UA_NodeId) list"

definition ka_new :: "'c \<Rightarrow> 'c kasession" where
  "ka_new c = \<lparr>ka_session = UaSession_new c, m_clientRunIterateToggle = False, future_valid = False,
     ka_thread = NotAsked, ka_waiting = False, ka_browsing = []\<rparr>"

text \<open>The stack at work for a client, be it alive or not.\<close>

definition used_by_stack :: "nat \<Rightarrow> 'c \<Rightarrow> 'c kasession \<Rightarrow> 'c kasession" where
  "used_by_stack c r s = s\<lparr>ka_session := (ka_session s)\<lparr>remote := r, client_trace := client_trace (ka_session s) @ [Use c]\<rparr>\<rparr>"

text \<open>The status of the iteration is only logged.\<close>

definition clientRunIterateThread :: "(nat \<Rightarrow> 'c \<Rightarrow> UA_StatusCode \<times> 'c) \<Rightarrow> 'c kasession \<Rightarrow> 'c kasession option" where
  "clientRunIterateThread run_iterate s = (case ka_thread s of
      Testing \<Rightarrow> Some (s\<lparr>ka_thread := (if m_clientRunIterateToggle s then Sleeping else Ended)\<rparr>)
    | Sleeping \<Rightarrow> Some (s\<lparr>ka_thread := Iterating (m_client (ka_session s))\<rparr>)
    | Iterating c \<Rightarrow> (case run_iterate c (remote (ka_session s)) of (_, r) \<Rightarrow> Some (used_by_stack c r (s\<lparr>ka_thread := Testing\<rparr>)))
    | _ \<Rightarrow> None)"

subsection \<open>Connecting and disconnecting\<close>

text \<open>Assigning to the future of a thread that still runs would wait for it, with the toggle set: for ever.\<close>

definition start_keep_alive :: "'c kasession \<Rightarrow> 'c kasession option" where
  "start_keep_alive s = (if future_valid s \<and> ka_thread s \<noteq> Ended then None
     else Some (s\<lparr>m_clientRunIterateToggle := True, future_valid := True, ka_thread := Testing\<rparr>))"

definition ka_connect :: "'c client_api \<Rightarrow> UaString \<Rightarrow> SessionConnectInfo \<Rightarrow> 'c kasession \<Rightarrow> (UA_StatusCode res \<times> 'c kasession) option" where
  "ka_connect api endpoint info s =
     (if ka_waiting s then None
      else case UaSession_connect api endpoint info (ka_session s) of (r, u) \<Rightarrow>
        if r = Inr OpcUa_Good then map_option (Pair r) (start_keep_alive (s\<lparr>ka_session := u\<rparr>))
        else Some (r, s\<lparr>ka_session := u\<rparr>))"

text \<open>
  A future without shared state has a null pointer for it: the standard leaves the behaviour of \<open>get\<close> undefined (it
  only recommends to throw \<open>std::future_error\<close>).
\<close>

definition ka_disconnect :: "'c kasession \<Rightarrow> (unit res \<times> 'c kasession) option" where
  "ka_disconnect s =
     (if ka_waiting s then None
      else if future_valid s then Some (Inr (), s\<lparr>m_clientRunIterateToggle := False, ka_waiting := True\<rparr>)
      else Some (Inl (UB NullDeref), s\<lparr>m_clientRunIterateToggle := False\<rparr>))"

text \<open>The rest of \<open>disconnect\<close>, when the thread has returned.\<close>

definition ka_disconnected :: "'c client_api \<Rightarrow> 'c kasession \<Rightarrow> (UA_StatusCode res \<times> 'c kasession) option" where
  "ka_disconnected api s =
     (if ka_waiting s \<and> ka_thread s = Ended then
        (case UaSession_disconnect api (ka_session s) of (r, u) \<Rightarrow>
           Some (r, s\<lparr>ka_waiting := False, future_valid := False, ka_session := u\<rparr>))
      else None)"

text \<open>The first half of \<open>browse\<close> reads the pointer, the second is the stack's; the answer is converted afterwards.\<close>

definition browse_begin :: "UA_NodeId \<Rightarrow> 'c kasession \<Rightarrow> 'c kasession option" where
  "browse_begin i s = (if m_client (ka_session s) = 0 then None
     else Some (s\<lparr>ka_browsing := ka_browsing s @ [(m_client (ka_session s), i)]\<rparr>))"

definition browse_end :: "'c client_api \<Rightarrow> 'c kasession \<Rightarrow> 'c kasession option" where
  "browse_end api s = (case ka_browsing s of
      [] \<Rightarrow> None
    | (c, i) # rest \<Rightarrow> (case UA_Client_Service_browse api c i (remote (ka_session s)) of (_, r) \<Rightarrow>
        Some (used_by_stack c r (s\<lparr>ka_browsing := rest\<rparr>))))"

subsection \<open>Runs\<close>

datatype ka_event =
    KA_Connect UaString SessionConnectInfo
  | KA_Service session_event
  | KA_Disconnect
  | KA_Disconnected
  | KA_Thread
  | KA_BrowseBegin UA_NodeId
  | KA_BrowseEnd

text \<open>A service that takes the mutex, with its outcome: what it returned is not looked at here, whether it returned is.\<close>

definition service_outcome :: "('a res \<times> 'c UaSession) \<Rightarrow> 'c kasession \<Rightarrow> unit res \<times> 'c kasession" where
  "service_outcome r s = ((case fst r of Inl e \<Rightarrow> Inl e | Inr _ \<Rightarrow> Inr ()), s\<lparr>ka_session := snd r\<rparr>)"

definition ka_service :: "'c client_api \<Rightarrow> allocator \<Rightarrow> session_event \<Rightarrow> 'c kasession \<Rightarrow> (unit res \<times> 'c kasession) option" where
  "ka_service api al q s = (if ka_waiting s then None else case q of
      Read maxAge ts ns \<Rightarrow> Some (service_outcome (UaSession_read api al maxAge ts ns (ka_session s)) s)
    | Write ns \<Rightarrow> Some (service_outcome (UaSession_write api al ns (ka_session s)) s)
    | Call callIn callOut \<Rightarrow> Some (service_outcome (UaSession_call api al callIn callOut (ka_session s)) s)
    | _ \<Rightarrow> None)"

definition not_ub :: "('a res \<times> 's) option \<Rightarrow> 's option" where
  "not_ub r = (case r of Some (Inl (UB _), _) \<Rightarrow> None | Some (_, s) \<Rightarrow> Some s | None \<Rightarrow> None)"

text \<open>A step that is not enabled, or whose behaviour is undefined, gives none: a run has only steps that are defined.\<close>

definition ka_step :: "'c client_api \<Rightarrow> (nat \<Rightarrow> 'c \<Rightarrow> UA_StatusCode \<times> 'c) \<Rightarrow> allocator \<Rightarrow> ka_event \<Rightarrow> 'c kasession \<Rightarrow> 'c kasession option" where
  "ka_step api run_iterate al e s = (case e of
      KA_Connect endpoint info \<Rightarrow> not_ub (ka_connect api endpoint info s)
    | KA_Service q \<Rightarrow> not_ub (ka_service api al q s)
    | KA_Disconnect \<Rightarrow> not_ub (ka_disconnect s)
    | KA_Disconnected \<Rightarrow> not_ub (ka_disconnected api s)
    | KA_Thread \<Rightarrow> clientRunIterateThread run_iterate s
    | KA_BrowseBegin i \<Rightarrow> browse_begin i s
    | KA_BrowseEnd \<Rightarrow> browse_end api s)"

fun ka_run :: "('c kasession \<Rightarrow> ka_event \<Rightarrow> 'c kasession option) \<Rightarrow> ka_event list \<Rightarrow> 'c kasession \<Rightarrow> 'c kasession option" where
  "ka_run step [] s = Some s"
| "ka_run step (e # es) s = (case step s e of None \<Rightarrow> None | Some s' \<Rightarrow> ka_run step es s')"

subsection \<open>The invariant\<close>

definition thread_alive :: "ka_pc \<Rightarrow> bool" where
  "thread_alive p \<longleftrightarrow> p \<noteq> NotAsked \<and> p \<noteq> Ended"

text \<open>While the session is connected the future belongs to the thread, and nobody but \<open>disconnect\<close> stops it.\<close>

definition ka_ok :: "'c kasession \<Rightarrow> bool" where
  "ka_ok s \<longleftrightarrow> client_ok (ka_session s)
     \<and> (future_valid s \<longleftrightarrow> m_client (ka_session s) \<noteq> 0)
     \<and> (thread_alive (ka_thread s) \<longrightarrow> future_valid s)
     \<and> (\<forall>c. ka_thread s = Iterating c \<longrightarrow> c = m_client (ka_session s))
     \<and> (ka_waiting s \<longrightarrow> future_valid s \<and> \<not> m_clientRunIterateToggle s)
     \<and> (future_valid s \<longrightarrow> ka_thread s \<noteq> NotAsked \<and> (m_clientRunIterateToggle s \<or> ka_waiting s))
     \<and> (m_clientRunIterateToggle s \<longrightarrow> future_valid s \<and> ka_thread s \<noteq> Ended)"

lemma ka_new_ok: "ka_ok (ka_new c)"
  by (simp add: ka_ok_def ka_new_def client_ok_def UaSession_new_def thread_alive_def)

lemma connect_pointer:
  assumes "UaSession_connect api endpoint info u = (r, u')"
  shows "r = Inr OpcUa_Good \<Longrightarrow> m_client u = 0 \<and> m_client u' \<noteq> 0"
    "r \<noteq> Inr OpcUa_Good \<Longrightarrow> (\<forall>x. r \<noteq> Inl (UB x)) \<Longrightarrow> m_client u' = m_client u"
  using assms
  by (auto simp: UaSession_connect_def Let_def delete_client_def UaString_toUtf8_def split: if_splits sum.splits prod.splits obj.splits)

lemma used_by_stack_ok:
  assumes "ka_ok s" "ka_thread s = Iterating c"
  shows "ka_ok (used_by_stack c r (s\<lparr>ka_thread := Testing\<rparr>))"
  using assms by (auto simp: ka_ok_def used_by_stack_def client_ok_def live_after_append thread_alive_def)


lemma using_as_used: "using_client u r = u\<lparr>remote := r, client_trace := client_trace u @ [Use (m_client u)]\<rparr>"
  by (rule using_client_def)

lemma thread_step_ok:
  assumes "ka_ok s" "clientRunIterateThread run_iterate s = Some s'"
  shows "ka_ok s'"
proof (cases "ka_thread s")
  case (Iterating c)
  then show ?thesis
    using assms used_by_stack_ok [OF assms(1) Iterating] by (auto simp: clientRunIterateThread_def split: prod.splits)
qed (use assms in \<open>auto simp: clientRunIterateThread_def ka_ok_def thread_alive_def split: if_splits\<close>)

lemma connect_step_ok:
  assumes "ka_ok s" "not_ub (ka_connect api endpoint info s) = Some s'"
  shows "ka_ok s'"
proof -
  obtain r u where c: "UaSession_connect api endpoint info (ka_session s) = (r, u)" by fastforce
  have u: "client_ok u" using connect_ok [of "ka_session s" api endpoint info] assms(1) c by (simp add: ka_ok_def)
  have "\<not> ka_waiting s" using assms(2) by (auto simp: ka_connect_def not_ub_def)
  show ?thesis
  proof (cases "r = Inr OpcUa_Good")
    case True
    with connect_pointer(1) [OF c] show ?thesis
      using assms u c by (auto simp: ka_connect_def start_keep_alive_def not_ub_def ka_ok_def thread_alive_def split: if_splits)
  next
    case False
    then have "s' = s\<lparr>ka_session := u\<rparr>" "\<forall>x. r \<noteq> Inl (UB x)"
      using assms(2) c \<open>\<not> ka_waiting s\<close> by (auto simp: ka_connect_def not_ub_def split: sum.splits fault.splits)
    with connect_pointer(2) [OF c False] show ?thesis using assms(1) u by (auto simp: ka_ok_def)
  qed
qed

lemma service_outcome_simps [simp]:
  "ka_session (snd (service_outcome r s)) = snd r"
  "fst (service_outcome r s) = Inr () \<longleftrightarrow> (\<exists>x. fst r = Inr x)"
  by (auto simp: service_outcome_def split: sum.split)

lemma services_pointer:
  "m_client (snd (UaSession_read api al m t ns u)) = m_client u"
  "m_client (snd (UaSession_write api al ws u)) = m_client u"
  "m_client (snd (UaSession_call api al ci co u)) = m_client u"
proof -
  have call: "m_client (snd (call_service f rq u)) = m_client u" for f :: "nat \<Rightarrow> 'q \<Rightarrow> 'a \<Rightarrow> 'r \<times> 'a" and rq
    by (auto simp: call_service_def split: prod.split)
  show "m_client (snd (UaSession_read api al m t ns u)) = m_client u"
    using service_states(1) [where s = u and api = api and al = al and m = m and t = t and ns = ns] by (elim disjE exE) (simp_all add: call)
  show "m_client (snd (UaSession_write api al ws u)) = m_client u"
    using service_states(2) [where s = u and api = api and al = al and ws = ws] by (elim disjE exE) (simp_all add: call)
  show "m_client (snd (UaSession_call api al ci co u)) = m_client u"
    using service_states(3) [where s = u and api = api and al = al and ci = ci and co = co] by (elim disjE exE) (simp_all add: call)
qed

lemma service_step_ok:
  assumes "ka_ok s" "not_ub (ka_service api al q s) = Some s'"
  shows "ka_ok s'"
proof -
  have keep: "ka_ok (s\<lparr>ka_session := u\<rparr>)" if "client_ok u" "m_client u = m_client (ka_session s)" for u
    using that assms(1) by (auto simp: ka_ok_def)
  have "client_ok (ka_session s)" using assms(1) by (simp add: ka_ok_def)
  note u = services_ok [OF this] services_pointer
  show ?thesis
    using assms(2) keep [OF u(1,5)] keep [OF u(2,6)] keep [OF u(3,7)]
    by (cases q) (auto simp: ka_service_def service_outcome_def not_ub_def split: if_splits sum.splits fault.splits)
qed

text \<open>On a session without a client no service returns: either its request could not be built, or the stack is given null.\<close>

lemma call_service_null: "m_client u = 0 \<Longrightarrow> call_service f q u = (Inl (UB NullDeref), u)"
  by (simp add: call_service_def)

lemma services_null:
  assumes "m_client u = 0"
  shows "UaSession_read api al m t ns u = (case build_read al m t ns of Inl e \<Rightarrow> (Inl e, u) | Inr _ \<Rightarrow> (Inl (UB NullDeref), u))"
    "\<exists>e. UaSession_write api al ws u = (Inl e, u)" "\<exists>e. UaSession_call api al ci co u = (Inl e, u)"
  using assms by (auto simp: UaSession_read_def UaSession_write_def UaSession_call_def call_service_null split: sum.split)

lemma ka_service_null:
  assumes "m_client (ka_session s) = 0" "ka_service api al q s = Some (r, s')"
  shows "(\<exists>e. r = Inl e) \<and> s' = s"
proof -
  show ?thesis
  proof (cases q)
    case (Read m t ns)
    with assms show ?thesis
      by (auto simp: ka_service_def services_null(1) [OF assms(1)] service_outcome_def split: if_splits sum.splits)
  next
    case (Write ws)
    obtain e where "UaSession_write api al ws (ka_session s) = (Inl e, ka_session s)" using services_null(2) [OF assms(1)] by blast
    with Write assms(2) show ?thesis by (auto simp: ka_service_def service_outcome_def split: if_splits)
  next
    case (Call ci co)
    obtain e where "UaSession_call api al ci co (ka_session s) = (Inl e, ka_session s)" using services_null(3) [OF assms(1)] by blast
    with Call assms(2) show ?thesis by (auto simp: ka_service_def service_outcome_def split: if_splits)
  qed (use assms(2) in \<open>auto simp: ka_service_def split: if_splits\<close>)
qed

lemma disconnect_step_ok: "ka_ok s \<Longrightarrow> not_ub (ka_disconnect s) = Some s' \<Longrightarrow> ka_ok s'"
  by (auto simp: ka_disconnect_def not_ub_def ka_ok_def split: if_splits)

lemma disconnected_step_ok: "ka_ok s \<Longrightarrow> not_ub (ka_disconnected api s) = Some s' \<Longrightarrow> ka_ok s'"
  using disconnect_ok [of "ka_session s" api]
  by (auto simp: ka_disconnected_def not_ub_def ka_ok_def thread_alive_def split: if_splits prod.splits sum.splits fault.splits)

definition without_browse :: "ka_event list \<Rightarrow> bool" where
  "without_browse es \<longleftrightarrow> KA_BrowseEnd \<notin> set es"

lemma ka_step_ok:
  assumes "ka_ok s" "e \<noteq> KA_BrowseEnd" "ka_step api run_iterate al e s = Some s'"
  shows "ka_ok s'"
proof (cases e)
  case (KA_Connect endpoint info)
  with assms(3) have "not_ub (ka_connect api endpoint info s) = Some s'" by (simp add: ka_step_def)
  then show ?thesis by (rule connect_step_ok [OF assms(1)])
next
  case (KA_Service q)
  with assms(3) have "not_ub (ka_service api al q s) = Some s'" by (simp add: ka_step_def)
  then show ?thesis by (rule service_step_ok [OF assms(1)])
next
  case KA_Disconnect
  with assms(3) have "not_ub (ka_disconnect s) = Some s'" by (simp add: ka_step_def)
  then show ?thesis by (rule disconnect_step_ok [OF assms(1)])
next
  case KA_Disconnected
  with assms(3) have "not_ub (ka_disconnected api s) = Some s'" by (simp add: ka_step_def)
  then show ?thesis by (rule disconnected_step_ok [OF assms(1)])
next
  case KA_Thread
  with assms(3) have "clientRunIterateThread run_iterate s = Some s'" by (simp add: ka_step_def)
  then show ?thesis by (rule thread_step_ok [OF assms(1)])
next
  case (KA_BrowseBegin i)
  then show ?thesis using assms(1,3) by (auto simp: ka_step_def browse_begin_def ka_ok_def split: if_splits)
qed (use assms in simp)

lemma ka_run_ok:
  "ka_ok s \<Longrightarrow> without_browse es \<Longrightarrow> ka_run (\<lambda>s e. ka_step api run_iterate al e s) es s = Some s' \<Longrightarrow> ka_ok s'"
proof (induction es arbitrary: s)
  case (Cons e es)
  then obtain s1 where s1: "ka_step api run_iterate al e s = Some s1" "ka_run (\<lambda>s e. ka_step api run_iterate al e s) es s1 = Some s'"
    by (auto split: option.splits)
  moreover have "e \<noteq> KA_BrowseEnd" "without_browse es" using Cons.prems(2) by (auto simp: without_browse_def)
  ultimately show ?case using Cons.IH ka_step_ok [OF Cons.prems(1)] by blast
qed simp

subsection \<open>Life cycle\<close>

lemma connect_not_blocked:
  assumes "ka_ok s" "\<not> ka_waiting s"
  shows "ka_connect api endpoint info s \<noteq> None"
proof -
  obtain r u where c: "UaSession_connect api endpoint info (ka_session s) = (r, u)" by fastforce
  show ?thesis
    using connect_pointer(1) [OF c] assms c by (auto simp: ka_connect_def start_keep_alive_def ka_ok_def)
qed

text \<open>The steps left to a thread once the toggle is off.\<close>

fun steps_left :: "ka_pc \<Rightarrow> nat" where
  "steps_left Testing = 1"
| "steps_left Sleeping = 3"
| "steps_left (Iterating c) = 2"
| "steps_left NotAsked = 0"
| "steps_left Ended = 0"

lemma thread_ends:
  assumes "ka_waiting s" "\<not> m_clientRunIterateToggle s" "ka_thread s \<noteq> NotAsked"
  shows "\<exists>s'. ka_run (\<lambda>s e. ka_step api run_iterate al e s) (replicate (steps_left (ka_thread s)) KA_Thread) s = Some s'
    \<and> ka_thread s' = Ended \<and> ka_waiting s' \<and> m_client (ka_session s') = m_client (ka_session s)"
  using assms
  by (cases "ka_thread s")
    (simp_all add: ka_step_def clientRunIterateThread_def used_by_stack_def numeral_2_eq_2 numeral_3_eq_3 split: prod.split)

lemma ka_run_append: "ka_run step (es @ fs) s = (case ka_run step es s of None \<Rightarrow> None | Some s' \<Rightarrow> ka_run step fs s')"
  by (induction es arbitrary: s) (simp_all split: option.split)

text \<open>C23 (safety). In the build with the keep-alive thread, whatever connects, disconnects and services interleave with the steps of the
  thread, in whatever order and with whatever defined outcome: the stack is only ever given a client that is
  alive, by the services of a connected session and by the thread, which has the pointer of the session while it is in the stack; and a connect never has to wait for an older
  thread. On a session that is not connected the thread is not in the stack and no read, write or call returns: it throws while its request is built, or
  it gives the stack a null client, which is undefined behaviour (the services do not check the pointer as disconnect does). (Calls of \<open>browse\<close>, which do not
  take the mutex, are excluded: one that overlaps a disconnect uses a deleted client.)\<close>

theorem keep_alive_uses_live_client:
  assumes "ka_run (\<lambda>s e. ka_step api run_iterate al e s) es (ka_new c) = Some s" "without_browse es"
  shows "live_after 0 (client_trace (ka_session s)) = Some (m_client (ka_session s))
    \<and> (\<forall>d. ka_thread s = Iterating d \<longrightarrow> d = m_client (ka_session s) \<and> d \<noteq> 0)
    \<and> (ka_waiting s \<or> ka_connect api endpoint info s \<noteq> None)
    \<and> (m_client (ka_session s) = 0 \<longrightarrow> \<not> thread_alive (ka_thread s)
        \<and> (\<forall>m t ns. ka_service api al (Read m t ns) s = Some (case build_read al m t ns of Inl e \<Rightarrow> Inl e | Inr _ \<Rightarrow> Inl (UB NullDeref), s))
        \<and> (\<forall>q r s'. ka_service api al q s = Some (r, s') \<longrightarrow> (\<exists>e. r = Inl e) \<and> s' = s))"
proof -
  have ok: "ka_ok s" by (rule ka_run_ok [OF ka_new_ok assms(2,1)])
  then have "\<forall>d. ka_thread s = Iterating d \<longrightarrow> d = m_client (ka_session s) \<and> d \<noteq> 0"
    by (auto simp: ka_ok_def thread_alive_def)
  moreover have "m_client (ka_session s) = 0 \<longrightarrow> \<not> thread_alive (ka_thread s) \<and> \<not> ka_waiting s"
    using ok by (auto simp: ka_ok_def)
  moreover have "m_client (ka_session s) = 0 \<longrightarrow> (\<forall>m t ns. ka_service api al (Read m t ns) s
      = Some (case build_read al m t ns of Inl e \<Rightarrow> Inl e | Inr _ \<Rightarrow> Inl (UB NullDeref), s))"
    using calculation(2) services_null(1) [of "ka_session s" api al]
    by (auto simp: ka_service_def service_outcome_def split: sum.split)
  ultimately show ?thesis
    using ok connect_not_blocked [OF ok] ka_service_null [of s api al] by (auto simp: ka_ok_def client_ok_def)
qed

text \<open>C24 (termination). A disconnect of a connected session waits for at most three more steps of the keep-alive thread, whatever it
  is doing, and then deletes the client. On a session that is not connected it does not return the
  \<open>BadInvalidState\<close> written for that case: it first waits for a future that has no shared state, which is undefined behaviour.\<close>

theorem keep_alive_disconnect:
  assumes "ka_run (\<lambda>s e. ka_step api run_iterate al e s) es (ka_new c) = Some s" "without_browse es" "\<not> ka_waiting s"
  shows "if m_client (ka_session s) = 0 then ka_disconnect s = Some (Inl (UB NullDeref), s)
    else \<exists>k\<le>3. \<exists>s'. ka_run (\<lambda>s e. ka_step api run_iterate al e s) (KA_Disconnect # replicate k KA_Thread @ [KA_Disconnected]) s = Some s'
      \<and> m_client (ka_session s') = 0 \<and> ka_thread s' = Ended \<and> \<not> ka_waiting s'"
proof -
  have ok: "ka_ok s" by (rule ka_run_ok [OF ka_new_ok assms(2,1)])
  show ?thesis
  proof (cases "m_client (ka_session s) = 0")
    case True
    with ok have "\<not> future_valid s" "\<not> m_clientRunIterateToggle s" by (auto simp: ka_ok_def)
    with True assms(3) show ?thesis by (simp add: ka_disconnect_def)
  next
    case False
    let ?t = "s\<lparr>m_clientRunIterateToggle := False, ka_waiting := True\<rparr>"
    have d: "ka_step api run_iterate al KA_Disconnect s = Some ?t"
      using False ok assms(3) by (auto simp: ka_step_def ka_disconnect_def not_ub_def ka_ok_def)
    have "ka_thread s \<noteq> NotAsked" using False ok by (auto simp: ka_ok_def)
    then obtain u where u: "ka_run (\<lambda>s e. ka_step api run_iterate al e s) (replicate (steps_left (ka_thread s)) KA_Thread) ?t = Some u"
      "ka_thread u = Ended" "ka_waiting u" "m_client (ka_session u) = m_client (ka_session s)"
      using thread_ends [of ?t api run_iterate al] by auto
    obtain r v where v: "UaSession_disconnect api (ka_session u) = (r, v)" by fastforce
    then have "m_client v = 0" "\<forall>x. r \<noteq> Inl x"
      using False u(4) by (auto simp: UaSession_disconnect_def delete_client_def split: prod.splits)
    then have "\<exists>s'. ka_step api run_iterate al KA_Disconnected u = Some s' \<and> m_client (ka_session s') = 0 \<and> ka_thread s' = Ended \<and> \<not> ka_waiting s'"
      using u(2,3) v by (cases r) (simp_all add: ka_step_def ka_disconnected_def not_ub_def)
    moreover have "steps_left (ka_thread s) \<le> 3" by (cases "ka_thread s") simp_all
    ultimately show ?thesis using False d u(1) by (auto simp: ka_run_append)
  qed
qed

text \<open>A browse in progress when the session is disconnected.\<close>

definition browse_race :: "ka_event list" where
  "browse_race = [KA_Connect (Live UA_STRING_NULL) SessionConnectInfo_new, KA_Thread, KA_Thread, KA_BrowseBegin UA_NodeId_null,
     KA_Disconnect, KA_Thread, KA_Thread, KA_Disconnected, KA_BrowseEnd]"

lemma browse_uses_deleted_client:
  "map_option (\<lambda>s. client_trace (ka_session s))
     (ka_run (\<lambda>s e. ka_step example_client (\<lambda>_ s. (OpcUa_Good, s)) enough_memory e s) browse_race (ka_new ()))
   = Some [New 4, Use 4, Use 4, Use 4, Use 4, Delete 4, Use 4]"
  by code_simp

text \<open>A session whose thread is in the stack, and one never connected.\<close>

definition iterating_session :: "unit kasession" where
  "iterating_session = \<lparr>ka_session = \<lparr>m_client = 4, remote = (), client_trace = [New 4, Use 4, Use 4]\<rparr>, m_clientRunIterateToggle = True,
     future_valid = True, ka_thread = Iterating 4, ka_waiting = False, ka_browsing = []\<rparr>"

lemma iterating_run:
  "ka_run (\<lambda>s e. ka_step example_client (\<lambda>_ s. (OpcUa_Good, s)) enough_memory e s) (take 3 browse_race) (ka_new ()) = Some iterating_session"
  by code_simp

lemma take_3_race: "without_browse (take 3 browse_race)"
  by (simp add: without_browse_def browse_race_def)

theorem keep_alive_uses_live_client_witness:
  "live_after 0 (client_trace (ka_session iterating_session)) = Some 4
    \<and> ka_connect example_client (Live UA_STRING_NULL) SessionConnectInfo_new iterating_session \<noteq> None
    \<and> ka_service example_client enough_memory (Read 0 0 []) (ka_new ()) = Some (Inl (UB NullDeref), ka_new ())"
proof -
  have "build_read enough_memory 0 0 [] = Inr \<lparr>rq_maxAge = 0, rq_timestampsToReturn = 0, rq_nodesToRead = []\<rparr>" by code_simp
  then show ?thesis
    using keep_alive_uses_live_client [OF iterating_run take_3_race, of "Live UA_STRING_NULL" SessionConnectInfo_new]
      keep_alive_uses_live_client [of example_client "\<lambda>_ s. (OpcUa_Good, s)" enough_memory "[]" "()" "ka_new ()"]
    by (simp add: iterating_session_def without_browse_def ka_new_def UaSession_new_def)
qed

theorem keep_alive_disconnect_witness:
  "(\<exists>k\<le>3. \<exists>s'. ka_run (\<lambda>s e. ka_step example_client (\<lambda>_ s. (OpcUa_Good, s)) enough_memory e s)
       (KA_Disconnect # replicate k KA_Thread @ [KA_Disconnected]) iterating_session = Some s'
     \<and> m_client (ka_session s') = 0 \<and> ka_thread s' = Ended \<and> \<not> ka_waiting s')
   \<and> ka_disconnect (ka_new ()) = Some (Inl (UB NullDeref), ka_new ())"
proof
  show "\<exists>k\<le>3. \<exists>s'. ka_run (\<lambda>s e. ka_step example_client (\<lambda>_ s. (OpcUa_Good, s)) enough_memory e s)
       (KA_Disconnect # replicate k KA_Thread @ [KA_Disconnected]) iterating_session = Some s'
     \<and> m_client (ka_session s') = 0 \<and> ka_thread s' = Ended \<and> \<not> ka_waiting s'"
    using keep_alive_disconnect [OF iterating_run take_3_race] by (simp add: iterating_session_def)
  show "ka_disconnect (ka_new ()) = Some (Inl (UB NullDeref), ka_new ())"
    using keep_alive_disconnect [of example_client "\<lambda>_ s. (OpcUa_Good, s)" enough_memory "[]" "()" "ka_new ()"]
    by (simp add: without_browse_def ka_new_def UaSession_new_def)
qed

end
