(* ===== verification/UaServers.thy ===== *)
theory UaServers
  imports Compat_Prelude StatusCode
begin

text \<open>
  The server object (\<open>include/uaserver.h\<close>, \<open>src/uaserver.cpp\<close>): its life cycle from \<open>start\<close> to \<open>stop\<close>. What the
  thread and the shutdown do with asynchronous operations is in \<open>AsyncSystem\<close>; here it is about the objects the
  server owns, the thread, and the order in which they are made and deleted. What the stack answers is an
  argument of \<open>start\<close>.
\<close>

subsection \<open>State\<close>

text \<open>The objects on the heap, by address; the code never tells whether a pointer is still valid.\<close>

datatype resource = ServerObject nat | ManagerObject nat | OperationsObject nat

datatype thread_state = NotJoinable | ThreadRuns | ThreadFinished

text \<open>\<open>us_runningFlag\<close>: \<open>None\<close> when no flag was linked, otherwise the flag's current value.\<close>

record UaServer =
  us_server :: nat
  us_nodeManager :: nat
  us_asyncOperations :: nat
  us_thread :: thread_state
  us_runningFlag :: "bool option"
  us_serving :: bool
  us_endpointPortNumber :: "32 word"
  us_alive :: "resource set"

definition UaServer_new :: "resource set \<Rightarrow> UaServer" where
  "UaServer_new heap = \<lparr>us_server = 0, us_nodeManager = 0, us_asyncOperations = 0, us_thread = NotJoinable,
     us_runningFlag = None, us_serving = False, us_endpointPortNumber = 4841, us_alive = heap\<rparr>"

subsection \<open>Operations\<close>

definition addNodeManager :: "nat \<Rightarrow> (UaServer, unit) op" where
  "addNodeManager pNodeManager s =
     (if us_nodeManager s = 0 then (Inr (), s\<lparr>us_nodeManager := pNodeManager\<rparr>)
      else (Inl (Throw (LogicError ''Sorry, only 1 NodeManager is supported.'')), s))"

definition linkRunningFlag :: "bool option \<Rightarrow> UaServer \<Rightarrow> UaServer" where
  "linkRunningFlag flag s = s\<lparr>us_runningFlag := flag\<rparr>"

text \<open>The application writes the flag.\<close>

definition setFlag :: "bool \<Rightarrow> UaServer \<Rightarrow> UaServer" where
  "setFlag b s = s\<lparr>us_runningFlag := map_option (\<lambda>_. b) (us_runningFlag s)\<rparr>"

text \<open>
  \<open>start\<close>: \<open>srv\<close> is what \<open>UA_Server_new\<close> returned (0: null), \<open>async\<close> the address of the new operations object,
  \<open>nsIndex\<close> and \<open>startup\<close> the answers of the stack. The node manager pointer is not checked. Assigning to a
  joinable \<open>std::thread\<close> terminates the program.
\<close>

definition UaServer_start :: "nat \<Rightarrow> nat \<Rightarrow> nat \<Rightarrow> UA_StatusCode \<Rightarrow> (UaServer, unit) op" where
  "UaServer_start srv async nsIndex startup s =
     (if us_runningFlag s = None then (Inl (Throw (LogicError ''Establish the 'running flag' first'')), s)
      else if srv = 0 then (Inl (Throw (RuntimeError ''UA_Server_new failed'')), s\<lparr>us_server := 0\<rparr>)
      else
        (let s1 = s\<lparr>us_server := srv, us_asyncOperations := async, us_serving := False,
                us_alive := us_alive s \<union> {ServerObject srv, OperationsObject async}\<rparr>
         in if us_nodeManager s = 0 then (Inl (UB NullDeref), s1)
            else if ManagerObject (us_nodeManager s) \<notin> us_alive s then (Inl (UB UseAfterFree), s1)
            else if nsIndex \<noteq> 2
            then (Inl (Throw (LogicError ''UA_Server_addNamespace: namespace added to nsindex different than 2'')), s1)
            else
              (let s2 = s1\<lparr>us_serving := True\<rparr>
               in if startup \<noteq> OpcUa_Good
                  then (Inl (Throw (RuntimeError ''UA_Server_run_startup returned not-good, server can't start. Error was:'')), s2)
                  else if us_thread s \<noteq> NotJoinable then (Inl Terminate, s2)
                  else (Inr (), s2\<lparr>us_thread := ThreadRuns\<rparr>))))"

text \<open>One round of \<open>runThread\<close>: iterate and drain while the flag is set, otherwise shut down and return.\<close>

definition runThread_step :: "UaServer \<Rightarrow> UaServer" where
  "runThread_step s = (if us_thread s = ThreadRuns \<and> us_runningFlag s \<noteq> Some True then s\<lparr>us_thread := ThreadFinished\<rparr> else s)"

text \<open>\<open>delete p\<close>: nothing for null, undefined for an object already deleted.\<close>

definition delete_object :: "nat \<Rightarrow> resource \<Rightarrow> resource set \<Rightarrow> resource set res" where
  "delete_object p r alive = (if p = 0 then Inr alive else if r \<in> alive then Inr (alive - {r}) else Inl (UB UseAfterFree))"

text \<open>
  \<open>stop\<close>: \<open>None\<close> when the join blocks because the thread still runs. The stack refuses to delete a null
  server with a status nobody reads.
\<close>

definition UaServer_stop :: "UaServer \<Rightarrow> (unit res \<times> UaServer) option" where
  "UaServer_stop s =
     (if us_thread s = ThreadRuns then None
      else
        (let s1 = s\<lparr>us_thread := NotJoinable\<rparr>
         in if us_asyncOperations s \<noteq> 0 \<and> OperationsObject (us_asyncOperations s) \<notin> us_alive s
            then Some (Inl (UB UseAfterFree), s1)
            else Some (case delete_object (us_nodeManager s) (ManagerObject (us_nodeManager s)) (us_alive s) of
                Inl e \<Rightarrow> (Inl e, s1)
              | Inr h1 \<Rightarrow>
                  (let s2 = s1\<lparr>us_nodeManager := 0, us_alive := h1\<rparr>
                   in case delete_object (us_server s) (ServerObject (us_server s)) h1 of
                       Inl e \<Rightarrow> (Inl e, s2)
                     | Inr h2 \<Rightarrow>
                         (let s3 = s2\<lparr>us_server := 0, us_alive := h2\<rparr>
                          in case delete_object (us_asyncOperations s) (OperationsObject (us_asyncOperations s)) h2 of
                              Inl e \<Rightarrow> (Inl e, s3)
                            | Inr h3 \<Rightarrow> (Inr (), s3\<lparr>us_asyncOperations := 0, us_alive := h3, us_serving := False\<rparr>))))))"

subsection \<open>The life of a server\<close>

text \<open>A server set up as the library wants it: a node manager on the heap, the flag linked and set.\<close>

definition prepared :: "resource set \<Rightarrow> nat \<Rightarrow> UaServer" where
  "prepared heap m = linkRunningFlag (Some True) (snd (addNodeManager m (UaServer_new heap)))"

text \<open>After \<open>stop\<close>: no object left, every pointer null.\<close>

definition stopped :: "resource set \<Rightarrow> nat \<Rightarrow> UaServer \<Rightarrow> bool" where
  "stopped heap m s \<longleftrightarrow> us_alive s = heap - {ManagerObject m} \<and> us_server s = 0 \<and> us_nodeManager s = 0
     \<and> us_asyncOperations s = 0 \<and> us_thread s = NotJoinable \<and> us_runningFlag s \<noteq> None"

lemma prepared_simps:
  "m \<noteq> 0 \<Longrightarrow> prepared heap m = \<lparr>us_server = 0, us_nodeManager = m, us_asyncOperations = 0, us_thread = NotJoinable,
     us_runningFlag = Some True, us_serving = False, us_endpointPortNumber = 4841, us_alive = heap\<rparr>"
  by (simp add: prepared_def linkRunningFlag_def addNodeManager_def UaServer_new_def)

lemma stop_stops:
  assumes "us_thread s \<noteq> ThreadRuns" "us_runningFlag s \<noteq> None" "us_nodeManager s = m" "m \<noteq> 0" "ManagerObject m \<in> heap"
    and "us_alive s = heap \<union> {ServerObject srv, OperationsObject async}" "us_server s = srv" "us_asyncOperations s = async"
    and "srv \<noteq> 0" "async \<noteq> 0" "ServerObject srv \<notin> heap" "OperationsObject async \<notin> heap"
  shows "\<exists>s'. UaServer_stop s = Some (Inr (), s') \<and> stopped heap m s'"
  using assms by (auto simp: UaServer_stop_def Let_def delete_object_def stopped_def)

lemma stopped_again: "stopped heap m s \<Longrightarrow> \<exists>s'. UaServer_stop s = Some (Inr (), s') \<and> stopped heap m s'"
  by (auto simp: UaServer_stop_def Let_def delete_object_def stopped_def)

lemma stopped_restart: "stopped heap m s \<Longrightarrow> srv \<noteq> 0 \<Longrightarrow> fst (UaServer_start srv async ns st s) = Inl (UB NullDeref)"
  by (auto simp: UaServer_start_def Let_def stopped_def)

lemma running_stays: "us_runningFlag s = Some True \<Longrightarrow> (runThread_step ^^ n) s = s"
  by (induction n) (simp_all add: runThread_step_def)

text \<open>C25 (safety). A server is started once and stopped once. A start that the stack refuses throws, one that it
  accepts leaves the thread running until the application clears the flag, and until then \<open>stop\<close> blocks.
  In every case, also after a failed start, \<open>stop\<close> then deletes the stack's server, the node manager and
  the operations object exactly once each and leaves all pointers null; calling it again does no harm. The
  node manager being gone, starting the stopped server again dereferences a null pointer.\<close>

theorem server_life_cycle:
  assumes "m \<noteq> 0" "srv \<noteq> 0" "async \<noteq> 0" "ManagerObject m \<in> heap" "ServerObject srv \<notin> heap" "OperationsObject async \<notin> heap"
    and "UaServer_start srv async nsIndex startup (prepared heap m) = (r, s)"
  shows "(if nsIndex = 2 \<and> startup = OpcUa_Good
      then r = Inr () \<and> us_serving s \<and> (\<forall>n. UaServer_stop ((runThread_step ^^ n) s) = None)
      else (\<exists>e. r = Inl (Throw e)) \<and> us_thread s = NotJoinable)
    \<and> (\<exists>s'. UaServer_stop (runThread_step (setFlag False s)) = Some (Inr (), s') \<and> stopped heap m s'
         \<and> (\<exists>s''. UaServer_stop s' = Some (Inr (), s'') \<and> stopped heap m s''
              \<and> fst (UaServer_start srv' async' 2 OpcUa_Good s'') = (if srv' = 0 then Inl (Throw (RuntimeError ''UA_Server_new failed'')) else Inl (UB NullDeref))))"
proof -
  have s: "us_runningFlag s = Some True" "us_server s = srv" "us_nodeManager s = m" "us_asyncOperations s = async"
    "us_alive s = heap \<union> {ServerObject srv, OperationsObject async}"
    "us_thread s = (if nsIndex = 2 \<and> startup = OpcUa_Good then ThreadRuns else NotJoinable)"
    "if nsIndex = 2 \<and> startup = OpcUa_Good then r = Inr () \<and> us_serving s else (\<exists>e. r = Inl (Throw e))"
    using assms by (auto simp: UaServer_start_def prepared_simps Let_def split: if_splits)
  then have "UaServer_stop ((runThread_step ^^ n) s) = None" if "nsIndex = 2 \<and> startup = OpcUa_Good" for n
    using that by (simp add: running_stays UaServer_stop_def)
  moreover have "\<exists>s'. UaServer_stop (runThread_step (setFlag False s)) = Some (Inr (), s') \<and> stopped heap m s'"
    by (rule stop_stops [of _ m heap srv async]) (use s assms in \<open>auto simp: runThread_step_def setFlag_def\<close>)
  then obtain s' where s': "UaServer_stop (runThread_step (setFlag False s)) = Some (Inr (), s')" "stopped heap m s'" by blast
  from stopped_again [OF s'(2)] obtain s'' where s'': "UaServer_stop s' = Some (Inr (), s'')" "stopped heap m s''" by blast
  have "fst (UaServer_start srv' async' 2 OpcUa_Good s'') = (if srv' = 0 then Inl (Throw (RuntimeError ''UA_Server_new failed'')) else Inl (UB NullDeref))"
    using stopped_restart [OF s''(2)] s''(2) by (cases "srv' = 0") (auto simp: UaServer_start_def stopped_def)
  ultimately show ?thesis using s s' s'' by auto
qed

theorem server_life_cycle_witness:
  "\<exists>s'. UaServer_stop (runThread_step (setFlag False (snd (UaServer_start 16 24 2 OpcUa_Good (prepared {ManagerObject 8} 8)))))
     = Some (Inr (), s') \<and> us_alive s' = {}"
  using server_life_cycle [of 8 16 24 "{ManagerObject 8}" 2 OpcUa_Good
      "fst (UaServer_start 16 24 2 OpcUa_Good (prepared {ManagerObject 8} 8))"
      "snd (UaServer_start 16 24 2 OpcUa_Good (prepared {ManagerObject 8} 8))" 0 0]
  by (auto simp: stopped_def)

text \<open>Starting a running server terminates the program.\<close>

lemma start_running:
  assumes "us_thread s \<noteq> NotJoinable" "us_runningFlag s \<noteq> None" "ManagerObject (us_nodeManager s) \<in> us_alive s" "us_nodeManager s \<noteq> 0" "srv \<noteq> 0"
  shows "fst (UaServer_start srv async 2 OpcUa_Good s) = Inl Terminate"
  using assms by (simp add: UaServer_start_def Let_def)

end
