(* ===== verification/UaServerConfig.thy ===== *)
theory UaServerConfig
  imports UaServers UaStrings UA_DateParse
begin

text \<open>
  The loader of the server's configuration file (\<open>UaServer::setServerConfig\<close> in \<open>src/uaserver.cpp\<close>). The parser of the file
  (\<open>load\<close>) is generated by the build from \<open>src/xsd/ServerConfig.xsd\<close>; it and the functions of boost that match the endpoint's URL
  (\<open>regex_match\<close>) and read its port (\<open>lexical_cast\<close>) are parameters, with their documented behaviour as hypotheses.
\<close>

subsection \<open>The loader\<close>

text \<open>In the default build the call only logs.\<close>

definition setServerConfig_ignored :: "UaString \<Rightarrow> UaString \<Rightarrow> (UaServer, unit) op" where
  "setServerConfig_ignored configurationFile applicationPath s = (Inr (), s)"

text \<open>
  \<open>load\<close> gives the URLs of the endpoints, or none when it throws a parsing exception; \<open>regex_match\<close> gives the group
  \<open>port\<close> of a match, \<open>lexical_cast\<close> none for \<open>bad_lexical_cast\<close>.
\<close>

definition setServerConfig :: "(string \<Rightarrow> string list option) \<Rightarrow> (string \<Rightarrow> string option) \<Rightarrow> (string \<Rightarrow> 32 word option)
    \<Rightarrow> UaString \<Rightarrow> (UaServer, unit) op" where
  "setServerConfig load regex_match lexical_cast configurationFile s =
     (case UaString_toUtf8 configurationFile of
        Inl e \<Rightarrow> (Inl e, s)
      | Inr path \<Rightarrow> (case load path of
          None \<Rightarrow> (Inl (Throw (RuntimeError ''ServerConfig: failed to load ServerConfig. The exact problem description should have been logged.'')), s)
        | Some urls \<Rightarrow>
            if length urls > 1 then (Inl (Throw (RuntimeError ''No support for multiple UaEndpoints yet, simplify your ServerConfig.xml'')), s)
            else (case urls of
                [] \<Rightarrow> (Inl (UB OutOfBounds), s)
              | endpointUrl # _ \<Rightarrow> (case regex_match endpointUrl of
                  None \<Rightarrow> (Inl (Throw (RuntimeError ''Can't parse UaEndpoint/Url, note it should look like'')), s)
                | Some port \<Rightarrow> (case lexical_cast port of
                    None \<Rightarrow> (Inl (Throw BadCast), s)
                  | Some endpointUrlPort \<Rightarrow> (Inr (), s\<lparr>us_endpointPortNumber := endpointUrlPort\<rparr>))))))"

text \<open>The stack takes the port as a 16-bit number.\<close>

definition listening_port :: "UaServer \<Rightarrow> 16 word" where
  "listening_port s = ucast (us_endpointPortNumber s)"

subsection \<open>Its libraries\<close>

definition endpoint_url :: "string \<Rightarrow> string" where
  "endpoint_url port = ''opc.tcp://[NodeName]:'' @ port"

text \<open>A match of the whole URL with \<open>^opc\.tcp:\/\/\[NodeName\]:(?<port>\d+)$\<close>.\<close>

definition regex_ok :: "(string \<Rightarrow> string option) \<Rightarrow> bool" where
  "regex_ok regex_match \<longleftrightarrow> (\<forall>url port. regex_match url = Some port \<longleftrightarrow> url = endpoint_url port \<and> port \<noteq> [] \<and> list_all is_digit port)"

text \<open>Reading an unsigned number of 32 bits.\<close>

definition cast_ok :: "(string \<Rightarrow> 32 word option) \<Rightarrow> bool" where
  "cast_ok lexical_cast \<longleftrightarrow> (\<forall>n. lexical_cast (show_base 10 n) = (if n < 2 ^ 32 then Some (word_of_nat n) else None))"

lemma show_digits: "list_all is_digit (show_base 10 n)"
proof (induction n rule: less_induct)
  case (less n)
  show ?case
  proof (cases "n < 10")
    case True
    then show ?thesis by (subst show_base.simps) (simp add: is_digit_digit)
  next
    case False
    then show ?thesis using less.IH [of "n div 10"] by (subst show_base.simps) (simp add: is_digit_digit)
  qed
qed

lemma show_value: "foldl (\<lambda>a c. 10 * a + (of_char c - 48)) 0 (show_base 10 n) = int n"
proof (induction n rule: less_induct)
  case (less n)
  show ?case
  proof (cases "n < 10")
    case True
    then show ?thesis by (subst show_base.simps) (simp add: digit_value)
  next
    case False
    have "10 * int (n div 10) + int (n mod 10) = int n" using mult_div_mod_eq [of 10 "int n"] by (simp add: zdiv_int zmod_int)
    then show ?thesis using False less.IH [of "n div 10"] by (subst show_base.simps) (simp add: digit_value)
  qed
qed

lemma endpoint_url_inj: "endpoint_url a = endpoint_url b \<longleftrightarrow> a = b"
  by (simp add: endpoint_url_def)

text \<open>Loading a configuration with one endpoint \<open>opc.tcp://[NodeName]:p\<close> sets the port to \<open>p\<close>, for every number of at
  most 32 bits; the stack then listens on the port modulo 65536, as it takes 16 bits. A larger number is
  refused. Any other valid configuration, with more endpoints or an URL that does not look like this, and any
  file that is not valid, is refused with a message. A refusal leaves the server as it was.\<close>

theorem server_config_port:
  assumes "regex_ok regex_match" "cast_ok lexical_cast" "load (c_str (bstr_bytes file)) = urls" "urls \<noteq> Some []"
  shows "(\<forall>p. urls = Some [endpoint_url (show_base 10 p)] \<longrightarrow>
      (if p < 2 ^ 32 then \<exists>s'. setServerConfig load regex_match lexical_cast (Live file) s = (Inr (), s')
            \<and> s' = s\<lparr>us_endpointPortNumber := word_of_nat p\<rparr> \<and> unat (listening_port s') = p mod 65536
       else setServerConfig load regex_match lexical_cast (Live file) s = (Inl (Throw BadCast), s)))
    \<and> ((\<forall>port. port \<noteq> [] \<longrightarrow> list_all is_digit port \<longrightarrow> urls \<noteq> Some [endpoint_url port]) \<longrightarrow>
        (\<exists>m. setServerConfig load regex_match lexical_cast (Live file) s = (Inl (Throw (RuntimeError m)), s)))"
proof (intro conjI allI impI)
  fix p
  assume u: "urls = Some [endpoint_url (show_base 10 p)]"
  have m: "regex_match (endpoint_url (show_base 10 p)) = Some (show_base 10 p)"
    using assms(1) show_digits [of p] by (simp add: regex_ok_def)
  have "unat (ucast (word_of_nat p :: 32 word) :: 16 word) = p mod 65536" if "p < 2 ^ 32"
    using that by (simp add: unsigned_ucast_eq take_bit_eq_mod unsigned_of_nat)
  then show "if p < 2 ^ 32 then \<exists>s'. setServerConfig load regex_match lexical_cast (Live file) s = (Inr (), s')
            \<and> s' = s\<lparr>us_endpointPortNumber := word_of_nat p\<rparr> \<and> unat (listening_port s') = p mod 65536
       else setServerConfig load regex_match lexical_cast (Live file) s = (Inl (Throw BadCast), s)"
    using assms(2,3) u m by (simp add: setServerConfig_def UaString_toUtf8_def cast_ok_def listening_port_def)
next
  assume other: "\<forall>port. port \<noteq> [] \<longrightarrow> list_all is_digit port \<longrightarrow> urls \<noteq> Some [endpoint_url port]"
  show "\<exists>m. setServerConfig load regex_match lexical_cast (Live file) s = (Inl (Throw (RuntimeError m)), s)"
  proof (cases "\<exists>url. urls = Some [url]")
    case True
    then obtain url where url: "urls = Some [url]" by blast
    then have "regex_match url = None" using other assms(1) by (cases "regex_match url") (auto simp: regex_ok_def)
    then show ?thesis using url assms(3) by (simp add: setServerConfig_def UaString_toUtf8_def)
  next
    case False
    then show ?thesis using assms(3,4)
      by (cases urls; cases "the urls"; cases "tl (the urls)") (auto simp: setServerConfig_def UaString_toUtf8_def)
  qed
qed

subsection \<open>Witness\<close>

definition exact_match :: "string \<Rightarrow> string option" where
  "exact_match url = (let port = drop 21 url
     in if take 21 url = endpoint_url [] \<and> port \<noteq> [] \<and> list_all is_digit port then Some port else None)"

definition exact_cast :: "string \<Rightarrow> 32 word option" where
  "exact_cast s = (let n = foldl (\<lambda>a c. 10 * a + (of_char c - 48)) 0 s :: int in if n < 2 ^ 32 then Some (word_of_int n) else None)"

lemma endpoint_len: "length (endpoint_url p) = 21 + length p"
  by (simp add: endpoint_url_def)

lemma exact_match_ok: "regex_ok exact_match"
proof -
  have len: "length (endpoint_url []) = 21" by (simp add: endpoint_url_def)
  have app: "endpoint_url p = endpoint_url [] @ p" for p by (simp add: endpoint_url_def)
  have drop: "drop 21 (endpoint_url p) = p" "take 21 (endpoint_url p) = endpoint_url []" for p using len by (subst app, simp)+
  show ?thesis
    unfolding regex_ok_def
  proof (intro allI)
    fix url port
    have "take 21 url = endpoint_url [] \<Longrightarrow> url = endpoint_url (drop 21 url)"
      using append_take_drop_id [of 21 url] app [of "drop 21 url"] by metis
    then show "(exact_match url = Some port) = (url = endpoint_url port \<and> port \<noteq> [] \<and> list_all is_digit port)"
      by (auto simp: exact_match_def Let_def drop endpoint_len split: if_splits)
  qed
qed

lemma exact_cast_ok: "cast_ok exact_cast"
  by (simp add: cast_ok_def exact_cast_def show_value Let_def)

theorem server_config_port_witness:
  "setServerConfig (\<lambda>_. Some [endpoint_url (show_base 10 70000)]) exact_match exact_cast (Live UA_STRING_NULL) (UaServer_new {})
     = (Inr (), (UaServer_new {})\<lparr>us_endpointPortNumber := 70000\<rparr>)
   \<and> listening_port ((UaServer_new {})\<lparr>us_endpointPortNumber := 70000\<rparr>) = 4464
   \<and> (\<exists>m. setServerConfig (\<lambda>_. None) exact_match exact_cast (Live UA_STRING_NULL) (UaServer_new {}) = (Inl (Throw (RuntimeError m)), UaServer_new {}))"
  using server_config_port [OF exact_match_ok exact_cast_ok, of "\<lambda>_. Some [endpoint_url (show_base 10 70000)]" UA_STRING_NULL _ "UaServer_new {}", OF refl, THEN conjunct1, THEN spec, of 70000]
    server_config_port [OF exact_match_ok exact_cast_ok, of "\<lambda>_. None" UA_STRING_NULL _ "UaServer_new {}", OF refl]
  by (simp add: listening_port_def)

end
