(* ===== verification/LogItLogger.thy ===== *)
theory LogItLogger
  imports Compat_Prelude
begin

text \<open>
  The bridge from the stack's logger to LogIt (\<open>include/logit_logger.h\<close>, \<open>src/logit_logger.cpp\<close>). LogIt is a separate
  library: its table of components is the state, the order of its levels and the formatting of a message are
  arguments; \<open>li_lines\<close> are the lines given to the macro \<open>LOG\<close>. Handle 0 stands for \<open>INVALID_HANDLE\<close>.
\<close>

datatype UA_LogLevel = UA_LOGLEVEL_TRACE | UA_LOGLEVEL_DEBUG | UA_LOGLEVEL_INFO | UA_LOGLEVEL_WARNING
  | UA_LOGLEVEL_ERROR | UA_LOGLEVEL_FATAL | UA_LOGLEVEL_OTHER

datatype LOG_LEVEL = Log_TRC | Log_DBG | Log_INF | Log_WRN | Log_ERR

datatype UA_LogCategory = UA_LOGCATEGORY_NETWORK | UA_LOGCATEGORY_SECURECHANNEL | UA_LOGCATEGORY_SESSION
  | UA_LOGCATEGORY_SERVER | UA_LOGCATEGORY_CLIENT | UA_LOGCATEGORY_USERLAND | UA_LOGCATEGORY_SECURITYPOLICY
  | UA_LOGCATEGORY_EVENTLOOP | UA_LOGCATEGORY_PUBSUB | UA_LOGCATEGORY_DISCOVERY | UA_LOGCATEGORY_OTHER

text \<open>\<open>li_handle\<close>: the handle of the component named open62541 in LogIt's table; \<open>li_level\<close>: its level, if known.\<close>

record LogIt =
  li_handle :: nat
  li_level :: "LOG_LEVEL option"
  logItComponentHandle :: nat
  li_lines :: "(LOG_LEVEL \<times> nat \<times> string) list"

definition LogIt_new :: LogIt where
  "LogIt_new = \<lparr>li_handle = 0, li_level = None, logItComponentHandle = 0, li_lines = []\<rparr>"

text \<open>\<open>registered\<close> is the handle LogIt gives out.\<close>

definition initializeOpen62541LogIt :: "nat \<Rightarrow> LOG_LEVEL \<Rightarrow> LogIt \<Rightarrow> LogIt" where
  "initializeOpen62541LogIt registered logLevel s =
     (if li_handle s = 0
      then s\<lparr>li_handle := registered, li_level := Some logLevel, logItComponentHandle := registered\<rparr> else s)"

definition logit_level :: "UA_LogLevel \<Rightarrow> LOG_LEVEL" where
  "logit_level level = (case level of
      UA_LOGLEVEL_DEBUG \<Rightarrow> Log_DBG | UA_LOGLEVEL_ERROR \<Rightarrow> Log_ERR | UA_LOGLEVEL_FATAL \<Rightarrow> Log_ERR | UA_LOGLEVEL_INFO \<Rightarrow> Log_INF
    | UA_LOGLEVEL_TRACE \<Rightarrow> Log_TRC | UA_LOGLEVEL_WARNING \<Rightarrow> Log_WRN | UA_LOGLEVEL_OTHER \<Rightarrow> Log_ERR)"

definition categoryStr :: "UA_LogCategory \<Rightarrow> string" where
  "categoryStr category = (case category of
      UA_LOGCATEGORY_CLIENT \<Rightarrow> ''client'' | UA_LOGCATEGORY_NETWORK \<Rightarrow> ''network''
    | UA_LOGCATEGORY_SECURECHANNEL \<Rightarrow> ''securechannel'' | UA_LOGCATEGORY_SECURITYPOLICY \<Rightarrow> ''securitypolicy''
    | UA_LOGCATEGORY_SERVER \<Rightarrow> ''server'' | UA_LOGCATEGORY_SESSION \<Rightarrow> ''session'' | UA_LOGCATEGORY_USERLAND \<Rightarrow> ''userland''
    | UA_LOGCATEGORY_EVENTLOOP \<Rightarrow> ''eventloop'' | UA_LOGCATEGORY_PUBSUB \<Rightarrow> ''pubsub''
    | UA_LOGCATEGORY_DISCOVERY \<Rightarrow> ''discovery'' | UA_LOGCATEGORY_OTHER \<Rightarrow> ''category_unknown'')"

text \<open>
  \<open>rank\<close> orders the levels; \<open>text\<close> is the formatted message, cut to the buffer: \<open>mp_vsnprintf\<close> is given 1023 bytes
  and writes at most 1022 characters.
\<close>

definition logFromOpen62541 :: "(LOG_LEVEL \<Rightarrow> nat) \<Rightarrow> UA_LogLevel \<Rightarrow> UA_LogCategory \<Rightarrow> string \<Rightarrow> LogIt \<Rightarrow> LogIt" where
  "logFromOpen62541 rank level category text s =
     (if li_handle s = 0 then s
      else case li_level s of None \<Rightarrow> s
        | Some userLogLevel \<Rightarrow>
            if rank userLogLevel > rank (logit_level level) then s
            else s\<lparr>li_lines := li_lines s @ [(logit_level level, logItComponentHandle s,
                   categoryStr category @ '': '' @ c_str (take 1022 text))]\<rparr>)"

text \<open>Initialising twice is initialising once.\<close>

lemma initialize_idempotent:
  "h \<noteq> 0 \<Longrightarrow> initializeOpen62541LogIt h' l' (initializeOpen62541LogIt h l s) = initializeOpen62541LogIt h l s"
  by (simp add: initializeOpen62541LogIt_def)

text \<open>
  If the application has registered the component itself, the bridge never learns its handle: every line it
  logs carries the invalid one.
\<close>

lemma foreign_component_invalid:
  assumes "li_handle s \<noteq> 0" "logItComponentHandle s = 0" "li_lines s = []"
  shows "\<forall>(l, h, t)\<in>set (li_lines (logFromOpen62541 rank level category text (initializeOpen62541LogIt h' lv s))). h = 0"
  using assms by (auto simp: logFromOpen62541_def initializeOpen62541LogIt_def split: option.split)

lemma log_respects_level:
  "li_level s = Some u \<Longrightarrow> rank (logit_level level) < rank u \<Longrightarrow> logFromOpen62541 rank level category text s = s"
  by (simp add: logFromOpen62541_def)

end
