(* ===== verification/UA_Orders.thy ===== *)
theory UA_Orders
  imports UA_Stack "HOL-Library.List_Lexorder" "HOL-Library.Product_Lexorder"
begin

text \<open>
  The three-way orders of the stack (\<open>stringOrder\<close>, \<open>guidOrder\<close>, \<open>nodeIdOrder\<close>): the contract of a comparison as a
  locale, with the laws every client of an order relies on, and its interpretation on each of them. Equality of
  node ids is the equality this order decides.
\<close>

subsection \<open>The contract\<close>

fun flip_order :: "UA_Order \<Rightarrow> UA_Order" where
  "flip_order UA_ORDER_LESS = UA_ORDER_MORE"
| "flip_order UA_ORDER_EQ = UA_ORDER_EQ"
| "flip_order UA_ORDER_MORE = UA_ORDER_LESS"

text \<open>A comparison is the comparison of a key that determines the object, in a linear order.\<close>

locale comparison =
  fixes compare :: "'a \<Rightarrow> 'a \<Rightarrow> UA_Order" and valid :: "'a \<Rightarrow> bool" and key :: "'a \<Rightarrow> 'k::linorder"
  assumes compare_key: "valid x \<Longrightarrow> valid y \<Longrightarrow> compare x y = numericOrder (key x) (key y)"
    and key_inj: "valid x \<Longrightarrow> valid y \<Longrightarrow> key x = key y \<Longrightarrow> x = y"
begin

lemma eq_iff: "valid x \<Longrightarrow> valid y \<Longrightarrow> compare x y = UA_ORDER_EQ \<longleftrightarrow> x = y"
  using compare_key key_inj by auto

lemma less_iff: "valid x \<Longrightarrow> valid y \<Longrightarrow> compare x y = UA_ORDER_LESS \<longleftrightarrow> key x < key y"
  using compare_key by (auto simp: numericOrder_def)

lemma more_iff: "valid x \<Longrightarrow> valid y \<Longrightarrow> compare x y = UA_ORDER_MORE \<longleftrightarrow> key y < key x"
  using compare_key by (auto simp: numericOrder_def)

lemma flip: "valid x \<Longrightarrow> valid y \<Longrightarrow> compare y x = flip_order (compare x y)"
  using compare_key by (auto simp: numericOrder_def)

lemma less_trans: "valid x \<Longrightarrow> valid y \<Longrightarrow> valid z \<Longrightarrow>
    compare x y = UA_ORDER_LESS \<Longrightarrow> compare y z = UA_ORDER_LESS \<Longrightarrow> compare x z = UA_ORDER_LESS"
  using less_iff less_trans by metis

text \<open>The three outcomes are exclusive and exhaust all pairs: the objects are linearly ordered.\<close>

lemma total: "valid x \<Longrightarrow> valid y \<Longrightarrow> compare x y = UA_ORDER_LESS \<or> x = y \<or> compare y x = UA_ORDER_LESS"
  using less_iff key_inj neqE by metis

end

subsection \<open>Keys\<close>

lemma memcmp_less: "memcmp xs ys < 0 \<longleftrightarrow> xs < ys"
  by (induction xs ys rule: memcmp.induct) auto

lemma memcmp_order:
  "(if memcmp xs ys \<noteq> 0 then (if memcmp xs ys < 0 then UA_ORDER_LESS else UA_ORDER_MORE) else UA_ORDER_EQ) = numericOrder xs ys"
  by (simp add: numericOrder_def memcmp_less)

text \<open>Shorter strings first, the null string before the empty one, strings of one length by their bytes.\<close>

definition string_key :: "'a::linorder bstr \<Rightarrow> nat \<times> bool \<times> 'a list" where
  "string_key s = (bs_length s, bs_data s \<noteq> Null, bstr_bytes s)"

definition guid_key :: "UA_Guid \<Rightarrow> 32 word \<times> 16 word \<times> 16 word \<times> byte list" where
  "guid_key g = (data1 g, data2 g, data3 g, data4 g)"

text \<open>An identifier of one type has the least key of the other types in their components.\<close>

definition guid_least :: UA_Guid where
  "guid_least = \<lparr>data1 = 0, data2 = 0, data3 = 0, data4 = []\<rparr>"

definition identifier_key :: "UA_Identifier \<Rightarrow> nat \<times> 32 word \<times> (32 word \<times> 16 word \<times> 16 word \<times> byte list)
    \<times> (nat \<times> bool \<times> string) \<times> (nat \<times> bool \<times> byte list)" where
  "identifier_key i = (identifierType i, (case i of IdNumeric n \<Rightarrow> n | _ \<Rightarrow> 0),
     guid_key (case i of IdGuid g \<Rightarrow> g | _ \<Rightarrow> guid_least),
     string_key (case i of IdString s \<Rightarrow> s | _ \<Rightarrow> UA_STRING_NULL),
     string_key (case i of IdByteString s \<Rightarrow> s | _ \<Rightarrow> UA_STRING_NULL))"

definition nodeid_key where
  "nodeid_key n = (nid_namespaceIndex n, identifier_key (nid_identifier n))"

lemma wf_bstr_cases:
  assumes "wf_bstr s"
  obtains "s = UA_STRING_NULL" | "s = \<lparr>bs_length = 0, bs_data = Sentinel\<rparr>"
    | x xs where "s = \<lparr>bs_length = length (x # xs), bs_data = Heap (x # xs)\<rparr>"
proof (cases s)
  case (fields n d)
  then show ?thesis using assms that by (cases d; cases "ptr_elems d") (auto simp: wf_bstr_def UA_STRING_NULL_def)
qed

lemma string_key_inj: "wf_bstr s \<Longrightarrow> wf_bstr t \<Longrightarrow> string_key s = string_key t \<Longrightarrow> s = t"
  by (elim wf_bstr_cases) (auto simp: string_key_def UA_STRING_NULL_def bstr_bytes_def)

lemma stringOrder_key: "wf_bstr s \<Longrightarrow> wf_bstr t \<Longrightarrow> stringOrder s t = numericOrder (string_key s) (string_key t)"
  by (elim wf_bstr_cases)
     (auto simp: stringOrder_def Let_def string_key_def bstr_bytes_def numericOrder_def memcmp_less UA_STRING_NULL_def
       simp del: memcmp.simps)

lemma guidOrder_key: "guidOrder g h = numericOrder (guid_key g) (guid_key h)"
  by (auto simp: guidOrder_def Let_def guid_key_def numericOrder_def memcmp_less)

lemma numericOrder_pair: "numericOrder (a, b) (c, d) =
    (if a \<noteq> c then (if a < c then UA_ORDER_LESS else UA_ORDER_MORE) else numericOrder b d)"
  by (auto simp: numericOrder_def)

lemma numericOrder_refl [simp]: "numericOrder x x = UA_ORDER_EQ"
  by (simp add: numericOrder_def)

definition wf_identifier :: "UA_Identifier \<Rightarrow> bool" where
  "wf_identifier i = (case i of IdString s \<Rightarrow> wf_bstr s | IdByteString s \<Rightarrow> wf_bstr s | _ \<Rightarrow> True)"

lemma identifierOrder_key:
  "wf_identifier i \<Longrightarrow> wf_identifier j \<Longrightarrow> identifierOrder i j = numericOrder (identifier_key i) (identifier_key j)"
  by (cases i; cases j)
     (simp_all add: wf_identifier_def identifierOrder_def identifier_key_def identifierType_def numericOrder_pair stringOrder_key guidOrder_key,
      simp_all add: numericOrder_def)

lemma identifier_key_inj: "wf_identifier i \<Longrightarrow> wf_identifier j \<Longrightarrow> identifier_key i = identifier_key j \<Longrightarrow> i = j"
  by (cases i; cases j)
     (auto simp: wf_identifier_def identifier_key_def identifierType_def string_key_inj guid_key_def)

subsection \<open>The orders of the stack\<close>

interpretation string_order: comparison stringOrder wf_bstr string_key
  by unfold_locales (simp_all add: stringOrder_key string_key_inj)

interpretation guid_order: comparison guidOrder "\<lambda>_. True" guid_key
  by unfold_locales (simp_all add: guidOrder_key guid_key_def)

interpretation identifier_order: comparison identifierOrder wf_identifier identifier_key
  by unfold_locales (simp_all add: identifierOrder_key identifier_key_inj)

lemma wf_nodeid_identifier: "wf_nodeid n \<longleftrightarrow> wf_identifier (nid_identifier n)"
  by (simp add: wf_nodeid_def wf_identifier_def)

interpretation nodeid_order: comparison nodeIdOrder wf_nodeid nodeid_key
proof unfold_locales
  fix m n :: UA_NodeId
  assume "wf_nodeid m" "wf_nodeid n"
  then show "nodeIdOrder m n = numericOrder (nodeid_key m) (nodeid_key n)"
    by (simp add: nodeIdOrder_def nodeid_key_def numericOrder_pair identifierOrder_key wf_nodeid_identifier)
  assume "nodeid_key m = nodeid_key n"
  with \<open>wf_nodeid m\<close> \<open>wf_nodeid n\<close> show "m = n"
    by (simp add: nodeid_key_def wf_nodeid_identifier identifier_key_inj)
qed

text \<open>C40 (equivalence). The stack's comparison of node ids is a linear order: swapping the arguments swaps the answer, it is
  transitive, and it answers equal exactly for one and the same identifier: namespace, type and identifier agree,
  where the null string differs from the empty one. So the equality tests the library delegates to it are the
  equality of well-formed identifiers.\<close>

theorem nodeIdOrder_linear:
  assumes "wf_nodeid l" "wf_nodeid m" "wf_nodeid n"
  shows "nodeIdOrder n m = flip_order (nodeIdOrder m n) \<and> (nodeIdOrder m n = UA_ORDER_EQ \<longleftrightarrow> m = n)
    \<and> (UA_NodeId_equal m n \<longleftrightarrow> m = n)
    \<and> (nodeIdOrder l m = UA_ORDER_LESS \<longrightarrow> nodeIdOrder m n = UA_ORDER_LESS \<longrightarrow> nodeIdOrder l n = UA_ORDER_LESS)"
  using nodeid_order.flip [OF assms(2,3)] nodeid_order.eq_iff [OF assms(2,3)] nodeid_order.less_trans [OF assms]
  by (simp add: UA_NodeId_equal_def)

theorem nodeIdOrder_linear_witness:
  "nodeIdOrder (UA_NODEID_NUMERIC 2 7) \<lparr>nid_namespaceIndex = 2, nid_identifier = IdString UA_STRING_NULL\<rparr> = UA_ORDER_LESS
   \<and> nodeIdOrder \<lparr>nid_namespaceIndex = 2, nid_identifier = IdString UA_STRING_NULL\<rparr> (UA_NODEID_NUMERIC 2 7) = UA_ORDER_MORE
   \<and> \<not> UA_NodeId_equal (UA_NODEID_NUMERIC 2 7) \<lparr>nid_namespaceIndex = 2, nid_identifier = IdString UA_STRING_NULL\<rparr>"
proof -
  have "wf_nodeid (UA_NODEID_NUMERIC 2 7)" "wf_nodeid \<lparr>nid_namespaceIndex = 2, nid_identifier = IdString UA_STRING_NULL\<rparr>"
    by (simp_all add: wf_nodeid_def UA_NODEID_NUMERIC_def)
  moreover have "nodeIdOrder (UA_NODEID_NUMERIC 2 7) \<lparr>nid_namespaceIndex = 2, nid_identifier = IdString UA_STRING_NULL\<rparr> = UA_ORDER_LESS"
    by (simp add: nodeIdOrder_def UA_NODEID_NUMERIC_def identifierOrder_def identifierType_def numericOrder_def)
  ultimately show ?thesis
    using nodeIdOrder_linear [of "UA_NODEID_NUMERIC 2 7" "UA_NODEID_NUMERIC 2 7"
        "\<lparr>nid_namespaceIndex = 2, nid_identifier = IdString UA_STRING_NULL\<rparr>"] by (auto simp: UA_NODEID_NUMERIC_def)
qed

end
