(* ===== verification/UA_Encoding.thy ===== *)
theory UA_Encoding
  imports UA_Values
begin

text \<open>
  The binary encoder of the bundled stack (\<open>ua_types_encoding_binary.c\<close> of the amalgamation) for the values a variant of
  the wrapper can hold. Little-endian machines with IEEE floats, where arrays of numbers are copied as they lie in memory.
  Encoders of types the library never looks into are a parameter, the rest of the stack's jump table.
\<close>

abbreviation OpcUa_BadEncodingError :: UA_StatusCode where "OpcUa_BadEncodingError \<equiv> 0x80060000"
abbreviation OpcUa_BadDecodingError :: UA_StatusCode where "OpcUa_BadDecodingError \<equiv> 0x80070000"
abbreviation OpcUa_BadEncodingLimitsExceeded :: UA_StatusCode where "OpcUa_BadEncodingLimitsExceeded \<equiv> 0x80080000"

subsection \<open>Numbers in memory\<close>

text \<open>\<open>memcpy\<close> of an integer, least byte first.\<close>

primrec bytes_of :: "nat \<Rightarrow> 'a::len word \<Rightarrow> byte list" where
  "bytes_of 0 w = []"
| "bytes_of (Suc n) w = ucast w # bytes_of n (drop_bit 8 w)"

primrec word_of_bytes :: "byte list \<Rightarrow> 'a::len word" where
  "word_of_bytes [] = 0"
| "word_of_bytes (b # bs) = ucast b OR push_bit 8 (word_of_bytes bs)"

lemma length_bytes_of [simp]: "length (bytes_of n w) = n"
  by (induction n arbitrary: w) auto

lemma word_of_bytes_of: "word_of_bytes (bytes_of n w) = take_bit (8 * n) (w :: 'a::len word)"
proof (induction n arbitrary: w)
  case (Suc n)
  have "ucast (ucast w :: byte) OR push_bit 8 (take_bit (8 * n) (drop_bit 8 w)) = take_bit (8 * Suc n) w"
    by (rule bit_word_eqI) (auto simp: bit_simps)
  then show ?case by (simp add: Suc.IH)
qed simp

lemma word_of_bytes_whole [simp]:
  "word_of_bytes (bytes_of 2 (w :: 16 word)) = w" "word_of_bytes (bytes_of 4 (x :: 32 word)) = x" "word_of_bytes (bytes_of 8 (y :: 64 word)) = y"
  by (simp_all add: word_of_bytes_of take_bit_word_eq_self)

definition char_byte :: "char \<Rightarrow> byte" where "char_byte c = word_of_nat (of_char c)"
definition byte_char :: "byte \<Rightarrow> char" where "byte_char b = char_of (unat b)"

lemma byte_char_inverse [simp]: "byte_char (char_byte c) = c"
proof -
  have "(of_char c :: nat) mod 256 = of_char c" by simp
  then show ?thesis by (simp add: byte_char_def char_byte_def unsigned_of_nat take_bit_eq_mod)
qed

subsection \<open>The encoding context\<close>

text \<open>
  \<open>en_buf\<close> is what lies between the start of the current buffer and \<open>pos\<close>, \<open>en_end\<close> the size of the buffer; it is \<open>None\<close> when
  \<open>end\<close> is NULL, where nothing is stored and only the length counts. \<open>en_sent\<close> are the buffers the exchange callback got with
  their sizes, \<open>en_next\<close> is what it will answer: a status and the size of the next buffer. An empty list is a callback that
  is missing or fails from now on. \<open>en_past\<close> is what an attempt that ran out of room has left in the current buffer from \<open>pos\<close> on.
\<close>

record enc_ctx =
  en_buf :: "byte list"
  en_past :: "byte list"
  en_end :: "nat option"
  en_sent :: "(byte list \<times> nat) list"
  en_next :: "(UA_StatusCode \<times> nat) list"

type_synonym enc = "enc_ctx \<Rightarrow> (UA_StatusCode \<times> enc_ctx) res"

definition stored :: "byte list \<Rightarrow> enc_ctx \<Rightarrow> enc_ctx" where
  "stored bs ctx = ctx\<lparr>en_buf := en_buf ctx @ bs, en_past := drop (length bs) (en_past ctx)\<rparr>"

text \<open>\<open>IF_CHECK_BUFSIZE\<close> around the copy of a few bytes.\<close>

definition emit :: "byte list \<Rightarrow> enc" where
  "emit bs ctx = (case en_end ctx of
      None \<Rightarrow> Inr (OpcUa_Good, stored bs ctx)
    | Some e \<Rightarrow> if length (en_buf ctx) + length bs \<le> e then Inr (OpcUa_Good, stored bs ctx)
        else Inr (OpcUa_BadEncodingLimitsExceeded, ctx))"

definition give_up :: "UA_StatusCode \<Rightarrow> enc" where
  "give_up c ctx = Inr (c, ctx)"

text \<open>\<open>ret = f; UA_CHECK_STATUS(ret, return ret); ret = g\<close>, and \<open>ret = f; ret |= g\<close>.\<close>

definition then_enc :: "enc \<Rightarrow> enc \<Rightarrow> enc" where
  "then_enc f g ctx = bind_res (f ctx) (\<lambda>(c, ctx1). if c \<noteq> OpcUa_Good then Inr (c, ctx1) else g ctx1)"

definition or_enc :: "enc \<Rightarrow> enc \<Rightarrow> enc" where
  "or_enc f g ctx = bind_res (f ctx) (\<lambda>(c1, ctx1). bind_res (g ctx1) (\<lambda>(c2, ctx2). Inr (c1 OR c2, ctx2)))"

definition exchangeBuffer :: enc where
  "exchangeBuffer ctx = (case en_next ctx of
      [] \<Rightarrow> Inr (OpcUa_BadEncodingError, ctx)
    | (c, room) # rest \<Rightarrow> Inr (c, ctx\<lparr>en_buf := [], en_past := [], en_end := Some room,
          en_sent := en_sent ctx @ [(en_buf ctx, the (en_end ctx))], en_next := rest\<rparr>))"

text \<open>
  Going back to the last good position and trying once more. What the first attempt wrote stays in the buffer behind that position. If the buffer had been exchanged in between, the position would point into a
  buffer that is gone; the code asserts that this cannot be.
\<close>

definition went_back :: "nat \<Rightarrow> enc_ctx \<Rightarrow> enc_ctx" where
  "went_back n ctx = ctx\<lparr>en_buf := take n (en_buf ctx), en_past := drop n (en_buf ctx) @ en_past ctx\<rparr>"

definition encodeWithExchangeBuffer :: "enc \<Rightarrow> enc" where
  "encodeWithExchangeBuffer f ctx = bind_res (f ctx) (\<lambda>(ret, ctx1).
     if ret \<noteq> OpcUa_BadEncodingLimitsExceeded then Inr (ret, ctx1)
     else if en_sent ctx1 \<noteq> en_sent ctx then Inl (UB UseAfterFree)
     else bind_res (exchangeBuffer (went_back (length (en_buf ctx)) ctx1)) (\<lambda>(ret, ctx2).
       if ret \<noteq> OpcUa_Good then Inr (ret, ctx2) else f ctx2))"

subsection \<open>Arrays\<close>

text \<open>Elements whose memory is their encoding: as many bytes as fit, again and again.\<close>

function Array_encodeBinaryOverlayable :: "byte list \<Rightarrow> enc" where
  "Array_encodeBinaryOverlayable bs ctx = (case en_end ctx of
      None \<Rightarrow> Inr (OpcUa_Good, stored bs ctx)
    | Some e \<Rightarrow>
        if e < length (en_buf ctx) + length bs then
          (let possible = e - length (en_buf ctx) in
           case exchangeBuffer (stored (take possible bs) ctx) of
             Inl f \<Rightarrow> Inl f
           | Inr (ret, ctx1) \<Rightarrow> if ret \<noteq> OpcUa_Good then Inr (ret, ctx1) else Array_encodeBinaryOverlayable (drop possible bs) ctx1)
        else Inr (OpcUa_Good, stored bs ctx))"
  by pat_completeness auto

termination
  by (relation "measure (\<lambda>(bs, ctx). length (en_next ctx))") (auto simp: exchangeBuffer_def stored_def split: list.splits)

declare Array_encodeBinaryOverlayable.simps [simp del]

definition array_length_field :: "'a ptr \<Rightarrow> nat \<Rightarrow> 32 word" where
  "array_length_field d n = (if 0 < n then word_of_nat n else if d \<noteq> Null then 0 else - 1)"

definition Array_encodeBinary :: "('a list \<Rightarrow> enc) \<Rightarrow> 'a ptr \<Rightarrow> nat \<Rightarrow> enc" where
  "Array_encodeBinary content d n =
     (if INT32_MAX < int n then give_up OpcUa_BadInternalError
      else then_enc (encodeWithExchangeBuffer (emit (bytes_of 4 (array_length_field d n))))
        (if n = 0 then give_up OpcUa_Good else (\<lambda>ctx. bind_res (read_range d n) (\<lambda>xs. content xs ctx))))"

lemma Array_encodeBinary_cong [fundef_cong]:
  assumes "d = d'" "n = n'" "\<And>xs. read_range d' n' = Inr xs \<Longrightarrow> f xs = g xs"
  shows "Array_encodeBinary f d n = Array_encodeBinary g d' n'"
proof -
  have "(\<lambda>ctx. bind_res (read_range d n) (\<lambda>xs. f xs ctx)) = (\<lambda>ctx. bind_res (read_range d n) (\<lambda>xs. g xs ctx))"
    using assms by (cases "read_range d n") auto
  then show ?thesis using assms by (simp add: Array_encodeBinary_def)
qed

text \<open>The bytes of an element in memory, for the types that are copied as they are.\<close>

definition overlayable :: "UA_DataTypeKind \<Rightarrow> bool" where
  "overlayable k \<longleftrightarrow> (1 \<le> kind_index k \<and> kind_index k \<le> 10) \<or> k = DATETIME \<or> k = GUID \<or> k = STATUSCODE \<or> k = ENUM"

primrec elem_bytes :: "UA_value \<Rightarrow> byte list" where
  "elem_bytes (VBool b) = [of_bool b]"
| "elem_bytes (VSByte w) = [w]" | "elem_bytes (VByte w) = [w]"
| "elem_bytes (VInt16 w) = bytes_of 2 w" | "elem_bytes (VUInt16 w) = bytes_of 2 w"
| "elem_bytes (VInt32 w) = bytes_of 4 w" | "elem_bytes (VUInt32 w) = bytes_of 4 w"
| "elem_bytes (VInt64 w) = bytes_of 8 w" | "elem_bytes (VUInt64 w) = bytes_of 8 w"
| "elem_bytes (VFloat w) = bytes_of 4 w" | "elem_bytes (VDouble w) = bytes_of 8 w"
| "elem_bytes (VString s) = []" | "elem_bytes (VByteString s) = []" | "elem_bytes (VVariant v) = []"
| "elem_bytes (VOther k bs) = bs"

subsection \<open>Values\<close>

text \<open>Only quiet NaNs are sent: \<open>f != f\<close> on the bits of a float or double.\<close>

definition is_nan32 :: "32 word \<Rightarrow> bool" where
  "is_nan32 w \<longleftrightarrow> (0x7f800001 \<le> w \<and> w \<le> 0x7fffffff) \<or> 0xff800001 \<le> w"

definition is_nan64 :: "64 word \<Rightarrow> bool" where
  "is_nan64 w \<longleftrightarrow> (0x7ff0000000000001 \<le> w \<and> w \<le> 0x7fffffffffffffff) \<or> 0xfff0000000000001 \<le> w"

definition quiet32 :: "32 word \<Rightarrow> 32 word" where
  "quiet32 w = (if is_nan32 w then 0xffc00000 else w)"

definition quiet64 :: "64 word \<Rightarrow> 64 word" where
  "quiet64 w = (if is_nan64 w then 0xfff8000000000000 else w)"

lemma quiet_idem [simp]: "quiet32 (quiet32 w) = quiet32 w" "quiet64 (quiet64 x) = quiet64 x"
  by (simp_all add: quiet32_def quiet64_def is_nan32_def is_nan64_def)

definition String_encodeBinary :: "UA_String \<Rightarrow> enc" where
  "String_encodeBinary s = Array_encodeBinary (\<lambda>cs. Array_encodeBinaryOverlayable (map char_byte cs)) (bs_data s) (bs_length s)"

definition ByteString_encodeBinary :: "UA_ByteString \<Rightarrow> enc" where
  "ByteString_encodeBinary s = Array_encodeBinary Array_encodeBinaryOverlayable (bs_data s) (bs_length s)"

text \<open>A GUID from its memory: three integers, then eight bytes.\<close>

definition Guid_encodeBinary :: "byte list \<Rightarrow> enc" where
  "Guid_encodeBinary bs ctx = bind_res (or_enc (emit (take 4 bs)) (or_enc (emit (take 2 (drop 4 bs))) (emit (take 2 (drop 6 bs)))) ctx)
     (\<lambda>(ret, ctx1). bind_res (emit (take 8 (drop 8 bs)) ctx1) (\<lambda>(c, ctx2). Inr (if c \<noteq> OpcUa_Good then c else ret, ctx2)))"

text \<open>
  The entries of the jump table that are not modelled: encoding the other types from their memory, and
  \<open>Variant_encodeBinaryWrapExtensionObject\<close>.
\<close>

record encode_table =
  et_encode :: "UA_DataTypeKind \<Rightarrow> byte list \<Rightarrow> enc"
  et_wrap :: "UA_Variant \<Rightarrow> bool \<Rightarrow> enc"

text \<open>The check of the dimensions: \<open>None\<close> when the product leaves \<open>size_t\<close>.\<close>

fun required_size :: "nat \<Rightarrow> 32 word list \<Rightarrow> nat option" where
  "required_size p [] = Some p"
| "required_size p (d # ds) = (if unat d \<noteq> 0 \<and> SIZE_MAX div unat d < p then None else required_size (p * unat d) ds)"

definition encoding_mask :: "UA_DataTypeKind \<Rightarrow> bool \<Rightarrow> bool \<Rightarrow> byte" where
  "encoding_mask k isArray hasDimensions =
     word_of_nat ((if kind_index k \<le> 24 then kind_index k else if k = ENUM then 5 else 21) + 1)
     OR (if isArray then 0x80 else 0) OR (if hasDimensions then 0x40 else 0)"

definition variant_isArray :: "UA_Variant \<Rightarrow> bool" where
  "variant_isArray v \<longleftrightarrow> 0 < v_arrayLength v \<or> \<not> is_heap (v_data v)"

definition variant_hasDimensions :: "UA_Variant \<Rightarrow> bool" where
  "variant_hasDimensions v \<longleftrightarrow> variant_isArray v \<and> 0 < v_arrayDimensionsSize v"

definition dimensions_agree :: "UA_Variant \<Rightarrow> bool res" where
  "dimensions_agree v = bind_res (read_range (v_arrayDimensions v) (v_arrayDimensionsSize v)) (\<lambda>ds.
     Inr (required_size 1 ds = Some (v_arrayLength v)))"

definition dimensions_encodeBinary :: "UA_Variant \<Rightarrow> enc" where
  "dimensions_encodeBinary v = (if variant_hasDimensions v
     then Array_encodeBinary (\<lambda>ds. Array_encodeBinaryOverlayable (concat (map (bytes_of 4) ds))) (v_arrayDimensions v) (v_arrayDimensionsSize v)
     else give_up OpcUa_Good)"

lemma size_read_range:
  assumes "read_range d n = Inr xs"
  shows "size_list size xs < Suc (size_ptr size d)"
  using assms size_list_take [of size n "ptr_elems d"]
  by (cases d) (auto simp: read_range_def less_Suc_eq_le split: if_splits)

function (sequential)
  encode_value :: "encode_table \<Rightarrow> UA_value \<Rightarrow> enc"
and Array_encodeBinaryComplex :: "encode_table \<Rightarrow> UA_value list \<Rightarrow> enc"
and Variant_encodeBinary :: "encode_table \<Rightarrow> UA_Variant \<Rightarrow> enc"
where
  "encode_value et (VBool b) = emit [of_bool b]"
| "encode_value et (VFloat w) = emit (bytes_of 4 (quiet32 w))"
| "encode_value et (VDouble w) = emit (bytes_of 8 (quiet64 w))"
| "encode_value et (VString s) = String_encodeBinary s"
| "encode_value et (VByteString s) = ByteString_encodeBinary s"
| "encode_value et (VVariant v) = Variant_encodeBinary et v"
| "encode_value et (VOther k bs) = (
     if k = DATETIME then emit (take 8 bs)
     else if k = STATUSCODE \<or> k = ENUM then emit (take 4 bs)
     else if k = GUID then Guid_encodeBinary bs
     else et_encode et k bs)"
| "encode_value et x = emit (elem_bytes x)"
| "Array_encodeBinaryComplex et [] = give_up OpcUa_Good"
| "Array_encodeBinaryComplex et (x # xs) = then_enc (encodeWithExchangeBuffer (encode_value et x)) (Array_encodeBinaryComplex et xs)"
| "Variant_encodeBinary et (UA_Variant t d n dims k) = (case t of
      None \<Rightarrow> emit [0]
    | Some ty \<Rightarrow>
        (let v = UA_Variant (Some ty) d n dims k; kind = dt_typeKind ty;
             isBuiltin = kind_index kind \<le> 24; isEnum = kind = ENUM;
             content =
               (if \<not> isBuiltin \<and> \<not> isEnum then et_wrap et v (variant_isArray v)
                else if \<not> variant_isArray v then (case d of
                    Heap (x # xs) \<Rightarrow> encodeWithExchangeBuffer (encode_value et x)
                  | _ \<Rightarrow> (\<lambda>_. Inl (UB OutOfBounds)))
                else Array_encodeBinary (\<lambda>xs. if overlayable kind then Array_encodeBinaryOverlayable (concat (map elem_bytes xs))
                   else Array_encodeBinaryComplex et xs) d n);
             go = then_enc (emit [encoding_mask kind (variant_isArray v) (variant_hasDimensions v)])
                    (then_enc content (dimensions_encodeBinary v))
         in if variant_hasDimensions v
            then (\<lambda>ctx. bind_res (dimensions_agree v) (\<lambda>ok. if ok then go ctx else Inr (OpcUa_BadEncodingError, ctx)))
            else go))"
  by pat_completeness auto

termination
  by (relation "measure (\<lambda>a. case a of Inl (et, x) \<Rightarrow> size x
        | Inr (Inl (et, xs)) \<Rightarrow> size_list size xs | Inr (Inr (et, v)) \<Rightarrow> size v)")
     (auto intro: less_le_trans [OF size_read_range])

subsection \<open>The functions of the interface\<close>

definition size_ctx :: enc_ctx where
  "size_ctx = \<lparr>en_buf = [], en_past = [], en_end = None, en_sent = [], en_next = []\<rparr>"

definition buffer_ctx :: "nat \<Rightarrow> (UA_StatusCode \<times> nat) list \<Rightarrow> enc_ctx" where
  "buffer_ctx n next = \<lparr>en_buf = [], en_past = [], en_end = Some n, en_sent = [], en_next = next\<rparr>"

text \<open>The type selects the entry of the jump table; the entry with the value is the argument.\<close>

definition UA_encodeBinaryInternal :: "enc \<Rightarrow> enc" where
  "UA_encodeBinaryInternal entry = encodeWithExchangeBuffer entry"

definition UA_calcSizeBinary :: "enc \<Rightarrow> nat res" where
  "UA_calcSizeBinary entry = bind_res (UA_encodeBinaryInternal entry size_ctx) (\<lambda>(res, ctx).
     Inr (if res \<noteq> OpcUa_Good then 0 else length (en_buf ctx)))"

text \<open>The memory of the current buffer after the encoder, with what it held before behind what was written.\<close>

definition buffer_memory :: "enc_ctx \<Rightarrow> byte list \<Rightarrow> byte list" where
  "buffer_memory ctx old = (let w = en_buf ctx @ en_past ctx in w @ drop (length w) old)"

text \<open>
  The result is the status and the output buffer after the call. A buffer of length zero is allocated, and zeroed, and freed when the encoder fails.
  One the caller owns is written to in place: on success its length becomes that of the encoding; on failure it keeps its length, and its memory
  what the encoder had written until then.
\<close>

definition UA_encodeBinary :: "allocator \<Rightarrow> enc \<Rightarrow> UA_ByteString \<Rightarrow> (UA_StatusCode \<times> UA_ByteString) res" where
  "UA_encodeBinary al entry outBuf = bind_res
     (if bs_length outBuf = 0 then bind_res (UA_calcSizeBinary entry) (\<lambda>len. Inr (Some len)) else Inr None) (\<lambda>alloc.
      case alloc of
        Some len \<Rightarrow>
          if 0 < len \<and> \<not> can_alloc al len then Inr (OpcUa_BadOutOfMemory, UA_STRING_NULL)
          else bind_res (UA_encodeBinaryInternal entry (buffer_ctx len [])) (\<lambda>(res, ctx).
            Inr (res, if res = OpcUa_Good
              then \<lparr>bs_length = length (en_buf ctx), bs_data = if len = 0 then Sentinel else Heap (buffer_memory ctx (replicate len 0))\<rparr>
              else UA_STRING_NULL))
      | None \<Rightarrow> bind_res (UA_encodeBinaryInternal entry (buffer_ctx (bs_length outBuf) [])) (\<lambda>(res, ctx).
            Inr (res, \<lparr>bs_length = if res = OpcUa_Good then length (en_buf ctx) else bs_length outBuf,
              bs_data = Heap (buffer_memory ctx (ptr_elems (bs_data outBuf)))\<rparr>)))"

end
