(* ===== verification/UA_Decoding.thy ===== *)
theory UA_Decoding
  imports UA_Encoding
begin

text \<open>
  The binary decoder of the bundled stack for the same values. The input is what lies between \<open>pos\<close> and \<open>end\<close>. Every function
  returns its status, what it wrote to the destination, and the rest of the input. The depth of the context is an argument: each
  function that increments it restores it on every path.
\<close>

subsection \<open>Numbers and arrays\<close>

definition decode_fixed :: "nat \<Rightarrow> (byte list \<Rightarrow> 'a) \<Rightarrow> 'a \<Rightarrow> byte list \<Rightarrow> UA_StatusCode \<times> 'a \<times> byte list" where
  "decode_fixed n f z bs = (if n \<le> length bs then (OpcUa_Good, f (take n bs), drop n bs) else (OpcUa_BadDecodingError, z, bs))"

text \<open>The elements of an array that is copied as it lies in the message.\<close>

primrec chunks :: "nat \<Rightarrow> nat \<Rightarrow> byte list \<Rightarrow> byte list list" where
  "chunks m 0 bs = []"
| "chunks m (Suc n) bs = take m bs # chunks m n (drop m bs)"

definition decode_overlay :: "nat \<Rightarrow> (byte list \<Rightarrow> 'a) \<Rightarrow> nat \<Rightarrow> byte list \<Rightarrow> UA_StatusCode \<times> 'a list \<times> byte list" where
  "decode_overlay m f len bs =
     (if length bs < m * len then (OpcUa_BadDecodingError, [], bs)
      else (OpcUa_Good, map f (chunks m len bs), drop (m * len) bs))"

text \<open>
  \<open>content\<close> decodes the elements, \<open>m\<close> is the size of one in memory. A length that the message cannot hold is refused before
  memory is allocated. A failed array is deleted.
\<close>

definition Array_decodeBinary ::
    "allocator \<Rightarrow> nat \<Rightarrow> (nat \<Rightarrow> byte list \<Rightarrow> UA_StatusCode \<times> 'a list \<times> byte list) \<Rightarrow> byte list \<Rightarrow> UA_StatusCode \<times> 'a ptr \<times> nat \<times> byte list" where
  "Array_decodeBinary al m content bs = (case decode_fixed 4 word_of_bytes (0 :: 32 word) bs of (ret, signed_length, rest) \<Rightarrow>
     if ret \<noteq> OpcUa_Good then (ret, Null, 0, rest)
     else if sint signed_length \<le> 0 then (OpcUa_Good, if sint signed_length < 0 then Null else Sentinel, 0, rest)
     else let len = unat signed_length in
       if length rest div m < len div 128 then (OpcUa_BadDecodingError, Null, 0, rest)
       else if \<not> can_alloc al (len * m) then (OpcUa_BadOutOfMemory, Null, 0, rest)
       else (case content len rest of (ret, xs, rest') \<Rightarrow>
         if ret \<noteq> OpcUa_Good then (ret, Null, 0, rest') else (OpcUa_Good, Heap xs, len, rest')))"

lemma Array_decodeBinary_cong [fundef_cong]:
  assumes "al = al'" "m = m'" "bs = bs'" "\<And>n rest. f n rest = g n rest"
  shows "Array_decodeBinary al m f bs = Array_decodeBinary al' m' g bs'"
proof -
  have "f = g" using assms(4) by (simp add: fun_eq_iff)
  then show ?thesis using assms by simp
qed

definition String_decodeBinary :: "allocator \<Rightarrow> byte list \<Rightarrow> UA_StatusCode \<times> UA_String \<times> byte list" where
  "String_decodeBinary al bs = (case Array_decodeBinary al 1 (decode_overlay 1 (\<lambda>b. byte_char (hd b))) bs of
     (ret, p, n, rest) \<Rightarrow> (ret, \<lparr>bs_length = n, bs_data = p\<rparr>, rest))"

definition ByteString_decodeBinary :: "allocator \<Rightarrow> byte list \<Rightarrow> UA_StatusCode \<times> UA_ByteString \<times> byte list" where
  "ByteString_decodeBinary al bs = (case Array_decodeBinary al 1 (decode_overlay 1 hd) bs of
     (ret, p, n, rest) \<Rightarrow> (ret, \<lparr>bs_length = n, bs_data = p\<rparr>, rest))"

definition Guid_decodeBinary :: "byte list \<Rightarrow> UA_StatusCode \<times> byte list \<times> byte list" where
  "Guid_decodeBinary bs = (case decode_fixed 4 id (replicate 4 0) bs of (c1, b1, r1) \<Rightarrow>
     case decode_fixed 2 id (replicate 2 0) r1 of (c2, b2, r2) \<Rightarrow>
     case decode_fixed 2 id (replicate 2 0) r2 of (c3, b3, r3) \<Rightarrow>
     case decode_fixed 8 id (replicate 8 0) r3 of (c4, b4, r4) \<Rightarrow>
       (if c4 \<noteq> OpcUa_Good then c4 else c1 OR c2 OR c3, b1 @ b2 @ b3 @ b4, r4))"

subsection \<open>Values\<close>

text \<open>The entries of the jump table that are not modelled; \<open>de_unwrap\<close> decodes the content of a variant of extension objects, scalar or array.\<close>

record decode_table =
  de_decode :: "UA_DataTypeKind \<Rightarrow> nat \<Rightarrow> byte list \<Rightarrow> UA_StatusCode \<times> byte list \<times> byte list"
  de_unwrap :: "bool \<Rightarrow> nat \<Rightarrow> byte list \<Rightarrow> UA_StatusCode \<times> UA_Variant \<times> byte list"

text \<open>An element from its memory.\<close>

definition value_of_mem :: "UA_DataTypeKind \<Rightarrow> byte list \<Rightarrow> UA_value" where
  "value_of_mem k bs = (case k of
      SBYTE \<Rightarrow> VSByte (hd bs) | BYTE \<Rightarrow> VByte (hd bs)
    | INT16 \<Rightarrow> VInt16 (word_of_bytes bs) | UINT16 \<Rightarrow> VUInt16 (word_of_bytes bs)
    | INT32 \<Rightarrow> VInt32 (word_of_bytes bs) | UINT32 \<Rightarrow> VUInt32 (word_of_bytes bs)
    | INT64 \<Rightarrow> VInt64 (word_of_bytes bs) | UINT64 \<Rightarrow> VUInt64 (word_of_bytes bs)
    | FLOAT \<Rightarrow> VFloat (word_of_bytes bs) | DOUBLE \<Rightarrow> VDouble (word_of_bytes bs)
    | _ \<Rightarrow> VOther k bs)"

text \<open>The enumerators of the built-in types by value.\<close>

definition kind_of_index :: "nat \<Rightarrow> UA_DataTypeKind" where
  "kind_of_index i = [BOOLEAN, SBYTE, BYTE, INT16, UINT16, INT32, UINT32, INT64, UINT64, FLOAT, DOUBLE, STRING, DATETIME, GUID,
     BYTESTRING, XMLELEMENT, NODEID, EXPANDEDNODEID, STATUSCODE, QUALIFIEDNAME, LOCALIZEDTEXT, EXTENSIONOBJECT, DATAVALUE, VARIANT,
     DIAGNOSTICINFO] ! i"

text \<open>The validation of the dimensions; the product wraps, but then the status is bad already.\<close>

fun check_dimensions :: "UA_StatusCode \<Rightarrow> nat \<Rightarrow> 32 word list \<Rightarrow> UA_StatusCode \<times> nat" where
  "check_dimensions ret totalSize [] = (ret, totalSize)"
| "check_dimensions ret totalSize (d # ds) =
     check_dimensions (if d = 0 then OpcUa_BadDecodingError else if SIZE_MAX div unat d < totalSize then OpcUa_BadDecodingError else ret)
       (totalSize * unat d mod (SIZE_MAX + 1)) ds"

definition decode_dimensions :: "allocator \<Rightarrow> UA_StatusCode \<Rightarrow> UA_Variant \<Rightarrow> byte list \<Rightarrow> UA_StatusCode \<times> UA_Variant \<times> byte list" where
  "decode_dimensions al ret v bs = (case Array_decodeBinary al 4 (decode_overlay 4 word_of_bytes) bs of (c, dims, k, rest) \<Rightarrow>
     case check_dimensions (ret OR c) 1 (ptr_elems dims) of (ret1, totalSize) \<Rightarrow>
       (if totalSize = v_arrayLength v then ret1 else OpcUa_BadDecodingError,
        UA_Variant (v_type v) (v_data v) (v_arrayLength v) dims k, rest))"

definition UA_ENCODING_MAX_RECURSION :: nat where "UA_ENCODING_MAX_RECURSION = 100"

text \<open>A scalar gets memory for two elements; the second is never used.\<close>

function (sequential)
  decode_value :: "decode_table \<Rightarrow> allocator \<Rightarrow> UA_DataTypeKind \<Rightarrow> nat \<Rightarrow> byte list \<Rightarrow> UA_StatusCode \<times> UA_value \<times> byte list"
and decode_elems :: "decode_table \<Rightarrow> allocator \<Rightarrow> UA_DataTypeKind \<Rightarrow> nat \<Rightarrow> nat \<Rightarrow> byte list \<Rightarrow> UA_StatusCode \<times> UA_value list \<times> byte list"
and Variant_decodeBinary :: "decode_table \<Rightarrow> allocator \<Rightarrow> nat \<Rightarrow> byte list \<Rightarrow> UA_StatusCode \<times> UA_Variant \<times> byte list"
where
  "decode_value de al k depth bs = (case k of
      BOOLEAN \<Rightarrow> decode_fixed 1 (\<lambda>b. VBool (0 < hd b)) (VBool False) bs
    | FLOAT \<Rightarrow> decode_fixed 4 (\<lambda>b. VFloat (quiet32 (word_of_bytes b))) (VFloat 0) bs
    | DOUBLE \<Rightarrow> decode_fixed 8 (\<lambda>b. VDouble (quiet64 (word_of_bytes b))) (VDouble 0) bs
    | STRING \<Rightarrow> (case String_decodeBinary al bs of (ret, s, rest) \<Rightarrow> (ret, VString s, rest))
    | BYTESTRING \<Rightarrow> (case ByteString_decodeBinary al bs of (ret, s, rest) \<Rightarrow> (ret, VByteString s, rest))
    | VARIANT \<Rightarrow> (case Variant_decodeBinary de al depth bs of (ret, v, rest) \<Rightarrow> (ret, VVariant v, rest))
    | GUID \<Rightarrow> (case Guid_decodeBinary bs of (ret, m, rest) \<Rightarrow> (ret, VOther GUID m, rest))
    | _ \<Rightarrow> if overlayable k then decode_fixed (kind_memSize k) (value_of_mem k) (zero_value k) bs
           else (case de_decode de k depth bs of (ret, m, rest) \<Rightarrow> (ret, VOther k m, rest)))"
| "decode_elems de al k depth 0 bs = (OpcUa_Good, [], bs)"
| "decode_elems de al k depth (Suc n) bs = (case decode_value de al k depth bs of (ret, x, rest) \<Rightarrow>
     if ret \<noteq> OpcUa_Good then (ret, [], rest)
     else (case decode_elems de al k depth n rest of (ret, xs, rest') \<Rightarrow> (ret, x # xs, rest')))"
| "Variant_decodeBinary de al depth [] = (OpcUa_BadDecodingError, UA_Variant_init, [])"
| "Variant_decodeBinary de al depth (encodingByte # bs) =
     (if encodingByte = 0 then (OpcUa_Good, UA_Variant_init, bs)
      else let isArray = encodingByte AND 0x80 \<noteq> 0; number = unat (encodingByte AND 0x3F); k = kind_of_index (number - 1); ty = UA_TYPES k in
        if number = 0 \<or> 25 < number then (OpcUa_BadDecodingError, UA_Variant_init, bs)
        else if k = VARIANT \<and> \<not> isArray then (OpcUa_BadDecodingError, UA_Variant_init, bs)
        else if \<not> depth \<le> UA_ENCODING_MAX_RECURSION then (OpcUa_BadEncodingError, UA_Variant_init, bs)
        else if \<not> isArray then
          (if k = EXTENSIONOBJECT then de_unwrap de False (Suc depth) bs
           else if \<not> can_alloc al (2 * kind_memSize k) then (OpcUa_BadOutOfMemory, UA_Variant (Some ty) Null 0 Null 0, bs)
           else (case decode_value de al k (Suc depth) bs of (ret, x, rest) \<Rightarrow> (ret, UA_Variant (Some ty) (Heap [x]) 0 Null 0, rest)))
        else (case
            (if k = EXTENSIONOBJECT then de_unwrap de True (Suc depth) bs
             else (case Array_decodeBinary al (kind_memSize k)
                 (\<lambda>n rest. if overlayable k then decode_overlay (kind_memSize k) (value_of_mem k) n rest
                   else decode_elems de al k (Suc depth) n rest) bs
               of (ret, p, n, rest) \<Rightarrow> (ret, UA_Variant (Some ty) p n Null 0, rest)))
          of (ret, v, rest) \<Rightarrow>
            if encodingByte AND 0x40 \<noteq> 0 then decode_dimensions al ret v rest else (ret, v, rest)))"
  by pat_completeness auto

termination
  by (relation "inv_image (less_than <*lex*> less_than <*lex*> less_than) (\<lambda>a. case a of
        Inl (de, al, k, depth, bs) \<Rightarrow> (102 - depth, 1, 0)
      | Inr (Inl (de, al, k, depth, n, bs)) \<Rightarrow> (102 - depth, 2, n)
      | Inr (Inr (de, al, depth, bs)) \<Rightarrow> (102 - depth, 0, 0))")
     (auto simp: UA_ENCODING_MAX_RECURSION_def)

declare decode_value.simps [simp del] Variant_decodeBinary.simps(2) [simp del]

text \<open>
  The function of the interface: a failed decoding leaves a zeroed value. The entry of the jump table and the zeroed value are the
  arguments for the type. The third result is the new offset.
\<close>

definition UA_decodeBinary :: "(byte list \<Rightarrow> UA_StatusCode \<times> 'a \<times> byte list) \<Rightarrow> 'a \<Rightarrow> byte list \<Rightarrow> UA_StatusCode \<times> 'a \<times> nat" where
  "UA_decodeBinary entry zero inBuf = (case entry inBuf of (ret, x, rest) \<Rightarrow>
     if ret = OpcUa_Good then (ret, x, length inBuf - length rest) else (ret, zero, 0))"

end
