(* ===== verification/UA_Structs.thy ===== *)
theory UA_Structs
  imports UA_Decoding UaSessions
begin

text \<open>
  The binary form of the structures that travel with the values: node ids, expanded node ids, qualified names, localized texts and data
  values. No mapping of namespaces is set in the options.
\<close>

subsection \<open>Encoding\<close>

text \<open>A GUID in memory.\<close>

definition guid_mem :: "UA_Guid \<Rightarrow> byte list" where
  "guid_mem g = bytes_of 4 (data1 g) @ bytes_of 2 (data2 g) @ bytes_of 2 (data3 g) @ data4 g"

definition guid_of_mem :: "byte list \<Rightarrow> UA_Guid" where
  "guid_of_mem bs = \<lparr>data1 = word_of_bytes (take 4 bs), data2 = word_of_bytes (take 2 (drop 4 bs)),
     data3 = word_of_bytes (take 2 (drop 6 bs)), data4 = take 8 (drop 8 bs)\<rparr>"

text \<open>The numeric identifier is written in the shortest of three forms.\<close>

definition NodeId_encodeBinaryWithEncodingMask :: "UA_NodeId \<Rightarrow> byte \<Rightarrow> enc" where
  "NodeId_encodeBinaryWithEncodingMask src encoding =
     (let nsIndex = nid_namespaceIndex src in
      case nid_identifier src of
        IdNumeric i \<Rightarrow>
          if 0xFFFF < i \<or> 0xFF < nsIndex then
            or_enc (emit [encoding OR 2]) (or_enc (emit (bytes_of 2 nsIndex)) (emit (bytes_of 4 i)))
          else if 0xFF < i \<or> 0 < nsIndex then
            or_enc (emit [encoding OR 1]) (or_enc (emit [ucast nsIndex]) (emit (bytes_of 2 (ucast i :: 16 word))))
          else or_enc (emit [encoding OR 0]) (emit [ucast i])
      | IdString s \<Rightarrow> then_enc (or_enc (emit [encoding OR 3]) (emit (bytes_of 2 nsIndex))) (String_encodeBinary s)
      | IdGuid g \<Rightarrow> or_enc (emit [encoding OR 4]) (or_enc (emit (bytes_of 2 nsIndex)) (Guid_encodeBinary (guid_mem g)))
      | IdByteString s \<Rightarrow> then_enc (or_enc (emit [encoding OR 5]) (emit (bytes_of 2 nsIndex))) (ByteString_encodeBinary s))"

definition NodeId_encodeBinary :: "UA_NodeId \<Rightarrow> enc" where
  "NodeId_encodeBinary src = NodeId_encodeBinaryWithEncodingMask src 0"

text \<open>The two high bits tell of a namespace URI and a server index.\<close>

definition expanded_mask :: "UA_ExpandedNodeId \<Rightarrow> byte" where
  "expanded_mask src = (if is_heap (bs_data (en_namespaceUri src)) then 0x80 else 0) OR (if 0 < en_serverIndex src then 0x40 else 0)"

definition ExpandedNodeId_encodeBinary :: "UA_ExpandedNodeId \<Rightarrow> enc" where
  "ExpandedNodeId_encodeBinary src =
     then_enc (NodeId_encodeBinaryWithEncodingMask (en_nodeId src) (expanded_mask src))
       (then_enc (if is_heap (bs_data (en_namespaceUri src)) then String_encodeBinary (en_namespaceUri src) else give_up OpcUa_Good)
          (if 0 < en_serverIndex src then encodeWithExchangeBuffer (emit (bytes_of 4 (en_serverIndex src))) else give_up OpcUa_Good))"

record UA_QualifiedName =
  qn_namespaceIndex :: "16 word"
  qn_name :: UA_String

definition QualifiedName_encodeBinary :: "UA_QualifiedName \<Rightarrow> enc" where
  "QualifiedName_encodeBinary src = then_enc (emit (bytes_of 2 (qn_namespaceIndex src))) (String_encodeBinary (qn_name src))"

record UA_LocalizedText =
  tx_locale :: UA_String
  tx_text :: UA_String

definition text_mask :: "UA_LocalizedText \<Rightarrow> byte" where
  "text_mask src = (if bs_data (tx_locale src) \<noteq> Null then 0x01 else 0) OR (if bs_data (tx_text src) \<noteq> Null then 0x02 else 0)"

definition LocalizedText_encodeBinary :: "UA_LocalizedText \<Rightarrow> enc" where
  "LocalizedText_encodeBinary src = then_enc (emit [text_mask src])
     (or_enc (if bs_data (tx_locale src) \<noteq> Null then String_encodeBinary (tx_locale src) else give_up OpcUa_Good)
       (if bs_data (tx_text src) \<noteq> Null then String_encodeBinary (tx_text src) else give_up OpcUa_Good))"

definition value_mask :: "UA_DataValue \<Rightarrow> byte" where
  "value_mask src = of_bool (dv_hasValue src) OR push_bit 1 (of_bool (dv_hasStatus src))
     OR push_bit 2 (of_bool (dv_hasSourceTimestamp src)) OR push_bit 3 (of_bool (dv_hasServerTimestamp src))
     OR push_bit 4 (of_bool (dv_hasSourcePicoseconds src)) OR push_bit 5 (of_bool (dv_hasServerPicoseconds src))"

definition encode_if :: "bool \<Rightarrow> byte list \<Rightarrow> enc" where
  "encode_if b bs = (if b then encodeWithExchangeBuffer (emit bs) else give_up OpcUa_Good)"

definition DataValue_encodeBinary :: "encode_table \<Rightarrow> UA_DataValue \<Rightarrow> enc" where
  "DataValue_encodeBinary et src = then_enc (emit [value_mask src])
     (then_enc (if dv_hasValue src then Variant_encodeBinary et (dv_value src) else give_up OpcUa_Good)
       (or_enc (encode_if (dv_hasStatus src) (bytes_of 4 (dv_status src)))
       (or_enc (encode_if (dv_hasSourceTimestamp src) (bytes_of 8 (word_of_int (dv_sourceTimestamp src) :: 64 word)))
       (or_enc (encode_if (dv_hasSourcePicoseconds src) (bytes_of 2 (dv_sourcePicoseconds src)))
       (or_enc (encode_if (dv_hasServerTimestamp src) (bytes_of 8 (word_of_int (dv_serverTimestamp src) :: 64 word)))
         (encode_if (dv_hasServerPicoseconds src) (bytes_of 2 (dv_serverPicoseconds src))))))))"

subsection \<open>Decoding\<close>

text \<open>A part of a structure that is only there when a bit says so, else it stays zero.\<close>

definition decode_if :: "bool \<Rightarrow> (byte list \<Rightarrow> UA_StatusCode \<times> 'a \<times> byte list) \<Rightarrow> 'a \<Rightarrow> byte list \<Rightarrow> UA_StatusCode \<times> 'a \<times> byte list" where
  "decode_if b f z bs = (if b then f bs else (OpcUa_Good, z, bs))"

text \<open>\<open>ret |= f; ret |= g\<close>: the second part is decoded even where the first failed, from where the first left off.\<close>

definition decode_both ::
    "(byte list \<Rightarrow> UA_StatusCode \<times> 'a \<times> byte list) \<Rightarrow> (byte list \<Rightarrow> UA_StatusCode \<times> 'b \<times> byte list) \<Rightarrow> byte list
     \<Rightarrow> UA_StatusCode \<times> ('a \<times> 'b) \<times> byte list" where
  "decode_both f g bs = (case f bs of (c1, x, r1) \<Rightarrow> case g r1 of (c2, y, r2) \<Rightarrow> (c1 OR c2, (x, y), r2))"

definition decode_map :: "('a \<Rightarrow> 'b) \<Rightarrow> UA_StatusCode \<times> 'a \<times> byte list \<Rightarrow> UA_StatusCode \<times> 'b \<times> byte list" where
  "decode_map h r = (case r of (c, x, rest) \<Rightarrow> (c, h x, rest))"

abbreviation Byte_decodeBinary :: "byte list \<Rightarrow> UA_StatusCode \<times> byte \<times> byte list" where
  "Byte_decodeBinary \<equiv> decode_fixed 1 hd 0"
abbreviation UInt16_decodeBinary :: "byte list \<Rightarrow> UA_StatusCode \<times> 16 word \<times> byte list" where
  "UInt16_decodeBinary \<equiv> decode_fixed 2 word_of_bytes 0"
abbreviation UInt32_decodeBinary :: "byte list \<Rightarrow> UA_StatusCode \<times> 32 word \<times> byte list" where
  "UInt32_decodeBinary \<equiv> decode_fixed 4 word_of_bytes 0"
abbreviation UInt64_decodeBinary :: "byte list \<Rightarrow> UA_StatusCode \<times> 64 word \<times> byte list" where
  "UInt64_decodeBinary \<equiv> decode_fixed 8 word_of_bytes 0"

definition node_id :: "('a \<Rightarrow> UA_Identifier) \<Rightarrow> 16 word \<times> 'a \<Rightarrow> UA_NodeId" where
  "node_id h p = \<lparr>nid_namespaceIndex = fst p, nid_identifier = h (snd p)\<rparr>"

definition NodeId_decodeBinary :: "allocator \<Rightarrow> byte list \<Rightarrow> UA_StatusCode \<times> UA_NodeId \<times> byte list" where
  "NodeId_decodeBinary al bs = (case Byte_decodeBinary bs of (ret, b, rest) \<Rightarrow>
     let encodingByte = b AND NOT (0x40 OR 0x80) in
     if ret \<noteq> OpcUa_Good then (ret, UA_NodeId_null, rest)
     else if encodingByte = 0 then decode_map (\<lambda>i. UA_NODEID_NUMERIC 0 (ucast i)) (Byte_decodeBinary rest)
     else if encodingByte = 1 then
       decode_map (\<lambda>(ns, i). UA_NODEID_NUMERIC (ucast ns) (ucast i)) (decode_both Byte_decodeBinary UInt16_decodeBinary rest)
     else if encodingByte = 2 then decode_map (node_id IdNumeric) (decode_both UInt16_decodeBinary UInt32_decodeBinary rest)
     else if encodingByte = 3 then decode_map (node_id IdString) (decode_both UInt16_decodeBinary (String_decodeBinary al) rest)
     else if encodingByte = 4 then
       decode_map (node_id (\<lambda>m. IdGuid (guid_of_mem m))) (decode_both UInt16_decodeBinary Guid_decodeBinary rest)
     else if encodingByte = 5 then decode_map (node_id IdByteString) (decode_both UInt16_decodeBinary (ByteString_decodeBinary al) rest)
     else (OpcUa_BadInternalError, UA_NodeId_null, rest))"

text \<open>A node id with a namespace URI loses its namespace index.\<close>

definition ExpandedNodeId_decodeBinary :: "allocator \<Rightarrow> byte list \<Rightarrow> UA_StatusCode \<times> UA_ExpandedNodeId \<times> byte list" where
  "ExpandedNodeId_decodeBinary al bs = (case bs of
      [] \<Rightarrow> (OpcUa_BadDecodingError, \<lparr>en_nodeId = UA_NodeId_null, en_namespaceUri = UA_STRING_NULL, en_serverIndex = 0\<rparr>, [])
    | encoding # _ \<Rightarrow>
        decode_map (\<lambda>(n, uri, i). \<lparr>en_nodeId = if encoding AND 0x80 \<noteq> 0 then n\<lparr>nid_namespaceIndex := 0\<rparr> else n, en_namespaceUri = uri, en_serverIndex = i\<rparr>)
          (decode_both (NodeId_decodeBinary al) (decode_both (decode_if (encoding AND 0x80 \<noteq> 0) (String_decodeBinary al) UA_STRING_NULL)
            (decode_if (encoding AND 0x40 \<noteq> 0) UInt32_decodeBinary 0)) bs))"

definition QualifiedName_decodeBinary :: "allocator \<Rightarrow> byte list \<Rightarrow> UA_StatusCode \<times> UA_QualifiedName \<times> byte list" where
  "QualifiedName_decodeBinary al bs = decode_map (\<lambda>(i, s). \<lparr>qn_namespaceIndex = i, qn_name = s\<rparr>)
     (decode_both UInt16_decodeBinary (String_decodeBinary al) bs)"

definition LocalizedText_decodeBinary :: "allocator \<Rightarrow> byte list \<Rightarrow> UA_StatusCode \<times> UA_LocalizedText \<times> byte list" where
  "LocalizedText_decodeBinary al bs = (case Byte_decodeBinary bs of (ret, encoding, rest) \<Rightarrow>
     case decode_both (decode_if (encoding AND 0x01 \<noteq> 0) (String_decodeBinary al) UA_STRING_NULL)
       (decode_if (encoding AND 0x02 \<noteq> 0) (String_decodeBinary al) UA_STRING_NULL) rest of
     (c, (l, t), rest') \<Rightarrow> (ret OR c, \<lparr>tx_locale = l, tx_text = t\<rparr>, rest'))"

definition MAX_PICO_SECONDS :: "16 word" where "MAX_PICO_SECONDS = 9999"

definition DataValue_decodeBinary :: "decode_table \<Rightarrow> allocator \<Rightarrow> nat \<Rightarrow> byte list \<Rightarrow> UA_StatusCode \<times> UA_DataValue \<times> byte list" where
  "DataValue_decodeBinary de al depth bs = (case Byte_decodeBinary bs of (ret, encodingMask, rest) \<Rightarrow>
     if ret \<noteq> OpcUa_Good then (ret, UA_DataValue_init, rest)
     else if \<not> depth \<le> UA_ENCODING_MAX_RECURSION then (OpcUa_BadEncodingError, UA_DataValue_init, rest)
     else decode_map (\<lambda>(v, status, t1, p1, t2, p2). \<lparr>dv_value = v,
           dv_sourceTimestamp = sint t1, dv_serverTimestamp = sint t2,
           dv_sourcePicoseconds = if MAX_PICO_SECONDS < p1 then MAX_PICO_SECONDS else p1,
           dv_serverPicoseconds = if MAX_PICO_SECONDS < p2 then MAX_PICO_SECONDS else p2, dv_status = status,
           dv_hasValue = (encodingMask AND 0x01 \<noteq> 0), dv_hasStatus = (encodingMask AND 0x02 \<noteq> 0),
           dv_hasSourceTimestamp = (encodingMask AND 0x04 \<noteq> 0), dv_hasServerTimestamp = (encodingMask AND 0x08 \<noteq> 0),
           dv_hasSourcePicoseconds = (encodingMask AND 0x10 \<noteq> 0), dv_hasServerPicoseconds = (encodingMask AND 0x20 \<noteq> 0)\<rparr>)
         (decode_both (decode_if (encodingMask AND 0x01 \<noteq> 0) (Variant_decodeBinary de al (Suc depth)) UA_Variant_init)
           (decode_both (decode_if (encodingMask AND 0x02 \<noteq> 0) UInt32_decodeBinary 0)
           (decode_both (decode_if (encodingMask AND 0x04 \<noteq> 0) UInt64_decodeBinary 0)
           (decode_both (decode_if (encodingMask AND 0x10 \<noteq> 0) UInt16_decodeBinary 0)
           (decode_both (decode_if (encodingMask AND 0x08 \<noteq> 0) UInt64_decodeBinary 0)
             (decode_if (encodingMask AND 0x20 \<noteq> 0) UInt16_decodeBinary 0))))) rest))"

end
