(* ===== verification/UA_Wire.thy ===== *)
theory UA_Wire
  imports UA_Decoding
begin

text \<open>
  The binary encoding of OPC UA as a function from values to bytes, and the encoder against it: whatever the buffers, the
  encoder writes these bytes in this order, and it fails only when there is no room.
\<close>

subsection \<open>The encoding\<close>

definition wire_string :: "('a \<Rightarrow> byte) \<Rightarrow> 'a bstr \<Rightarrow> byte list" where
  "wire_string f s = bytes_of 4 (array_length_field (bs_data s) (bs_length s)) @ map f (bstr_bytes s)"

definition wire_dimensions :: "UA_Variant \<Rightarrow> byte list" where
  "wire_dimensions v = (if variant_hasDimensions v
     then bytes_of 4 (word_of_nat (v_arrayDimensionsSize v) :: 32 word) @ concat (map (bytes_of 4) (ptr_elems (v_arrayDimensions v))) else [])"

fun wire_value :: "UA_value \<Rightarrow> byte list"
and wire_variant :: "UA_Variant \<Rightarrow> byte list"
where
  "wire_value (VBool b) = [of_bool b]"
| "wire_value (VFloat w) = bytes_of 4 (quiet32 w)"
| "wire_value (VDouble w) = bytes_of 8 (quiet64 w)"
| "wire_value (VString s) = wire_string char_byte s"
| "wire_value (VByteString s) = wire_string id s"
| "wire_value (VVariant v) = wire_variant v"
| "wire_value x = elem_bytes x"
| "wire_variant (UA_Variant None d n dims k) = [0]"
| "wire_variant (UA_Variant (Some ty) d n dims k) =
     (let v = UA_Variant (Some ty) d n dims k in
      [encoding_mask (dt_typeKind ty) (variant_isArray v) (variant_hasDimensions v)]
      @ (case d of
           Heap xs \<Rightarrow>
             if n = 0 then (case xs of [] \<Rightarrow> [] | x # _ \<Rightarrow> wire_value x)
             else bytes_of 4 (array_length_field d n)
               @ concat (map (\<lambda>x. if overlayable (dt_typeKind ty) then elem_bytes x else wire_value x) xs)
         | _ \<Rightarrow> bytes_of 4 (array_length_field d n))
      @ wire_dimensions v)"

text \<open>The values the modelled encoders cover, with lengths that fit the format.\<close>

definition raw_size :: "UA_DataTypeKind \<Rightarrow> nat option" where
  "raw_size k = (if k = DATETIME then Some 8 else if k = STATUSCODE then Some 4 else if k = GUID then Some 16 else None)"

definition dimensions_fit :: "UA_Variant \<Rightarrow> bool" where
  "dimensions_fit v \<longleftrightarrow> (variant_hasDimensions v \<longrightarrow> wf_array (v_arrayDimensions v) (v_arrayDimensionsSize v)
     \<and> int (v_arrayDimensionsSize v) \<le> INT32_MAX \<and> required_size 1 (ptr_elems (v_arrayDimensions v)) = Some (v_arrayLength v))"

fun encodable :: "UA_value \<Rightarrow> bool"
and encodable_variant :: "UA_Variant \<Rightarrow> bool"
where
  "encodable (VString s) \<longleftrightarrow> wf_bstr s \<and> int (bs_length s) \<le> INT32_MAX"
| "encodable (VByteString s) \<longleftrightarrow> wf_bstr s \<and> int (bs_length s) \<le> INT32_MAX"
| "encodable (VVariant v) \<longleftrightarrow> encodable_variant v"
| "encodable (VOther k bs) \<longleftrightarrow> raw_size k = Some (length bs)"
| "encodable _ \<longleftrightarrow> True"
| "encodable_variant (UA_Variant None d n dims k) \<longleftrightarrow> d = Null \<and> n = 0"
| "encodable_variant (UA_Variant (Some ty) d n dims k) \<longleftrightarrow>
     ty = UA_TYPES (dt_typeKind ty) \<and> kind_index (dt_typeKind ty) \<le> 24 \<and> dt_typeKind ty \<noteq> EXTENSIONOBJECT
     \<and> int n \<le> INT32_MAX \<and> dimensions_fit (UA_Variant (Some ty) d n dims k)
     \<and> (case d of
          Heap xs \<Rightarrow> length xs = (if n = 0 then 1 else n) \<and> (\<forall>x\<in>set xs. encodable x \<and> value_kind x = dt_typeKind ty)
        | _ \<Rightarrow> n = 0)"

subsection \<open>What an encoder does to its context\<close>

definition output_of :: "enc_ctx \<Rightarrow> byte list" where
  "output_of ctx = concat (map fst (en_sent ctx)) @ en_buf ctx"

text \<open>
  A context is good when its buffers hold what they contain, no failed attempt is left in the current one and the callback only hands out buffers of at least 16 bytes: the largest piece
  that is never divided is a GUID. There is room for \<open>n\<close> bytes when the buffer has it or there are as many buffers to come.
\<close>

definition ctx_ok :: "enc_ctx \<Rightarrow> bool" where
  "ctx_ok ctx \<longleftrightarrow> en_past ctx = [] \<and> (\<forall>e. en_end ctx = Some e \<longrightarrow> length (en_buf ctx) \<le> e) \<and> (\<forall>(b, e)\<in>set (en_sent ctx). length b \<le> e)
     \<and> (\<forall>(c, room)\<in>set (en_next ctx). c = OpcUa_Good \<and> 16 \<le> room)"

definition fits :: "enc_ctx \<Rightarrow> nat \<Rightarrow> bool" where
  "fits ctx n \<longleftrightarrow> (\<forall>e. en_end ctx = Some e \<longrightarrow> length (en_buf ctx) + n \<le> e)"

definition room_for :: "enc_ctx \<Rightarrow> nat \<Rightarrow> bool" where
  "room_for ctx n \<longleftrightarrow> fits ctx n \<or> n \<le> length (en_next ctx) + of_bool (fits ctx 16)"

text \<open>A step that wrote \<open>bs\<close>: in place when they fit, else with at most one new buffer per byte.\<close>

definition wrote :: "byte list \<Rightarrow> enc_ctx \<Rightarrow> enc_ctx \<Rightarrow> bool" where
  "wrote bs ctx ctx' \<longleftrightarrow> ctx_ok ctx' \<and> output_of ctx' = output_of ctx @ bs \<and>
     (if fits ctx (length bs) then ctx' = stored bs ctx
      else en_end ctx' \<noteq> None \<and> length (en_next ctx') < length (en_next ctx)
        \<and> length (en_next ctx) + of_bool (fits ctx 16) \<le> length (en_next ctx') + length bs)"

lemma stored_simps [simp]:
  "en_buf (stored bs ctx) = en_buf ctx @ bs" "en_past (stored bs ctx) = drop (length bs) (en_past ctx)" "en_end (stored bs ctx) = en_end ctx" "en_sent (stored bs ctx) = en_sent ctx"
  "en_next (stored bs ctx) = en_next ctx" "stored [] ctx = ctx" "stored b (stored a ctx) = stored (a @ b) ctx"
  "fits (stored bs ctx) n = fits ctx (length bs + n)" "output_of (stored bs ctx) = output_of ctx @ bs"
  by (simp_all add: stored_def fits_def output_of_def ac_simps)

lemma fits_less: "fits ctx n \<Longrightarrow> m \<le> n \<Longrightarrow> fits ctx m"
  by (force simp: fits_def)

lemma wrote_stored: "ctx_ok ctx \<Longrightarrow> fits ctx (length bs) \<Longrightarrow> wrote bs ctx (stored bs ctx)"
  by (auto simp: wrote_def ctx_ok_def fits_def)

lemma wrote_Nil: "ctx_ok ctx \<Longrightarrow> wrote [] ctx ctx"
  using wrote_stored [of ctx "[]"] by (simp add: fits_def ctx_ok_def)

lemma wrote_trans:
  assumes "wrote a ctx ctx1" "wrote b ctx1 ctx2"
  shows "wrote (a @ b) ctx ctx2"
proof -
  have out: "ctx_ok ctx2" "output_of ctx2 = output_of ctx @ a @ b" using assms by (auto simp: wrote_def)
  show ?thesis
  proof (cases "fits ctx (length a)")
    case True
    then have c1: "ctx1 = stored a ctx" using assms(1) by (simp add: wrote_def)
    show ?thesis
    proof (cases "fits ctx (length (a @ b))")
      case True
      then show ?thesis using assms(2) out by (simp add: wrote_def c1)
    next
      case False
      then have "en_end ctx2 \<noteq> None \<and> length (en_next ctx2) < length (en_next ctx)
          \<and> length (en_next ctx) + of_bool (fits ctx (length a + 16)) \<le> length (en_next ctx2) + length b"
        using assms(2) by (simp add: wrote_def c1)
      then show ?thesis using False out by (cases a) (auto simp: wrote_def)
    qed
  next
    case False
    then have n: "\<not> fits ctx (length (a @ b))" using fits_less by (metis length_append le_add1)
    have c1: "en_end ctx1 \<noteq> None" "length (en_next ctx1) < length (en_next ctx)" "length (en_next ctx) + of_bool (fits ctx 16) \<le> length (en_next ctx1) + length a"
      using False assms(1) by (simp_all add: wrote_def)
    have "en_end ctx2 \<noteq> None \<and> length (en_next ctx2) \<le> length (en_next ctx1) \<and> length (en_next ctx1) \<le> length (en_next ctx2) + length b"
      using assms(2) c1(1) by (cases "fits ctx1 (length b)") (auto simp: wrote_def)
    then show ?thesis using n c1 out by (simp add: wrote_def)
  qed
qed

lemma room_after:
  assumes "wrote a ctx ctx1" "room_for ctx (length a + n)"
  shows "room_for ctx1 n"
proof (cases "fits ctx (length a)")
  case True
  then show ?thesis using assms by (cases a) (auto simp: wrote_def room_for_def of_bool_def split: if_splits)
next
  case False
  then have "length a + n \<le> length (en_next ctx) + of_bool (fits ctx 16)"
    using assms(2) fits_less [of ctx "length a + n" "length a"] by (auto simp: room_for_def)
  moreover have "length (en_next ctx) + of_bool (fits ctx 16) \<le> length (en_next ctx1) + length a" using False assms(1) by (simp add: wrote_def)
  ultimately show ?thesis by (simp add: room_for_def)
qed

text \<open>
  What an encoder does that writes \<open>bs\<close>: it writes them; or it refuses at once, with less than 16 bytes left and not enough for
  \<open>bs\<close>; or there is no room and no buffer to come: then it has written a prefix of \<open>bs\<close>, and perhaps less than 16 bytes of what did not fit.
\<close>

definition refused :: "byte list \<Rightarrow> enc_ctx \<Rightarrow> enc_ctx \<Rightarrow> bool" where
  "refused bs ctx ctx' \<longleftrightarrow> \<not> fits ctx (length bs) \<and> \<not> fits ctx 16 \<and> en_end ctx' = en_end ctx \<and> en_sent ctx' = en_sent ctx
     \<and> en_next ctx' = en_next ctx \<and> take (length (en_buf ctx)) (en_buf ctx') = en_buf ctx
     \<and> en_past ctx' = [] \<and> (\<forall>e. en_end ctx' = Some e \<longrightarrow> length (en_buf ctx') \<le> e)"

definition starved :: "byte list \<Rightarrow> enc_ctx \<Rightarrow> enc_ctx \<Rightarrow> bool" where
  "starved bs ctx ctx' \<longleftrightarrow> \<not> room_for ctx (length bs) \<and> (\<exists>j. output_of ctx' = output_of ctx @ take j bs) \<and> length (en_past ctx') < 16
     \<and> (\<forall>e. en_end ctx' = Some e \<longrightarrow> length (en_buf ctx') + length (en_past ctx') \<le> e)
     \<and> (en_next ctx = [] \<longrightarrow> en_sent ctx' = en_sent ctx \<and> en_end ctx' = en_end ctx)"

lemma refused_longer: "refused a ctx ctx' \<Longrightarrow> refused (a @ b) ctx ctx'"
  by (auto simp: refused_def fits_def)

definition writes :: "enc \<Rightarrow> byte list \<Rightarrow> bool" where
  "writes f bs \<longleftrightarrow> (\<forall>ctx. ctx_ok ctx \<longrightarrow> (\<exists>c ctx'. f ctx = Inr (c, ctx') \<and>
      (c = OpcUa_Good \<and> wrote bs ctx ctx'
     \<or> c = OpcUa_BadEncodingLimitsExceeded \<and> refused bs ctx ctx'
     \<or> c = OpcUa_BadEncodingError \<and> starved bs ctx ctx')))"

text \<open>Where the buffer can have been exchanged before, refusing is no outcome any more.\<close>

definition writes_all :: "enc \<Rightarrow> byte list \<Rightarrow> bool" where
  "writes_all f bs \<longleftrightarrow> (\<forall>ctx. ctx_ok ctx \<longrightarrow> (\<exists>c ctx'. f ctx = Inr (c, ctx') \<and>
      (c = OpcUa_Good \<and> wrote bs ctx ctx' \<or> c = OpcUa_BadEncodingError \<and> starved bs ctx ctx')))"

lemma writes_all_writes: "writes_all f bs \<Longrightarrow> writes f bs"
  unfolding writes_all_def writes_def by blast

lemma writes_emit: "length bs \<le> 16 \<Longrightarrow> writes (emit bs) bs"
  unfolding writes_def
proof (intro allI impI)
  fix ctx assume "length bs \<le> 16" "ctx_ok ctx"
  then show "\<exists>c ctx'. emit bs ctx = Inr (c, ctx') \<and>
      (c = OpcUa_Good \<and> wrote bs ctx ctx'
     \<or> c = OpcUa_BadEncodingLimitsExceeded \<and> refused bs ctx ctx'
     \<or> c = OpcUa_BadEncodingError \<and> starved bs ctx ctx')"
    using wrote_stored [of ctx bs] fits_less [of ctx 16 "length bs"]
    by (cases "fits ctx (length bs)") (auto simp: emit_def fits_def refused_def ctx_ok_def split: option.splits)
qed

lemma writes_all_done: "writes_all (give_up OpcUa_Good) []"
  by (auto simp: writes_all_def give_up_def wrote_Nil)

lemma not_room_before: "wrote a ctx ctx1 \<Longrightarrow> \<not> room_for ctx1 (length b) \<Longrightarrow> \<not> room_for ctx (length (a @ b))"
  using room_after [of a ctx ctx1 "length b"] by auto

lemma not_room_prefix: "\<not> room_for ctx (length a) \<Longrightarrow> \<not> room_for ctx (length (a @ b))"
  using fits_less [of ctx "length (a @ b)" "length a"] by (auto simp: room_for_def)

lemma starved_before:
  assumes "wrote a ctx ctx1" "starved b ctx1 ctx2"
  shows "starved (a @ b) ctx ctx2"
proof -
  have n: "\<not> room_for ctx (length (a @ b))" using not_room_before [OF assms(1)] assms(2) by (simp add: starved_def)
  obtain j where "output_of ctx2 = output_of ctx @ a @ take j b" using assms by (auto simp: starved_def wrote_def)
  then have "output_of ctx2 = output_of ctx @ take (length a + j) (a @ b)" by simp
  then have o: "\<exists>j. output_of ctx2 = output_of ctx @ take j (a @ b)" ..
  have "en_next ctx = [] \<Longrightarrow> ctx1 = stored a ctx" using assms(1) by (auto simp: wrote_def split: if_splits)
  with n o assms(2) show ?thesis by (auto simp: starved_def)
qed

lemma starved_longer:
  assumes "starved a ctx ctx'"
  shows "starved (a @ b) ctx ctx'"
proof -
  obtain j where "output_of ctx' = output_of ctx @ take j a" using assms by (auto simp: starved_def)
  then have "output_of ctx' = output_of ctx @ take (min j (length a)) (a @ b)" by (simp add: min_def)
  then have o: "\<exists>j. output_of ctx' = output_of ctx @ take j (a @ b)" ..
  have "\<not> room_for ctx (length (a @ b))" by (rule not_room_prefix) (use assms in \<open>simp add: starved_def\<close>)
  with o assms show ?thesis by (simp add: starved_def)
qed

lemma writes_then:
  assumes "writes f a" "writes_all g b"
  shows "writes (then_enc f g) (a @ b)"
  unfolding writes_def
proof (intro allI impI)
  fix ctx assume ok: "ctx_ok ctx"
  from assms(1) ok obtain c ctx1 where f: "f ctx = Inr (c, ctx1)" and c: "c = OpcUa_Good \<and> wrote a ctx ctx1
     \<or> c = OpcUa_BadEncodingLimitsExceeded \<and> refused a ctx ctx1
     \<or> c = OpcUa_BadEncodingError \<and> starved a ctx ctx1" unfolding writes_def by blast
  show "\<exists>c ctx'. then_enc f g ctx = Inr (c, ctx') \<and>
      (c = OpcUa_Good \<and> wrote (a @ b) ctx ctx'
     \<or> c = OpcUa_BadEncodingLimitsExceeded \<and> refused (a @ b) ctx ctx'
     \<or> c = OpcUa_BadEncodingError \<and> starved (a @ b) ctx ctx')"
  proof (cases "c = OpcUa_Good")
    case True
    then have w: "wrote a ctx ctx1" using c by auto
    then have "ctx_ok ctx1" by (simp add: wrote_def)
    with assms(2) obtain c2 ctx2 where g: "g ctx1 = Inr (c2, ctx2)"
      "c2 = OpcUa_Good \<and> wrote b ctx1 ctx2 \<or> c2 = OpcUa_BadEncodingError \<and> starved b ctx1 ctx2"
      unfolding writes_all_def by blast
    have "then_enc f g ctx = Inr (c2, ctx2)" using f g True by (simp add: then_enc_def)
    then show ?thesis using g(2) wrote_trans [OF w] starved_before [OF w] by blast
  next
    case False
    then have "then_enc f g ctx = Inr (c, ctx1)" using f by (simp add: then_enc_def)
    then show ?thesis using c False starved_longer refused_longer by blast
  qed
qed

lemma writes_all_then:
  assumes "writes_all f a" "writes_all g b"
  shows "writes_all (then_enc f g) (a @ b)"
  unfolding writes_all_def
proof (intro allI impI)
  fix ctx assume ok: "ctx_ok ctx"
  from assms(1) ok obtain c ctx1 where f: "f ctx = Inr (c, ctx1)" and c: "c = OpcUa_Good \<and> wrote a ctx ctx1
     \<or> c = OpcUa_BadEncodingError \<and> starved a ctx ctx1" unfolding writes_all_def by blast
  show "\<exists>c ctx'. then_enc f g ctx = Inr (c, ctx') \<and>
      (c = OpcUa_Good \<and> wrote (a @ b) ctx ctx' \<or> c = OpcUa_BadEncodingError \<and> starved (a @ b) ctx ctx')"
  proof (cases "c = OpcUa_Good")
    case True
    then have w: "wrote a ctx ctx1" using c by auto
    then have "ctx_ok ctx1" by (simp add: wrote_def)
    with assms(2) obtain c2 ctx2 where g: "g ctx1 = Inr (c2, ctx2)"
      "c2 = OpcUa_Good \<and> wrote b ctx1 ctx2 \<or> c2 = OpcUa_BadEncodingError \<and> starved b ctx1 ctx2"
      unfolding writes_all_def by blast
    have "then_enc f g ctx = Inr (c2, ctx2)" using f g True by (simp add: then_enc_def)
    then show ?thesis using g(2) wrote_trans [OF w] starved_before [OF w] by blast
  next
    case False
    then have "then_enc f g ctx = Inr (c, ctx1)" using f by (simp add: then_enc_def)
    then show ?thesis using c False starved_longer by blast
  qed
qed

text \<open>Trying again in a new buffer.\<close>

lemma exchange_ok:
  assumes "ctx_ok ctx" "en_end ctx = Some e" "en_next ctx = (c, room) # rest"
  obtains ctx2 where "exchangeBuffer ctx = Inr (OpcUa_Good, ctx2)" "ctx_ok ctx2" "output_of ctx2 = output_of ctx" "en_buf ctx2 = []"
    "en_next ctx2 = rest" "en_end ctx2 = Some room" "16 \<le> room" "fits ctx2 16"
proof -
  let ?ctx2 = "ctx\<lparr>en_buf := [], en_past := [], en_end := Some room, en_sent := en_sent ctx @ [(en_buf ctx, the (en_end ctx))], en_next := rest\<rparr>"
  have c: "c = OpcUa_Good" "16 \<le> room" "length (en_buf ctx) \<le> e" using assms by (auto simp: ctx_ok_def)
  have ok: "ctx_ok ?ctx2" using assms c by (auto simp: ctx_ok_def)
  show ?thesis
    by (rule that [of ?ctx2]) (use assms c ok in \<open>simp_all add: exchangeBuffer_def output_of_def fits_def\<close>)
qed

lemma writes_exchange:
  assumes w: "writes f bs" and bs: "bs \<noteq> []"
  shows "writes_all (encodeWithExchangeBuffer f) bs"
  unfolding writes_all_def
proof (intro allI impI)
  fix ctx assume ok: "ctx_ok ctx"
  from w ok obtain c ctx1 where f: "f ctx = Inr (c, ctx1)" and c: "c = OpcUa_Good \<and> wrote bs ctx ctx1
     \<or> c = OpcUa_BadEncodingLimitsExceeded \<and> refused bs ctx ctx1 \<or> c = OpcUa_BadEncodingError \<and> starved bs ctx ctx1"
    unfolding writes_def by blast
  show "\<exists>c ctx'. encodeWithExchangeBuffer f ctx = Inr (c, ctx') \<and>
      (c = OpcUa_Good \<and> wrote bs ctx ctx' \<or> c = OpcUa_BadEncodingError \<and> starved bs ctx ctx')"
  proof (cases "c = OpcUa_BadEncodingLimitsExceeded")
    case False
    then show ?thesis using f c by (auto simp: encodeWithExchangeBuffer_def)
  next
    case True
    then have r: "refused bs ctx ctx1" using c by auto
    let ?rewound = "went_back (length (en_buf ctx)) ctx1"
    have gone: "?rewound = ctx\<lparr>en_past := drop (length (en_buf ctx)) (en_buf ctx1)\<rparr>"
      using r by (simp add: refused_def went_back_def)
    obtain e where e: "en_end ctx = Some e" using r by (cases "en_end ctx") (auto simp: refused_def fits_def)
    have tight: "\<not> fits ctx (length bs)" "\<not> fits ctx 16" using r by (simp_all add: refused_def)
    have eq: "encodeWithExchangeBuffer f ctx = bind_res (exchangeBuffer ?rewound) (\<lambda>(ret, ctx2). if ret \<noteq> OpcUa_Good then Inr (ret, ctx2) else f ctx2)"
      using f True r by (simp add: encodeWithExchangeBuffer_def refused_def)
    show ?thesis
    proof (cases "en_next ctx")
      case Nil
      have "length (en_buf ctx1) \<le> e" "e < length (en_buf ctx) + 16" using r e by (auto simp: refused_def fits_def)
      moreover have "length (en_buf ctx) \<le> e" using ok e by (simp add: ctx_ok_def)
      moreover have "\<exists>j. output_of ctx = output_of ctx @ take j bs" by (rule exI [of _ 0]) simp
      ultimately have "starved bs ctx ?rewound" using Nil tight bs e
        by (auto simp: starved_def gone room_for_def output_of_def)
      then show ?thesis using Nil by (simp add: eq exchangeBuffer_def gone)
    next
      case (Cons a rest)
      then obtain d room where nxt: "en_next ctx = (d, room) # rest" by (cases a) auto
      from ok e nxt obtain ctx2 where x: "exchangeBuffer ctx = Inr (OpcUa_Good, ctx2)" "ctx_ok ctx2" "output_of ctx2 = output_of ctx"
        "en_next ctx2 = rest" "en_end ctx2 = Some room" "fits ctx2 16" by (rule exchange_ok)
      from w x(2) obtain c3 ctx3 where g: "f ctx2 = Inr (c3, ctx3)" and c3: "c3 = OpcUa_Good \<and> wrote bs ctx2 ctx3
         \<or> c3 = OpcUa_BadEncodingLimitsExceeded \<and> refused bs ctx2 ctx3 \<or> c3 = OpcUa_BadEncodingError \<and> starved bs ctx2 ctx3"
        unfolding writes_def by blast
      have "exchangeBuffer ?rewound = exchangeBuffer ctx" using nxt by (simp add: gone exchangeBuffer_def)
      then have run: "encodeWithExchangeBuffer f ctx = Inr (c3, ctx3)" using eq x(1) g by simp
      have "\<not> refused bs ctx2 ctx3" using x(6) by (simp add: refused_def)
      moreover have "starved bs ctx ctx3" if "starved bs ctx2 ctx3"
        using that tight x(3,4,6) nxt by (simp add: starved_def room_for_def)
      moreover have "wrote bs ctx ctx3" if w3: "wrote bs ctx2 ctx3"
      proof -
        have "en_end ctx3 \<noteq> None \<and> length (en_next ctx3) \<le> length (en_next ctx2) \<and> length (en_next ctx2) + 1 \<le> length (en_next ctx3) + length bs"
          using w3 x(5,6) bs by (cases "fits ctx2 (length bs)") (auto simp: wrote_def Suc_le_eq)
        then show ?thesis using w3 tight x(3,4) nxt by (simp add: wrote_def)
      qed
      ultimately show ?thesis using run c3 by blast
    qed
  qed
qed

lemma writes_overlay: "writes_all (Array_encodeBinaryOverlayable bs) bs"
  unfolding writes_all_def
proof (intro allI impI)
  fix ctx assume "ctx_ok ctx"
  then show "\<exists>c ctx'. Array_encodeBinaryOverlayable bs ctx = Inr (c, ctx') \<and>
      (c = OpcUa_Good \<and> wrote bs ctx ctx' \<or> c = OpcUa_BadEncodingError \<and> starved bs ctx ctx')"
  proof (induction bs ctx rule: Array_encodeBinaryOverlayable.induct)
    case (1 bs ctx)
    show ?case
    proof (cases "fits ctx (length bs)")
      case True
      then show ?thesis using 1(2) wrote_stored
        by (auto simp: Array_encodeBinaryOverlayable.simps [of bs ctx] fits_def split: option.splits)
    next
      case False
      then obtain e where e: "en_end ctx = Some e" "e < length (en_buf ctx) + length bs"
        by (cases "en_end ctx") (auto simp: fits_def)
      let ?n = "e - length (en_buf ctx)"
      let ?ctx1 = "stored (take ?n bs) ctx"
      have le: "length (en_buf ctx) \<le> e" using 1(2) e by (simp add: ctx_ok_def)
      have n: "?n < length bs" "length (take ?n bs) = ?n" using e le by auto
      have ok1: "ctx_ok ?ctx1" using 1(2) e le n by (auto simp: ctx_ok_def)
      have run: "Array_encodeBinaryOverlayable bs ctx = (case exchangeBuffer ?ctx1 of Inl f \<Rightarrow> Inl f
          | Inr (ret, ctx1) \<Rightarrow> if ret \<noteq> OpcUa_Good then Inr (ret, ctx1) else Array_encodeBinaryOverlayable (drop ?n bs) ctx1)"
        using e by (simp add: Array_encodeBinaryOverlayable.simps [of bs ctx] Let_def)
      show ?thesis
      proof (cases "en_next ctx")
        case Nil
        have "\<not> room_for ctx (length bs)" using False Nil fits_less [of ctx 16 "length bs"] n e le
          by (auto simp: room_for_def fits_def)
        moreover have "output_of ?ctx1 = output_of ctx @ take ?n bs" by simp
        moreover have "en_past ?ctx1 = []" "length (en_buf ?ctx1) \<le> e" using 1(2) n le by (simp_all add: ctx_ok_def)
        ultimately have "starved bs ctx ?ctx1" using e(1) by (auto simp: starved_def)
        then show ?thesis using Nil by (simp add: run exchangeBuffer_def)
      next
        case (Cons a rest)
        then obtain d room where nxt: "en_next ?ctx1 = (d, room) # rest" by (cases a) auto
        from ok1 _ nxt obtain ctx2 where x: "exchangeBuffer ?ctx1 = Inr (OpcUa_Good, ctx2)" "ctx_ok ctx2" "output_of ctx2 = output_of ?ctx1"
          "en_next ctx2 = rest" "en_end ctx2 = Some room" "fits ctx2 16" using e(1) by (auto elim: exchange_ok)
        obtain c ctx3 where rec: "Array_encodeBinaryOverlayable (drop ?n bs) ctx2 = Inr (c, ctx3)"
          "c = OpcUa_Good \<and> wrote (drop ?n bs) ctx2 ctx3 \<or> c = OpcUa_BadEncodingError \<and> starved (drop ?n bs) ctx2 ctx3"
          using 1(1) [OF e(1) _ refl x(1) refl] e(2) x(2) by auto
        have "Array_encodeBinaryOverlayable bs ctx = Inr (c, ctx3)" using run x(1) rec(1) by simp
        moreover have "starved bs ctx ctx3" if s: "starved (drop ?n bs) ctx2 ctx3"
        proof -
          have "\<not> room_for ctx (length bs)" using s x(4,6) nxt False n e le by (auto simp: starved_def room_for_def fits_def)
          moreover from s obtain j where "output_of ctx3 = output_of ctx @ take ?n bs @ take j (drop ?n bs)" using x(3) by (auto simp: starved_def)
          then have "output_of ctx3 = output_of ctx @ take (?n + j) bs" by (simp add: take_add)
          ultimately show ?thesis using s Cons by (auto simp: starved_def)
        qed
        moreover have "wrote bs ctx ctx3" if w: "wrote (drop ?n bs) ctx2 ctx3"
        proof -
          have "output_of ctx3 = output_of ctx @ bs" using w x(3) by (simp add: wrote_def)
          moreover have "en_end ctx3 \<noteq> None \<and> length (en_next ctx3) \<le> length (en_next ctx2) \<and> length (en_next ctx2) + 1 \<le> length (en_next ctx3) + (length bs - ?n)"
            using w x(5,6) n(1) by (cases "fits ctx2 (length bs - ?n)") (auto simp: wrote_def)
          ultimately show ?thesis using w False x(4) nxt n e le by (auto simp: wrote_def fits_def)
        qed
        ultimately show ?thesis using rec(2) by blast
      qed
    qed
  qed
qed

subsection \<open>The encoders\<close>

lemma writes_array:
  assumes n: "int n \<le> INT32_MAX" and c: "0 < n \<Longrightarrow> read_range d n = Inr xs \<and> writes_all (content xs) bs" and b: "n = 0 \<Longrightarrow> bs = []"
  shows "writes_all (Array_encodeBinary content d n) (bytes_of 4 (array_length_field d n) @ bs)"
proof -
  have len: "writes_all (encodeWithExchangeBuffer (emit (bytes_of 4 (array_length_field d n)))) (bytes_of 4 (array_length_field d n))"
  proof (rule writes_exchange [OF writes_emit])
    have "length (bytes_of 4 (array_length_field d n)) = 4" by simp
    then show "bytes_of 4 (array_length_field d n) \<noteq> []" by (metis list.size(3) zero_neq_numeral)
  qed simp
  have "writes_all (if n = 0 then give_up OpcUa_Good else (\<lambda>ctx. bind_res (read_range d n) (\<lambda>xs. content xs ctx))) bs"
    using c b writes_all_done by (cases "n = 0") simp_all
  from writes_all_then [OF len this] n show ?thesis by (simp add: Array_encodeBinary_def)
qed

lemma bstr_empty: "bs_length s = 0 \<Longrightarrow> bstr_bytes s = []"
  by (simp add: bstr_bytes_def)

lemma writes_strings:
  "wf_bstr s \<Longrightarrow> int (bs_length s) \<le> INT32_MAX \<Longrightarrow> writes_all (String_encodeBinary s) (wire_string char_byte s)"
  "wf_bstr b \<Longrightarrow> int (bs_length b) \<le> INT32_MAX \<Longrightarrow> writes_all (ByteString_encodeBinary b) (wire_string id b)"
  unfolding String_encodeBinary_def ByteString_encodeBinary_def wire_string_def
  using writes_overlay
  by (auto intro!: writes_array [where xs = "bstr_bytes s"] writes_array [where xs = "bstr_bytes b"] simp: read_range_bstr bstr_empty)

lemma writes_dimensions:
  assumes "dimensions_fit v"
  shows "writes_all (dimensions_encodeBinary v) (wire_dimensions v)"
proof (cases "variant_hasDimensions v")
  case False
  then show ?thesis by (simp add: dimensions_encodeBinary_def wire_dimensions_def writes_all_done)
next
  case True
  let ?d = "v_arrayDimensions v" and ?k = "v_arrayDimensionsSize v"
  have k: "0 < ?k" "wf_array ?d ?k" "int ?k \<le> INT32_MAX" using True assms by (simp_all add: dimensions_fit_def variant_hasDimensions_def)
  then have "read_range ?d ?k = Inr (ptr_elems ?d)" "array_length_field ?d ?k = word_of_nat ?k"
    by (cases ?d; auto simp: read_range_def array_length_field_def)+
  then show ?thesis
    using writes_array [of ?k ?d "ptr_elems ?d" "\<lambda>ds. Array_encodeBinaryOverlayable (concat (map (bytes_of 4) ds))"] k True writes_overlay
    by (simp add: dimensions_encodeBinary_def wire_dimensions_def)
qed

lemma writes_guid:
  assumes "length bs = 16"
  shows "writes (Guid_encodeBinary bs) bs"
  unfolding writes_def
proof (intro allI impI)
  fix ctx assume ok: "ctx_ok ctx"
  have parts: "take 4 bs @ take 2 (drop 4 bs) @ take 2 (drop 6 bs) @ take 8 (drop 8 bs) = bs"
    using assms append_take_drop_id [of 4 bs] append_take_drop_id [of 2 "drop 4 bs"] append_take_drop_id [of 2 "drop 6 bs"] by simp
  have len: "length (take 4 bs) = 4" "length (take 2 (drop 4 bs)) = 2" "length (take 2 (drop 6 bs)) = 2" "length (take 8 (drop 8 bs)) = 8"
    using assms by simp_all
  show "\<exists>c ctx'. Guid_encodeBinary bs ctx = Inr (c, ctx') \<and> (c = OpcUa_Good \<and> wrote bs ctx ctx'
     \<or> c = OpcUa_BadEncodingLimitsExceeded \<and> refused bs ctx ctx' \<or> c = OpcUa_BadEncodingError \<and> starved bs ctx ctx')"
  proof (cases "fits ctx 16")
    case True
    then have "Guid_encodeBinary bs ctx = Inr (OpcUa_Good, stored bs ctx)"
      using len parts by (auto simp: Guid_encodeBinary_def or_enc_def emit_def fits_def split: option.split)
    then show ?thesis using wrote_stored [OF ok] True assms by simp
  next
    case False
    then obtain e where e: "en_end ctx = Some e" "e < length (en_buf ctx) + 16" by (cases "en_end ctx") (auto simp: fits_def)
    have "\<exists>ctx'. Guid_encodeBinary bs ctx = Inr (OpcUa_BadEncodingLimitsExceeded, ctx') \<and> (\<exists>a. ctx' = stored a ctx \<and> length (en_buf ctx) + length a \<le> e)"
    proof -
      have s: "\<exists>a. ctx = stored a ctx \<and> length (en_buf ctx) + length a \<le> e" using ok e(1) by (intro exI [of _ "[]"]) (simp add: ctx_ok_def)
      show ?thesis using e len s by (auto simp: Guid_encodeBinary_def or_enc_def emit_def)
    qed
    then show ?thesis using False assms e(1) ok by (auto simp: refused_def ctx_ok_def)
  qed
qed

lemma writes_elems:
  assumes "\<forall>x\<in>set xs. writes (encode_value et x) (wire_value x) \<and> wire_value x \<noteq> []"
  shows "writes_all (Array_encodeBinaryComplex et xs) (concat (map wire_value xs))"
  using assms by (induction xs) (auto simp: writes_all_done intro: writes_all_then writes_exchange)

text \<open>The content of a variant that has a type.\<close>

definition wire_content :: "UA_DataTypeKind \<Rightarrow> UA_value ptr \<Rightarrow> nat \<Rightarrow> byte list" where
  "wire_content kind d n = (case d of
      Heap xs \<Rightarrow> if n = 0 then (case xs of [] \<Rightarrow> [] | x # _ \<Rightarrow> wire_value x)
        else bytes_of 4 (array_length_field d n) @ concat (map (\<lambda>x. if overlayable kind then elem_bytes x else wire_value x) xs)
    | _ \<Rightarrow> bytes_of 4 (array_length_field d n))"

lemma wire_variant_parts:
  "wire_variant (UA_Variant (Some ty) d n dims k) =
     (let v = UA_Variant (Some ty) d n dims k in
      encoding_mask (dt_typeKind ty) (variant_isArray v) (variant_hasDimensions v) # wire_content (dt_typeKind ty) d n @ wire_dimensions v)"
  by (simp add: wire_content_def Let_def)

definition encode_content :: "encode_table \<Rightarrow> UA_DataTypeKind \<Rightarrow> UA_value ptr \<Rightarrow> nat \<Rightarrow> enc" where
  "encode_content et kind d n = (if 0 < n \<or> \<not> is_heap d
     then Array_encodeBinary (\<lambda>xs. if overlayable kind then Array_encodeBinaryOverlayable (concat (map elem_bytes xs))
       else Array_encodeBinaryComplex et xs) d n
     else (case d of Heap (x # xs) \<Rightarrow> encodeWithExchangeBuffer (encode_value et x) | _ \<Rightarrow> (\<lambda>_. Inl (UB OutOfBounds))))"

lemma wire_content_nonempty_array: "0 < n \<or> \<not> is_heap d \<Longrightarrow> wire_content kind d n \<noteq> []"
proof -
  assume a: "0 < n \<or> \<not> is_heap d"
  have "length (bytes_of 4 (array_length_field d n)) = 4" by simp
  then have "bytes_of 4 (array_length_field d n) \<noteq> []" by (metis list.size(3) zero_neq_numeral)
  then show ?thesis using a by (cases d) (auto simp: wire_content_def)
qed

lemma writes_content:
  assumes n: "int n \<le> INT32_MAX"
    and d: "case d of Heap xs \<Rightarrow> length xs = (if n = 0 then 1 else n)
      \<and> (\<forall>x\<in>set xs. writes (encode_value et x) (wire_value x) \<and> wire_value x \<noteq> []) | _ \<Rightarrow> n = 0"
  shows "writes_all (encode_content et kind d n) (wire_content kind d n)"
proof (cases "0 < n \<or> \<not> is_heap d")
  case True
  let ?content = "\<lambda>xs. if overlayable kind then Array_encodeBinaryOverlayable (concat (map elem_bytes xs)) else Array_encodeBinaryComplex et xs"
  let ?bs = "if n = 0 then [] else concat (map (\<lambda>x. if overlayable kind then elem_bytes x else wire_value x) (ptr_elems d))"
  have "writes_all (Array_encodeBinary ?content d n) (bytes_of 4 (array_length_field d n) @ ?bs)"
  proof (rule writes_array [OF n])
    assume "0 < n"
    then obtain xs where xs: "d = Heap xs" "length xs = n" "\<forall>x\<in>set xs. writes (encode_value et x) (wire_value x) \<and> wire_value x \<noteq> []"
      using d by (cases d) auto
    then show "read_range d n = Inr (ptr_elems d) \<and> writes_all (?content (ptr_elems d)) ?bs"
      using \<open>0 < n\<close> writes_overlay writes_elems [OF xs(3)] by (auto simp: read_range_def)
  qed simp
  then show ?thesis using True d by (cases d) (auto simp: encode_content_def wire_content_def)
next
  case False
  then obtain xs where "d = Heap xs" by (cases d) auto
  then obtain x where "d = Heap [x]" "n = 0" using False d by (cases xs) auto
  then show ?thesis using d by (auto simp: encode_content_def wire_content_def intro: writes_exchange)
qed

lemma Variant_encodeBinary_parts:
  assumes "kind_index (dt_typeKind ty) \<le> 24"
  shows "Variant_encodeBinary et (UA_Variant (Some ty) d n dims k) =
     (let v = UA_Variant (Some ty) d n dims k;
          go = then_enc (emit [encoding_mask (dt_typeKind ty) (variant_isArray v) (variant_hasDimensions v)])
                 (then_enc (encode_content et (dt_typeKind ty) d n) (dimensions_encodeBinary v))
      in if variant_hasDimensions v
         then (\<lambda>ctx. bind_res (dimensions_agree v) (\<lambda>ok. if ok then go ctx else Inr (OpcUa_BadEncodingError, ctx)))
         else go)"
  using assms by (simp add: encode_content_def variant_isArray_def Let_def)

lemma dimensions_agree_fit: "dimensions_fit v \<Longrightarrow> variant_hasDimensions v \<Longrightarrow> dimensions_agree v = Inr True"
  by (cases "v_arrayDimensions v") (auto simp: dimensions_fit_def dimensions_agree_def read_range_def variant_hasDimensions_def)

lemma writes_variant:
  assumes "kind_index (dt_typeKind ty) \<le> 24" "int n \<le> INT32_MAX" "dimensions_fit (UA_Variant (Some ty) d n dims k)"
    and "case d of Heap xs \<Rightarrow> length xs = (if n = 0 then 1 else n)
      \<and> (\<forall>x\<in>set xs. writes (encode_value et x) (wire_value x) \<and> wire_value x \<noteq> []) | _ \<Rightarrow> n = 0"
  shows "writes (Variant_encodeBinary et (UA_Variant (Some ty) d n dims k)) (wire_variant (UA_Variant (Some ty) d n dims k))"
proof -
  let ?v = "UA_Variant (Some ty) d n dims k"
  let ?m = "[encoding_mask (dt_typeKind ty) (variant_isArray ?v) (variant_hasDimensions ?v)]"
  let ?go = "then_enc (emit ?m) (then_enc (encode_content et (dt_typeKind ty) d n) (dimensions_encodeBinary ?v))"
  have "writes ?go (?m @ wire_content (dt_typeKind ty) d n @ wire_dimensions ?v)"
    by (rule writes_then [OF writes_emit writes_all_then [OF writes_content [OF assms(2,4)] writes_dimensions [OF assms(3)]]]) simp
  moreover have "Variant_encodeBinary et ?v = ?go"
    using dimensions_agree_fit [OF assms(3)]
    by (simp add: Variant_encodeBinary_parts [OF assms(1)] fun_eq_iff Let_def del: Variant_encodeBinary.simps)
  moreover have "wire_variant ?v = ?m @ wire_content (dt_typeKind ty) d n @ wire_dimensions ?v" by (simp only: wire_variant_parts Let_def append_Cons append_Nil)
  ultimately show ?thesis by (simp only:)
qed

lemma bytes_of_nonempty [simp]: "0 < n \<Longrightarrow> bytes_of n w \<noteq> []"
  by (cases n) simp_all

lemma raw_size_cases: "raw_size k = Some m \<longleftrightarrow> k = DATETIME \<and> m = 8 \<or> k = STATUSCODE \<and> m = 4 \<or> k = GUID \<and> m = 16"
  by (auto simp: raw_size_def)

lemma encoder_writes:
  "encodable x \<Longrightarrow> writes (encode_value et x) (wire_value x) \<and> wire_value x \<noteq> []"
  "encodable_variant v \<Longrightarrow> writes (Variant_encodeBinary et v) (wire_variant v) \<and> wire_variant v \<noteq> []"
proof (induction x and v rule: encodable_encodable_variant.induct)
  case (1 s)
  then show ?case using writes_all_writes [OF writes_strings(1), of s] by (simp add: wire_string_def)
next
  case (2 s)
  then show ?case using writes_all_writes [OF writes_strings(2), of s] by (simp add: wire_string_def)
next
  case (4 k bs)
  then show ?case using writes_emit [of bs] writes_guid [of bs] by (auto simp: raw_size_cases)
next
  case (7 ty d n dims k)
  have "case d of Heap xs \<Rightarrow> length xs = (if n = 0 then 1 else n)
      \<and> (\<forall>x\<in>set xs. writes (encode_value et x) (wire_value x) \<and> wire_value x \<noteq> []) | _ \<Rightarrow> n = 0"
    using 7 by (cases d) auto
  then have "writes (Variant_encodeBinary et (UA_Variant (Some ty) d n dims k)) (wire_variant (UA_Variant (Some ty) d n dims k))"
    using 7(2) by (intro writes_variant) simp_all
  then show ?case by (simp only: wire_variant_parts Let_def) simp
qed (simp_all add: writes_emit)

end
