(* ===== verification/UA_WireDecode.thy ===== *)
theory UA_WireDecode
  imports UA_Wire
begin

text \<open>
  The decoder on what the encoder wrote: what arrives of a value, and which values arrive.
\<close>

subsection \<open>What arrives\<close>

text \<open>
  NaNs outside of arrays are made quiet, dimensions only arrive with an array. The decoder refuses values that are nested too
  deep, a variant directly in a variant and arrays with a dimension of zero; the encoder does not.
\<close>

fun received :: "UA_value \<Rightarrow> UA_value"
and received_variant :: "UA_Variant \<Rightarrow> UA_Variant"
where
  "received (VFloat w) = VFloat (quiet32 w)"
| "received (VDouble w) = VDouble (quiet64 w)"
| "received (VVariant v) = VVariant (received_variant v)"
| "received x = x"
| "received_variant (UA_Variant None d n dims k) = UA_Variant_init"
| "received_variant (UA_Variant (Some ty) d n dims k) =
     (let v = UA_Variant (Some ty) d n dims k in
      UA_Variant (Some ty)
        (case d of Heap xs \<Rightarrow> Heap (map (\<lambda>x. if 0 < n \<and> overlayable (dt_typeKind ty) then x else received x) xs) | _ \<Rightarrow> d) n
        (if variant_hasDimensions v then dims else Null) (if variant_hasDimensions v then k else 0))"

fun decodable :: "nat \<Rightarrow> UA_value \<Rightarrow> bool"
and decodable_variant :: "nat \<Rightarrow> UA_Variant \<Rightarrow> bool"
where
  "decodable depth (VVariant v) \<longleftrightarrow> decodable_variant depth v"
| "decodable depth _ \<longleftrightarrow> True"
| "decodable_variant depth (UA_Variant None d n dims k) \<longleftrightarrow> True"
| "decodable_variant depth (UA_Variant (Some ty) d n dims k) \<longleftrightarrow> depth \<le> UA_ENCODING_MAX_RECURSION
     \<and> (dt_typeKind ty = VARIANT \<longrightarrow> variant_isArray (UA_Variant (Some ty) d n dims k))
     \<and> (variant_hasDimensions (UA_Variant (Some ty) d n dims k) \<longrightarrow> 0 \<notin> set (ptr_elems dims))
     \<and> (case d of Heap xs \<Rightarrow> \<forall>x\<in>set xs. decodable (Suc depth) x | _ \<Rightarrow> True)"

subsection \<open>Arrays\<close>

lemma decode_fixed_append: "length bs = n \<Longrightarrow> decode_fixed n f z (bs @ tail) = (OpcUa_Good, f bs, tail)"
  by (simp add: decode_fixed_def)

lemma length_fits:
  assumes "n * m \<le> 128 * length bs" "0 < m"
  shows "\<not> length (bs @ tail) div m < n div 128"
proof -
  have "128 * (n div 128 * m) \<le> n * m" using mult_le_mono1 [OF times_div_less_eq_dividend [of 128 n], of m] by (simp only: mult.assoc)
  then have "n div 128 * m \<le> length (bs @ tail)" using assms(1) unfolding length_append by linarith
  then have "n div 128 \<le> length (bs @ tail) div m" using assms(2) by (simp add: less_eq_div_iff_mult_less_eq)
  then show ?thesis by simp
qed

lemma array_length_field_back:
  assumes "int n \<le> INT32_MAX"
  shows "0 < n \<Longrightarrow> sint (array_length_field d n) = int n" "0 < n \<Longrightarrow> unat (array_length_field d n) = n"
proof -
  have n: "n < 2147483648" using assms by (simp add: INT32_MAX_def)
  then show "0 < n \<Longrightarrow> sint (array_length_field d n) = int n"
    using int32_of_size_small [OF n] by (simp add: array_length_field_def int32_of_size_def)
  show "0 < n \<Longrightarrow> unat (array_length_field d n) = n"
    using n by (simp add: array_length_field_def unsigned_of_nat take_bit_nat_eq_self_iff)
qed

lemma decode_array:
  assumes n: "int n \<le> INT32_MAX" and al: "mem_ok al" and m: "0 < m" "n * m \<le> 128 * length bs"
    and d: "n = 0 \<Longrightarrow> \<not> is_heap d \<and> bs = []" and c: "0 < n \<Longrightarrow> content n (bs @ tail) = (OpcUa_Good, ys, tail)"
  shows "Array_decodeBinary al m content (bytes_of 4 (array_length_field d n) @ bs @ tail) = (OpcUa_Good, if n = 0 then d else Heap ys, n, tail)"
proof -
  have len: "decode_fixed 4 word_of_bytes 0 (bytes_of 4 (array_length_field d n) @ bs @ tail) = (OpcUa_Good, array_length_field d n, bs @ tail)"
    by (simp add: decode_fixed_append)
  show ?thesis
  proof (cases "n = 0")
    case True
    then show ?thesis using d len
      by (cases d) (simp_all add: Array_decodeBinary_def array_length_field_def)
  next
    case False
    then show ?thesis using c al length_fits [OF m(2,1), of tail] array_length_field_back(1,2) [OF n, of d]
      by (simp add: Array_decodeBinary_def len Let_def)
  qed
qed

lemma chunks_concat:
  "\<forall>b\<in>set bss. length b = m \<Longrightarrow> chunks m (length bss) (concat bss @ tail) = bss"
  by (induction bss) auto

lemma length_concat_const: "\<forall>b\<in>set bss. length b = m \<Longrightarrow> length (concat bss) = m * length bss"
  by (induction bss) auto

lemma decode_overlay_concat:
  assumes "\<forall>x\<in>set xs. length (g x) = m \<and> f (g x) = x" "length xs = n"
  shows "decode_overlay m f n (concat (map g xs) @ tail) = (OpcUa_Good, xs, tail)"
proof -
  have "length (concat (map g xs)) = m * n" using assms length_concat_const [of "map g xs" m] by simp
  moreover have "chunks m n (concat (map g xs) @ tail) = map g xs" using assms chunks_concat [of "map g xs" m tail] by simp
  moreover have "map f (map g xs) = xs" using assms(1) by (simp add: map_idI)
  ultimately show ?thesis by (simp add: decode_overlay_def)
qed

lemma concat_singletons: "concat (map (\<lambda>x. [f x]) xs) = map f xs"
  by (induction xs) auto

lemma decode_strings:
  assumes "mem_ok al"
  shows "wf_bstr s \<Longrightarrow> int (bs_length s) \<le> INT32_MAX \<Longrightarrow> String_decodeBinary al (wire_string char_byte s @ tail) = (OpcUa_Good, s, tail)"
    "wf_bstr b \<Longrightarrow> int (bs_length b) \<le> INT32_MAX \<Longrightarrow> ByteString_decodeBinary al (wire_string id b @ tail) = (OpcUa_Good, b, tail)"
proof -
  have str: "Array_decodeBinary al 1 (decode_overlay 1 f) (wire_string g s @ tail) = (OpcUa_Good, bs_data s, bs_length s, tail)"
    if "wf_bstr s" "int (bs_length s) \<le> INT32_MAX" and inv: "\<And>x. f [g x] = x" for s :: "'z bstr" and f g
  proof -
    have len: "length (bstr_bytes s) = bs_length s" using that(1) by (rule wf_bstr_length)
    have "decode_overlay 1 f (bs_length s) (concat (map (\<lambda>x. [g x]) (bstr_bytes s)) @ tail) = (OpcUa_Good, bstr_bytes s, tail)"
      using len inv by (intro decode_overlay_concat) auto
    then have "Array_decodeBinary al 1 (decode_overlay 1 f) (bytes_of 4 (array_length_field (bs_data s) (bs_length s)) @ map g (bstr_bytes s) @ tail)
        = (OpcUa_Good, if bs_length s = 0 then bs_data s else Heap (bstr_bytes s), bs_length s, tail)"
      using that(1,2) len assms by (intro decode_array) (auto simp: concat_singletons wf_bstr_def wf_array_def bstr_empty split: ptr.splits)
    moreover have "(if bs_length s = 0 then bs_data s else Heap (bstr_bytes s)) = bs_data s"
      using that(1) by (cases "bs_data s") (auto simp: wf_bstr_def bstr_bytes_def)
    ultimately show ?thesis by (simp add: wire_string_def)
  qed
  show "wf_bstr s \<Longrightarrow> int (bs_length s) \<le> INT32_MAX \<Longrightarrow> String_decodeBinary al (wire_string char_byte s @ tail) = (OpcUa_Good, s, tail)"
    using str [of s "\<lambda>b. byte_char (hd b)" char_byte] by (simp add: String_decodeBinary_def)
  show "wf_bstr b \<Longrightarrow> int (bs_length b) \<le> INT32_MAX \<Longrightarrow> ByteString_decodeBinary al (wire_string id b @ tail) = (OpcUa_Good, b, tail)"
    using str [of b hd id] by (simp add: ByteString_decodeBinary_def)
qed

subsection \<open>Values\<close>

lemma mem_bytes_back:
  assumes "encodable x" "overlayable (value_kind x)"
  shows "length (elem_bytes x) = kind_memSize (value_kind x)" "value_of_mem (value_kind x) (elem_bytes x) = x"
  using assms by (cases x; auto simp: kind_memSize_def value_of_mem_def overlayable_def raw_size_cases)+

lemma kind_of_index_back: "kind_index k \<le> 24 \<Longrightarrow> kind_of_index (kind_index k) = k"
  by (cases k) (simp_all add: kind_of_index_def)

lemma encoding_mask_back:
  assumes "kind_index k \<le> 24"
  shows "encoding_mask k a d AND 0x80 \<noteq> 0 \<longleftrightarrow> a" "encoding_mask k a d AND 0x40 \<noteq> 0 \<longleftrightarrow> d"
    "unat (encoding_mask k a d AND 0x3F) = kind_index k + 1" "encoding_mask k a d \<noteq> 0"
  using assms by (cases k; cases a; cases d; simp add: encoding_mask_def)+

lemma kind_memSize_bounds: "0 < kind_memSize k" "kind_memSize k \<le> 128"
  by (cases k; simp add: kind_memSize_def)+

lemma decode_elems_concat:
  assumes "\<And>x tail. x \<in> set xs \<Longrightarrow> decode_value de al k depth (wire_value x @ tail) = (OpcUa_Good, received x, tail)" "length xs = n"
  shows "decode_elems de al k depth n (concat (map wire_value xs) @ tail) = (OpcUa_Good, map received xs, tail)"
  using assms by (induction xs arbitrary: n) auto

lemma check_dimensions_ok:
  assumes "required_size p ds = Some n" "0 \<notin> set ds" "p \<le> SIZE_MAX"
  shows "check_dimensions OpcUa_Good p ds = (OpcUa_Good, n)"
  using assms
proof (induction p ds rule: required_size.induct)
  case (2 p d ds)
  have d: "0 < unat d" using 2(3) by (simp add: unat_gt_0)
  have "\<not> SIZE_MAX div unat d < p" and r: "required_size (p * unat d) ds = Some n" using 2(2) d by (auto split: if_splits)
  then have le: "p \<le> SIZE_MAX div unat d" by simp
  then have "p * unat d \<le> SIZE_MAX" using d by (simp add: less_eq_div_iff_mult_less_eq)
  moreover have "d \<noteq> 0" using 2(3) by auto
  ultimately show ?case using 2 d le r by simp
qed simp

lemma decode_value_variant:
  "decode_value de al VARIANT depth bs = (case Variant_decodeBinary de al depth bs of (ret, v, rest) \<Rightarrow> (ret, VVariant v, rest))"
  by (simp add: decode_value.simps)

lemma decode_scalar:
  assumes "encodable x" "mem_ok al" "value_kind x \<noteq> VARIANT"
  shows "decode_value de al (value_kind x) depth (wire_value x @ tail) = (OpcUa_Good, received x, tail)"
proof (cases x)
  case (VOther k bs)
  then consider "k = DATETIME" "length bs = 8" | "k = STATUSCODE" "length bs = 4" | "k = GUID" "length bs = 16"
    using assms(1) by (auto simp: raw_size_cases)
  then show ?thesis
  proof cases
    case 3
    have "take 4 bs @ take 2 (drop 4 bs) @ take 2 (drop 6 bs) @ take 8 (drop 8 bs) = bs"
      using 3(2) append_take_drop_id [of 4 bs] append_take_drop_id [of 2 "drop 4 bs"] append_take_drop_id [of 2 "drop 6 bs"] by simp
    then show ?thesis using VOther 3 by (simp add: decode_value.simps Guid_decodeBinary_def decode_fixed_def)
  qed (use VOther in \<open>simp_all add: decode_value.simps overlayable_def decode_fixed_def kind_memSize_def value_of_mem_def\<close>)
next
  case (VString s)
  then show ?thesis using assms decode_strings(1) [OF assms(2), of s tail] by (simp add: decode_value.simps)
next
  case (VByteString s)
  then show ?thesis using assms decode_strings(2) [OF assms(2), of s tail] by (simp add: decode_value.simps)
qed (use assms(3) in \<open>simp_all add: decode_value.simps overlayable_def decode_fixed_def kind_memSize_def value_of_mem_def\<close>)

lemma decode_dimensions_back:
  assumes fit: "dimensions_fit (UA_Variant t d n dims k)" and has: "variant_hasDimensions (UA_Variant t d n dims k)"
    and pos: "0 \<notin> set (ptr_elems dims)" and al: "mem_ok al" and v: "v_type v = t" "v_arrayLength v = n"
  shows "decode_dimensions al OpcUa_Good v (wire_dimensions (UA_Variant t d n dims k) @ tail) = (OpcUa_Good, UA_Variant t (v_data v) n dims k, tail)"
proof -
  have k: "wf_array dims k" "int k \<le> INT32_MAX" "required_size 1 (ptr_elems dims) = Some n" "0 < k"
    using fit has by (simp_all add: dimensions_fit_def variant_hasDimensions_def)
  then obtain ds where ds: "dims = Heap ds" "length ds = k" by (cases dims) auto
  have "decode_overlay 4 word_of_bytes k (concat (map (bytes_of 4) ds) @ tail) = (OpcUa_Good, ds, tail)"
    using ds by (intro decode_overlay_concat) auto
  then have "Array_decodeBinary al 4 (decode_overlay 4 word_of_bytes) (bytes_of 4 (array_length_field dims k) @ concat (map (bytes_of 4) ds) @ tail)
      = (OpcUa_Good, if k = 0 then dims else Heap ds, k, tail)"
    using k al ds length_concat_const [of "map (bytes_of 4) ds" 4] by (intro decode_array) auto
  moreover have "wire_dimensions (UA_Variant t d n dims k) = bytes_of 4 (array_length_field dims k) @ concat (map (bytes_of 4) ds)"
    using has k(4) ds by (simp add: wire_dimensions_def array_length_field_def)
  moreover have "check_dimensions OpcUa_Good 1 ds = (OpcUa_Good, n)"
    using k(3) pos ds by (intro check_dimensions_ok) (auto simp: SIZE_MAX_def)
  ultimately show ?thesis using k(4) ds v by (simp add: decode_dimensions_def)
qed

text \<open>The content of a variant, with what each element does given.\<close>

lemma decode_array_content:
  assumes n: "int n \<le> INT32_MAX" "0 < n \<or> \<not> is_heap d" and al: "mem_ok al"
    and d: "case d of Heap xs \<Rightarrow> length xs = n \<and> (\<forall>x\<in>set xs. encodable x \<and> value_kind x = kind) | _ \<Rightarrow> n = 0"
    and e: "\<And>x tail. \<not> overlayable kind \<Longrightarrow> x \<in> set (ptr_elems d) \<Longrightarrow> decode_value de al kind depth (wire_value x @ tail) = (OpcUa_Good, received x, tail)"
  shows "Array_decodeBinary al (kind_memSize kind) (\<lambda>n rest. if overlayable kind then decode_overlay (kind_memSize kind) (value_of_mem kind) n rest
        else decode_elems de al kind depth n rest) (wire_content kind d n @ tail)
    = (OpcUa_Good, case d of Heap xs \<Rightarrow> Heap (map (\<lambda>x. if 0 < n \<and> overlayable kind then x else received x) xs) | _ \<Rightarrow> d, n, tail)"
proof -
  let ?content = "\<lambda>n rest. if overlayable kind then decode_overlay (kind_memSize kind) (value_of_mem kind) n rest
        else decode_elems de al kind depth n rest"
  let ?bs = "concat (map (\<lambda>x. if overlayable kind then elem_bytes x else wire_value x) (ptr_elems d))"
  let ?ys = "map (\<lambda>x. if 0 < n \<and> overlayable kind then x else received x) (ptr_elems d)"
  have len: "length (ptr_elems d) = n" and enc: "\<forall>x\<in>set (ptr_elems d). encodable x \<and> value_kind x = kind" using d by (cases d; simp)+
  have size: "n * kind_memSize kind \<le> 128 * length ?bs"
  proof (cases "overlayable kind")
    case True
    then have "length ?bs = kind_memSize kind * n"
      using length_concat_const [of "map elem_bytes (ptr_elems d)" "kind_memSize kind"] mem_bytes_back(1) enc len by auto
    then show ?thesis by simp
  next
    case False
    have "length xs \<le> length (concat (map wire_value xs))" if "\<forall>x\<in>set xs. encodable x" for xs
      using that
    proof (induction xs)
      case (Cons x xs)
      then have "1 \<le> length (wire_value x)" using encoder_writes(1) [of x] by (cases "wire_value x") auto
      moreover have "length xs \<le> length (concat (map wire_value xs))" using Cons by simp
      ultimately show ?case by (simp del: One_nat_def)
    qed simp
    then have "n \<le> length ?bs" using False enc len by auto
    then show ?thesis using kind_memSize_bounds(2) [of kind] by (metis mult.commute mult_le_mono)
  qed
  have "?content n (?bs @ tail) = (OpcUa_Good, ?ys, tail)" if "0 < n"
  proof (cases "overlayable kind")
    case True
    have "\<forall>x\<in>set (ptr_elems d). length (elem_bytes x) = kind_memSize kind \<and> value_of_mem kind (elem_bytes x) = x"
    proof
      fix x assume "x \<in> set (ptr_elems d)"
      then have "encodable x" "value_kind x = kind" using enc by simp_all
      then show "length (elem_bytes x) = kind_memSize kind \<and> value_of_mem kind (elem_bytes x) = x"
        using mem_bytes_back [of x] True by simp
    qed
    from decode_overlay_concat [OF this len]
    have "decode_overlay (kind_memSize kind) (value_of_mem kind) n (concat (map elem_bytes (ptr_elems d)) @ tail) = (OpcUa_Good, ptr_elems d, tail)" .
    moreover have "?ys = ptr_elems d" using that True by simp
    ultimately show ?thesis using True by (simp only: if_True)
  next
    case False
    then show ?thesis using decode_elems_concat [of "ptr_elems d" de al kind depth n tail] e len by simp
  qed
  moreover have "n = 0 \<Longrightarrow> \<not> is_heap d \<and> ?bs = []" using n(2) by (cases d) auto
  ultimately have "Array_decodeBinary al (kind_memSize kind) ?content (bytes_of 4 (array_length_field d n) @ ?bs @ tail)
      = (OpcUa_Good, if n = 0 then d else Heap ?ys, n, tail)"
    using n(1) al size kind_memSize_bounds(1) by (intro decode_array) auto
  moreover have "wire_content kind d n = bytes_of 4 (array_length_field d n) @ ?bs" using n(2) d by (cases d) (auto simp: wire_content_def)
  moreover have "(if n = 0 then d else Heap ?ys) = (case d of Heap xs \<Rightarrow> Heap (map (\<lambda>x. if 0 < n \<and> overlayable kind then x else received x) xs) | _ \<Rightarrow> d)"
    using n(2) d by (cases d) auto
  ultimately show ?thesis by simp
qed

lemma Variant_decodeBinary_mask:
  assumes "kind_index kind \<le> 24" "kind \<noteq> EXTENSIONOBJECT" "kind = VARIANT \<longrightarrow> a" "depth \<le> UA_ENCODING_MAX_RECURSION" "mem_ok al"
  shows "Variant_decodeBinary de al depth (encoding_mask kind a h # bs) =
    (if a then (case Array_decodeBinary al (kind_memSize kind)
                 (\<lambda>n rest. if overlayable kind then decode_overlay (kind_memSize kind) (value_of_mem kind) n rest
                   else decode_elems de al kind (Suc depth) n rest) bs of (ret, p, n, rest) \<Rightarrow>
             if h then decode_dimensions al ret (UA_Variant (Some (UA_TYPES kind)) p n Null 0) rest
             else (ret, UA_Variant (Some (UA_TYPES kind)) p n Null 0, rest))
     else (case decode_value de al kind (Suc depth) bs of (ret, x, rest) \<Rightarrow> (ret, UA_Variant (Some (UA_TYPES kind)) (Heap [x]) 0 Null 0, rest)))"
proof (cases a)
  case True
  show ?thesis
    using assms(2,4,5) encoding_mask_back [OF assms(1), of True h] kind_of_index_back [OF assms(1)] True assms(1)
    by (simp add: Variant_decodeBinary.simps(2) Let_def case_prod_unfold cong: if_cong)
next
  case False
  show ?thesis
    using assms(2-5) encoding_mask_back [OF assms(1), of False h] kind_of_index_back [OF assms(1)] False assms(1)
    by (simp add: Variant_decodeBinary.simps(2) Let_def case_prod_unfold cong: if_cong)
qed

lemma decode_variant_back:
  assumes enc: "encodable_variant (UA_Variant (Some ty) d n dims k)" and dec: "decodable_variant depth (UA_Variant (Some ty) d n dims k)"
    and al: "mem_ok al"
    and e: "\<And>x tail. x \<in> set (ptr_elems d) \<Longrightarrow> decode_value de al (dt_typeKind ty) (Suc depth) (wire_value x @ tail) = (OpcUa_Good, received x, tail)"
  shows "Variant_decodeBinary de al depth (wire_variant (UA_Variant (Some ty) d n dims k) @ tail)
    = (OpcUa_Good, received_variant (UA_Variant (Some ty) d n dims k), tail)"
proof -
  let ?v = "UA_Variant (Some ty) d n dims k" and ?kind = "dt_typeKind ty"
  have ty: "ty = UA_TYPES ?kind" using enc by simp
  then have ty': "UA_TYPES ?kind = ty" by (rule sym)
  have k: "kind_index ?kind \<le> 24" "?kind \<noteq> EXTENSIONOBJECT" "int n \<le> INT32_MAX" "dimensions_fit ?v" using enc by simp_all
  have depth: "depth \<le> UA_ENCODING_MAX_RECURSION" using dec by simp
  have isv: "?kind = VARIANT \<longrightarrow> variant_isArray ?v" using dec by simp
  have wire: "wire_variant ?v @ tail = encoding_mask ?kind (variant_isArray ?v) (variant_hasDimensions ?v)
      # wire_content ?kind d n @ wire_dimensions ?v @ tail" by (simp only: wire_variant_parts Let_def append_Cons append_assoc)
  show ?thesis
  proof (cases "variant_isArray ?v")
    case True
    then have a: "0 < n \<or> \<not> is_heap d" by (simp add: variant_isArray_def)
    have "case d of Heap xs \<Rightarrow> length xs = n \<and> (\<forall>x\<in>set xs. encodable x \<and> value_kind x = ?kind) | _ \<Rightarrow> n = 0"
      using enc a by (cases d) auto
    from decode_array_content [OF k(3) a al this e]
    have "Variant_decodeBinary de al depth (wire_variant ?v @ tail) =
      (let w = UA_Variant (Some ty) (case d of Heap xs \<Rightarrow> Heap (map (\<lambda>x. if 0 < n \<and> overlayable ?kind then x else received x) xs) | _ \<Rightarrow> d) n Null 0
       in if variant_hasDimensions ?v then decode_dimensions al OpcUa_Good w (wire_dimensions ?v @ tail) else (OpcUa_Good, w, wire_dimensions ?v @ tail))"
      unfolding wire Variant_decodeBinary_mask [OF k(1,2) isv depth al] using True ty' by simp
    then show ?thesis
      using decode_dimensions_back [OF k(4) _ _ al, of _ tail] dec by (auto simp: wire_dimensions_def Let_def)
  next
    case False
    then obtain x where x: "d = Heap [x]" "n = 0" using enc by (cases d) (auto simp: variant_isArray_def length_Suc_conv split: if_splits)
    have h: "\<not> variant_hasDimensions ?v" using False by (simp add: variant_hasDimensions_def)
    have "Variant_decodeBinary de al depth (wire_variant ?v @ tail) = (OpcUa_Good, UA_Variant (Some ty) (Heap [received x]) 0 Null 0, tail)"
      unfolding wire Variant_decodeBinary_mask [OF k(1,2) isv depth al] using False h e [of x] x ty'
      by (simp add: wire_content_def wire_dimensions_def)
    then show ?thesis using x h by simp
  qed
qed

lemma decoder_reads:
  assumes "mem_ok al"
  shows "encodable x \<Longrightarrow> decodable depth x \<Longrightarrow> decode_value de al (value_kind x) depth (wire_value x @ tail) = (OpcUa_Good, received x, tail)"
    "encodable_variant v \<Longrightarrow> decodable_variant depth v \<Longrightarrow> Variant_decodeBinary de al depth (wire_variant v @ tail) = (OpcUa_Good, received_variant v, tail)"
proof (induction x and v arbitrary: depth tail and depth tail rule: encodable_encodable_variant.induct)
  case (3 v)
  then show ?case by (simp add: decode_value_variant)
next
  case (6 d n dims k)
  then show ?case by (simp add: Variant_decodeBinary.simps(2))
next
  case (7 ty d n dims k)
  have "decode_value de al (dt_typeKind ty) (Suc depth) (wire_value x @ tail) = (OpcUa_Good, received x, tail)" if "x \<in> set (ptr_elems d)" for x tail
    using 7 that by (cases d) auto
  then show ?case by (rule decode_variant_back [OF 7(2,3) assms])
qed (rule decode_scalar [OF _ assms]; auto simp: raw_size_def)+

subsection \<open>What is refused\<close>

lemma word_or_zero: "(a :: 'a::len word) OR b = 0 \<longleftrightarrow> a = 0 \<and> b = 0"
  by (auto simp: bit_eq_iff bit_simps)

lemma check_dimensions_bad:
  "ret \<noteq> OpcUa_Good \<or> 0 \<in> set ds \<Longrightarrow> fst (check_dimensions ret p ds) \<noteq> OpcUa_Good"
  by (induction ret p ds rule: check_dimensions.induct) (auto split: if_splits)

lemma decode_dimensions_bad:
  assumes "ret \<noteq> OpcUa_Good"
  shows "fst (decode_dimensions al ret v bs) \<noteq> OpcUa_Good"
  using assms check_dimensions_bad [of "ret OR c" "ptr_elems ds" 1 for c ds]
  by (auto simp: decode_dimensions_def word_or_zero split: prod.splits) (metis fst_conv)+

lemma decode_elems_bad:
  assumes "\<And>x tail. x \<in> set xs \<Longrightarrow> ok x \<Longrightarrow> decode_value de al k depth (wire_value x @ tail) = (OpcUa_Good, received x, tail)"
    and "\<And>x tail. x \<in> set xs \<Longrightarrow> \<not> ok x \<Longrightarrow> fst (decode_value de al k depth (wire_value x @ tail)) \<noteq> OpcUa_Good"
    and "\<exists>x\<in>set xs. \<not> ok x"
  shows "fst (decode_elems de al k depth (length xs) (concat (map wire_value xs) @ tail)) \<noteq> OpcUa_Good"
  using assms
proof (induction xs)
  case (Cons x xs)
  show ?case
  proof (cases "ok x")
    case True
    then have "fst (decode_elems de al k depth (length xs) (concat (map wire_value xs) @ tail)) \<noteq> OpcUa_Good"
      using Cons by auto
    then show ?thesis using True Cons.prems(1) [of x "concat (map wire_value xs) @ tail"] by (auto split: prod.split)
  next
    case False
    then show ?thesis using Cons.prems(2) [of x "concat (map wire_value xs) @ tail"] by (auto split: prod.split)
  qed
qed simp

lemma decode_array_bad:
  assumes "fst (content n (bs @ tail)) \<noteq> OpcUa_Good" "int n \<le> INT32_MAX" "0 < n"
  shows "fst (Array_decodeBinary al m content (bytes_of 4 (array_length_field d n) @ bs @ tail)) \<noteq> OpcUa_Good"
  using assms array_length_field_back [OF assms(2), of d]
  by (auto simp: Array_decodeBinary_def decode_fixed_append Let_def split: prod.split)

lemma decode_dimensions_zero:
  assumes fit: "dimensions_fit (UA_Variant t d n dims k)" and has: "variant_hasDimensions (UA_Variant t d n dims k)"
    and zero: "0 \<in> set (ptr_elems dims)" and al: "mem_ok al"
  shows "fst (decode_dimensions al ret v (wire_dimensions (UA_Variant t d n dims k) @ tail)) \<noteq> OpcUa_Good"
proof -
  have k: "wf_array dims k" "int k \<le> INT32_MAX" "0 < k" using fit has by (simp_all add: dimensions_fit_def variant_hasDimensions_def)
  then obtain ds where ds: "dims = Heap ds" "length ds = k" by (cases dims) auto
  have "decode_overlay 4 word_of_bytes k (concat (map (bytes_of 4) ds) @ tail) = (OpcUa_Good, ds, tail)"
    using ds by (intro decode_overlay_concat) auto
  then have "Array_decodeBinary al 4 (decode_overlay 4 word_of_bytes) (bytes_of 4 (array_length_field dims k) @ concat (map (bytes_of 4) ds) @ tail)
      = (OpcUa_Good, if k = 0 then dims else Heap ds, k, tail)"
    using k al ds length_concat_const [of "map (bytes_of 4) ds" 4] by (intro decode_array) auto
  moreover have "wire_dimensions (UA_Variant t d n dims k) = bytes_of 4 (array_length_field dims k) @ concat (map (bytes_of 4) ds)"
    using has k(3) ds by (simp add: wire_dimensions_def array_length_field_def)
  ultimately show ?thesis using k(3) zero ds check_dimensions_bad [of ret ds 1] by (auto simp: decode_dimensions_def split: prod.split)
qed

lemma decode_variant_bad:
  assumes enc: "encodable_variant (UA_Variant (Some ty) d n dims k)" and dec: "\<not> decodable_variant depth (UA_Variant (Some ty) d n dims k)"
    and al: "mem_ok al"
    and good: "\<And>x tail. x \<in> set (ptr_elems d) \<Longrightarrow> decodable (Suc depth) x \<Longrightarrow>
      decode_value de al (dt_typeKind ty) (Suc depth) (wire_value x @ tail) = (OpcUa_Good, received x, tail)"
    and bad: "\<And>x tail. x \<in> set (ptr_elems d) \<Longrightarrow> \<not> decodable (Suc depth) x \<Longrightarrow>
      fst (decode_value de al (dt_typeKind ty) (Suc depth) (wire_value x @ tail)) \<noteq> OpcUa_Good"
  shows "fst (Variant_decodeBinary de al depth (wire_variant (UA_Variant (Some ty) d n dims k) @ tail)) \<noteq> OpcUa_Good"
proof -
  let ?v = "UA_Variant (Some ty) d n dims k" and ?kind = "dt_typeKind ty"
  let ?content = "\<lambda>n rest. if overlayable ?kind then decode_overlay (kind_memSize ?kind) (value_of_mem ?kind) n rest
        else decode_elems de al ?kind (Suc depth) n rest"
  have k: "kind_index ?kind \<le> 24" "?kind \<noteq> EXTENSIONOBJECT" "int n \<le> INT32_MAX" "dimensions_fit ?v" using enc by simp_all
  have wire: "wire_variant ?v @ tail = encoding_mask ?kind (variant_isArray ?v) (variant_hasDimensions ?v)
      # wire_content ?kind d n @ wire_dimensions ?v @ tail" by (simp only: wire_variant_parts Let_def append_Cons append_assoc)
  show ?thesis
  proof (cases "depth \<le> UA_ENCODING_MAX_RECURSION \<and> (?kind = VARIANT \<longrightarrow> variant_isArray ?v)")
    case False
    then show ?thesis
      using encoding_mask_back [OF k(1), of "variant_isArray ?v" "variant_hasDimensions ?v"] kind_of_index_back [OF k(1)] k(1)
      unfolding wire by (auto simp: Variant_decodeBinary.simps(2) Let_def)
  next
    case True
    then have depth: "depth \<le> UA_ENCODING_MAX_RECURSION" and isv: "?kind = VARIANT \<longrightarrow> variant_isArray ?v" by simp_all
    note run = Variant_decodeBinary_mask [OF k(1,2) isv depth al, of de "variant_hasDimensions ?v" "wire_content ?kind d n @ wire_dimensions ?v @ tail"]
    show ?thesis
    proof (cases "\<forall>x\<in>set (ptr_elems d). decodable (Suc depth) x")
      case True
      then have zero: "variant_hasDimensions ?v" "0 \<in> set (ptr_elems dims)" using dec depth isv by (cases d; auto)+
      then have a: "variant_isArray ?v" "0 < n \<or> \<not> is_heap d" by (simp_all add: variant_hasDimensions_def variant_isArray_def)
      have "case d of Heap xs \<Rightarrow> length xs = n \<and> (\<forall>x\<in>set xs. encodable x \<and> value_kind x = ?kind) | _ \<Rightarrow> n = 0"
        using enc a(2) by (cases d) auto
      from decode_array_content [OF k(3) a(2) al this] good True
      obtain p where "Array_decodeBinary al (kind_memSize ?kind) ?content (wire_content ?kind d n @ wire_dimensions ?v @ tail)
          = (OpcUa_Good, p, n, wire_dimensions ?v @ tail)" by blast
      then show ?thesis using decode_dimensions_zero [OF k(4) zero al] zero(1) a(1) unfolding wire run by simp
    next
      case False
      then obtain x where x: "x \<in> set (ptr_elems d)" "\<not> decodable (Suc depth) x" by blast
      have var: "?kind = VARIANT" using enc x by (cases d; cases x) auto
      then have a: "variant_isArray ?v" using isv by simp
      obtain xs where xs: "d = Heap xs" "x \<in> set xs" using x(1) by (cases d) auto
      have n: "0 < n" "length xs = n" using a xs enc by (auto simp: variant_isArray_def)
      have nov: "\<not> overlayable ?kind" by (simp add: var overlayable_def)
      have "fst (decode_elems de al ?kind (Suc depth) (length xs) (concat (map wire_value xs) @ wire_dimensions ?v @ tail)) \<noteq> OpcUa_Good"
        using good bad xs x(2) by (intro decode_elems_bad [where ok = "decodable (Suc depth)"]) auto
      then have elems: "fst (?content n (concat (map wire_value xs) @ wire_dimensions ?v @ tail)) \<noteq> OpcUa_Good"
        using nov n(2) by simp
      have "fst (Array_decodeBinary al (kind_memSize ?kind) ?content
          (bytes_of 4 (array_length_field d n) @ concat (map wire_value xs) @ wire_dimensions ?v @ tail)) \<noteq> OpcUa_Good"
        by (rule decode_array_bad [OF _ k(3) n(1)]) (rule elems)
      then have "fst (Array_decodeBinary al (kind_memSize ?kind) ?content (wire_content ?kind d n @ wire_dimensions ?v @ tail)) \<noteq> OpcUa_Good"
        using xs n nov by (simp add: wire_content_def)
      then show ?thesis using a decode_dimensions_bad unfolding wire run by (auto split: prod.split)
    qed
  qed
qed

lemma decoder_refuses:
  assumes "mem_ok al"
  shows "encodable x \<Longrightarrow> \<not> decodable depth x \<Longrightarrow> fst (decode_value de al (value_kind x) depth (wire_value x @ tail)) \<noteq> OpcUa_Good"
    "encodable_variant v \<Longrightarrow> \<not> decodable_variant depth v \<Longrightarrow> fst (Variant_decodeBinary de al depth (wire_variant v @ tail)) \<noteq> OpcUa_Good"
proof (induction x and v arbitrary: depth tail and depth tail rule: encodable_encodable_variant.induct)
  case (3 v)
  then have "fst (Variant_decodeBinary de al depth (wire_variant v @ tail)) \<noteq> OpcUa_Good" by simp
  then show ?case by (cases "Variant_decodeBinary de al depth (wire_variant v @ tail)") (simp add: decode_value_variant)
next
  case (7 ty d n dims k)
  show ?case
  proof (rule decode_variant_bad [OF 7(2,3) assms])
    fix x tail assume x: "x \<in> set (ptr_elems d)"
    then have e: "encodable x" "value_kind x = dt_typeKind ty" using 7(2) by (cases d; simp)+
    show "decodable (Suc depth) x \<Longrightarrow> decode_value de al (dt_typeKind ty) (Suc depth) (wire_value x @ tail) = (OpcUa_Good, received x, tail)"
      using decoder_reads(1) [OF assms e(1)] e(2) by simp
    show "\<not> decodable (Suc depth) x \<Longrightarrow> fst (decode_value de al (dt_typeKind ty) (Suc depth) (wire_value x @ tail)) \<noteq> OpcUa_Good"
    proof -
      assume "\<not> decodable (Suc depth) x"
      moreover obtain xs where "d = Heap xs" "x \<in> set xs" using x by (cases d) auto
      ultimately show "fst (decode_value de al (dt_typeKind ty) (Suc depth) (wire_value x @ tail)) \<noteq> OpcUa_Good"
        using 7(1) [of xs x "Suc depth" tail] e by metis
    qed
  qed
qed simp_all

subsection \<open>Arbitrary input\<close>

text \<open>
  What the decoder makes of any bytes is well-formed, and what it leaves of them is a suffix, when this holds of the decoders
  that are not modelled.
\<close>

definition other_decoders_ok :: "decode_table \<Rightarrow> bool" where
  "other_decoders_ok de \<longleftrightarrow>
     (\<forall>k depth bs c m rest. de_decode de k depth bs = (c, m, rest) \<longrightarrow> (\<exists>pre. bs = pre @ rest))
   \<and> (\<forall>a depth bs c v rest. de_unwrap de a depth bs = (c, v, rest) \<longrightarrow> (\<exists>pre. bs = pre @ rest) \<and> (c = OpcUa_Good \<longrightarrow> wf_variant v)
        \<and> v_arrayDimensions v = Null \<and> v_arrayDimensionsSize v = 0)"

definition reads_input :: "byte list \<Rightarrow> byte list \<Rightarrow> bool" where
  "reads_input bs rest \<longleftrightarrow> (\<exists>pre. bs = pre @ rest)"

lemma reads_input_simps [simp]: "reads_input bs bs" "reads_input bs (drop n bs)" "reads_input bs rest \<Longrightarrow> reads_input (b # bs) rest"
proof -
  show "reads_input bs bs" by (simp add: reads_input_def)
  show "reads_input bs (drop n bs)" unfolding reads_input_def by (metis append_take_drop_id)
  show "reads_input bs rest \<Longrightarrow> reads_input (b # bs) rest" unfolding reads_input_def by (metis append_Cons)
qed

lemma reads_input_trans: "reads_input a b \<Longrightarrow> reads_input b c \<Longrightarrow> reads_input a c"
  unfolding reads_input_def by force

lemma decode_fixed_reads: "decode_fixed n f z bs = (c, x, rest) \<Longrightarrow> reads_input bs rest"
  by (auto simp: decode_fixed_def split: if_splits)

lemma decode_overlay_reads: "decode_overlay m f n bs = (c, xs, rest) \<Longrightarrow> reads_input bs rest \<and> (c = OpcUa_Good \<longrightarrow> length xs = n)"
proof -
  have "length (chunks m n bs) = n" for bs by (induction n arbitrary: bs) auto
  then show "decode_overlay m f n bs = (c, xs, rest) \<Longrightarrow> reads_input bs rest \<and> (c = OpcUa_Good \<longrightarrow> length xs = n)"
    by (auto simp: decode_overlay_def split: if_splits)
qed

lemma array_decode_reads:
  assumes "Array_decodeBinary al m content bs = (c, p, n, rest)"
    and content: "\<And>n r c xs rest. content n r = (c, xs, rest) \<Longrightarrow> reads_input r rest \<and> (c = OpcUa_Good \<longrightarrow> length xs = n \<and> (\<forall>x\<in>set xs. Q x))"
  shows "reads_input bs rest \<and> wf_array p n \<and> (\<forall>x\<in>set (ptr_elems p). Q x)"
proof -
  obtain c0 len r where h: "decode_fixed 4 word_of_bytes (0 :: 32 word) bs = (c0, len, r)" by (metis prod_cases3)
  have r: "reads_input bs r" by (rule decode_fixed_reads [OF h])
  obtain c1 xs r1 where body: "content (unat len) r = (c1, xs, r1)" by (metis prod_cases3)
  note b = content [OF body]
  have pos: "xs \<noteq> []" if "length xs = unat len" "\<not> sint len \<le> 0" using that by (cases "len = 0") (auto simp: unat_eq_zero)
  show ?thesis
    using assms(1) h r body b pos reads_input_trans [OF r, of r1]
    by (auto simp: Array_decodeBinary_def Let_def split: if_splits)
qed

lemma overlay_array_reads:
  "Array_decodeBinary al m (decode_overlay m f) bs = (c, p, n, rest) \<Longrightarrow> reads_input bs rest \<and> wf_array p n"
  using array_decode_reads [of al m "decode_overlay m f" bs c p n rest "\<lambda>_. True"] decode_overlay_reads by blast

lemma strings_read:
  "String_decodeBinary al bs = (c, s, rest) \<Longrightarrow> reads_input bs rest \<and> wf_bstr s"
  "ByteString_decodeBinary al bs = (c, b, rest) \<Longrightarrow> reads_input bs rest \<and> wf_bstr b"
  by (auto simp: String_decodeBinary_def ByteString_decodeBinary_def wf_bstr_def split: prod.splits dest: overlay_array_reads)

lemma guid_reads: "Guid_decodeBinary bs = (c, m, rest) \<Longrightarrow> reads_input bs rest"
  by (auto simp: Guid_decodeBinary_def split: prod.splits dest!: decode_fixed_reads) (meson reads_input_trans)

lemma value_of_mem_kind: "overlayable k \<Longrightarrow> value_kind (value_of_mem k m) = k \<and> wf_value (value_of_mem k m)"
  by (cases k) (auto simp: overlayable_def value_of_mem_def modelled_kind_def)

lemma zero_value_kind: "value_kind (zero_value k) = k"
  by (cases k) (auto simp: zero_value_def)

lemma decode_dimensions_wf:
  assumes "decode_dimensions al ret v bs = (c, w, rest)" "v_arrayDimensions v = Null" "v_arrayDimensionsSize v = 0" "ret = OpcUa_Good \<longrightarrow> wf_variant v"
  shows "reads_input bs rest \<and> (c = OpcUa_Good \<longrightarrow> wf_variant w)"
proof -
  obtain c1 dims k r where d: "Array_decodeBinary al 4 (decode_overlay 4 word_of_bytes) bs = (c1, dims :: 32 word ptr, k, r)" by (metis prod_cases4)
  have wf: "wf_array dims k" "reads_input bs r" using overlay_array_reads [OF d] by simp_all
  have "ret = OpcUa_Good" if "c = OpcUa_Good"
    using assms(1) d that check_dimensions_bad [of "ret OR c1" "ptr_elems dims" 1]
    by (auto simp: decode_dimensions_def word_or_zero split: prod.splits if_splits)
  moreover have "wf_variant (UA_Variant (v_type v) (v_data v) (v_arrayLength v) dims k)" if "wf_variant v"
    using that wf(1) assms(2,3) by (cases v; cases "v_data v") auto
  ultimately show ?thesis using assms(1,4) d wf(2) by (auto simp: decode_dimensions_def split: prod.splits)
qed

definition decoded_ok :: "UA_DataTypeKind \<Rightarrow> UA_value \<Rightarrow> bool" where
  "decoded_ok k x \<longleftrightarrow> wf_value x \<and> value_kind x = k"

lemma decode_leaf_ok:
  assumes other: "other_decoders_ok de" and k: "k \<noteq> VARIANT" and d: "decode_value de al k depth bs = (c, x, rest)"
  shows "reads_input bs rest \<and> (c = OpcUa_Good \<longrightarrow> decoded_ok k x)"
proof -
  have de: "reads_input bs r" if "de_decode de k depth bs = (c, m, r)" for c m r
    using other that unfolding other_decoders_ok_def reads_input_def by blast
  have raw: "overlayable k \<Longrightarrow> decode_fixed (kind_memSize k) (value_of_mem k) (zero_value k) bs = (c, x, rest) \<Longrightarrow> ?thesis"
    using value_of_mem_kind [of k] decode_fixed_reads by (auto simp: decoded_ok_def decode_fixed_def split: if_splits)
  show ?thesis
  proof (cases "overlayable k \<and> k \<notin> {FLOAT, DOUBLE, GUID}")
    case True
    then have "decode_fixed (kind_memSize k) (value_of_mem k) (zero_value k) bs = (c, x, rest)"
      using d by (cases k) (simp_all add: decode_value.simps overlayable_def)
    then show ?thesis using raw True by simp
  next
    case False
    then show ?thesis
      using d k de
      by (cases k) (auto simp: decode_value.simps overlayable_def decoded_ok_def modelled_kind_def decode_fixed_def
        split: prod.splits if_splits dest: strings_read guid_reads)
  qed
qed

lemma wf_array_variant:
  assumes "wf_array p n" "\<forall>x\<in>set (ptr_elems p). decoded_ok k x"
  shows "wf_variant (UA_Variant (Some (UA_TYPES k)) p n Null 0)"
  using assms by (cases p) (auto simp: decoded_ok_def)

lemma variant_step_ok:
  assumes other: "other_decoders_ok de" and d: "Variant_decodeBinary de al depth (e # bs) = (c, v, rest)"
    and val: "\<And>k c x rest. decode_value de al k (Suc depth) bs = (c, x, rest) \<Longrightarrow> depth \<le> UA_ENCODING_MAX_RECURSION
      \<Longrightarrow> k = kind_of_index (unat (e AND 0x3F) - 1) \<Longrightarrow> e AND 0x80 = 0 \<Longrightarrow> reads_input bs rest \<and> (c = OpcUa_Good \<longrightarrow> decoded_ok k x)"
    and elems: "\<And>k n r c xs rest. decode_elems de al k (Suc depth) n r = (c, xs, rest) \<Longrightarrow> depth \<le> UA_ENCODING_MAX_RECURSION
      \<Longrightarrow> k = kind_of_index (unat (e AND 0x3F) - 1) \<Longrightarrow> e AND 0x80 \<noteq> 0 \<Longrightarrow> \<not> overlayable k
      \<Longrightarrow> reads_input r rest \<and> (c = OpcUa_Good \<longrightarrow> length xs = n \<and> (\<forall>x\<in>set xs. decoded_ok k x))"
  shows "reads_input (e # bs) rest \<and> (c = OpcUa_Good \<longrightarrow> wf_variant v)"
proof -
  let ?k = "kind_of_index (unat (e AND 0x3F) - 1)"
  let ?content = "\<lambda>n rest. if overlayable ?k then decode_overlay (kind_memSize ?k) (value_of_mem ?k) n rest else decode_elems de al ?k (Suc depth) n rest"
  have unwrap: "reads_input bs r \<and> (c = OpcUa_Good \<longrightarrow> wf_variant v) \<and> v_arrayDimensions v = Null \<and> v_arrayDimensionsSize v = 0"
    if "de_unwrap de a (Suc depth) bs = (c, v, r)" for a c v r
    using other that unfolding other_decoders_ok_def reads_input_def by blast
  have "c \<noteq> OpcUa_Good \<and> rest = bs \<or> e = 0 \<and> v = UA_Variant_init \<and> rest = bs
    \<or> e AND 0x80 = 0 \<and> de_unwrap de False (Suc depth) bs = (c, v, rest)
    \<or> (\<exists>x. depth \<le> UA_ENCODING_MAX_RECURSION \<and> e AND 0x80 = 0 \<and> decode_value de al ?k (Suc depth) bs = (c, x, rest)
        \<and> v = UA_Variant (Some (UA_TYPES ?k)) (Heap [x]) 0 Null 0)
    \<or> (\<exists>c1 w r. depth \<le> UA_ENCODING_MAX_RECURSION \<and> e AND 0x80 \<noteq> 0 \<and> de_unwrap de True (Suc depth) bs = (c1, w, r)
        \<and> (c, v, rest) = (if e AND 0x40 \<noteq> 0 then decode_dimensions al c1 w r else (c1, w, r)))
    \<or> (\<exists>c1 p n r. depth \<le> UA_ENCODING_MAX_RECURSION \<and> e AND 0x80 \<noteq> 0 \<and> Array_decodeBinary al (kind_memSize ?k) ?content bs = (c1, p, n, r)
        \<and> (c, v, rest) = (if e AND 0x40 \<noteq> 0 then decode_dimensions al c1 (UA_Variant (Some (UA_TYPES ?k)) p n Null 0) r
           else (c1, UA_Variant (Some (UA_TYPES ?k)) p n Null 0, r)))"
  proof (cases "e = 0 \<or> unat (e AND 0x3F) = 0 \<or> 25 < unat (e AND 0x3F) \<or> ?k = VARIANT \<and> e AND 0x80 = 0 \<or> \<not> depth \<le> UA_ENCODING_MAX_RECURSION")
    case True
    then show ?thesis using d by (auto simp: Variant_decodeBinary.simps(2) Let_def split: if_splits)
  next
    case False
    note nice = False
    obtain c1 x r1 where x: "decode_value de al ?k (Suc depth) bs = (c1, x, r1)" by (metis prod_cases3)
    obtain c2 w r2 where w: "de_unwrap de (e AND 0x80 \<noteq> 0) (Suc depth) bs = (c2, w, r2)" by (metis prod_cases3)
    obtain c3 p n r3 where p: "Array_decodeBinary al (kind_memSize ?k) ?content bs = (c3, p, n, r3)"
      by (cases "Array_decodeBinary al (kind_memSize ?k) ?content bs" rule: prod_cases4) (rule that)
    show ?thesis
    proof (cases "e AND 0x80 = 0")
      case True
      then show ?thesis using d nice x w by (auto simp: Variant_decodeBinary.simps(2) Let_def split: if_splits)
    next
      case False
      have "(c, v, rest) = (case (if ?k = EXTENSIONOBJECT then de_unwrap de True (Suc depth) bs
             else (case Array_decodeBinary al (kind_memSize ?k) ?content bs of (ret, p, n, rest) \<Rightarrow> (ret, UA_Variant (Some (UA_TYPES ?k)) p n Null 0, rest)))
          of (ret, v, rest) \<Rightarrow> if e AND 0x40 \<noteq> 0 then decode_dimensions al ret v rest else (ret, v, rest))"
        using d nice False by (simp add: Variant_decodeBinary.simps(2) Let_def cong: if_cong)
      then show ?thesis using False nice w p by (cases "?k = EXTENSIONOBJECT") simp_all
    qed
  qed
  then consider "c \<noteq> OpcUa_Good \<and> rest = bs" | "e = 0 \<and> v = UA_Variant_init \<and> rest = bs"
    | "e AND 0x80 = 0" "de_unwrap de False (Suc depth) bs = (c, v, rest)"
    | x where "depth \<le> UA_ENCODING_MAX_RECURSION" "e AND 0x80 = 0" "decode_value de al ?k (Suc depth) bs = (c, x, rest)"
        "v = UA_Variant (Some (UA_TYPES ?k)) (Heap [x]) 0 Null 0"
    | c1 w r where "depth \<le> UA_ENCODING_MAX_RECURSION" "e AND 0x80 \<noteq> 0" "de_unwrap de True (Suc depth) bs = (c1, w, r)"
        "(c, v, rest) = (if e AND 0x40 \<noteq> 0 then decode_dimensions al c1 w r else (c1, w, r))"
    | c1 p n r where "depth \<le> UA_ENCODING_MAX_RECURSION" "e AND 0x80 \<noteq> 0" "Array_decodeBinary al (kind_memSize ?k) ?content bs = (c1, p, n, r)"
        "(c, v, rest) = (if e AND 0x40 \<noteq> 0 then decode_dimensions al c1 (UA_Variant (Some (UA_TYPES ?k)) p n Null 0) r
           else (c1, UA_Variant (Some (UA_TYPES ?k)) p n Null 0, r))"
    by blast
  then show ?thesis
  proof cases
    case 3
    then show ?thesis using unwrap [OF 3(2)] by simp
  next
    case (4 x)
    then show ?thesis using val [OF 4(3,1) refl 4(2)] by (auto simp: decoded_ok_def)
  next
    case (5 c1 w r)
    then show ?thesis using unwrap [OF 5(3)] decode_dimensions_wf [of al c1 w r c v rest] reads_input_trans [of bs r rest] by (auto split: if_splits)
  next
    case (6 c1 p n r)
    have "reads_input bs r \<and> wf_array p n \<and> (\<forall>x\<in>set (ptr_elems p). decoded_ok ?k x)"
    proof (rule array_decode_reads [OF 6(3)])
      fix n r c xs rest assume run: "?content n r = (c, xs, rest)"
      show "reads_input r rest \<and> (c = OpcUa_Good \<longrightarrow> length xs = n \<and> (\<forall>x\<in>set xs. decoded_ok ?k x))"
      proof (cases "overlayable ?k")
        case True
        then have o: "decode_overlay (kind_memSize ?k) (value_of_mem ?k) n r = (c, xs, rest)" using run by simp
        then have "\<forall>x\<in>set xs. \<exists>m. x = value_of_mem ?k m" by (auto simp: decode_overlay_def split: if_splits)
        then show ?thesis using decode_overlay_reads [OF o] value_of_mem_kind [OF True] by (auto simp: decoded_ok_def)
      next
        case False
        then show ?thesis using run elems 6(1,2) by simp
      qed
    qed
    moreover from this have "wf_variant (UA_Variant (Some (UA_TYPES ?k)) p n Null 0)" by (intro wf_array_variant) simp_all
    ultimately show ?thesis
      using 6(4) decode_dimensions_wf [of al c1 "UA_Variant (Some (UA_TYPES ?k)) p n Null 0" r c v rest] reads_input_trans [of bs r rest]
      by (auto split: if_splits)
  qed auto
qed

lemma decode_at_depth:
  assumes other: "other_decoders_ok de"
    and v: "\<And>bs c v rest. Variant_decodeBinary de al depth bs = (c, v, rest) \<Longrightarrow> reads_input bs rest \<and> (c = OpcUa_Good \<longrightarrow> wf_variant v)"
  shows "decode_value de al k depth bs = (c, x, rest) \<Longrightarrow> reads_input bs rest \<and> (c = OpcUa_Good \<longrightarrow> decoded_ok k x)"
    "decode_elems de al k depth n bs = (c, xs, rest) \<Longrightarrow> reads_input bs rest \<and> (c = OpcUa_Good \<longrightarrow> length xs = n \<and> (\<forall>x\<in>set xs. decoded_ok k x))"
proof -
  have one: "reads_input bs rest \<and> (c = OpcUa_Good \<longrightarrow> decoded_ok k x)" if "decode_value de al k depth bs = (c, x, rest)" for bs c x rest
    using that v decode_leaf_ok [OF other, of k al depth bs c x rest]
    by (cases "k = VARIANT") (auto simp: decode_value_variant decoded_ok_def split: prod.splits)
  then show "decode_value de al k depth bs = (c, x, rest) \<Longrightarrow> reads_input bs rest \<and> (c = OpcUa_Good \<longrightarrow> decoded_ok k x)" .
  show "decode_elems de al k depth n bs = (c, xs, rest) \<Longrightarrow> reads_input bs rest \<and> (c = OpcUa_Good \<longrightarrow> length xs = n \<and> (\<forall>x\<in>set xs. decoded_ok k x))"
  proof (induction n arbitrary: bs c xs rest)
    case (Suc n)
    obtain c1 y r where y: "decode_value de al k depth bs = (c1, y, r)" by (metis prod_cases3)
    obtain c2 ys r2 where ys: "decode_elems de al k depth n r = (c2, ys, r2)" by (metis prod_cases3)
    show ?case using Suc.prems one [OF y] Suc.IH [OF ys] y ys reads_input_trans [of bs r] by (auto split: if_splits)
  qed simp
qed

lemma decoder_wf:
  assumes "other_decoders_ok de" "Variant_decodeBinary de al depth bs = (c, v, rest)"
  shows "reads_input bs rest \<and> (c = OpcUa_Good \<longrightarrow> wf_variant v)"
  using assms(2)
proof (induction "101 - depth" arbitrary: depth bs c v rest rule: less_induct)
  case less
  show ?case
  proof (cases bs)
    case (Cons e bs')
    have deeper: "reads_input r rest \<and> (c = OpcUa_Good \<longrightarrow> wf_variant v)"
      if "depth \<le> UA_ENCODING_MAX_RECURSION" "Variant_decodeBinary de al (Suc depth) r = (c, v, rest)" for r c v rest
      using less(1) [OF _ that(2)] that(1) by (simp add: UA_ENCODING_MAX_RECURSION_def)
    show ?thesis
      unfolding Cons
      by (rule variant_step_ok [OF assms(1) less(2) [unfolded Cons]]) (use decode_at_depth [OF assms(1) deeper] in blast)+
  qed (use less in simp)
qed

end
