(* ===== verification/UA_WireExact.thy ===== *)
theory UA_WireExact
  imports UA_WireDecode
begin

text \<open>
  How much of a message the decoder looks at: what it accepts is decided by the bytes it consumes and by nothing behind them, and no
  shorter piece of them is accepted.
\<close>

text \<open>
  \<open>exact f pre x\<close>: the decoder \<open>f\<close>, whatever the other entries of the jump table are, makes \<open>x\<close> of the bytes \<open>pre\<close>, whatever follows them, leaves what follows, and refuses
  every proper prefix of them.
\<close>

definition exact :: "(decode_table \<Rightarrow> byte list \<Rightarrow> UA_StatusCode \<times> 'a \<times> byte list) \<Rightarrow> byte list \<Rightarrow> 'a \<Rightarrow> bool" where
  "exact f pre x \<longleftrightarrow> (\<forall>i tail. f i (pre @ tail) = (OpcUa_Good, x, tail)) \<and> (\<forall>i m. m < length pre \<longrightarrow> fst (f i (take m pre)) \<noteq> OpcUa_Good)"

lemma exact_bind:
  assumes "exact f pre y" "exact (\<lambda>i. h i OpcUa_Good y) pre' z" "\<And>i c y r. c \<noteq> OpcUa_Good \<Longrightarrow> fst (h i c y r) \<noteq> OpcUa_Good"
  shows "exact (\<lambda>i bs. case f i bs of (c, y, r) \<Rightarrow> h i c y r) (pre @ pre') z"
proof -
  have "fst (case f i (take m (pre @ pre')) of (c, y, r) \<Rightarrow> h i c y r) \<noteq> OpcUa_Good" if m: "m < length (pre @ pre')" for i m
  proof (cases "m < length pre")
    case True
    then have "fst (f i (take m pre)) \<noteq> OpcUa_Good" using assms(1) by (simp add: exact_def)
    then show ?thesis using True assms(3) by (cases "f i (take m pre)") simp
  next
    case False
    then have "f i (take m (pre @ pre')) = (OpcUa_Good, y, take (m - length pre) pre')" using assms(1) by (simp add: exact_def)
    moreover have "m - length pre < length pre'" using m False by simp
    then have "fst (h i OpcUa_Good y (take (m - length pre) pre')) \<noteq> OpcUa_Good" using assms(2) by (simp add: exact_def)
    ultimately show ?thesis by simp
  qed
  moreover have "(case f i ((pre @ pre') @ tail) of (c, y, r) \<Rightarrow> h i c y r) = (OpcUa_Good, z, tail)" for i tail
    using assms(1,2) by (simp add: exact_def)
  ultimately show ?thesis by (simp add: exact_def)
qed

lemma exact_map: "exact f pre y \<Longrightarrow> exact (\<lambda>i bs. case f i bs of (c, y, r) \<Rightarrow> (c, g y, r)) pre (g y)"
  using exact_bind [of f pre y "\<lambda>i c y r. (c, g y, r)" "[]" "g y"] by (simp add: exact_def)

lemma exact_byte: "exact f pre y \<Longrightarrow> (\<And>i r. g i (b # r) = f i r) \<Longrightarrow> (\<And>i. fst (g i []) \<noteq> OpcUa_Good) \<Longrightarrow> exact g (b # pre) y"
  by (auto simp: exact_def take_Cons split: nat.split)

subsection \<open>Numbers and arrays\<close>

lemma exact_fixed:
  assumes "decode_fixed n f z bs = (OpcUa_Good, x, rest)"
  shows "\<exists>pre. bs = pre @ rest \<and> length pre = n \<and> exact (\<lambda>_. decode_fixed n f z) pre x"
proof (intro exI conjI)
  show "bs = take n bs @ rest" "length (take n bs) = n" "exact (\<lambda>_. decode_fixed n f z) (take n bs) x"
    using assms by (auto simp: decode_fixed_def exact_def split: if_splits)
qed

lemma chunks_append: "length pre = m * n \<Longrightarrow> chunks m n (pre @ tail) = chunks m n pre"
  by (induction n arbitrary: pre) auto

lemma exact_overlay:
  assumes "decode_overlay m f n bs = (OpcUa_Good, xs, rest)"
  shows "\<exists>pre. bs = pre @ rest \<and> length pre = m * n \<and> exact (\<lambda>_. decode_overlay m f n) pre xs"
proof (intro exI conjI)
  have le: "m * n \<le> length bs" using assms by (auto simp: decode_overlay_def split: if_splits)
  then show "bs = take (m * n) bs @ rest" "length (take (m * n) bs) = m * n" using assms by (auto simp: decode_overlay_def split: if_splits)
  have "chunks m n bs = chunks m n (take (m * n) bs)"
    using chunks_append [of "take (m * n) bs" m n "drop (m * n) bs"] le by simp
  then show "exact (\<lambda>_. decode_overlay m f n) (take (m * n) bs) xs"
    using assms le chunks_append [of "take (m * n) bs" m n] by (auto simp: decode_overlay_def exact_def split: if_splits)
qed

text \<open>An array and its length as one result.\<close>

abbreviation array_result :: "UA_StatusCode \<times> 'a ptr \<times> nat \<times> byte list \<Rightarrow> UA_StatusCode \<times> ('a ptr \<times> nat) \<times> byte list" where
  "array_result r \<equiv> case r of (c, p, n, rest) \<Rightarrow> (c, (p, n), rest)"

lemma exact_array:
  assumes d: "Array_decodeBinary al m content bs = (OpcUa_Good, p, n, rest)" and m: "0 < m"
    and c: "\<And>len r xs rest. content len r = (OpcUa_Good, xs, rest) \<Longrightarrow>
      \<exists>pre. r = pre @ rest \<and> len * m \<le> 128 * length pre \<and> exact (\<lambda>i. content' i len) pre xs"
  shows "\<exists>pre. bs = pre @ rest \<and> pre \<noteq> [] \<and> exact (\<lambda>i bs. array_result (Array_decodeBinary al m (content' i) bs)) pre (p, n)"
proof -
  let ?h = "\<lambda>i c (signed_length :: 32 word) r. array_result (
     if c \<noteq> OpcUa_Good then (c, Null, 0, r)
     else if sint signed_length \<le> 0 then (OpcUa_Good, if sint signed_length < 0 then Null else Sentinel, 0, r)
     else let len = unat signed_length in
       if length r div m < len div 128 then (OpcUa_BadDecodingError, Null, 0, r)
       else if \<not> can_alloc al (len * m) then (OpcUa_BadOutOfMemory, Null, 0, r)
       else (case content' i len r of (ret, xs, rest') \<Rightarrow>
         if ret \<noteq> OpcUa_Good then (ret, Null, 0, rest') else (OpcUa_Good, Heap xs, len, rest')))"
  obtain len r where h: "decode_fixed 4 word_of_bytes (0 :: 32 word) bs = (OpcUa_Good, len, r)"
    using d by (auto simp: Array_decodeBinary_def Let_def split: prod.splits if_splits)
  from exact_fixed [OF h] obtain pre where pre: "bs = pre @ r" "length pre = 4" "exact (\<lambda>_. decode_fixed 4 word_of_bytes (0 :: 32 word)) pre len" by blast
  have run: "array_result (Array_decodeBinary al m (content' i) b) = (case decode_fixed 4 word_of_bytes (0 :: 32 word) b of (c, l, r) \<Rightarrow> ?h i c l r)" for i b
    by (simp add: Array_decodeBinary_def Let_def split: prod.split)
  have "\<exists>pre'. r = pre' @ rest \<and> exact (\<lambda>i. ?h i OpcUa_Good len) pre' (p, n)"
  proof (cases "sint len \<le> 0")
    case True
    then have "r = [] @ rest \<and> exact (\<lambda>i. ?h i OpcUa_Good len) [] (p, n)"
      using d h by (simp add: Array_decodeBinary_def exact_def split: if_splits)
    then show ?thesis by blast
  next
    case False
    then obtain xs where xs: "content (unat len) r = (OpcUa_Good, xs, rest)" "can_alloc al (unat len * m)" "p = Heap xs" "n = unat len"
      using d h by (auto simp: Array_decodeBinary_def Let_def split: if_splits prod.splits)
    from c [OF xs(1)] obtain pre' where p': "r = pre' @ rest" "unat len * m \<le> 128 * length pre'" "exact (\<lambda>i. content' i (unat len)) pre' xs" by blast
    have "exact (\<lambda>i. ?h i OpcUa_Good len) pre' (p, n)"
      unfolding exact_def
    proof (intro conjI allI impI)
      show "?h i OpcUa_Good len (pre' @ tail) = (OpcUa_Good, (p, n), tail)" for i tail
        using False xs(2-4) p'(3) length_fits [OF p'(2) m, of tail] by (simp add: Let_def exact_def)
      fix i k assume "k < length pre'"
      then have "fst (content' i (unat len) (take k pre')) \<noteq> OpcUa_Good" using p'(3) by (simp add: exact_def)
      then show "fst (?h i OpcUa_Good len (take k pre')) \<noteq> OpcUa_Good"
        using False by (cases "content' i (unat len) (take k pre')") (simp add: Let_def)
    qed
    with p'(1) show ?thesis by blast
  qed
  then obtain pre' where p': "r = pre' @ rest" "exact (\<lambda>i. ?h i OpcUa_Good len) pre' (p, n)" by blast
  have "exact (\<lambda>i bs. array_result (Array_decodeBinary al m (content' i) bs)) (pre @ pre') (p, n)"
    unfolding run by (rule exact_bind [where h = ?h, OF pre(3) p'(2)]) simp
  moreover have "bs = (pre @ pre') @ rest" "pre @ pre' \<noteq> []" using pre p' by auto
  ultimately show ?thesis by blast
qed

lemma exact_overlay_array:
  assumes "Array_decodeBinary al m (decode_overlay m f) bs = (OpcUa_Good, p, n, rest)" "0 < m"
  shows "\<exists>pre. bs = pre @ rest \<and> pre \<noteq> [] \<and> exact (\<lambda>i bs. array_result (Array_decodeBinary al m (decode_overlay m f) bs)) pre (p, n)"
proof (rule exact_array [OF assms])
  fix len r xs rest assume "decode_overlay m f len r = (OpcUa_Good, xs, rest)"
  from exact_overlay [OF this]
  show "\<exists>pre. r = pre @ rest \<and> len * m \<le> 128 * length pre \<and> exact (\<lambda>i. decode_overlay m f len) pre xs"
    by (auto simp: mult.commute)
qed

lemma exact_strings:
  "String_decodeBinary al bs = (OpcUa_Good, s, rest) \<Longrightarrow> \<exists>pre. bs = pre @ rest \<and> pre \<noteq> [] \<and> exact (\<lambda>_. String_decodeBinary al) pre s"
  "ByteString_decodeBinary al bs = (OpcUa_Good, b, rest) \<Longrightarrow> \<exists>pre. bs = pre @ rest \<and> pre \<noteq> [] \<and> exact (\<lambda>_. ByteString_decodeBinary al) pre b"
proof -
  have str: "\<exists>pre. bs = pre @ rest \<and> pre \<noteq> [] \<and>
      exact (\<lambda>_ bs. case Array_decodeBinary al 1 (decode_overlay 1 f) bs of (ret, p, n, rest) \<Rightarrow> (ret, \<lparr>bs_length = n, bs_data = p\<rparr>, rest)) pre s"
    if run: "(case Array_decodeBinary al 1 (decode_overlay 1 f) bs of (ret, p, n, rest) \<Rightarrow> (ret, \<lparr>bs_length = n, bs_data = p\<rparr>, rest)) = (OpcUa_Good, s, rest)"
    for f and s :: "'z bstr"
  proof -
    obtain p n where p: "Array_decodeBinary al 1 (decode_overlay 1 f) bs = (OpcUa_Good, p, n, rest)" "s = \<lparr>bs_length = n, bs_data = p\<rparr>"
      using run by (auto split: prod.splits)
    from exact_overlay_array [OF p(1)] obtain pre where "bs = pre @ rest" "pre \<noteq> []"
      "exact (\<lambda>_. \<lambda>bs. array_result (Array_decodeBinary al 1 (decode_overlay 1 f) bs)) pre (p, n)" by auto
    with exact_map [OF this(3), of "\<lambda>(p, n). \<lparr>bs_length = n, bs_data = p\<rparr>"] p(2) show ?thesis
      by (auto simp: case_prod_unfold)
  qed
  show "String_decodeBinary al bs = (OpcUa_Good, s, rest) \<Longrightarrow> \<exists>pre. bs = pre @ rest \<and> pre \<noteq> [] \<and> exact (\<lambda>_. String_decodeBinary al) pre s"
    using str [of "\<lambda>b. byte_char (hd b)" s] by (simp add: String_decodeBinary_def [abs_def])
  show "ByteString_decodeBinary al bs = (OpcUa_Good, b, rest) \<Longrightarrow> \<exists>pre. bs = pre @ rest \<and> pre \<noteq> [] \<and> exact (\<lambda>_. ByteString_decodeBinary al) pre b"
    using str [of hd b] by (simp add: ByteString_decodeBinary_def [abs_def])
qed

lemma or_good: "(a :: UA_StatusCode) OR b = OpcUa_Good \<longleftrightarrow> a = OpcUa_Good \<and> b = OpcUa_Good"
  by (rule word_or_zero)

lemma decode_fixed_good: "fst (decode_fixed n f z bs) = OpcUa_Good \<longleftrightarrow> n \<le> length bs"
  by (simp add: decode_fixed_def)

lemma guid_good: "fst (Guid_decodeBinary bs) = OpcUa_Good \<longleftrightarrow> 16 \<le> length bs"
  by (auto simp: Guid_decodeBinary_def decode_fixed_def or_good)

lemma exact_guid:
  assumes "Guid_decodeBinary bs = (OpcUa_Good, x, rest)"
  shows "\<exists>pre. bs = pre @ rest \<and> pre \<noteq> [] \<and> exact (\<lambda>_. Guid_decodeBinary) pre x"
proof -
  have n: "16 \<le> length bs" using assms guid_good [of bs] by simp
  have whole: "Guid_decodeBinary (b @ tail) = (OpcUa_Good, b, tail)" if "length b = 16" for b tail
  proof -
    have "take 4 b @ take 2 (drop 4 b) @ take 2 (drop 6 b) @ take 8 (drop 8 b) = b"
      using that append_take_drop_id [of 4 b] append_take_drop_id [of 2 "drop 4 b"] append_take_drop_id [of 2 "drop 6 b"] by simp
    then show ?thesis using that by (simp add: Guid_decodeBinary_def decode_fixed_def)
  qed
  from whole [of "take 16 bs" "drop 16 bs"] have x: "x = take 16 bs" "rest = drop 16 bs" using n assms by simp_all
  have "fst (Guid_decodeBinary (take m (take 16 bs))) \<noteq> OpcUa_Good" if "m < 16" for m using that by (simp only: guid_good) simp
  then have "exact (\<lambda>_. Guid_decodeBinary) (take 16 bs) x" using n whole [of "take 16 bs"] x(1) by (simp add: exact_def)
  moreover have "bs = take 16 bs @ rest" "take 16 bs \<noteq> []" using n x(2) by auto
  ultimately show ?thesis by blast
qed

subsection \<open>Values\<close>

text \<open>A stack without any of the types that are not modelled.\<close>

definition no_decoders :: decode_table where
  "no_decoders = \<lparr>de_decode = (\<lambda>k depth bs. (OpcUa_BadDecodingError, [], bs)),
     de_unwrap = (\<lambda>isArray depth bs. (OpcUa_BadDecodingError, UA_Variant_init, bs))\<rparr>"

lemma exact_leaf:
  assumes d: "decode_value no_decoders al k depth bs = (OpcUa_Good, x, rest)" and k: "k \<noteq> VARIANT"
  shows "\<exists>pre. bs = pre @ rest \<and> pre \<noteq> [] \<and> exact (\<lambda>de. decode_value de al k depth) pre x"
proof -
  have fixed: ?thesis if "\<And>de. decode_value de al k depth = decode_fixed n f z" "0 < n" for n f z
    using exact_fixed [of n f z bs x rest] d that by auto
  have mapped: ?thesis if run: "\<And>de. decode_value de al k depth = (\<lambda>bs. case g bs of (c, y, r) \<Rightarrow> (c, C y, r))"
    and g: "\<And>y. g bs = (OpcUa_Good, y, rest) \<Longrightarrow> \<exists>pre. bs = pre @ rest \<and> pre \<noteq> [] \<and> exact (\<lambda>_. g) pre y"
    for g :: "byte list \<Rightarrow> UA_StatusCode \<times> 'z \<times> byte list" and C
  proof -
    obtain y where y: "g bs = (OpcUa_Good, y, rest)" "x = C y" using d run by (auto split: prod.splits)
    from g [OF y(1)] obtain pre where "bs = pre @ rest" "pre \<noteq> []" "exact (\<lambda>_. g) pre y" by blast
    with exact_map [OF this(3), of C] y(2) run show ?thesis by auto
  qed
  have raw: ?thesis if "overlayable k" "k \<notin> {FLOAT, DOUBLE, GUID}"
  proof (rule fixed)
    fix de
    have "decode_value de al k depth b = decode_fixed (kind_memSize k) (value_of_mem k) (zero_value k) b" for b
      using that by (cases k) (simp_all add: decode_value.simps overlayable_def)
    then show "decode_value de al k depth = decode_fixed (kind_memSize k) (value_of_mem k) (zero_value k)" by (simp add: fun_eq_iff)
    show "0 < kind_memSize k" by (rule kind_memSize_bounds)
  qed
  consider "k = BOOLEAN" | "k = FLOAT" | "k = DOUBLE" | "k = STRING" | "k = BYTESTRING" | "k = GUID" | "overlayable k" "k \<notin> {FLOAT, DOUBLE, GUID}"
    | "\<not> overlayable k" "k \<notin> {BOOLEAN, STRING, BYTESTRING, VARIANT}" using k by blast
  then show ?thesis
  proof cases
    case 1 then show ?thesis by (intro fixed [of 1 "\<lambda>b. VBool (0 < hd b)" "VBool False"]) (simp_all add: fun_eq_iff decode_value.simps)
  next
    case 2 then show ?thesis by (intro fixed [of 4 "\<lambda>b. VFloat (quiet32 (word_of_bytes b))" "VFloat 0"]) (simp_all add: fun_eq_iff decode_value.simps)
  next
    case 3 then show ?thesis by (intro fixed [of 8 "\<lambda>b. VDouble (quiet64 (word_of_bytes b))" "VDouble 0"]) (simp_all add: fun_eq_iff decode_value.simps)
  next
    case 4 then show ?thesis by (intro mapped [where C = VString and g = "String_decodeBinary al"]) (simp_all add: fun_eq_iff decode_value.simps exact_strings)
  next
    case 5 then show ?thesis by (intro mapped [where C = VByteString and g = "ByteString_decodeBinary al"]) (simp_all add: fun_eq_iff decode_value.simps exact_strings)
  next
    case 6 then show ?thesis by (intro mapped [where C = "VOther GUID" and g = Guid_decodeBinary]) (simp_all add: fun_eq_iff decode_value.simps exact_guid)
  next
    case 7 then show ?thesis by (rule raw)
  next
    case 8
    then have "decode_value no_decoders al k depth bs = (OpcUa_BadDecodingError, VOther k [], bs)"
      by (cases k) (simp_all add: decode_value.simps no_decoders_def overlayable_def)
    then show ?thesis using d by simp
  qed
qed

lemma exact_elems:
  assumes "\<And>bs x rest. decode_value no_decoders al k depth bs = (OpcUa_Good, x, rest) \<Longrightarrow>
      \<exists>pre. bs = pre @ rest \<and> pre \<noteq> [] \<and> exact (\<lambda>de. decode_value de al k depth) pre x"
    and "decode_elems no_decoders al k depth n bs = (OpcUa_Good, xs, rest)"
  shows "\<exists>pre. bs = pre @ rest \<and> n \<le> length pre \<and> exact (\<lambda>de. decode_elems de al k depth n) pre xs"
  using assms(2)
proof (induction n arbitrary: bs xs)
  case 0
  then have "bs = [] @ rest \<and> 0 \<le> length ([] :: byte list) \<and> exact (\<lambda>de. decode_elems de al k depth 0) [] xs" by (simp add: exact_def)
  then show ?case by blast
next
  case (Suc n)
  then obtain x r ys where x: "decode_value no_decoders al k depth bs = (OpcUa_Good, x, r)"
    and ys: "decode_elems no_decoders al k depth n r = (OpcUa_Good, ys, rest)" "xs = x # ys"
    by (auto split: prod.splits if_splits)
  from assms(1) [OF x] obtain pre where pre: "bs = pre @ r" "pre \<noteq> []" "exact (\<lambda>de. decode_value de al k depth) pre x" by blast
  from Suc.IH [OF ys(1)] obtain pre' where pre': "r = pre' @ rest" "n \<le> length pre'" "exact (\<lambda>de. decode_elems de al k depth n) pre' ys" by blast
  let ?h = "\<lambda>de ret x rest. if ret \<noteq> OpcUa_Good then (ret, [], rest) else (case decode_elems de al k depth n rest of (ret, xs, rest') \<Rightarrow> (ret, x # xs, rest'))"
  have "exact (\<lambda>de. ?h de OpcUa_Good x) pre' xs" using exact_map [OF pre'(3), of "(#) x"] ys(2) by simp
  from exact_bind [where h = ?h, OF pre(3) this]
  have "exact (\<lambda>de bs. decode_elems de al k depth (Suc n) bs) (pre @ pre') xs" by simp
  moreover have "bs = (pre @ pre') @ rest" "Suc n \<le> length (pre @ pre')" using pre pre' by (cases pre; simp)+
  ultimately show ?case by blast
qed

text \<open>The dimensions behind an array; a status that was bad before stays bad.\<close>

lemma exact_dimensions:
  assumes "decode_dimensions al OpcUa_Good v bs = (OpcUa_Good, w, rest)"
  shows "\<exists>pre. bs = pre @ rest \<and> exact (\<lambda>_. decode_dimensions al OpcUa_Good v) pre w"
proof -
  let ?a = "Array_decodeBinary al 4 (decode_overlay 4 word_of_bytes) :: byte list \<Rightarrow> UA_StatusCode \<times> 32 word ptr \<times> nat \<times> byte list"
  let ?h = "\<lambda>(de :: decode_table) c (dims, k) r. case check_dimensions c 1 (ptr_elems dims) of (ret1, totalSize) \<Rightarrow>
       (if totalSize = v_arrayLength v then ret1 else OpcUa_BadDecodingError, UA_Variant (v_type v) (v_data v) (v_arrayLength v) dims k, r)"
  obtain c dims k r where a: "?a bs = (c, dims, k, r)" by (metis prod_cases4)
  have bad: "fst (?h de ret y q) \<noteq> OpcUa_Good" if "ret \<noteq> OpcUa_Good" for de ret y and q :: "byte list"
    using that check_dimensions_bad [of ret "ptr_elems (fst y)" 1] by (auto split: prod.split)
  have run: "decode_dimensions al OpcUa_Good v b = (case array_result (?a b) of (c, y, r) \<Rightarrow> ?h de c y r)" for b de
    by (simp add: decode_dimensions_def split: prod.split)
  have "c = OpcUa_Good"
  proof (rule ccontr)
    assume "c \<noteq> OpcUa_Good"
    then have "fst (?h no_decoders c (dims, k) r) \<noteq> OpcUa_Good" by (rule bad)
    then show False using assms a by (simp add: run)
  qed
  with a have a: "?a bs = (OpcUa_Good, dims, k, r)" by simp
  from exact_overlay_array [OF a] obtain pre where pre: "bs = pre @ r" "exact (\<lambda>_ bs. array_result (?a bs)) pre (dims, k)" by auto
  have "r = rest" "exact (\<lambda>de. ?h de OpcUa_Good (dims, k)) [] w"
    using assms a by (auto simp: run exact_def split: prod.splits if_splits)
  with exact_bind [where h = ?h, OF pre(2) this(2) bad]
  have "exact (\<lambda>de b. decode_dimensions al OpcUa_Good v b) pre w" by (simp add: run)
  with pre(1) \<open>r = rest\<close> show ?thesis by blast
qed

subsection \<open>Variants\<close>

text \<open>The type in the encoding byte.\<close>

definition mask_kind :: "byte \<Rightarrow> UA_DataTypeKind" where
  "mask_kind e = kind_of_index (unat (e AND 0x3F) - 1)"

definition mask_accepted :: "nat \<Rightarrow> byte \<Rightarrow> bool" where
  "mask_accepted depth e \<longleftrightarrow> e \<noteq> 0 \<and> unat (e AND 0x3F) \<noteq> 0 \<and> unat (e AND 0x3F) \<le> 25 \<and> depth \<le> UA_ENCODING_MAX_RECURSION
     \<and> (mask_kind e = VARIANT \<longrightarrow> e AND 0x80 \<noteq> 0) \<and> mask_kind e \<noteq> EXTENSIONOBJECT"

definition variant_content :: "decode_table \<Rightarrow> allocator \<Rightarrow> nat \<Rightarrow> UA_DataTypeKind \<Rightarrow> nat \<Rightarrow> byte list \<Rightarrow> UA_StatusCode \<times> UA_value list \<times> byte list" where
  "variant_content de al depth k n bs = (if overlayable k then decode_overlay (kind_memSize k) (value_of_mem k) n bs else decode_elems de al k depth n bs)"

lemma Variant_decodeBinary_accepted:
  assumes "mask_accepted depth e"
  shows "Variant_decodeBinary de al depth (e # bs) = (
    let k = mask_kind e in
    if e AND 0x80 = 0 then
      (if \<not> can_alloc al (2 * kind_memSize k) then (OpcUa_BadOutOfMemory, UA_Variant (Some (UA_TYPES k)) Null 0 Null 0, bs)
       else (case decode_value de al k (Suc depth) bs of (ret, x, rest) \<Rightarrow> (ret, UA_Variant (Some (UA_TYPES k)) (Heap [x]) 0 Null 0, rest)))
    else (case array_result (Array_decodeBinary al (kind_memSize k) (variant_content de al (Suc depth) k) bs) of (ret, (p, n), rest) \<Rightarrow>
      if e AND 0x40 \<noteq> 0 then decode_dimensions al ret (UA_Variant (Some (UA_TYPES k)) p n Null 0) rest
      else (ret, UA_Variant (Some (UA_TYPES k)) p n Null 0, rest)))"
proof -
  have c: "variant_content de al (Suc depth) k = (\<lambda>n rest. if overlayable k then decode_overlay (kind_memSize k) (value_of_mem k) n rest
      else decode_elems de al k (Suc depth) n rest)" for k by (simp add: fun_eq_iff variant_content_def)
  show ?thesis
    using assms unfolding mask_accepted_def mask_kind_def c
    by (simp add: Variant_decodeBinary.simps(2) Let_def case_prod_unfold cong: if_cong)
qed

lemma Variant_decodeBinary_rejected:
  assumes "e \<noteq> 0" "\<not> mask_accepted depth e"
  shows "fst (Variant_decodeBinary no_decoders al depth (e # bs)) \<noteq> OpcUa_Good"
proof (cases "unat (e AND 0x3F) = 0 \<or> 25 < unat (e AND 0x3F) \<or> \<not> depth \<le> UA_ENCODING_MAX_RECURSION \<or> mask_kind e = VARIANT \<and> e AND 0x80 = 0")
  case True
  then show ?thesis using assms(1) by (auto simp: Variant_decodeBinary.simps(2) Let_def mask_kind_def)
next
  case False
  then have "mask_kind e = EXTENSIONOBJECT" using assms by (auto simp: mask_accepted_def)
  then show ?thesis using assms(1) False decode_dimensions_bad [of OpcUa_BadDecodingError al UA_Variant_init bs]
    by (simp add: Variant_decodeBinary.simps(2) Let_def mask_kind_def no_decoders_def)
qed

lemma exact_content:
  assumes elem: "\<And>bs x rest. decode_value no_decoders al k depth bs = (OpcUa_Good, x, rest) \<Longrightarrow>
      \<exists>pre. bs = pre @ rest \<and> pre \<noteq> [] \<and> exact (\<lambda>de. decode_value de al k depth) pre x"
    and "variant_content no_decoders al depth k n bs = (OpcUa_Good, xs, rest)"
  shows "\<exists>pre. bs = pre @ rest \<and> n * kind_memSize k \<le> 128 * length pre \<and> exact (\<lambda>de. variant_content de al depth k n) pre xs"
proof (cases "overlayable k")
  case True
  then have "decode_overlay (kind_memSize k) (value_of_mem k) n bs = (OpcUa_Good, xs, rest)" using assms(2) by (simp add: variant_content_def)
  from exact_overlay [OF this] True show ?thesis by (auto simp: variant_content_def [abs_def] mult.commute)
next
  case False
  then have "decode_elems no_decoders al k depth n bs = (OpcUa_Good, xs, rest)" using assms(2) by (simp add: variant_content_def)
  from exact_elems [OF elem this] obtain pre where pre: "bs = pre @ rest" "n \<le> length pre" "exact (\<lambda>de. decode_elems de al k depth n) pre xs" by blast
  have "n * kind_memSize k \<le> length pre * 128" using pre(2) kind_memSize_bounds(2) [of k] by (rule mult_le_mono)
  with pre False show ?thesis by (auto simp: variant_content_def [abs_def] mult.commute)
qed

lemma exact_variant_step:
  assumes elem: "\<And>k bs x rest. decode_value no_decoders al k (Suc depth) bs = (OpcUa_Good, x, rest) \<Longrightarrow> depth \<le> UA_ENCODING_MAX_RECURSION \<Longrightarrow>
      \<exists>pre. bs = pre @ rest \<and> pre \<noteq> [] \<and> exact (\<lambda>de. decode_value de al k (Suc depth)) pre x"
    and d: "Variant_decodeBinary no_decoders al depth bs = (OpcUa_Good, v, rest)"
  shows "\<exists>pre. bs = pre @ rest \<and> pre \<noteq> [] \<and> exact (\<lambda>de. Variant_decodeBinary de al depth) pre v"
proof (cases bs)
  case Nil
  then show ?thesis using d by simp
next
  case (Cons e b)
  note run = Variant_decodeBinary_accepted [of depth e _ al, unfolded Let_def]
  have found: ?thesis if "b = pre @ rest" "exact g pre v" "\<And>de r. Variant_decodeBinary de al depth (e # r) = g de r" for pre g
  proof -
    have "exact (\<lambda>de. Variant_decodeBinary de al depth) (e # pre) v" by (rule exact_byte [OF that(2,3)]) simp
    moreover have "bs = (e # pre) @ rest" using that(1) Cons by simp
    ultimately show ?thesis by blast
  qed
  consider "e = 0" | "mask_accepted depth e" using Variant_decodeBinary_rejected [of e depth al b] d Cons by fastforce
  then show ?thesis
  proof cases
    case 1
    then show ?thesis using d Cons
      by (intro found [of "[]" "\<lambda>_ r. (OpcUa_Good, UA_Variant_init, r)"]) (simp_all add: Variant_decodeBinary.simps(2) exact_def)
  next
    case 2
    then have depth: "depth \<le> UA_ENCODING_MAX_RECURSION" by (simp add: mask_accepted_def)
    let ?k = "mask_kind e" and ?ty = "Some (UA_TYPES (mask_kind e))"
    show ?thesis
    proof (cases "e AND 0x80 = 0")
      case True
      obtain x where x: "decode_value no_decoders al ?k (Suc depth) b = (OpcUa_Good, x, rest)" "v = UA_Variant ?ty (Heap [x]) 0 Null 0"
        and al: "can_alloc al (2 * kind_memSize ?k)"
        using d Cons run [OF 2, of no_decoders b] True by (auto split: prod.splits if_splits)
      from elem [OF x(1) depth] obtain pre where pre: "b = pre @ rest" "exact (\<lambda>de. decode_value de al ?k (Suc depth)) pre x" by blast
      from exact_map [OF pre(2), of "\<lambda>x. UA_Variant ?ty (Heap [x]) 0 Null 0"] x(2)
      show ?thesis using pre(1) al True run [OF 2] by (intro found [OF pre(1)]) auto
    next
      case False
      let ?h = "\<lambda>(de :: decode_table) ret (p, n) rest. if e AND 0x40 \<noteq> 0 then decode_dimensions al ret (UA_Variant ?ty p n Null 0) rest
          else (ret, UA_Variant ?ty p n Null 0, rest)"
      let ?a = "\<lambda>de. Array_decodeBinary al (kind_memSize ?k) (variant_content de al (Suc depth) ?k)"
      have eq: "Variant_decodeBinary de al depth (e # r) = (case array_result (?a de r) of (ret, y, rest) \<Rightarrow> ?h de ret y rest)" for de r
        using False run [OF 2] by (simp add: case_prod_unfold)
      have bad: "fst (?h de c y r) \<noteq> OpcUa_Good" if "c \<noteq> OpcUa_Good" for de c y r
        using that decode_dimensions_bad [OF that] by (auto split: prod.split)
      obtain c p n r where a: "?a no_decoders b = (c, p, n, r)" by (metis prod_cases4)
      have "c = OpcUa_Good"
      proof (rule ccontr)
        assume "c \<noteq> OpcUa_Good"
        then have "fst (?h no_decoders c (p, n) r) \<noteq> OpcUa_Good" by (rule bad)
        then show False using d Cons eq [of no_decoders b] a by simp
      qed
      with a have a: "?a no_decoders b = (OpcUa_Good, p, n, r)" by simp
      from exact_array [OF a kind_memSize_bounds(1) exact_content [OF elem [OF _ depth]]]
      obtain pre where pre: "b = pre @ r" "exact (\<lambda>de bs. array_result (?a de bs)) pre (p, n)" by blast
      have "\<exists>pre'. r = pre' @ rest \<and> exact (\<lambda>de. ?h de OpcUa_Good (p, n)) pre' v"
      proof (cases "e AND 0x40 = 0")
        case True
        then have "r = [] @ rest \<and> exact (\<lambda>de. ?h de OpcUa_Good (p, n)) [] v" using d Cons eq [of no_decoders b] a by (auto simp: exact_def)
        then show ?thesis by blast
      next
        case dims: False
        then have "decode_dimensions al OpcUa_Good (UA_Variant ?ty p n Null 0) r = (OpcUa_Good, v, rest)" using d Cons eq [of no_decoders b] a by simp
        from exact_dimensions [OF this] dims show ?thesis by simp
      qed
      then obtain pre' where pre': "r = pre' @ rest" "exact (\<lambda>de. ?h de OpcUa_Good (p, n)) pre' v" by blast
      have "b = (pre @ pre') @ rest" using pre(1) pre'(1) by simp
      from found [OF this exact_bind [where h = ?h, OF pre(2) pre'(2) bad] eq] show ?thesis .
    qed
  qed
qed

lemma exact_value:
  assumes "\<And>bs v rest. Variant_decodeBinary no_decoders al depth bs = (OpcUa_Good, v, rest) \<Longrightarrow>
      \<exists>pre. bs = pre @ rest \<and> pre \<noteq> [] \<and> exact (\<lambda>de. Variant_decodeBinary de al depth) pre v"
    and d: "decode_value no_decoders al k depth bs = (OpcUa_Good, x, rest)"
  shows "\<exists>pre. bs = pre @ rest \<and> pre \<noteq> [] \<and> exact (\<lambda>de. decode_value de al k depth) pre x"
proof (cases "k = VARIANT")
  case True
  then obtain v where v: "Variant_decodeBinary no_decoders al depth bs = (OpcUa_Good, v, rest)" "x = VVariant v"
    using d by (auto simp: decode_value_variant split: prod.splits)
  from assms(1) [OF v(1)] obtain pre where pre: "bs = pre @ rest" "pre \<noteq> []" "exact (\<lambda>de. Variant_decodeBinary de al depth) pre v" by blast
  have "exact (\<lambda>de bs. decode_value de al k depth bs) pre x" using exact_map [OF pre(3), of VVariant] v(2) True by (simp add: decode_value_variant)
  with pre(1,2) show ?thesis by blast
qed (rule exact_leaf [OF d])

text \<open>What a decoder without the other types accepts, every decoder accepts.\<close>

lemma exact_variant:
  assumes "Variant_decodeBinary no_decoders al depth bs = (OpcUa_Good, v, rest)"
  shows "\<exists>pre. bs = pre @ rest \<and> pre \<noteq> [] \<and> exact (\<lambda>de. Variant_decodeBinary de al depth) pre v"
  using assms
proof (induction "101 - depth" arbitrary: depth bs v rest rule: less_induct)
  case less
  have deeper: "\<exists>pre. bs = pre @ rest \<and> pre \<noteq> [] \<and> exact (\<lambda>de. Variant_decodeBinary de al (Suc depth)) pre v"
    if "depth \<le> UA_ENCODING_MAX_RECURSION" "Variant_decodeBinary no_decoders al (Suc depth) bs = (OpcUa_Good, v, rest)" for bs v rest
    using less(1) [OF _ that(2)] that(1) by (simp add: UA_ENCODING_MAX_RECURSION_def)
  show ?case by (rule exact_variant_step [OF _ less(2)]) (use exact_value [OF deeper] in blast)
qed

lemma exact_decoder:
  "decode_value no_decoders al k depth bs = (OpcUa_Good, x, rest) \<Longrightarrow>
    \<exists>pre. bs = pre @ rest \<and> pre \<noteq> [] \<and> exact (\<lambda>de. decode_value de al k depth) pre x"
  using exact_value [OF exact_variant] .

end
