(* ===== verification/UA_Wire_Props.thy ===== *)
theory UA_Wire_Props
  imports UA_WireExact UaVariant_Props
begin

text \<open>
  The properties of the binary codec, and the wrapper's variants across the wire: what a setter stored on one side is what the
  getter of the other side reads.
\<close>

text \<open>A stack without any of the types that are not modelled.\<close>

definition no_encoders :: encode_table where
  "no_encoders = \<lparr>et_encode = (\<lambda>k bs. give_up OpcUa_BadEncodingError), et_wrap = (\<lambda>v isArray. give_up OpcUa_BadEncodingError)\<rparr>"

subsection \<open>One buffer\<close>

lemma buffer_ctx_fields [simp]:
  "en_buf (buffer_ctx n nxt) = []" "en_past (buffer_ctx n nxt) = []" "en_end (buffer_ctx n nxt) = Some n" "en_sent (buffer_ctx n nxt) = []" "en_next (buffer_ctx n nxt) = nxt"
  by (simp_all add: buffer_ctx_def)

lemma buffer_ctx_ok [simp]: "ctx_ok (buffer_ctx n nxt) \<longleftrightarrow> (\<forall>(c, room)\<in>set nxt. c = OpcUa_Good \<and> 16 \<le> room)"
  by (simp add: ctx_ok_def buffer_ctx_def)

lemma size_ctx_ok [simp]: "ctx_ok size_ctx"
  by (simp add: ctx_ok_def size_ctx_def)

lemma fits_new [simp]: "fits (buffer_ctx n nxt) m \<longleftrightarrow> m \<le> n" "fits size_ctx m"
  by (simp_all add: fits_def buffer_ctx_def size_ctx_def)

lemma output_new [simp]: "output_of (buffer_ctx n nxt) = []" "output_of size_ctx = []"
  by (simp_all add: output_of_def buffer_ctx_def size_ctx_def)

lemma encode_internal: "encodable x \<Longrightarrow> writes_all (UA_encodeBinaryInternal (encode_value et x)) (wire_value x)"
  using encoder_writes(1) [of x et] by (simp add: UA_encodeBinaryInternal_def writes_exchange)

lemma internal_outcome:
  assumes "encodable x" "ctx_ok ctx"
  obtains ctx' where "UA_encodeBinaryInternal (encode_value et x) ctx = Inr (OpcUa_Good, ctx')" "wrote (wire_value x) ctx ctx'"
    | ctx' where "UA_encodeBinaryInternal (encode_value et x) ctx = Inr (OpcUa_BadEncodingError, ctx')" "starved (wire_value x) ctx ctx'"
  using encode_internal [OF assms(1), of et] assms(2) unfolding writes_all_def by blast

lemma internal_fits:
  assumes "encodable x" "ctx_ok ctx" "fits ctx (length (wire_value x))"
  shows "UA_encodeBinaryInternal (encode_value et x) ctx = Inr (OpcUa_Good, stored (wire_value x) ctx)"
  using internal_outcome [OF assms(1,2), of et] assms(3) by (auto simp: wrote_def starved_def room_for_def)

lemma calcSize_wire: "encodable x \<Longrightarrow> UA_calcSizeBinary (encode_value et x) = Inr (length (wire_value x))"
  by (simp add: UA_calcSizeBinary_def internal_fits) (simp add: size_ctx_def)

lemma wire_nonempty: "encodable x \<Longrightarrow> wire_value x \<noteq> []"
  using encoder_writes(1) [of x] by auto

lemma encode_allocated:
  assumes "encodable x" "mem_ok al"
  shows "UA_encodeBinary al (encode_value et x) UA_STRING_NULL = Inr (OpcUa_Good, \<lparr>bs_length = length (wire_value x), bs_data = Heap (wire_value x)\<rparr>)"
  using assms by (simp add: UA_encodeBinary_def calcSize_wire internal_fits wire_nonempty buffer_memory_def)

text \<open>C16 (bounds). The size computed beforehand is the size of the encoding. Into a buffer of the caller the value is encoded exactly
  when it fits, and then the buffer has the length of the encoding and holds the encoding; otherwise the call fails and the buffer keeps its length, but not its
  contents: it begins with a proper prefix of the encoding, then come at most fifteen bytes of a piece that did not fit, and only what lies behind them
  is as it was. An empty buffer is allocated with exactly the size needed. (Values of the modelled types, with lengths that fit the format and enough memory.)\<close>

theorem encoding_fits_buffer:
  assumes "encodable x" "mem_ok al" "wf_bstr outBuf"
  shows "UA_calcSizeBinary (encode_value et x) = Inr (length (wire_value x))
    \<and> (if bs_length outBuf = 0 \<or> length (wire_value x) \<le> bs_length outBuf
       then \<exists>b. UA_encodeBinary al (encode_value et x) outBuf = Inr (OpcUa_Good, b) \<and> bs_length b = length (wire_value x) \<and> bstr_bytes b = wire_value x
       else \<exists>b j past. UA_encodeBinary al (encode_value et x) outBuf = Inr (OpcUa_BadEncodingError, b) \<and> bs_length b = bs_length outBuf
         \<and> j < length (wire_value x) \<and> length past < 16 \<and> j + length past \<le> bs_length outBuf
         \<and> bstr_bytes b = take j (wire_value x) @ past @ drop (j + length past) (bstr_bytes outBuf))"
proof (cases "bs_length outBuf = 0")
  case True
  have "UA_encodeBinary al (encode_value et x) outBuf = UA_encodeBinary al (encode_value et x) UA_STRING_NULL"
    using True assms by (simp add: UA_encodeBinary_def calcSize_wire)
  then show ?thesis using True assms by (simp add: calcSize_wire encode_allocated bstr_bytes_def)
next
  case False
  have old: "bstr_bytes outBuf = ptr_elems (bs_data outBuf)" "length (ptr_elems (bs_data outBuf)) = bs_length outBuf"
    using assms(3) wf_bstr_length [of outBuf] False by (auto simp: bstr_bytes_def wf_bstr_def wf_array_def split: ptr.splits)
  show ?thesis
  proof (cases "length (wire_value x) \<le> bs_length outBuf")
    case True
    then show ?thesis using False assms
      by (simp add: calcSize_wire UA_encodeBinary_def internal_fits bstr_bytes_def buffer_memory_def)
  next
    case tight: False
    let ?ctx = "buffer_ctx (bs_length outBuf) []"
    obtain ctx where run: "UA_encodeBinaryInternal (encode_value et x) ?ctx = Inr (OpcUa_BadEncodingError, ctx)" and s: "starved (wire_value x) ?ctx ctx"
    proof (rule internal_outcome [OF assms(1), of ?ctx et])
      fix ctx' assume w: "wrote (wire_value x) ?ctx ctx'"
      have False using w tight by (simp add: wrote_def)
      then show thesis ..
    qed (auto intro: that)
    from s obtain j where j: "en_buf ctx = take j (wire_value x)" "length (en_buf ctx) + length (en_past ctx) \<le> bs_length outBuf" "length (en_past ctx) < 16"
      by (auto simp: starved_def output_of_def)
    let ?j = "length (en_buf ctx)"
    have "?j < length (wire_value x)" using j(2) tight by linarith
    moreover have "en_buf ctx = take ?j (wire_value x)" using j(1) by (auto simp: min_def)
    moreover have "UA_encodeBinary al (encode_value et x) outBuf = Inr (OpcUa_BadEncodingError,
        \<lparr>bs_length = bs_length outBuf, bs_data = Heap (buffer_memory ctx (ptr_elems (bs_data outBuf)))\<rparr>)"
      using run False by (simp add: UA_encodeBinary_def)
    moreover have "bstr_bytes \<lparr>bs_length = bs_length outBuf, bs_data = Heap (buffer_memory ctx (ptr_elems (bs_data outBuf)))\<rparr>
        = en_buf ctx @ en_past ctx @ drop (?j + length (en_past ctx)) (bstr_bytes outBuf)"
      using j(2) old by (simp add: bstr_bytes_def buffer_memory_def Let_def)
    ultimately show ?thesis using tight False j(2,3) assms(1) by (auto simp: calcSize_wire intro!: exI [of _ ?j] exI [of _ "en_past ctx"])
  qed
qed

theorem encoding_fits_buffer_witness:
  "UA_calcSizeBinary (encode_value no_encoders (VString \<lparr>bs_length = 2, bs_data = Heap ''ab''\<rparr>)) = Inr 6
    \<and> (\<exists>b j past. UA_encodeBinary enough_memory (encode_value no_encoders (VString \<lparr>bs_length = 2, bs_data = Heap ''ab''\<rparr>))
          \<lparr>bs_length = 5, bs_data = Heap [9, 9, 9, 9, 9]\<rparr> = Inr (OpcUa_BadEncodingError, b)
        \<and> bs_length b = 5 \<and> bstr_bytes b = take j (wire_string char_byte \<lparr>bs_length = 2, bs_data = Heap ''ab''\<rparr>) @ past @ drop (j + length past) [9, 9, 9, 9, 9])"
  using encoding_fits_buffer [OF _ mem_ok_enough, of "VString \<lparr>bs_length = 2, bs_data = Heap ''ab''\<rparr>" "\<lparr>bs_length = 5, bs_data = Heap [9, 9, 9, 9, 9]\<rparr>" no_encoders]
  by (auto simp: wf_bstr_def INT32_MAX_def wire_string_def bstr_bytes_def)

subsection \<open>Chunks\<close>

text \<open>C17 (equivalence). Breaking a message into chunks does not change it. Whatever the sizes of the buffers the exchange callback hands out, as long
  as none is smaller than a GUID and there is one for every byte, the encoder succeeds; the chunks it sent and what is in the last
  buffer are together the encoding, and no chunk is longer than its buffer.\<close>

theorem chunks_keep_bytes:
  assumes "encodable x" "\<forall>(c, room)\<in>set buffers. c = OpcUa_Good \<and> 16 \<le> room" "length (wire_value x) \<le> length buffers"
  shows "\<exists>ctx. UA_encodeBinaryInternal (encode_value et x) (buffer_ctx n buffers) = Inr (OpcUa_Good, ctx)
    \<and> concat (map fst (en_sent ctx)) @ en_buf ctx = wire_value x
    \<and> (\<forall>(chunk, room)\<in>set (en_sent ctx). length chunk \<le> room) \<and> (\<exists>room. en_end ctx = Some room \<and> length (en_buf ctx) \<le> room)
    \<and> (length (wire_value x) \<le> n \<longrightarrow> en_sent ctx = [])"
proof -
  let ?ctx = "buffer_ctx n buffers"
  have ok: "ctx_ok ?ctx" using assms(2) by simp
  have "room_for ?ctx (length (wire_value x))" using assms(3) by (simp add: room_for_def)
  then obtain ctx' where run: "UA_encodeBinaryInternal (encode_value et x) ?ctx = Inr (OpcUa_Good, ctx')" "wrote (wire_value x) ?ctx ctx'"
    using internal_outcome [OF assms(1) ok, of et] by (metis starved_def)
  then have "ctx_ok ctx'" "output_of ctx' = wire_value x" by (simp_all add: wrote_def)
  moreover have "en_end ctx' \<noteq> None" using run(2) by (auto simp: wrote_def split: if_splits)
  moreover have "length (wire_value x) \<le> n \<Longrightarrow> en_sent ctx' = []" using run(2) by (simp add: wrote_def)
  ultimately show ?thesis using run(1) by (auto simp: ctx_ok_def output_of_def)
qed

theorem chunks_keep_bytes_witness:
  "\<exists>ctx. UA_encodeBinaryInternal (encode_value no_encoders (VByteString \<lparr>bs_length = 14, bs_data = Heap [1, 2, 3, 4, 5, 6, 7, 8, 9, 10, 11, 12, 13, 14]\<rparr>))
       (buffer_ctx 16 (replicate 18 (OpcUa_Good, 16))) = Inr (OpcUa_Good, ctx)
    \<and> concat (map fst (en_sent ctx)) @ en_buf ctx = [14, 0, 0, 0, 1, 2, 3, 4, 5, 6, 7, 8, 9, 10, 11, 12, 13, 14]"
proof -
  have four: "bytes_of 4 w = [ucast w, ucast (drop_bit 8 w), ucast (drop_bit 8 (drop_bit 8 w)), ucast (drop_bit 8 (drop_bit 8 (drop_bit 8 w)))]" for w :: "32 word"
    by (simp add: numeral_eq_Suc)
  show ?thesis
    using chunks_keep_bytes [of "VByteString \<lparr>bs_length = 14, bs_data = Heap [1, 2, 3, 4, 5, 6, 7, 8, 9, 10, 11, 12, 13, 14]\<rparr>"
        "replicate 18 (OpcUa_Good, 16)" no_encoders 16]
    by (auto simp: wf_bstr_def INT32_MAX_def wire_string_def bstr_bytes_def array_length_field_def four)
qed

subsection \<open>The round trip\<close>

lemma variant_wire:
  assumes "mem_ok al" "encodable_variant v" "decodable_variant 0 v"
  shows "\<exists>b. UA_encodeBinary al (encode_value et (VVariant v)) UA_STRING_NULL = Inr (OpcUa_Good, b)
    \<and> UA_decodeBinary (decode_value de al VARIANT 0) (zero_value VARIANT) (bstr_bytes b @ tail) = (OpcUa_Good, VVariant (received_variant v), bs_length b)"
  using encode_allocated [of "VVariant v" al et] assms decoder_reads(2) [OF assms, of de tail]
  by (simp add: bstr_bytes_def UA_decodeBinary_def decode_value_variant)

text \<open>C14 (roundtrip). Take a variant that is empty or whose type, and that of every variant inside it, is one of the seventeen built-in types Boolean, SByte, Byte, Int16,
  UInt16, Int32, UInt32, Int64, UInt64, Float, Double, String, DateTime, Guid, ByteString, StatusCode and Variant (the other built-in types, extension objects
  and enumerations are not covered), well-formed, with lengths of at most 2147483647 and dimensions whose product is the length. With enough memory it is encoded.
  What was encoded is decoded, whatever follows it in
  the message, exactly when no nested variant lies deeper than the limit of the decoder, no variant holds a variant as its scalar value and no array of it has a
  dimension of zero; none of these is
  checked by the encoder. The value that arrives is the value that was sent, up to the quiet form of NaNs outside of
  arrays of numbers and dimensions of something that is no array.\<close>

theorem variant_wire_roundtrip:
  assumes "mem_ok al" "encodable_variant v"
  shows "\<exists>b. UA_encodeBinary al (encode_value et (VVariant v)) UA_STRING_NULL = Inr (OpcUa_Good, b)
    \<and> (if decodable_variant 0 v
       then UA_decodeBinary (decode_value de al VARIANT 0) (zero_value VARIANT) (bstr_bytes b @ tail) = (OpcUa_Good, VVariant (received_variant v), bs_length b)
       else \<exists>c. c \<noteq> OpcUa_Good \<and> UA_decodeBinary (decode_value de al VARIANT 0) (zero_value VARIANT) (bstr_bytes b @ tail) = (c, VVariant UA_Variant_init, 0))"
proof -
  let ?b = "\<lparr>bs_length = length (wire_variant v), bs_data = Heap (wire_variant v)\<rparr>"
  have enc: "UA_encodeBinary al (encode_value et (VVariant v)) UA_STRING_NULL = Inr (OpcUa_Good, ?b)"
    using encode_allocated [of "VVariant v" al et] assms by simp
  moreover have "bstr_bytes ?b = wire_variant v" by (simp add: bstr_bytes_def)
  moreover have "decodable_variant 0 v \<Longrightarrow>
      UA_decodeBinary (decode_value de al VARIANT 0) (zero_value VARIANT) (wire_variant v @ tail) = (OpcUa_Good, VVariant (received_variant v), length (wire_variant v))"
    using decoder_reads(2) [OF assms, of 0 de tail] by (simp add: UA_decodeBinary_def decode_value_variant)
  moreover have "\<not> decodable_variant 0 v \<Longrightarrow> \<exists>c. c \<noteq> OpcUa_Good \<and> UA_decodeBinary (decode_value de al VARIANT 0) (zero_value VARIANT) (wire_variant v @ tail) = (c, VVariant UA_Variant_init, 0)"
    using decoder_refuses(2) [OF assms, of 0 de tail]
    by (cases "Variant_decodeBinary de al 0 (wire_variant v @ tail)") (simp add: UA_decodeBinary_def decode_value_variant zero_value_def)
  ultimately show ?thesis by auto
qed

theorem variant_wire_roundtrip_witness:
  "(\<exists>b. UA_encodeBinary enough_memory (encode_value no_encoders (VVariant (UA_Variant (Some (UA_TYPES UINT16)) (Heap [VUInt16 258]) 0 Null 0))) UA_STRING_NULL
      = Inr (OpcUa_Good, b)
    \<and> UA_decodeBinary (decode_value no_decoders enough_memory VARIANT 0) (zero_value VARIANT) (bstr_bytes b @ [7])
      = (OpcUa_Good, VVariant (UA_Variant (Some (UA_TYPES UINT16)) (Heap [VUInt16 258]) 0 Null 0), bs_length b))
   \<and> (\<exists>b c. UA_encodeBinary enough_memory (encode_value no_encoders (VVariant (UA_Variant (Some (UA_TYPES VARIANT)) (Heap [VVariant UA_Variant_init]) 0 Null 0))) UA_STRING_NULL
      = Inr (OpcUa_Good, b)
    \<and> c \<noteq> OpcUa_Good \<and> UA_decodeBinary (decode_value no_decoders enough_memory VARIANT 0) (zero_value VARIANT) (bstr_bytes b) = (c, VVariant UA_Variant_init, 0))"
proof
  let ?v = "UA_Variant (Some (UA_TYPES UINT16)) (Heap [VUInt16 258]) 0 Null 0"
    and ?w = "UA_Variant (Some (UA_TYPES VARIANT)) (Heap [VVariant UA_Variant_init]) 0 Null 0"
  note flat = dimensions_fit_def variant_hasDimensions_def variant_isArray_def INT32_MAX_def UA_ENCODING_MAX_RECURSION_def UA_Variant_init_def
  show "\<exists>b. UA_encodeBinary enough_memory (encode_value no_encoders (VVariant ?v)) UA_STRING_NULL = Inr (OpcUa_Good, b)
    \<and> UA_decodeBinary (decode_value no_decoders enough_memory VARIANT 0) (zero_value VARIANT) (bstr_bytes b @ [7]) = (OpcUa_Good, VVariant ?v, bs_length b)"
    using variant_wire_roundtrip [OF mem_ok_enough, of ?v no_encoders no_decoders "[7]"] by (simp add: flat)
  show "\<exists>b c. UA_encodeBinary enough_memory (encode_value no_encoders (VVariant ?w)) UA_STRING_NULL = Inr (OpcUa_Good, b)
    \<and> c \<noteq> OpcUa_Good \<and> UA_decodeBinary (decode_value no_decoders enough_memory VARIANT 0) (zero_value VARIANT) (bstr_bytes b) = (c, VVariant UA_Variant_init, 0)"
    using variant_wire_roundtrip [OF mem_ok_enough, of ?w no_encoders no_decoders "[]"] by (auto simp: flat)
qed

text \<open>C15 (safety). The decoder on any bytes. When it accepts, it delivers a well-formed value of the type asked for and an offset within the message,
  and it has not looked behind that offset: with anything else after the bytes it consumed, the value and the offset are the same, and of
  these bytes no shorter piece is accepted, so a message that was cut off is always refused. When it refuses, the value is zeroed and the offset unchanged. (For messages
  of the modelled types; the decoders of the others refuse here, and what is accepted so is accepted alike whatever they do.)\<close>

theorem decoder_on_any_input:
  "case UA_decodeBinary (decode_value no_decoders al k 0) (zero_value k) inBuf of (ret, x, offset) \<Rightarrow>
     if ret = OpcUa_Good
     then value_kind x = k \<and> wf_value x \<and> 0 < offset \<and> offset \<le> length inBuf
       \<and> (\<forall>de behind. UA_decodeBinary (decode_value de al k 0) (zero_value k) (take offset inBuf @ behind) = (OpcUa_Good, x, offset))
       \<and> (\<forall>de m. m < offset \<longrightarrow> (\<exists>c. c \<noteq> OpcUa_Good \<and> UA_decodeBinary (decode_value de al k 0) (zero_value k) (take m inBuf) = (c, zero_value k, 0)))
     else x = zero_value k \<and> offset = 0"
proof -
  obtain ret x rest where d: "decode_value no_decoders al k 0 inBuf = (ret, x, rest)" by (metis prod_cases3)
  show ?thesis
  proof (cases "ret = OpcUa_Good")
    case False
    then show ?thesis using d by (simp add: UA_decodeBinary_def)
  next
    case True
    have other: "other_decoders_ok no_decoders" by (auto simp: other_decoders_ok_def no_decoders_def UA_Variant_init_def)
    from decode_at_depth(1) [OF other decoder_wf [OF other] d] have ok: "decoded_ok k x" using True by simp
    from exact_decoder [OF d [unfolded True]] obtain pre where
      pre: "inBuf = pre @ rest" "pre \<noteq> []" "exact (\<lambda>de. decode_value de al k 0) pre x" by blast
    have whole: "UA_decodeBinary (decode_value de al k 0) (zero_value k) (pre @ behind) = (OpcUa_Good, x, length pre)" for de behind
      using pre(3) by (simp add: exact_def UA_decodeBinary_def)
    have cut: "\<exists>c. c \<noteq> OpcUa_Good \<and> UA_decodeBinary (decode_value de al k 0) (zero_value k) (take m inBuf) = (c, zero_value k, 0)"
      if "m < length pre" for de m
    proof -
      have "fst (decode_value de al k 0 (take m inBuf)) \<noteq> OpcUa_Good" using that pre(1,3) by (simp add: exact_def)
      then show ?thesis by (cases "decode_value de al k 0 (take m inBuf)") (simp add: UA_decodeBinary_def)
    qed
    have "UA_decodeBinary (decode_value no_decoders al k 0) (zero_value k) inBuf = (OpcUa_Good, x, length pre)"
      using whole [of no_decoders rest] pre(1) by simp
    then show ?thesis using ok whole cut pre(1,2) by (simp add: decoded_ok_def)
  qed
qed

theorem decoder_on_any_input_witness:
  "(\<forall>de behind. UA_decodeBinary (decode_value de enough_memory UINT16 0) (VUInt16 0) ([1, 2] @ behind) = (OpcUa_Good, VUInt16 513, 2))
    \<and> (\<forall>de. \<exists>c. c \<noteq> OpcUa_Good \<and> UA_decodeBinary (decode_value de enough_memory UINT16 0) (VUInt16 0) [1] = (c, VUInt16 0, 0))"
proof -
  have run: "UA_decodeBinary (decode_value no_decoders enough_memory UINT16 0) (VUInt16 0) [1, 2, 3] = (OpcUa_Good, VUInt16 513, 2)" by code_simp
  have z: "zero_value UINT16 = VUInt16 0" by (simp add: zero_value_def)
  have one: "take 1 [1 :: byte, 2, 3] = [1]" by simp
  show ?thesis
    using decoder_on_any_input [where al = enough_memory and k = UINT16 and inBuf = "[1, 2, 3]", unfolded z run prod.case, simplified]
    by (metis one append_Cons append_Nil less_numeral_extra(1) one_less_numeral_iff semiring_norm(76))
qed

subsection \<open>The wrapper's variants across the wire\<close>

text \<open>A variant is encoded into a new buffer on one side and decoded from it on the other.\<close>

definition transported :: "allocator \<Rightarrow> encode_table \<Rightarrow> decode_table \<Rightarrow> UA_Variant \<Rightarrow> UA_Variant \<Rightarrow> bool" where
  "transported al et de v w \<longleftrightarrow> (\<exists>b. UA_encodeBinary al (encode_value et (VVariant v)) UA_STRING_NULL = Inr (OpcUa_Good, b)
     \<and> UA_decodeBinary (decode_value de al VARIANT 0) (zero_value VARIANT) (bstr_bytes b) = (OpcUa_Good, VVariant w, bs_length b))"

text \<open>A setter succeeds with result \<open>r0\<close>, the variant is transported, and the getter then returns a good status and \<open>y\<close>.\<close>

definition crosses :: "allocator \<Rightarrow> encode_table \<Rightarrow> decode_table \<Rightarrow> 'r \<Rightarrow> (UA_Variant, 'r) op \<Rightarrow> (UA_Variant \<Rightarrow> ('a, UA_StatusCode) op)
    \<Rightarrow> UA_Variant \<Rightarrow> 'a \<Rightarrow> 'a \<Rightarrow> bool" where
  "crosses al et de r0 setter getter v out y \<longleftrightarrow> fst (setter v) = Inr r0
     \<and> (\<exists>w. transported al et de (snd (setter v)) w \<and> getter w out = (Inr OpcUa_Good, y))"

lemma transported_received:
  assumes "mem_ok al" "encodable_variant v" "decodable_variant 0 v"
  shows "transported al et de v (received_variant v)"
  using variant_wire [OF assms, of et de "[]"] by (simp add: transported_def)

lemma required_size_prod:
  "0 \<notin> set ds \<Longrightarrow> p * prod_list (map unat ds) \<le> SIZE_MAX \<Longrightarrow> required_size p ds = Some (p * prod_list (map unat ds))"
proof (induction p ds rule: required_size.induct)
  case (2 p d ds)
  have pos: "0 < unat d" "0 < prod_list (map unat ds)" using 2(2) by (auto simp: unat_gt_0 prod_list_zero_iff zero_less_iff_neq_zero unat_eq_zero)
  have "p * unat d \<le> p * unat d * prod_list (map unat ds)" using pos(2) by simp
  also have "\<dots> \<le> SIZE_MAX" using 2(3) by (simp add: mult.assoc)
  finally have "p \<le> SIZE_MAX div unat d" using pos(1) by (simp add: less_eq_div_iff_mult_less_eq)
  then show ?case using 2 by (simp add: mult.assoc)
qed simp

lemma valid_dimensions_size:
  assumes "valid_dimensions n ds" "ds \<noteq> []"
  shows "required_size 1 ds = Some n" "0 \<notin> set ds" "n < 2147483648"
proof -
  have ds: "\<forall>d\<in>set ds. 1 \<le> sint d" "prod_list (map sint ds) = int n" "n < 2147483648"
    using assms by (auto simp: valid_dimensions_def list_all_iff)
  show zero: "0 \<notin> set ds" using ds(1) by auto
  have "int (unat d) = sint d" if "1 \<le> sint d" for d :: "32 word"
  proof -
    have "uint d = sint d" unfolding uint_sint using that sint32_less [of d] by (simp add: take_bit_int_eq_self_iff)
    then show ?thesis by simp
  qed
  then have "prod_list (map sint ds) = int (prod_list (map unat ds))" using ds(1) by (induction ds) auto
  then have "prod_list (map unat ds) = n" using ds(2) by simp
  then show "required_size 1 ds = Some n" using required_size_prod [OF zero, of 1] ds(3) by (simp add: SIZE_MAX_def)
  show "n < 2147483648" by (rule ds(3))
qed

lemma leaf_received:
  assumes "value_kind x \<noteq> VARIANT"
  shows "decodable d x" "value_kind (received x) = value_kind x" "wf_value x \<Longrightarrow> wf_value (received x)"
  using assms by (cases x; simp)+

lemma scalar_of_transported:
  assumes "mem_ok al" "scalar_of x v" "encodable x" "kind_index (value_kind x) \<le> 24" "value_kind x \<noteq> EXTENSIONOBJECT" "value_kind x \<noteq> VARIANT"
  shows "\<exists>w. transported al et de v w \<and> scalar_of (received x) w"
proof -
  obtain dims where v: "v = UA_Variant (Some (UA_TYPES (value_kind x))) (Heap [x]) 0 dims 0"
    using assms(2) by (cases v) (simp add: scalar_of_def)
  have h: "\<not> variant_hasDimensions v" by (simp add: v variant_hasDimensions_def)
  then have e: "encodable_variant v" using assms(3-6) by (simp add: v dimensions_fit_def INT32_MAX_def)
  have d: "decodable 1 x" using assms(6) by (cases x) simp_all
  then have "decodable_variant 0 v" using h assms(6) by (simp add: v UA_ENCODING_MAX_RECURSION_def)
  from transported_received [OF assms(1) e this] have "transported al et de v (received_variant v)" .
  moreover have "scalar_of (received x) (received_variant v)"
  proof -
    have "value_kind (received x) = value_kind x" by (cases x) simp_all
    moreover have "wf_value (received x)" using assms(2,6) by (cases x) (simp_all add: scalar_of_def v)
    ultimately show ?thesis using h by (simp add: scalar_of_def v)
  qed
  ultimately show ?thesis by blast
qed

lemma array_of_transported:
  assumes al: "mem_ok al" and a: "array_of k xs ds v" and ds: "ds = [] \<or> valid_dimensions (length xs) ds \<and> int (length ds) \<le> INT32_MAX"
    and n: "int (length xs) \<le> INT32_MAX" and k: "kind_index k \<le> 24" "k \<noteq> EXTENSIONOBJECT" "k \<noteq> VARIANT" and xs: "\<forall>x\<in>set xs. encodable x"
  shows "\<exists>w. transported al et de v w \<and> array_of k (map (\<lambda>x. if overlayable k then x else received x) xs) ds w"
proof -
  let ?d = "if xs = [] then Sentinel else Heap xs" and ?dims = "if ds = [] then Null else Heap ds"
  have v: "v = UA_Variant (Some (UA_TYPES k)) ?d (length xs) ?dims (length ds)" using a by (cases v) (simp add: array_of_def)
  have kinds: "\<forall>x\<in>set xs. value_kind x = k \<and> wf_value x" using a by (cases "xs = []") (auto simp: array_of_def v)
  have h: "variant_hasDimensions v \<longleftrightarrow> ds \<noteq> []" by (simp add: v variant_hasDimensions_def variant_isArray_def)
  have "dimensions_fit v" using ds valid_dimensions_size h by (auto simp: dimensions_fit_def v)
  then have e: "encodable_variant v" using n k xs kinds by (simp add: v)
  have leaf: "decodable 1 x" "value_kind (received x) = k \<and> wf_value (received x)" if "x \<in> set xs" for x
    using that kinds k(3) leaf_received [of x] by auto
  have d: "decodable_variant 0 v" using leaf(1) ds h k(3) valid_dimensions_size(2) by (auto simp: v UA_ENCODING_MAX_RECURSION_def)
  have "array_of k (map (\<lambda>x. if overlayable k then x else received x) xs) ds (received_variant v)"
  proof -
    have "wf_array ?dims (length ds)" by simp
    then show ?thesis using h kinds leaf(2) by (auto simp: array_of_def v)
  qed
  then show ?thesis using transported_received [OF al e d] by blast
qed

context element_type begin

lemma scalar_crosses:
  assumes "mem_ok al" "wf_variant v" "UaVariant_arrayType v \<noteq> 1" and k: "kind_index kind \<le> 24" "kind \<noteq> EXTENSIONOBJECT" "kind \<noteq> VARIANT"
    and x: "encodable (inj x)" "received (inj x) = inj y"
    and "\<And>w. setter w = reuseOrRealloc al kind (inj x) w" "\<And>w out. getter w out = write_out proj (toSimpleType nc kind w) out"
  shows "crosses al et de () setter getter v out y"
proof -
  have "can_alloc al (kind_memSize kind)" using assms(1) by simp
  from setter_scalar [OF this assms(2) not_array_free [OF assms(2,3)]] obtain v'
    where v': "reuseOrRealloc al kind (inj x) v = (Inr (), v')" "scalar_of (inj x) v'" by blast
  from scalar_of_transported [OF assms(1) v'(2) x(1)] obtain w where "transported al et de v' w" "scalar_of (inj y) w"
    using k x(2) by (auto simp: kind_inj)
  then show ?thesis using v'(1) getter_same by (auto simp: crosses_def assms(9,10))
qed

lemma array_crosses:
  assumes "mem_ok al" "int (length xs) \<le> INT32_MAX" "kind_index kind \<le> 24" "kind \<noteq> EXTENSIONOBJECT" "kind \<noteq> VARIANT"
    and x: "\<And>x. encodable (inj x) \<and> (overlayable kind \<or> received (inj x) = inj x)"
    and "\<And>w. setter w = set1DArray al kind (map inj xs) w" "\<And>w out. getter w out = toArray kind T (put_simple proj) w out"
  shows "crosses al et de () setter getter v out xs"
proof -
  from set1DArray_ok [OF assms(1), of xs v] obtain v'
    where v': "set1DArray al kind (map inj xs) v = (Inr (), v')" "array_of kind (map inj xs) [] v'" by blast
  have same: "map (\<lambda>x. if overlayable kind then x else received x) (map inj xs) = map inj xs" using x by auto
  from array_of_transported [OF assms(1) v'(2), of et de] obtain w where "transported al et de v' w" "array_of kind (map inj xs) [] w"
    using assms(2-5) x unfolding same by auto
  then show ?thesis using v'(1) toArray_ok by (auto simp: crosses_def assms(7,8))
qed

lemma matrix_crosses:
  assumes "mem_ok al" "valid_dimensions (length xs) ds" "ds \<noteq> []" "int (length ds) \<le> INT32_MAX"
    and "kind_index kind \<le> 24" "kind \<noteq> EXTENSIONOBJECT" "kind \<noteq> VARIANT"
    and x: "\<And>x. encodable (inj x) \<and> (overlayable kind \<or> received (inj x) = inj x)"
    and "\<And>w. setter w = setMatrix al kind (map inj xs) ds w" "\<And>w out. getter w out = toMatrix kind T (put_simple proj) w out"
  shows "crosses al et de OpcUa_Good setter getter v out (xs, ds)"
proof -
  have len: "length xs < 4294967296" "int (length xs) \<le> INT32_MAX" using valid_dimensions_size(3) [OF assms(2,3)] by (simp_all add: INT32_MAX_def)
  from setMatrix_ok [OF len(1) assms(2,1,4), of v] obtain v'
    where v': "setMatrix al kind (map inj xs) ds v = (Inr OpcUa_Good, v')" "array_of kind (map inj xs) ds v'" by blast
  have same: "map (\<lambda>x. if overlayable kind then x else received x) (map inj xs) = map inj xs" using x by auto
  from array_of_transported [OF assms(1) v'(2), of et de] obtain w where "transported al et de v' w" "array_of kind (map inj xs) ds w"
    using assms(2-7) len(2) x unfolding same by auto
  then show ?thesis using v'(1) toMatrix_ok [OF _ assms(2,3), of w T "fst out" "snd out"] by (auto simp: crosses_def assms(9,10))
qed

end



text \<open>C21 (roundtrip). Arrays of the eleven simple types, of any length the format can express, arrive as they were stored, bit by bit.\<close>

theorem arrays_cross_the_wire:
  assumes "mem_ok al" "\<forall>n\<in>set [length b, length i8, length u8, length i16, length u16, length i32, length u32, length i64, length u64, length f, length d]. int n \<le> INT32_MAX"
  shows "crosses al et de () (UaVariant_setBoolArray al b False) UaVariant_toBoolArray v out_b b
    \<and> crosses al et de () (UaVariant_setSByteArray al i8 False) UaVariant_toSByteArray v out_i8 i8
    \<and> crosses al et de () (UaVariant_setByteArray al u8 False) UaVariant_toByteArray v out_u8 u8
    \<and> crosses al et de () (UaVariant_setInt16Array al i16 False) UaVariant_toInt16Array v out_i16 i16
    \<and> crosses al et de () (UaVariant_setUInt16Array al u16 False) UaVariant_toUInt16Array v out_u16 u16
    \<and> crosses al et de () (UaVariant_setInt32Array al i32 False) UaVariant_toInt32Array v out_i32 i32
    \<and> crosses al et de () (UaVariant_setUInt32Array al u32 False) UaVariant_toUInt32Array v out_u32 u32
    \<and> crosses al et de () (UaVariant_setInt64Array al i64 False) UaVariant_toInt64Array v out_i64 i64
    \<and> crosses al et de () (UaVariant_setUInt64Array al u64 False) UaVariant_toUInt64Array v out_u64 u64
    \<and> crosses al et de () (UaVariant_setFloatArray al f False) UaVariant_toFloatArray v out_f f
    \<and> crosses al et de () (UaVariant_setDoubleArray al d False) UaVariant_toDoubleArray v out_d d"
  using assms
  by (intro conjI)
     ((rule bool_t.array_crosses [where T = False]; simp add: UaVariant_setBoolArray_def UaVariant_toBoolArray_def overlayable_def),
      (rule sbyte_t.array_crosses [where T = 0]; simp add: UaVariant_setSByteArray_def UaVariant_toSByteArray_def overlayable_def),
      (rule byte_t.array_crosses [where T = 0]; simp add: UaVariant_setByteArray_def UaVariant_toByteArray_def overlayable_def),
      (rule int16_t.array_crosses [where T = 0]; simp add: UaVariant_setInt16Array_def UaVariant_toInt16Array_def overlayable_def),
      (rule uint16_t.array_crosses [where T = 0]; simp add: UaVariant_setUInt16Array_def UaVariant_toUInt16Array_def overlayable_def),
      (rule int32_t.array_crosses [where T = 0]; simp add: UaVariant_setInt32Array_def UaVariant_toInt32Array_def overlayable_def),
      (rule uint32_t.array_crosses [where T = 0]; simp add: UaVariant_setUInt32Array_def UaVariant_toUInt32Array_def overlayable_def),
      (rule int64_t.array_crosses [where T = 0]; simp add: UaVariant_setInt64Array_def UaVariant_toInt64Array_def overlayable_def),
      (rule uint64_t.array_crosses [where T = 0]; simp add: UaVariant_setUInt64Array_def UaVariant_toUInt64Array_def overlayable_def),
      (rule float_t.array_crosses [where T = 0]; simp add: UaVariant_setFloatArray_def UaVariant_toFloatArray_def overlayable_def),
      (rule double_t.array_crosses [where T = 0]; simp add: UaVariant_setDoubleArray_def UaVariant_toDoubleArray_def overlayable_def))

theorem arrays_cross_the_wire_witness:
  "crosses enough_memory no_encoders no_decoders () (UaVariant_setFloatArray enough_memory [0x7f800001, 1] False) UaVariant_toFloatArray UA_Variant_init [] [0x7f800001, 1]"
  using arrays_cross_the_wire [OF mem_ok_enough, of "[]" "[]" "[]" "[]" "[]" "[]" "[]" "[]" "[]" "[0x7f800001, 1]" "[]"]
  by (simp add: INT32_MAX_def)

text \<open>C22 (roundtrip). Matrices of the eleven simple types: elements and dimensions arrive as they were stored.\<close>

theorem matrices_cross_the_wire:
  assumes "mem_ok al" "ds \<noteq> []" "int (length ds) \<le> INT32_MAX"
    and "\<forall>n\<in>set [length b, length i8, length u8, length i16, length u16, length i32, length u32, length i64, length u64, length f, length d]. valid_dimensions n ds"
  shows "crosses al et de OpcUa_Good (UaVariant_setBoolMatrix al b ds False) UaVariant_toBoolMatrix v out_b (b, ds)
    \<and> crosses al et de OpcUa_Good (UaVariant_setSByteMatrix al i8 ds False) UaVariant_toSByteMatrix v out_i8 (i8, ds)
    \<and> crosses al et de OpcUa_Good (UaVariant_setByteMatrix al u8 ds) UaVariant_toByteMatrix v out_u8 (u8, ds)
    \<and> crosses al et de OpcUa_Good (UaVariant_setInt16Matrix al i16 ds False) UaVariant_toInt16Matrix v out_i16 (i16, ds)
    \<and> crosses al et de OpcUa_Good (UaVariant_setUInt16Matrix al u16 ds False) UaVariant_toUInt16Matrix v out_u16 (u16, ds)
    \<and> crosses al et de OpcUa_Good (UaVariant_setInt32Matrix al i32 ds False) UaVariant_toInt32Matrix v out_i32 (i32, ds)
    \<and> crosses al et de OpcUa_Good (UaVariant_setUInt32Matrix al u32 ds False) UaVariant_toUInt32Matrix v out_u32 (u32, ds)
    \<and> crosses al et de OpcUa_Good (UaVariant_setInt64Matrix al i64 ds False) UaVariant_toInt64Matrix v out_i64 (i64, ds)
    \<and> crosses al et de OpcUa_Good (UaVariant_setUInt64Matrix al u64 ds False) UaVariant_toUInt64Matrix v out_u64 (u64, ds)
    \<and> crosses al et de OpcUa_Good (UaVariant_setFloatMatrix al f ds False) UaVariant_toFloatMatrix v out_f (f, ds)
    \<and> crosses al et de OpcUa_Good (UaVariant_setDoubleMatrix al d ds False) UaVariant_toDoubleMatrix v out_d (d, ds)"
  using assms
  by (intro conjI)
     ((rule bool_t.matrix_crosses [where T = False]; simp add: UaVariant_setBoolMatrix_def UaVariant_toBoolMatrix_def overlayable_def),
      (rule sbyte_t.matrix_crosses [where T = 0]; simp add: UaVariant_setSByteMatrix_def UaVariant_toSByteMatrix_def overlayable_def),
      (rule byte_t.matrix_crosses [where T = 0]; simp add: UaVariant_setByteMatrix_def UaVariant_toByteMatrix_def overlayable_def),
      (rule int16_t.matrix_crosses [where T = 0]; simp add: UaVariant_setInt16Matrix_def UaVariant_toInt16Matrix_def overlayable_def),
      (rule uint16_t.matrix_crosses [where T = 0]; simp add: UaVariant_setUInt16Matrix_def UaVariant_toUInt16Matrix_def overlayable_def),
      (rule int32_t.matrix_crosses [where T = 0]; simp add: UaVariant_setInt32Matrix_def UaVariant_toInt32Matrix_def overlayable_def),
      (rule uint32_t.matrix_crosses [where T = 0]; simp add: UaVariant_setUInt32Matrix_def UaVariant_toUInt32Matrix_def overlayable_def),
      (rule int64_t.matrix_crosses [where T = 0]; simp add: UaVariant_setInt64Matrix_def UaVariant_toInt64Matrix_def overlayable_def),
      (rule uint64_t.matrix_crosses [where T = 0]; simp add: UaVariant_setUInt64Matrix_def UaVariant_toUInt64Matrix_def overlayable_def),
      (rule float_t.matrix_crosses [where T = 0]; simp add: UaVariant_setFloatMatrix_def UaVariant_toFloatMatrix_def overlayable_def),
      (rule double_t.matrix_crosses [where T = 0]; simp add: UaVariant_setDoubleMatrix_def UaVariant_toDoubleMatrix_def overlayable_def))

theorem matrices_cross_the_wire_witness:
  "crosses enough_memory no_encoders no_decoders OpcUa_Good (UaVariant_setInt32Matrix enough_memory [1, 2, 3, 4, 5, 6] [2, 3] False)
     UaVariant_toInt32Matrix UA_Variant_init ([], []) ([1, 2, 3, 4, 5, 6], [2, 3])"
  using matrices_cross_the_wire [OF mem_ok_enough, of "[2, 3]" "replicate 6 True" "replicate 6 0" "replicate 6 0" "replicate 6 0" "replicate 6 0"
      "[1, 2, 3, 4, 5, 6]" "replicate 6 0" "replicate 6 0" "replicate 6 0" "replicate 6 0" "replicate 6 0"]
  by (simp add: INT32_MAX_def valid_dimensions_def)

end
