(* ===== verification/UA_Structs_Props.thy ===== *)
theory UA_Structs_Props
  imports UA_Structs UA_Wire_Props
begin

text \<open>
  The round trips of node ids, names, texts and data values. In one buffer an encoder puts its bytes where they fit, and a decoder reads a
  prefix of its input; both notions compose along the fields of a structure.
\<close>

subsection \<open>Encoders that put, decoders that read\<close>

definition puts :: "enc \<Rightarrow> byte list \<Rightarrow> bool" where
  "puts f bs \<longleftrightarrow> (\<forall>ctx. ctx_ok ctx \<longrightarrow> fits ctx (length bs) \<longrightarrow> f ctx = Inr (OpcUa_Good, stored bs ctx))"

definition reads :: "(byte list \<Rightarrow> UA_StatusCode \<times> 'a \<times> byte list) \<Rightarrow> byte list \<Rightarrow> 'a \<Rightarrow> bool" where
  "reads f bs x \<longleftrightarrow> (\<forall>tail. f (bs @ tail) = (OpcUa_Good, x, tail))"

named_theorems wires \<open>introduction rules for encoders and decoders\<close>

lemma stored_ok: "ctx_ok ctx \<Longrightarrow> fits ctx (length bs) \<Longrightarrow> ctx_ok (stored bs ctx)"
  using wrote_stored [of ctx bs] by (simp add: wrote_def)

lemma puts_emit [wires]: "puts (emit bs) bs"
  by (auto simp: puts_def emit_def fits_def split: option.splits)

lemma puts_done [wires]: "puts (give_up OpcUa_Good) []"
  by (simp add: puts_def give_up_def)

lemma puts_then [wires]: "puts f a \<Longrightarrow> puts g b \<Longrightarrow> puts (then_enc f g) (a @ b)"
  by (auto simp: puts_def then_enc_def stored_ok fits_less [of _ "length a + length b" "length a"])

lemma puts_or [wires]: "puts f a \<Longrightarrow> puts g b \<Longrightarrow> puts (or_enc f g) (a @ b)"
  by (auto simp: puts_def or_enc_def stored_ok fits_less [of _ "length a + length b" "length a"])

lemma puts_exchange: "puts f bs \<Longrightarrow> puts (encodeWithExchangeBuffer f) bs"
  by (simp add: puts_def encodeWithExchangeBuffer_def)

lemma puts_if [wires]: "(b \<Longrightarrow> puts f x) \<Longrightarrow> (\<not> b \<Longrightarrow> puts g y) \<Longrightarrow> puts (if b then f else g) (if b then x else y)"
  by simp

lemma puts_writes: "writes f bs \<Longrightarrow> puts f bs"
  unfolding writes_def puts_def
proof (intro allI impI)
  fix ctx assume w: "\<forall>ctx. ctx_ok ctx \<longrightarrow> (\<exists>c ctx'. f ctx = Inr (c, ctx') \<and>
      (c = OpcUa_Good \<and> wrote bs ctx ctx' \<or> c = OpcUa_BadEncodingLimitsExceeded \<and> refused bs ctx ctx'
        \<or> c = OpcUa_BadEncodingError \<and> starved bs ctx ctx'))" and ok: "ctx_ok ctx" "fits ctx (length bs)"
  from w ok(1) obtain c ctx' where "f ctx = Inr (c, ctx')" "c = OpcUa_Good \<and> wrote bs ctx ctx' \<or> c = OpcUa_BadEncodingLimitsExceeded \<and> refused bs ctx ctx'
        \<or> c = OpcUa_BadEncodingError \<and> starved bs ctx ctx'" by blast
  with ok(2) show "f ctx = Inr (OpcUa_Good, stored bs ctx)" by (auto simp: wrote_def refused_def starved_def room_for_def)
qed

lemma puts_strings [wires]:
  "wf_bstr s \<Longrightarrow> int (bs_length s) \<le> INT32_MAX \<Longrightarrow> puts (String_encodeBinary s) (wire_string char_byte s)"
  "wf_bstr b \<Longrightarrow> int (bs_length b) \<le> INT32_MAX \<Longrightarrow> puts (ByteString_encodeBinary b) (wire_string id b)"
  using writes_strings by (auto intro: puts_writes writes_all_writes)

lemma puts_encode_if [wires]: "puts (encode_if b bs) (if b then bs else [])"
  unfolding encode_if_def by (intro wires puts_exchange)

lemma encode_alone:
  assumes "puts f bs" "bs \<noteq> []" "mem_ok al"
  shows "UA_encodeBinary al f UA_STRING_NULL = Inr (OpcUa_Good, \<lparr>bs_length = length bs, bs_data = Heap bs\<rparr>)"
proof -
  have run: "fits ctx (length bs) \<Longrightarrow> ctx_ok ctx \<Longrightarrow> UA_encodeBinaryInternal f ctx = Inr (OpcUa_Good, stored bs ctx)" for ctx
    using puts_exchange [OF assms(1)] by (simp add: puts_def UA_encodeBinaryInternal_def)
  have "UA_calcSizeBinary f = Inr (length bs)" by (simp add: UA_calcSizeBinary_def run) (simp add: size_ctx_def)
  then show ?thesis using assms(2,3) by (simp add: UA_encodeBinary_def run buffer_memory_def)
qed

lemma reads_fixed [wires]: "length bs = n \<Longrightarrow> f bs = x \<Longrightarrow> reads (decode_fixed n f z) bs x"
  by (simp add: reads_def decode_fixed_append)

lemma reads_both [wires]: "reads f a x \<Longrightarrow> reads g b y \<Longrightarrow> reads (decode_both f g) (a @ b) (x, y)"
  by (simp add: reads_def decode_both_def)

lemma reads_if [wires]: "(c \<Longrightarrow> reads f bs x) \<Longrightarrow> reads (decode_if c f z) (if c then bs else []) (if c then x else z)"
  by (simp add: reads_def decode_if_def)

lemma reads_strings [wires]:
  "mem_ok al \<Longrightarrow> wf_bstr s \<Longrightarrow> int (bs_length s) \<le> INT32_MAX \<Longrightarrow> reads (String_decodeBinary al) (wire_string char_byte s) s"
  "mem_ok al \<Longrightarrow> wf_bstr b \<Longrightarrow> int (bs_length b) \<le> INT32_MAX \<Longrightarrow> reads (ByteString_decodeBinary al) (wire_string id b) b"
  using decode_strings by (auto simp: reads_def)

text \<open>What is encoded on one side is decoded on the other, and its size is known.\<close>

definition carried :: "allocator \<Rightarrow> enc \<Rightarrow> (byte list \<Rightarrow> UA_StatusCode \<times> 'a \<times> byte list) \<Rightarrow> 'a \<Rightarrow> 'a \<Rightarrow> nat \<Rightarrow> bool" where
  "carried al f g zero y n \<longleftrightarrow> (\<exists>b. UA_encodeBinary al f UA_STRING_NULL = Inr (OpcUa_Good, b) \<and> bs_length b = n
     \<and> (\<forall>tail. UA_decodeBinary g zero (bstr_bytes b @ tail) = (OpcUa_Good, y, n)))"

lemma carriedI: "puts f bs \<Longrightarrow> reads g bs y \<Longrightarrow> bs \<noteq> [] \<Longrightarrow> mem_ok al \<Longrightarrow> n = length bs \<Longrightarrow> carried al f g zero y n"
  using encode_alone [of f bs al] by (simp add: carried_def reads_def UA_decodeBinary_def bstr_bytes_def)

subsection \<open>Node ids\<close>

definition wire_nodeid :: "UA_NodeId \<Rightarrow> bool" where
  "wire_nodeid n \<longleftrightarrow> wf_nodeid n \<and> (case nid_identifier n of IdString s \<Rightarrow> int (bs_length s) \<le> INT32_MAX
     | IdByteString s \<Rightarrow> int (bs_length s) \<le> INT32_MAX | IdGuid g \<Rightarrow> length (data4 g) = 8 | IdNumeric i \<Rightarrow> True)"

definition wire_node_id :: "byte \<Rightarrow> UA_NodeId \<Rightarrow> byte list" where
  "wire_node_id m n = (let ns = nid_namespaceIndex n in case nid_identifier n of
      IdNumeric i \<Rightarrow> if 0xFFFF < i \<or> 0xFF < ns then [m OR 2] @ bytes_of 2 ns @ bytes_of 4 i
        else if 0xFF < i \<or> 0 < ns then [m OR 1] @ [ucast ns] @ bytes_of 2 (ucast i :: 16 word) else [m OR 0] @ [ucast i]
    | IdString s \<Rightarrow> ([m OR 3] @ bytes_of 2 ns) @ wire_string char_byte s
    | IdGuid g \<Rightarrow> [m OR 4] @ bytes_of 2 ns @ guid_mem g
    | IdByteString s \<Rightarrow> ([m OR 5] @ bytes_of 2 ns) @ wire_string id s)"

definition node_id_size :: "UA_NodeId \<Rightarrow> nat" where
  "node_id_size n = (case nid_identifier n of
      IdNumeric i \<Rightarrow> if 0xFFFF < i \<or> 0xFF < nid_namespaceIndex n then 7 else if 0xFF < i \<or> 0 < nid_namespaceIndex n then 4 else 2
    | IdString s \<Rightarrow> 7 + bs_length s | IdGuid g \<Rightarrow> 19 | IdByteString s \<Rightarrow> 7 + bs_length s)"

lemma narrow_back:
  "i \<le> 0xFF \<Longrightarrow> ucast (ucast i :: byte) = (i :: 32 word)" "ns \<le> 0xFF \<Longrightarrow> ucast (ucast ns :: byte) = (ns :: 16 word)"
  "i \<le> 0xFFFF \<Longrightarrow> ucast (ucast i :: 16 word) = (i :: 32 word)"
  by (simp_all add: word_uint_eq_iff word_le_def unsigned_ucast_eq unsigned_take_bit_eq take_bit_int_eq_self_iff)

lemma wire_string_length: "wf_bstr s \<Longrightarrow> length (wire_string f s) = 4 + bs_length s"
  using wf_bstr_length by (simp add: wire_string_def)

lemma guid_mem_back: "length (data4 g) = 8 \<Longrightarrow> length (guid_mem g) = 16 \<and> guid_of_mem (guid_mem g) = g"
  by (simp add: guid_mem_def guid_of_mem_def)

lemma guid_wires [wires]:
  assumes "length bs = 16"
  shows "puts (Guid_encodeBinary bs) bs" "reads Guid_decodeBinary bs bs"
proof -
  show "puts (Guid_encodeBinary bs) bs" by (rule puts_writes [OF writes_guid [OF assms]])
  have "take 4 bs @ take 2 (drop 4 bs) @ take 2 (drop 6 bs) @ take 8 (drop 8 bs) = bs"
    using assms append_take_drop_id [of 4 bs] append_take_drop_id [of 2 "drop 4 bs"] append_take_drop_id [of 2 "drop 6 bs"] by simp
  then show "reads Guid_decodeBinary bs bs"
    using assms by (simp add: reads_def Guid_decodeBinary_def decode_fixed_def)
qed

lemma puts_node_id:
  assumes "wire_nodeid n"
  shows "puts (NodeId_encodeBinaryWithEncodingMask n m) (wire_node_id m n)"
proof (cases "nid_identifier n")
  case (IdNumeric i)
  show ?thesis
    unfolding NodeId_encodeBinaryWithEncodingMask_def wire_node_id_def Let_def IdNumeric
    by (simp only: UA_Identifier.case) (intro wires)
next
  case (IdString s)
  then show ?thesis
    using assms unfolding NodeId_encodeBinaryWithEncodingMask_def wire_node_id_def Let_def
    by (simp only: UA_Identifier.case) (intro wires; simp add: wire_nodeid_def wf_nodeid_def)
next
  case (IdGuid g)
  then show ?thesis
    using assms unfolding NodeId_encodeBinaryWithEncodingMask_def wire_node_id_def Let_def
    by (simp only: UA_Identifier.case) (intro wires; simp add: wire_nodeid_def guid_mem_back)
next
  case (IdByteString s)
  then show ?thesis
    using assms unfolding NodeId_encodeBinaryWithEncodingMask_def wire_node_id_def Let_def
    by (simp only: UA_Identifier.case) (intro wires; simp add: wire_nodeid_def wf_nodeid_def)
qed

lemma reads_map: "reads f bs x \<Longrightarrow> reads (\<lambda>bs. decode_map h (f bs)) bs (h x)"
  by (simp add: reads_def decode_map_def)

lemma first_byte: "Byte_decodeBinary (b # bs) = (OpcUa_Good, b, bs)"
  by (simp add: decode_fixed_def)

text \<open>The first byte selects the form.\<close>

lemma node_id_form:
  assumes "m AND NOT 0xC0 = 0" "reads (\<lambda>rest. NodeId_decodeBinary al (k # rest)) bs n"
  shows "reads (NodeId_decodeBinary al) ((m OR k) # bs) n"
proof -
  have "(m OR k) AND NOT (0x40 OR 0x80) = k AND NOT (0x40 OR 0x80)"
    using assms(1) by (simp add: bit.conj_disj_distrib2)
  then have "NodeId_decodeBinary al ((m OR k) # r) = NodeId_decodeBinary al (k # r)" for r
    by (simp only: NodeId_decodeBinary_def first_byte prod.case Let_def)
  then show ?thesis using assms(2) by (simp add: reads_def)
qed

lemma nid: "nid_identifier n = h y \<Longrightarrow> node_id h (nid_namespaceIndex n, y) = n"
  by (cases n) (simp add: node_id_def)

lemma reads_node_id:
  assumes "mem_ok al" "wire_nodeid n" "m AND NOT 0xC0 = 0"
  shows "reads (NodeId_decodeBinary al) (wire_node_id m n) n"
proof -
  have form: "reads (NodeId_decodeBinary al) ([m OR k] @ bs) n" if "reads (\<lambda>rest. NodeId_decodeBinary al (k # rest)) bs n" for k bs
    using node_id_form [OF assms(3) that] by simp
  have at: "NodeId_decodeBinary al (0 # rest) = decode_map (\<lambda>i. UA_NODEID_NUMERIC 0 (ucast i)) (Byte_decodeBinary rest)"
    "NodeId_decodeBinary al (1 # rest) = decode_map (\<lambda>(ns, i). UA_NODEID_NUMERIC (ucast ns) (ucast i)) (decode_both Byte_decodeBinary UInt16_decodeBinary rest)"
    "NodeId_decodeBinary al (2 # rest) = decode_map (node_id IdNumeric) (decode_both UInt16_decodeBinary UInt32_decodeBinary rest)"
    "NodeId_decodeBinary al (3 # rest) = decode_map (node_id IdString) (decode_both UInt16_decodeBinary (String_decodeBinary al) rest)"
    "NodeId_decodeBinary al (4 # rest) = decode_map (node_id (\<lambda>m. IdGuid (guid_of_mem m))) (decode_both UInt16_decodeBinary Guid_decodeBinary rest)"
    "NodeId_decodeBinary al (5 # rest) = decode_map (node_id IdByteString) (decode_both UInt16_decodeBinary (ByteString_decodeBinary al) rest)" for rest
    by (simp_all add: NodeId_decodeBinary_def decode_fixed_def Let_def)
  have num: "nid_identifier n = IdNumeric i \<Longrightarrow> nid_namespaceIndex n = ns \<Longrightarrow> UA_NODEID_NUMERIC ns i = n" for i ns
    by (cases n) (simp add: UA_NODEID_NUMERIC_def)
  show ?thesis
  proof (cases "nid_identifier n")
    case (IdNumeric i)
    have whole: "reads (decode_both UInt16_decodeBinary UInt32_decodeBinary) (bytes_of 2 (nid_namespaceIndex n) @ bytes_of 4 i) (nid_namespaceIndex n, i)"
      and four: "reads (decode_both Byte_decodeBinary UInt16_decodeBinary) ([ucast (nid_namespaceIndex n)] @ bytes_of 2 (ucast i :: 16 word))
          (ucast (nid_namespaceIndex n), ucast i)"
      and two: "reads Byte_decodeBinary [ucast i] (ucast i)"
      by (intro wires; simp)+
    have "0xFFFF < i \<or> 0xFF < nid_namespaceIndex n \<Longrightarrow> ?thesis"
      using form [of 2] reads_map [OF whole, of "node_id IdNumeric"] IdNumeric nid [of n IdNumeric i] by (simp add: wire_node_id_def at)
    moreover have "\<not> (0xFFFF < i \<or> 0xFF < nid_namespaceIndex n) \<Longrightarrow> 0xFF < i \<or> 0 < nid_namespaceIndex n \<Longrightarrow> ?thesis"
      using form [of 1] reads_map [OF four, of "\<lambda>(ns, i). UA_NODEID_NUMERIC (ucast ns) (ucast i)"] IdNumeric num
      by (auto simp: wire_node_id_def at narrow_back not_less Let_def)
    moreover have "\<not> (0xFF < i \<or> 0 < nid_namespaceIndex n) \<Longrightarrow> \<not> (0xFFFF < i \<or> 0xFF < nid_namespaceIndex n) \<Longrightarrow> ?thesis"
      using form [of 0] reads_map [OF two, of "\<lambda>i. UA_NODEID_NUMERIC 0 (ucast i)"] IdNumeric num
      by (auto simp: wire_node_id_def at narrow_back not_less Let_def)
    ultimately show ?thesis by blast
  next
    case (IdString s)
    have "reads (decode_both UInt16_decodeBinary (String_decodeBinary al)) (bytes_of 2 (nid_namespaceIndex n) @ wire_string char_byte s) (nid_namespaceIndex n, s)"
      using assms(1,2) IdString by (intro wires) (simp_all add: wire_nodeid_def wf_nodeid_def)
    from reads_map [OF this, of "node_id IdString"] show ?thesis
      using form [of 3] IdString nid [of n IdString s] by (simp add: wire_node_id_def at)
  next
    case (IdGuid g)
    have g: "length (guid_mem g) = 16" "guid_of_mem (guid_mem g) = g" using assms(2) IdGuid guid_mem_back by (auto simp: wire_nodeid_def)
    have "reads (decode_both UInt16_decodeBinary Guid_decodeBinary) (bytes_of 2 (nid_namespaceIndex n) @ guid_mem g) (nid_namespaceIndex n, guid_mem g)"
      using g by (intro wires) simp_all
    from reads_map [OF this, of "node_id (\<lambda>m. IdGuid (guid_of_mem m))"] show ?thesis
      using form [of 4] IdGuid nid [of n "\<lambda>m. IdGuid (guid_of_mem m)" "guid_mem g"] g by (simp add: wire_node_id_def at)
  next
    case (IdByteString s)
    have "reads (decode_both UInt16_decodeBinary (ByteString_decodeBinary al)) (bytes_of 2 (nid_namespaceIndex n) @ wire_string id s) (nid_namespaceIndex n, s)"
      using assms(1,2) IdByteString by (intro wires) (simp_all add: wire_nodeid_def wf_nodeid_def)
    from reads_map [OF this, of "node_id IdByteString"] show ?thesis
      using form [of 5] IdByteString nid [of n IdByteString s] by (simp add: wire_node_id_def at)
  qed
qed

subsection \<open>Expanded node ids, names and texts\<close>

definition wire_expanded :: "UA_ExpandedNodeId \<Rightarrow> bool" where
  "wire_expanded e \<longleftrightarrow> wire_nodeid (en_nodeId e) \<and> wf_bstr (en_namespaceUri e) \<and> int (bs_length (en_namespaceUri e)) \<le> INT32_MAX"

definition received_expanded :: "UA_ExpandedNodeId \<Rightarrow> UA_ExpandedNodeId" where
  "received_expanded e = (if is_heap (bs_data (en_namespaceUri e)) then e\<lparr>en_nodeId := (en_nodeId e)\<lparr>nid_namespaceIndex := 0\<rparr>\<rparr>
     else e\<lparr>en_namespaceUri := UA_STRING_NULL\<rparr>)"

definition expanded_size :: "UA_ExpandedNodeId \<Rightarrow> nat" where
  "expanded_size e = node_id_size (en_nodeId e) + (if is_heap (bs_data (en_namespaceUri e)) then 4 + bs_length (en_namespaceUri e) else 0)
     + (if 0 < en_serverIndex e then 4 else 0)"

lemma node_id_length: "wire_nodeid n \<Longrightarrow> length (wire_node_id m n) = node_id_size n"
  by (cases "nid_identifier n")
     (simp_all add: wire_node_id_def node_id_size_def Let_def wire_nodeid_def wf_nodeid_def wire_string_length guid_mem_back)

lemma node_id_head: "\<exists>k\<in>{0, 1, 2, 3, 4, 5}. \<exists>bs. wire_node_id m n = (m OR k) # bs"
  by (cases "nid_identifier n") (auto simp: wire_node_id_def Let_def)

lemma expanded_mask_bits: "expanded_mask e AND NOT 0xC0 = 0" "expanded_mask e AND 0x80 \<noteq> 0 \<longleftrightarrow> is_heap (bs_data (en_namespaceUri e))"
    "expanded_mask e AND 0x40 \<noteq> 0 \<longleftrightarrow> 0 < en_serverIndex e"
  by (simp_all add: expanded_mask_def)

lemma expanded_carried:
  assumes "mem_ok al" "wire_expanded e"
  shows "carried al (ExpandedNodeId_encodeBinary e) (ExpandedNodeId_decodeBinary al) zero (received_expanded e) (expanded_size e)"
proof -
  let ?m = "expanded_mask e" and ?uri = "en_namespaceUri e" and ?i = "en_serverIndex e"
  let ?rest = "(if is_heap (bs_data ?uri) then wire_string char_byte ?uri else []) @ (if 0 < ?i then bytes_of 4 ?i else [])"
  let ?bs = "wire_node_id ?m (en_nodeId e) @ ?rest"
  have ok: "wire_nodeid (en_nodeId e)" "wf_bstr ?uri" "int (bs_length ?uri) \<le> INT32_MAX" using assms(2) by (simp_all add: wire_expanded_def)
  obtain k bs where head: "wire_node_id ?m (en_nodeId e) = (?m OR k) # bs" "k \<in> {0, 1, 2, 3, 4, 5}" using node_id_head [of ?m "en_nodeId e"] by blast
  have "puts (ExpandedNodeId_encodeBinary e) ?bs"
    unfolding ExpandedNodeId_encodeBinary_def by (intro wires puts_node_id puts_exchange ok)
  moreover have "reads (ExpandedNodeId_decodeBinary al) ?bs (received_expanded e)"
  proof -
    have k: "k AND 0x80 = 0" "k AND 0x40 = 0" using head(2) by auto
    have bits: "(?m OR k) AND 0x80 \<noteq> 0 \<longleftrightarrow> is_heap (bs_data ?uri)" "(?m OR k) AND 0x40 \<noteq> 0 \<longleftrightarrow> 0 < ?i"
      using expanded_mask_bits(2,3) [of e] k by (simp_all add: bit.conj_disj_distrib2)
    have "reads (decode_both (NodeId_decodeBinary al) (decode_both (decode_if (is_heap (bs_data ?uri)) (String_decodeBinary al) UA_STRING_NULL)
        (decode_if (0 < ?i) UInt32_decodeBinary 0))) ?bs (en_nodeId e, if is_heap (bs_data ?uri) then ?uri else UA_STRING_NULL, if 0 < ?i then ?i else 0)"
      by (intro wires reads_node_id assms(1) ok expanded_mask_bits) simp_all
    moreover have "(if 0 < ?i then ?i else 0) = ?i" by (simp add: word_gt_0)
    moreover have "received_expanded e = \<lparr>en_nodeId = if is_heap (bs_data ?uri) then (en_nodeId e)\<lparr>nid_namespaceIndex := 0\<rparr> else en_nodeId e,
        en_namespaceUri = if is_heap (bs_data ?uri) then ?uri else UA_STRING_NULL, en_serverIndex = ?i\<rparr>"
      by (cases e) (simp add: received_expanded_def)
    ultimately show ?thesis
      by (simp add: reads_def ExpandedNodeId_decodeBinary_def head(1) bits decode_map_def)
  qed
  moreover have "?bs \<noteq> []" by (simp add: head)
  moreover have "expanded_size e = length ?bs" using ok by (simp add: expanded_size_def node_id_length wire_string_length)
  ultimately show ?thesis using assms(1) by (intro carriedI)
qed

lemma node_id_carried:
  assumes "mem_ok al" "wire_nodeid n"
  shows "carried al (NodeId_encodeBinary n) (NodeId_decodeBinary al) zero n (node_id_size n)"
  unfolding NodeId_encodeBinary_def
  using node_id_head [of 0 n]
  by (intro carriedI [OF puts_node_id reads_node_id]) (auto simp: assms node_id_length)

lemma name_carried:
  assumes "mem_ok al" "wf_bstr (qn_name q)" "int (bs_length (qn_name q)) \<le> INT32_MAX"
  shows "carried al (QualifiedName_encodeBinary q) (QualifiedName_decodeBinary al) zero q (6 + bs_length (qn_name q))"
proof (rule carriedI)
  show "puts (QualifiedName_encodeBinary q) (bytes_of 2 (qn_namespaceIndex q) @ wire_string char_byte (qn_name q))"
    unfolding QualifiedName_encodeBinary_def by (intro wires assms)
  have "reads (decode_both UInt16_decodeBinary (String_decodeBinary al)) (bytes_of 2 (qn_namespaceIndex q) @ wire_string char_byte (qn_name q))
      (qn_namespaceIndex q, qn_name q)"
    by (intro wires assms) simp_all
  then show "reads (QualifiedName_decodeBinary al) (bytes_of 2 (qn_namespaceIndex q) @ wire_string char_byte (qn_name q)) q"
    by (simp add: reads_def QualifiedName_decodeBinary_def decode_map_def)
qed (use assms wire_string_length [of "qn_name q" char_byte] in \<open>auto simp: wire_string_length\<close>)

lemma text_mask_bits: "text_mask t AND 0x01 \<noteq> 0 \<longleftrightarrow> bs_data (tx_locale t) \<noteq> Null" "text_mask t AND 0x02 \<noteq> 0 \<longleftrightarrow> bs_data (tx_text t) \<noteq> Null"
  by (simp_all add: text_mask_def)

lemma null_string: "wf_bstr s \<Longrightarrow> bs_data s = Null \<Longrightarrow> s = UA_STRING_NULL"
  by (cases s) (simp add: wf_bstr_def UA_STRING_NULL_def)

definition text_size :: "UA_LocalizedText \<Rightarrow> nat" where
  "text_size t = 1 + (if bs_data (tx_locale t) \<noteq> Null then 4 + bs_length (tx_locale t) else 0)
     + (if bs_data (tx_text t) \<noteq> Null then 4 + bs_length (tx_text t) else 0)"

lemma text_carried:
  assumes "mem_ok al" "wf_bstr (tx_locale t)" "wf_bstr (tx_text t)" "int (bs_length (tx_locale t)) \<le> INT32_MAX" "int (bs_length (tx_text t)) \<le> INT32_MAX"
  shows "carried al (LocalizedText_encodeBinary t) (LocalizedText_decodeBinary al) zero t (text_size t)"
proof (rule carriedI)
  let ?rest = "(if bs_data (tx_locale t) \<noteq> Null then wire_string char_byte (tx_locale t) else [])
      @ (if bs_data (tx_text t) \<noteq> Null then wire_string char_byte (tx_text t) else [])"
  show "puts (LocalizedText_encodeBinary t) ([text_mask t] @ ?rest)"
    unfolding LocalizedText_encodeBinary_def by (intro wires assms)
  have "reads (decode_both (decode_if (bs_data (tx_locale t) \<noteq> Null) (String_decodeBinary al) UA_STRING_NULL)
      (decode_if (bs_data (tx_text t) \<noteq> Null) (String_decodeBinary al) UA_STRING_NULL)) ?rest
      (if bs_data (tx_locale t) \<noteq> Null then tx_locale t else UA_STRING_NULL, if bs_data (tx_text t) \<noteq> Null then tx_text t else UA_STRING_NULL)"
    by (intro wires assms)
  moreover have "(if bs_data (tx_locale t) \<noteq> Null then tx_locale t else UA_STRING_NULL) = tx_locale t"
    "(if bs_data (tx_text t) \<noteq> Null then tx_text t else UA_STRING_NULL) = tx_text t"
    using null_string [OF assms(2)] null_string [OF assms(3)] by auto
  ultimately show "reads (LocalizedText_decodeBinary al) ([text_mask t] @ ?rest) t"
    by (simp add: reads_def LocalizedText_decodeBinary_def first_byte text_mask_bits del: One_nat_def)
qed (use assms in \<open>simp_all add: text_size_def wire_string_length\<close>)

subsection \<open>Data values\<close>

definition wire_datavalue :: "UA_DataValue \<Rightarrow> bool" where
  "wire_datavalue d \<longleftrightarrow> (dv_hasValue d \<longrightarrow> encodable_variant (dv_value d))
     \<and> - (2 ^ 63) \<le> dv_sourceTimestamp d \<and> dv_sourceTimestamp d < 2 ^ 63 \<and> - (2 ^ 63) \<le> dv_serverTimestamp d \<and> dv_serverTimestamp d < 2 ^ 63"

definition clamp_pico :: "16 word \<Rightarrow> 16 word" where
  "clamp_pico p = (if MAX_PICO_SECONDS < p then MAX_PICO_SECONDS else p)"

text \<open>What is not flagged is not sent; the variant inside arrives as any variant.\<close>

definition received_datavalue :: "UA_DataValue \<Rightarrow> UA_DataValue" where
  "received_datavalue d = d\<lparr>
     dv_value := if dv_hasValue d then received_variant (dv_value d) else UA_Variant_init,
     dv_sourceTimestamp := if dv_hasSourceTimestamp d then dv_sourceTimestamp d else 0,
     dv_serverTimestamp := if dv_hasServerTimestamp d then dv_serverTimestamp d else 0,
     dv_sourcePicoseconds := if dv_hasSourcePicoseconds d then clamp_pico (dv_sourcePicoseconds d) else 0,
     dv_serverPicoseconds := if dv_hasServerPicoseconds d then clamp_pico (dv_serverPicoseconds d) else 0,
     dv_status := if dv_hasStatus d then dv_status d else 0\<rparr>"

definition wire_rest :: "UA_DataValue \<Rightarrow> byte list" where
  "wire_rest d = (if dv_hasStatus d then bytes_of 4 (dv_status d) else [])
     @ (if dv_hasSourceTimestamp d then bytes_of 8 (word_of_int (dv_sourceTimestamp d) :: 64 word) else [])
     @ (if dv_hasSourcePicoseconds d then bytes_of 2 (dv_sourcePicoseconds d) else [])
     @ (if dv_hasServerTimestamp d then bytes_of 8 (word_of_int (dv_serverTimestamp d) :: 64 word) else [])
     @ (if dv_hasServerPicoseconds d then bytes_of 2 (dv_serverPicoseconds d) else [])"

definition datavalue_size :: "UA_DataValue \<Rightarrow> nat" where
  "datavalue_size d = 1 + (if dv_hasValue d then length (wire_variant (dv_value d)) else 0) + (if dv_hasStatus d then 4 else 0)
     + (if dv_hasSourceTimestamp d then 8 else 0) + (if dv_hasSourcePicoseconds d then 2 else 0)
     + (if dv_hasServerTimestamp d then 8 else 0) + (if dv_hasServerPicoseconds d then 2 else 0)"

lemma value_mask_bits:
  "value_mask d AND 0x01 \<noteq> 0 \<longleftrightarrow> dv_hasValue d" "value_mask d AND 0x02 \<noteq> 0 \<longleftrightarrow> dv_hasStatus d"
  "value_mask d AND 0x04 \<noteq> 0 \<longleftrightarrow> dv_hasSourceTimestamp d" "value_mask d AND 0x08 \<noteq> 0 \<longleftrightarrow> dv_hasServerTimestamp d"
  "value_mask d AND 0x10 \<noteq> 0 \<longleftrightarrow> dv_hasSourcePicoseconds d" "value_mask d AND 0x20 \<noteq> 0 \<longleftrightarrow> dv_hasServerPicoseconds d"
  by (cases "dv_hasValue d"; cases "dv_hasStatus d"; cases "dv_hasSourceTimestamp d"; cases "dv_hasServerTimestamp d";
      cases "dv_hasSourcePicoseconds d"; cases "dv_hasServerPicoseconds d"; simp add: value_mask_def)+

lemma datavalue_puts:
  assumes "wire_datavalue d"
  shows "puts (DataValue_encodeBinary et d) ([value_mask d] @ (if dv_hasValue d then wire_variant (dv_value d) else []) @ wire_rest d)"
proof -
  have "dv_hasValue d \<Longrightarrow> puts (Variant_encodeBinary et (dv_value d)) (wire_variant (dv_value d))"
    using assms encoder_writes(2) by (intro puts_writes) (simp add: wire_datavalue_def)
  then show ?thesis unfolding DataValue_encodeBinary_def wire_rest_def by (intro wires)
qed

lemma datavalue_rest_reads:
  "reads (decode_both (decode_if (dv_hasStatus d) UInt32_decodeBinary 0)
     (decode_both (decode_if (dv_hasSourceTimestamp d) UInt64_decodeBinary 0)
     (decode_both (decode_if (dv_hasSourcePicoseconds d) UInt16_decodeBinary 0)
     (decode_both (decode_if (dv_hasServerTimestamp d) UInt64_decodeBinary 0)
       (decode_if (dv_hasServerPicoseconds d) UInt16_decodeBinary 0)))))
     (wire_rest d)
     (if dv_hasStatus d then dv_status d else 0, if dv_hasSourceTimestamp d then word_of_int (dv_sourceTimestamp d) else 0,
      if dv_hasSourcePicoseconds d then dv_sourcePicoseconds d else 0, if dv_hasServerTimestamp d then word_of_int (dv_serverTimestamp d) else 0,
      if dv_hasServerPicoseconds d then dv_serverPicoseconds d else 0)"
  unfolding wire_rest_def by (intro wires) simp_all

lemma datavalue_carried:
  assumes "mem_ok al" "wire_datavalue d" "dv_hasValue d \<Longrightarrow> decodable_variant 1 (dv_value d)"
  shows "carried al (DataValue_encodeBinary et d) (DataValue_decodeBinary de al 0) zero (received_datavalue d) (datavalue_size d)"
proof (rule carriedI [OF datavalue_puts [OF assms(2)]])
  have v: "dv_hasValue d \<Longrightarrow> reads (Variant_decodeBinary de al (Suc 0)) (wire_variant (dv_value d)) (received_variant (dv_value d))"
    using assms decoder_reads(2) [OF assms(1), of "dv_value d" "Suc 0" de] by (simp add: reads_def wire_datavalue_def)
  have t: "- (2 ^ 63) \<le> i \<Longrightarrow> i < 2 ^ 63 \<Longrightarrow> sint (word_of_int i :: 64 word) = i" for i
    by (simp add: sint_sbintrunc' signed_take_bit_int_eq_self_iff)
  have "received_datavalue d = \<lparr>dv_value = if dv_hasValue d then received_variant (dv_value d) else UA_Variant_init,
     dv_sourceTimestamp = sint (if dv_hasSourceTimestamp d then word_of_int (dv_sourceTimestamp d) else 0 :: 64 word),
     dv_serverTimestamp = sint (if dv_hasServerTimestamp d then word_of_int (dv_serverTimestamp d) else 0 :: 64 word),
     dv_sourcePicoseconds = clamp_pico (if dv_hasSourcePicoseconds d then dv_sourcePicoseconds d else 0),
     dv_serverPicoseconds = clamp_pico (if dv_hasServerPicoseconds d then dv_serverPicoseconds d else 0),
     dv_status = if dv_hasStatus d then dv_status d else 0, dv_hasValue = dv_hasValue d, dv_hasStatus = dv_hasStatus d,
     dv_hasSourceTimestamp = dv_hasSourceTimestamp d, dv_hasServerTimestamp = dv_hasServerTimestamp d,
     dv_hasSourcePicoseconds = dv_hasSourcePicoseconds d, dv_hasServerPicoseconds = dv_hasServerPicoseconds d\<rparr>"
    using assms(2) t by (cases d) (simp add: received_datavalue_def wire_datavalue_def clamp_pico_def MAX_PICO_SECONDS_def)
  with reads_both [OF reads_if [OF v] datavalue_rest_reads]
  show "reads (DataValue_decodeBinary de al 0) ([value_mask d] @ (if dv_hasValue d then wire_variant (dv_value d) else []) @ wire_rest d) (received_datavalue d)"
    by (simp add: reads_def DataValue_decodeBinary_def first_byte value_mask_bits decode_map_def clamp_pico_def del: One_nat_def)
qed (use assms(1) in \<open>simp_all add: datavalue_size_def wire_rest_def\<close>)

subsection \<open>The properties\<close>

text \<open>C20 (roundtrip). Identifiers and texts keep their value across the wire and have the size the format promises: a numeric node id takes
  two, four or seven bytes, the least that holds it. A node id with a namespace URI is the exception: it arrives without its
  namespace index. (The URI has the bytes it had; an empty one is not sent and arrives as the null string.)\<close>

theorem identifiers_cross_the_wire:
  assumes "mem_ok al" "wire_nodeid n" "wire_expanded e"
    and "\<forall>s\<in>{qn_name q, tx_locale t, tx_text t}. wf_bstr s \<and> int (bs_length s) \<le> INT32_MAX"
  shows "carried al (NodeId_encodeBinary n) (NodeId_decodeBinary al) zero_n n (node_id_size n)
    \<and> carried al (ExpandedNodeId_encodeBinary e) (ExpandedNodeId_decodeBinary al) zero_e (received_expanded e) (expanded_size e)
    \<and> carried al (QualifiedName_encodeBinary q) (QualifiedName_decodeBinary al) zero_q q (6 + bs_length (qn_name q))
    \<and> carried al (LocalizedText_encodeBinary t) (LocalizedText_decodeBinary al) zero_t t (text_size t)"
  using assms by (intro conjI node_id_carried expanded_carried name_carried text_carried) simp_all

theorem identifiers_cross_the_wire_witness:
  "carried enough_memory (NodeId_encodeBinary (UA_NODEID_NUMERIC 2 1000)) (NodeId_decodeBinary enough_memory) UA_NodeId_null (UA_NODEID_NUMERIC 2 1000) 4"
  using identifiers_cross_the_wire [OF mem_ok_enough, where n = "UA_NODEID_NUMERIC 2 1000"
      and e = "\<lparr>en_nodeId = UA_NodeId_null, en_namespaceUri = UA_STRING_NULL, en_serverIndex = 0\<rparr>"
      and q = "\<lparr>qn_namespaceIndex = 0, qn_name = UA_STRING_NULL\<rparr>" and t = "\<lparr>tx_locale = UA_STRING_NULL, tx_text = UA_STRING_NULL\<rparr>"
      and zero_n = UA_NodeId_null]
  by (simp add: wire_nodeid_def wire_expanded_def wf_nodeid_def node_id_size_def UA_NODEID_NUMERIC_def UA_NodeId_null_def INT32_MAX_def
      UA_STRING_NULL_def wf_bstr_def)

lemma fst_decode_map: "fst (decode_map h r) = fst r"
  by (simp add: decode_map_def case_prod_beta)

lemma decode_both_bad: "fst (f bs) \<noteq> OpcUa_Good \<Longrightarrow> fst (decode_both f g bs) \<noteq> OpcUa_Good"
  by (auto simp: decode_both_def or_zero_word split: prod.splits)

text \<open>C19 (roundtrip). A data value arrives with its value, status, timestamps and picoseconds, each exactly when its flag says that it is there;
  picoseconds above 9999 arrive as 9999. It is refused exactly when the value inside would be refused one level deeper.\<close>

theorem datavalues_cross_the_wire:
  assumes "mem_ok al" "wire_datavalue d"
  shows "if dv_hasValue d \<longrightarrow> decodable_variant 1 (dv_value d)
    then carried al (DataValue_encodeBinary et d) (DataValue_decodeBinary de al 0) UA_DataValue_init (received_datavalue d) (datavalue_size d)
    else \<exists>b. UA_encodeBinary al (DataValue_encodeBinary et d) UA_STRING_NULL = Inr (OpcUa_Good, b) \<and> bs_length b = datavalue_size d
      \<and> (\<forall>tail. \<exists>c. c \<noteq> OpcUa_Good
          \<and> UA_decodeBinary (DataValue_decodeBinary de al 0) UA_DataValue_init (bstr_bytes b @ tail) = (c, UA_DataValue_init, 0))"
proof (cases "dv_hasValue d \<longrightarrow> decodable_variant 1 (dv_value d)")
  case True
  then show ?thesis using datavalue_carried [OF assms, of et de UA_DataValue_init] by simp
next
  case False
  then have has: "dv_hasValue d" "\<not> decodable_variant (Suc 0) (dv_value d)" "encodable_variant (dv_value d)"
    using assms(2) by (simp_all add: wire_datavalue_def)
  let ?bs = "[value_mask d] @ wire_variant (dv_value d) @ wire_rest d"
  have "UA_encodeBinary al (DataValue_encodeBinary et d) UA_STRING_NULL = Inr (OpcUa_Good, \<lparr>bs_length = length ?bs, bs_data = Heap ?bs\<rparr>)"
    using encode_alone [OF datavalue_puts [OF assms(2), of et] _ assms(1)] has(1) by simp
  moreover have "length ?bs = datavalue_size d" using has(1) by (simp add: datavalue_size_def wire_rest_def)
  moreover have "fst (DataValue_decodeBinary de al 0 (?bs @ tail)) \<noteq> OpcUa_Good" for tail
  proof -
    have "fst (decode_if True (Variant_decodeBinary de al (Suc 0)) UA_Variant_init (wire_variant (dv_value d) @ wire_rest d @ tail)) \<noteq> OpcUa_Good"
      using decoder_refuses(2) [OF assms(1) has(3,2)] by (simp add: decode_if_def)
    from decode_both_bad [of "decode_if True (Variant_decodeBinary de al (Suc 0)) UA_Variant_init" "wire_variant (dv_value d) @ wire_rest d @ tail", OF this]
    show ?thesis
      using has(1) by (simp add: DataValue_decodeBinary_def first_byte value_mask_bits fst_decode_map del: One_nat_def)
  qed
  ultimately show ?thesis using False
    by (auto simp: UA_decodeBinary_def bstr_bytes_def split: prod.splits) (metis fst_conv)+
qed

theorem datavalues_cross_the_wire_witness:
  "carried enough_memory (DataValue_encodeBinary no_encoders (UA_DataValue_init\<lparr>dv_hasSourcePicoseconds := True, dv_sourcePicoseconds := 20000\<rparr>))
     (DataValue_decodeBinary no_decoders enough_memory 0) UA_DataValue_init
     (UA_DataValue_init\<lparr>dv_hasSourcePicoseconds := True, dv_sourcePicoseconds := 9999\<rparr>) 3"
  using datavalues_cross_the_wire [OF mem_ok_enough,
      where d = "UA_DataValue_init\<lparr>dv_hasSourcePicoseconds := True, dv_sourcePicoseconds := 20000\<rparr>" and et = no_encoders and de = no_decoders]
  by (simp add: wire_datavalue_def UA_DataValue_init_def received_datavalue_def datavalue_size_def clamp_pico_def MAX_PICO_SECONDS_def numeral_3_eq_3)

end
