(* ===== verification/UA_AsyncManager.thy ===== *)
theory UA_AsyncManager
  imports AsyncOps
begin

text \<open>
  The stack's manager of asynchronous operations (\<open>ua_server_async.c\<close> of the amalgamation), which the wrapper's
  registry works against. Operations are identified by the address of their structure, responses by theirs. All functions
  run under the server's lock. Functions of the application that the manager calls are effects in a log, and do not
  call back into the manager; what the operations themselves do is a parameter of the services.
\<close>

subsection \<open>Operations and responses\<close>

datatype UA_AsyncOperationType = CALL_REQUEST | READ_REQUEST | WRITE_REQUEST | CALL_DIRECT | READ_DIRECT | WRITE_DIRECT

definition direct :: "UA_AsyncOperationType \<Rightarrow> bool" where
  "direct t \<longleftrightarrow> t = CALL_DIRECT \<or> t = READ_DIRECT \<or> t = WRITE_DIRECT"

text \<open>The union \<open>handling\<close>: a response, or timeout and context of the callback.\<close>

datatype op_handling = OfResponse nat | OfCallback int nat

text \<open>
  \<open>op_output\<close> is the address of the output, in the response or in the operation, \<open>op_arguments\<close> the array of output
  arguments of a call. The write value has the address of the operation. \<open>op_status\<close> is the status the manager wrote to the
  output, if it did.
\<close>

record UA_AsyncOperation =
  op_addr :: nat
  asyncOperationType :: UA_AsyncOperationType
  op_handling :: op_handling
  op_output :: nat
  op_arguments :: nat
  op_status :: "UA_StatusCode option"

record UA_AsyncResponse =
  ar_addr :: nat
  ar_requestId :: "32 word"
  ar_requestHandle :: "32 word"
  ar_timeout :: int
  ar_sessionId :: UA_NodeId
  ar_opCountdown :: nat
  ar_serviceResult :: UA_StatusCode

text \<open>
  What the rest of the program sees. The application deferred, answered, or was told to forget the operation with
  this pointer; a request of a session was left waiting, its response handed to the channel (\<open>sendResponse\<close>) or dropped; the
  result of a direct operation was delivered.
\<close>

datatype effect =
    Postponed nat
  | ResultSet nat
  | CancelCallback nat
  | RequestWaits "32 word" UA_NodeId
  | ResponseSent UA_AsyncResponse
  | ResponseDropped UA_AsyncResponse
  | DirectStarted nat
  | DirectCallback UA_AsyncOperation

text \<open>\<open>am_dc\<close>: whether the delayed callback of the event loop is registered.\<close>

record UA_AsyncManager =
  am_waitingResponses :: "UA_AsyncResponse list"
  am_readyResponses :: "UA_AsyncResponse list"
  am_waitingOps :: "UA_AsyncOperation list"
  am_readyOps :: "UA_AsyncOperation list"
  am_opsCount :: nat
  am_dc :: bool
  am_log :: "effect list"

definition UA_AsyncManager_init :: UA_AsyncManager where
  "UA_AsyncManager_init = \<lparr>am_waitingResponses = [], am_readyResponses = [], am_waitingOps = [], am_readyOps = [],
     am_opsCount = 0, am_dc = False, am_log = []\<rparr>"

definition logged :: "effect list \<Rightarrow> UA_AsyncManager \<Rightarrow> UA_AsyncManager" where
  "logged es am = am\<lparr>am_log := am_log am @ es\<rparr>"

subsection \<open>Cancelling and integrating results\<close>

definition cancelPtr :: "UA_AsyncOperation \<Rightarrow> nat" where
  "cancelPtr op = (case asyncOperationType op of
      READ_REQUEST \<Rightarrow> op_output op | READ_DIRECT \<Rightarrow> op_output op
    | WRITE_REQUEST \<Rightarrow> op_addr op | WRITE_DIRECT \<Rightarrow> op_addr op
    | CALL_REQUEST \<Rightarrow> op_arguments op | CALL_DIRECT \<Rightarrow> op_arguments op)"

definition with_status :: "UA_StatusCode \<Rightarrow> UA_AsyncOperation \<Rightarrow> UA_AsyncOperation" where
  "with_status opstatus op = op\<lparr>op_status := Some opstatus\<rparr>"

text \<open>The operation itself is not removed; the callers do that with the updated one.\<close>

definition UA_AsyncOperation_cancel :: "UA_AsyncOperation \<Rightarrow> UA_AsyncManager \<Rightarrow> UA_AsyncManager" where
  "UA_AsyncOperation_cancel op am = logged [CancelCallback (cancelPtr op)] am"

definition remove_op :: "UA_AsyncOperation \<Rightarrow> UA_AsyncOperation list \<Rightarrow> UA_AsyncOperation list" where
  "remove_op op ops = filter (\<lambda>o1. op_addr o1 \<noteq> op_addr op) ops"

definition remove_ar :: "nat \<Rightarrow> UA_AsyncResponse list \<Rightarrow> UA_AsyncResponse list" where
  "remove_ar a ars = filter (\<lambda>ar. ar_addr ar \<noteq> a) ars"

definition find_ar :: "nat \<Rightarrow> UA_AsyncManager \<Rightarrow> UA_AsyncResponse option" where
  "find_ar a am = find (\<lambda>ar. ar_addr ar = a) (am_waitingResponses am)"

definition update_ar :: "(UA_AsyncResponse \<Rightarrow> UA_AsyncResponse) \<Rightarrow> nat \<Rightarrow> UA_AsyncManager \<Rightarrow> UA_AsyncManager" where
  "update_ar f a am = am\<lparr>am_waitingResponses := map (\<lambda>ar. if ar_addr ar = a then f ar else ar) (am_waitingResponses am)\<rparr>"

definition counted :: "UA_AsyncResponse \<Rightarrow> UA_AsyncResponse" where
  "counted ar = ar\<lparr>ar_opCountdown := ar_opCountdown ar - 1\<rparr>"

text \<open>The response of a waiting operation is among the waiting responses; the other case is kept apart.\<close>

definition am_processOperationResult :: "UA_AsyncOperation \<Rightarrow> UA_AsyncManager \<Rightarrow> UA_AsyncManager" where
  "am_processOperationResult op am = (case op_handling op of
      OfCallback _ _ \<Rightarrow> am\<lparr>am_waitingOps := remove_op op (am_waitingOps am), am_readyOps := am_readyOps am @ [op], am_dc := True\<rparr>
    | OfResponse a \<Rightarrow>
        (let am1 = update_ar counted a
               (am\<lparr>am_waitingOps := remove_op op (am_waitingOps am), am_opsCount := am_opsCount am - 1\<rparr>)
         in case find_ar a am1 of
              None \<Rightarrow> am1
            | Some ar \<Rightarrow> if ar_opCountdown ar > 0 then am1
                else am1\<lparr>am_waitingResponses := remove_ar a (am_waitingResponses am1),
                       am_readyResponses := am_readyResponses am1 @ [ar], am_dc := True\<rparr>))"

text \<open>Cancel and integrate, as every caller but the full queue does.\<close>

definition cancel_op :: "UA_StatusCode \<Rightarrow> UA_AsyncOperation \<Rightarrow> UA_AsyncManager \<Rightarrow> UA_AsyncManager" where
  "cancel_op opstatus op am = am_processOperationResult (with_status opstatus op) (UA_AsyncOperation_cancel op am)"

definition op_timeout :: "UA_AsyncManager \<Rightarrow> UA_AsyncOperation \<Rightarrow> int" where
  "op_timeout am op = (case op_handling op of
      OfCallback t _ \<Rightarrow> t
    | OfResponse a \<Rightarrow> (case find_ar a am of Some ar \<Rightarrow> ar_timeout ar | None \<Rightarrow> 0))"

definition checkTimeouts :: "bool \<Rightarrow> int \<Rightarrow> UA_AsyncManager \<Rightarrow> UA_AsyncManager" where
  "checkTimeouts configured tNow am =
     (if \<not> configured then am
      else fold (\<lambda>op am. if tNow \<le> op_timeout am op then am else cancel_op OpcUa_BadTimeout op am) (am_waitingOps am) am)"

subsection \<open>Ready operations and responses\<close>

definition run_direct :: "UA_AsyncOperation \<Rightarrow> UA_AsyncManager \<Rightarrow> UA_AsyncManager" where
  "run_direct op am = logged [DirectCallback op]
     (am\<lparr>am_readyOps := remove_op op (am_readyOps am), am_opsCount := am_opsCount am - 1\<rparr>)"

text \<open>\<open>sessions\<close> says whether a session exists, and whether it has a secure channel.\<close>

definition sendAsyncResponse :: "(UA_NodeId \<Rightarrow> bool option) \<Rightarrow> UA_AsyncResponse \<Rightarrow> effect" where
  "sendAsyncResponse sessions ar = (if sessions (ar_sessionId ar) = Some True then ResponseSent ar else ResponseDropped ar)"

definition send_ready :: "(UA_NodeId \<Rightarrow> bool option) \<Rightarrow> UA_AsyncResponse \<Rightarrow> UA_AsyncManager \<Rightarrow> UA_AsyncManager" where
  "send_ready sessions ar am = logged [sendAsyncResponse sessions ar]
     (am\<lparr>am_readyResponses := remove_ar (ar_addr ar) (am_readyResponses am)\<rparr>)"

definition UA_AsyncManager_processReady :: "(UA_NodeId \<Rightarrow> bool option) \<Rightarrow> UA_AsyncManager \<Rightarrow> UA_AsyncManager" where
  "UA_AsyncManager_processReady sessions am =
     (let am1 = fold run_direct (am_readyOps am) (am\<lparr>am_dc := False\<rparr>)
      in fold (send_ready sessions) (am_readyResponses am1) am1)"

definition UA_AsyncManager_clear :: "(UA_NodeId \<Rightarrow> bool option) \<Rightarrow> UA_AsyncManager \<Rightarrow> UA_AsyncManager" where
  "UA_AsyncManager_clear sessions am =
     UA_AsyncManager_processReady sessions (fold (cancel_op OpcUa_BadShutdown) (am_waitingOps am) am)"

text \<open>
  \<open>UA_Server_delete\<close> removes every session before it clears the manager: \<open>getSessionById\<close> then finds the session of the
  administrator only, which has no channel.
\<close>

definition sessions_removed :: "UA_NodeId \<Rightarrow> UA_NodeId \<Rightarrow> bool option" where
  "sessions_removed admin sid = (if UA_NodeId_equal admin sid then Some False else None)"

definition UA_Server_delete_async :: "UA_NodeId \<Rightarrow> UA_AsyncManager \<Rightarrow> UA_AsyncManager" where
  "UA_Server_delete_async admin am = UA_AsyncManager_clear (sessions_removed admin) am"

subsection \<open>Cancelling a request, and the operations of a context\<close>

text \<open>
  The client cancels a request. The loop takes every waiting operation for part of a response: for a direct one it
  dereferences the timeout that shares the memory of the pointer.
\<close>

fun cancel_request :: "UA_NodeId \<Rightarrow> 32 word \<Rightarrow> UA_AsyncOperation list \<Rightarrow> nat \<times> UA_AsyncManager \<Rightarrow> (nat \<times> UA_AsyncManager) res" where
  "cancel_request sid requestHandle [] (count, am) = Inr (count, am)"
| "cancel_request sid requestHandle (op # ops) (count, am) = (case op_handling op of
      OfCallback _ _ \<Rightarrow> Inl (UB TypeConfusion)
    | OfResponse a \<Rightarrow> (case find_ar a am of
        None \<Rightarrow> Inl (UB UseAfterFree)
      | Some ar \<Rightarrow>
          if ar_requestHandle ar \<noteq> requestHandle \<or> \<not> UA_NodeId_equal sid (ar_sessionId ar)
          then cancel_request sid requestHandle ops (count, am)
          else cancel_request sid requestHandle ops (count + 1,
            cancel_op 0x80B30000 op (update_ar (\<lambda>ar. ar\<lparr>ar_serviceResult := 0x802C0000\<rparr>) a am))))"

definition UA_AsyncManager_cancel :: "UA_NodeId \<Rightarrow> 32 word \<Rightarrow> UA_AsyncManager \<Rightarrow> (nat \<times> UA_AsyncManager) res" where
  "UA_AsyncManager_cancel sid requestHandle am = cancel_request sid requestHandle (am_waitingOps am) (0, am)"

text \<open>The word read as the context: an operation of a request has never written it since it was zeroed.\<close>

definition op_context :: "UA_AsyncOperation \<Rightarrow> nat" where
  "op_context op = (case op_handling op of OfCallback _ c \<Rightarrow> c | OfResponse _ \<Rightarrow> 0)"

text \<open>Synchronously, the operation is called back and freed, which only a direct one may be.\<close>

fun cancel_context :: "nat \<Rightarrow> UA_StatusCode \<Rightarrow> bool \<Rightarrow> UA_AsyncOperation list \<Rightarrow> UA_AsyncManager \<Rightarrow> UA_AsyncManager res" where
  "cancel_context context opstatus cancelSynchronous [] am = Inr am"
| "cancel_context context opstatus cancelSynchronous (op # ops) am =
     (if op_context op \<noteq> context then cancel_context context opstatus cancelSynchronous ops am
      else if \<not> cancelSynchronous then cancel_context context opstatus cancelSynchronous ops (cancel_op opstatus op am)
      else if \<not> direct (asyncOperationType op) then Inl (UB TypeConfusion)
      else cancel_context context opstatus cancelSynchronous ops
        (logged [DirectCallback (with_status opstatus op)] ((UA_AsyncOperation_cancel op am)
           \<lparr>am_waitingOps := remove_op op (am_waitingOps am), am_opsCount := am_opsCount am - 1\<rparr>)))"

definition async_cancel :: "nat \<Rightarrow> UA_StatusCode \<Rightarrow> bool \<Rightarrow> UA_AsyncManager \<Rightarrow> UA_AsyncManager res" where
  "async_cancel context opstatus cancelSynchronous am =
     bind_res (cancel_context context opstatus cancelSynchronous (am_waitingOps am) am) (\<lambda>am1.
       if \<not> cancelSynchronous then Inr am1
       else Inr (fold (\<lambda>op am. if op_context op \<noteq> context then am else run_direct op am) (am_readyOps am1) am1))"

subsection \<open>The services\<close>

text \<open>What the server knows of the request; the configured timeout in intervals of 100 nanoseconds, 0 for none.\<close>

record service_context =
  maxAsyncOperationQueueSize :: nat
  asyncOperationTimeout :: int
  nowMonotonic :: int
  currentRequestId :: "32 word"
  currentRequestHandle :: "32 word"
  session_sessionId :: UA_NodeId

text \<open>An operation: where its structure and its output are, and whether it was done at once.\<close>

record op_item =
  it_addr :: nat
  it_output :: nat
  it_arguments :: nat
  it_done :: bool

definition queue_full :: "nat \<Rightarrow> UA_AsyncManager \<Rightarrow> bool" where
  "queue_full limit am \<longleftrightarrow> limit \<noteq> 0 \<and> am_opsCount am \<ge> limit"

definition new_op :: "UA_AsyncOperationType \<Rightarrow> op_handling \<Rightarrow> op_item \<Rightarrow> UA_AsyncOperation" where
  "new_op t h it = \<lparr>op_addr = it_addr it, asyncOperationType = t, op_handling = h, op_output = it_output it,
     op_arguments = it_arguments it, op_status = None\<rparr>"

text \<open>With a full queue the status is in the response already.\<close>

definition persistAsyncResponseOperation :: "nat \<Rightarrow> UA_AsyncOperation \<Rightarrow> nat \<times> UA_AsyncManager \<Rightarrow> nat \<times> UA_AsyncManager" where
  "persistAsyncResponseOperation limit op = (\<lambda>(opCountdown, am).
     if queue_full limit am then (opCountdown, UA_AsyncOperation_cancel op am)
     else (opCountdown + 1, am\<lparr>am_waitingOps := am_waitingOps am @ [op], am_opsCount := am_opsCount am + 1\<rparr>))"

fun run_operations :: "nat \<Rightarrow> UA_AsyncOperationType \<Rightarrow> nat \<Rightarrow> op_item list \<Rightarrow> nat \<times> UA_AsyncManager \<Rightarrow> nat \<times> UA_AsyncManager" where
  "run_operations limit t a [] (c, am) = (c, am)"
| "run_operations limit t a (it # its) (c, am) =
     (if it_done it then run_operations limit t a its (c, am)
      else (let op = new_op t (OfResponse a) it
            in run_operations limit t a its (persistAsyncResponseOperation limit op (c, logged [Postponed (cancelPtr op)] am))))"

definition persistAsyncResponse :: "service_context \<Rightarrow> nat \<Rightarrow> nat \<Rightarrow> UA_AsyncManager \<Rightarrow> UA_AsyncManager" where
  "persistAsyncResponse ctx a opCountdown am = logged [RequestWaits (currentRequestId ctx) (session_sessionId ctx)]
     (am\<lparr>am_waitingResponses := am_waitingResponses am @ [\<lparr>ar_addr = a, ar_requestId = currentRequestId ctx,
        ar_requestHandle = currentRequestHandle ctx,
        ar_timeout = (if asyncOperationTimeout ctx > 0 then nowMonotonic ctx + asyncOperationTimeout ctx else 9223372036854775807),
        ar_sessionId = session_sessionId ctx, ar_opCountdown = opCountdown, ar_serviceResult = OpcUa_Good\<rparr>]\<rparr>)"

text \<open>The result tells whether the response can be sent at once.\<close>

definition run_service :: "service_context \<Rightarrow> UA_AsyncOperationType \<Rightarrow> nat \<Rightarrow> op_item list \<Rightarrow> UA_AsyncManager \<Rightarrow> bool \<times> UA_AsyncManager" where
  "run_service ctx t a its am = (case run_operations (maxAsyncOperationQueueSize ctx) t a its (0, am) of
     (opCountdown, am1) \<Rightarrow> if opCountdown > 0 then (False, persistAsyncResponse ctx a opCountdown am1) else (True, am1))"

definition Service_Write :: "bool \<Rightarrow> nat \<Rightarrow> service_context \<Rightarrow> nat \<Rightarrow> op_item list \<Rightarrow> UA_AsyncManager \<Rightarrow> UA_StatusCode \<times> bool \<times> UA_AsyncManager" where
  "Service_Write calloc_ok maxNodesPerWrite ctx a nodesToWrite am =
     (if maxNodesPerWrite \<noteq> 0 \<and> length nodesToWrite > maxNodesPerWrite then (0x80100000, True, am)
      else if nodesToWrite = [] then (0x800F0000, True, am)
      else if \<not> calloc_ok then (OpcUa_BadOutOfMemory, True, am)
      else (OpcUa_Good, run_service ctx WRITE_REQUEST a nodesToWrite am))"

definition Service_Call :: "bool \<Rightarrow> nat \<Rightarrow> service_context \<Rightarrow> nat \<Rightarrow> op_item list \<Rightarrow> UA_AsyncManager \<Rightarrow> UA_StatusCode \<times> bool \<times> UA_AsyncManager" where
  "Service_Call calloc_ok maxNodesPerMethodCall ctx a methodsToCall am =
     (if maxNodesPerMethodCall \<noteq> 0 \<and> length methodsToCall > maxNodesPerMethodCall then (0x80100000, True, am)
      else if methodsToCall = [] then (0x800F0000, True, am)
      else if \<not> calloc_ok then (OpcUa_BadOutOfMemory, True, am)
      else (OpcUa_Good, run_service ctx CALL_REQUEST a methodsToCall am))"

definition Service_Read :: "bool \<Rightarrow> nat \<Rightarrow> service_context \<Rightarrow> int \<Rightarrow> int \<Rightarrow> nat \<Rightarrow> op_item list \<Rightarrow> UA_AsyncManager
    \<Rightarrow> UA_StatusCode \<times> bool \<times> UA_AsyncManager" where
  "Service_Read calloc_ok maxNodesPerRead ctx timestampsToReturn maxAge a nodesToRead am =
     (if timestampsToReturn > 3 then (0x802B0000, True, am)
      else if maxAge < 0 then (0x80700000, True, am)
      else if maxNodesPerRead \<noteq> 0 \<and> length nodesToRead > maxNodesPerRead then (0x80100000, True, am)
      else if nodesToRead = [] then (0x800F0000, True, am)
      else if \<not> calloc_ok then (OpcUa_BadOutOfMemory, True, am)
      else (OpcUa_Good, run_service ctx READ_REQUEST a nodesToRead am))"

subsection \<open>Direct operations\<close>

definition persistAsyncDirectOperation :: "nat \<Rightarrow> UA_AsyncOperation \<Rightarrow> UA_AsyncManager \<Rightarrow> UA_StatusCode \<times> UA_AsyncManager" where
  "persistAsyncDirectOperation limit op am =
     (if queue_full limit am then (0x80100000, UA_AsyncOperation_cancel op am)
      else (OpcUa_Good, logged [DirectStarted (op_addr op)]
        (am\<lparr>am_waitingOps := am_waitingOps am @ [op], am_opsCount := am_opsCount am + 1\<rparr>)))"

text \<open>\<open>read_async\<close>, \<open>write_async\<close> and \<open>call_async\<close> differ in the operation they call; \<open>timeout\<close> is in milliseconds.\<close>

definition start_async :: "UA_AsyncOperationType \<Rightarrow> bool \<Rightarrow> nat \<Rightarrow> int \<Rightarrow> nat \<Rightarrow> 32 word \<Rightarrow> op_item \<Rightarrow> UA_AsyncManager \<Rightarrow> UA_StatusCode \<times> UA_AsyncManager" where
  "start_async t calloc_ok limit tNow context timeout it am =
     (if \<not> calloc_ok then (OpcUa_BadOutOfMemory, am)
      else if queue_full limit am then (0x80100000, am)
      else
        (let op = new_op t (OfCallback (if timeout > 0 then tNow + uint timeout * 10000 else 9223372036854775807) context) it
         in if it_done it then (OpcUa_Good, logged [DirectStarted (op_addr op), DirectCallback op] am)
            else persistAsyncDirectOperation limit op (logged [Postponed (cancelPtr op)] am)))"

definition read_async :: "bool \<Rightarrow> nat \<Rightarrow> int \<Rightarrow> nat \<Rightarrow> 32 word \<Rightarrow> op_item \<Rightarrow> UA_AsyncManager \<Rightarrow> UA_StatusCode \<times> UA_AsyncManager" where
  "read_async = start_async READ_DIRECT"

definition write_async :: "bool \<Rightarrow> nat \<Rightarrow> int \<Rightarrow> nat \<Rightarrow> 32 word \<Rightarrow> op_item \<Rightarrow> UA_AsyncManager \<Rightarrow> UA_StatusCode \<times> UA_AsyncManager" where
  "write_async = start_async WRITE_DIRECT"

definition call_async :: "bool \<Rightarrow> nat \<Rightarrow> int \<Rightarrow> nat \<Rightarrow> 32 word \<Rightarrow> op_item \<Rightarrow> UA_AsyncManager \<Rightarrow> UA_StatusCode \<times> UA_AsyncManager" where
  "call_async = start_async CALL_DIRECT"

subsection \<open>Results from the application\<close>

text \<open>The value of a read is in the output already.\<close>

definition am_setAsyncReadResult :: "nat \<Rightarrow> UA_AsyncManager \<Rightarrow> UA_StatusCode \<times> UA_AsyncManager" where
  "am_setAsyncReadResult result am = (case find (\<lambda>op. op_output op = result) (am_waitingOps am) of
      None \<Rightarrow> (OpcUa_BadNotFound, am)
    | Some op \<Rightarrow> (OpcUa_Good, am_processOperationResult op (logged [ResultSet (cancelPtr op)] am)))"

definition am_setAsyncWriteResult :: "nat \<Rightarrow> UA_StatusCode \<Rightarrow> UA_AsyncManager \<Rightarrow> UA_StatusCode \<times> UA_AsyncManager" where
  "am_setAsyncWriteResult value result am = (case find (\<lambda>op. op_addr op = value) (am_waitingOps am) of
      None \<Rightarrow> (OpcUa_BadNotFound, am)
    | Some op \<Rightarrow> (OpcUa_Good, am_processOperationResult (with_status result op) (logged [ResultSet (cancelPtr op)] am)))"

definition am_setAsyncCallMethodResult :: "nat \<Rightarrow> UA_StatusCode \<Rightarrow> UA_AsyncManager \<Rightarrow> UA_StatusCode \<times> UA_AsyncManager" where
  "am_setAsyncCallMethodResult output result am =
     (case find (\<lambda>op. (asyncOperationType op = CALL_REQUEST \<or> asyncOperationType op = CALL_DIRECT) \<and> op_arguments op = output) (am_waitingOps am) of
      None \<Rightarrow> (OpcUa_BadNotFound, am)
    | Some op \<Rightarrow> (OpcUa_Good, am_processOperationResult (with_status result op) (logged [ResultSet (cancelPtr op)] am)))"

end
