(* ===== verification/UA_AsyncManager_Props.thy ===== *)
theory UA_AsyncManager_Props
  imports UA_AsyncManager "HOL-Library.Multiset" "HOL-Library.Sublist"
begin

text \<open>
  Invariants of the manager of asynchronous operations: its lists and counters agree, and every operation, request and
  direct call is settled exactly once. It refines the view the wrapper's model has of the stack.
\<close>

subsection \<open>Counting effects\<close>

definition events :: "(effect \<Rightarrow> 'a option) \<Rightarrow> effect list \<Rightarrow> 'a multiset" where
  "events f log = mset (List.map_filter f log)"

lemma events_simps [simp]:
  "events f [] = {#}"
  "events f (a @ b) = events f a + events f b"
  "events f [e] = (case f e of None \<Rightarrow> {#} | Some x \<Rightarrow> {#x#})"
  by (auto simp: events_def List.map_filter_def split: option.split)

lemma events_Cons [simp]:
  "events f (e # es) = (case f e of None \<Rightarrow> events f es | Some x \<Rightarrow> add_mset x (events f es))"
  by (simp add: events_def List.map_filter_def split: option.split)

fun postponed :: "effect \<Rightarrow> nat option" where
  "postponed (Postponed k) = Some k" | "postponed _ = None"

fun settled :: "effect \<Rightarrow> nat option" where
  "settled (ResultSet k) = Some k" | "settled (CancelCallback k) = Some k" | "settled _ = None"

text \<open>Requests by their id and session: left waiting; their response sent, or dropped without being sent; either.\<close>

definition ar_key :: "UA_AsyncResponse \<Rightarrow> 32 word \<times> UA_NodeId" where
  "ar_key ar = (ar_requestId ar, ar_sessionId ar)"

fun left_waiting :: "effect \<Rightarrow> (32 word \<times> UA_NodeId) option" where
  "left_waiting (RequestWaits r sid) = Some (r, sid)" | "left_waiting _ = None"

fun sent :: "effect \<Rightarrow> (32 word \<times> UA_NodeId) option" where
  "sent (ResponseSent ar) = Some (ar_key ar)" | "sent _ = None"

fun dropped :: "effect \<Rightarrow> (32 word \<times> UA_NodeId) option" where
  "dropped (ResponseDropped ar) = Some (ar_key ar)" | "dropped _ = None"

definition disposed :: "effect \<Rightarrow> (32 word \<times> UA_NodeId) option" where
  "disposed e = (case sent e of Some k \<Rightarrow> Some k | None \<Rightarrow> dropped e)"

lemma disposed_simps [simp]:
  "disposed (ResponseSent ar) = Some (ar_key ar)" "disposed (ResponseDropped ar) = Some (ar_key ar)"
  "disposed (Postponed k) = None" "disposed (ResultSet k) = None" "disposed (CancelCallback k) = None" "disposed (RequestWaits r sid) = None"
  "disposed (DirectStarted a) = None" "disposed (DirectCallback op) = None"
  by (simp_all add: disposed_def)

lemma disposed_split: "events disposed log = events sent log + events dropped log"
proof (induction log)
  case (Cons e log)
  then show ?case by (cases e) (simp_all add: disposed_def)
qed simp

fun direct_started :: "effect \<Rightarrow> nat option" where
  "direct_started (DirectStarted a) = Some a" | "direct_started _ = None"

fun direct_called :: "effect \<Rightarrow> nat option" where
  "direct_called (DirectCallback op) = Some (op_addr op)" | "direct_called _ = None"

text \<open>The pointers of the operations that are postponed and not yet settled, after a log.\<close>

fun key_effect :: "effect \<Rightarrow> nat set \<Rightarrow> nat set" where
  "key_effect (Postponed k) K = insert k K"
| "key_effect (ResultSet k) K = K - {k}"
| "key_effect (CancelCallback k) K = K - {k}"
| "key_effect _ K = K"

definition keys_after :: "nat set \<Rightarrow> effect list \<Rightarrow> nat set" where
  "keys_after K log = fold key_effect log K"

lemma keys_after_simps [simp]:
  "keys_after K [] = K"
  "keys_after K (e # es) = keys_after (key_effect e K) es"
  "keys_after K (a @ b) = keys_after (keys_after K a) b"
  by (simp_all add: keys_after_def)

subsection \<open>The invariant\<close>

definition is_callback :: "UA_AsyncOperation \<Rightarrow> bool" where
  "is_callback op = (case op_handling op of OfCallback _ _ \<Rightarrow> True | OfResponse _ \<Rightarrow> False)"

definition part_of :: "nat \<Rightarrow> UA_AsyncOperation \<Rightarrow> bool" where
  "part_of a op \<longleftrightarrow> op_handling op = OfResponse a"

definition live_ops :: "UA_AsyncManager \<Rightarrow> UA_AsyncOperation list" where
  "live_ops am = am_waitingOps am @ am_readyOps am"

definition live_responses :: "UA_AsyncManager \<Rightarrow> UA_AsyncResponse list" where
  "live_responses am = am_waitingResponses am @ am_readyResponses am"

definition addresses :: "UA_AsyncOperation \<Rightarrow> nat list" where
  "addresses op = [op_addr op, op_output op, op_arguments op]"

definition ops_ok :: "UA_AsyncManager \<Rightarrow> bool" where
  "ops_ok am \<longleftrightarrow> distinct (concat (map addresses (live_ops am)))
     \<and> (\<forall>op\<in>set (live_ops am). is_callback op \<longleftrightarrow> direct (asyncOperationType op))
     \<and> (\<forall>op\<in>set (am_readyOps am). is_callback op)
     \<and> am_opsCount am = length (live_ops am)"

definition responses_ok :: "UA_AsyncManager \<Rightarrow> bool" where
  "responses_ok am \<longleftrightarrow> distinct (map ar_addr (live_responses am))
     \<and> (\<forall>op\<in>set (am_waitingOps am). \<forall>a. part_of a op \<longrightarrow> a \<in> ar_addr ` set (am_waitingResponses am))
     \<and> (\<forall>ar\<in>set (am_waitingResponses am). ar_opCountdown ar = length (filter (part_of (ar_addr ar)) (am_waitingOps am)) \<and> ar_opCountdown ar > 0)
     \<and> (\<forall>ar\<in>set (am_readyResponses am). ar_opCountdown ar = 0)"

definition dc_ok :: "UA_AsyncManager \<Rightarrow> bool" where
  "dc_ok am \<longleftrightarrow> (am_readyOps am \<noteq> [] \<or> am_readyResponses am \<noteq> [] \<longrightarrow> am_dc am)"

definition balanced :: "UA_AsyncManager \<Rightarrow> bool" where
  "balanced am \<longleftrightarrow>
     events postponed (am_log am) = image_mset cancelPtr (mset (am_waitingOps am)) + events settled (am_log am)
   \<and> events left_waiting (am_log am) = image_mset ar_key (mset (live_responses am)) + events disposed (am_log am)
   \<and> events direct_started (am_log am) = image_mset op_addr (mset (filter is_callback (live_ops am))) + events direct_called (am_log am)
   \<and> keys_after {} (am_log am) = cancelPtr ` set (am_waitingOps am)"

definition am_ok :: "UA_AsyncManager \<Rightarrow> bool" where
  "am_ok am \<longleftrightarrow> ops_ok am \<and> responses_ok am \<and> dc_ok am \<and> balanced am"

lemma init_ok: "am_ok UA_AsyncManager_init"
  by (simp add: am_ok_def ops_ok_def responses_ok_def dc_ok_def balanced_def UA_AsyncManager_init_def live_ops_def live_responses_def)

subsection \<open>Removing an operation\<close>

lemma cancelPtr_address: "cancelPtr op \<in> set (addresses op)"
  by (auto simp: cancelPtr_def addresses_def split: UA_AsyncOperationType.split)

lemma addresses_disjoint:
  "distinct (concat (map addresses ops)) \<Longrightarrow> a \<in> set ops \<Longrightarrow> b \<in> set ops \<Longrightarrow> x \<in> set (addresses a) \<Longrightarrow> x \<in> set (addresses b) \<Longrightarrow> a = b"
  by (induction ops) auto

lemma distinct_keys: "distinct (concat (map addresses ops)) \<Longrightarrow> distinct (map cancelPtr ops)"
proof (induction ops)
  case (Cons op ops)
  have "cancelPtr op \<noteq> cancelPtr o1" if "o1 \<in> set ops" for o1
  proof
    assume "cancelPtr op = cancelPtr o1"
    then have "cancelPtr op \<in> set (addresses o1)" using cancelPtr_address [of o1] by simp
    then show False using Cons.prems that cancelPtr_address [of op] by auto
  qed
  then show ?case using Cons by auto
qed simp

lemma waiting_addresses: "am_ok am \<Longrightarrow> distinct (concat (map addresses (am_waitingOps am)))"
  by (simp add: am_ok_def ops_ok_def live_ops_def)

text \<open>The same operation, up to the status.\<close>

definition same_op :: "UA_AsyncOperation \<Rightarrow> UA_AsyncOperation \<Rightarrow> bool" where
  "same_op op op' \<longleftrightarrow> op' = op\<lparr>op_status := op_status op'\<rparr>"

lemma same_op_fields [simp]:
  assumes "same_op op op'"
  shows "op_addr op' = op_addr op" "op_handling op' = op_handling op" "asyncOperationType op' = asyncOperationType op"
    "op_output op' = op_output op" "op_arguments op' = op_arguments op" "cancelPtr op' = cancelPtr op" "is_callback op' = is_callback op"
    "addresses op' = addresses op"
proof -
  obtain x where "op' = op\<lparr>op_status := x\<rparr>" using assms by (auto simp: same_op_def)
  then show "op_addr op' = op_addr op" "op_handling op' = op_handling op" "asyncOperationType op' = asyncOperationType op"
    "op_output op' = op_output op" "op_arguments op' = op_arguments op" "cancelPtr op' = cancelPtr op" "is_callback op' = is_callback op"
    "addresses op' = addresses op"
    by (simp_all add: cancelPtr_def is_callback_def addresses_def split: UA_AsyncOperationType.split)
qed

lemma same_op_refl [simp]: "same_op op op" "same_op op (with_status c op)"
  by (simp_all add: same_op_def with_status_def)

lemma distinct_addresses:
  "distinct (concat (map addresses ops)) \<Longrightarrow> distinct (map op_addr ops)"
  by (induction ops) (auto simp: addresses_def)

lemma remove_op_split:
  assumes "distinct (map op_addr (xs @ op # ys))"
  shows "remove_op op (xs @ op # ys) = xs @ ys"
proof -
  have "op_addr op \<notin> op_addr ` set xs" "op_addr op \<notin> op_addr ` set ys" using assms by simp_all
  then have "\<forall>o1\<in>set (xs @ ys). op_addr o1 \<noteq> op_addr op" by (metis Un_iff imageI set_append)
  then show ?thesis by (simp add: remove_op_def filter_id_conv)
qed

lemma remove_op_same: "op_addr op' = op_addr op \<Longrightarrow> remove_op op' = remove_op op"
  by (rule ext) (simp add: remove_op_def)

lemma map_others: "\<forall>r\<in>set xs. ar_addr r \<noteq> ar_addr ar \<Longrightarrow> map (\<lambda>r. if ar_addr r = ar_addr ar then f r else r) xs = xs"
  by (induction xs) auto

lemma update_ar_split:
  assumes "am_waitingResponses am = us @ ar # vs" "\<forall>r\<in>set (us @ vs). ar_addr r \<noteq> ar_addr ar"
  shows "update_ar f (ar_addr ar) am = am\<lparr>am_waitingResponses := us @ f ar # vs\<rparr>"
  using assms by (simp add: update_ar_def map_others)

lemma find_ar_split:
  assumes "am_waitingResponses am = us @ ar # vs" "\<forall>r\<in>set us. ar_addr r \<noteq> ar_addr ar"
  shows "find_ar (ar_addr ar) am = Some ar"
proof -
  have "find (\<lambda>r. ar_addr r = ar_addr ar) us = None" using assms(2) by (auto simp: find_None_iff)
  then have "find (\<lambda>r. ar_addr r = ar_addr ar) (us @ ar # vs) = Some ar" by (induction us) auto
  then show ?thesis by (simp add: find_ar_def assms(1))
qed

lemma remove_ar_split: "\<forall>r\<in>set (us @ vs). ar_addr r \<noteq> ar_addr ar \<Longrightarrow> remove_ar (ar_addr ar) (us @ ar # vs) = us @ vs"
  by (auto simp: remove_ar_def filter_id_conv)

text \<open>What integrating a result does, with the lists cut at the operation and its response.\<close>

lemma counted_fields [simp]:
  "ar_addr (counted ar) = ar_addr ar" "ar_key (counted ar) = ar_key ar" "ar_opCountdown (counted ar) = ar_opCountdown ar - 1"
  by (simp_all add: counted_def ar_key_def)

lemma process_callback:
  assumes "am_waitingOps am = xs @ op # ys" "distinct (map op_addr (xs @ op # ys))" "same_op op op'" "is_callback op"
  shows "am_processOperationResult op' am = am\<lparr>am_waitingOps := xs @ ys, am_readyOps := am_readyOps am @ [op'], am_dc := True\<rparr>"
  using assms remove_op_split [OF assms(2)] remove_op_same [of op' op]
  by (auto simp: am_processOperationResult_def is_callback_def split: op_handling.splits)

lemma process_response:
  assumes "am_waitingOps am = xs @ op # ys" "distinct (map op_addr (xs @ op # ys))" "same_op op op'" "part_of (ar_addr ar) op"
    and "am_waitingResponses am = us @ ar # vs" "\<forall>r\<in>set (us @ vs). ar_addr r \<noteq> ar_addr ar"
  shows "am_processOperationResult op' am
    = (let am1 = am\<lparr>am_waitingOps := xs @ ys, am_opsCount := am_opsCount am - 1\<rparr>
       in if ar_opCountdown ar > 1 then am1\<lparr>am_waitingResponses := us @ counted ar # vs\<rparr>
          else am1\<lparr>am_waitingResponses := us @ vs, am_readyResponses := am_readyResponses am @ [counted ar], am_dc := True\<rparr>)"
proof -
  let ?am1 = "am\<lparr>am_waitingOps := xs @ ys, am_opsCount := am_opsCount am - 1\<rparr>"
  let ?am2 = "?am1\<lparr>am_waitingResponses := us @ counted ar # vs\<rparr>"
  have "update_ar counted (ar_addr ar) ?am1 = ?am2"
    by (rule update_ar_split) (use assms(5,6) in simp_all)
  moreover have "find_ar (ar_addr ar) ?am2 = Some (counted ar)"
    using find_ar_split [of ?am2 us "counted ar" vs, simplified] assms(6) by simp
  moreover have "remove_ar (ar_addr ar) (us @ counted ar # vs) = us @ vs"
    using remove_ar_split [of us vs "counted ar"] assms(6) by simp
  moreover have "op_handling op' = OfResponse (ar_addr ar)" using assms(3,4) by (simp add: part_of_def)
  ultimately show ?thesis
    using remove_op_split [OF assms(2)] remove_op_same [of op' op] assms(1,3)
    by (simp add: am_processOperationResult_def Let_def)
qed

text \<open>An effect that settles the operation, and nothing else; the balance after it, the direct operations staying alive.\<close>

definition settles :: "effect \<Rightarrow> UA_AsyncOperation \<Rightarrow> bool" where
  "settles e op \<longleftrightarrow> e = ResultSet (cancelPtr op) \<or> e = CancelCallback (cancelPtr op)"

lemma settle_balanced:
  assumes bal: "balanced am" and e: "settles e op" and d: "distinct (map cancelPtr (am_waitingOps am))"
    and log: "am_log am' = am_log am @ [e]" and w: "mset (am_waitingOps am) = {#op#} + mset (am_waitingOps am')"
    and r: "image_mset ar_key (mset (live_responses am')) = image_mset ar_key (mset (live_responses am))"
    and c: "image_mset op_addr (mset (filter is_callback (live_ops am'))) = image_mset op_addr (mset (filter is_callback (live_ops am)))"
  shows "balanced am'"
proof -
  have es: "events postponed [e] = {#}" "events left_waiting [e] = {#}" "events disposed [e] = {#}" "events direct_started [e] = {#}"
    "events direct_called [e] = {#}" "events settled [e] = {#cancelPtr op#}" "key_effect e K = K - {cancelPtr op}" for K
    using e by (auto simp: settles_def)
  have b: "events postponed (am_log am) = image_mset cancelPtr (mset (am_waitingOps am)) + events settled (am_log am)"
    "events left_waiting (am_log am) = image_mset ar_key (mset (live_responses am)) + events disposed (am_log am)"
    "events direct_started (am_log am) = image_mset op_addr (mset (filter is_callback (live_ops am))) + events direct_called (am_log am)"
    "keys_after {} (am_log am) = cancelPtr ` set (am_waitingOps am)"
    using bal by (simp_all only: balanced_def)
  have "mset (map cancelPtr (am_waitingOps am)) = mset (map cancelPtr (op # am_waitingOps am'))" using w by simp
  then have "distinct (map cancelPtr (op # am_waitingOps am'))" using d by (metis mset_eq_imp_distinct_iff)
  moreover have "set (am_waitingOps am) = insert op (set (am_waitingOps am'))" using w by (metis add_mset_add_single mset.simps(2) set_mset_mset list.simps(15) union_commute)
  ultimately have "cancelPtr ` set (am_waitingOps am) - {cancelPtr op} = cancelPtr ` set (am_waitingOps am')" by auto
  then show ?thesis
    unfolding balanced_def log r c events_simps(2) es(1-6) keys_after_simps es(7) b(4)
    by (simp add: b(1-3) w)
qed

lemma process_callback_ok:
  assumes ok: "am_ok am" and op: "op \<in> set (am_waitingOps am)" "same_op op op'" "is_callback op" and e: "settles e op"
  shows "am_ok (am_processOperationResult op' (logged [e] am))"
proof -
  from op(1) obtain xs ys where w: "am_waitingOps am = xs @ op # ys" by (auto simp: in_set_conv_decomp)
  let ?am = "(logged [e] am)\<lparr>am_waitingOps := xs @ ys, am_readyOps := am_readyOps am @ [op'], am_dc := True\<rparr>"
  have d: "distinct (map op_addr (xs @ op # ys))"
    using distinct_addresses [of "live_ops am"] ok w by (auto simp: am_ok_def ops_ok_def live_ops_def)
  then have "am_processOperationResult op' (logged [e] am) = ?am"
    using process_callback [of "logged [e] am" xs op ys op'] w op by (simp add: logged_def)
  moreover have "ops_ok ?am"
    using ok op w by (auto simp: am_ok_def ops_ok_def live_ops_def logged_def)
  moreover have "responses_ok ?am"
  proof -
    have "\<not> part_of a op" for a using op(3) by (auto simp: is_callback_def part_of_def)
    then show ?thesis using ok w by (auto simp: am_ok_def responses_ok_def live_responses_def logged_def)
  qed
  moreover have "dc_ok ?am" by (simp add: dc_ok_def)
  moreover have "balanced ?am"
    by (rule settle_balanced [where am = am, OF _ e distinct_keys [OF waiting_addresses [OF ok]]])
      (use ok op w in \<open>simp_all add: am_ok_def live_ops_def live_responses_def logged_def\<close>)
  ultimately show ?thesis by (simp add: am_ok_def)
qed

lemma process_response_ok:
  assumes ok: "am_ok am" and op: "op \<in> set (am_waitingOps am)" "same_op op op'" "part_of a op" and e: "settles e op"
  shows "am_ok (am_processOperationResult op' (logged [e] am))"
proof -
  from op(1) obtain xs ys where w: "am_waitingOps am = xs @ op # ys" by (auto simp: in_set_conv_decomp)
  from ok op(1,3) have "a \<in> ar_addr ` set (am_waitingResponses am)" by (auto simp: am_ok_def responses_ok_def)
  then obtain ar us vs where r: "am_waitingResponses am = us @ ar # vs" "a = ar_addr ar" by (auto simp: in_set_conv_decomp)
  have d: "distinct (map op_addr (xs @ op # ys))"
    using distinct_addresses [of "live_ops am"] ok w by (auto simp: am_ok_def ops_ok_def live_ops_def)
  have "distinct (map ar_addr (am_waitingResponses am))" using ok by (simp add: am_ok_def responses_ok_def live_responses_def)
  then have "ar_addr ar \<notin> ar_addr ` set us" "ar_addr ar \<notin> ar_addr ` set vs" by (simp_all add: r(1))
  then have others: "\<forall>r\<in>set (us @ vs). ar_addr r \<noteq> ar_addr ar" by (metis Un_iff imageI set_append)
  have n: "ar_opCountdown ar = Suc (length (filter (part_of (ar_addr ar)) (xs @ ys)))"
    using ok w r op(3) by (simp add: am_ok_def responses_ok_def)
  have not_cb: "\<not> is_callback op" using op(3) by (simp add: is_callback_def part_of_def)
  let ?am = "am_processOperationResult op' (logged [e] am)"
  let ?wr = "if ar_opCountdown ar > 1 then us @ counted ar # vs else us @ vs"
  let ?rr = "if ar_opCountdown ar > 1 then am_readyResponses am else am_readyResponses am @ [counted ar]"
  have am': "?am = (logged [e] am)\<lparr>am_waitingOps := xs @ ys, am_opsCount := am_opsCount am - 1, am_waitingResponses := ?wr,
      am_readyResponses := ?rr, am_dc := (if ar_opCountdown ar > 1 then am_dc am else True)\<rparr>"
    using process_response [of "logged [e] am" xs op ys op' ar us vs] w d op(2,3) r others by (simp add: logged_def Let_def)
  have "ops_ok ?am" using ok w not_cb unfolding am' by (auto simp: am_ok_def ops_ok_def live_ops_def logged_def)
  moreover have "responses_ok ?am"
  proof -
    have old: "distinct (map ar_addr (us @ ar # vs @ am_readyResponses am))"
      "\<forall>op\<in>set (xs @ op # ys). \<forall>b. part_of b op \<longrightarrow> b \<in> ar_addr ` set (us @ ar # vs)"
      "\<forall>q\<in>set (us @ ar # vs). ar_opCountdown q = length (filter (part_of (ar_addr q)) (xs @ op # ys)) \<and> ar_opCountdown q > 0"
      "\<forall>q\<in>set (am_readyResponses am). ar_opCountdown q = 0"
      using ok unfolding am_ok_def responses_ok_def live_responses_def w r(1) append_assoc append_Cons by blast+
    have part: "part_of b op \<longleftrightarrow> b = ar_addr ar" for b using op(3) r(2) by (auto simp: part_of_def)
    have "distinct (map ar_addr (?wr @ ?rr))" using old(1) by auto
    moreover have "\<forall>op\<in>set (xs @ ys). \<forall>b. part_of b op \<longrightarrow> b \<in> ar_addr ` set ?wr"
    proof (intro ballI allI impI)
      fix o1 b assume o1: "o1 \<in> set (xs @ ys)" "part_of b o1"
      then have b: "b \<in> ar_addr ` set (us @ ar # vs)" using old(2) by auto
      show "b \<in> ar_addr ` set ?wr"
      proof (cases "b = ar_addr ar")
        case True
        then have "filter (part_of (ar_addr ar)) (xs @ ys) \<noteq> []" using o1 by (auto simp: filter_empty_conv)
        then have "ar_opCountdown ar > 1" using n by simp
        then show ?thesis using True by simp
      qed (use b in auto)
    qed
    moreover have "\<forall>q\<in>set ?wr. ar_opCountdown q = length (filter (part_of (ar_addr q)) (xs @ ys)) \<and> ar_opCountdown q > 0"
    proof (intro ballI)
      fix q assume q: "q \<in> set ?wr"
      show "ar_opCountdown q = length (filter (part_of (ar_addr q)) (xs @ ys)) \<and> ar_opCountdown q > 0"
      proof (cases "q = counted ar \<and> ar_opCountdown ar > 1")
        case True
        then show ?thesis using n by auto
      next
        case False
        with q have q: "q \<in> set (us @ vs)" by (auto split: if_splits)
        then have "ar_addr q \<noteq> ar_addr ar" using others by blast
        then have "filter (part_of (ar_addr q)) (xs @ op # ys) = filter (part_of (ar_addr q)) (xs @ ys)" using part by simp
        moreover have "q \<in> set (us @ ar # vs)" using q by auto
        ultimately show ?thesis using old(3) by metis
      qed
    qed
    moreover have "\<forall>q\<in>set ?rr. ar_opCountdown q = 0" using old(4) by auto
    moreover have fields: "am_waitingResponses ?am = ?wr" "am_readyResponses ?am = ?rr" "am_waitingOps ?am = xs @ ys"
      unfolding am' by simp_all
    ultimately show ?thesis unfolding responses_ok_def live_responses_def fields by (intro conjI)
  qed
  moreover have "dc_ok ?am" using ok unfolding am' by (auto simp: am_ok_def dc_ok_def logged_def)
  moreover have "balanced ?am"
  proof (rule settle_balanced [where am = am, OF _ e distinct_keys [OF waiting_addresses [OF ok]]])
    show "balanced am" using ok by (simp add: am_ok_def)
    show "image_mset ar_key (mset (live_responses ?am)) = image_mset ar_key (mset (live_responses am))"
      unfolding am' live_responses_def r(1) by simp
    show "image_mset op_addr (mset (filter is_callback (live_ops ?am))) = image_mset op_addr (mset (filter is_callback (live_ops am)))"
      unfolding am' live_ops_def using w not_cb by (simp add: logged_def)
    show "mset (am_waitingOps am) = {#op#} + mset (am_waitingOps ?am)" unfolding am' by (simp add: w)
    show "am_log ?am = am_log am @ [e]" unfolding am' by (simp add: logged_def)
  qed
  ultimately show ?thesis by (simp add: am_ok_def)
qed

lemma process_ok:
  assumes "am_ok am" "op \<in> set (am_waitingOps am)" "same_op op op'" "settles e op"
  shows "am_ok (am_processOperationResult op' (logged [e] am))"
proof (cases "op_handling op")
  case (OfResponse a)
  then show ?thesis
    using process_response_ok [OF assms(1-3) _ assms(4), of a] by (simp add: part_of_def)
next
  case (OfCallback t c)
  then show ?thesis
    using process_callback_ok [OF assms(1-3) _ assms(4)] by (simp add: is_callback_def)
qed

lemma process_waiting: "am_waitingOps (am_processOperationResult op am) = remove_op op (am_waitingOps am)"
  by (simp add: am_processOperationResult_def update_ar_def Let_def split: op_handling.split option.split)

lemma cancel_op_ok: "am_ok am \<Longrightarrow> op \<in> set (am_waitingOps am) \<Longrightarrow> am_ok (cancel_op c op am)"
  using process_ok [of am op "with_status c op" "CancelCallback (cancelPtr op)"]
  by (simp add: cancel_op_def UA_AsyncOperation_cancel_def settles_def)

lemma cancel_op_waiting: "am_waitingOps (cancel_op c op am) = remove_op op (am_waitingOps am)"
  by (simp add: cancel_op_def process_waiting UA_AsyncOperation_cancel_def logged_def remove_op_same [of "with_status c op" op])

subsection \<open>Every operation keeps the invariant\<close>

lemma ops_distinct: "am_ok am \<Longrightarrow> distinct (map op_addr (live_ops am))"
  by (simp add: am_ok_def ops_ok_def distinct_addresses)

lemma waiting_distinct: "am_ok am \<Longrightarrow> distinct (map op_addr (am_waitingOps am))"
  using ops_distinct [of am] by (simp add: live_ops_def)

lemma rest_waiting:
  assumes "set (op # ops) \<subseteq> set (am_waitingOps am)" "distinct (map op_addr (op # ops))"
    and "am_waitingOps am' = remove_op op (am_waitingOps am)"
  shows "set ops \<subseteq> set (am_waitingOps am')"
  using assms by (auto simp: remove_op_def) (metis imageI)

lemma fold_cancel_ok:
  assumes "am_ok am" "set ops \<subseteq> set (am_waitingOps am)" "distinct (map op_addr ops)"
  shows "am_ok (fold (\<lambda>op am. if P am op then am else cancel_op c op am) ops am)"
  using assms
proof (induction ops arbitrary: am)
  case (Cons op ops)
  let ?am = "if P am op then am else cancel_op c op am"
  have "am_ok ?am" using Cons.prems cancel_op_ok by simp
  moreover have "set ops \<subseteq> set (am_waitingOps ?am)"
    using Cons.prems(2) rest_waiting [OF Cons.prems(2,3) cancel_op_waiting] by auto
  ultimately show ?case using Cons.IH Cons.prems(3) by simp
qed simp

lemma checkTimeouts_ok: "am_ok am \<Longrightarrow> am_ok (checkTimeouts configured tNow am)"
  unfolding checkTimeouts_def by (auto intro: fold_cancel_ok waiting_distinct)

lemma fold_cancel_all:
  "am_waitingOps (fold (cancel_op c) ops am) = filter (\<lambda>op. op_addr op \<notin> op_addr ` set ops) (am_waitingOps am)"
proof (induction ops arbitrary: am)
  case (Cons op ops)
  have "(op_addr o1 \<noteq> op_addr op \<and> op_addr o1 \<notin> op_addr ` set ops) = (op_addr o1 \<notin> op_addr ` set (op # ops))" for o1 by auto
  then show ?case by (simp add: Cons.IH cancel_op_waiting remove_op_def conj_commute)
qed simp

text \<open>A response is changed in what the invariant does not mention.\<close>

lemma update_ar_ok:
  assumes "am_ok am" "\<forall>ar. ar_addr (f ar) = ar_addr ar \<and> ar_key (f ar) = ar_key ar \<and> ar_opCountdown (f ar) = ar_opCountdown ar"
  shows "am_ok (update_ar f a am)"
proof -
  define g where "g ar = (if ar_addr ar = a then f ar else ar)" for ar
  have g: "ar_addr (g ar) = ar_addr ar" "ar_key (g ar) = ar_key ar" "ar_opCountdown (g ar) = ar_opCountdown ar" for ar
    using assms(2) by (simp_all add: g_def)
  then have comp: "ar_addr \<circ> g = ar_addr" "ar_key \<circ> g = ar_key" by (simp_all add: fun_eq_iff)
  have am': "update_ar f a am = am\<lparr>am_waitingResponses := map g (am_waitingResponses am)\<rparr>"
    by (simp add: update_ar_def g_def)
  have "mset (map (ar_key \<circ> g) (am_waitingResponses am)) = mset (map ar_key (am_waitingResponses am))"
    by (simp only: comp)
  then have "balanced (update_ar f a am) \<longleftrightarrow> balanced am"
    unfolding am' by (simp add: balanced_def live_ops_def live_responses_def flip: mset_map)
  moreover have "ops_ok (update_ar f a am) \<longleftrightarrow> ops_ok am" "dc_ok (update_ar f a am) \<longleftrightarrow> dc_ok am"
    unfolding am' by (simp_all add: ops_ok_def dc_ok_def live_ops_def)
  moreover have "responses_ok (update_ar f a am) \<longleftrightarrow> responses_ok am"
    unfolding am' by (simp add: responses_ok_def live_responses_def comp image_comp g)
  ultimately show ?thesis using assms(1) by (simp add: am_ok_def)
qed

lemma cancel_request_ok:
  assumes "am_ok am" "set ops \<subseteq> set (am_waitingOps am)" "distinct (map op_addr ops)"
    and "cancel_request sid h ops (n, am) = Inr (n', am')"
  shows "am_ok am'"
  using assms
proof (induction ops arbitrary: n am)
  case (Cons op ops)
  from Cons.prems(4) obtain a ar where a: "op_handling op = OfResponse a" "find_ar a am = Some ar"
    by (auto split: op_handling.splits option.splits)
  let ?skip = "ar_requestHandle ar \<noteq> h \<or> \<not> UA_NodeId_equal sid (ar_sessionId ar)"
  let ?up = "update_ar (\<lambda>ar. ar\<lparr>ar_serviceResult := 0x802C0000\<rparr>) a am"
  show ?case
  proof (cases ?skip)
    case True
    then show ?thesis using Cons a by auto
  next
    case False
    have up: "am_ok ?up" "am_waitingOps ?up = am_waitingOps am" using update_ar_ok [OF Cons.prems(1)] by (simp_all add: update_ar_def ar_key_def)
    then have "am_ok (cancel_op 0x80B30000 op ?up)" using Cons.prems(2) cancel_op_ok by simp
    moreover have "set ops \<subseteq> set (am_waitingOps (cancel_op 0x80B30000 op ?up))"
      using rest_waiting [of op ops ?up, OF _ _ cancel_op_waiting] Cons.prems(2,3) up(2) by simp
    ultimately show ?thesis using Cons.IH Cons.prems(3,4) a False by auto
  qed
qed simp

lemma UA_AsyncManager_cancel_ok: "am_ok am \<Longrightarrow> UA_AsyncManager_cancel sid h am = Inr (n, am') \<Longrightarrow> am_ok am'"
  unfolding UA_AsyncManager_cancel_def by (rule cancel_request_ok [OF _ _ waiting_distinct]) simp_all

text \<open>A direct operation leaves, called back: from the waiting ones, cancelled, or from the ready ones.\<close>

definition without_op :: "UA_AsyncOperation \<Rightarrow> UA_AsyncManager \<Rightarrow> UA_AsyncManager" where
  "without_op op am = am\<lparr>am_waitingOps := remove_op op (am_waitingOps am), am_readyOps := remove_op op (am_readyOps am),
     am_opsCount := am_opsCount am - 1\<rparr>"

lemma leave_ok:
  assumes ok: "ops_ok am \<and> responses_ok am \<and> balanced am" and op: "op \<in> set (live_ops am)" "is_callback op" "same_op op op'"
    and es: "es = (if op \<in> set (am_waitingOps am) then [CancelCallback (cancelPtr op)] else []) @ [DirectCallback op']"
  shows "ops_ok (logged es (without_op op am)) \<and> responses_ok (logged es (without_op op am)) \<and> balanced (logged es (without_op op am))"
proof -
  let ?am = "logged es (without_op op am)"
  have d: "distinct (concat (map addresses (live_ops am)))" using ok by (simp add: ops_ok_def)
  from op(1) obtain xs ys where l: "live_ops am = xs @ op # ys" by (auto simp: in_set_conv_decomp)
  have dl: "distinct (map op_addr (xs @ op # ys))" using distinct_addresses [OF d] l by simp
  have live: "live_ops ?am = xs @ ys"
    using remove_op_split [OF dl] l by (simp add: live_ops_def logged_def without_op_def remove_op_def flip: filter_append)
  have not_part: "\<not> part_of a op" for a using op(2) by (auto simp: is_callback_def part_of_def)
  have "\<forall>o1\<in>set (live_ops am). op_addr o1 = op_addr op \<longrightarrow> o1 = op"
    using dl l by (metis distinct_map inj_onD op(1))
  then have only: "\<forall>o1\<in>set (am_waitingOps am). op_addr o1 = op_addr op \<longrightarrow> o1 = op" by (simp add: live_ops_def)
  have parts: "filter (part_of a) (remove_op op (am_waitingOps am)) = filter (part_of a) (am_waitingOps am)" for a
    unfolding remove_op_def filter_filter by (rule filter_cong) (use only not_part in auto)
  have waiting: "mset (am_waitingOps am) = (if op \<in> set (am_waitingOps am) then {#op#} else {#}) + mset (remove_op op (am_waitingOps am))"
  proof (cases "op \<in> set (am_waitingOps am)")
    case True
    then obtain us vs where w: "am_waitingOps am = us @ op # vs" by (auto simp: in_set_conv_decomp)
    have "distinct (map op_addr (am_waitingOps am))" using distinct_addresses [OF d] by (simp add: live_ops_def)
    then have "distinct (map op_addr (us @ op # vs))" by (simp only: w)
    from remove_op_split [OF this] show ?thesis using True w by simp
  next
    case False
    then have "remove_op op (am_waitingOps am) = am_waitingOps am" using only by (auto simp: remove_op_def filter_id_conv)
    then show ?thesis using False by simp
  qed
  have "ops_ok ?am"
  proof -
    have "set (am_readyOps ?am) \<subseteq> set (am_readyOps am)" by (auto simp: logged_def without_op_def remove_op_def)
    moreover have "am_opsCount ?am = length (live_ops am) - 1" using ok by (simp add: logged_def without_op_def ops_ok_def)
    ultimately show ?thesis using ok d unfolding ops_ok_def live by (auto simp: l)
  qed
  moreover have "responses_ok ?am"
  proof -
    have fields: "am_waitingOps ?am = remove_op op (am_waitingOps am)" "am_waitingResponses ?am = am_waitingResponses am"
      "am_readyResponses ?am = am_readyResponses am" by (simp_all add: logged_def without_op_def)
    have "set (remove_op op (am_waitingOps am)) \<subseteq> set (am_waitingOps am)" by (auto simp: remove_op_def)
    then show ?thesis using ok unfolding responses_ok_def live_responses_def fields parts by blast
  qed
  moreover have "balanced ?am"
  proof -
    have log: "events postponed (am_log ?am) = events postponed (am_log am)" "events left_waiting (am_log ?am) = events left_waiting (am_log am)"
      "events disposed (am_log ?am) = events disposed (am_log am)" "events direct_started (am_log ?am) = events direct_started (am_log am)"
      "events settled (am_log ?am) = events settled (am_log am) + (if op \<in> set (am_waitingOps am) then {#cancelPtr op#} else {#})"
      "events direct_called (am_log ?am) = events direct_called (am_log am) + {#op_addr op#}"
      using op(3) by (simp_all add: es logged_def without_op_def)
    have b: "events postponed (am_log am) = image_mset cancelPtr (mset (am_waitingOps am)) + events settled (am_log am)"
      "events left_waiting (am_log am) = image_mset ar_key (mset (live_responses am)) + events disposed (am_log am)"
      "events direct_started (am_log am) = image_mset op_addr (mset (filter is_callback (live_ops am))) + events direct_called (am_log am)"
      using ok by (simp_all only: balanced_def)
    have "live_responses ?am = live_responses am" "am_waitingOps ?am = remove_op op (am_waitingOps am)"
      by (simp_all add: live_responses_def logged_def without_op_def)
    moreover have "image_mset op_addr (mset (filter is_callback (live_ops am))) = image_mset op_addr (mset (filter is_callback (xs @ ys))) + {#op_addr op#}"
      using op(2) by (simp add: l)
    moreover have "keys_after {} (am_log ?am) = cancelPtr ` set (remove_op op (am_waitingOps am))"
    proof -
      have inj: "inj_on cancelPtr (set (am_waitingOps am))" using distinct_keys [of "am_waitingOps am"] d by (simp add: live_ops_def distinct_map)
      have "set (remove_op op (am_waitingOps am)) = set (am_waitingOps am) - {op}" using only by (auto simp: remove_op_def)
      moreover have "keys_after {} (am_log am) = cancelPtr ` set (am_waitingOps am)" using ok by (simp only: balanced_def)
      ultimately show ?thesis
        using inj_on_image_set_diff [OF inj, of "set (am_waitingOps am)" "{op}"] by (auto simp: es logged_def without_op_def)
    qed
    ultimately show ?thesis unfolding balanced_def log live b using waiting by simp
  qed
  ultimately show ?thesis by blast
qed

text \<open>The parts of the invariant that hold between clearing the delayed callback and the end of \<open>processReady\<close>.\<close>

definition parts_ok :: "UA_AsyncManager \<Rightarrow> bool" where
  "parts_ok am \<longleftrightarrow> ops_ok am \<and> responses_ok am \<and> balanced am"

lemma am_ok_parts: "am_ok am \<longleftrightarrow> parts_ok am \<and> dc_ok am"
  by (auto simp: am_ok_def parts_ok_def)

lemma parts_ok_dc [simp]: "parts_ok (am\<lparr>am_dc := b\<rparr>) = parts_ok am"
  by (simp add: parts_ok_def ops_ok_def responses_ok_def balanced_def live_ops_def live_responses_def)

lemma remove_absent: "op_addr op \<notin> op_addr ` set ops \<Longrightarrow> remove_op op ops = ops"
  unfolding remove_op_def filter_id_conv by (metis imageI)

lemma parts_distinct: "parts_ok am \<Longrightarrow> distinct (map op_addr (am_waitingOps am @ am_readyOps am))"
  using distinct_addresses [of "live_ops am"] by (simp add: parts_ok_def ops_ok_def live_ops_def)

lemma run_direct_ok:
  assumes "parts_ok am" "op \<in> set (am_readyOps am)"
  shows "parts_ok (run_direct op am)"
proof -
  have "op_addr op \<notin> op_addr ` set (am_waitingOps am)"
    using parts_distinct [OF assms(1)] assms(2) by auto
  then have absent: "op \<notin> set (am_waitingOps am)" "remove_op op (am_waitingOps am) = am_waitingOps am"
    by (auto simp: remove_absent)
  have "run_direct op am = logged [DirectCallback op] (without_op op am)"
    by (simp add: run_direct_def without_op_def absent(2) logged_def)
  moreover have "is_callback op" "op \<in> set (live_ops am)" using assms by (auto simp: parts_ok_def ops_ok_def live_ops_def)
  ultimately show ?thesis
    using leave_ok [of am op op "[DirectCallback op]"] assms(1) absent(1) by (simp add: parts_ok_def)
qed

lemma run_direct_fields [simp]:
  "am_readyOps (run_direct op am) = remove_op op (am_readyOps am)" "am_waitingOps (run_direct op am) = am_waitingOps am"
  "am_readyResponses (run_direct op am) = am_readyResponses am" "am_waitingResponses (run_direct op am) = am_waitingResponses am"
  "am_dc (run_direct op am) = am_dc am"
  by (simp_all add: run_direct_def logged_def)

lemma fold_run_direct:
  assumes "parts_ok am" "set ops \<subseteq> set (am_readyOps am)" "distinct (map op_addr ops)"
  shows "parts_ok (fold (\<lambda>op am. if P op then am else run_direct op am) ops am)"
  using assms
proof (induction ops arbitrary: am)
  case (Cons op ops)
  let ?am = "if P op then am else run_direct op am"
  have "set ops \<subseteq> set (am_readyOps ?am)" using Cons.prems(2,3) by (auto simp: remove_op_def) (metis imageI)
  moreover have "parts_ok ?am" using Cons.prems run_direct_ok by simp
  ultimately show ?case using Cons.IH Cons.prems(3) by simp
qed simp

lemma fold_run_direct_fields:
  "am_readyOps (fold run_direct ops am) = filter (\<lambda>op. op_addr op \<notin> op_addr ` set ops) (am_readyOps am)
   \<and> am_waitingOps (fold run_direct ops am) = am_waitingOps am \<and> am_readyResponses (fold run_direct ops am) = am_readyResponses am
   \<and> am_dc (fold run_direct ops am) = am_dc am \<and> am_waitingResponses (fold run_direct ops am) = am_waitingResponses am"
proof (induction ops arbitrary: am)
  case (Cons op ops)
  have "(op_addr o1 \<noteq> op_addr op \<and> op_addr o1 \<notin> op_addr ` set ops) = (op_addr o1 \<notin> op_addr ` set (op # ops))" for o1 by auto
  then show ?case by (simp add: Cons.IH remove_op_def conj_commute)
qed simp

lemma run_direct_dc: "dc_ok am \<Longrightarrow> dc_ok (if P then am else run_direct op am)"
  by (auto simp: dc_ok_def remove_op_def)

lemma fold_run_direct_dc: "dc_ok am \<Longrightarrow> dc_ok (fold (\<lambda>op am. if P op then am else run_direct op am) ops am)"
proof (induction ops arbitrary: am)
  case (Cons op ops)
  from Cons.IH [OF run_direct_dc [OF Cons.prems, of "P op" op]] show ?case by simp
qed simp

text \<open>A response leaves.\<close>

lemma send_ready_ok:
  assumes "parts_ok am" "ar \<in> set (am_readyResponses am)"
  shows "parts_ok (send_ready sessions ar am)"
proof -
  let ?am = "send_ready sessions ar am"
  from assms(2) obtain us vs where r: "am_readyResponses am = us @ ar # vs" by (auto simp: in_set_conv_decomp)
  have d: "distinct (map ar_addr (am_waitingResponses am @ us @ ar # vs))"
    using assms(1) r by (simp add: parts_ok_def responses_ok_def live_responses_def)
  then have "ar_addr ar \<notin> ar_addr ` set us" "ar_addr ar \<notin> ar_addr ` set vs" by simp_all
  then have "\<forall>q\<in>set (us @ vs). ar_addr q \<noteq> ar_addr ar" by (metis Un_iff imageI set_append)
  then have am': "am_readyResponses ?am = us @ vs" by (simp add: send_ready_def logged_def r remove_ar_split)
  have fields: "am_waitingResponses ?am = am_waitingResponses am" "am_waitingOps ?am = am_waitingOps am" "live_ops ?am = live_ops am"
    "am_readyOps ?am = am_readyOps am" "am_opsCount ?am = am_opsCount am" "am_log ?am = am_log am @ [sendAsyncResponse sessions ar]"
    by (simp_all add: send_ready_def logged_def live_ops_def)
  have "ops_ok ?am" using assms(1) by (simp add: parts_ok_def ops_ok_def fields)
  moreover have "responses_ok ?am"
    using assms(1) d r unfolding parts_ok_def responses_ok_def live_responses_def fields am' by auto
  moreover have "balanced ?am"
  proof -
    have "disposed (sendAsyncResponse sessions ar) = Some (ar_key ar)" "settled (sendAsyncResponse sessions ar) = None"
      "postponed (sendAsyncResponse sessions ar) = None" "left_waiting (sendAsyncResponse sessions ar) = None"
      "direct_started (sendAsyncResponse sessions ar) = None" "direct_called (sendAsyncResponse sessions ar) = None"
      by (simp_all add: sendAsyncResponse_def)
    moreover have "key_effect (sendAsyncResponse sessions ar) K = K" for K by (simp add: sendAsyncResponse_def)
    moreover have "image_mset ar_key (mset (live_responses am)) = image_mset ar_key (mset (live_responses ?am)) + {#ar_key ar#}"
      by (simp add: live_responses_def fields am' r)
    ultimately show ?thesis using assms(1) unfolding parts_ok_def balanced_def fields by simp
  qed
  ultimately show ?thesis by (simp add: parts_ok_def)
qed

lemma send_ready_fields [simp]:
  "am_readyResponses (send_ready sessions ar am) = remove_ar (ar_addr ar) (am_readyResponses am)"
  "am_readyOps (send_ready sessions ar am) = am_readyOps am" "am_waitingOps (send_ready sessions ar am) = am_waitingOps am"
  "am_waitingResponses (send_ready sessions ar am) = am_waitingResponses am"
  by (simp_all add: send_ready_def logged_def)

lemma fold_send_ready:
  assumes "parts_ok am" "set rs \<subseteq> set (am_readyResponses am)" "distinct (map ar_addr rs)"
  shows "parts_ok (fold (send_ready sessions) rs am)"
  using assms
proof (induction rs arbitrary: am)
  case (Cons ar rs)
  have "set rs \<subseteq> set (am_readyResponses (send_ready sessions ar am))"
    using Cons.prems(2,3) by (auto simp: remove_ar_def) (metis imageI)
  moreover have "parts_ok (send_ready sessions ar am)" using Cons.prems send_ready_ok by simp
  ultimately show ?case using Cons.IH Cons.prems(3) by simp
qed simp

lemma fold_send_ready_fields:
  "am_readyResponses (fold (send_ready sessions) rs am) = filter (\<lambda>r. ar_addr r \<notin> ar_addr ` set rs) (am_readyResponses am)
   \<and> am_readyOps (fold (send_ready sessions) rs am) = am_readyOps am
   \<and> am_waitingOps (fold (send_ready sessions) rs am) = am_waitingOps am
   \<and> am_waitingResponses (fold (send_ready sessions) rs am) = am_waitingResponses am"
proof (induction rs arbitrary: am)
  case (Cons ar rs)
  have "(ar_addr o1 \<noteq> ar_addr ar \<and> ar_addr o1 \<notin> ar_addr ` set rs) = (ar_addr o1 \<notin> ar_addr ` set (ar # rs))" for o1 by auto
  then show ?case by (simp add: Cons.IH remove_ar_def conj_commute)
qed simp

lemma processReady_ok:
  assumes "am_ok am"
  shows "am_ok (UA_AsyncManager_processReady sessions am) \<and> am_readyOps (UA_AsyncManager_processReady sessions am) = []
    \<and> am_readyResponses (UA_AsyncManager_processReady sessions am) = []
    \<and> am_waitingOps (UA_AsyncManager_processReady sessions am) = am_waitingOps am
    \<and> am_waitingResponses (UA_AsyncManager_processReady sessions am) = am_waitingResponses am"
proof -
  define am1 where "am1 = fold run_direct (am_readyOps am) (am\<lparr>am_dc := False\<rparr>)"
  define am2 where "am2 = fold (send_ready sessions) (am_readyResponses am1) am1"
  have parts: "parts_ok am" using assms by (simp add: am_ok_parts)
  have "distinct (map op_addr (am_readyOps am))" using parts_distinct [OF parts] by simp
  then have p1: "parts_ok am1"
    using fold_run_direct [of "am\<lparr>am_dc := False\<rparr>" "am_readyOps am" "\<lambda>_. False"] parts by (simp add: am1_def)
  then have "distinct (map ar_addr (am_readyResponses am1))" by (simp add: parts_ok_def responses_ok_def live_responses_def)
  then have "parts_ok am2" unfolding am2_def using fold_send_ready [OF p1] by simp
  moreover have "am_readyOps am2 = []" "am_readyResponses am2 = []" "am_waitingOps am2 = am_waitingOps am" "am_waitingResponses am2 = am_waitingResponses am"
    using fold_run_direct_fields [of "am_readyOps am" "am\<lparr>am_dc := False\<rparr>"] fold_send_ready_fields [of sessions "am_readyResponses am1" am1]
    by (auto simp: am1_def am2_def filter_empty_conv)
  moreover have "UA_AsyncManager_processReady sessions am = am2" by (simp add: UA_AsyncManager_processReady_def Let_def am1_def am2_def)
  ultimately show ?thesis by (simp add: am_ok_parts dc_ok_def)
qed

lemma cancel_context_ok:
  assumes "am_ok am" "set ops \<subseteq> set (am_waitingOps am)" "distinct (map op_addr ops)"
    and "cancel_context context c sync ops am = Inr am'"
  shows "am_ok am'"
  using assms
proof (induction ops arbitrary: am)
  case (Cons op ops)
  show ?case
  proof (cases "op_context op \<noteq> context")
    case True
    then show ?thesis using Cons by auto
  next
    case match: False
    show ?thesis
    proof (cases sync)
      case False
      have "am_ok (cancel_op c op am)" using Cons.prems(1,2) cancel_op_ok by simp
      then show ?thesis
        using Cons.IH [OF _ rest_waiting [OF Cons.prems(2,3) cancel_op_waiting]] Cons.prems(3,4) match False by auto
    next
      case True
      let ?am = "logged [DirectCallback (with_status c op)] ((UA_AsyncOperation_cancel op am)
           \<lparr>am_waitingOps := remove_op op (am_waitingOps am), am_opsCount := am_opsCount am - 1\<rparr>)"
      have d: "direct (asyncOperationType op)" using Cons.prems(4) match True by (auto split: if_splits)
      have op: "op \<in> set (am_waitingOps am)" "op \<in> set (live_ops am)" using Cons.prems(2) by (simp_all add: live_ops_def)
      then have cb: "is_callback op" using d Cons.prems(1) by (auto simp: am_ok_def ops_ok_def)
      have parts: "parts_ok am" using Cons.prems(1) by (simp add: am_ok_parts)
      have "op_addr op \<notin> op_addr ` set (am_readyOps am)" using parts_distinct [OF parts] op(1) by auto
      then have "?am = logged ([CancelCallback (cancelPtr op)] @ [DirectCallback (with_status c op)]) (without_op op am)"
        by (simp add: without_op_def UA_AsyncOperation_cancel_def logged_def remove_absent)
      then have "parts_ok ?am"
        using leave_ok [of am op "with_status c op"] parts op cb by (simp add: parts_ok_def)
      moreover have "dc_ok ?am" using Cons.prems(1) by (auto simp: am_ok_def dc_ok_def logged_def UA_AsyncOperation_cancel_def)
      moreover have "am_waitingOps ?am = remove_op op (am_waitingOps am)" by (simp add: logged_def)
      ultimately show ?thesis
        using Cons.IH [of ?am, OF _ rest_waiting [OF Cons.prems(2,3)]] Cons.prems(3,4) match True d by (auto simp: am_ok_parts)
    qed
  qed
qed simp

lemma async_cancel_ok:
  assumes "am_ok am" "async_cancel context c sync am = Inr am'"
  shows "am_ok am'"
proof -
  from assms(2) obtain am1 where am1: "cancel_context context c sync (am_waitingOps am) am = Inr am1"
    by (cases "cancel_context context c sync (am_waitingOps am) am") (auto simp: async_cancel_def)
  have ok: "am_ok am1" by (rule cancel_context_ok [OF assms(1) _ waiting_distinct [OF assms(1)] am1]) simp
  then have "distinct (map op_addr (am_readyOps am1))" using parts_distinct [of am1] by (simp add: am_ok_parts)
  then show ?thesis
    using assms(2) am1 ok fold_run_direct [of am1 "am_readyOps am1" "\<lambda>op. op_context op \<noteq> context"]
      fold_run_direct_dc [of am1 "\<lambda>op. op_context op \<noteq> context" "am_readyOps am1"]
    by (auto simp: async_cancel_def am_ok_parts split: if_splits)
qed

subsubsection \<open>New operations\<close>

text \<open>The addresses of new operations are not in use, nor is that of their response.\<close>

definition item_addresses :: "op_item \<Rightarrow> nat list" where
  "item_addresses it = [it_addr it, it_output it, it_arguments it]"

definition fresh_items :: "op_item list \<Rightarrow> UA_AsyncManager \<Rightarrow> bool" where
  "fresh_items its am \<longleftrightarrow> distinct (concat (map item_addresses its) @ concat (map addresses (live_ops am)))"

lemma new_op_fields [simp]:
  "addresses (new_op t h it) = item_addresses it" "op_handling (new_op t h it) = h" "asyncOperationType (new_op t h it) = t"
  "op_addr (new_op t h it) = it_addr it"
  by (simp_all add: new_op_def addresses_def item_addresses_def)

lemma queue_full_logged [simp]: "queue_full limit (logged es am) = queue_full limit am"
  by (simp add: queue_full_def logged_def)

definition new_keys :: "op_item list \<Rightarrow> effect list \<Rightarrow> UA_AsyncOperation list \<Rightarrow> bool" where
  "new_keys its es new \<longleftrightarrow> (\<forall>K. distinct (concat (map item_addresses its)) \<longrightarrow> K \<inter> set (concat (map item_addresses its)) = {}
     \<longrightarrow> keys_after K es = K \<union> cancelPtr ` set new)"

lemma new_keys_step:
  assumes "new_keys its es new" "k \<in> set (item_addresses it)"
  shows "new_keys (it # its) es new" "new_keys (it # its) ([Postponed k, CancelCallback k] @ es) new"
    "k = cancelPtr op \<Longrightarrow> new_keys (it # its) ([Postponed k] @ es) (op # new)"
proof -
  show "new_keys (it # its) es new" using assms(1) by (simp add: new_keys_def Int_Un_distrib)
  have "insert k K - {k} = K" if "K \<inter> set (concat (map item_addresses (it # its))) = {}" for K using that assms(2) by auto
  then show "new_keys (it # its) ([Postponed k, CancelCallback k] @ es) new" using assms(1) by (simp add: new_keys_def Int_Un_distrib)
  have "insert k K \<inter> set (concat (map item_addresses its)) = {}"
    if "distinct (concat (map item_addresses (it # its)))" "K \<inter> set (concat (map item_addresses (it # its))) = {}" for K
    using that assms(2) by auto
  then show "new_keys (it # its) ([Postponed k] @ es) (op # new)" if "k = cancelPtr op"
    using assms(1) that unfolding new_keys_def by (simp add: Int_Un_distrib)
qed

lemma new_op_key: "cancelPtr (new_op t h it) \<in> set (item_addresses it)"
  using cancelPtr_address [of "new_op t h it"] by simp

lemma run_operations_effect:
  "run_operations limit t a its (c, am) = (c', am') \<Longrightarrow>
   \<exists>new es. c' = c + length new
     \<and> am' = am\<lparr>am_waitingOps := am_waitingOps am @ new, am_opsCount := am_opsCount am + length new, am_log := am_log am @ es\<rparr>
     \<and> (\<forall>op\<in>set new. op_handling op = OfResponse a \<and> asyncOperationType op = t)
     \<and> subseq (concat (map addresses new)) (concat (map item_addresses its))
     \<and> events postponed es = image_mset cancelPtr (mset new) + events settled es
     \<and> events left_waiting es = {#} \<and> events disposed es = {#} \<and> events direct_started es = {#} \<and> events direct_called es = {#}
     \<and> new_keys its es new"
proof (induction its arbitrary: c am)
  case Nil
  then show ?case by (intro exI [of _ "[]"]) (simp add: new_keys_def)
next
  case (Cons it its)
  let ?op = "new_op t (OfResponse a) it"
  let ?k = "cancelPtr ?op"
  consider (at_once) "it_done it" | (full) "\<not> it_done it" "queue_full limit am" | (queued) "\<not> it_done it" "\<not> queue_full limit am" by blast
  then show ?case
  proof cases
    case at_once
    with Cons.prems have "run_operations limit t a its (c, am) = (c', am')" by simp
    from Cons.IH [OF this] obtain new es where new: "c' = c + length new"
      "am' = am\<lparr>am_waitingOps := am_waitingOps am @ new, am_opsCount := am_opsCount am + length new, am_log := am_log am @ es\<rparr>"
      "\<forall>op\<in>set new. op_handling op = OfResponse a \<and> asyncOperationType op = t"
      "subseq (concat (map addresses new)) (concat (map item_addresses its))"
      "events postponed es = image_mset cancelPtr (mset new) + events settled es"
      "events left_waiting es = {#}" "events disposed es = {#}" "events direct_started es = {#}" "events direct_called es = {#}"
      "new_keys its es new"
      by blast
    show ?thesis
      by (rule exI [of _ new], rule exI [of _ es]) (use new new_keys_step(1) [OF new(10) new_op_key] in \<open>auto intro: list_emb_append2\<close>)
  next
    case full
    let ?am = "am\<lparr>am_log := am_log am @ [Postponed ?k, CancelCallback ?k]\<rparr>"
    from Cons.prems full have "run_operations limit t a its (c, ?am) = (c', am')"
      by (simp add: persistAsyncResponseOperation_def UA_AsyncOperation_cancel_def Let_def) (simp add: logged_def)
    from Cons.IH [OF this] obtain new es where new: "c' = c + length new"
      "am' = am\<lparr>am_waitingOps := am_waitingOps am @ new, am_opsCount := am_opsCount am + length new,
          am_log := am_log am @ [Postponed ?k, CancelCallback ?k] @ es\<rparr>"
      "\<forall>op\<in>set new. op_handling op = OfResponse a \<and> asyncOperationType op = t"
      "subseq (concat (map addresses new)) (concat (map item_addresses its))"
      "events postponed es = image_mset cancelPtr (mset new) + events settled es"
      "events left_waiting es = {#}" "events disposed es = {#}" "events direct_started es = {#}" "events direct_called es = {#}"
      "new_keys its es new"
      by auto
    show ?thesis
      by (rule exI [of _ new], rule exI [of _ "[Postponed ?k, CancelCallback ?k] @ es"])
        (use new new_keys_step(2) [OF new(10) new_op_key] in \<open>auto intro: list_emb_append2\<close>)
  next
    case queued
    let ?am = "am\<lparr>am_log := am_log am @ [Postponed ?k], am_waitingOps := am_waitingOps am @ [?op], am_opsCount := am_opsCount am + 1\<rparr>"
    from Cons.prems queued have "run_operations limit t a its (c + 1, ?am) = (c', am')"
      by (simp add: persistAsyncResponseOperation_def Let_def) (simp add: logged_def)
    from Cons.IH [OF this] obtain new es where new: "c' = c + 1 + length new"
      "am' = am\<lparr>am_waitingOps := (am_waitingOps am @ [?op]) @ new, am_opsCount := am_opsCount am + 1 + length new,
          am_log := (am_log am @ [Postponed ?k]) @ es\<rparr>"
      "\<forall>op\<in>set new. op_handling op = OfResponse a \<and> asyncOperationType op = t"
      "subseq (concat (map addresses new)) (concat (map item_addresses its))"
      "events postponed es = image_mset cancelPtr (mset new) + events settled es"
      "events left_waiting es = {#}" "events disposed es = {#}" "events direct_started es = {#}" "events direct_called es = {#}"
      "new_keys its es new"
      by auto
    show ?thesis
      by (rule exI [of _ "?op # new"], rule exI [of _ "[Postponed ?k] @ es"])
        (use new new_keys_step(3) [OF new(10) new_op_key refl] in \<open>auto intro: list_emb_append_mono\<close>)
  qed
qed

lemma distinct_subseq_append: "subseq xs ys \<Longrightarrow> distinct (ys @ zs) \<Longrightarrow> distinct (xs @ zs)"
  by (auto simp: subseq_conv_nths intro: distinct_nthsI dest: in_set_nthsD)

lemma distinct_middle: "distinct (xs @ ys @ zs) \<longleftrightarrow> distinct (ys @ xs @ zs)"
  by auto

lemma fresh_new_ops:
  assumes "fresh_items its am" "subseq (concat (map addresses new)) (concat (map item_addresses its))"
  shows "distinct (concat (map addresses (am_waitingOps am @ new @ am_readyOps am)))"
  using distinct_subseq_append [OF assms(2), of "concat (map addresses (live_ops am))"] assms(1)
  by (auto simp: fresh_items_def live_ops_def)

lemma log_parts [simp]:
  "ops_ok (am\<lparr>am_log := l\<rparr>) = ops_ok am" "responses_ok (am\<lparr>am_log := l\<rparr>) = responses_ok am" "dc_ok (am\<lparr>am_log := l\<rparr>) = dc_ok am"
  by (simp_all add: ops_ok_def responses_ok_def dc_ok_def live_ops_def live_responses_def)

lemma logged_parts [simp]:
  "ops_ok (logged es am) = ops_ok am" "responses_ok (logged es am) = responses_ok am" "dc_ok (logged es am) = dc_ok am"
  by (simp_all add: logged_def)

lemma balanced_extend:
  assumes bal: "balanced am" and log: "am_log am' = am_log am @ es" and w: "am_waitingOps am' = am_waitingOps am @ new"
    and p: "events postponed es = image_mset cancelPtr (mset new) + events settled es"
    and r: "image_mset ar_key (mset (live_responses am')) = image_mset ar_key (mset (live_responses am)) + rs"
      "events left_waiting es = rs + events disposed es"
    and c: "image_mset op_addr (mset (filter is_callback (live_ops am'))) = image_mset op_addr (mset (filter is_callback (live_ops am))) + cs"
      "events direct_started es = cs + events direct_called es"
    and k: "keys_after (cancelPtr ` set (am_waitingOps am)) es = cancelPtr ` set (am_waitingOps am) \<union> cancelPtr ` set new"
  shows "balanced am'"
proof -
  have b: "events postponed (am_log am) = image_mset cancelPtr (mset (am_waitingOps am)) + events settled (am_log am)"
    "events left_waiting (am_log am) = image_mset ar_key (mset (live_responses am)) + events disposed (am_log am)"
    "events direct_started (am_log am) = image_mset op_addr (mset (filter is_callback (live_ops am))) + events direct_called (am_log am)"
    "keys_after {} (am_log am) = cancelPtr ` set (am_waitingOps am)"
    using bal by (simp_all only: balanced_def)
  have "events postponed (am_log am') = image_mset cancelPtr (mset (am_waitingOps am')) + events settled (am_log am')"
    by (simp add: log w p b(1))
  moreover have "events left_waiting (am_log am') = image_mset ar_key (mset (live_responses am')) + events disposed (am_log am')"
    by (simp only: log r events_simps b(2) ac_simps)
  moreover have "events direct_started (am_log am') = image_mset op_addr (mset (filter is_callback (live_ops am'))) + events direct_called (am_log am')"
    by (simp only: log c events_simps b(3) ac_simps)
  moreover have "keys_after {} (am_log am') = cancelPtr ` set (am_waitingOps am')"
    by (simp add: log b(4) k w image_Un)
  ultimately show ?thesis by (simp only: balanced_def)
qed

lemma run_service_ok:
  assumes ok: "am_ok am" and fresh: "fresh_items its am" "a \<notin> ar_addr ` set (live_responses am)" and t: "\<not> direct t"
  shows "am_ok (snd (run_service ctx t a its am))"
proof -
  obtain c am1 where run: "run_operations (maxAsyncOperationQueueSize ctx) t a its (0, am) = (c, am1)" by fastforce
  from run_operations_effect [OF run] obtain new es where new: "c = length new"
    "am1 = am\<lparr>am_waitingOps := am_waitingOps am @ new, am_opsCount := am_opsCount am + length new, am_log := am_log am @ es\<rparr>"
    "\<forall>op\<in>set new. op_handling op = OfResponse a \<and> asyncOperationType op = t"
    "subseq (concat (map addresses new)) (concat (map item_addresses its))"
    and es: "events postponed es = image_mset cancelPtr (mset new) + events settled es"
    "events left_waiting es = {#}" "events disposed es = {#}" "events direct_started es = {#}" "events direct_called es = {#}" and nk: "new_keys its es new"
    by auto
  have not_cb: "\<forall>op\<in>set new. \<not> is_callback op" using new(3) by (auto simp: is_callback_def)
  have "distinct (concat (map addresses (am_waitingOps am @ new @ am_readyOps am)))" by (rule fresh_new_ops [OF fresh(1) new(4)])
  then have ops: "ops_ok am1"
    using ok not_cb new(3) t by (auto simp: new(2) am_ok_def ops_ok_def live_ops_def)
  have old: "\<forall>op\<in>set (am_waitingOps am). \<not> part_of a op"
  proof -
    have "\<forall>op\<in>set (am_waitingOps am). \<forall>b. part_of b op \<longrightarrow> b \<in> ar_addr ` set (am_waitingResponses am)"
      using ok unfolding am_ok_def responses_ok_def by blast
    moreover have "a \<notin> ar_addr ` set (am_waitingResponses am)" using fresh(2) by (simp add: live_responses_def image_Un)
    ultimately show ?thesis by blast
  qed
  have bal: "balanced am" using ok by (simp add: am_ok_def)
  have keys: "keys_after (cancelPtr ` set (am_waitingOps am)) es = cancelPtr ` set (am_waitingOps am) \<union> cancelPtr ` set new"
  proof -
    let ?I = "set (concat (map item_addresses its))" and ?W = "cancelPtr ` set (am_waitingOps am)"
    have "?W \<subseteq> set (concat (map addresses (live_ops am)))" using cancelPtr_address by (auto simp: live_ops_def)
    moreover have "?I \<inter> set (concat (map addresses (live_ops am))) = {}" and d: "distinct (concat (map item_addresses its))"
      using fresh(1) by (simp_all only: fresh_items_def distinct_append)
    ultimately have "?W \<inter> ?I = {}" by blast
    then show ?thesis using nk d by (simp only: new_keys_def)
  qed
  show ?thesis
  proof (cases "new = []")
    case True
    have am1: "am1 = am\<lparr>am_log := am_log am @ es\<rparr>" using new(2) True by simp
    have "ops_ok am1" "responses_ok am1" "dc_ok am1"
      using ok unfolding am1 by (simp_all add: am_ok_def)
    moreover have "balanced am1"
      by (rule balanced_extend [OF bal _ _ es(1) _ _ _ _ keys, where rs = "{#}" and cs = "{#}"])
        (simp_all add: am1 True es(2-5) live_ops_def live_responses_def)
    ultimately show ?thesis using run new(1) True by (simp add: run_service_def am_ok_def)
  next
    case False
    define ar where "ar = \<lparr>ar_addr = a, ar_requestId = currentRequestId ctx, ar_requestHandle = currentRequestHandle ctx,
        ar_timeout = (if asyncOperationTimeout ctx > 0 then nowMonotonic ctx + asyncOperationTimeout ctx else 9223372036854775807),
        ar_sessionId = session_sessionId ctx, ar_opCountdown = length new, ar_serviceResult = OpcUa_Good\<rparr>"
    have ar: "ar_addr ar = a" "ar_opCountdown ar = length new" "ar_key ar = (currentRequestId ctx, session_sessionId ctx)" by (simp_all add: ar_def ar_key_def)
    let ?am = "persistAsyncResponse ctx a (length new) am1"
    have fields: "am_waitingOps ?am = am_waitingOps am @ new" "am_readyOps ?am = am_readyOps am" "am_opsCount ?am = am_opsCount am1"
      "am_waitingResponses ?am = am_waitingResponses am @ [ar]" "am_readyResponses ?am = am_readyResponses am" "am_dc ?am = am_dc am"
      "am_log ?am = am_log am @ es @ [RequestWaits (currentRequestId ctx) (session_sessionId ctx)]" "live_ops ?am = live_ops am1"
      by (simp_all add: persistAsyncResponse_def logged_def new(2) ar_def live_ops_def)
    have "ops_ok ?am" using ops unfolding ops_ok_def fields by (simp add: new(2))
    moreover have "responses_ok ?am"
    proof -
      have r: "distinct (map ar_addr (live_responses am))"
        "\<forall>op\<in>set (am_waitingOps am). \<forall>b. part_of b op \<longrightarrow> b \<in> ar_addr ` set (am_waitingResponses am)"
        "\<forall>q\<in>set (am_waitingResponses am). ar_opCountdown q = length (filter (part_of (ar_addr q)) (am_waitingOps am)) \<and> ar_opCountdown q > 0"
        "\<forall>q\<in>set (am_readyResponses am). ar_opCountdown q = 0"
        using ok unfolding am_ok_def responses_ok_def by blast+
      have "distinct (map ar_addr (live_responses ?am))" using r(1) fresh(2) by (auto simp: live_responses_def fields ar)
      moreover have "\<forall>op\<in>set (am_waitingOps am @ new). \<forall>b. part_of b op \<longrightarrow> b \<in> ar_addr ` set (am_waitingResponses am @ [ar])"
        using r(2) new(3) ar(1) by (auto simp: part_of_def)
      moreover have "ar_opCountdown q = length (filter (part_of (ar_addr q)) (am_waitingOps am @ new)) \<and> ar_opCountdown q > 0"
        if q: "q \<in> set (am_waitingResponses am @ [ar])" for q
      proof (cases "q = ar")
        case True
        have "filter (part_of a) (am_waitingOps am) = []" using old by (auto simp: filter_empty_conv)
        moreover have "filter (part_of a) new = new" using new(3) by (auto simp: filter_id_conv part_of_def)
        ultimately show ?thesis using True ar \<open>new \<noteq> []\<close> by simp
      next
        case False
        then have q: "q \<in> set (am_waitingResponses am)" using q by simp
        then have "ar_addr q \<noteq> a" using fresh(2) by (auto simp: live_responses_def)
        then have "filter (part_of (ar_addr q)) new = []" using new(3) by (auto simp: filter_empty_conv part_of_def)
        then show ?thesis using bspec [OF r(3) q] by auto
      qed
      ultimately show ?thesis unfolding responses_ok_def fields using r(4) by blast
    qed
    moreover have "dc_ok ?am" using ok by (simp add: am_ok_def dc_ok_def fields)
    moreover have "balanced ?am"
    proof -
      have cb: "filter is_callback new = []" using not_cb by (simp add: filter_empty_conv)
      have p: "events postponed (es @ [RequestWaits (currentRequestId ctx) (session_sessionId ctx)]) = image_mset cancelPtr (mset new)
          + events settled (es @ [RequestWaits (currentRequestId ctx) (session_sessionId ctx)])" by (simp add: es(1))
      have k: "keys_after (cancelPtr ` set (am_waitingOps am)) (es @ [RequestWaits (currentRequestId ctx) (session_sessionId ctx)])
          = cancelPtr ` set (am_waitingOps am) \<union> cancelPtr ` set new" by (simp add: keys)
      show ?thesis
        by (rule balanced_extend [OF bal fields(7) fields(1) p _ _ _ _ k, where rs = "{#(currentRequestId ctx, session_sessionId ctx)#}" and cs = "{#}"])
          (simp_all only: fields es(2-5) events_simps live_ops_def live_responses_def, simp_all add: cb ar)
    qed
    ultimately show ?thesis using run new(1) False by (simp add: run_service_def am_ok_def)
  qed
qed

lemma am_services_ok:
  assumes "am_ok am" "fresh_items its am" "a \<notin> ar_addr ` set (live_responses am)"
  shows "am_ok (snd (snd (Service_Read al mx ctx ts age a its am)))" "am_ok (snd (snd (Service_Write al mx ctx a its am)))"
    "am_ok (snd (snd (Service_Call al mx ctx a its am)))"
  using assms run_service_ok [OF assms] by (simp_all add: Service_Read_def Service_Write_def Service_Call_def direct_def)

lemma start_async_ok:
  assumes ok: "am_ok am" and fresh: "fresh_items [it] am" and t: "direct t"
  shows "am_ok (snd (start_async t al limit now context timeout it am))"
proof -
  define h where "h = OfCallback (if timeout > 0 then now + uint timeout * 10000 else 9223372036854775807) context"
  let ?op = "new_op t h it"
  have cb: "is_callback ?op" "part_of a ?op \<longleftrightarrow> False" for a by (simp_all add: h_def is_callback_def part_of_def)
  show ?thesis
  proof (cases "\<not> al \<or> queue_full limit am \<or> it_done it")
    case True
    have "am_ok (logged [DirectStarted (op_addr ?op), DirectCallback ?op] am)"
      using ok by (simp add: am_ok_def balanced_def) (simp add: live_ops_def live_responses_def logged_def)
    then show ?thesis using True ok by (auto simp: start_async_def h_def Let_def)
  next
    case False
    let ?am = "logged [DirectStarted (op_addr ?op)] ((logged [Postponed (cancelPtr ?op)] am)
        \<lparr>am_waitingOps := am_waitingOps am @ [?op], am_opsCount := am_opsCount am + 1\<rparr>)"
    have am': "snd (start_async t al limit now context timeout it am) = ?am"
      using False by (simp add: start_async_def persistAsyncDirectOperation_def h_def Let_def) (simp add: logged_def)
    have fields: "am_waitingOps ?am = am_waitingOps am @ [?op]" "am_readyOps ?am = am_readyOps am" "am_opsCount ?am = am_opsCount am + 1"
      "am_waitingResponses ?am = am_waitingResponses am" "am_readyResponses ?am = am_readyResponses am" "am_dc ?am = am_dc am"
      "am_log ?am = am_log am @ [Postponed (cancelPtr ?op), DirectStarted (op_addr ?op)]"
      by (simp_all add: logged_def)
    have "distinct (concat (map addresses (am_waitingOps am @ [?op] @ am_readyOps am)))"
      by (rule fresh_new_ops [OF fresh]) simp
    then have "ops_ok ?am" using ok t cb(1) unfolding ops_ok_def fields live_ops_def by (auto simp: am_ok_def ops_ok_def live_ops_def)
    moreover have "responses_ok ?am"
      using ok cb(2) unfolding am_ok_def responses_ok_def live_responses_def fields by auto
    moreover have "dc_ok ?am" using ok unfolding am_ok_def dc_ok_def fields by simp
    moreover have "balanced ?am"
    proof (rule balanced_extend [where am = am and es = "[Postponed (cancelPtr ?op), DirectStarted (op_addr ?op)]"
          and new = "[?op]" and rs = "{#}" and cs = "{#op_addr ?op#}"])
      show "balanced am" using ok by (simp only: am_ok_def)
    qed (simp_all only: fields live_ops_def live_responses_def, simp_all add: cb(1))
    ultimately show ?thesis unfolding am' by (simp add: am_ok_def)
  qed
qed

subsubsection \<open>Results\<close>

lemma find_in: "find P xs = Some x \<Longrightarrow> x \<in> set xs \<and> P x"
  by (auto simp: find_Some_iff)

lemma setters_ok:
  assumes "am_ok am"
  shows "am_ok (snd (am_setAsyncReadResult r am))" "am_ok (snd (am_setAsyncWriteResult v c am))" "am_ok (snd (am_setAsyncCallMethodResult o1 c am))"
  unfolding am_setAsyncReadResult_def am_setAsyncWriteResult_def am_setAsyncCallMethodResult_def
  by (auto split: option.split dest!: find_in intro!: process_ok assms simp: settles_def)

lemma clear_ok: "am_ok am \<Longrightarrow> am_ok (UA_AsyncManager_clear sessions am)"
proof -
  assume "am_ok am"
  then have "am_ok (fold (cancel_op OpcUa_BadShutdown) (am_waitingOps am) am)"
    using fold_cancel_ok [of am "am_waitingOps am" "\<lambda>_ _. False" OpcUa_BadShutdown] waiting_distinct by simp
  then show ?thesis unfolding UA_AsyncManager_clear_def using processReady_ok by blast
qed

subsection \<open>Runs\<close>

datatype am_event =
    ReadRequest bool nat service_context int int nat "op_item list"
  | WriteRequest bool nat service_context nat "op_item list"
  | CallRequest bool nat service_context nat "op_item list"
  | StartRead bool nat int nat "32 word" op_item
  | StartWrite bool nat int nat "32 word" op_item
  | StartCall bool nat int nat "32 word" op_item
  | SetRead nat
  | SetWrite nat UA_StatusCode
  | SetCall nat UA_StatusCode
  | Timeouts bool int
  | RunReady "UA_NodeId \<Rightarrow> bool option"
  | CancelRequest UA_NodeId "32 word"
  | CancelContext nat UA_StatusCode bool
  | ClearAll "UA_NodeId \<Rightarrow> bool option"

definition defined :: "'a res \<Rightarrow> 'a option" where
  "defined r = (case r of Inl _ \<Rightarrow> None | Inr x \<Rightarrow> Some x)"

definition if_fresh :: "op_item list \<Rightarrow> nat list \<Rightarrow> UA_AsyncManager \<Rightarrow> UA_AsyncManager \<Rightarrow> UA_AsyncManager option" where
  "if_fresh its as am am' = (if fresh_items its am \<and> set as \<inter> ar_addr ` set (live_responses am) = {} then Some am' else None)"

text \<open>One call into the manager; none when memory in use is given for new operations, or for undefined behaviour.\<close>

definition am_step :: "am_event \<Rightarrow> UA_AsyncManager \<Rightarrow> UA_AsyncManager option" where
  "am_step e am = (case e of
      ReadRequest al mx ctx ts age a its \<Rightarrow> if_fresh its [a] am (snd (snd (Service_Read al mx ctx ts age a its am)))
    | WriteRequest al mx ctx a its \<Rightarrow> if_fresh its [a] am (snd (snd (Service_Write al mx ctx a its am)))
    | CallRequest al mx ctx a its \<Rightarrow> if_fresh its [a] am (snd (snd (Service_Call al mx ctx a its am)))
    | StartRead al limit now c timeout it \<Rightarrow> if_fresh [it] [] am (snd (read_async al limit now c timeout it am))
    | StartWrite al limit now c timeout it \<Rightarrow> if_fresh [it] [] am (snd (write_async al limit now c timeout it am))
    | StartCall al limit now c timeout it \<Rightarrow> if_fresh [it] [] am (snd (call_async al limit now c timeout it am))
    | SetRead r \<Rightarrow> Some (snd (am_setAsyncReadResult r am))
    | SetWrite v c \<Rightarrow> Some (snd (am_setAsyncWriteResult v c am))
    | SetCall r c \<Rightarrow> Some (snd (am_setAsyncCallMethodResult r c am))
    | Timeouts configured tNow \<Rightarrow> Some (checkTimeouts configured tNow am)
    | RunReady sessions \<Rightarrow> Some (UA_AsyncManager_processReady sessions am)
    | CancelRequest sid h \<Rightarrow> map_option snd (defined (UA_AsyncManager_cancel sid h am))
    | CancelContext c status sync \<Rightarrow> defined (async_cancel c status sync am)
    | ClearAll sessions \<Rightarrow> Some (UA_AsyncManager_clear sessions am))"

fun am_run :: "am_event list \<Rightarrow> UA_AsyncManager \<Rightarrow> UA_AsyncManager option" where
  "am_run [] am = Some am"
| "am_run (e # es) am = (case am_step e am of None \<Rightarrow> None | Some am' \<Rightarrow> am_run es am')"

lemma if_freshD: "if_fresh its as am am' = Some am2 \<Longrightarrow> am2 = am' \<and> fresh_items its am \<and> (\<forall>a\<in>set as. a \<notin> ar_addr ` set (live_responses am))"
  by (auto simp: if_fresh_def split: if_splits)

lemma definedD: "defined r = Some x \<Longrightarrow> r = Inr x"
  by (cases r) (simp_all add: defined_def)

lemma am_step_ok:
  assumes "am_ok am" "am_step e am = Some am'"
  shows "am_ok am'"
  using assms
  by (cases e)
    (auto simp: am_step_def read_async_def write_async_def call_async_def direct_def setters_ok checkTimeouts_ok processReady_ok clear_ok
      dest!: if_freshD definedD intro: am_services_ok start_async_ok UA_AsyncManager_cancel_ok async_cancel_ok)

lemma am_run_ok: "am_ok am \<Longrightarrow> am_run es am = Some am' \<Longrightarrow> am_ok am'"
proof (induction es arbitrary: am)
  case (Cons e es)
  then obtain am1 where "am_step e am = Some am1" "am_run es am1 = Some am'" by (auto split: option.splits)
  then show ?case using Cons.IH am_step_ok [OF Cons.prems(1)] by blast
qed simp

subsection \<open>Sent or dropped\<close>

text \<open>What the server knew of its sessions whenever a run handled the ready responses.\<close>

fun view_of :: "am_event \<Rightarrow> (UA_NodeId \<Rightarrow> bool option) list" where
  "view_of (RunReady sessions) = [sessions]" | "view_of (ClearAll sessions) = [sessions]" | "view_of _ = []"

definition views :: "am_event list \<Rightarrow> (UA_NodeId \<Rightarrow> bool option) set" where
  "views es = set (concat (map view_of es))"

text \<open>A response is sent only where its session had a channel, and dropped only where it had none.\<close>

definition justified :: "(UA_NodeId \<Rightarrow> bool option) set \<Rightarrow> effect list \<Rightarrow> bool" where
  "justified V log \<longleftrightarrow> (\<forall>k\<in>#events sent log. \<exists>v\<in>V. v (snd k) = Some True) \<and> (\<forall>k\<in>#events dropped log. \<exists>v\<in>V. v (snd k) \<noteq> Some True)"

lemma justified_append [simp]: "justified V (a @ b) \<longleftrightarrow> justified V a \<and> justified V b"
  by (auto simp: justified_def)

lemma justified_quiet: "events disposed es = {#} \<Longrightarrow> justified V es"
  by (simp add: justified_def disposed_split)

lemma fold_log:
  assumes "\<And>x am. am_log (f x am) = am_log am @ g x"
  shows "am_log (fold f xs am) = am_log am @ concat (map g xs)"
  by (induction xs arbitrary: am) (simp_all add: assms)

lemma events_concat: "(\<And>x. events f (g x) = {#}) \<Longrightarrow> events f (concat (map g xs)) = {#}"
  by (induction xs) simp_all

lemma process_log: "am_log (am_processOperationResult op am) = am_log am"
  by (simp add: am_processOperationResult_def update_ar_def Let_def split: op_handling.split option.split)

lemma cancel_op_log: "am_log (cancel_op c op am) = am_log am @ [CancelCallback (cancelPtr op)]"
  by (simp add: cancel_op_def process_log UA_AsyncOperation_cancel_def logged_def)

lemma run_direct_log: "am_log (run_direct op am) = am_log am @ [DirectCallback op]"
  by (simp add: run_direct_def logged_def)

lemma send_ready_log: "am_log (send_ready sessions ar am) = am_log am @ [sendAsyncResponse sessions ar]"
  by (simp add: send_ready_def logged_def)

lemma processReady_log:
  "am_log (UA_AsyncManager_processReady sessions am)
    = am_log am @ map DirectCallback (am_readyOps am) @ map (sendAsyncResponse sessions) (am_readyResponses am)"
  using fold_log [of run_direct "\<lambda>op. [DirectCallback op]", OF run_direct_log] fold_log [of "send_ready sessions", OF send_ready_log]
    fold_run_direct_fields [of "am_readyOps am" "am\<lparr>am_dc := False\<rparr>"]
  by (simp add: UA_AsyncManager_processReady_def Let_def)

lemma direct_callbacks_quiet: "events f (map DirectCallback ops) = {#}" if "\<And>op. f (DirectCallback op) = None" for ops
  by (induction ops) (simp_all add: that)

lemma events_send:
  "events sent (map (sendAsyncResponse sessions) rs) = filter_mset (\<lambda>k. sessions (snd k) = Some True) (image_mset ar_key (mset rs))"
  "events dropped (map (sendAsyncResponse sessions) rs) = filter_mset (\<lambda>k. sessions (snd k) \<noteq> Some True) (image_mset ar_key (mset rs))"
  by (induction rs) (simp_all add: sendAsyncResponse_def ar_key_def)

lemma processReady_justified: "sessions \<in> V \<Longrightarrow> justified V (am_log am) \<Longrightarrow> justified V (am_log (UA_AsyncManager_processReady sessions am))"
  unfolding processReady_log justified_append
  by (auto simp: justified_quiet direct_callbacks_quiet) (auto simp: justified_def events_send)

lemma fold_cancel_justified:
  "justified V (am_log am) \<Longrightarrow> justified V (am_log (fold (\<lambda>op am. if P am op then am else cancel_op c op am) ops am))"
  by (induction ops arbitrary: am) (simp_all add: cancel_op_log justified_quiet)

lemma cancel_request_justified:
  "justified V (am_log am) \<Longrightarrow> cancel_request sid h ops (n, am) = Inr (n', am') \<Longrightarrow> justified V (am_log am')"
proof (induction ops arbitrary: n am)
  case (Cons op ops)
  have log: "am_log (update_ar f a am) = am_log am" for f a by (simp add: update_ar_def)
  show ?case
    using Cons.prems by (auto split: op_handling.splits option.splits if_splits elim!: Cons.IH [rotated] simp: cancel_op_log log justified_quiet)
qed simp

lemma cancel_context_justified:
  "justified V (am_log am) \<Longrightarrow> cancel_context c status sync ops am = Inr am' \<Longrightarrow> justified V (am_log am')"
proof (induction ops arbitrary: am)
  case (Cons op ops)
  let ?left = "logged [DirectCallback (with_status status op)] ((UA_AsyncOperation_cancel op am)
      \<lparr>am_waitingOps := remove_op op (am_waitingOps am), am_opsCount := am_opsCount am - 1\<rparr>)"
  have "am_log ?left = am_log am @ [CancelCallback (cancelPtr op), DirectCallback (with_status status op)]"
    by (simp add: UA_AsyncOperation_cancel_def logged_def)
  then have left: "justified V (am_log ?left)" using Cons.prems(1) by (simp add: justified_quiet)
  have cancelled: "justified V (am_log (cancel_op status op am))" using Cons.prems(1) by (simp add: cancel_op_log justified_quiet)
  consider "op_context op \<noteq> c" | "op_context op = c" "\<not> sync" | "op_context op = c" "sync" by blast
  then show ?case
  proof cases
    case 1
    then show ?thesis using Cons by simp
  next
    case 2
    then show ?thesis using Cons.IH [OF cancelled] Cons.prems(2) by simp
  next
    case 3
    then show ?thesis using Cons.IH [OF left] Cons.prems(2) by (simp split: if_splits)
  qed
qed simp

lemma async_cancel_justified:
  assumes "justified V (am_log am)" "async_cancel c status sync am = Inr am'"
  shows "justified V (am_log am')"
proof -
  from assms(2) obtain am1 where am1: "cancel_context c status sync (am_waitingOps am) am = Inr am1"
    by (cases "cancel_context c status sync (am_waitingOps am) am") (auto simp: async_cancel_def)
  have "justified V (am_log am1)" by (rule cancel_context_justified [OF assms(1) am1])
  moreover have "justified V (am_log (fold (\<lambda>op am. if P op then am else run_direct op am) ops am2))" if "justified V (am_log am2)" for P ops am2
    using that by (induction ops arbitrary: am2) (simp_all add: run_direct_log justified_quiet)
  ultimately show ?thesis using assms(2) am1 by (auto simp: async_cancel_def split: if_splits)
qed

lemma run_service_justified: "justified V (am_log am) \<Longrightarrow> justified V (am_log (snd (run_service ctx t a its am)))"
proof -
  assume ok: "justified V (am_log am)"
  obtain c am1 where run: "run_operations (maxAsyncOperationQueueSize ctx) t a its (0, am) = (c, am1)" by fastforce
  from run_operations_effect [OF run] obtain es where es: "am_log am1 = am_log am @ es" "events disposed es = {#}" by auto
  then have "justified V (am_log am1)" using ok by (simp add: justified_quiet)
  then show ?thesis using run by (simp add: run_service_def persistAsyncResponse_def logged_def justified_quiet)
qed

lemma start_async_justified: "justified V (am_log am) \<Longrightarrow> justified V (am_log (snd (start_async t al limit now c timeout it am)))"
  by (simp add: start_async_def persistAsyncDirectOperation_def UA_AsyncOperation_cancel_def logged_def justified_quiet Let_def)

lemma setters_justified:
  assumes "justified V (am_log am)"
  shows "justified V (am_log (snd (am_setAsyncReadResult r am)))" "justified V (am_log (snd (am_setAsyncWriteResult v c am)))"
    "justified V (am_log (snd (am_setAsyncCallMethodResult o1 c am)))"
  using assms
  by (simp_all add: am_setAsyncReadResult_def am_setAsyncWriteResult_def am_setAsyncCallMethodResult_def process_log logged_def
      justified_quiet split: option.split)

lemma am_step_justified:
  assumes j: "justified V (am_log am)" and e: "am_step e am = Some am'" and v: "set (view_of e) \<subseteq> V"
  shows "justified V (am_log am')"
proof -
  have clear: "justified V (am_log (UA_AsyncManager_clear s am))" if "s \<in> V" for s
    unfolding UA_AsyncManager_clear_def
    using processReady_justified [OF that fold_cancel_justified [OF j, where P = "\<lambda>_ _. False"]] by simp
  show ?thesis
    using e v
    by (cases e)
      (auto simp: am_step_def read_async_def write_async_def call_async_def Service_Read_def Service_Write_def Service_Call_def
        UA_AsyncManager_cancel_def j setters_justified [OF j] run_service_justified [OF j] start_async_justified [OF j]
        processReady_justified [OF _ j] fold_cancel_justified [OF j] checkTimeouts_def clear
        dest!: if_freshD definedD dest: cancel_request_justified [OF j] async_cancel_justified [OF j])
qed

lemma am_run_justified: "justified V (am_log am) \<Longrightarrow> am_run es am = Some am' \<Longrightarrow> views es \<subseteq> V \<Longrightarrow> justified V (am_log am')"
proof (induction es arbitrary: am)
  case (Cons e es)
  then obtain am1 where "am_step e am = Some am1" "am_run es am1 = Some am'" by (auto split: option.splits)
  then show ?case using Cons.IH [of am1] Cons.prems am_step_justified [of V am e am1] by (auto simp: views_def)
qed simp

subsubsection \<open>Clearing\<close>

lemma fold_cancel_log: "am_log (fold (cancel_op c) ops am) = am_log am @ map (\<lambda>op. CancelCallback (cancelPtr op)) ops"
  using fold_log [of "cancel_op c" "\<lambda>op. [CancelCallback (cancelPtr op)]", OF cancel_op_log] by simp

lemma all_cancelled:
  assumes "am_ok am"
  shows "am_ok (fold (cancel_op c) (am_waitingOps am) am) \<and> am_waitingOps (fold (cancel_op c) (am_waitingOps am) am) = []
    \<and> am_waitingResponses (fold (cancel_op c) (am_waitingOps am) am) = []"
proof -
  define am1 where "am1 = fold (cancel_op c) (am_waitingOps am) am"
  have ok1: "am_ok am1"
    using fold_cancel_ok [of am "am_waitingOps am" "\<lambda>_ _. False" c] assms waiting_distinct by (simp add: am1_def)
  have ops: "am_waitingOps am1 = []" by (auto simp: am1_def fold_cancel_all filter_empty_conv)
  have "am_waitingResponses am1 = []"
  proof (rule ccontr)
    assume "am_waitingResponses am1 \<noteq> []"
    then obtain ar where "ar \<in> set (am_waitingResponses am1)" by (meson list.set_sel(1))
    then have "0 < length (filter (part_of (ar_addr ar)) (am_waitingOps am1))"
      using ok1 unfolding am_ok_def responses_ok_def by metis
    then show False using ops by simp
  qed
  then show ?thesis using ok1 ops by (simp add: am1_def)
qed

lemma clear_settles:
  assumes "am_ok am"
  shows "let am' = UA_AsyncManager_clear sessions am in
      am_waitingOps am' = [] \<and> am_readyOps am' = [] \<and> am_waitingResponses am' = [] \<and> am_readyResponses am' = [] \<and> am_opsCount am' = 0
    \<and> events postponed (am_log am') = events settled (am_log am') \<and> events direct_started (am_log am') = events direct_called (am_log am')"
proof -
  let ?am = "UA_AsyncManager_clear sessions am"
  have empty: "am_waitingOps ?am = []" "am_waitingResponses ?am = []" "am_readyOps ?am = []" "am_readyResponses ?am = []"
    using all_cancelled [OF assms, of OpcUa_BadShutdown] processReady_ok [of _ sessions] by (simp_all add: UA_AsyncManager_clear_def)
  have "am_ok ?am" by (rule clear_ok [OF assms])
  then have "balanced ?am" "am_opsCount ?am = length (live_ops ?am)" by (simp_all only: am_ok_def ops_ok_def)
  then show ?thesis using empty by (simp add: balanced_def live_ops_def live_responses_def Let_def)
qed

text \<open>Cancelling moves the waiting responses to the ready ones, where each is sent or dropped.\<close>

lemma clear_disposes:
  assumes "am_ok am"
  shows "events sent (am_log (UA_AsyncManager_clear s am)) = events sent (am_log am)
        + filter_mset (\<lambda>k. s (snd k) = Some True) (image_mset ar_key (mset (live_responses am)))
    \<and> events dropped (am_log (UA_AsyncManager_clear s am)) = events dropped (am_log am)
        + filter_mset (\<lambda>k. s (snd k) \<noteq> Some True) (image_mset ar_key (mset (live_responses am)))"
proof -
  define am1 where "am1 = fold (cancel_op OpcUa_BadShutdown) (am_waitingOps am) am"
  have am1: "am_ok am1" "am_waitingResponses am1 = []"
    using all_cancelled [OF assms, of OpcUa_BadShutdown] by (simp_all add: am1_def)
  have log: "am_log am1 = am_log am @ map (\<lambda>op. CancelCallback (cancelPtr op)) (am_waitingOps am)"
    by (simp add: am1_def fold_cancel_log)
  have quiet: "events f (map (\<lambda>op. CancelCallback (cancelPtr op)) ops) = {#}" if "\<And>k. f (CancelCallback k) = None" for f :: "effect \<Rightarrow> 'a option" and ops
    by (induction ops) (simp_all add: that)
  have "events left_waiting (am_log am1) = events left_waiting (am_log am)" "events disposed (am_log am1) = events disposed (am_log am)"
    by (simp_all add: log quiet)
  moreover have "balanced am" "balanced am1" using assms am1(1) by (simp_all only: am_ok_def)
  ultimately have "image_mset ar_key (mset (live_responses am1)) = image_mset ar_key (mset (live_responses am))" by (simp add: balanced_def)
  then have ready: "image_mset ar_key (mset (am_readyResponses am1)) = image_mset ar_key (mset (live_responses am))"
    by (simp add: live_responses_def am1(2))
  show ?thesis
    by (simp add: UA_AsyncManager_clear_def processReady_log direct_callbacks_quiet events_send ready quiet
        flip: am1_def) (simp add: log quiet)
qed

subsection \<open>The properties\<close>

text \<open>C9 (invariant). Whatever requests, direct calls, results, cancellations and timeouts the manager handles, in whatever order: an operation
  the application deferred is settled exactly once, by a result or by the notification that it is
  cancelled, or still waits. A request that was left waiting has its response waiting or ready, or it was disposed of
  exactly once: sent, that is handed to the channel, only when its session existed with a channel at a moment the ready responses were handled;
  dropped without an answer only when its session had no channel at such a moment. So no request of a session that keeps
  its channel is dropped. Each direct operation is called back exactly once. The counters agree with the lists, no response waits
  for nothing, and whenever something is ready the event loop has been told.\<close>

theorem async_operations_settle_once:
  assumes "am_run es UA_AsyncManager_init = Some am"
  shows "events postponed (am_log am) = image_mset cancelPtr (mset (am_waitingOps am)) + events settled (am_log am)
    \<and> events left_waiting (am_log am)
        = image_mset ar_key (mset (am_waitingResponses am @ am_readyResponses am)) + events sent (am_log am) + events dropped (am_log am)
    \<and> (\<forall>k\<in>#events sent (am_log am). \<exists>sessions\<in>views es. sessions (snd k) = Some True)
    \<and> (\<forall>k\<in>#events dropped (am_log am). \<exists>sessions\<in>views es. sessions (snd k) \<noteq> Some True)
    \<and> events direct_started (am_log am)
        = image_mset op_addr (mset (filter is_callback (am_waitingOps am @ am_readyOps am))) + events direct_called (am_log am)
    \<and> am_opsCount am = length (am_waitingOps am) + length (am_readyOps am)
    \<and> (\<forall>ar\<in>set (am_waitingResponses am). ar_opCountdown ar = length (filter (part_of (ar_addr ar)) (am_waitingOps am)) \<and> ar_opCountdown ar > 0)
    \<and> (am_readyOps am \<noteq> [] \<or> am_readyResponses am \<noteq> [] \<longrightarrow> am_dc am)"
proof -
  have ok: "am_ok am" by (rule am_run_ok [OF init_ok assms])
  have "balanced am" "am_opsCount am = length (live_ops am)" "dc_ok am" using ok by (simp_all only: am_ok_def ops_ok_def)
  moreover have "\<forall>ar\<in>set (am_waitingResponses am). ar_opCountdown ar = length (filter (part_of (ar_addr ar)) (am_waitingOps am)) \<and> ar_opCountdown ar > 0"
    using ok unfolding am_ok_def responses_ok_def by blast
  moreover have "justified (views es) (am_log am)"
    by (rule am_run_justified [OF _ assms]) (simp_all add: UA_AsyncManager_init_def justified_def)
  ultimately show ?thesis
    unfolding balanced_def live_ops_def live_responses_def dc_ok_def length_append justified_def disposed_split union_assoc by blast
qed

text \<open>C10 (liveness). Clearing the manager settles everything: every operation still waiting is cancelled with its application told,
  every direct operation called back, and nothing is left in any list. Every response still waiting or ready is disposed of in
  the same call: sent exactly when its session still exists with a channel, dropped otherwise. \<open>UA_Server_delete\<close> has removed
  the sessions by then: it sends none of them, the clients of all requests left waiting get no answer.\<close>

theorem async_shutdown_settles:
  assumes "am_run es UA_AsyncManager_init = Some am"
  shows "(let am' = UA_AsyncManager_clear sessions am; waiting = image_mset ar_key (mset (am_waitingResponses am @ am_readyResponses am)) in
      am_waitingOps am' = [] \<and> am_readyOps am' = [] \<and> am_waitingResponses am' = [] \<and> am_readyResponses am' = [] \<and> am_opsCount am' = 0
    \<and> events postponed (am_log am') = events settled (am_log am')
    \<and> events sent (am_log am') = events sent (am_log am) + filter_mset (\<lambda>k. sessions (snd k) = Some True) waiting
    \<and> events dropped (am_log am') = events dropped (am_log am) + filter_mset (\<lambda>k. sessions (snd k) \<noteq> Some True) waiting
    \<and> events direct_started (am_log am') = events direct_called (am_log am'))
    \<and> (let am' = UA_Server_delete_async admin am in
      events sent (am_log am') = events sent (am_log am)
    \<and> events dropped (am_log am') = events dropped (am_log am) + image_mset ar_key (mset (am_waitingResponses am @ am_readyResponses am)))"
proof -
  have ok: "am_ok am" by (rule am_run_ok [OF init_ok assms])
  have clear: "let am' = UA_AsyncManager_clear sessions am in
      am_waitingOps am' = [] \<and> am_readyOps am' = [] \<and> am_waitingResponses am' = [] \<and> am_readyResponses am' = [] \<and> am_opsCount am' = 0
    \<and> events postponed (am_log am') = events settled (am_log am') \<and> events direct_started (am_log am') = events direct_called (am_log am')"
    by (rule clear_settles [OF ok])
  have disposal: "events sent (am_log (UA_AsyncManager_clear s am)) = events sent (am_log am)
        + filter_mset (\<lambda>k. s (snd k) = Some True) (image_mset ar_key (mset (live_responses am)))"
    "events dropped (am_log (UA_AsyncManager_clear s am)) = events dropped (am_log am)
        + filter_mset (\<lambda>k. s (snd k) \<noteq> Some True) (image_mset ar_key (mset (live_responses am)))" for s
    using clear_disposes [OF ok] by blast+
  have none: "sessions_removed admin sid \<noteq> Some True" for sid by (simp add: sessions_removed_def)
  show ?thesis
    using clear by (simp add: Let_def disposal UA_Server_delete_async_def none live_responses_def)
qed

end
