(* ===== verification/UA_AsyncManager_Laws.thy ===== *)
theory UA_AsyncManager_Laws
  imports UA_AsyncManager_Props
begin

text \<open>
  What cancelling a request does, what taking a result does, and the refinement: the functions that take results behave as the wrapper's model
  of the stack (\<open>AsyncOps\<close>) says, on the waiting operations seen as pairs of a kind and a pointer.
\<close>

subsection \<open>Cancelling a request\<close>

definition ident :: "nat \<Rightarrow> UA_AsyncManager \<Rightarrow> (32 word \<times> UA_NodeId) option" where
  "ident a am = map_option (\<lambda>ar. (ar_requestHandle ar, ar_sessionId ar)) (find_ar a am)"

text \<open>The operation belongs to the request with this handle, of this session.\<close>

definition of_request :: "UA_NodeId \<Rightarrow> 32 word \<Rightarrow> UA_AsyncManager \<Rightarrow> UA_AsyncOperation \<Rightarrow> bool" where
  "of_request sid h am op = (case op_handling op of
      OfCallback _ _ \<Rightarrow> False
    | OfResponse a \<Rightarrow> (case ident a am of None \<Rightarrow> False | Some (h', sid') \<Rightarrow> h' = h \<and> UA_NodeId_equal sid sid'))"

lemma find_map:
  "\<forall>x. P (g x) = P x \<Longrightarrow> find P (map g xs) = map_option g (find P xs)"
  by (induction xs) auto

lemma find_filter_keeps: "\<forall>x. P x \<longrightarrow> Q x \<Longrightarrow> find P (filter Q xs) = find P xs"
  by (induction xs) auto

lemma ident_update:
  assumes "\<forall>ar. ar_addr (f ar) = ar_addr ar \<and> ar_requestHandle (f ar) = ar_requestHandle ar \<and> ar_sessionId (f ar) = ar_sessionId ar"
  shows "ident b (update_ar f a am) = ident b am"
proof -
  have "find (\<lambda>ar. ar_addr ar = b) (map (\<lambda>ar. if ar_addr ar = a then f ar else ar) (am_waitingResponses am))
    = map_option (\<lambda>ar. if ar_addr ar = a then f ar else ar) (find (\<lambda>ar. ar_addr ar = b) (am_waitingResponses am))"
    using assms by (intro find_map) auto
  then show ?thesis
    using assms by (auto simp: ident_def find_ar_def update_ar_def option.map_comp comp_def intro: option.map_cong)
qed

lemma ident_process:
  assumes "find_ar b (am_processOperationResult op am) \<noteq> None"
  shows "ident b (am_processOperationResult op am) = ident b am"
proof (cases "op_handling op")
  case (OfCallback t c)
  then show ?thesis by (simp add: am_processOperationResult_def ident_def find_ar_def)
next
  case (OfResponse a)
  let ?am1 = "update_ar counted a (am\<lparr>am_waitingOps := remove_op op (am_waitingOps am), am_opsCount := am_opsCount am - 1\<rparr>)"
  have 1: "ident b ?am1 = ident b am"
    by (subst ident_update) (simp_all add: counted_def ident_def find_ar_def)
  have 2: "find_ar b (?am1\<lparr>am_waitingResponses := remove_ar a (am_waitingResponses ?am1), am_readyResponses := rs, am_dc := d\<rparr>)
      = (if b = a then None else find_ar b ?am1)" for rs d
  proof (cases "b = a")
    case True
    then show ?thesis by (auto simp: find_ar_def remove_ar_def find_None_iff)
  next
    case False
    then show ?thesis by (auto simp: find_ar_def remove_ar_def intro!: find_filter_keeps)
  qed
  show ?thesis
    using assms 1 2 by (auto simp: am_processOperationResult_def OfResponse Let_def ident_def split: option.splits if_splits)
qed

lemma waiting_response:
  assumes "am_ok am" "op \<in> set (am_waitingOps am)" "op_handling op = OfResponse a"
  shows "\<exists>ar. find_ar a am = Some ar"
proof -
  have "a \<in> ar_addr ` set (am_waitingResponses am)"
    using assms unfolding am_ok_def responses_ok_def part_of_def by blast
  then have "find_ar a am \<noteq> None" by (auto simp: find_ar_def find_None_iff)
  then show ?thesis by simp
qed

text \<open>One round of the loop, for an operation of the request.\<close>

definition cancel_step :: "UA_AsyncOperation \<Rightarrow> nat \<Rightarrow> UA_AsyncManager \<Rightarrow> UA_AsyncManager" where
  "cancel_step op a am = cancel_op 0x80B30000 op (update_ar (\<lambda>ar. ar\<lparr>ar_serviceResult := 0x802C0000\<rparr>) a am)"

lemma cancel_step_ok:
  assumes "am_ok am" "op \<in> set (am_waitingOps am)"
  shows "am_ok (cancel_step op a am)" "am_waitingOps (cancel_step op a am) = remove_op op (am_waitingOps am)"
proof -
  let ?up = "update_ar (\<lambda>ar. ar\<lparr>ar_serviceResult := 0x802C0000\<rparr>) a am"
  have "am_ok ?up" "am_waitingOps ?up = am_waitingOps am" using update_ar_ok [OF assms(1)] by (simp_all add: update_ar_def ar_key_def)
  then show "am_ok (cancel_step op a am)" "am_waitingOps (cancel_step op a am) = remove_op op (am_waitingOps am)"
    using assms(2) cancel_op_ok by (simp_all add: cancel_step_def cancel_op_waiting)
qed

lemma cancel_step_request:
  assumes "am_ok am" "op \<in> set (am_waitingOps am)" "o1 \<in> set (am_waitingOps (cancel_step op a am))"
  shows "of_request sid h (cancel_step op a am) o1 = of_request sid h am o1"
proof (cases "op_handling o1")
  case (OfResponse b)
  let ?up = "update_ar (\<lambda>ar. ar\<lparr>ar_serviceResult := 0x802C0000\<rparr>) a am"
  from waiting_response [OF cancel_step_ok(1) [OF assms(1,2)] assms(3) OfResponse] have "find_ar b (cancel_step op a am) \<noteq> None" by auto
  then have "ident b (cancel_step op a am) = ident b (UA_AsyncOperation_cancel op ?up)"
    unfolding cancel_step_def cancel_op_def by (rule ident_process)
  also have "\<dots> = ident b ?up" by (simp add: UA_AsyncOperation_cancel_def logged_def ident_def find_ar_def)
  also have "\<dots> = ident b am" by (rule ident_update) simp
  finally show ?thesis by (simp add: of_request_def OfResponse)
qed (simp add: of_request_def)

lemma remaining_ops:
  assumes "set (op # ops) \<subseteq> set (am_waitingOps am)" "distinct (map op_addr (am_waitingOps am))" "distinct (map op_addr (op # ops))"
  shows "remove_op op (filter (\<lambda>o1. \<not> (o1 \<in> set ops \<and> P o1)) (am_waitingOps am)) = filter (\<lambda>o1. o1 \<noteq> op \<and> \<not> (o1 \<in> set ops \<and> P o1)) (am_waitingOps am)"
  unfolding remove_op_def filter_filter
proof (rule filter_cong [OF refl])
  fix o1 assume "o1 \<in> set (am_waitingOps am)"
  moreover have "op \<in> set (am_waitingOps am)" using assms(1) by simp
  ultimately have "op_addr o1 = op_addr op \<longleftrightarrow> o1 = op" using assms(2) by (metis distinct_map inj_onD)
  then show "(\<not> (o1 \<in> set ops \<and> P o1) \<and> op_addr o1 \<noteq> op_addr op) = (o1 \<noteq> op \<and> \<not> (o1 \<in> set ops \<and> P o1))" by blast
qed

lemma cancel_request_result:
  assumes "am_ok am" "set ops \<subseteq> set (am_waitingOps am)" "distinct (map op_addr ops)"
  shows "if \<exists>op\<in>set ops. is_callback op then cancel_request sid h ops (n, am) = Inl (UB TypeConfusion)
    else \<exists>am'. cancel_request sid h ops (n, am) = Inr (n + length (filter (of_request sid h am) ops), am')
      \<and> am_waitingOps am' = filter (\<lambda>op. \<not> (op \<in> set ops \<and> of_request sid h am op)) (am_waitingOps am)"
  using assms
proof (induction ops arbitrary: n am)
  case (Cons op ops)
  show ?case
  proof (cases "op_handling op")
    case (OfCallback t c)
    then show ?thesis by (simp add: is_callback_def)
  next
    case (OfResponse a)
    from Cons.prems(2) have op: "op \<in> set (am_waitingOps am)" by simp
    from waiting_response [OF Cons.prems(1) op OfResponse] obtain ar where ar: "find_ar a am = Some ar" by blast
    have not_cb: "\<not> is_callback op" using OfResponse by (simp add: is_callback_def)
    have d: "distinct (map op_addr (am_waitingOps am))" by (rule waiting_distinct [OF Cons.prems(1)])
    have mine: "of_request sid h am op \<longleftrightarrow> ar_requestHandle ar = h \<and> UA_NodeId_equal sid (ar_sessionId ar)"
      by (simp add: of_request_def OfResponse ident_def ar)
    show ?thesis
    proof (cases "of_request sid h am op")
      case False
      then have "cancel_request sid h (op # ops) (n, am) = cancel_request sid h ops (n, am)" using mine OfResponse ar by auto
      moreover have "filter (\<lambda>o1. \<not> (o1 \<in> set (op # ops) \<and> of_request sid h am o1)) (am_waitingOps am)
          = filter (\<lambda>o1. \<not> (o1 \<in> set ops \<and> of_request sid h am o1)) (am_waitingOps am)" using False by (intro filter_cong) auto
      ultimately show ?thesis
        using Cons.IH [of am n] Cons.prems not_cb False
        by (cases "\<exists>x\<in>set ops. is_callback x") (auto simp del: cancel_request.simps)
    next
      case True
      let ?am = "cancel_step op a am"
      note step = cancel_step_ok [OF Cons.prems(1) op, of a]
      have "cancel_request sid h (op # ops) (n, am) = cancel_request sid h ops (n + 1, ?am)"
        using True mine OfResponse ar by (auto simp: cancel_step_def)
      moreover have sub: "set ops \<subseteq> set (am_waitingOps ?am)" by (rule rest_waiting [OF Cons.prems(2,3) step(2)])
      moreover have same: "of_request sid h ?am o1 = of_request sid h am o1" if "o1 \<in> set (am_waitingOps ?am)" for o1
        by (rule cancel_step_request [OF Cons.prems(1) op that])
      have "filter (of_request sid h ?am) ops = filter (of_request sid h am) ops" using same sub by (intro filter_cong) auto
      moreover have "filter (\<lambda>o1. \<not> (o1 \<in> set ops \<and> of_request sid h ?am o1)) (am_waitingOps ?am)
          = filter (\<lambda>o1. \<not> (o1 \<in> set (op # ops) \<and> of_request sid h am o1)) (am_waitingOps am)"
      proof -
        have "filter (\<lambda>o1. \<not> (o1 \<in> set ops \<and> of_request sid h ?am o1)) (am_waitingOps ?am)
            = filter (\<lambda>o1. \<not> (o1 \<in> set ops \<and> of_request sid h am o1)) (am_waitingOps ?am)" using same by (intro filter_cong) auto
        also have "\<dots> = remove_op op (filter (\<lambda>o1. \<not> (o1 \<in> set ops \<and> of_request sid h am o1)) (am_waitingOps am))"
          by (simp add: step(2) remove_op_def conj_commute)
        also have "\<dots> = filter (\<lambda>o1. o1 \<noteq> op \<and> \<not> (o1 \<in> set ops \<and> of_request sid h am o1)) (am_waitingOps am)"
          by (rule remaining_ops [OF Cons.prems(2) d Cons.prems(3)])
        also have "\<dots> = filter (\<lambda>o1. \<not> (o1 \<in> set (op # ops) \<and> of_request sid h am o1)) (am_waitingOps am)"
          using True by (intro filter_cong) auto
        finally show ?thesis .
      qed
      ultimately show ?thesis
        using Cons.IH [of ?am "n + 1", OF step(1) sub] Cons.prems(3) not_cb True
        by (cases "\<exists>x\<in>set ops. is_callback x") (auto simp del: cancel_request.simps)
    qed
  qed
qed simp

text \<open>C11 (error). The client cancels a request: if no direct operation is waiting, exactly the waiting operations of this request of this session are
  cancelled, and counted. If one is, cancelling any request, even one that does not exist, is undefined: the
  loop takes the timeout of the direct operation for the address of a response.\<close>

theorem cancel_request_outcomes:
  assumes "am_run es UA_AsyncManager_init = Some am"
  shows "if \<exists>op\<in>set (am_waitingOps am). is_callback op then UA_AsyncManager_cancel sid h am = Inl (UB TypeConfusion)
    else \<exists>am'. UA_AsyncManager_cancel sid h am = Inr (length (filter (of_request sid h am) (am_waitingOps am)), am')
      \<and> am_waitingOps am' = filter (\<lambda>op. \<not> of_request sid h am op) (am_waitingOps am)"
proof -
  have ok: "am_ok am" by (rule am_run_ok [OF init_ok assms])
  have eq: "filter (\<lambda>op. \<not> (op \<in> set (am_waitingOps am) \<and> of_request sid h am op)) (am_waitingOps am) = filter (\<lambda>op. \<not> of_request sid h am op) (am_waitingOps am)"
    by (rule filter_cong) auto
  show ?thesis
    using cancel_request_result [OF ok subset_refl waiting_distinct [OF ok], of sid h 0, unfolded eq add_0]
    unfolding UA_AsyncManager_cancel_def .
qed

subsection \<open>The wrapper's view of the stack\<close>

definition kind_of :: "UA_AsyncOperation \<Rightarrow> op_kind" where
  "kind_of op = (case asyncOperationType op of
      READ_REQUEST \<Rightarrow> ReadOp | READ_DIRECT \<Rightarrow> ReadOp | WRITE_REQUEST \<Rightarrow> WriteOp | WRITE_DIRECT \<Rightarrow> WriteOp
    | CALL_REQUEST \<Rightarrow> CallOp | CALL_DIRECT \<Rightarrow> CallOp)"

definition seen :: "UA_AsyncOperation \<Rightarrow> op_kind \<times> nat" where
  "seen op = (kind_of op, cancelPtr op)"

definition abs_waiting :: "UA_AsyncManager \<Rightarrow> (op_kind \<times> nat) list" where
  "abs_waiting am = map seen (am_waitingOps am)"

text \<open>A pointer to data of one kind is no pointer of an operation of another.\<close>

definition typed_pointer :: "op_kind \<Rightarrow> nat \<Rightarrow> UA_AsyncManager \<Rightarrow> bool" where
  "typed_pointer k p am \<longleftrightarrow> (\<forall>op\<in>set (am_waitingOps am). p \<in> set (addresses op) \<longrightarrow> kind_of op = k \<and> p = cancelPtr op)"

lemma find_map_eq:
  assumes "\<forall>x\<in>set xs. P (g x) = Q x"
  shows "find P (map g xs) = map_option g (find Q xs)"
  using assms by (induction xs) auto

lemma remove1_unique:
  assumes "op \<in> set ops" "distinct (concat (map addresses ops))"
  shows "remove1 (seen op) (map seen ops) = map seen (remove_op op ops)"
  using assms
proof (induction ops)
  case (Cons o1 ops)
  show ?case
  proof (cases "o1 = op")
    case True
    then have "op_addr op \<notin> op_addr ` set ops" using distinct_addresses [OF Cons.prems(2)] by simp
    then have "remove_op op ops = ops" by (rule remove_absent)
    then show ?thesis using True by (simp add: remove_op_def)
  next
    case False
    then have op: "op \<in> set ops" using Cons.prems(1) by simp
    then have disj: "set (addresses o1) \<inter> set (addresses op) = {}" using Cons.prems(2) by auto
    then have "cancelPtr o1 \<noteq> cancelPtr op" using cancelPtr_address [of o1] cancelPtr_address [of op] by auto
    moreover have "op_addr o1 \<noteq> op_addr op" using disj by (auto simp: addresses_def)
    ultimately show ?thesis using Cons.IH [OF op] Cons.prems(2) by (simp add: seen_def remove_op_def)
  qed
qed simp

lemma set_result_refines:
  assumes "am_ok am" "waitingOps st = abs_waiting am" "\<forall>op\<in>set (am_waitingOps am). P (seen op) = Q op"
  shows "case find Q (am_waitingOps am) of
      None \<Rightarrow> find P (waitingOps st) = None
    | Some op \<Rightarrow> find P (waitingOps st) = Some (seen op)
        \<and> (\<forall>op'. same_op op op' \<longrightarrow> remove1 (seen op) (waitingOps st) = abs_waiting (am_processOperationResult op' (logged es am)))"
proof -
  have d: "distinct (concat (map addresses (am_waitingOps am)))" using assms(1) by (simp add: am_ok_def ops_ok_def live_ops_def)
  have "find P (waitingOps st) = map_option seen (find Q (am_waitingOps am))"
    unfolding assms(2) abs_waiting_def by (rule find_map_eq [where P = P and g = seen and Q = Q, OF assms(3)])
  note found = this
  show ?thesis
  proof (cases "find Q (am_waitingOps am)")
    case None
    then show ?thesis by (simp add: found)
  next
    case (Some op)
    then have op: "op \<in> set (am_waitingOps am)" using find_in by fast
    have "remove1 (seen op) (waitingOps st) = abs_waiting (am_processOperationResult op' (logged es am))" if "same_op op op'" for op'
      unfolding assms(2) abs_waiting_def remove1_unique [OF op d] process_waiting
      by (simp add: logged_def remove_op_same [OF same_op_fields(1) [OF that]])
    then show ?thesis using Some found by simp
  qed
qed

lemma manager_read:
  assumes ok: "am_ok am" and st: "waitingOps st = abs_waiting am" and typed: "typed_pointer ReadOp r am"
  shows "fst (am_setAsyncReadResult r am) = fst (UA_Server_setAsyncReadResult r st)
    \<and> abs_waiting (snd (am_setAsyncReadResult r am)) = waitingOps (snd (UA_Server_setAsyncReadResult r st))"
proof -
  have "\<forall>op\<in>set (am_waitingOps am). (snd (seen op) = r) = (op_output op = r)"
  proof
    fix op assume op: "op \<in> set (am_waitingOps am)"
    then have t: "r \<in> set (addresses op) \<Longrightarrow> kind_of op = ReadOp \<and> r = cancelPtr op" using typed by (simp add: typed_pointer_def)
    have "kind_of op = ReadOp \<Longrightarrow> cancelPtr op = op_output op"
      by (simp add: kind_of_def cancelPtr_def split: UA_AsyncOperationType.splits)
    then show "(snd (seen op) = r) = (op_output op = r)" using t cancelPtr_address [of op] by (auto simp: seen_def addresses_def)
  qed
  from set_result_refines [OF ok st this] show ?thesis
    by (auto simp: am_setAsyncReadResult_def UA_Server_setAsyncReadResult_def processOperationResult_def st split: option.splits)
qed

lemma manager_write:
  assumes ok: "am_ok am" and st: "waitingOps st = abs_waiting am" and typed: "typed_pointer WriteOp w am"
  shows "fst (am_setAsyncWriteResult w c am) = fst (UA_Server_setAsyncWriteResult w c st)
    \<and> abs_waiting (snd (am_setAsyncWriteResult w c am)) = waitingOps (snd (UA_Server_setAsyncWriteResult w c st))"
proof -
  have "\<forall>op\<in>set (am_waitingOps am). (snd (seen op) = w) = (op_addr op = w)"
  proof
    fix op assume op: "op \<in> set (am_waitingOps am)"
    then have t: "w \<in> set (addresses op) \<Longrightarrow> kind_of op = WriteOp \<and> w = cancelPtr op" using typed by (simp add: typed_pointer_def)
    have "kind_of op = WriteOp \<Longrightarrow> cancelPtr op = op_addr op"
      by (simp add: kind_of_def cancelPtr_def split: UA_AsyncOperationType.splits)
    then show "(snd (seen op) = w) = (op_addr op = w)" using t cancelPtr_address [of op] by (auto simp: seen_def addresses_def)
  qed
  from set_result_refines [OF ok st this] show ?thesis
    by (auto simp: am_setAsyncWriteResult_def UA_Server_setAsyncWriteResult_def processOperationResult_def st split: option.splits)
qed

lemma manager_call:
  assumes ok: "am_ok am" and st: "waitingOps st = abs_waiting am"
  shows "fst (am_setAsyncCallMethodResult args c am) = fst (UA_Server_setAsyncCallMethodResult args c st)
    \<and> abs_waiting (snd (am_setAsyncCallMethodResult args c am)) = waitingOps (snd (UA_Server_setAsyncCallMethodResult args c st))"
proof -
  have "\<forall>op\<in>set (am_waitingOps am). (fst (seen op) = CallOp \<and> snd (seen op) = args)
      = ((asyncOperationType op = CALL_REQUEST \<or> asyncOperationType op = CALL_DIRECT) \<and> op_arguments op = args)"
    by (auto simp: seen_def kind_of_def cancelPtr_def split: UA_AsyncOperationType.splits)
  from set_result_refines [OF ok st this] show ?thesis
    by (auto simp: am_setAsyncCallMethodResult_def UA_Server_setAsyncCallMethodResult_def processOperationResult_def st split: option.splits)
qed

subsection \<open>Results are taken\<close>

text \<open>
  The operation's result is taken: the operation leaves the waiting ones. A direct one is ready to be called back. One of a request is
  counted out of its response, which becomes ready, and the event loop told, when no other operation of the request waits.
\<close>

definition result_taken :: "UA_AsyncOperation \<Rightarrow> UA_AsyncOperation \<Rightarrow> UA_AsyncManager \<Rightarrow> UA_AsyncManager \<Rightarrow> bool" where
  "result_taken op op' am am' \<longleftrightarrow>
     am_log am' = am_log am @ [ResultSet (cancelPtr op)]
   \<and> am_waitingOps am' = filter (\<lambda>o1. o1 \<noteq> op) (am_waitingOps am)
   \<and> (case op_handling op of
        OfCallback _ _ \<Rightarrow> am_readyOps am' = am_readyOps am @ [op'] \<and> am_opsCount am' = am_opsCount am \<and> am_dc am'
          \<and> am_waitingResponses am' = am_waitingResponses am \<and> am_readyResponses am' = am_readyResponses am
      | OfResponse a \<Rightarrow> am_readyOps am' = am_readyOps am \<and> am_opsCount am' = am_opsCount am - 1
          \<and> (\<exists>us ar vs. am_waitingResponses am = us @ ar # vs \<and> ar_addr ar = a
              \<and> (if \<exists>o1\<in>set (am_waitingOps am). o1 \<noteq> op \<and> op_handling o1 = OfResponse a
                 then am_waitingResponses am' = us @ counted ar # vs \<and> am_readyResponses am' = am_readyResponses am \<and> am_dc am' = am_dc am
                 else am_waitingResponses am' = us @ vs \<and> am_readyResponses am' = am_readyResponses am @ [counted ar] \<and> am_dc am')))"

lemma process_takes:
  assumes ok: "am_ok am" and op: "op \<in> set (am_waitingOps am)" "same_op op op'"
  shows "result_taken op op' am (am_processOperationResult op' (logged [ResultSet (cancelPtr op)] am))"
proof -
  let ?l = "logged [ResultSet (cancelPtr op)] am"
  from op(1) obtain xs ys where w: "am_waitingOps am = xs @ op # ys" by (auto simp: in_set_conv_decomp)
  have d: "distinct (map op_addr (xs @ op # ys))" using waiting_distinct [OF ok] w by simp
  then have notin: "op \<notin> set xs" "op \<notin> set ys" by auto
  then have "filter (\<lambda>o1. o1 \<noteq> op) xs = xs" "filter (\<lambda>o1. o1 \<noteq> op) ys = ys" by (auto simp: filter_id_conv)
  then have rest: "filter (\<lambda>o1. o1 \<noteq> op) (am_waitingOps am) = xs @ ys" by (simp add: w)
  show ?thesis
  proof (cases "op_handling op")
    case (OfCallback t c)
    then have "am_processOperationResult op' ?l = ?l\<lparr>am_waitingOps := xs @ ys, am_readyOps := am_readyOps am @ [op'], am_dc := True\<rparr>"
      using process_callback [of ?l xs op ys op'] w d op(2) by (simp add: logged_def is_callback_def)
    then show ?thesis by (simp add: result_taken_def rest OfCallback) (simp add: logged_def)
  next
    case (OfResponse a)
    then have part: "part_of a op" by (simp add: part_of_def)
    with ok op(1) have "a \<in> ar_addr ` set (am_waitingResponses am)" unfolding am_ok_def responses_ok_def by blast
    then obtain ar us vs where r: "am_waitingResponses am = us @ ar # vs" "a = ar_addr ar" by (auto simp: in_set_conv_decomp)
    have "distinct (map ar_addr (am_waitingResponses am))" using ok by (simp add: am_ok_def responses_ok_def live_responses_def)
    then have "ar_addr ar \<notin> ar_addr ` set us" "ar_addr ar \<notin> ar_addr ` set vs" by (simp_all add: r(1))
    then have others: "\<forall>r\<in>set (us @ vs). ar_addr r \<noteq> ar_addr ar" by (metis Un_iff imageI set_append)
    have n: "ar_opCountdown ar = Suc (length (filter (part_of (ar_addr ar)) (xs @ ys)))"
      using ok w r part by (simp add: am_ok_def responses_ok_def)
    have more: "ar_opCountdown ar > 1 \<longleftrightarrow> (\<exists>o1\<in>set (am_waitingOps am). o1 \<noteq> op \<and> op_handling o1 = OfResponse a)"
    proof -
      have "ar_opCountdown ar > 1 \<longleftrightarrow> filter (part_of a) (xs @ ys) \<noteq> []" using n r(2) by simp
      then show ?thesis using notin by (auto simp: w filter_empty_conv part_of_def)
    qed
    have am': "am_processOperationResult op' ?l
      = (let am1 = ?l\<lparr>am_waitingOps := xs @ ys, am_opsCount := am_opsCount am - 1\<rparr>
         in if ar_opCountdown ar > 1 then am1\<lparr>am_waitingResponses := us @ counted ar # vs\<rparr>
            else am1\<lparr>am_waitingResponses := us @ vs, am_readyResponses := am_readyResponses am @ [counted ar], am_dc := True\<rparr>)"
      using process_response [of ?l xs op ys op' ar us vs] w d op(2) part r others by (simp add: logged_def Let_def)
    show ?thesis
      unfolding result_taken_def OfResponse rest op_handling.case am' more [symmetric]
      by (intro conjI, simp_all add: Let_def) (simp_all add: logged_def r, (rule exI [of _ us], rule exI [of _ ar], rule exI [of _ vs], simp)?)
  qed
qed

text \<open>A pointer to the output belongs to one operation only.\<close>

lemma find_the:
  assumes "am_ok am" "op \<in> set (am_waitingOps am)" "Q op" "\<And>x. Q x \<Longrightarrow> p \<in> set (addresses x)"
  shows "find Q (am_waitingOps am) = Some op"
proof (cases "find Q (am_waitingOps am)")
  case None
  then show ?thesis using assms(2,3) by (auto simp: find_None_iff)
next
  case (Some x)
  then have "x \<in> set (am_waitingOps am)" "Q x" using find_in by fast+
  then have "x = op" using addresses_disjoint [OF waiting_addresses [OF assms(1)] _ assms(2)] assms(3,4) by blast
  then show ?thesis using Some by simp
qed

text \<open>C12 (functional). The application hands a result to the manager, after any run. If an operation waits whose output has the
  address \<open>r\<close>, a read result for \<open>r\<close> is accepted and taken for this operation; otherwise the manager reports BadNotFound and changes nothing,
  so a result that comes twice, or after a cancellation, has no effect. The same holds for a write result with the address of
  the operation, and for the result of a method call with the array of its output arguments, which only calls have; these two also leave their
  status in the operation. Taking a result removes exactly this operation from the waiting ones. A direct operation is put to the ready ones;
  the response of a request becomes ready exactly when no other operation of the request waits, and then the event loop is told.\<close>

theorem set_results_outcomes:
  assumes "am_run es UA_AsyncManager_init = Some am"
  shows "(\<forall>op\<in>set (am_waitingOps am). op_output op = r \<longrightarrow>
        (\<exists>am'. am_setAsyncReadResult r am = (OpcUa_Good, am') \<and> result_taken op op am am'))
    \<and> (r \<notin> op_output ` set (am_waitingOps am) \<longrightarrow> am_setAsyncReadResult r am = (OpcUa_BadNotFound, am))
    \<and> (\<forall>op\<in>set (am_waitingOps am). op_addr op = w \<longrightarrow>
        (\<exists>am'. am_setAsyncWriteResult w c am = (OpcUa_Good, am') \<and> result_taken op (op\<lparr>op_status := Some c\<rparr>) am am'))
    \<and> (w \<notin> op_addr ` set (am_waitingOps am) \<longrightarrow> am_setAsyncWriteResult w c am = (OpcUa_BadNotFound, am))
    \<and> (\<forall>op\<in>set (am_waitingOps am). kind_of op = CallOp \<and> op_arguments op = args \<longrightarrow>
        (\<exists>am'. am_setAsyncCallMethodResult args c am = (OpcUa_Good, am') \<and> result_taken op (op\<lparr>op_status := Some c\<rparr>) am am'))
    \<and> ((CallOp, args) \<notin> (\<lambda>op. (kind_of op, op_arguments op)) ` set (am_waitingOps am)
        \<longrightarrow> am_setAsyncCallMethodResult args c am = (OpcUa_BadNotFound, am))"
proof -
  have ok: "am_ok am" by (rule am_run_ok [OF init_ok assms])
  have call: "asyncOperationType op = CALL_REQUEST \<or> asyncOperationType op = CALL_DIRECT \<longleftrightarrow> kind_of op = CallOp" for op
    by (auto simp: kind_of_def split: UA_AsyncOperationType.splits)
  have takes: "result_taken op (op\<lparr>op_status := Some c\<rparr>) am (am_processOperationResult (with_status c op) (logged [ResultSet (cancelPtr op)] am))"
    if "op \<in> set (am_waitingOps am)" for op
    using process_takes [OF ok that same_op_refl(2), of c] unfolding with_status_def .
  have none: "find P (am_waitingOps am) = None \<longleftrightarrow> (\<forall>op\<in>set (am_waitingOps am). \<not> P op)" for P by (auto simp: find_None_iff)
  have "\<exists>am'. am_setAsyncReadResult r am = (OpcUa_Good, am') \<and> result_taken op op am am'"
    if "op \<in> set (am_waitingOps am)" "op_output op = r" for op
    using find_the [OF ok that(1), of "\<lambda>op. op_output op = r" r] that process_takes [OF ok that(1) same_op_refl(1)]
    by (simp add: am_setAsyncReadResult_def addresses_def)
  moreover have "am_setAsyncReadResult r am = (OpcUa_BadNotFound, am)" if "r \<notin> op_output ` set (am_waitingOps am)"
    using none [of "\<lambda>op. op_output op = r"] that by (auto simp: am_setAsyncReadResult_def)
  moreover have "\<exists>am'. am_setAsyncWriteResult w c am = (OpcUa_Good, am') \<and> result_taken op (op\<lparr>op_status := Some c\<rparr>) am am'"
    if "op \<in> set (am_waitingOps am)" "op_addr op = w" for op
    using find_the [OF ok that(1), of "\<lambda>op. op_addr op = w" w] that takes [OF that(1)]
    by (simp add: am_setAsyncWriteResult_def addresses_def)
  moreover have "am_setAsyncWriteResult w c am = (OpcUa_BadNotFound, am)" if "w \<notin> op_addr ` set (am_waitingOps am)"
    using none [of "\<lambda>op. op_addr op = w"] that by (auto simp: am_setAsyncWriteResult_def)
  moreover have "\<exists>am'. am_setAsyncCallMethodResult args c am = (OpcUa_Good, am') \<and> result_taken op (op\<lparr>op_status := Some c\<rparr>) am am'"
    if "op \<in> set (am_waitingOps am)" "kind_of op = CallOp \<and> op_arguments op = args" for op
    using find_the [OF ok that(1), of "\<lambda>op. kind_of op = CallOp \<and> op_arguments op = args" args] that takes [OF that(1)]
    by (simp add: am_setAsyncCallMethodResult_def addresses_def call)
  moreover have "am_setAsyncCallMethodResult args c am = (OpcUa_BadNotFound, am)"
    if "(CallOp, args) \<notin> (\<lambda>op. (kind_of op, op_arguments op)) ` set (am_waitingOps am)"
    using none [of "\<lambda>op. kind_of op = CallOp \<and> op_arguments op = args"] that by (force simp: am_setAsyncCallMethodResult_def call)
  ultimately show ?thesis by blast
qed

subsection \<open>An example\<close>

text \<open>A read of two nodes, one answered at once; a write; the result of the read; then a direct read.\<close>

definition example_context :: "32 word \<Rightarrow> service_context" where
  "example_context r = \<lparr>maxAsyncOperationQueueSize = 0, asyncOperationTimeout = 0, nowMonotonic = 0, currentRequestId = r,
     currentRequestHandle = r + 1000, session_sessionId = UA_NodeId_null\<rparr>"

definition example_item :: "nat \<Rightarrow> bool \<Rightarrow> op_item" where
  "example_item a d = \<lparr>it_addr = a, it_output = a + 1, it_arguments = a + 2, it_done = d\<rparr>"

definition request_events :: "am_event list" where
  "request_events = [ReadRequest True 0 (example_context 1) 3 0 500 [example_item 10 False, example_item 20 True, example_item 30 False],
     WriteRequest True 0 (example_context 2) 600 [example_item 40 False], SetRead 11]"

definition requests_waiting :: UA_AsyncManager where
  "requests_waiting = the (am_run request_events UA_AsyncManager_init)"

definition direct_waiting :: UA_AsyncManager where
  "direct_waiting = the (am_run (request_events @ [StartRead True 0 0 9 5000 (example_item 50 False)]) UA_AsyncManager_init)"

lemma requests_run: "am_run request_events UA_AsyncManager_init = Some requests_waiting"
proof -
  have "am_run request_events UA_AsyncManager_init \<noteq> None" by code_simp
  then show ?thesis by (simp add: requests_waiting_def)
qed

lemma direct_run: "am_run (request_events @ [StartRead True 0 0 9 5000 (example_item 50 False)]) UA_AsyncManager_init = Some direct_waiting"
proof -
  have "am_run (request_events @ [StartRead True 0 0 9 5000 (example_item 50 False)]) UA_AsyncManager_init \<noteq> None" by code_simp
  then show ?thesis by (simp add: direct_waiting_def)
qed

lemma requests_waiting_ops: "map cancelPtr (am_waitingOps requests_waiting) = [31, 40]"
  "list_all (\<lambda>op. \<not> is_callback op) (am_waitingOps requests_waiting)"
  "length (filter (of_request UA_NodeId_null 1001 requests_waiting) (am_waitingOps requests_waiting)) = 1"
  by code_simp+

text \<open>Then the remaining operations get their results, and the ready responses are handled twice, once when the session has no channel.\<close>

definition no_channel :: "UA_NodeId \<Rightarrow> bool option" where
  "no_channel sid = Some False"

definition with_channel :: "UA_NodeId \<Rightarrow> bool option" where
  "with_channel sid = Some True"

definition answered_events :: "am_event list" where
  "answered_events = request_events @ [SetWrite 40 OpcUa_Good, RunReady no_channel, SetRead 31, RunReady with_channel]"

definition requests_answered :: UA_AsyncManager where
  "requests_answered = the (am_run answered_events UA_AsyncManager_init)"

lemma answered_run: "am_run answered_events UA_AsyncManager_init = Some requests_answered"
proof -
  have "am_run answered_events UA_AsyncManager_init \<noteq> None" by code_simp
  then show ?thesis by (simp add: requests_answered_def)
qed

lemma requests_answered_log: "List.map_filter sent (am_log requests_answered) = [(1, UA_NodeId_null)]"
  "am_waitingResponses requests_answered @ am_readyResponses requests_answered = []"
  by code_simp+

theorem async_operations_settle_once_witness:
  "events left_waiting (am_log requests_answered) = add_mset (1, UA_NodeId_null) (events dropped (am_log requests_answered))
    \<and> am_opsCount requests_waiting = length (am_waitingOps requests_waiting) + length (am_readyOps requests_waiting)"
proof -
  have "events sent (am_log requests_answered) = {#(1, UA_NodeId_null)#}" by (simp add: events_def requests_answered_log(1))
  then show ?thesis
    using async_operations_settle_once [OF answered_run] async_operations_settle_once [OF requests_run] requests_answered_log(2) by simp
qed

theorem async_shutdown_settles_witness:
  "am_opsCount (UA_AsyncManager_clear with_channel direct_waiting) = 0
    \<and> events sent (am_log (UA_AsyncManager_clear with_channel requests_waiting)) = {#(1, UA_NodeId_null), (2, UA_NodeId_null)#}
    \<and> events sent (am_log (UA_Server_delete_async UA_NodeId_null requests_waiting)) = {#}"
proof -
  have "List.map_filter sent (am_log requests_waiting) = []"
    "map ar_key (am_waitingResponses requests_waiting @ am_readyResponses requests_waiting) = [(1, UA_NodeId_null), (2, UA_NodeId_null)]"
    by code_simp+
  then have "events sent (am_log requests_waiting) = {#}"
    "image_mset ar_key (mset (am_waitingResponses requests_waiting @ am_readyResponses requests_waiting)) = {#(1, UA_NodeId_null), (2, UA_NodeId_null)#}"
    by (simp add: events_def) (metis (no_types, lifting) \<open>map ar_key _ = _\<close> mset.simps mset_map)
  then show ?thesis
    using async_shutdown_settles [OF direct_run, of with_channel] async_shutdown_settles [OF requests_run, of with_channel UA_NodeId_null]
    by (simp add: Let_def with_channel_def)
qed

theorem cancel_request_outcomes_witness:
  "(\<exists>am'. UA_AsyncManager_cancel UA_NodeId_null 1001 requests_waiting = Inr (1, am'))
    \<and> UA_AsyncManager_cancel UA_NodeId_null 1001 direct_waiting = Inl (UB TypeConfusion)"
proof -
  have "\<exists>op\<in>set (am_waitingOps direct_waiting). is_callback op"
  proof -
    have "list_ex is_callback (am_waitingOps direct_waiting)" by code_simp
    then show ?thesis by (simp add: list_ex_iff)
  qed
  moreover have "\<not> (\<exists>op\<in>set (am_waitingOps requests_waiting). is_callback op)"
    using requests_waiting_ops(2) by (simp add: list_all_iff)
  ultimately show ?thesis
    using cancel_request_outcomes [OF requests_run, of UA_NodeId_null 1001] cancel_request_outcomes [OF direct_run, of UA_NodeId_null 1001]
      requests_waiting_ops(3) by auto
qed

theorem set_results_outcomes_witness:
  "(\<exists>am'. am_setAsyncReadResult 31 requests_waiting = (OpcUa_Good, am') \<and> am_readyResponses am' \<noteq> [])
    \<and> am_setAsyncReadResult 11 requests_waiting = (OpcUa_BadNotFound, requests_waiting)
    \<and> am_setAsyncCallMethodResult 42 OpcUa_Good requests_waiting = (OpcUa_BadNotFound, requests_waiting)"
proof -
  let ?view = "\<lambda>op. (kind_of op, op_output op, op_arguments op, op_handling op)"
  have ops: "map ?view (am_waitingOps requests_waiting) = [(ReadOp, 31, 32, OfResponse 500), (WriteOp, 41, 42, OfResponse 600)]"
    by code_simp
  then obtain op o2 where w: "am_waitingOps requests_waiting = [op, o2]" "?view op = (ReadOp, 31, 32, OfResponse 500)"
    "?view o2 = (WriteOp, 41, 42, OfResponse 600)" by auto
  then have only: "\<not> (\<exists>o1\<in>set (am_waitingOps requests_waiting). o1 \<noteq> op \<and> op_handling o1 = OfResponse 500)" by auto
  have "op \<in> set (am_waitingOps requests_waiting)" "op_output op = 31" using w by simp_all
  then obtain am' where "am_setAsyncReadResult 31 requests_waiting = (OpcUa_Good, am')" "result_taken op op requests_waiting am'"
    using set_results_outcomes [OF requests_run, of 31 0 0 0] by blast
  moreover have "am_readyResponses am' \<noteq> []" using calculation(2) only w(2) by (auto simp: result_taken_def)
  moreover have "11 \<notin> op_output ` set (am_waitingOps requests_waiting)"
    "(CallOp, 42) \<notin> (\<lambda>op. (kind_of op, op_arguments op)) ` set (am_waitingOps requests_waiting)" using w by auto
  ultimately show ?thesis
    using set_results_outcomes [OF requests_run, of 11 _ OpcUa_Good 42] by blast
qed

end
