(* ===== verification/UA_AsyncManager_Registry.thy ===== *)
theory UA_AsyncManager_Registry
  imports UA_AsyncManager_Laws AsyncRegistry
begin

text \<open>
  The wrapper's registry (\<open>AsyncRegistry\<close>) against the stack's manager of asynchronous operations: the manager fulfils
  the interface the registry needs, and the registry that follows the manager's notifications agrees with it.
\<close>

subsection \<open>The manager fulfils the interface\<close>

text \<open>The manager and the memory of the outputs.\<close>

record manager_state =
  ms_am :: UA_AsyncManager
  ms_read :: "nat \<Rightarrow> UA_DataValue"
  ms_call :: "nat \<Rightarrow> UA_Variant list"

text \<open>\<open>finishDeferred\<close> on the manager itself.\<close>

definition manager_finish :: "allocator \<Rightarrow> block_ptr \<Rightarrow> manager_state \<Rightarrow> (UA_StatusCode \<times> manager_state) res" where
  "manager_finish al p s = (case snd p of
      ReadBlock r \<Rightarrow> bind_res (fillTarget al True r (ms_read s (rb_target r))) (\<lambda>t.
        case am_setAsyncReadResult (rb_target r) (ms_am s) of (c, am) \<Rightarrow>
          Inr (c, s\<lparr>ms_am := am, ms_read := (ms_read s)(rb_target r := t)\<rparr>))
    | WriteBlock w \<Rightarrow> (case am_setAsyncWriteResult (wb_target w) (wb_result w) (ms_am s) of (c, am) \<Rightarrow> Inr (c, s\<lparr>ms_am := am\<rparr>))
    | MethodBlock m \<Rightarrow> bind_res (copyOutputs al m (ms_call s (mb_outputArray m))) (\<lambda>vs.
        case am_setAsyncCallMethodResult (mb_outputArray m) (mb_result m) (ms_am s) of (c, am) \<Rightarrow>
          Inr (c, s\<lparr>ms_am := am, ms_call := (ms_call s)(mb_outputArray m := vs)\<rparr>)))"

definition manager_keys :: "manager_state \<Rightarrow> nat set" where
  "manager_keys s = cancelPtr ` set (am_waitingOps (ms_am s))"

fun result_set :: "effect \<Rightarrow> nat option" where
  "result_set (ResultSet k) = Some k" | "result_set _ = None"

definition manager_log :: "manager_state \<Rightarrow> nat list" where
  "manager_log s = List.map_filter result_set (am_log (ms_am s))"

text \<open>As the wrapper's model of the stack sees the state.\<close>

definition stack_view :: "manager_state \<Rightarrow> async_stack" where
  "stack_view s = \<lparr>waitingOps = abs_waiting (ms_am s), mem_read = ms_read s, mem_call = ms_call s, results = []\<rparr>"

definition manager_awaits :: "allocator \<Rightarrow> manager_state \<Rightarrow> block_ptr \<Rightarrow> bool" where
  "manager_awaits al s p \<longleftrightarrow> am_ok (ms_am s) \<and> awaits_with al (stack_view s) p"

lemma waiting_pointer:
  assumes "am_ok am" "(k, p) \<in> set (abs_waiting am)"
  shows "typed_pointer k p am"
  unfolding typed_pointer_def
proof (intro ballI impI)
  fix op assume op: "op \<in> set (am_waitingOps am)" "p \<in> set (addresses op)"
  from assms(2) obtain o1 where o1: "o1 \<in> set (am_waitingOps am)" "kind_of o1 = k" "cancelPtr o1 = p"
    by (auto simp: abs_waiting_def seen_def)
  have "op = o1"
    by (rule addresses_disjoint [OF waiting_addresses [OF assms(1)] op(1) o1(1) op(2)]) (use cancelPtr_address [of o1] o1(3) in simp)
  then show "kind_of op = k \<and> p = cancelPtr op" using o1 by simp
qed

text \<open>A result is accepted, and noted in the log.\<close>

lemma setter_logs:
  "am_log (snd (am_setAsyncReadResult r am)) = am_log am @ (case find (\<lambda>op. op_output op = r) (am_waitingOps am) of None \<Rightarrow> [] | Some op \<Rightarrow> [ResultSet (cancelPtr op)])"
  "am_log (snd (am_setAsyncWriteResult w c am)) = am_log am @ (case find (\<lambda>op. op_addr op = w) (am_waitingOps am) of None \<Rightarrow> [] | Some op \<Rightarrow> [ResultSet (cancelPtr op)])"
  "am_log (snd (am_setAsyncCallMethodResult args c am)) = am_log am @
     (case find (\<lambda>op. (asyncOperationType op = CALL_REQUEST \<or> asyncOperationType op = CALL_DIRECT) \<and> op_arguments op = args) (am_waitingOps am) of
        None \<Rightarrow> [] | Some op \<Rightarrow> [ResultSet (cancelPtr op)])"
  by (simp_all add: am_setAsyncReadResult_def am_setAsyncWriteResult_def am_setAsyncCallMethodResult_def process_log logged_def split: option.split)

lemma waiting_op:
  assumes "(k, p) \<in> set (abs_waiting am)"
  obtains op where "op \<in> set (am_waitingOps am)" "kind_of op = k" "cancelPtr op = p"
  using assms by (auto simp: abs_waiting_def seen_def)

lemma found_in_waiting:
  assumes "am_ok am" "op \<in> set (am_waitingOps am)" "p \<in> set (addresses op)" "cancelPtr op = p"
    and "Q op" "\<And>x. Q x \<Longrightarrow> p \<in> set (addresses x)"
  shows "\<exists>x. find Q (am_waitingOps am) = Some x \<and> cancelPtr x = p"
proof (cases "find Q (am_waitingOps am)")
  case None
  then show ?thesis using assms(2,5) by (auto simp: find_None_iff)
next
  case (Some x)
  then have "x \<in> set (am_waitingOps am)" "Q x" using find_in by fast+
  then have "x = op" using addresses_disjoint [OF waiting_addresses [OF assms(1)] _ assms(2) _ assms(3)] assms(6) by blast
  then show ?thesis using Some assms(4) by simp
qed

lemma setters_accept:
  assumes "am_ok am"
  shows "(ReadOp, p) \<in> set (abs_waiting am) \<Longrightarrow> am_log (snd (am_setAsyncReadResult p am)) = am_log am @ [ResultSet p]"
    "(WriteOp, p) \<in> set (abs_waiting am) \<Longrightarrow> am_log (snd (am_setAsyncWriteResult p c am)) = am_log am @ [ResultSet p]"
    "(CallOp, p) \<in> set (abs_waiting am) \<Longrightarrow> am_log (snd (am_setAsyncCallMethodResult p c am)) = am_log am @ [ResultSet p]"
proof -
  have key: "p \<in> set (addresses op)" if "cancelPtr op = p" for op using cancelPtr_address [of op] that by simp
  have ptr: "kind_of op = ReadOp \<Longrightarrow> cancelPtr op = op_output op" "kind_of op = WriteOp \<Longrightarrow> cancelPtr op = op_addr op"
    "kind_of op = CallOp \<Longrightarrow> cancelPtr op = op_arguments op \<and> (asyncOperationType op = CALL_REQUEST \<or> asyncOperationType op = CALL_DIRECT)" for op
    by (simp_all add: kind_of_def cancelPtr_def split: UA_AsyncOperationType.splits)
  show "am_log (snd (am_setAsyncReadResult p am)) = am_log am @ [ResultSet p]" if r: "(ReadOp, p) \<in> set (abs_waiting am)"
  proof -
    from r obtain op where op: "op \<in> set (am_waitingOps am)" "kind_of op = ReadOp" "cancelPtr op = p" by (rule waiting_op)
    from found_in_waiting [OF assms op(1) key [OF op(3)] op(3), of "\<lambda>op. op_output op = p"] ptr(1) [OF op(2)] op(3)
    show ?thesis by (auto simp: setter_logs addresses_def)
  qed
  show "am_log (snd (am_setAsyncWriteResult p c am)) = am_log am @ [ResultSet p]" if w: "(WriteOp, p) \<in> set (abs_waiting am)"
  proof -
    from w obtain op where op: "op \<in> set (am_waitingOps am)" "kind_of op = WriteOp" "cancelPtr op = p" by (rule waiting_op)
    from found_in_waiting [OF assms op(1) key [OF op(3)] op(3), of "\<lambda>op. op_addr op = p"] ptr(2) [OF op(2)] op(3)
    show ?thesis by (auto simp: setter_logs addresses_def)
  qed
  show "am_log (snd (am_setAsyncCallMethodResult p c am)) = am_log am @ [ResultSet p]" if a: "(CallOp, p) \<in> set (abs_waiting am)"
  proof -
    from a obtain op where op: "op \<in> set (am_waitingOps am)" "kind_of op = CallOp" "cancelPtr op = p" by (rule waiting_op)
    from found_in_waiting [OF assms op(1) key [OF op(3)] op(3),
        of "\<lambda>op. (asyncOperationType op = CALL_REQUEST \<or> asyncOperationType op = CALL_DIRECT) \<and> op_arguments op = p"] ptr(3) [OF op(2)] op(3)
    show ?thesis by (auto simp: setter_logs addresses_def)
  qed
qed

lemma setter_memory:
  "mem_read (snd (UA_Server_setAsyncReadResult r st)) = mem_read st" "mem_call (snd (UA_Server_setAsyncReadResult r st)) = mem_call st"
  "mem_read (snd (UA_Server_setAsyncWriteResult w c st)) = mem_read st" "mem_call (snd (UA_Server_setAsyncWriteResult w c st)) = mem_call st"
  "mem_read (snd (UA_Server_setAsyncCallMethodResult a c st)) = mem_read st" "mem_call (snd (UA_Server_setAsyncCallMethodResult a c st)) = mem_call st"
  by (simp_all add: UA_Server_setAsyncReadResult_def UA_Server_setAsyncWriteResult_def UA_Server_setAsyncCallMethodResult_def
      processOperationResult_def split: option.split)

text \<open>Finishing a block on the manager is finishing it on the stack the wrapper's model sees.\<close>

lemma finish_view:
  assumes ok: "am_ok (ms_am s)" and b: "(block_kind (snd p), block_key (snd p)) \<in> set (abs_waiting (ms_am s))"
    and f: "finishDeferred al (snd p) (stack_view s) = Inr (c, st)"
  shows "\<exists>s'. manager_finish al p s = Inr (c, s') \<and> abs_waiting (ms_am s') = waitingOps st \<and> ms_read s' = mem_read st \<and> ms_call s' = mem_call st
    \<and> am_ok (ms_am s') \<and> am_log (ms_am s') = am_log (ms_am s) @ [ResultSet (block_key (snd p))]"
proof (cases "snd p")
  case (ReadBlock r)
  have w: "(ReadOp, rb_target r) \<in> set (abs_waiting (ms_am s))" using b ReadBlock by (simp add: block_kind_def block_key_def)
  obtain t where t: "fillTarget al True r (ms_read s (rb_target r)) = Inr t"
    using f ReadBlock by (cases "fillTarget al True r (ms_read s (rb_target r))") (auto simp: finishDeferred_def stack_view_def)
  let ?st = "(stack_view s)\<lparr>mem_read := (ms_read s)(rb_target r := t)\<rparr>"
  have st: "(c, st) = UA_Server_setAsyncReadResult (rb_target r) ?st" using f t ReadBlock by (simp add: finishDeferred_def stack_view_def)
  have "waitingOps ?st = abs_waiting (ms_am s)" by (simp add: stack_view_def)
  note m = manager_read [OF ok this waiting_pointer [OF ok w]]
  obtain c' am' where am': "am_setAsyncReadResult (rb_target r) (ms_am s) = (c', am')" by fastforce
  have "am_ok am'" using setters_ok(1) [OF ok, of "rb_target r"] am' by simp
  moreover have "c' = c" "abs_waiting am' = waitingOps st" using m am' by (simp_all flip: st)
  moreover have "mem_read st = (ms_read s)(rb_target r := t)" "mem_call st = ms_call s"
    unfolding arg_cong [OF st, of snd, simplified snd_conv] setter_memory by (simp_all add: stack_view_def)
  moreover have "am_log am' = am_log (ms_am s) @ [ResultSet (rb_target r)]" using setters_accept(1) [OF ok w] am' by simp
  ultimately show ?thesis using t am' ReadBlock by (simp add: manager_finish_def block_key_def)
next
  case (WriteBlock w)
  have w: "(WriteOp, wb_target w) \<in> set (abs_waiting (ms_am s))" using b WriteBlock by (simp add: block_kind_def block_key_def)
  have st: "(c, st) = UA_Server_setAsyncWriteResult (wb_target w) (wb_result w) (stack_view s)" using f WriteBlock by (simp add: finishDeferred_def)
  have "waitingOps (stack_view s) = abs_waiting (ms_am s)" by (simp add: stack_view_def)
  note m = manager_write [OF ok this waiting_pointer [OF ok w], of "wb_result w"]
  obtain c' am' where am': "am_setAsyncWriteResult (wb_target w) (wb_result w) (ms_am s) = (c', am')" by fastforce
  have "am_ok am'" using setters_ok(2) [OF ok, of "wb_target w" "wb_result w"] am' by simp
  moreover have "c' = c" "abs_waiting am' = waitingOps st" using m am' by (simp_all flip: st)
  moreover have "mem_read st = ms_read s" "mem_call st = ms_call s"
    unfolding arg_cong [OF st, of snd, simplified snd_conv] setter_memory by (simp_all add: stack_view_def)
  moreover have "am_log am' = am_log (ms_am s) @ [ResultSet (wb_target w)]" using setters_accept(2) [OF ok w, of "wb_result w"] am' by simp
  ultimately show ?thesis using am' WriteBlock by (simp add: manager_finish_def block_key_def)
next
  case (MethodBlock m)
  have w: "(CallOp, mb_outputArray m) \<in> set (abs_waiting (ms_am s))" using b MethodBlock by (simp add: block_kind_def block_key_def)
  obtain vs where vs: "copyOutputs al m (ms_call s (mb_outputArray m)) = Inr vs"
    using f MethodBlock by (cases "copyOutputs al m (ms_call s (mb_outputArray m))") (auto simp: finishDeferred_def stack_view_def)
  let ?st = "(stack_view s)\<lparr>mem_call := (ms_call s)(mb_outputArray m := vs)\<rparr>"
  have st: "(c, st) = UA_Server_setAsyncCallMethodResult (mb_outputArray m) (mb_result m) ?st"
    using f vs MethodBlock by (simp add: finishDeferred_def stack_view_def)
  have "waitingOps ?st = abs_waiting (ms_am s)" by (simp add: stack_view_def)
  note call = manager_call [OF ok this, of "mb_outputArray m" "mb_result m"]
  obtain c' am' where am': "am_setAsyncCallMethodResult (mb_outputArray m) (mb_result m) (ms_am s) = (c', am')" by fastforce
  have "am_ok am'" using setters_ok(3) [OF ok, of "mb_outputArray m" "mb_result m"] am' by simp
  moreover have "c' = c" "abs_waiting am' = waitingOps st" using call am' by (simp_all flip: st)
  moreover have "mem_read st = ms_read s" "mem_call st = (ms_call s)(mb_outputArray m := vs)"
    unfolding arg_cong [OF st, of snd, simplified snd_conv] setter_memory by (simp_all add: stack_view_def)
  moreover have "am_log am' = am_log (ms_am s) @ [ResultSet (mb_outputArray m)]" using setters_accept(3) [OF ok w, of "mb_result m"] am' by simp
  ultimately show ?thesis using vs am' MethodBlock by (simp add: manager_finish_def block_key_def)
qed

lemma awaits_cong:
  assumes "waitingOps st = waitingOps st'" "mem_call st = mem_call st'"
  shows "awaits_with al st p = awaits_with al st' p"
  using assms by (simp add: awaits_with_def stack_awaits_def block_ok_def split: Block.split)

interpretation manager: async_server ptr_key "manager_finish al" manager_keys "manager_awaits al" manager_log for al
proof unfold_locales
  fix s p
  have keys: "manager_keys s = waiting_keys (stack_view s)" for s
    by (simp add: manager_keys_def waiting_keys_def stack_view_def abs_waiting_def seen_def image_image)
  assume a: "manager_awaits al s p"
  then have ok: "am_ok (ms_am s)" and w: "awaits_with al (stack_view s) p" by (simp_all add: manager_awaits_def)
  then have al: "mem_ok al" and b: "stack_awaits (stack_view s) (snd p)" by (simp_all add: awaits_with_def)
  show "ptr_key p \<in> manager_keys s" unfolding keys by (rule stack.awaits_key [OF w])
  from stack.finish_accepted [OF w] obtain st where st: "finishDeferred al (snd p) (stack_view s) = Inr (OpcUa_Good, st)"
    "waiting_keys st = waiting_keys (stack_view s) - {ptr_key p}"
    "\<forall>c. awaits_with al (stack_view s) c \<longrightarrow> ptr_key c \<noteq> ptr_key p \<longrightarrow> awaits_with al st c" by (auto simp: ptr_finish_def)
  have "(block_kind (snd p), block_key (snd p)) \<in> set (abs_waiting (ms_am s))" using b by (simp add: stack_awaits_def stack_view_def)
  from finish_view [OF ok this st(1)] obtain s' where s': "manager_finish al p s = Inr (OpcUa_Good, s')"
    "abs_waiting (ms_am s') = waitingOps st" "ms_read s' = mem_read st" "ms_call s' = mem_call st" "am_ok (ms_am s')"
    "am_log (ms_am s') = am_log (ms_am s) @ [ResultSet (block_key (snd p))]" by blast
  have view: "awaits_with al (stack_view s') c = awaits_with al st c" for c
    by (rule awaits_cong) (simp_all add: stack_view_def s')
  have "manager_keys s' = manager_keys s - {ptr_key p}"
    unfolding keys using st(2) by (simp add: waiting_keys_def stack_view_def s'(2))
  moreover have "manager_log s' = manager_log s @ [ptr_key p]"
    by (simp add: manager_log_def s'(6) ptr_key_def List.map_filter_def)
  moreover have "\<forall>c. manager_awaits al s c \<longrightarrow> ptr_key c \<noteq> ptr_key p \<longrightarrow> manager_awaits al s' c"
    using st(3) s'(5) by (simp add: manager_awaits_def view)
  ultimately show "\<exists>s'. manager_finish al p s = Inr (OpcUa_Good, s') \<and> manager_keys s' = manager_keys s - {ptr_key p}
      \<and> manager_log s' = manager_log s @ [ptr_key p] \<and> (\<forall>c. manager_awaits al s c \<longrightarrow> ptr_key c \<noteq> ptr_key p \<longrightarrow> manager_awaits al s' c)"
    using s'(1) by blast
qed

subsection \<open>The registry that follows the manager\<close>

text \<open>
  What the wrapper does to its registry when the manager reaches an operation: a handler that defers registers its block, a result
  that was handed over is erased by \<open>drain\<close>, the cancel callback erases. \<open>blk i\<close> is the block of the \<open>i\<close>-th notification.
\<close>

definition registry_step :: "'b \<Rightarrow> effect \<Rightarrow> 'b AsyncOperations \<Rightarrow> 'b AsyncOperations" where
  "registry_step b e a = (case e of
      Postponed k \<Rightarrow> establish_register k b (establish_count a)
    | ResultSet k \<Rightarrow> a\<lparr>m_pending := erase k (m_pending a)\<rparr>
    | CancelCallback k \<Rightarrow> cancel k a
    | _ \<Rightarrow> a)"

fun registry_replay :: "(nat \<Rightarrow> 'b) \<Rightarrow> effect list \<Rightarrow> 'b AsyncOperations \<Rightarrow> 'b AsyncOperations" where
  "registry_replay blk [] a = a"
| "registry_replay blk (e # es) a = registry_replay (\<lambda>i. blk (Suc i)) es (registry_step (blk 0) e a)"

lemma registry_step_keys: "dom (m_pending (registry_step b e a)) = key_effect e (dom (m_pending a))"
  by (cases e) (auto simp: registry_step_def establish_register_def establish_count_def cancel_def erase_def)

lemma registry_replay_keys: "dom (m_pending (registry_replay blk es a)) = keys_after (dom (m_pending a)) es"
  by (induction blk es a rule: registry_replay.induct) (simp_all add: registry_step_keys)

theorem registry_follows_manager:
  assumes "am_run es UA_AsyncManager_init = Some am"
  shows "dom (m_pending (registry_replay blk (am_log am) AsyncOperations_new)) = cancelPtr ` set (am_waitingOps am)"
proof -
  have "balanced am" using am_run_ok [OF init_ok assms] by (simp add: am_ok_def)
  then have "keys_after {} (am_log am) = cancelPtr ` set (am_waitingOps am)" by (simp only: balanced_def)
  then show ?thesis by (simp add: registry_replay_keys AsyncOperations_new_def)
qed

text \<open>C13 (safety). The wrapper's registry and completion queue on the stack's own manager. After any run of the manager, the
  registry that followed its notifications has an entry for exactly the operations that wait in the manager. When each of its
  blocks has the kind of its operation and a result that can be copied, a drain of any completion queue ends without an error:
  the queue is empty, the manager has accepted exactly the results of the blocks that were still registered, in the order
  of the queue and each once, and registry and manager still agree.\<close>

theorem drain_on_manager:
  assumes run: "am_run es UA_AsyncManager_init = Some (ms_am s)" and al: "mem_ok al"
    and a: "m_pending a = m_pending (registry_replay blk (am_log (ms_am s)) AsyncOperations_new)"
    and blocks: "\<forall>k p. m_pending a k = Some p \<longrightarrow> ptr_key p = k \<and> stack_awaits (stack_view s) (snd p)"
  shows "dom (m_pending a) = manager_keys s
    \<and> (\<exists>a' s'. drain ptr_key (manager_finish al) (a, s) = Inr (a', s') \<and> m_queue a' = []
        \<and> manager_log s' = manager_log s @ map ptr_key (answered ptr_key (m_pending a) (m_queue a))
        \<and> distinct (map ptr_key (answered ptr_key (m_pending a) (m_queue a)))
        \<and> (\<forall>p. p \<in> set (answered ptr_key (m_pending a) (m_queue a)) \<longleftrightarrow> p \<in> set (m_queue a) \<and> m_pending a (ptr_key p) = Some p)
        \<and> dom (m_pending a') = manager_keys s')"
proof -
  have keys: "dom (m_pending a) = manager_keys s" by (simp add: a registry_follows_manager [OF run] manager_keys_def)
  moreover have "manager_awaits al s p" if "m_pending a k = Some p" for k p
    unfolding manager_awaits_def awaits_with_def using blocks that al am_run_ok [OF init_ok run] by blast
  ultimately have "manager.agree al a s" using blocks by (simp add: manager.agree_def)
  from manager.drain_spec [OF this] obtain a' s' where d: "drain ptr_key (manager_finish al) (a, s) = Inr (a', s')" "manager.agree al a' s'"
    "m_queue a' = []" "manager_log s' = manager_log s @ map ptr_key (answered ptr_key (m_pending a) (m_queue a))" by blast
  moreover have "dom (m_pending a') = manager_keys s'" using d(2) by (simp only: manager.agree_def)
  moreover have "p \<in> set (answered ptr_key (m_pending a) (m_queue a)) \<longleftrightarrow> p \<in> set (m_queue a) \<and> m_pending a (ptr_key p) = Some p" for p
    using answered_pending [of p ptr_key "m_pending a" "m_queue a"] answered_complete [of p "m_queue a" "m_pending a" ptr_key] by blast
  ultimately show ?thesis using keys answered_distinct by blast
qed

text \<open>A read and a write wait; the queue holds the block of the write and a block of an operation that was cancelled before.\<close>

definition example_blocks :: "nat \<Rightarrow> block_ptr" where
  "example_blocks i = (i, if i = 0 then ReadBlock (AsyncReadBlock_new 11 UA_DataValue_init)
     else if i = 1 then ReadBlock (AsyncReadBlock_new 31 UA_DataValue_init) else WriteBlock (AsyncWriteBlock_new 40))"

definition example_manager :: manager_state where
  "example_manager = \<lparr>ms_am = requests_waiting, ms_read = (\<lambda>_. UA_DataValue_init), ms_call = (\<lambda>_. [])\<rparr>"

lemma requests_waiting_log:
  "am_log requests_waiting = [Postponed 11, Postponed 31, RequestWaits 1 UA_NodeId_null, Postponed 40, RequestWaits 2 UA_NodeId_null, ResultSet 11]"
  by code_simp

lemma requests_waiting_abs: "abs_waiting requests_waiting = [(ReadOp, 31), (WriteOp, 40)]"
  by code_simp

theorem drain_on_manager_witness:
  "\<exists>a' s'. drain ptr_key (manager_finish enough_memory)
      ((registry_replay example_blocks (am_log requests_waiting) AsyncOperations_new)\<lparr>m_queue := [example_blocks 3, example_blocks 0]\<rparr>,
       example_manager) = Inr (a', s') \<and> manager_log s' = [11, 40]"
proof -
  let ?a = "(registry_replay example_blocks (am_log requests_waiting) AsyncOperations_new)\<lparr>m_queue := [example_blocks 3, example_blocks 0]\<rparr>"
  have pending: "m_pending ?a = [31 \<mapsto> example_blocks 1, 40 \<mapsto> example_blocks 3]"
    by (simp add: requests_waiting_log registry_step_def establish_register_def establish_count_def AsyncOperations_new_def
        erase_def fun_eq_iff eval_nat_numeral)
  have "ptr_key p = k \<and> stack_awaits (stack_view example_manager) (snd p)" if "m_pending ?a k = Some p" for k p
    using that unfolding pending
    by (auto simp: stack_awaits_def stack_view_def example_manager_def requests_waiting_abs example_blocks_def block_kind_def block_key_def
        ptr_key_def block_ok_def AsyncReadBlock_new_def AsyncWriteBlock_new_def split: if_splits)
  then have blocks: "\<forall>k p. m_pending ?a k = Some p \<longrightarrow> ptr_key p = k \<and> stack_awaits (stack_view example_manager) (snd p)" by blast
  have run: "am_run request_events UA_AsyncManager_init = Some (ms_am example_manager)"
    by (simp add: example_manager_def requests_run)
  have a: "m_pending ?a = m_pending (registry_replay example_blocks (am_log (ms_am example_manager)) AsyncOperations_new)"
    by (simp add: example_manager_def)
  from drain_on_manager [OF run mem_ok_enough a blocks] obtain a' s' where
    d: "drain ptr_key (manager_finish enough_memory) (?a, example_manager) = Inr (a', s')"
    "manager_log s' = manager_log example_manager @ map ptr_key (answered ptr_key (m_pending ?a) (m_queue ?a))" by blast
  have "answered ptr_key (m_pending ?a) (m_queue ?a) = [example_blocks 3]"
    unfolding pending by (simp add: example_blocks_def ptr_key_def block_key_def AsyncReadBlock_new_def AsyncWriteBlock_new_def)
  then have "manager_log s' = [11, 40]"
    using d(2) by (simp add: manager_log_def example_manager_def requests_waiting_log List.map_filter_def example_blocks_def ptr_key_def
        block_key_def AsyncWriteBlock_new_def)
  then show ?thesis using d(1) by blast
qed

end
