(* ===== verification/UaDateTime_Text.thy ===== *)
theory UaDateTime_Text
  imports UaDateTimes
begin

text \<open>
  Dates as text: what \<open>UaDateTime::fromString\<close> reads of the format its error message documents, and of the format
  \<open>UaDateTime::toString\<close> writes.
\<close>

subsection \<open>Printed numbers\<close>

lemma zero_pad_digits: "n < 10 ^ w \<Longrightarrow> 0 < w \<Longrightarrow> replicate (w - length (show_base 10 n)) (CHR ''0'') @ show_base 10 n = digits w n"
proof (induction w arbitrary: n)
  case (Suc w)
  have zeros: "digits k 0 = replicate k (CHR ''0'')" for k
    by (induction k) (simp_all add: hex_digit_def replicate_append_same)
  show ?case
  proof (cases "n < 10")
    case True
    then have "show_base 10 n = [hex_digit n]" by (subst show_base.simps) simp
    then show ?thesis using True by (simp add: zeros)
  next
    case False
    then have shown: "show_base 10 n = show_base 10 (n div 10) @ [hex_digit (n mod 10)]" by (subst show_base.simps) simp
    have "n div 10 < 10 ^ w" using Suc.prems(1) by (simp add: div_less_iff_less_mult mult.commute)
    moreover have "0 < w" using False Suc.prems(1) by (cases w) simp_all
    ultimately show ?thesis using Suc.IH [of "n div 10"] by (simp add: shown)
  qed
qed simp

lemma zero_pad_2: "0 \<le> i \<Longrightarrow> i < 100 \<Longrightarrow> zero_pad 2 i = digits 2 (nat i)"
  using zero_pad_digits [of "nat i" 2] by (simp add: zero_pad_def Let_def)

lemma zero_pad_4: "0 \<le> i \<Longrightarrow> i < 10000 \<Longrightarrow> zero_pad 4 i = digits 4 (nat i)"
  using zero_pad_digits [of "nat i" 4] by (simp add: zero_pad_def Let_def)

subsection \<open>The fields of a date as text\<close>

definition struct_text :: "char \<Rightarrow> UA_DateTimeStruct \<Rightarrow> string" where
  "struct_text sep ts = date_text (nat (sint (ds_year ts))) (unat (ds_month ts)) (unat (ds_day ts)) sep (unat (ds_hour ts)) (unat (ds_min ts))"

definition four_digit_year :: "UA_DateTimeStruct \<Rightarrow> bool" where
  "four_digit_year ts \<longleftrightarrow> 0 \<le> sint (ds_year ts) \<and> sint (ds_year ts) \<le> 9999"

lemma real_struct_small:
  assumes "real_struct ts"
  shows "unat (ds_month ts) < 100" "unat (ds_day ts) < 100" "unat (ds_hour ts) < 100" "unat (ds_min ts) < 100" "unat (ds_sec ts) < 60"
proof -
  have d: "uint (ds_day ts) \<le> month_length (sint (ds_year ts)) (uint (ds_month ts) - 1)" "0 \<le> uint (ds_month ts) - 1" "uint (ds_month ts) - 1 \<le> 11"
    "uint (ds_hour ts) \<le> 23" "uint (ds_min ts) \<le> 59" "uint (ds_sec ts) \<le> 59"
    using assms by (simp_all add: real_struct_def real_date_def struct_tm_def)
  then have "uint (ds_day ts) \<le> 31" using month_length_31 [OF d(2,3), of "sint (ds_year ts)"] by linarith
  moreover have lt: "uint w < int k \<Longrightarrow> unat w < k" for w :: "16 word" and k by (simp flip: of_nat_less_iff [where 'a = int])
  ultimately show "unat (ds_month ts) < 100" "unat (ds_day ts) < 100" "unat (ds_hour ts) < 100" "unat (ds_min ts) < 100" "unat (ds_sec ts) < 60"
    using d by (auto intro!: lt)
qed

text \<open>Reading the fields, up to the seconds.\<close>

lemma parse_struct:
  assumes ts: "UA_DateTime_toStruct t = Inr ts" "in_int64 t" and year: "four_digit_year ts"
    and sec: "parse_second (struct_text sep ts @ cs) 17 = Inr (Some (uint (ds_sec ts), p))"
  shows "parse_seconds (struct_text sep ts @ cs) = Inr (Some ((t - UA_DATETIME_UNIX_EPOCH) div UA_DATETIME_SEC, p))"
proof -
  from toStruct_struct [OF ts(2)] ts(1) have st: "real_struct ts" "musl_tm_to_secs (struct_tm ts) = Inr ((t - UA_DATETIME_UNIX_EPOCH) div UA_DATETIME_SEC)"
    by auto
  have y: "nat (sint (ds_year ts)) < 10000" "int (nat (sint (ds_year ts))) = sint (ds_year ts)"
    using year by (simp_all add: four_digit_year_def nat_less_iff)
  show ?thesis
    using parse_seconds_text [OF y(1) real_struct_small(1-4) [OF st(1)] struct_text_def [of sep ts, THEN arg_cong [of _ _ "\<lambda>x. x @ cs"]] sec]
      st(2) year by (simp add: bind_opt_def struct_tm_def four_digit_year_def)
qed

lemma length_struct_text [simp]: "length (struct_text sep ts) = 17"
  by (simp add: struct_text_def)

lemma drop_struct_text [simp]: "drop 17 (struct_text sep ts @ cs) = cs"
  by simp

text \<open>A date, cut into its seconds since the epoch and the fraction; the shift of the parser, in dates.\<close>

definition read_date :: "int \<Rightarrow> int" where
  "read_date t = (let u = (t - UA_DATETIME_UNIX_EPOCH) div UA_DATETIME_SEC
     in if u = 0 then t + 2 * UA_DATETIME_SEC else if u = 1 then t - 2 * UA_DATETIME_SEC else t)"

lemma date_split:
  "t = UA_DATETIME_UNIX_EPOCH + ((t - UA_DATETIME_UNIX_EPOCH) div UA_DATETIME_SEC) * UA_DATETIME_SEC + t mod UA_DATETIME_SEC"
proof -
  have "(t - UA_DATETIME_UNIX_EPOCH) mod UA_DATETIME_SEC = t mod UA_DATETIME_SEC"
    unfolding UA_DATETIME_UNIX_EPOCH_def by (rule mod_diff_eq [THEN subst]) simp
  then show ?thesis using div_mult_mod_eq [of "t - UA_DATETIME_UNIX_EPOCH" UA_DATETIME_SEC] by simp
qed

lemma read_date_shift:
  "read_date t = UA_DATETIME_UNIX_EPOCH + ((t - UA_DATETIME_UNIX_EPOCH) div UA_DATETIME_SEC + epoch_shift ((t - UA_DATETIME_UNIX_EPOCH) div UA_DATETIME_SEC)) * UA_DATETIME_SEC
     + t mod UA_DATETIME_SEC"
  using date_split [of t] by (auto simp: read_date_def Let_def epoch_shift_def distrib_right)

lemma fraction_range: "0 \<le> t mod UA_DATETIME_SEC" "t mod UA_DATETIME_SEC < UA_DATETIME_SEC"
  by (simp_all add: UA_DATETIME_SEC_def)

subsection \<open>The documented format\<close>

definition iso_text :: "UA_DateTimeStruct \<Rightarrow> string" where
  "iso_text ts = struct_text (CHR ''T'') ts @ digits 2 (unat (ds_sec ts)) @ ''Z''"

lemma parse_iso:
  assumes "in_int64 t" "UA_DateTime_toStruct t = Inr ts" "four_digit_year ts" "t mod UA_DATETIME_SEC = 0"
  shows "parse_text ticks (iso_text ts) = Inr (Some (read_date t))"
proof -
  from toStruct_struct [OF assms(1)] assms(2) have "real_struct ts" by auto
  from real_struct_small(5) [OF this] have "parse_second (iso_text ts) 17 = Inr (Some (uint (ds_sec ts), 19))"
    using parse_second_text [of "unat (ds_sec ts)" 17 "iso_text ts" "''Z''"] by (simp add: iso_text_def)
  then have secs: "parse_seconds (iso_text ts) = Inr (Some ((t - UA_DATETIME_UNIX_EPOCH) div UA_DATETIME_SEC, 19))"
    unfolding iso_text_def by (rule parse_struct [OF assms(2,1,3)])
  have z: "iso_text ts ! 19 = CHR ''Z''" "length (iso_text ts) = 20" by (simp_all add: iso_text_def digits_2 nth_append)
  have range: "in_int64 (UA_DATETIME_UNIX_EPOCH + ((t - UA_DATETIME_UNIX_EPOCH) div UA_DATETIME_SEC) * UA_DATETIME_SEC + 0)"
    using date_split [of t] assms(1,4) by simp
  have "parse_text ticks (iso_text ts) = Inr (Some (UA_DATETIME_UNIX_EPOCH + ((t - UA_DATETIME_UNIX_EPOCH) div UA_DATETIME_SEC
      + epoch_shift ((t - UA_DATETIME_UNIX_EPOCH) div UA_DATETIME_SEC)) * UA_DATETIME_SEC + 0))"
  proof (rule parse_text_exact [OF secs range])
    show "parse_fraction ticks (iso_text ts) 19 dt = bind_res (add_int64 dt 0) (\<lambda>dt'. Inr (dt', 19))" if "in_int64 dt" for dt
      using z that by (simp add: parse_fraction_def add_int64_def)
    show "parse_zone (iso_text ts) 19 dt = Inr (Some (dt, length (iso_text ts)))" for dt
      using z by (simp add: parse_zone_def)
  qed (simp_all add: UA_DATETIME_SEC_def)
  then show ?thesis using assms(4) by (simp add: read_date_shift)
qed

subsection \<open>The format written\<close>

text \<open>What \<open>%02.09f\<close> prints, and what the parser's loop over the decimals computes, of multiples of 100 nanoseconds.\<close>

definition fmt_ok :: "(int \<Rightarrow> int \<Rightarrow> string) \<Rightarrow> bool" where
  "fmt_ok fmt \<longleftrightarrow> (\<forall>s<60. \<forall>k<10000000. fmt (int s) (int (100 * k)) = show_base 10 s @ ''.'' @ digits 9 (100 * k))"

definition ticks_ok :: "(string \<Rightarrow> int) \<Rightarrow> bool" where
  "ticks_ok ticks \<longleftrightarrow> (\<forall>k<10000000. ticks (digits 9 (100 * k)) = int k)"

text \<open>The text \<open>toString\<close> writes.\<close>

definition written_text :: "UA_DateTimeStruct \<Rightarrow> nat \<Rightarrow> string" where
  "written_text ts k = struct_text (CHR '':'') ts @ show_base 10 (unat (ds_sec ts)) @ ''.'' @ digits 9 (100 * k)"

lemma digits_digits: "c \<in> set (digits w n) \<Longrightarrow> is_digit c"
  by (induction w arbitrary: n) (auto simp: is_digit_digit)

lemma takeWhile_digits: "takeWhile is_digit (digits w n) = digits w n"
  by (simp add: takeWhile_eq_all_conv digits_digits)

lemma toString_text:
  assumes "mem_ok al" "fmt_ok fmt" "in_int64 t" "UA_DateTime_toStruct t = Inr ts" "four_digit_year ts"
  shows "UaDateTime_toString fmt al t = UaString_fromChars al (written_text ts (nat (t mod UA_DATETIME_SEC)))"
proof -
  from toStruct_struct [OF assms(3)] assms(4) have st: "real_struct ts"
    "uint (ds_milliSec ts) * 10000 + uint (ds_microSec ts) * 10 + uint (ds_nanoSec ts) div 100 = t mod UA_DATETIME_SEC" by auto
  note small = real_struct_small [OF st(1)]
  have "uint (ds_nanoSec ts) mod 100 = 0" using st(1) by (simp add: real_struct_def)
  then have nano: "uint (ds_nanoSec ts) = 100 * (uint (ds_nanoSec ts) div 100)"
    using mult_div_mod_eq [of 100 "uint (ds_nanoSec ts)"] by simp
  have k: "nat (t mod UA_DATETIME_SEC) < 10000000" "int (100 * nat (t mod UA_DATETIME_SEC)) = 100 * (t mod UA_DATETIME_SEC)"
    using fraction_range [of t] by (simp_all add: UA_DATETIME_SEC_def nat_less_iff)
  have "uint (ds_milliSec ts) * 10 ^ 6 + uint (ds_microSec ts) * 10 ^ 3 + uint (ds_nanoSec ts) = int (100 * nat (t mod UA_DATETIME_SEC))"
    unfolding k(2) using st(2) nano by simp
  then have fmt: "fmt (uint (ds_sec ts)) (uint (ds_milliSec ts) * 10 ^ 6 + uint (ds_microSec ts) * 10 ^ 3 + uint (ds_nanoSec ts))
      = show_base 10 (unat (ds_sec ts)) @ ''.'' @ digits 9 (100 * nat (t mod UA_DATETIME_SEC))"
    using assms(2) small(5) k(1) unfolding fmt_ok_def by (metis uint_nat)
  have two: "zero_pad 2 (uint w) = digits 2 (unat w)" if "unat w < 100" for w :: "16 word"
  proof -
    have "int (unat w) < 100" using that by linarith
    then show ?thesis using zero_pad_2 [of "int (unat w)"] by simp
  qed
  show ?thesis
    using assms(5) small fmt
    by (simp add: UaDateTime_toString_def assms(4) Let_def two zero_pad_4 four_digit_year_def written_text_def struct_text_def date_text_def)
qed

text \<open>Reading it back.\<close>

lemma show_two: "10 \<le> n \<Longrightarrow> n < 100 \<Longrightarrow> show_base 10 n = digits 2 n"
  by (subst show_base.simps, subst show_base.simps) (simp add: digits_2)

lemma show_one: "n < 10 \<Longrightarrow> show_base 10 n = [hex_digit n]"
  by (subst show_base.simps) simp

lemma parse_written:
  assumes "in_int64 t" "UA_DateTime_toStruct t = Inr ts" "four_digit_year ts" "ticks_ok ticks" "10 \<le> unat (ds_sec ts)"
  shows "parse_text ticks (written_text ts (nat (t mod UA_DATETIME_SEC))) = Inr (Some (read_date t))"
proof -
  define k where "k = nat (t mod UA_DATETIME_SEC)"
  have k: "k < 10000000" "int k = t mod UA_DATETIME_SEC"
    using fraction_range [of t] by (simp_all add: k_def UA_DATETIME_SEC_def nat_less_iff)
  from toStruct_struct [OF assms(1)] assms(2) have "real_struct ts" by auto
  note sec = real_struct_small(5) [OF this]
  let ?s = "written_text ts k"
  have s: "?s = struct_text (CHR '':'') ts @ digits 2 (unat (ds_sec ts)) @ ''.'' @ digits 9 (100 * k)"
    using assms(5) sec by (simp add: written_text_def show_two)
  have "parse_second ?s 17 = Inr (Some (uint (ds_sec ts), 19))"
    using parse_second_text [of "unat (ds_sec ts)" 17 ?s "''.'' @ digits 9 (100 * k)"] sec by (simp add: s)
  then have secs: "parse_seconds ?s = Inr (Some ((t - UA_DATETIME_UNIX_EPOCH) div UA_DATETIME_SEC, 19))"
    unfolding s by (rule parse_struct [OF assms(2,1,3)])
  have dot: "?s ! 19 = CHR ''.''" "length ?s = 29" "drop 20 ?s = digits 9 (100 * k)"
    by (simp_all add: s digits_2 nth_append)
  have "ticks (digits 9 (100 * k)) = t mod UA_DATETIME_SEC" using assms(4) k by (simp add: ticks_ok_def)
  then have frac: "parse_fraction ticks ?s 19 dt = bind_res (add_int64 dt (t mod UA_DATETIME_SEC)) (\<lambda>dt'. Inr (dt', 29))" for dt
    using dot by (simp add: parse_fraction_def Let_def takeWhile_digits)
  have zone: "parse_zone ?s 29 dt = Inr (Some (dt, length ?s))" for dt using dot(2) by (simp add: parse_zone_def)
  have "in_int64 (UA_DATETIME_UNIX_EPOCH + ((t - UA_DATETIME_UNIX_EPOCH) div UA_DATETIME_SEC) * UA_DATETIME_SEC + t mod UA_DATETIME_SEC)"
    using date_split [of t] assms(1) by simp
  from parse_text_exact [OF secs this fraction_range frac zone] show ?thesis by (simp add: read_date_shift k_def)
qed

lemma parse_written_short:
  assumes "in_int64 t" "UA_DateTime_toStruct t = Inr ts" "four_digit_year ts" "unat (ds_sec ts) < 10"
  shows "parse_text ticks (written_text ts k) = Inr None"
proof -
  from toStruct_struct [OF assms(1)] assms(2) have st: "real_struct ts" by auto
  have y: "nat (sint (ds_year ts)) < 10000" using assms(3) by (simp add: four_digit_year_def nat_less_iff)
  let ?s = "written_text ts k"
  have s: "?s = struct_text (CHR '':'') ts @ hex_digit (unat (ds_sec ts)) # CHR ''.'' # digits 9 (100 * k)"
    using assms(4) by (simp add: written_text_def show_one)
  have "parse_decimal (hex_digit (unat (ds_sec ts)) # CHR ''.'' # digits 9 (100 * k)) (Suc (Suc 0)) 0 0 = Inr (1, word_of_nat (unat (ds_sec ts)))"
    using assms(4) by (simp add: decimal_first decimal_stop del: parse_decimal.simps(3))
  then have "parse_second ?s 17 = Inr None"
    by (simp add: parse_second_def s UA_CHECK_def parseUInt64_def numeral_2_eq_2)
  then have "parse_seconds ?s = Inr None"
    using parse_seconds_text [OF y real_struct_small(1-4) [OF st], of ?s "CHR '':''" "hex_digit (unat (ds_sec ts)) # CHR ''.'' # digits 9 (100 * k)"]
    by (simp add: s struct_text_def bind_opt_def)
  moreover have "?s \<noteq> []" by (simp add: s)
  ultimately show ?thesis by (simp add: parse_text_def UA_CHECK_def bind_opt_def)
qed

subsection \<open>Reading what is written\<close>

lemma month_secs_minutes: "i < 12 \<Longrightarrow> secs_through_month ! i mod 60 = 0"
proof -
  assume "i < 12"
  then have "secs_through_month ! i \<in> set secs_through_month" by (intro nth_mem) (simp add: secs_through_month_def)
  moreover have "\<forall>x\<in>set secs_through_month. x mod 60 = 0" by (simp add: secs_through_month_def)
  ultimately show ?thesis by blast
qed

text \<open>The seconds of the minute.\<close>

lemma secs_mod_60:
  assumes "real_struct ts" "musl_tm_to_secs (struct_tm ts) = Inr u"
  shows "u mod 60 = uint (ds_sec ts)"
proof -
  have d: "0 \<le> tm_mon (struct_tm ts)" "tm_mon (struct_tm ts) \<le> 11" "tm_sec (struct_tm ts) \<le> 59" "tm_sec (struct_tm ts) = uint (ds_sec ts)"
    using assms(1) by (simp_all add: real_struct_def real_date_def struct_tm_def)
  have "\<bar>sint (ds_year ts)\<bar> \<le> 32768" using sint_ge [of "ds_year ts"] sint_lt [of "ds_year ts"] by simp
  then have y: "\<bar>tm_year (struct_tm ts)\<bar> \<le> 2 ^ 40" by (simp add: struct_tm_def)
  define m where "m = secs_through_month ! nat (tm_mon (struct_tm ts))"
  have "m mod 60 = 0" unfolding m_def by (rule month_secs_minutes) (use d in auto)
  then obtain m' where m: "m = 60 * m'" by (auto elim: dvdE)
  define l :: int where "l = (if leap_year (tm_year (struct_tm ts) + 1900) \<and> tm_mon (struct_tm ts) \<ge> 2 then 1440 else 0)"
  have "u = 60 * (1440 * new_year (tm_year (struct_tm ts) + 1900) + m' + l + 1440 * (tm_mday (struct_tm ts) - 1)
      + 60 * tm_hour (struct_tm ts) + tm_min (struct_tm ts)) + uint (ds_sec ts)"
    using assms(2) tm_to_secs_eq [OF d(1,2) y] d(4) by (auto simp: l_def m_def [symmetric] m algebra_simps)
  then have "u mod 60 = uint (ds_sec ts) mod 60" by (simp only: mod_mult_self4)
  then show ?thesis using d(3,4) by simp
qed

lemma digits_nul_free: "nul_free (digits w n)"
  using digits_digits by (fastforce simp: nul_free_def is_digit_def)

lemma struct_text_nul_free: "c \<noteq> CHR 0x00 \<Longrightarrow> nul_free (struct_text c ts)"
  by (simp add: struct_text_def date_text_def digits_nul_free)

lemma hex_digit_not_nul: "hex_digit d \<noteq> CHR 0x00"
  using hex_digit_in [of d] by (auto simp: hex_chars_def)

lemma show_nul_free: "nul_free (show_base b n)"
  using show_base_chars [of b n] by (auto simp: nul_free_def hex_chars_def)

lemma fromString_read:
  assumes "mem_ok al" "nul_free s" "s \<noteq> []" "parse_text ticks s = Inr r"
  shows "bind_res (UaString_fromChars al s) (UaDateTime_fromString ticks)
    = (case r of None \<Rightarrow> Inl (Throw (RuntimeError ''Failed to convert string ['')) | Some d \<Rightarrow> Inr d)"
  using assms by (simp add: UaString_fromChars_def UA_String_fromChars_def UaDateTime_fromString_def UA_DateTime_parse_def split: option.split)

subsection \<open>Exact arithmetic\<close>

text \<open>In place of the doubles, for concrete dates.\<close>

definition exact_fmt :: "int \<Rightarrow> int \<Rightarrow> string" where
  "exact_fmt s n = show_base 10 (nat s) @ ''.'' @ digits 9 (nat n)"

definition exact_ticks :: "string \<Rightarrow> int" where
  "exact_ticks s = foldl (\<lambda>a c. 10 * a + (of_char c - 48)) 0 s div 100"

lemma exact_fmt_ok: "fmt_ok exact_fmt"
  by (simp add: fmt_ok_def exact_fmt_def nat_mult_distrib)

lemma digits_value: "n < 10 ^ w \<Longrightarrow> foldl (\<lambda>a c. 10 * a + (of_char c - 48)) 0 (digits w n) = int n"
proof (induction w arbitrary: n)
  case (Suc w)
  have "n div 10 < 10 ^ w" using Suc.prems by (simp add: div_less_iff_less_mult mult.commute)
  from Suc.IH [OF this] have "foldl (\<lambda>a c. 10 * a + (of_char c - 48)) 0 (digits (Suc w) n) = 10 * int (n div 10) + int (n mod 10)"
    by (simp add: digit_value)
  moreover have "10 * int (n div 10) + int (n mod 10) = int n" using mult_div_mod_eq [of 10 "int n"] by (simp add: zdiv_int zmod_int)
  ultimately show ?case by simp
qed simp

lemma exact_ticks_ok: "ticks_ok exact_ticks"
  unfolding ticks_ok_def exact_ticks_def
proof (intro allI impI)
  fix k :: nat
  assume "k < 10000000"
  then have "100 * k < 10 ^ 9" by simp
  from digits_value [OF this] show "foldl (\<lambda>a c. 10 * a + (of_char c - 48)) 0 (digits 9 (100 * k)) div 100 = int k" by simp
qed

lemma half_past: "UA_DateTime_toStruct 133170160345000000 = Inr \<lparr>ds_nanoSec = 0, ds_microSec = 0, ds_milliSec = 500, ds_sec = 14,
   ds_min = 7, ds_hour = 3, ds_day = 1, ds_month = 1, ds_year = 2023\<rparr>"
  by code_simp

definition epoch_fields :: UA_DateTimeStruct where
  "epoch_fields = \<lparr>ds_nanoSec = 0, ds_microSec = 0, ds_milliSec = 0, ds_sec = 0, ds_min = 0, ds_hour = 0, ds_day = 1, ds_month = 1, ds_year = 1970\<rparr>"

lemma epoch_struct: "UA_DateTime_toStruct UA_DATETIME_UNIX_EPOCH = Inr epoch_fields"
  by code_simp

subsection \<open>Round trips\<close>

text \<open>C30 (error). What \<open>toString\<close> writes, \<open>fromString\<close> reads back exactly, to the fraction of a second, if the seconds of
  the minute have two digits. If they have one, it throws: the format writes them in one digit, as its width
  covers the decimals too, and the parser insists on two. (For years of four digits; the colon written for the documented
  \<open>T\<close> does no harm, because the parser's check for it is never decisive.)\<close>

theorem UaDateTime_text_roundtrip:
  assumes "mem_ok al" "fmt_ok fmt" "ticks_ok ticks" "in_int64 t" "UA_DateTime_toStruct t = Inr ts" "four_digit_year ts"
  shows "bind_res (UaDateTime_toString fmt al t) (UaDateTime_fromString ticks)
    = (if uint (ds_sec ts) < 10 then Inl (Throw (RuntimeError ''Failed to convert string ['')) else Inr t)"
proof -
  let ?s = "written_text ts (nat (t mod UA_DATETIME_SEC))"
  have s: "nul_free ?s" "?s \<noteq> []" by (simp_all add: written_text_def struct_text_nul_free digits_nul_free show_nul_free)
  have sec: "uint (ds_sec ts) < 10 \<longleftrightarrow> unat (ds_sec ts) < 10" by (simp flip: of_nat_less_iff [where 'a = int])
  show ?thesis
  proof (cases "uint (ds_sec ts) < 10")
    case True
    then show ?thesis
      using fromString_read [OF assms(1) s parse_written_short [OF assms(4,5,6)]] toString_text [OF assms(1,2,4,5,6)] sec by simp
  next
    case False
    from toStruct_struct [OF assms(4)] assms(5) have "((t - UA_DATETIME_UNIX_EPOCH) div UA_DATETIME_SEC) mod 60 = uint (ds_sec ts)"
      using secs_mod_60 by auto
    then have "read_date t = t" using False by (auto simp: read_date_def Let_def)
    then show ?thesis
      using fromString_read [OF assms(1) s parse_written [OF assms(4,5,6,3)]] toString_text [OF assms(1,2,4,5,6)] sec False by simp
  qed
qed

theorem UaDateTime_text_roundtrip_witness:
  "bind_res (UaDateTime_toString exact_fmt enough_memory 133170160345000000) (UaDateTime_fromString exact_ticks) = Inr 133170160345000000"
  using UaDateTime_text_roundtrip [OF _ exact_fmt_ok exact_ticks_ok _ half_past, of enough_memory]
  by (simp add: in_int64_def four_digit_year_def)

text \<open>C31 (functional). A date written in the documented format, as year, month, day, hour, minute and second with four and two digits,
  is read as that date, with two exceptions: the first second of 1970 is read as the third, and the
  second one as the last second of 1969, because the parser takes one second off and puts it back by a sign
  that its own change has turned.\<close>

theorem UaDateTime_reads_documented_format:
  assumes "mem_ok al" "in_int64 t" "t mod UA_DATETIME_SEC = 0" "UA_DateTime_toStruct t = Inr ts" "four_digit_year ts"
  shows "bind_res (UaString_fromChars al (iso_text ts)) (UaDateTime_fromString ticks)
    = Inr (if t = UA_DATETIME_UNIX_EPOCH then t + 2 * UA_DATETIME_SEC
           else if t = UA_DATETIME_UNIX_EPOCH + UA_DATETIME_SEC then t - 2 * UA_DATETIME_SEC else t)"
proof -
  have s: "nul_free (iso_text ts)" "iso_text ts \<noteq> []" by (simp_all add: iso_text_def struct_text_nul_free digits_nul_free)
  have "t = UA_DATETIME_UNIX_EPOCH + ((t - UA_DATETIME_UNIX_EPOCH) div UA_DATETIME_SEC) * UA_DATETIME_SEC"
    using date_split [of t] assms(3) by simp
  then have "(t - UA_DATETIME_UNIX_EPOCH) div UA_DATETIME_SEC = 0 \<longleftrightarrow> t = UA_DATETIME_UNIX_EPOCH"
    "(t - UA_DATETIME_UNIX_EPOCH) div UA_DATETIME_SEC = 1 \<longleftrightarrow> t = UA_DATETIME_UNIX_EPOCH + UA_DATETIME_SEC"
    by (auto simp: UA_DATETIME_SEC_def)
  then show ?thesis
    using fromString_read [OF assms(1) s parse_iso [OF assms(2,4,5,3)], of ticks] by (simp add: read_date_def Let_def)
qed

theorem UaDateTime_reads_documented_format_witness:
  "bind_res (UaString_fromChars enough_memory (iso_text epoch_fields)) (UaDateTime_fromString exact_ticks) = Inr (UA_DATETIME_UNIX_EPOCH + 2 * UA_DATETIME_SEC)"
  using UaDateTime_reads_documented_format [OF _ _ _ epoch_struct, of enough_memory exact_ticks]
  by (simp add: in_int64_def four_digit_year_def epoch_fields_def datetime_units)

end
