(* ===== verification/Spec2Isabelle.thy ===== *)
theory Spec2Isabelle
  imports UaSync AsyncShutdown UaVariant_Props StatusNames UaHandlers NodeManagerProps UaSession_KeepAlive UaServerConfig LogItLogger UA_Orders UA_Structs_Props UA_AsyncManager_Registry UaDateTime_Text
begin

text \<open>
  A verification development of open62541-compat, a C++ library that offers the application interface of a
  commercial OPC UA kit on top of the open62541 stack (quasar servers and clients are its users). The sources
  are \<open>include/\<close> and \<open>src/\<close>; the stack is bundled in \<open>extern/open62541\<close> as one C file.

  Parts and how they interact. The value classes (status codes, strings, byte strings, node ids, names, arrays,
  variants, data values, dates) own one structure of the stack each and copy, compare and convert it. Nodes hold
  such values; a node manager puts nodes into the stack's address space and hands it callbacks. The stack calls
  back for every read, write and method call; a callback answers at once or defers the answer to a worker
  thread, and \<open>AsyncOperations\<close> connects the deferred answer to the operation that waits for it. The server
  object creates stack, manager and operations, runs the server thread, and stops it. The client session is the
  other end: it sends reads, writes, calls and browses, and converts what comes back. Of the stack itself the parts are modelled that
  decide what these classes see: arrays, strings, node ids and variants, their orders, dates, the manager of asynchronous
  operations, and the binary encoding in which values travel from one end to the other.

  Modelling conventions (\<open>Compat_Prelude\<close>). A fallible operation returns \<open>fault + 'a\<close>: \<open>Throw e\<close> is a C++
  exception, \<open>UB u\<close> undefined behaviour of a named kind (null or freed pointer, out of range, overflow),
  \<open>Terminate\<close> the end of the program. An operation on an object is a function from the object to the
  result and the object after it, so what an exception leaves behind is part of the model. A pointer to
  an array is \<open>Null\<close>, the stack's sentinel for arrays of length zero, or the elements; an object deleted
  is \<open>Freed\<close>. Machine integers are words. Whether an allocation succeeds is decided by a parameter
  \<open>al\<close>; \<open>mem_ok al\<close> says that it never fails. Other parameters stand for code outside the sources:
  \<open>lc\<close> for \<open>boost::lexical_cast\<close>, \<open>nc\<close> for \<open>boost::numeric_cast\<close> (documented on integers, open
  on floating point), printing of floating point, the clock, the functions of the stack that add nodes, the
  client of the stack, the handlers an application overrides. Dates take \<open>ticks\<close>, \<open>fmt\<close> and \<open>quot\<close> for floating point
  scaling, formatting and division, with hypotheses on exact inputs; the configuration takes \<open>load\<close>, \<open>regex_match\<close> and
  \<open>lexical_cast\<close>; the binary codec takes \<open>encode_table\<close> and \<open>decode_table\<close>, the entries of the stack's jump
  tables for types that are not modelled.

  Theories, in the order they build on each other:
  \<^item> \<open>StatusCode\<close>, \<open>StatusNames\<close>: \<open>UaStatus\<close> with every alias and both tables of descriptions.
  \<^item> \<open>UA_Stack\<close>, \<open>UA_Values\<close>: what the library calls in the stack: arrays, strings and their order,
    node ids and their order, the type table, variants; copying recurses on the size of the value.
  \<^item> \<open>UA_Orders\<close>, \<open>UA_Calendar\<close>, \<open>UA_Dates\<close>, \<open>UA_DateParse\<close>: the order of node ids as a linear order of keys, seconds to
    calendar dates and back, the stack's parser of dates and numbers; \<open>UaDateTime_Text\<close>: the text forms of \<open>UaDateTime\<close>.
  \<^item> \<open>UA_AsyncManager\<close>, \<open>_Props\<close>, \<open>_Laws\<close>, \<open>_Registry\<close>: the stack's \<open>UA_AsyncManager\<close> with requests, direct operations,
    timeouts, cancellation and shutdown. Callbacks and responses are effects in a log and do not call back into the manager; counts are natural
    numbers. Which sessions exist and have a channel is an argument of the steps that send responses, since the manager looks it up at that moment: a
    response is logged as sent, with its session, or as dropped. The properties say that every operation settles once, which responses are sent and which are
    dropped, and what a result handed in does; the last theory shows that the manager satisfies the contract
    \<open>async_server\<close> of the library's registry.
  \<^item> \<open>UA_Encoding\<close>, \<open>UA_Decoding\<close>: the binary encoder with its buffers and the exchange callback, whose answers are a list in the
    context, and the decoder, whose depth counter is an argument; a build for little-endian machines with IEEE floats. \<open>UA_Wire\<close> gives
    the bytes of a value as a function and proves that the encoder writes them into any sequence of buffers, and what it leaves in a buffer
    that is too small; \<open>UA_WireDecode\<close> what the decoder makes of them and of any other input, \<open>UA_WireExact\<close> that it looks at no byte behind those it consumes and
    refuses any shorter piece of them; \<open>UA_Wire_Props\<close> the round trips, also from a setter of one process to the
    getter of another; \<open>UA_Structs\<close>, \<open>UA_Structs_Props\<close>: node ids, names, texts and data values.
  \<^item> \<open>Assignable\<close>: the contract of the copy assignments, a locale interpreted on strings, byte strings,
    node ids and data values; assigning an object to itself is the case they all get wrong.
  \<^item> \<open>UaStrings\<close>, \<open>UaNodeIds\<close>, \<open>UaArrays\<close>, \<open>UaDateTimes\<close>, \<open>UaDataValues\<close>, \<open>UaSync\<close>: the remaining value
    classes, the calendar behind dates, semaphore and thread.
  \<^item> \<open>UaVariant_Set\<close>, \<open>UaVariant_Get\<close>: every setter and getter of \<open>src/uavariant.cpp\<close>; \<open>UaVariant_Laws\<close> states
    the contract of an element type as two locales, for types copied by value and for types that own memory,
    interpreted on all fourteen types; \<open>UaVariant_Props\<close>, \<open>_Conv\<close> and \<open>_Compare\<close> hold the properties: round
    trips of scalars, arrays and matrices, the invariant of every setter, exactness of conversions, comparison.
  \<^item> \<open>AsyncOps\<close>: blocks of the three kinds and their completion; \<open>AsyncRegistry\<close>: the registry, the
    completion queue, drain, cancel and shutdown as functions, with the contract between registry and stack as a locale;
    \<open>AsyncSystem\<close>: server thread, workers, cancellation and shutdown as a transition system, one step per
    access to a mutex or an atomic, locking the block before it is pushed among them; \<open>AsyncLifecycle\<close>: the refinement of the four-phase life cycle of an
    operation; \<open>AsyncShutdown\<close>: what drain and shutdown achieve.
  \<^item> \<open>UaNodes\<close>: the node classes on a heap of objects; \<open>UaHandlers\<close>: the callbacks \<open>unifiedRead\<close>,
    \<open>unifiedWrite\<close>, \<open>unifiedCall\<close> and the completion handles; \<open>NodeManagers\<close>, \<open>NodeManagerProps\<close>: adding,
    finding and deleting nodes.
  \<^item> \<open>UaServers\<close>: start, run and stop; \<open>UaServerConfig\<close>: \<open>setServerConfig\<close> with and without \<open>SERVERCONFIG_LOADER\<close>;
    \<open>UaSessions\<close>, \<open>UaSessionProps\<close>: the client; \<open>UaSession_KeepAlive\<close>: its keep-alive thread in the build with \<open>OPCUA_2603\<close>,
    interleaved with the services, where a step whose behaviour is undefined (a null client, a future without state) ends the run; \<open>LogItLogger\<close>: the bridge from the stack's log to LogIt.

  Bounds. Recursions are structural or have a measure; there is no fuel. A drain of a queue of \<open>n\<close>
  completed operations ends after \<open>n + 2\<close> steps of the server, which the liveness property states.
  The counter of operations in flight has 32 bits; its invariant is stated modulo \<open>2 ^ 32\<close> and
  equals the count as long as fewer operations are outstanding. Lengths are natural numbers
  where the code keeps \<open>size_t\<close>; where they are converted to 32 bits, the conversion is written out.

  The decoder recurses on 102 minus the depth, which its own limit of 100 keeps positive; the encoder on the size of the value; an
  array sent in chunks on the number of buffers to come. The chunking property asks for buffers of at least 16 bytes, the largest piece the
  encoder never divides, and for as many buffers as bytes.

  Not modelled. The rest of the stack: network, sessions and subscriptions, services other than the dispatch of asynchronous reads, writes and
  calls, the address space, the encodings of extension objects, diagnostic infos and generic structures, JSON and XML; where the library calls
  it, its functions are parameters with their documented behaviour. The generated XML parser behind the
  configuration, \<open>boost\<close>, LogIt. Floating point arithmetic and the clock. Log texts, unless their construction can fail.
  Memory of values being built by the decoder: a failed decoding leaves a zeroed value. Tests, examples and build files.
\<close>

text \<open>
  The properties are in the theories of their components; each stands after a text with its identifier.
\<close>

end
